(* ===== verification/Naaz_Prelude.thy ===== *)
theory Naaz_Prelude
  imports Main "HOL-Library.Word"
begin

text \<open>
  Shared vocabulary of the development: the failure values of the C++ code, the result and
  state-result monads in which its operations are written, the total-correctness triples used
  to specify them, and generic lemmas on bits, lists and association lists.
\<close>

section \<open>Failures\<close>

text \<open>
  Every way in which an operation of the code does not return normally: \<open>exit_fail()\<close>
  (\<open>Exit\<close>, with the place of the message), a failed \<open>assert\<close>, a standard-library exception
  (\<open>std::out_of_range\<close>, \<open>std::invalid_argument\<close>, \<open>std::bad_optional_access\<close>), the
  \<open>UnsatStateException\<close> of the executor, and behaviour the C++ standard leaves undefined
  (reading an uninitialised member, dividing by zero, shifting by too much).
\<close>

datatype fail =
    Exit string
  | Assertion string
  | StdException string
  | UnsatState
  | Undefined string

type_synonym 'a res = "fail + 'a"

section \<open>The result monad\<close>

definition rbind :: "'a res \<Rightarrow> ('a \<Rightarrow> 'b res) \<Rightarrow> 'b res" where
  "rbind m f = (case m of Inl e \<Rightarrow> Inl e | Inr x \<Rightarrow> f x)"

lemma rbind_simps [simp]:
  "rbind (Inl e) f = Inl e"
  "rbind (Inr x) f = f x"
  by (simp_all add: rbind_def)

lemma rbind_Inr_iff: "rbind m f = Inr y \<longleftrightarrow> (\<exists>x. m = Inr x \<and> f x = Inr y)"
  by (cases m) auto

lemma rbind_cong [fundef_cong]:
  "m = m' \<Longrightarrow> (\<And>x. m' = Inr x \<Longrightarrow> f x = g x) \<Longrightarrow> rbind m f = rbind m' g"
  by (cases m') auto

section \<open>The state-result monad\<close>

text \<open>
  A stateful operation maps the state to a failure or to its value and the next state.
\<close>

type_synonym ('s, 'a) smonad = "'s \<Rightarrow> fail + 'a \<times> 's"

definition ret :: "'a \<Rightarrow> ('s, 'a) smonad" where
  "ret x = (\<lambda>s. Inr (x, s))"

definition throw :: "fail \<Rightarrow> ('s, 'a) smonad" where
  "throw e = (\<lambda>s. Inl e)"

definition bnd :: "('s, 'a) smonad \<Rightarrow> ('a \<Rightarrow> ('s, 'b) smonad) \<Rightarrow> ('s, 'b) smonad" where
  "bnd m f = (\<lambda>s. case m s of Inl e \<Rightarrow> Inl e | Inr (x, s') \<Rightarrow> f x s')"

definition liftr :: "'a res \<Rightarrow> ('s, 'a) smonad" where
  "liftr r = (case r of Inl e \<Rightarrow> throw e | Inr x \<Rightarrow> ret x)"

lemma liftr_simps [simp]:
  "liftr (Inl e) = throw e"
  "liftr (Inr x) = ret x"
  by (simp_all add: liftr_def)

lemma bnd_ret [simp]: "bnd (ret x) f = f x"
  by (simp add: bnd_def ret_def fun_eq_iff)

lemma bnd_throw [simp]: "bnd (throw e) f = throw e"
  by (simp add: bnd_def throw_def fun_eq_iff)

lemma ret_apply: "ret x s = Inr (x, s)"
  by (simp add: ret_def)

lemma throw_apply: "throw e s = Inl e"
  by (simp add: throw_def)

lemma bnd_cong [fundef_cong]:
  "m = m' \<Longrightarrow> (\<And>x. f x = g x) \<Longrightarrow> bnd m f = bnd m' g"
  by (simp add: bnd_def fun_eq_iff cong: sum.case_cong prod.case_cong)

subsection \<open>Total-correctness triples\<close>

text \<open>
  \<open>tot P m Q\<close>: from every state that satisfies \<open>P\<close>, the operation \<open>m\<close> returns normally, with
  a value and a state that satisfy \<open>Q\<close>.
\<close>

definition tot :: "('s \<Rightarrow> bool) \<Rightarrow> ('s, 'a) smonad \<Rightarrow> ('a \<Rightarrow> 's \<Rightarrow> bool) \<Rightarrow> bool" where
  "tot P m Q \<longleftrightarrow> (\<forall>s. P s \<longrightarrow> (\<exists>x s'. m s = Inr (x, s') \<and> Q x s'))"

named_theorems triple \<open>total-correctness triples of the operations\<close>

lemma totI: "(\<And>s. P s \<Longrightarrow> \<exists>x s'. m s = Inr (x, s') \<and> Q x s') \<Longrightarrow> tot P m Q"
  by (simp add: tot_def)

lemma totE:
  assumes "tot P m Q" and "P s"
  obtains x s' where "m s = Inr (x, s')" and "Q x s'"
  using assms by (auto simp: tot_def)

lemma tot_ret: "(\<And>s. P s \<Longrightarrow> Q x s) \<Longrightarrow> tot P (ret x) Q"
  by (simp add: tot_def ret_apply)

lemma tot_bnd:
  "tot P m R \<Longrightarrow> (\<And>x. tot (R x) (f x) Q) \<Longrightarrow> tot P (bnd m f) Q"
  by (fastforce simp: tot_def bnd_def)

lemma tot_conseq:
  "tot P m Q \<Longrightarrow> (\<And>s. P' s \<Longrightarrow> P s) \<Longrightarrow> (\<And>x s. Q x s \<Longrightarrow> Q' x s) \<Longrightarrow> tot P' m Q'"
  by (fastforce simp: tot_def)

lemma tot_pre_pure: "(A \<Longrightarrow> tot P m Q) \<Longrightarrow> tot (\<lambda>s. A \<and> P s) m Q"
  by (auto simp: tot_def)

lemma tot_if:
  "(b \<Longrightarrow> tot P m Q) \<Longrightarrow> (\<not> b \<Longrightarrow> tot P m' Q) \<Longrightarrow> tot P (if b then m else m') Q"
  by simp

section \<open>Bits of integers\<close>

text \<open>The loop that copies bits \<open>off, \<dots>, off + n - 1\<close> of \<open>src\<close> to the low bits of \<open>tmp\<close>.\<close>

primrec copy_bits :: "nat \<Rightarrow> nat \<Rightarrow> int \<Rightarrow> int \<Rightarrow> int" where
  "copy_bits 0 off src tmp = tmp"
| "copy_bits (Suc n) off src tmp =
     (let t = copy_bits n off src tmp
      in if bit src (n + off) then set_bit n t else unset_bit n t)"

lemma bit_copy_bits:
  "bit (copy_bits n off src tmp) i \<longleftrightarrow> (if i < n then bit src (i + off) else bit tmp i)"
  by (induction n) (auto simp: Let_def bit_simps less_Suc_eq)

lemma copy_bits_0 [simp]: "copy_bits n off src 0 = take_bit n (drop_bit off src)"
  by (rule bit_eqI) (auto simp: bit_copy_bits bit_simps add.commute)

lemma take_bit_less_exp [simp]: "take_bit n (x :: int) < 2 ^ n"
  by simp

lemma take_bit_id: "0 \<le> x \<Longrightarrow> x < 2 ^ n \<Longrightarrow> take_bit n x = (x :: int)"
  by (simp add: take_bit_int_eq_self)

lemma take_bit_absorb [simp]: "m \<le> n \<Longrightarrow> take_bit m (take_bit n (x :: int)) = take_bit m x"
  by (simp add: min_def)

end
