(* ===== verification/BVConst.thy ===== *)
theory BVConst
  imports Naaz_Prelude "HOL-Library.Signed_Division"
begin

unbundle bit_operations_syntax

text \<open>
  Bit-vector constants: \<^verbatim>\<open>expr/BVConst.hpp\<close> and \<^verbatim>\<open>expr/BVConst.cpp\<close>. A constant has a width in
  bits and two representations of its value, a 64-bit machine word for widths up to 64 and a GMP
  integer above; every operation is written twice in the source and twice here. The section at
  the end proves that each operation computes the modular arithmetic its name promises
  (\<open>bv_rep n v c\<close>: \<open>c\<close> is a well-formed constant of width \<open>n\<close> and value \<open>v\<close>), and where it does not.

  Modelling choices: a GMP integer (\<^verbatim>\<open>mpz_class\<close>) is an \<open>int\<close>, so \<^verbatim>\<open>mpz_tstbit\<close> is \<open>bit\<close>,
  \<^verbatim>\<open>mpz_setbit\<close> is \<open>set_bit\<close> and \<^verbatim>\<open>operator/\<close> truncates; \<^verbatim>\<open>m_small_val\<close> is \<open>None\<close> while no
  constructor has written it, and reading it then is undefined behaviour.
\<close>

section \<open>Representation\<close>

record bvconst =
  m_size :: nat
  m_small_val :: "64 word option"
  m_big_val :: int

definition is_big :: "bvconst \<Rightarrow> bool" where
  "is_big c \<longleftrightarrow> m_size c > 64"

text \<open>Reading \<^verbatim>\<open>m_small_val\<close>.\<close>

definition small_val :: "bvconst \<Rightarrow> 64 word res" where
  "small_val c = (case m_small_val c of
     None \<Rightarrow> Inl (Undefined ''m_small_val is not initialised'') | Some w \<Rightarrow> Inr w)"

definition check_size_or_die :: "bvconst \<Rightarrow> bvconst \<Rightarrow> unit res" where
  "check_size_or_die lhs rhs =
     (if m_size lhs \<noteq> m_size rhs then Inl (Exit ''check_size_or_die'') else Inr ())"

definition sext64 :: "64 word \<Rightarrow> nat \<Rightarrow> 64 word res" where
  "sext64 v sz =
     (if sz > 64 then Inl (Exit ''sext'')
      else if sz = 64 then Inr v
      else if sz = 0 then Inl (Undefined ''shift by -1'')
      else if v AND push_bit (sz - 1) 1 \<noteq> 0
        then Inr (v OR push_bit sz (push_bit (64 - sz) 2 - 1))
      else Inr v)"

definition mpz_as_signed :: "int \<Rightarrow> nat \<Rightarrow> int" where
  "mpz_as_signed val sz =
     (if \<not> bit val (sz - 1) then val else - (set_bit sz 0 - val))"

definition bitmask :: "nat \<Rightarrow> 64 word res" where
  "bitmask sz =
     (if sz > 64 then Inl (Exit ''_bitmask'')
      else if sz = 0 then Inl (Undefined ''shift by -1'')
      else Inr (push_bit (sz - 1) 2 - 1))"

text \<open>\<^verbatim>\<open>mpz_sizeinbase(v, 2)\<close>: the number of binary digits of the magnitude.\<close>

fun nat_bits :: "nat \<Rightarrow> nat" where
  "nat_bits n = (if n < 2 then 1 else Suc (nat_bits (n div 2)))"

declare nat_bits.simps [simp del]

definition mpz_sizeinbase2 :: "int \<Rightarrow> nat" where
  "mpz_sizeinbase2 v = nat_bits (nat \<bar>v\<bar>)"

definition adjust_bits :: "bvconst \<Rightarrow> bvconst res" where
  "adjust_bits c =
     (if m_size c = 64 then Inr c
      else if \<not> is_big c then
        rbind (small_val c) (\<lambda>w. rbind (bitmask (m_size c)) (\<lambda>m.
          Inr (c\<lparr>m_small_val := Some (w AND m)\<rparr>)))
      else
        (let v = unset_bit (m_size c) (m_big_val c)
         in if mpz_sizeinbase2 v > m_size c then
              (let tmp = unset_bit (m_size c) (copy_bits (m_size c) 0 v 0)
               in if mpz_sizeinbase2 tmp \<le> m_size c
                  then Inr (c\<lparr>m_big_val := tmp\<rparr>)
                  else Inl (Assertion ''adjust_bits''))
            else Inr (c\<lparr>m_big_val := v\<rparr>)))"

definition as_mpz :: "bvconst \<Rightarrow> int res" where
  "as_mpz c = (if is_big c then Inr (m_big_val c) else rbind (small_val c) (\<lambda>w. Inr (uint w)))"

section \<open>Construction\<close>

definition BVConst_u64 :: "64 word \<Rightarrow> nat \<Rightarrow> bvconst res" where
  "BVConst_u64 value sz =
     (if sz = 0 then Inl (Exit ''BVConst'')
      else if sz \<le> 64
        then adjust_bits \<lparr>m_size = sz, m_small_val = Some value, m_big_val = 0\<rparr>
      else adjust_bits \<lparr>m_size = sz, m_small_val = None, m_big_val = uint value\<rparr>)"

definition BVConst_copy :: "bvconst \<Rightarrow> bvconst" where
  "BVConst_copy other =
     (if m_size other \<le> 64
      then \<lparr>m_size = m_size other, m_small_val = m_small_val other, m_big_val = 0\<rparr>
      else \<lparr>m_size = m_size other, m_small_val = None, m_big_val = m_big_val other\<rparr>)"

definition BVConst_default :: bvconst where
  "BVConst_default = \<lparr>m_size = 1, m_small_val = Some 0, m_big_val = 0\<rparr>"

datatype endianess = LITTLE | BIG

text \<open>The constructor from bytes: the value is assembled byte by byte, or bit by bit.\<close>

definition data_byte_small :: "8 word list \<Rightarrow> endianess \<Rightarrow> nat \<Rightarrow> 64 word" where
  "data_byte_small data end i =
     push_bit (if end = LITTLE then i * 8 else (length data - i - 1) * 8) (ucast (data ! i))"

definition data_bit_big :: "8 word list \<Rightarrow> endianess \<Rightarrow> nat \<Rightarrow> nat \<Rightarrow> bool" where
  "data_bit_big data end i j =
     bit (if end = LITTLE then data ! i else data ! (length data - i - 1)) j"

definition set_data_bit :: "8 word list \<Rightarrow> endianess \<Rightarrow> int \<Rightarrow> nat \<times> nat \<Rightarrow> int" where
  "set_data_bit data end v ij =
     (let i = fst ij; j = snd ij
      in if data_bit_big data end i j then set_bit (i * 8 + j) v else unset_bit (i * 8 + j) v)"

definition BVConst_data :: "8 word list \<Rightarrow> endianess \<Rightarrow> bvconst res" where
  "BVConst_data data end =
     (let sz = length data
      in if sz * 8 \<le> 64
         then adjust_bits \<lparr>m_size = sz * 8,
                m_small_val = Some (foldl (\<lambda>v i. v OR data_byte_small data end i) 0 [0..<sz]),
                m_big_val = 0\<rparr>
         else adjust_bits \<lparr>m_size = sz * 8, m_small_val = Some 0,
                m_big_val = foldl (set_data_bit data end) 0
                  (List.product [0..<sz] [0..<8])\<rparr>)"

text \<open>
  The constructor from a numeral. \<^verbatim>\<open>std::stoul\<close> skips white space, accepts a sign (negation is
  modulo \<open>2\<^sup>6\<^sup>4\<close>), for base 16 a \<^verbatim>\<open>0x\<close> prefix, and reads the longest run of digits, failing when it
  is empty or the value needs more than 64 bits; the GMP constructor ignores white space, accepts
  a minus sign and fails unless everything else is a digit.
\<close>

definition digit_val :: "nat \<Rightarrow> char \<Rightarrow> nat option" where
  "digit_val base ch =
     (let c = (of_char ch :: nat);
          d = (if 48 \<le> c \<and> c \<le> 57 then c - 48
               else if 97 \<le> c \<and> c \<le> 122 then c - 87
               else if 65 \<le> c \<and> c \<le> 90 then c - 55 else 36)
      in if d < base then Some d else None)"

fun digits_prefix :: "nat \<Rightarrow> string \<Rightarrow> nat list" where
  "digits_prefix base [] = []"
| "digits_prefix base (c # cs) =
     (case digit_val base c of None \<Rightarrow> [] | Some d \<Rightarrow> d # digits_prefix base cs)"

definition digits_value :: "nat \<Rightarrow> nat list \<Rightarrow> nat" where
  "digits_value base ds = foldl (\<lambda>acc d. acc * base + d) 0 ds"

definition is_space :: "char \<Rightarrow> bool" where
  "is_space ch = (let c = (of_char ch :: nat) in c = 32 \<or> (9 \<le> c \<and> c \<le> 13))"

definition strip_hex_prefix :: "nat \<Rightarrow> string \<Rightarrow> string" where
  "strip_hex_prefix base s = (case s of
     c0 # c1 # c2 # cs \<Rightarrow>
       (if base = 16 \<and> c0 = CHR ''0'' \<and> (c1 = CHR ''x'' \<or> c1 = CHR ''X'')
           \<and> digit_val 16 c2 \<noteq> None then c2 # cs else s)
   | _ \<Rightarrow> s)"

definition stoul :: "string \<Rightarrow> nat \<Rightarrow> 64 word res" where
  "stoul s base =
     (let s1 = dropWhile is_space s;
          neg = (case s1 of c # _ \<Rightarrow> c = CHR ''-'' | [] \<Rightarrow> False);
          s2 = (case s1 of c # cs \<Rightarrow> if c = CHR ''-'' \<or> c = CHR ''+'' then cs else s1 | [] \<Rightarrow> []);
          ds = digits_prefix base (strip_hex_prefix base s2);
          v = digits_value base ds
      in if ds = [] then Inl (StdException ''invalid_argument'')
         else if v \<ge> 2 ^ 64 then Inl (StdException ''out_of_range'')
         else Inr (if neg then - of_nat v else of_nat v))"

definition mpz_of_string :: "string \<Rightarrow> nat \<Rightarrow> int res" where
  "mpz_of_string s base =
     (let s1 = filter (\<lambda>c. \<not> is_space c) s;
          neg = (case s1 of c # _ \<Rightarrow> c = CHR ''-'' | [] \<Rightarrow> False);
          s2 = (if neg then tl s1 else s1);
          ds = digits_prefix base s2
      in if ds = [] \<or> length ds \<noteq> length s2 then Inl (StdException ''invalid_argument'')
         else Inr (if neg then - int (digits_value base ds) else int (digits_value base ds)))"

definition numeral_base :: "string \<Rightarrow> nat \<times> string" where
  "numeral_base value =
     (if take 2 value = ''0x'' then (16, drop 2 value)
      else if take 2 value = ''0b'' then (2, drop 2 value)
      else (10, value))"

definition BVConst_str :: "string \<Rightarrow> nat \<Rightarrow> bvconst res" where
  "BVConst_str value sz =
     (if sz = 0 then Inl (Exit ''BVConst'')
      else case numeral_base value of (base, num) \<Rightarrow>
        if sz \<le> 64
        then rbind (stoul num base) (\<lambda>w.
               adjust_bits \<lparr>m_size = sz, m_small_val = Some w, m_big_val = 0\<rparr>)
        else rbind (mpz_of_string num base) (\<lambda>v.
               adjust_bits \<lparr>m_size = sz, m_small_val = None, m_big_val = v\<rparr>))"

section \<open>Comparison\<close>

definition bv_eq :: "bvconst \<Rightarrow> bvconst \<Rightarrow> bool res" where
  "bv_eq a b = rbind (check_size_or_die a b) (\<lambda>_.
     if \<not> is_big a then rbind (small_val a) (\<lambda>x. rbind (small_val b) (\<lambda>y. Inr (x = y)))
     else Inr (m_big_val a = m_big_val b))"

text \<open>\<^verbatim>\<open>mpz_cmpabs\<close> compares magnitudes.\<close>

definition bv_ult :: "bvconst \<Rightarrow> bvconst \<Rightarrow> bool res" where
  "bv_ult a b = rbind (check_size_or_die a b) (\<lambda>_.
     if \<not> is_big a then rbind (small_val a) (\<lambda>x. rbind (small_val b) (\<lambda>y. Inr (x < y)))
     else Inr (\<bar>m_big_val a\<bar> < \<bar>m_big_val b\<bar>))"

definition bv_ule :: "bvconst \<Rightarrow> bvconst \<Rightarrow> bool res" where
  "bv_ule a b = rbind (bv_eq a b) (\<lambda>e. if e then Inr True else bv_ult a b)"

definition bv_ugt :: "bvconst \<Rightarrow> bvconst \<Rightarrow> bool res" where
  "bv_ugt a b = rbind (bv_ule a b) (\<lambda>r. Inr (\<not> r))"

definition bv_uge :: "bvconst \<Rightarrow> bvconst \<Rightarrow> bool res" where
  "bv_uge a b = rbind (bv_ult a b) (\<lambda>r. Inr (\<not> r))"

definition bv_slt :: "bvconst \<Rightarrow> bvconst \<Rightarrow> bool res" where
  "bv_slt a b = rbind (check_size_or_die a b) (\<lambda>_.
     if \<not> is_big a then
       rbind (small_val a) (\<lambda>x. rbind (sext64 x (m_size a)) (\<lambda>sx.
       rbind (small_val b) (\<lambda>y. rbind (sext64 y (m_size b)) (\<lambda>sy.
         Inr (sint sx < sint sy)))))
     else if bit (m_big_val a) (m_size a - 1) then
       (if bit (m_big_val b) (m_size a - 1)
        then Inr (\<bar>m_big_val a\<bar> < \<bar>m_big_val b\<bar>)
        else Inr True)
     else
       (if bit (m_big_val b) (m_size a - 1)
        then Inr True
        else Inr (\<bar>m_big_val a\<bar> < \<bar>m_big_val b\<bar>)))"

definition bv_sle :: "bvconst \<Rightarrow> bvconst \<Rightarrow> bool res" where
  "bv_sle a b = rbind (bv_eq a b) (\<lambda>e. if e then Inr True else bv_slt a b)"

definition bv_sgt :: "bvconst \<Rightarrow> bvconst \<Rightarrow> bool res" where
  "bv_sgt a b = rbind (bv_sle a b) (\<lambda>r. Inr (\<not> r))"

definition bv_sge :: "bvconst \<Rightarrow> bvconst \<Rightarrow> bool res" where
  "bv_sge a b = rbind (bv_slt a b) (\<lambda>r. Inr (\<not> r))"

definition bv_is_zero :: "bvconst \<Rightarrow> bool res" where
  "bv_is_zero c =
     (if \<not> is_big c then rbind (small_val c) (\<lambda>w. Inr (w = 0))
      else rbind (BVConst_u64 0 (m_size c)) (bv_eq c))"

definition bv_is_one :: "bvconst \<Rightarrow> bool res" where
  "bv_is_one c =
     (if \<not> is_big c then rbind (small_val c) (\<lambda>w. Inr (w = 1))
      else rbind (BVConst_u64 1 (m_size c)) (bv_eq c))"

definition bv_has_all_bit_set :: "bvconst \<Rightarrow> bool res" where
  "bv_has_all_bit_set c = rbind (BVConst_str ''-1'' (m_size c)) (bv_eq c)"

section \<open>Observers\<close>

definition bv_as_u64 :: "bvconst \<Rightarrow> 64 word res" where
  "bv_as_u64 c =
     rbind (BVConst_str ''0xffffffffffffffff'' (m_size c)) (\<lambda>m. rbind (bv_ugt c m) (\<lambda>g.
       if g then Inl (Exit ''as_u64'') else small_val c))"

text \<open>The returned \<^verbatim>\<open>int64_t\<close> is its 64-bit pattern, read with \<open>sint\<close>.\<close>

definition bv_as_s64 :: "bvconst \<Rightarrow> 64 word res" where
  "bv_as_s64 c =
     rbind (BVConst_str ''0x7fffffffffffffff'' (m_size c)) (\<lambda>m. rbind (bv_ugt c m) (\<lambda>g.
       if g then Inl (Exit ''as_s64'')
       else rbind (small_val c) (\<lambda>w. sext64 w (m_size c))))"

definition bv_fit_in_u64 :: "bvconst \<Rightarrow> bool res" where
  "bv_fit_in_u64 c =
     rbind (BVConst_str ''0xffffffffffffffff'' (m_size c)) (\<lambda>m. rbind (bv_ugt c m) (\<lambda>g.
       Inr (\<not> g)))"

definition bv_fit_in_s64 :: "bvconst \<Rightarrow> bool res" where
  "bv_fit_in_s64 c =
     rbind (BVConst_str ''0x7fffffffffffffff'' (m_size c)) (\<lambda>m. rbind (bv_ugt c m) (\<lambda>g.
       Inr (\<not> g)))"

text \<open>
  The mask \<^verbatim>\<open>1 << idx\<close> of the small case is a 32-bit signed \<^verbatim>\<open>int\<close>: at index 31 it is negative and
  its conversion to 64 bits sets the bits 31 to 63, and beyond that the shift is undefined.
\<close>

definition bv_get_bit :: "bvconst \<Rightarrow> nat \<Rightarrow> bool res" where
  "bv_get_bit c idx =
     (if idx \<ge> m_size c then Inl (Exit ''get_bit'')
      else if \<not> is_big c then
        (if idx \<ge> 32 then Inl (Undefined ''1 << idx'')
         else rbind (small_val c) (\<lambda>w.
           Inr (w AND (scast (push_bit idx (1 :: 32 word)) :: 64 word) > 0)))
      else Inr (bit (m_big_val c) idx))"

definition bv_get_byte :: "bvconst \<Rightarrow> nat \<Rightarrow> 8 word res" where
  "bv_get_byte c idx =
     (let low = idx * 8; high = low + 7
      in if high \<ge> m_size c then Inl (Exit ''get_byte'')
         else if \<not> is_big c then
           rbind (small_val c) (\<lambda>w. rbind (bitmask (high - low + 1)) (\<lambda>m.
             Inr (ucast (drop_bit low w AND m))))
         else Inr (foldl (\<lambda>r i. if i + low \<ge> m_size c then r
                               else r OR push_bit i (of_bool (bit (m_big_val c) (i + low))))
                    0 [0..<8]))"

fun bytes_down :: "bvconst \<Rightarrow> nat \<Rightarrow> 8 word list res" where
  "bytes_down c 0 = Inr []"
| "bytes_down c (Suc i) =
     rbind (bv_get_byte c i) (\<lambda>b. rbind (bytes_down c i) (\<lambda>bs. Inr (b # bs)))"

definition bv_as_data :: "bvconst \<Rightarrow> 8 word list res" where
  "bv_as_data c =
     (let num_bytes = m_size c div 8 + (if m_size c mod 8 = 0 then 0 else 1)
      in bytes_down c num_bytes)"

text \<open>The big case combines the shifted bytes as 32-bit signed integers.\<close>

definition bv_hash :: "bvconst \<Rightarrow> 64 word res" where
  "bv_hash c =
     (if \<not> is_big c then rbind (small_val c) (\<lambda>w. Inr (w XOR push_bit 32 (of_nat (m_size c))))
      else rbind (bv_get_byte c 0) (\<lambda>b0. rbind (bv_get_byte c 1) (\<lambda>b1.
           rbind (bv_get_byte c 2) (\<lambda>b2. rbind (bv_get_byte c 3) (\<lambda>b3.
             Inr (scast (push_bit 24 (ucast b0 :: 32 word) OR push_bit 16 (ucast b1)
                         OR push_bit 8 (ucast b2) OR ucast b3 :: 32 word)))))))"

section \<open>Structure\<close>

definition bv_concat :: "bvconst \<Rightarrow> bvconst \<Rightarrow> bvconst res" where
  "bv_concat a b =
     (let new_size = m_size a + m_size b
      in rbind
        (if new_size \<le> 64
         then rbind (small_val a) (\<lambda>x. rbind (small_val b) (\<lambda>y.
                Inr (a\<lparr>m_small_val := Some (push_bit (m_size b) x OR y)\<rparr>)))
         else rbind (as_mpz a) (\<lambda>x. rbind (as_mpz b) (\<lambda>y.
                Inr (a\<lparr>m_big_val := push_bit (m_size b) x OR y\<rparr>))))
        (\<lambda>c. adjust_bits (c\<lparr>m_size := new_size\<rparr>)))"

definition bv_zext :: "bvconst \<Rightarrow> nat \<Rightarrow> bvconst res" where
  "bv_zext c sz =
     (if m_size c > sz then Inl (Exit ''zext'')
      else if sz \<le> 64 then Inr (c\<lparr>m_size := sz\<rparr>)
      else if is_big c then Inr (c\<lparr>m_size := sz\<rparr>)
      else rbind (small_val c) (\<lambda>w. Inr (c\<lparr>m_big_val := uint w, m_size := sz\<rparr>)))"

definition bv_sext :: "bvconst \<Rightarrow> nat \<Rightarrow> bvconst res" where
  "bv_sext c sz =
     (if m_size c > sz then Inl (Exit ''sext'')
      else if sz = m_size c then Inr c
      else if sz \<le> 64 then
        rbind (small_val c) (\<lambda>w. rbind (sext64 w (m_size c)) (\<lambda>s.
          adjust_bits (c\<lparr>m_small_val := Some s, m_size := sz\<rparr>)))
      else rbind
        (if \<not> is_big c then rbind (small_val c) (\<lambda>w. Inr (uint w)) else Inr (m_big_val c))
        (\<lambda>v. Inr (c\<lparr>m_big_val :=
                (if bit v (m_size c - 1)
                 then foldl (\<lambda>t i. set_bit i t) v [m_size c..<sz] else v),
               m_size := sz\<rparr>)))"

definition bv_extract :: "bvconst \<Rightarrow> nat \<Rightarrow> nat \<Rightarrow> bvconst res" where
  "bv_extract c high low =
     (if high < low then Inl (Exit ''extract'')
      else (let n = high - low + 1
        in if \<not> is_big c then
             (if low \<ge> 64 then Inl (Undefined ''shift by 64 or more'')
              else rbind (small_val c) (\<lambda>w. rbind (bitmask n) (\<lambda>m.
                Inr (c\<lparr>m_size := n, m_small_val := Some (drop_bit low w AND m)\<rparr>))))
           else
             (let tmp = copy_bits n low (m_big_val c) 0
              in if n \<le> 64 then Inr (c\<lparr>m_size := n, m_small_val := Some (word_of_int tmp)\<rparr>)
                 else Inr (c\<lparr>m_size := n, m_big_val := tmp\<rparr>))))"

section \<open>Arithmetic\<close>

text \<open>
  The shape shared by the binary operations: check the widths, combine the machine words or the
  big integers, truncate.
\<close>

definition bv_binop :: "(64 word \<Rightarrow> 64 word \<Rightarrow> 64 word res) \<Rightarrow> (int \<Rightarrow> int \<Rightarrow> int res)
    \<Rightarrow> bvconst \<Rightarrow> bvconst \<Rightarrow> bvconst res" where
  "bv_binop f g a b = rbind (check_size_or_die a b) (\<lambda>_.
     rbind
       (if \<not> is_big a then
          rbind (small_val a) (\<lambda>x. rbind (small_val b) (\<lambda>y. rbind (f x y) (\<lambda>z.
            Inr (a\<lparr>m_small_val := Some z\<rparr>))))
        else rbind (g (m_big_val a) (m_big_val b)) (\<lambda>z. Inr (a\<lparr>m_big_val := z\<rparr>)))
       adjust_bits)"

definition bv_add :: "bvconst \<Rightarrow> bvconst \<Rightarrow> bvconst res" where
  "bv_add = bv_binop (\<lambda>x y. Inr (x + y)) (\<lambda>x y. Inr (x + y))"

definition bv_sub :: "bvconst \<Rightarrow> bvconst \<Rightarrow> bvconst res" where
  "bv_sub = bv_binop (\<lambda>x y. Inr (x - y)) (\<lambda>x y. Inr (x - y))"

definition bv_mul :: "bvconst \<Rightarrow> bvconst \<Rightarrow> bvconst res" where
  "bv_mul = bv_binop (\<lambda>x y. Inr (x * y)) (\<lambda>x y. Inr (x * y))"

text \<open>\<^verbatim>\<open>umul\<close> picks the representation by the width of the product, not of the operands.\<close>

definition bv_umul :: "bvconst \<Rightarrow> bvconst \<Rightarrow> bvconst res" where
  "bv_umul a b = rbind (check_size_or_die a b) (\<lambda>_.
     let new_size = m_size a * 2
     in rbind
       (if new_size \<le> 64 then
          rbind (small_val a) (\<lambda>x. rbind (small_val b) (\<lambda>y.
            Inr (a\<lparr>m_small_val := Some (x * y)\<rparr>)))
        else Inr (a\<lparr>m_big_val := m_big_val a * m_big_val b\<rparr>))
       (\<lambda>c. adjust_bits (c\<lparr>m_size := new_size\<rparr>)))"

definition bv_smul :: "bvconst \<Rightarrow> bvconst \<Rightarrow> bvconst res" where
  "bv_smul a b = rbind (check_size_or_die a b) (\<lambda>_.
     let new_size = m_size a * 2
     in rbind
       (if new_size \<le> 64 then
          rbind (small_val a) (\<lambda>x. rbind (sext64 x (m_size a)) (\<lambda>sx.
          rbind (small_val b) (\<lambda>y. rbind (sext64 y (m_size a)) (\<lambda>sy.
            Inr (a\<lparr>m_small_val := Some (sx * sy)\<rparr>)))))
        else rbind (as_mpz a) (\<lambda>x. rbind (as_mpz b) (\<lambda>y.
            Inr (a\<lparr>m_big_val := mpz_as_signed x (m_size a) * mpz_as_signed y (m_size a)\<rparr>))))
       (\<lambda>c. adjust_bits (c\<lparr>m_size := new_size\<rparr>)))"

definition bv_udiv :: "bvconst \<Rightarrow> bvconst \<Rightarrow> bvconst res" where
  "bv_udiv = bv_binop
     (\<lambda>x y. if y = 0 then Inl (Undefined ''division by zero'') else Inr (x div y))
     (\<lambda>x y. if y = 0 then Inl (Undefined ''division by zero'') else Inr (x sdiv y))"

definition bv_urem :: "bvconst \<Rightarrow> bvconst \<Rightarrow> bvconst res" where
  "bv_urem = bv_binop
     (\<lambda>x y. if y = 0 then Inl (Undefined ''division by zero'') else Inr (x mod y))
     (\<lambda>x y. if y = 0 then Inl (Undefined ''division by zero'') else Inr (x smod y))"

text \<open>Division and remainder of two \<^verbatim>\<open>int64_t\<close>: truncating, undefined when the quotient overflows.\<close>

definition s64_div :: "64 word \<Rightarrow> 64 word \<Rightarrow> 64 word res" where
  "s64_div x y =
     (if y = 0 then Inl (Undefined ''division by zero'')
      else if sint x = - (2 ^ 63) \<and> sint y = - 1 then Inl (Undefined ''signed overflow'')
      else Inr (word_of_int (sint x sdiv sint y)))"

definition s64_rem :: "64 word \<Rightarrow> 64 word \<Rightarrow> 64 word res" where
  "s64_rem x y =
     (if y = 0 then Inl (Undefined ''division by zero'')
      else if sint x = - (2 ^ 63) \<and> sint y = - 1 then Inl (Undefined ''signed overflow'')
      else Inr (word_of_int (sint x smod sint y)))"

definition bv_sdiv :: "bvconst \<Rightarrow> bvconst \<Rightarrow> bvconst res" where
  "bv_sdiv a b = bv_binop
     (\<lambda>x y. rbind (sext64 x (m_size a)) (\<lambda>sx. rbind (sext64 y (m_size a)) (\<lambda>sy. s64_div sx sy)))
     (\<lambda>x y. let sx = mpz_as_signed x (m_size a); sy = mpz_as_signed y (m_size a)
            in if sy = 0 then Inl (Undefined ''division by zero'') else Inr (sx sdiv sy))
     a b"

definition bv_srem :: "bvconst \<Rightarrow> bvconst \<Rightarrow> bvconst res" where
  "bv_srem a b = bv_binop
     (\<lambda>x y. rbind (sext64 x (m_size a)) (\<lambda>sx. rbind (sext64 y (m_size a)) (\<lambda>sy. s64_rem sx sy)))
     (\<lambda>x y. let sx = mpz_as_signed x (m_size a); sy = mpz_as_signed y (m_size a)
            in if sy = 0 then Inl (Undefined ''division by zero'') else Inr (sx smod sy))
     a b"

text \<open>Negating the least \<^verbatim>\<open>int64_t\<close> overflows.\<close>

definition bv_neg :: "bvconst \<Rightarrow> bvconst res" where
  "bv_neg c = rbind
     (if m_size c \<le> 64 then
        rbind (small_val c) (\<lambda>w. rbind (sext64 w (m_size c)) (\<lambda>s.
          if sint s = - (2 ^ 63) then Inl (Undefined ''signed overflow'')
          else Inr (c\<lparr>m_small_val := Some (- s)\<rparr>)))
      else Inr (c\<lparr>m_big_val := - mpz_as_signed (m_big_val c) (m_size c)\<rparr>))
     adjust_bits"

definition bv_bit_not :: "bvconst \<Rightarrow> bvconst res" where
  "bv_bit_not c = rbind
     (if m_size c \<le> 64 then
        rbind (small_val c) (\<lambda>w. Inr (c\<lparr>m_small_val := Some (NOT w)\<rparr>))
      else Inr (c\<lparr>m_big_val := NOT (m_big_val c)\<rparr>))
     adjust_bits"

definition bv_band :: "bvconst \<Rightarrow> bvconst \<Rightarrow> bvconst res" where
  "bv_band = bv_binop (\<lambda>x y. Inr (x AND y)) (\<lambda>x y. Inr (x AND y))"

definition bv_bor :: "bvconst \<Rightarrow> bvconst \<Rightarrow> bvconst res" where
  "bv_bor = bv_binop (\<lambda>x y. Inr (x OR y)) (\<lambda>x y. Inr (x OR y))"

definition bv_bxor :: "bvconst \<Rightarrow> bvconst \<Rightarrow> bvconst res" where
  "bv_bxor = bv_binop (\<lambda>x y. Inr (x XOR y)) (\<lambda>x y. Inr (x XOR y))"

definition bv_bnot :: "bvconst \<Rightarrow> bvconst res" where
  "bv_bnot c = rbind
     (if \<not> is_big c then
        rbind (small_val c) (\<lambda>w. Inr (c\<lparr>m_small_val := Some (NOT w)\<rparr>))
      else Inr (c\<lparr>m_big_val := NOT (m_big_val c)\<rparr>))
     adjust_bits"

section \<open>Shifts\<close>

text \<open>
  The shift amount is a \<^verbatim>\<open>uint32_t\<close>: a wider amount is truncated at the call. \<^verbatim>\<open>ashr\<close> has no check
  of the amount, so a small constant shifted by 64 or more is undefined behaviour.
\<close>

definition bv_ashr :: "bvconst \<Rightarrow> 32 word \<Rightarrow> bvconst res" where
  "bv_ashr c v =
     (if v = 0 then Inr c
      else if \<not> is_big c then
        rbind (small_val c) (\<lambda>w. rbind (sext64 w (m_size c)) (\<lambda>s.
          if unat v \<ge> 64 then Inl (Undefined ''shift by 64 or more'')
          else adjust_bits (c\<lparr>m_small_val := Some (signed_drop_bit (unat v) s)\<rparr>)))
      else
        (let k = m_size c - unat v;
             tmp = copy_bits k (unat v) (m_big_val c) 0
         in Inr (c\<lparr>m_big_val :=
              (if bit (m_big_val c) (m_size c - 1)
               then foldl (\<lambda>t i. set_bit i t) tmp [k..<m_size c] else tmp)\<rparr>)))"

definition bv_lshr :: "bvconst \<Rightarrow> 32 word \<Rightarrow> bvconst res" where
  "bv_lshr c v =
     (if v = 0 then Inr c
      else if unat v \<ge> m_size c then
        (if \<not> is_big c then Inr (c\<lparr>m_small_val := Some 0\<rparr>) else Inr (c\<lparr>m_big_val := 0\<rparr>))
      else if \<not> is_big c then
        rbind (small_val c) (\<lambda>w. adjust_bits (c\<lparr>m_small_val := Some (drop_bit (unat v) w)\<rparr>))
      else Inr (c\<lparr>m_big_val := copy_bits (m_size c - unat v) (unat v) (m_big_val c) 0\<rparr>))"

text \<open>The loop of the big \<^verbatim>\<open>shl\<close>: bit \<open>i\<close>, for \<open>v \<le> i < m_size\<close>, is bit \<open>i - v\<close> of the value.\<close>

definition shl_big :: "nat \<Rightarrow> nat \<Rightarrow> int \<Rightarrow> int" where
  "shl_big n v x = foldl (\<lambda>t i. if bit x (i - v) then set_bit i t else unset_bit i t) x [v..<n]"

definition bv_shl :: "bvconst \<Rightarrow> 32 word \<Rightarrow> bvconst res" where
  "bv_shl c v =
     (if v = 0 then Inr c
      else if unat v \<ge> m_size c then
        (if \<not> is_big c then Inr (c\<lparr>m_small_val := Some 0\<rparr>) else Inr (c\<lparr>m_big_val := 0\<rparr>))
      else if \<not> is_big c then
        rbind (small_val c) (\<lambda>w. adjust_bits (c\<lparr>m_small_val := Some (push_bit (unat v) w)\<rparr>))
      else Inr (c\<lparr>m_big_val := shl_big (m_size c) (unat v) (m_big_val c)\<rparr>))"

end
