(* ===== verification/BVConst_Spec.thy ===== *)
theory BVConst_Spec
  imports BVConst
begin

unbundle bit_operations_syntax

text \<open>
  What the operations of \<^verbatim>\<open>BVConst\<close> compute. \<open>bv_rep n v c\<close> relates a constant to its width and
  value; each operation is shown to return a constant that represents the modular result, for
  every width (both representations), or the exact exceptions are stated.
\<close>

section \<open>The representation relation\<close>

definition bv_ok :: "bvconst \<Rightarrow> bool" where
  "bv_ok c \<longleftrightarrow> 0 < m_size c \<and>
     (if m_size c \<le> 64 then (\<exists>w. m_small_val c = Some w \<and> uint w < 2 ^ m_size c)
      else 0 \<le> m_big_val c \<and> m_big_val c < 2 ^ m_size c)"

definition bv_val :: "bvconst \<Rightarrow> int" where
  "bv_val c = (if m_size c \<le> 64 then (case m_small_val c of None \<Rightarrow> 0 | Some w \<Rightarrow> uint w)
               else m_big_val c)"

definition bv_rep :: "nat \<Rightarrow> int \<Rightarrow> bvconst \<Rightarrow> bool" where
  "bv_rep n v c \<longleftrightarrow> bv_ok c \<and> m_size c = n \<and> bv_val c = v"

lemma bv_rep_self: "bv_ok c \<Longrightarrow> bv_rep (m_size c) (bv_val c) c"
  by (simp add: bv_rep_def)

lemma bv_rep_pos: "bv_rep n v c \<Longrightarrow> 0 < n"
  by (auto simp: bv_rep_def bv_ok_def)

lemma bv_rep_range: "bv_rep n v c \<Longrightarrow> 0 \<le> v \<and> v < 2 ^ n"
  by (auto simp: bv_rep_def bv_ok_def bv_val_def split: if_splits)

lemma bv_rep_size: "bv_rep n v c \<Longrightarrow> m_size c = n"
  by (simp add: bv_rep_def)

lemma bv_rep_take_bit [simp]: "bv_rep n v c \<Longrightarrow> take_bit n v = v"
  using bv_rep_range by (simp add: take_bit_int_eq_self)

lemma bv_rep_smallE:
  assumes "bv_rep n v c" and "n \<le> 64"
  obtains w where "m_small_val c = Some w" and "small_val c = Inr w" and "uint w = v"
    and "m_size c = n" and "v < 2 ^ n" and "0 < n" and "\<not> is_big c"
  using assms by (auto simp: bv_rep_def bv_ok_def bv_val_def small_val_def is_big_def)

lemma bv_rep_bigE:
  assumes "bv_rep n v c" and "\<not> n \<le> 64"
  obtains "m_big_val c = v" and "m_size c = n" and "0 \<le> v" and "v < 2 ^ n" and "is_big c"
  using assms by (auto simp: bv_rep_def bv_ok_def bv_val_def is_big_def)

lemma bv_rep_smallI:
  "0 < n \<Longrightarrow> n \<le> 64 \<Longrightarrow> m_size c = n \<Longrightarrow> m_small_val c = Some w \<Longrightarrow> uint w = v \<Longrightarrow> v < 2 ^ n
   \<Longrightarrow> bv_rep n v c"
  by (simp add: bv_rep_def bv_ok_def bv_val_def)

lemma bv_rep_bigI:
  "64 < n \<Longrightarrow> m_size c = n \<Longrightarrow> m_big_val c = v \<Longrightarrow> 0 \<le> v \<Longrightarrow> v < 2 ^ n \<Longrightarrow> bv_rep n v c"
  by (simp add: bv_rep_def bv_ok_def bv_val_def)

lemma check_size_same: "bv_rep n x a \<Longrightarrow> bv_rep n y b \<Longrightarrow> check_size_or_die a b = Inr ()"
  by (simp add: check_size_or_die_def bv_rep_def)

section \<open>Truncation\<close>

lemma push_bit_2_minus_1: "0 < k \<Longrightarrow> push_bit (k - 1) 2 - 1 = (mask k :: 64 word)"
  by (metis One_nat_def Suc_pred mask_eq_exp_minus_1 mult.commute power_Suc push_bit_eq_mult)

lemma bitmask_eq: "0 < n \<Longrightarrow> n \<le> 64 \<Longrightarrow> bitmask n = Inr (mask n)"
  using push_bit_2_minus_1 by (simp add: bitmask_def)

lemma uint_and_mask: "uint (w AND mask n :: 64 word) = take_bit n (uint w)"
  by (simp flip: take_bit_eq_mask add: unsigned_take_bit_eq)

lemma uint64_range: "0 \<le> uint (w :: 64 word)" "uint (w :: 64 word) < 2 ^ 64"
  using uint_lt2p[of w] by simp_all

lemma take_bit_64_uint [simp]: "take_bit 64 (uint (w :: 64 word)) = uint w"
  using uint64_range[of w] by (simp add: take_bit_int_eq_self)

lemma nat_bits_le: "0 < k \<Longrightarrow> nat_bits n \<le> k \<longleftrightarrow> n < 2 ^ k"
proof (induction n arbitrary: k rule: nat_bits.induct)
  case (1 n)
  show ?case
  proof (cases "n < 2")
    case True
    moreover have "(2::nat) \<le> 2 ^ k" using "1.prems" by (cases k) auto
    ultimately show ?thesis using "1.prems" by (subst nat_bits.simps) auto
  next
    case False
    obtain j where k: "k = Suc j" using "1.prems" by (cases k) auto
    show ?thesis
    proof (cases "j = 0")
      case True
      with False k show ?thesis
        by (subst nat_bits.simps) (auto, metis One_nat_def Suc_leI less_one nat_bits.simps not_less zero_less_Suc le_zero_eq)
    next
      case False
      with \<open>\<not> n < 2\<close> "1.IH"[of j] k show ?thesis
        by (subst nat_bits.simps) auto
    qed
  qed
qed

lemma mpz_sizeinbase2_le: "0 < k \<Longrightarrow> mpz_sizeinbase2 v \<le> k \<longleftrightarrow> \<bar>v\<bar> < 2 ^ k"
proof -
  assume "0 < k"
  then have "mpz_sizeinbase2 v \<le> k \<longleftrightarrow> nat \<bar>v\<bar> < 2 ^ k"
    by (simp add: mpz_sizeinbase2_def nat_bits_le)
  also have "\<dots> \<longleftrightarrow> \<bar>v\<bar> < 2 ^ k"
    by (metis nat_less_numeral_power_cancel_iff)
  finally show ?thesis .
qed

lemma take_bit_unset_bit_same: "take_bit n (unset_bit n (v :: int)) = take_bit n v"
  by (rule bit_eqI) (auto simp: bit_simps)

lemma unset_bit_take_bit_same: "unset_bit n (take_bit n (v :: int)) = take_bit n v"
  by (rule bit_eqI) (auto simp: bit_simps)

lemma bit_small_negative:
  assumes "\<bar>x\<bar> < 2 ^ n" and "(x :: int) < 0"
  shows "bit x n"
proof -
  have "x div 2 ^ n = - 1"
    using assms by (intro int_div_pos_eq[of _ _ _ "x + 2 ^ n"]) auto
  then show ?thesis by (simp add: bit_iff_odd)
qed

text \<open>
  Clearing bit \<open>n\<close> first makes the magnitude test reliable: a negative number with bit \<open>n\<close> clear
  needs more than \<open>n\<close> digits.
\<close>

lemma unset_bit_small:
  assumes "\<bar>unset_bit n v\<bar> < 2 ^ n"
  shows "unset_bit n v = take_bit n (v :: int)"
proof -
  have "\<not> bit (unset_bit n v) n" by (simp add: bit_simps)
  with assms have "0 \<le> unset_bit n v" using bit_small_negative linorder_not_less by blast
  with assms have "unset_bit n v = take_bit n (unset_bit n v)"
    by (simp add: take_bit_int_eq_self)
  then show ?thesis by (simp add: take_bit_unset_bit_same)
qed

lemma adjust_bits_small:
  assumes "0 < m_size c" "m_size c \<le> 64" "m_small_val c = Some w"
  shows "\<exists>c'. adjust_bits c = Inr c' \<and> bv_rep (m_size c) (take_bit (m_size c) (uint w)) c'"
proof (cases "m_size c = 64")
  case True
  with assms show ?thesis
    using uint64_range[of w] by (auto simp: adjust_bits_def intro!: bv_rep_smallI)
next
  case False
  with assms show ?thesis
    by (auto simp: adjust_bits_def is_big_def small_val_def bitmask_eq uint_and_mask
        intro!: bv_rep_smallI)
qed

lemma adjust_bits_big:
  assumes "64 < m_size c"
  shows "\<exists>c'. adjust_bits c = Inr c' \<and> bv_rep (m_size c) (take_bit (m_size c) (m_big_val c)) c'"
proof -
  let ?n = "m_size c" and ?v = "unset_bit (m_size c) (m_big_val c)"
  have n: "0 < ?n" "?n \<noteq> 64" "is_big c" using assms by (auto simp: is_big_def)
  show ?thesis
  proof (cases "mpz_sizeinbase2 ?v > ?n")
    case True
    have "\<bar>take_bit ?n (m_big_val c)\<bar> < 2 ^ ?n" by simp
    then have "mpz_sizeinbase2 (take_bit ?n (m_big_val c)) \<le> ?n"
      using n by (simp add: mpz_sizeinbase2_le)
    with True n assms show ?thesis
      by (auto simp: adjust_bits_def Let_def unset_bit_take_bit_same take_bit_unset_bit_same
          intro!: bv_rep_bigI)
  next
    case False
    then have "?v = take_bit ?n (m_big_val c)"
      using n by (intro unset_bit_small) (simp add: not_less mpz_sizeinbase2_le)
    with False n assms show ?thesis
      by (auto simp: adjust_bits_def Let_def intro!: bv_rep_bigI)
  qed
qed

section \<open>Binary operations\<close>

text \<open>An operation returns normally, with a constant of width \<open>n\<close> and value \<open>v\<close>.\<close>

definition bv_yields :: "nat \<Rightarrow> int \<Rightarrow> bvconst res \<Rightarrow> bool" where
  "bv_yields n v m \<longleftrightarrow> (\<exists>c. m = Inr c \<and> bv_rep n v c)"

lemma bv_yieldsI: "m = Inr c \<Longrightarrow> bv_rep n v c \<Longrightarrow> bv_yields n v m"
  by (auto simp: bv_yields_def)

lemma bv_yieldsE:
  assumes "bv_yields n v m"
  obtains c where "m = Inr c" and "bv_rep n v c"
  using assms by (auto simp: bv_yields_def)

lemma bv_yields_Inr [simp]: "bv_yields n v (Inr c) = bv_rep n v c"
  by (simp add: bv_yields_def)

lemma bv_yields_cong: "bv_yields n v m \<Longrightarrow> v = v' \<Longrightarrow> bv_yields n v' m"
  by simp

lemma yields_adjust_small:
  "0 < m_size c \<Longrightarrow> m_size c \<le> 64 \<Longrightarrow> m_small_val c = Some w \<Longrightarrow> m_size c = n \<Longrightarrow>
   take_bit n (uint w) = r \<Longrightarrow> bv_yields n r (adjust_bits c)"
  using adjust_bits_small by (auto simp: bv_yields_def)

lemma yields_adjust_big:
  "64 < m_size c \<Longrightarrow> m_size c = n \<Longrightarrow> take_bit n (m_big_val c) = r \<Longrightarrow>
   bv_yields n r (adjust_bits c)"
  using adjust_bits_big by (auto simp: bv_yields_def)

lemma bv_binop_yields:
  assumes a: "bv_rep n x a" and b: "bv_rep n y b"
    and small: "\<And>u v. n \<le> 64 \<Longrightarrow> uint u = x \<Longrightarrow> uint v = y \<Longrightarrow>
      \<exists>z. f u v = Inr z \<and> take_bit n (uint z) = r"
    and big: "64 < n \<Longrightarrow> \<exists>z. g x y = Inr z \<and> take_bit n z = r"
  shows "bv_yields n r (bv_binop f g a b)"
proof (cases "n \<le> 64")
  case True
  from a True obtain u where u: "small_val a = Inr u" "uint u = x" "m_size a = n" "0 < n" "\<not> is_big a"
    by (rule bv_rep_smallE)
  from b True obtain v where v: "small_val b = Inr v" "uint v = y" by (rule bv_rep_smallE)
  from small[OF True u(2) v(2)] u v True show ?thesis
    by (auto simp: bv_binop_def check_size_same[OF a b] intro!: yields_adjust_small)
next
  case False
  from a False have A: "m_big_val a = x" "m_size a = n" "is_big a" by (auto elim: bv_rep_bigE)
  from b False have B: "m_big_val b = y" by (auto elim: bv_rep_bigE)
  from big False A B show ?thesis
    by (auto simp: bv_binop_def check_size_same[OF a b] intro!: yields_adjust_big)
qed

lemma take_bit_uint_of_int: "n \<le> 64 \<Longrightarrow> take_bit n (uint (word_of_int k :: 64 word)) = take_bit n k"
  by (simp add: uint_word_of_int_eq min_def)

lemma take_bit_uint_arith:
  fixes u v :: "64 word"
  assumes "n \<le> 64"
  shows "take_bit n (uint (u + v)) = take_bit n (uint u + uint v)"
    and "take_bit n (uint (u - v)) = take_bit n (uint u - uint v)"
    and "take_bit n (uint (u * v)) = take_bit n (uint u * uint v)"
    and "take_bit n (uint (- u)) = take_bit n (- uint u)"
  using take_bit_uint_of_int[OF assms, of "uint u + uint v"]
    take_bit_uint_of_int[OF assms, of "uint u - uint v"]
    take_bit_uint_of_int[OF assms, of "uint u * uint v"]
    take_bit_uint_of_int[OF assms, of "- uint u"]
  by simp_all

lemma bv_add_yields:
  "bv_rep n x a \<Longrightarrow> bv_rep n y b \<Longrightarrow> bv_yields n (take_bit n (x + y)) (bv_add a b)"
  unfolding bv_add_def
  by (erule bv_binop_yields) (auto simp: take_bit_uint_arith)

lemma bv_sub_yields:
  "bv_rep n x a \<Longrightarrow> bv_rep n y b \<Longrightarrow> bv_yields n (take_bit n (x - y)) (bv_sub a b)"
  unfolding bv_sub_def
  by (erule bv_binop_yields) (auto simp: take_bit_uint_arith)

lemma bv_mul_yields:
  "bv_rep n x a \<Longrightarrow> bv_rep n y b \<Longrightarrow> bv_yields n (take_bit n (x * y)) (bv_mul a b)"
  unfolding bv_mul_def
  by (erule bv_binop_yields) (auto simp: take_bit_uint_arith)

lemma bv_band_yields:
  "bv_rep n x a \<Longrightarrow> bv_rep n y b \<Longrightarrow> bv_yields n (x AND y) (bv_band a b)"
  unfolding bv_band_def
  by (rule bv_binop_yields) (auto simp: unsigned_and_eq take_bit_and)

lemma bv_bor_yields:
  "bv_rep n x a \<Longrightarrow> bv_rep n y b \<Longrightarrow> bv_yields n (x OR y) (bv_bor a b)"
  unfolding bv_bor_def
  by (rule bv_binop_yields) (auto simp: unsigned_or_eq take_bit_or)

lemma bv_bxor_yields:
  "bv_rep n x a \<Longrightarrow> bv_rep n y b \<Longrightarrow> bv_yields n (x XOR y) (bv_bxor a b)"
  unfolding bv_bxor_def
  by (rule bv_binop_yields) (auto simp: unsigned_xor_eq take_bit_xor)

lemma bv_udiv_yields:
  assumes "bv_rep n x a" "bv_rep n y b" "y \<noteq> 0"
  shows "bv_yields n (x div y) (bv_udiv a b)"
proof -
  have r: "0 \<le> x" "x < 2 ^ n" "0 \<le> y" using assms bv_rep_range by auto
  then have "x div y \<le> x" using assms(3) by (cases "x = 0") (simp_all add: int_div_le_self)
  moreover have "0 \<le> x div y" using r assms(3) by (simp add: div_int_pos_iff)
  ultimately have t: "take_bit n (x div y) = x div y"
    using r by (intro take_bit_id) linarith+
  show ?thesis
    unfolding bv_udiv_def using assms r t
    by (intro bv_binop_yields) (auto simp: uint_div signed_divide_int_def sgn_if)
qed

lemma bv_urem_yields:
  assumes "bv_rep n x a" "bv_rep n y b" "y \<noteq> 0"
  shows "bv_yields n (x mod y) (bv_urem a b)"
proof -
  have r: "0 \<le> x" "x < 2 ^ n" "0 \<le> y" "y < 2 ^ n" using assms bv_rep_range by auto
  then have "0 \<le> x mod y" "x mod y < 2 ^ n"
    using assms(3) pos_mod_bound[of y x] pos_mod_sign[of y x] by linarith+
  then have t: "take_bit n (x mod y) = x mod y" by (simp add: take_bit_int_eq_self)
  show ?thesis
    unfolding bv_urem_def using assms r t
    by (intro bv_binop_yields) (auto simp: uint_mod signed_modulo_int_def sgn_if)
qed

section \<open>Signed values\<close>

text \<open>The two's complement reading of a value of width \<open>n\<close>.\<close>

definition sval :: "nat \<Rightarrow> int \<Rightarrow> int" where
  "sval n v = signed_take_bit (n - 1) v"

lemma sval_range: "0 < n \<Longrightarrow> - (2 ^ (n - 1)) \<le> sval n v \<and> sval n v < 2 ^ (n - 1)"
  by (simp add: sval_def)

lemma take_bit_sval [simp]: "0 < n \<Longrightarrow> take_bit n (sval n v) = take_bit n v"
  by (simp add: sval_def take_bit_signed_take_bit)

lemma sval_eq_if:
  "0 < n \<Longrightarrow> sval n v = take_bit n v - (if bit v (n - 1) then 2 ^ n else 0)"
  by (simp add: sval_def signed_take_bit_eq_take_bit_minus)

lemma set_bit_0_eq_exp: "set_bit n (0 :: int) = 2 ^ n"
  by (rule bit_eqI) (auto simp: bit_simps)

lemma mpz_as_signed_eq: "0 < n \<Longrightarrow> take_bit n v = v \<Longrightarrow> mpz_as_signed v n = sval n v"
  by (auto simp: mpz_as_signed_def sval_eq_if set_bit_0_eq_exp)

lemma sext64_eq:
  assumes "0 < n" "n \<le> 64" "uint w < 2 ^ n"
  shows "\<exists>s. sext64 w n = Inr s \<and> sint s = sval n (uint w)"
proof -
  define s where "s = (if n = 64 then w else if bit w (n - 1) then w OR push_bit n (mask (65 - n)) else w)"
  have "65 - n - 1 = 64 - n" by simp
  with push_bit_2_minus_1[of "65 - n"] assms
  have m: "push_bit (64 - n) 2 - 1 = (mask (65 - n) :: 64 word)" by simp
  have "sext64 w n = Inr s"
    using assms by (auto simp: sext64_def s_def m bit_iff_and_push_bit_not_eq_0)
  moreover have "s = word_of_int (sval n (uint w))"
  proof (rule bit_word_eqI)
    fix i assume i: "i < LENGTH(64)"
    have "take_bit n (uint w) = uint w" using assms(3) by (simp add: take_bit_int_eq_self)
    then have "bit (uint w) i \<Longrightarrow> i < n" by (metis bit_take_bit_iff)
    then have high: "n \<le> i \<Longrightarrow> \<not> bit w i" using i by (auto simp: bit_uint_iff)
    show "bit s i = bit (word_of_int (sval n (uint w)) :: 64 word) i"
      using assms i high
      by (cases "i < n - 1"; cases "i = n - 1")
        (auto simp: s_def sval_def bit_simps min_def)
  qed
  moreover have "sint (word_of_int (sval n (uint w)) :: 64 word) = sval n (uint w)"
    using assms(1,2) by (cases "n = 64") (auto simp: signed_of_int sval_def min_def)
  ultimately show ?thesis by blast
qed

lemma sext64_repE:
  assumes "bv_rep n x c" and "n \<le> 64"
  obtains w s where "m_small_val c = Some w" "small_val c = Inr w" "uint w = x" "m_size c = n"
    "0 < n" "\<not> is_big c" "sext64 w n = Inr s" "sint s = sval n x"
proof -
  from assms obtain w where w: "m_small_val c = Some w" "small_val c = Inr w" "uint w = x"
    "m_size c = n" "x < 2 ^ n" "0 < n" "\<not> is_big c" by (rule bv_rep_smallE)
  with sext64_eq[of n w] assms(2) obtain s where "sext64 w n = Inr s" "sint s = sval n x" by auto
  with w that show ?thesis by blast
qed

lemma sval_eq_0_iff: "0 < n \<Longrightarrow> take_bit n v = v \<Longrightarrow> sval n v = 0 \<longleftrightarrow> v = 0"
  using take_bit_sval[of n v] by (auto simp: sval_def)

lemma sval_min64: "0 < n \<Longrightarrow> n \<le> 64 \<Longrightarrow> take_bit n v = v \<Longrightarrow> sval n v = - (2 ^ 63) \<longleftrightarrow> n = 64 \<and> v = 2 ^ 63"
proof
  assume n: "0 < n" "n \<le> 64" "take_bit n v = v" and m: "sval n v = - (2 ^ 63)"
  have "n = 64"
  proof (rule ccontr)
    assume "n \<noteq> 64"
    with n have "(2::int) ^ (n - 1) < 2 ^ 63" by (intro power_strict_increasing) auto
    with sval_range[OF n(1), of v] m show False by linarith
  qed
  moreover have "take_bit n (sval n v) = v" using n by (simp only: take_bit_sval)
  ultimately have "v = take_bit 64 (- (2 ^ 63))" using m by metis
  with \<open>n = 64\<close> show "n = 64 \<and> v = 2 ^ 63" by (simp add: take_bit_eq_mod)
next
  assume "n = 64 \<and> v = 2 ^ 63"
  then show "sval n v = - (2 ^ 63)" by (simp add: sval_def)
qed

text \<open>
  Signed division and remainder truncate; the 64-bit case is undefined when the quotient
  overflows, and every case when the divisor is zero.
\<close>

lemma s64_op_small:
  assumes a: "bv_rep n x a" and b: "bv_rep n y b" and n: "n \<le> 64" and y: "y \<noteq> 0"
    and ov: "\<not> (n = 64 \<and> x = 2 ^ 63 \<and> y = 2 ^ 64 - 1)"
    and u: "uint u = x" and v: "uint v = y"
  shows "\<exists>z. rbind (sext64 u n) (\<lambda>sx. rbind (sext64 v n) (s64_div sx)) = Inr z \<and>
             take_bit n (uint z) = take_bit n (sval n x sdiv sval n y)"
    and "\<exists>z. rbind (sext64 u n) (\<lambda>sx. rbind (sext64 v n) (s64_rem sx)) = Inr z \<and>
             take_bit n (uint z) = take_bit n (sval n x smod sval n y)"
proof -
  from a b have p: "0 < n" and x: "x < 2 ^ n" and y': "y < 2 ^ n" using bv_rep_pos bv_rep_range by blast+
  obtain s where s: "sext64 u n = Inr s" "sint s = sval n x" using sext64_eq[of n u] p n u x by auto
  obtain t where t: "sext64 v n = Inr t" "sint t = sval n y" using sext64_eq[of n v] p n v y' by auto
  have tz: "t \<noteq> 0" using t(2) y sval_eq_0_iff[OF p, of y] b by (auto dest: bv_rep_take_bit)
  have "\<not> (sint s = - (2 ^ 63) \<and> sint t = - 1)"
  proof
    assume o: "sint s = - (2 ^ 63) \<and> sint t = - 1"
    with s(2) sval_min64[OF p n, of x] a have nx: "n = 64" "x = 2 ^ 63" by auto
    have "y = take_bit n (sval n y)" using b p by simp
    with o t(2) nx have "y = take_bit 64 (- 1)" by simp
    with nx ov show False by (simp add: take_bit_minus_one_eq_mask mask_eq_exp_minus_1)
  qed
  with s t tz n show
    "\<exists>z. rbind (sext64 u n) (\<lambda>sx. rbind (sext64 v n) (s64_div sx)) = Inr z \<and>
        take_bit n (uint z) = take_bit n (sval n x sdiv sval n y)"
    "\<exists>z. rbind (sext64 u n) (\<lambda>sx. rbind (sext64 v n) (s64_rem sx)) = Inr z \<and>
        take_bit n (uint z) = take_bit n (sval n x smod sval n y)"
    by (auto simp: s64_div_def s64_rem_def take_bit_uint_of_int)
qed

lemma bv_sdiv_yields:
  assumes "bv_rep n x a" "bv_rep n y b" "y \<noteq> 0" "\<not> (n = 64 \<and> x = 2 ^ 63 \<and> y = 2 ^ 64 - 1)"
  shows "bv_yields n (take_bit n (sval n x sdiv sval n y)) (bv_sdiv a b)"
  unfolding bv_sdiv_def
proof (rule bv_binop_yields[OF assms(1,2)])
  fix u v :: "64 word" assume "n \<le> 64" "uint u = x" "uint v = y"
  then show "\<exists>z. rbind (sext64 u (m_size a)) (\<lambda>sx. rbind (sext64 v (m_size a)) (s64_div sx)) = Inr z \<and>
      take_bit n (uint z) = take_bit n (sval n x sdiv sval n y)"
    using s64_op_small(1)[OF assms(1,2) _ assms(3,4)] assms(1) by (simp add: bv_rep_size)
next
  assume "64 < n"
  moreover have "sval n y \<noteq> 0" using assms sval_eq_0_iff bv_rep_pos bv_rep_take_bit by blast
  ultimately show "\<exists>z. (let sx = mpz_as_signed x (m_size a); sy = mpz_as_signed y (m_size a)
        in if sy = 0 then Inl (Undefined ''division by zero'') else Inr (sx sdiv sy)) = Inr z \<and>
      take_bit n z = take_bit n (sval n x sdiv sval n y)"
    using assms(1,2) by (simp add: bv_rep_size[OF assms(1)] mpz_as_signed_eq Let_def)
qed

lemma bv_srem_yields:
  assumes "bv_rep n x a" "bv_rep n y b" "y \<noteq> 0" "\<not> (n = 64 \<and> x = 2 ^ 63 \<and> y = 2 ^ 64 - 1)"
  shows "bv_yields n (take_bit n (sval n x smod sval n y)) (bv_srem a b)"
  unfolding bv_srem_def
proof (rule bv_binop_yields[OF assms(1,2)])
  fix u v :: "64 word" assume "n \<le> 64" "uint u = x" "uint v = y"
  then show "\<exists>z. rbind (sext64 u (m_size a)) (\<lambda>sx. rbind (sext64 v (m_size a)) (s64_rem sx)) = Inr z \<and>
      take_bit n (uint z) = take_bit n (sval n x smod sval n y)"
    using s64_op_small(2)[OF assms(1,2) _ assms(3,4)] assms(1) by (simp add: bv_rep_size)
next
  assume "64 < n"
  moreover have "sval n y \<noteq> 0" using assms sval_eq_0_iff bv_rep_pos bv_rep_take_bit by blast
  ultimately show "\<exists>z. (let sx = mpz_as_signed x (m_size a); sy = mpz_as_signed y (m_size a)
        in if sy = 0 then Inl (Undefined ''division by zero'') else Inr (sx smod sy)) = Inr z \<and>
      take_bit n z = take_bit n (sval n x smod sval n y)"
    using assms(1,2) by (simp add: bv_rep_size[OF assms(1)] mpz_as_signed_eq Let_def)
qed

section \<open>Negation, complement and the widening products\<close>

lemma bv_neg_yields:
  assumes "bv_rep n x c" "\<not> (n = 64 \<and> x = 2 ^ 63)"
  shows "bv_yields n (take_bit n (- x)) (bv_neg c)"
proof (cases "n \<le> 64")
  case True
  with assms(1) obtain w s where c: "m_small_val c = Some w" "small_val c = Inr w" "m_size c = n"
    "0 < n" "sext64 w n = Inr s" "sint s = sval n x" by (rule sext64_repE)
  have "sint s \<noteq> - (2 ^ 63)" using c sval_min64[of n x] True assms by (auto dest: bv_rep_take_bit)
  moreover have "s = word_of_int (sval n x)" using c(6) by (simp flip: c(6))
  then have "take_bit n (uint (- s)) = take_bit n (- sval n x)"
    using take_bit_uint_of_int[OF True, of "- sval n x"] by simp
  moreover have "take_bit n (- sval n x) = take_bit n (- x)"
    using c(4) by (metis take_bit_minus take_bit_sval)
  ultimately show ?thesis using c True
    by (auto simp: bv_neg_def intro!: yields_adjust_small)
next
  case False
  with assms(1) have c: "m_big_val c = x" "m_size c = n" by (auto elim: bv_rep_bigE)
  have "take_bit n (- sval n x) = take_bit n (- x)"
    using False by (metis take_bit_minus take_bit_sval less_imp_le not_less0 neq0_conv zero_le)
  with c False assms(1) show ?thesis
    by (auto simp: bv_neg_def mpz_as_signed_eq intro!: yields_adjust_big)
qed

lemma bv_bit_not_yields:
  assumes "bv_rep n x c"
  shows "bv_yields n (take_bit n (NOT x)) (bv_bit_not c)"
proof (cases "n \<le> 64")
  case True
  with assms obtain w where c: "m_small_val c = Some w" "small_val c = Inr w" "uint w = x"
    "m_size c = n" "0 < n" by (rule bv_rep_smallE)
  have "take_bit n (uint (NOT w)) = take_bit n (NOT x)"
    using True c(3) by (simp add: unsigned_not_eq)
  with c True show ?thesis by (auto simp: bv_bit_not_def intro!: yields_adjust_small)
next
  case False
  with assms have "m_big_val c = x" "m_size c = n" by (auto elim: bv_rep_bigE)
  with False show ?thesis by (auto simp: bv_bit_not_def intro!: yields_adjust_big)
qed

lemma bv_bnot_eq: "bv_bnot c = bv_bit_not c"
  by (simp add: bv_bnot_def bv_bit_not_def is_big_def)

lemma bv_smul_yields:
  assumes a: "bv_rep n x a" and b: "bv_rep n y b"
  shows "bv_yields (n * 2) (take_bit (n * 2) (sval n x * sval n y)) (bv_smul a b)"
proof (cases "n * 2 \<le> 64")
  case True
  then have n: "n \<le> 64" by simp
  from a n obtain w s where A: "m_small_val a = Some w" "small_val a = Inr w" "m_size a = n"
    "0 < n" "sext64 w n = Inr s" "sint s = sval n x" by (rule sext64_repE)
  from b n obtain w' t where B: "small_val b = Inr w'" "sext64 w' n = Inr t" "sint t = sval n y"
    by (rule sext64_repE)
  have "s * t = word_of_int (sval n x * sval n y)"
    by (simp flip: A(6) B(3))
  then have "take_bit (n * 2) (uint (s * t)) = take_bit (n * 2) (sval n x * sval n y)"
    using True by (simp only: take_bit_uint_of_int)
  with A B True show ?thesis
    by (auto simp: bv_smul_def check_size_same[OF a b] Let_def intro!: yields_adjust_small)
next
  case False
  have p: "0 < n" using a by (rule bv_rep_pos)
  have mpz: "as_mpz a = Inr x" "as_mpz b = Inr y"
    using a b by (cases "n \<le> 64"; auto simp: as_mpz_def elim: bv_rep_smallE bv_rep_bigE)+
  with False p a b show ?thesis
    by (auto simp: bv_smul_def check_size_same[OF a b] Let_def bv_rep_size mpz_as_signed_eq
        intro!: yields_adjust_big)
qed

text \<open>
  \<^verbatim>\<open>umul\<close> is the widening product when both operands and the product use the same representation.
\<close>

lemma bv_umul_yields:
  assumes a: "bv_rep n x a" and b: "bv_rep n y b" and n: "n \<le> 32 \<or> 64 < n"
  shows "bv_yields (n * 2) (x * y) (bv_umul a b)"
proof -
  have r: "0 \<le> x" "x < 2 ^ n" "0 \<le> y" "y < 2 ^ n" using a b bv_rep_range by auto
  then have "x * y < 2 ^ n * 2 ^ n" by (intro mult_strict_mono) auto
  also have "\<dots> = 2 ^ (n * 2)" by (simp add: power_add mult_2_right)
  finally have t: "take_bit (n * 2) (x * y) = x * y" using r by (simp add: take_bit_int_eq_self)
  show ?thesis
  proof (cases "n \<le> 32")
    case True
    then have n: "n \<le> 64" by simp
    from a n obtain u where A: "small_val a = Inr u" "uint u = x" "m_size a = n" "0 < n"
      by (rule bv_rep_smallE)
    from b n obtain v where B: "small_val b = Inr v" "uint v = y" by (rule bv_rep_smallE)
    from A B True t show ?thesis
      by (auto simp: bv_umul_def check_size_same[OF a b] Let_def take_bit_uint_arith
          intro!: yields_adjust_small)
  next
    case False
    with n have "64 < n" by simp
    with a b have "m_big_val a = x" "m_size a = n" "m_big_val b = y" by (auto elim: bv_rep_bigE)
    with \<open>64 < n\<close> t show ?thesis
      by (auto simp: bv_umul_def check_size_same[OF a b] Let_def intro!: yields_adjust_big)
  qed
qed

section \<open>Shifts\<close>

lemma bit_of_range: "0 \<le> x \<Longrightarrow> x < 2 ^ n \<Longrightarrow> bit (x :: int) i \<Longrightarrow> i < n"
  by (metis bit_take_bit_iff take_bit_int_eq_self)

lemma bit_foldl_set: "bit (foldl (\<lambda>t i. set_bit i t) (x :: int) [k..<n]) j \<longleftrightarrow> bit x j \<or> (k \<le> j \<and> j < n)"
  by (induction n) (auto simp: bit_simps less_Suc_eq)

lemma bit_shl_big: "bit (shl_big n v x) j \<longleftrightarrow> (if v \<le> j \<and> j < n then bit x (j - v) else bit x j)"
proof (induction n)
  case 0
  show ?case by (simp add: shl_big_def)
next
  case (Suc n)
  then show ?case by (auto simp: shl_big_def bit_simps less_Suc_eq)
qed

lemma drop_bit_range:
  assumes "0 \<le> x" "x < 2 ^ n"
  shows "0 \<le> drop_bit v (x :: int) \<and> drop_bit v x < 2 ^ n"
proof -
  have "drop_bit v x \<le> x"
    using zdiv_mono2[of x 1 "2 ^ v"] assms(1) by (simp add: drop_bit_eq_div)
  with assms show ?thesis by simp
qed

lemma drop_bit_beyond: "0 \<le> x \<Longrightarrow> x < 2 ^ n \<Longrightarrow> n \<le> v \<Longrightarrow> drop_bit v (x :: int) = 0"
  by (rule bit_eqI) (auto simp: bit_simps dest!: bit_of_range)

lemma bv_lshr_yields:
  assumes "bv_rep n x c"
  shows "bv_yields n (drop_bit (unat v) x) (bv_lshr c v)"
proof -
  have r: "0 \<le> x" "x < 2 ^ n" "0 < n" using assms bv_rep_range bv_rep_pos by auto
  note d = drop_bit_range[OF r(1,2)]
  have t: "take_bit n (drop_bit (unat v) x) = drop_bit (unat v) x" using d by (simp add: take_bit_int_eq_self)
  show ?thesis
  proof (cases "n \<le> 64")
    case True
    with assms obtain w where c: "m_small_val c = Some w" "small_val c = Inr w" "uint w = x"
      "m_size c = n" "\<not> is_big c" by (rule bv_rep_smallE)
    show ?thesis
    proof (cases "v = 0 \<or> n \<le> unat v")
      case True
      then show ?thesis
        using c \<open>n \<le> 64\<close> r assms
        by (auto simp: bv_lshr_def drop_bit_beyond intro!: bv_rep_smallI)
    next
      case False
      with c \<open>n \<le> 64\<close> r t show ?thesis
        by (auto simp: bv_lshr_def unsigned_drop_bit_eq intro!: yields_adjust_small)
    qed
  next
    case False
    with assms have c: "m_big_val c = x" "m_size c = n" "is_big c" by (auto elim: bv_rep_bigE)
    have "take_bit (n - unat v) (drop_bit (unat v) x) = drop_bit (unat v) x"
      by (rule bit_eqI) (use bit_of_range[OF r(1,2)] in \<open>fastforce simp: bit_simps\<close>)
    with c False r d assms show ?thesis
      by (auto simp: bv_lshr_def drop_bit_beyond intro!: bv_rep_bigI)
  qed
qed

text \<open>
  \<^verbatim>\<open>shl\<close> is multiplication by a power of two on the small representation. The loop of the big one
  starts from a copy of the operand and never clears its low bits.
\<close>

lemma bv_shl_small_yields:
  assumes "bv_rep n x c" "n \<le> 64"
  shows "bv_yields n (take_bit n (push_bit (unat v) x)) (bv_shl c v)"
proof -
  from assms obtain w where c: "m_small_val c = Some w" "small_val c = Inr w" "uint w = x"
    "m_size c = n" "0 < n" "\<not> is_big c" by (rule bv_rep_smallE)
  show ?thesis
  proof (cases "v = 0 \<or> n \<le> unat v")
    case True
    have "n \<le> unat v \<Longrightarrow> take_bit n (push_bit (unat v) x) = 0"
      by (rule bit_eqI) (auto simp: bit_simps)
    with True c assms show ?thesis
      by (auto simp: bv_shl_def intro!: bv_rep_smallI)
  next
    case False
    with c assms(2) show ?thesis
      by (auto simp: bv_shl_def unsigned_push_bit_eq intro!: yields_adjust_small)
  qed
qed

lemma bv_shl_big_yields:
  assumes "bv_rep n x c" "64 < n" "v \<noteq> 0" "unat v < n"
  shows "bv_yields n (take_bit n (push_bit (unat v) x) OR take_bit (unat v) x) (bv_shl c v)"
proof -
  from assms have c: "m_big_val c = x" "m_size c = n" "is_big c" "0 \<le> x" "x < 2 ^ n"
    by (auto elim: bv_rep_bigE)
  have eq: "shl_big n (unat v) x = take_bit n (push_bit (unat v) x) OR take_bit (unat v) x"
    by (rule bit_eqI) (use bit_of_range[OF c(4,5)] assms(4) in \<open>auto simp: bit_shl_big bit_simps\<close>)
  have "take_bit n (push_bit (unat v) x) OR take_bit (unat v) x =
      take_bit n (take_bit n (push_bit (unat v) x) OR take_bit (unat v) x)"
    by (rule bit_eqI) (use assms(4) in \<open>auto simp: bit_simps\<close>)
  then have "take_bit n (push_bit (unat v) x) OR take_bit (unat v) x < 2 ^ n"
    by (metis take_bit_less_exp)
  with c assms eq show ?thesis
    by (auto simp: bv_shl_def intro!: bv_rep_bigI)
qed

text \<open>\<^verbatim>\<open>ashr\<close> shifts the two's complement value; the small representation needs an amount below 64.\<close>

lemma bv_ashr_yields:
  assumes "bv_rep n x c" "n \<le> 64 \<Longrightarrow> unat v < 64"
  shows "bv_yields n (take_bit n (drop_bit (unat v) (sval n x))) (bv_ashr c v)"
proof (cases "v = 0")
  case True
  with assms show ?thesis using bv_rep_pos[OF assms(1)] by (auto simp: bv_ashr_def)
next
  case v: False
  show ?thesis
  proof (cases "n \<le> 64")
    case True
    with assms(1) obtain w s where c: "m_small_val c = Some w" "small_val c = Inr w" "m_size c = n"
      "0 < n" "\<not> is_big c" "sext64 w n = Inr s" "sint s = sval n x" by (rule sext64_repE)
    have "signed_drop_bit (unat v) s = word_of_int (drop_bit (unat v) (sval n x))"
      by (simp flip: c(7) sint_signed_drop_bit_eq)
    then have "take_bit n (uint (signed_drop_bit (unat v) s)) = take_bit n (drop_bit (unat v) (sval n x))"
      using True by (simp only: take_bit_uint_of_int)
    with c v True assms(2) show ?thesis
      by (auto simp: bv_ashr_def intro!: yields_adjust_small)
  next
    case False
    with assms(1) have c: "m_big_val c = x" "m_size c = n" "is_big c" "0 \<le> x" "x < 2 ^ n"
      by (auto elim: bv_rep_bigE)
    let ?k = "n - unat v"
    let ?r = "if bit x (n - 1) then foldl (\<lambda>t i. set_bit i t) (take_bit ?k (drop_bit (unat v) x)) [?k..<n]
              else take_bit ?k (drop_bit (unat v) x)"
    have eq: "?r = take_bit n (drop_bit (unat v) (sval n x))"
    proof (rule bit_eqI)
      fix i
      show "bit ?r i \<longleftrightarrow> bit (take_bit n (drop_bit (unat v) (sval n x))) i"
      proof (cases "i < n - unat v")
        case True
        then have "min (n - 1) (unat v + i) = unat v + i" by simp
        with True show ?thesis by (auto simp: bit_foldl_set bit_simps sval_def)
      next
        case ge: False
        then have "min (n - 1) (unat v + i) = n - 1" using False by simp
        with ge show ?thesis by (auto simp: bit_foldl_set bit_simps sval_def)
      qed
    qed
    have "bv_ashr c v = Inr (c\<lparr>m_big_val := ?r\<rparr>)"
      using c v by (simp add: bv_ashr_def Let_def)
    then show ?thesis
      unfolding eq using c False by (auto intro!: bv_rep_bigI)
  qed
qed

end
