(* ===== verification/BVConst_Struct.thy ===== *)
theory BVConst_Struct
  imports BVConst_Spec
begin

unbundle bit_operations_syntax

text \<open>
  The remaining operations of \<^verbatim>\<open>BVConst\<close>: concatenation, extension, extraction, the comparisons,
  the constructors and the observers, specified by the relation \<open>bv_rep\<close>.
\<close>

section \<open>Concatenation, extension and extraction\<close>

lemma as_mpz_rep: "bv_rep n x c \<Longrightarrow> as_mpz c = Inr x"
  by (cases "n \<le> 64") (auto simp: as_mpz_def elim: bv_rep_smallE bv_rep_bigE)

lemma take_bit_concat:
  assumes "0 \<le> y" "y < 2 ^ m"
  shows "take_bit (n + m) (push_bit m x OR y) = push_bit m (take_bit n x) OR (y :: int)"
proof (rule bit_eqI)
  fix i
  have "bit y i \<Longrightarrow> i < n + m" using bit_of_range[OF assms, of i] by simp
  then show "bit (take_bit (n + m) (push_bit m x OR y)) i \<longleftrightarrow> bit (push_bit m (take_bit n x) OR y) i"
    by (auto simp: bit_simps)
qed

lemma bv_concat_yields:
  assumes a: "bv_rep n x a" and b: "bv_rep m y b"
  shows "bv_yields (n + m) (push_bit m x OR y) (bv_concat a b)"
proof -
  have y: "0 \<le> y" "y < 2 ^ m" and p: "0 < n" and s: "m_size a = n" "m_size b = m"
    using a b bv_rep_range bv_rep_pos bv_rep_size by auto
  have t: "take_bit (n + m) (push_bit m x OR y) = push_bit m x OR y"
    using take_bit_concat[OF y] a by simp
  show ?thesis
  proof (cases "n + m \<le> 64")
    case True
    then have "n \<le> 64" "m \<le> 64" by auto
    with a b obtain u v where uv: "small_val a = Inr u" "uint u = x" "small_val b = Inr v" "uint v = y"
      by (metis bv_rep_smallE)
    have "take_bit (n + m) (uint (push_bit m u OR v)) = push_bit m x OR y"
      using True uv t by (simp add: unsigned_or_eq unsigned_push_bit_eq take_bit_or)
    with uv s p True show ?thesis
      by (auto simp: bv_concat_def Let_def intro!: yields_adjust_small)
  next
    case False
    with s t a b show ?thesis
      by (auto simp: bv_concat_def Let_def as_mpz_rep intro!: yields_adjust_big)
  qed
qed

lemma exp_mono: "n \<le> k \<Longrightarrow> (2 :: int) ^ n \<le> 2 ^ k"
  by (simp add: power_increasing)

lemma bv_zext_yields:
  assumes "bv_rep n x c" "n \<le> k"
  shows "bv_yields k x (bv_zext c k)"
proof -
  have r: "0 \<le> x" "x < 2 ^ n" "0 < k"
    using bv_rep_range[OF assms(1)] bv_rep_pos[OF assms(1)] assms(2) by auto
  have "x < 2 ^ k" using r(2) exp_mono[OF assms(2)] by linarith
  note r = r(1) this r(3)
  show ?thesis
  proof (cases "n \<le> 64")
    case True
    with assms(1) obtain w where c: "m_small_val c = Some w" "small_val c = Inr w" "uint w = x"
      "m_size c = n" "\<not> is_big c" by (rule bv_rep_smallE)
    with r assms(2) show ?thesis
      by (cases "k \<le> 64") (simp_all add: bv_zext_def bv_rep_smallI bv_rep_bigI)
  next
    case False
    with assms(1) have "m_big_val c = x" "m_size c = n" "is_big c" by (auto elim: bv_rep_bigE)
    with r assms(2) False show ?thesis by (auto simp: bv_zext_def intro!: bv_rep_bigI)
  qed
qed

lemma bv_sext_yields:
  assumes "bv_rep n x c" "n \<le> k"
  shows "bv_yields k (take_bit k (sval n x)) (bv_sext c k)"
proof (cases "k = n")
  case True
  with assms show ?thesis using bv_rep_pos[OF assms(1)] by (auto simp: bv_sext_def bv_rep_size)
next
  case False
  with assms have nk: "n < k" "0 < n" using bv_rep_pos by auto
  show ?thesis
  proof (cases "k \<le> 64")
    case True
    with nk have "n \<le> 64" by simp
    with assms(1) obtain w s where c: "m_small_val c = Some w" "small_val c = Inr w" "m_size c = n"
      "sext64 w n = Inr s" "sint s = sval n x" by (rule sext64_repE)
    have "s = word_of_int (sval n x)" by (simp flip: c(5))
    then have "take_bit k (uint s) = take_bit k (sval n x)"
      using True by (simp only: take_bit_uint_of_int)
    with c nk True show ?thesis
      by (auto simp: bv_sext_def intro!: yields_adjust_small)
  next
    case big: False
    have r: "0 \<le> x" "x < 2 ^ n" using bv_rep_range[OF assms(1)] by auto
    let ?v = "if bit x (n - 1) then foldl (\<lambda>t i. set_bit i t) x [n..<k] else x"
    have eq: "?v = take_bit k (sval n x)"
    proof (rule bit_eqI)
      fix i
      show "bit ?v i \<longleftrightarrow> bit (take_bit k (sval n x)) i"
        using bit_of_range[OF r, of i] nk
        by (cases "i < n"; cases "i = n - 1") (auto simp: bit_foldl_set bit_simps sval_def min_def)
    qed
    have "bv_sext c k = Inr (c\<lparr>m_big_val := ?v, m_size := k\<rparr>)"
      using big nk as_mpz_rep[OF assms(1)] bv_rep_size[OF assms(1)]
      by (auto simp: bv_sext_def as_mpz_def split: if_splits)
    then show ?thesis unfolding eq using big by (auto intro!: bv_rep_bigI)
  qed
qed

lemma bv_extract_yields:
  assumes "bv_rep n x c" "low \<le> high" "high < n"
  shows "bv_yields (high - low + 1) (take_bit (high - low + 1) (drop_bit low x)) (bv_extract c high low)"
proof -
  have less: "take_bit (Suc (high - low)) (drop_bit low x) < 2 * 2 ^ (high - low)"
    using take_bit_less_exp[of "Suc (high - low)" "drop_bit low x"] by (simp del: take_bit_less_exp)
  show ?thesis
  proof (cases "n \<le> 64")
  case True
  with assms(1) obtain w where c: "m_small_val c = Some w" "small_val c = Inr w" "uint w = x"
    "m_size c = n" "\<not> is_big c" by (rule bv_rep_smallE)
  have "high - low + 1 \<le> 64" "low < 64" using True assms by auto
  with c assms less show ?thesis
    by (auto simp: bv_extract_def Let_def bitmask_eq uint_and_mask unsigned_drop_bit_eq
        intro!: bv_rep_smallI)
next
  case False
  with assms(1) have c: "m_big_val c = x" "m_size c = n" "is_big c" by (auto elim: bv_rep_bigE)
  show ?thesis
  proof (cases "high - low + 1 \<le> 64")
    case True
    with c assms show ?thesis
      using less
      by (auto simp: bv_extract_def Let_def unsigned_of_int intro!: bv_rep_smallI)
  next
    case False
    with c assms show ?thesis
      using less by (auto simp: bv_extract_def Let_def intro!: bv_rep_bigI)
  qed
qed
qed

section \<open>Comparisons\<close>

lemma bv_rep2_cases:
  assumes "bv_rep n x a" "bv_rep n y b"
  obtains (small) u v where "\<not> is_big a" "small_val a = Inr u" "small_val b = Inr v"
      "uint u = x" "uint v = y"
  | (big) "is_big a" "m_big_val a = x" "m_big_val b = y" "0 \<le> x" "0 \<le> y"
  using assms by (cases "n \<le> 64") (metis bv_rep_smallE, metis bv_rep_bigE)

lemma bv_eq_rep:
  assumes "bv_rep n x a" "bv_rep n y b"
  shows "bv_eq a b = Inr (x = y)"
  using assms by (cases rule: bv_rep2_cases) (auto simp: bv_eq_def check_size_same[OF assms] word_uint_eq_iff)

lemma bv_ult_rep:
  assumes "bv_rep n x a" "bv_rep n y b"
  shows "bv_ult a b = Inr (x < y)"
  using assms
  by (cases rule: bv_rep2_cases) (auto simp: bv_ult_def check_size_same[OF assms] word_less_def)

lemma bv_unsigned_rep:
  assumes "bv_rep n x a" "bv_rep n y b"
  shows "bv_ule a b = Inr (x \<le> y)" "bv_ugt a b = Inr (x > y)" "bv_uge a b = Inr (x \<ge> y)"
  using bv_eq_rep[OF assms] bv_ult_rep[OF assms]
  by (auto simp: bv_ule_def bv_ugt_def bv_uge_def)

text \<open>
  The signed order is two's complement, except that the big representation also answers
  \<open>True\<close> for a non-negative left and a negative right operand.
\<close>

lemma bv_slt_small_rep:
  assumes "bv_rep n x a" "bv_rep n y b" "n \<le> 64"
  shows "bv_slt a b = Inr (sval n x < sval n y)"
proof -
  obtain w s where A: "small_val a = Inr w" "m_size a = n" "\<not> is_big a" "sext64 w n = Inr s" "sint s = sval n x"
    using assms(1,3) by (rule sext64_repE)
  obtain v t where B: "small_val b = Inr v" "m_size b = n" "sext64 v n = Inr t" "sint t = sval n y"
    using assms(2,3) by (rule sext64_repE)
  from A B show ?thesis by (simp add: bv_slt_def check_size_same[OF assms(1,2)])
qed

lemma bv_slt_big_rep:
  assumes "bv_rep n x a" "bv_rep n y b" "64 < n"
  shows "bv_slt a b = Inr (bit x (n - 1) \<noteq> bit y (n - 1) \<or> x < y)"
proof -
  have "\<not> n \<le> 64" using assms(3) by simp
  then have "m_big_val a = x" "m_big_val b = y" "m_size a = n" "m_size b = n" "is_big a"
    using assms(1,2) by (auto elim: bv_rep_bigE)
  moreover have "\<bar>x\<bar> = x" "\<bar>y\<bar> = y"
    using bv_rep_range[OF assms(1)] bv_rep_range[OF assms(2)] by auto
  ultimately show ?thesis by (simp add: bv_slt_def check_size_same[OF assms(1,2)])
qed

lemma sval_less_same_sign:
  "0 < n \<Longrightarrow> take_bit n x = x \<Longrightarrow> take_bit n y = y \<Longrightarrow> bit x (n - 1) = bit y (n - 1) \<Longrightarrow>
   sval n x < sval n y \<longleftrightarrow> x < y"
  by (simp add: sval_eq_if)

lemma sval_less_neg_pos:
  "0 < n \<Longrightarrow> bit x (n - 1) \<Longrightarrow> \<not> bit y (n - 1) \<Longrightarrow> sval n x < sval n y"
proof -
  assume "0 < n" "bit x (n - 1)" "\<not> bit y (n - 1)"
  then have "sval n x = take_bit n x - 2 ^ n" "sval n y = take_bit n y"
    by (simp_all add: sval_eq_if)
  moreover have "take_bit n x < 2 ^ n" "0 \<le> take_bit n y" by simp_all
  ultimately show "sval n x < sval n y" by linarith
qed

lemma bv_slt_big_correct:
  assumes "bv_rep n x a" "bv_rep n y b" "64 < n" "bit x (n - 1) \<or> \<not> bit y (n - 1)"
  shows "bv_slt a b = Inr (sval n x < sval n y)"
  using assms sval_less_same_sign[of n x y] sval_less_neg_pos[of n x y]
  by (cases "bit x (n - 1) = bit y (n - 1)") (auto simp: bv_slt_big_rep bv_rep_take_bit)

lemma bv_signed_small_rep:
  assumes "bv_rep n x a" "bv_rep n y b" "n \<le> 64"
  shows "bv_sle a b = Inr (sval n x \<le> sval n y)" "bv_sgt a b = Inr (sval n x > sval n y)"
    "bv_sge a b = Inr (sval n x \<ge> sval n y)"
proof -
  have "sval n x = sval n y \<longleftrightarrow> x = y"
    using assms(1,2) by (metis bv_rep_pos bv_rep_take_bit take_bit_sval)
  then show "bv_sle a b = Inr (sval n x \<le> sval n y)" "bv_sgt a b = Inr (sval n x > sval n y)"
    "bv_sge a b = Inr (sval n x \<ge> sval n y)"
    using bv_eq_rep[OF assms(1,2)] bv_slt_small_rep[OF assms]
    by (auto simp: bv_sle_def bv_sgt_def bv_sge_def)
qed

section \<open>Constructors\<close>

lemma BVConst_u64_yields:
  assumes "0 < n"
  shows "bv_yields n (take_bit n (uint v)) (BVConst_u64 v n)"
proof (cases "n \<le> 64")
  case True
  with assms show ?thesis
    by (auto simp: BVConst_u64_def intro!: yields_adjust_small)
next
  case False
  with assms show ?thesis
    by (auto simp: BVConst_u64_def intro!: yields_adjust_big)
qed

lemma BVConst_copy_rep: "bv_rep n v c \<Longrightarrow> bv_rep n v (BVConst_copy c)"
  by (auto simp: BVConst_copy_def bv_rep_def bv_ok_def bv_val_def)

lemma BVConst_default_rep: "bv_rep 1 0 BVConst_default"
  by (simp add: BVConst_default_def bv_rep_def bv_ok_def bv_val_def)

text \<open>The numerals that the observers compare with.\<close>

lemma stoul_numerals:
  "stoul ''-1'' 10 = Inr (- 1)"
  "stoul ''ffffffffffffffff'' 16 = Inr (- 1)"
  "stoul ''7fffffffffffffff'' 16 = Inr 0x7FFFFFFFFFFFFFFF"
  by (simp_all add: stoul_def is_space_def digit_val_def digits_value_def strip_hex_prefix_def)

lemma mpz_numerals:
  "mpz_of_string ''-1'' 10 = Inr (- 1)"
  "mpz_of_string ''ffffffffffffffff'' 16 = Inr (2 ^ 64 - 1)"
  "mpz_of_string ''7fffffffffffffff'' 16 = Inr (2 ^ 63 - 1)"
  by (simp_all add: mpz_of_string_def is_space_def digit_val_def digits_value_def)

lemma BVConst_str_yields:
  assumes "0 < n" "numeral_base s = (base, num)"
    and "n \<le> 64 \<Longrightarrow> stoul num base = Inr w \<and> take_bit n (uint w) = take_bit n v"
    and "\<not> n \<le> 64 \<Longrightarrow> mpz_of_string num base = Inr v"
  shows "bv_yields n (take_bit n v) (BVConst_str s n)"
proof (cases "n \<le> 64")
  case True
  with assms show ?thesis
    by (auto simp: BVConst_str_def intro!: yields_adjust_small)
next
  case False
  with assms show ?thesis
    by (auto simp: BVConst_str_def intro!: yields_adjust_big)
qed

lemma BVConst_all_ones: "0 < n \<Longrightarrow> bv_yields n (take_bit n (- 1)) (BVConst_str ''-1'' n)"
  by (rule BVConst_str_yields[where base = 10 and num = "''-1''" and w = "- 1"])
    (auto simp: numeral_base_def stoul_numerals mpz_numerals unsigned_minus_1_eq_mask)

lemma BVConst_max_u64:
  "0 < n \<Longrightarrow> bv_yields n (take_bit n (2 ^ 64 - 1)) (BVConst_str ''0xffffffffffffffff'' n)"
  by (rule BVConst_str_yields[where base = 16 and num = "''ffffffffffffffff''" and w = "- 1"])
    (auto simp: numeral_base_def stoul_numerals mpz_numerals unsigned_minus_1_eq_mask mask_eq_exp_minus_1)

lemma BVConst_max_s64:
  "0 < n \<Longrightarrow> bv_yields n (take_bit n (2 ^ 63 - 1)) (BVConst_str ''0x7fffffffffffffff'' n)"
  by (rule BVConst_str_yields[where base = 16 and num = "''7fffffffffffffff''" and w = "0x7FFFFFFFFFFFFFFF"])
    (auto simp: numeral_base_def stoul_numerals mpz_numerals)

section \<open>Tests and conversions\<close>

lemma bv_eq_const:
  assumes "bv_rep n x c" "bv_yields n y m"
  shows "rbind m (bv_eq c) = Inr (x = y)"
  using assms by (auto simp: bv_yields_def bv_eq_rep)

lemma bv_is_zero_rep: "bv_rep n x c \<Longrightarrow> bv_is_zero c = Inr (x = 0)"
  using BVConst_u64_yields[of n 0] bv_eq_const[of n x c 0 "BVConst_u64 0 n"] bv_rep_pos[of n x c]
  by (cases "n \<le> 64") (auto simp: bv_is_zero_def bv_rep_size unsigned_eq_0_iff elim: bv_rep_smallE bv_rep_bigE)

lemma bv_is_one_rep:
  assumes "bv_rep n x c"
  shows "bv_is_one c = Inr (x = 1)"
proof (cases "n \<le> 64")
  case True
  with assms show ?thesis
    by (auto simp: bv_is_one_def word_uint_eq_iff elim: bv_rep_smallE)
next
  case False
  then have "take_bit n (uint (1 :: 64 word)) = (1 :: int)" by simp
  with False assms bv_eq_const[OF assms BVConst_u64_yields[of n 1]] show ?thesis
    by (auto simp: bv_is_one_def bv_rep_size is_big_def)
qed

lemma bv_has_all_bit_set_rep:
  "bv_rep n x c \<Longrightarrow> bv_has_all_bit_set c = Inr (x = 2 ^ n - 1)"
  using bv_eq_const[OF _ BVConst_all_ones, of n x c] bv_rep_pos[of n x c]
  by (simp add: bv_has_all_bit_set_def bv_rep_size take_bit_minus_one_eq_mask mask_eq_exp_minus_1)

lemma range_less_min:
  assumes "0 \<le> x" "x < 2 ^ n"
  shows "take_bit n (2 ^ k - 1) < x \<longleftrightarrow> 2 ^ k \<le> (x :: int)"
proof (cases "k \<le> n")
  case True
  then have "(2 :: int) ^ k \<le> 2 ^ n" by (rule exp_mono)
  moreover have "(0 :: int) < 2 ^ k" by simp
  ultimately have "0 \<le> 2 ^ k - (1 :: int)" "2 ^ k - (1 :: int) < 2 ^ n" by linarith+
  then have "take_bit n (2 ^ k - 1) = (2 ^ k - 1 :: int)" by (rule take_bit_id)
  then show ?thesis by auto
next
  case False
  then have m: "take_bit n (mask k :: int) = mask n" by (intro bit_eqI) (auto simp: bit_simps)
  from False have "(2 :: int) ^ n \<le> 2 ^ k" by (intro exp_mono) simp
  with assms have "\<not> 2 ^ k \<le> x" "\<not> 2 ^ n - 1 < x" by linarith+
  with m show ?thesis by (simp add: mask_eq_exp_minus_1)
qed

lemma bv_ugt_const:
  assumes "bv_rep n x c" "bv_yields n (take_bit n (2 ^ k - 1)) m"
  shows "rbind m (\<lambda>t. rbind (bv_ugt c t) f) = f (2 ^ k \<le> x)"
  using assms bv_rep_range[OF assms(1)] by (auto simp: bv_yields_def bv_unsigned_rep range_less_min)

lemma bv_fit_in_u64_rep: "bv_rep n x c \<Longrightarrow> bv_fit_in_u64 c = Inr (x < 2 ^ 64)"
  using bv_rep_pos[of n x c]
  by (auto simp: bv_fit_in_u64_def bv_rep_size bv_ugt_const[OF _ BVConst_max_u64])

lemma bv_fit_in_s64_rep: "bv_rep n x c \<Longrightarrow> bv_fit_in_s64 c = Inr (x < 2 ^ 63)"
  using bv_rep_pos[of n x c]
  by (auto simp: bv_fit_in_s64_def bv_rep_size bv_ugt_const[OF _ BVConst_max_s64])

lemma bv_as_u64_eq:
  "bv_rep n x c \<Longrightarrow> bv_as_u64 c = (if 2 ^ 64 \<le> x then Inl (Exit ''as_u64'') else small_val c)"
  using bv_rep_pos[of n x c]
  by (simp add: bv_as_u64_def bv_rep_size bv_ugt_const[OF _ BVConst_max_u64])

lemma bv_as_u64_rep: "bv_rep n x c \<Longrightarrow> n \<le> 64 \<Longrightarrow> bv_as_u64 c = Inr (word_of_int x)"
  using uint64_range by (auto simp: bv_as_u64_eq not_le elim!: bv_rep_smallE)

lemma bv_as_s64_rep:
  assumes "bv_rep n x c" "n \<le> 64" "x < 2 ^ 63"
  shows "\<exists>s. bv_as_s64 c = Inr s \<and> sint s = sval n x"
proof -
  obtain w s where A: "small_val c = Inr w" "m_size c = n" "sext64 w n = Inr s" "sint s = sval n x"
    using assms(1,2) by (rule sext64_repE)
  with assms bv_rep_pos[OF assms(1)] show ?thesis
    by (simp add: bv_as_s64_def bv_ugt_const[OF assms(1) BVConst_max_s64])
qed

section \<open>Bytes\<close>

text \<open>The integer written by bytes, least significant first.\<close>

primrec le_int :: "8 word list \<Rightarrow> int" where
  "le_int [] = 0"
| "le_int (b # bs) = uint b OR push_bit 8 (le_int bs)"

lemma bit_uint8: "bit (uint (b :: 8 word)) i \<longleftrightarrow> i < 8 \<and> bit b i"
  by (auto simp: bit_simps dest: bit_imp_le_length)

lemma bit_le_int:
  "bit (le_int bs) i \<longleftrightarrow> i div 8 < length bs \<and> bit (bs ! (i div 8)) (i mod 8)"
proof (induction bs arbitrary: i)
  case (Cons b bs)
  show ?case
  proof (cases "i < 8")
    case False
    then have "i div 8 = Suc ((i - 8) div 8)" "i mod 8 = (i - 8) mod 8"
      by (simp_all add: le_div_geq le_mod_geq)
    with False Cons.IH[of "i - 8"] show ?thesis by (simp add: bit_or_iff bit_push_bit_iff bit_uint8)
  qed (simp add: bit_or_iff bit_push_bit_iff bit_uint8)
qed simp

lemma le_int_range: "0 \<le> le_int bs" "le_int bs < 2 ^ (8 * length bs)"
proof -
  have "take_bit (8 * length bs) (le_int bs) = le_int bs"
    by (rule bit_eqI) (auto simp: bit_simps bit_le_int)
  then show "0 \<le> le_int bs" "le_int bs < 2 ^ (8 * length bs)"
    by (metis take_bit_nonnegative) (metis \<open>take_bit (8 * length bs) (le_int bs) = le_int bs\<close> take_bit_less_exp)
qed

definition le_bytes :: "endianess \<Rightarrow> 8 word list \<Rightarrow> 8 word list" where
  "le_bytes end bs = (if end = LITTLE then bs else rev bs)"

lemma le_bytes_length [simp]: "length (le_bytes end bs) = length bs"
  by (simp add: le_bytes_def)

lemma le_bytes_nth:
  "i < length bs \<Longrightarrow> le_bytes end bs ! i = (if end = LITTLE then bs ! i else bs ! (length bs - i - 1))"
  by (simp add: le_bytes_def rev_nth)

lemma bit_foldl_or:
  "bit (foldl (\<lambda>v i. v OR f i) (a :: 64 word) xs) k \<longleftrightarrow> bit a k \<or> (\<exists>i\<in>set xs. bit (f i) k)"
  by (induction xs arbitrary: a) (auto simp: bit_simps)

lemma bit_shifted_byte:
  "bit (push_bit (i * 8) (ucast (b :: 8 word)) :: 64 word) k \<longleftrightarrow>
   k < 64 \<and> k div 8 = i \<and> bit b (k mod 8)"
proof (cases "k div 8 = i")
  case True
  then have "k = i * 8 + k mod 8" using div_mult_mod_eq[of k 8] by simp
  then obtain j where "k = i * 8 + j" "j < 8" by (metis mod_less_divisor zero_less_numeral)
  then show ?thesis by (auto simp: bit_simps)
next
  case False
  then have "k < i * 8 \<or> 8 \<le> k - i * 8" by auto
  with False show ?thesis by (auto simp: bit_simps dest: bit_imp_le_length)
qed

lemma bit_data_byte_small:
  "bit (data_byte_small data end i) k \<longleftrightarrow>
     k < 64 \<and> k div 8 = (if end = LITTLE then i else length data - i - 1) \<and> bit (data ! i) (k mod 8)"
  by (simp add: data_byte_small_def bit_shifted_byte)

lemma data_small_eq:
  assumes "length data * 8 \<le> 64"
  shows "uint (foldl (\<lambda>v i. v OR data_byte_small data end i) 0 [0..<length data]) = le_int (le_bytes end data)"
proof (rule bit_eqI)
  fix k
  let ?w = "foldl (\<lambda>v i. v OR data_byte_small data end i) 0 [0..<length data]"
  have k: "k < 64" if "k div 8 < length data" using that assms by simp
  show "bit (uint ?w) k \<longleftrightarrow> bit (le_int (le_bytes end data)) k"
  proof (cases "k div 8 < length data")
    case True
    let ?i = "if end = LITTLE then k div 8 else length data - k div 8 - 1"
    have "?i < length data" "k div 8 = (if end = LITTLE then ?i else length data - ?i - 1)"
      using True by auto
    then have "bit (data ! ?i) (k mod 8) \<Longrightarrow> bit ?w k"
      unfolding bit_foldl_or using True k
      by (intro disjI2 bexI[where x = ?i]) (auto simp: bit_data_byte_small)
    moreover have "bit ?w k \<Longrightarrow> bit (data ! ?i) (k mod 8)"
      using True by (auto simp: bit_foldl_or bit_data_byte_small split: if_splits)
    ultimately have "bit ?w k \<longleftrightarrow> bit (data ! ?i) (k mod 8)" by blast
    with True k show ?thesis by (simp add: bit_uint_iff bit_le_int le_bytes_nth)
  next
    case False
    then show ?thesis by (auto simp: bit_uint_iff bit_le_int bit_foldl_or bit_data_byte_small)
  qed
qed

lemma bit_set_data:
  assumes "\<And>p. p \<in> set ps \<Longrightarrow> fst p * 8 + snd p = k \<longleftrightarrow> p = q"
  shows "bit (foldl (set_data_bit data end) v ps) k \<longleftrightarrow>
    (if q \<in> set ps then data_bit_big data end (fst q) (snd q) else bit v k)"
  using assms
proof (induction ps rule: rev_induct)
  case (snoc p ps)
  then show ?case
    by (cases "p = q") (simp_all add: set_data_bit_def Let_def bit_simps)
qed simp

lemma data_big_eq:
  "foldl (set_data_bit data end) 0 (List.product [0..<length data] [0..<8]) = le_int (le_bytes end data)"
proof (rule bit_eqI)
  fix k :: nat
  let ?ps = "List.product [0..<length data] [0..<8]"
  have "p \<in> set ?ps \<Longrightarrow> fst p * 8 + snd p = k \<longleftrightarrow> p = (k div 8, k mod 8)" for p
    by (cases p) auto
  note bit_set_data[OF this]
  moreover have "(k div 8, k mod 8) \<in> set ?ps \<longleftrightarrow> k div 8 < length data" by auto
  ultimately show "bit (foldl (set_data_bit data end) 0 ?ps) k \<longleftrightarrow> bit (le_int (le_bytes end data)) k"
    by (auto simp: bit_le_int le_bytes_nth data_bit_big_def simp del: upt_rec_numeral set_product)
qed

lemma BVConst_data_yields:
  assumes "data \<noteq> []"
  shows "bv_yields (length data * 8) (le_int (le_bytes end data)) (BVConst_data data end)"
proof -
  have t: "take_bit (length data * 8) (le_int (le_bytes end data)) = le_int (le_bytes end data)"
    using le_int_range[of "le_bytes end data"] by (simp add: mult.commute take_bit_int_eq_self)
  show ?thesis
  proof (cases "length data * 8 \<le> 64")
    case True
    with assms t show ?thesis
      by (auto simp: BVConst_data_def Let_def data_small_eq intro!: yields_adjust_small)
  next
    case False
    with assms t show ?thesis
      by (auto simp: BVConst_data_def Let_def data_big_eq intro!: yields_adjust_big)
  qed
qed

lemma bit_get_byte_fold:
  "bit (foldl (\<lambda>r i. if P i then r else r OR push_bit i (of_bool (Q i))) (a :: 8 word) xs) k \<longleftrightarrow>
   bit a k \<or> (k < 8 \<and> k \<in> set xs \<and> \<not> P k \<and> Q k)"
proof (induction xs rule: rev_induct)
  case (snoc x xs)
  have "bit (push_bit x (of_bool (Q x)) :: 8 word) k \<longleftrightarrow> k < 8 \<and> k = x \<and> Q x"
    by (auto simp: bit_push_bit_iff bit_of_bool_iff)
  with snoc show ?case by (auto simp: bit_or_iff)
qed simp

lemma bv_get_byte_rep:
  assumes "bv_rep n x c" "idx * 8 + 7 < n"
  shows "bv_get_byte c idx = Inr (word_of_int (drop_bit (8 * idx) x))"
proof (cases "n \<le> 64")
  case True
  with assms obtain w where c: "small_val c = Inr w" "uint w = x" "m_size c = n" "\<not> is_big c"
    by (auto elim: bv_rep_smallE)
  have "(ucast (drop_bit (idx * 8) w AND mask 8) :: 8 word) = word_of_int (drop_bit (8 * idx) x)"
    by (rule bit_word_eqI) (use c(2) in \<open>auto simp: bit_simps mult.commute\<close>)
  with c assms(2) show ?thesis by (simp add: bv_get_byte_def Let_def bitmask_eq)
next
  case False
  with assms(1) have c: "m_big_val c = x" "m_size c = n" "is_big c" by (auto elim: bv_rep_bigE)
  have eq: "foldl (\<lambda>r i. if n \<le> i + idx * 8 then r else r OR push_bit i (of_bool (bit x (i + idx * 8))))
      0 [0..<8] = (word_of_int (drop_bit (8 * idx) x) :: 8 word)"
    by (rule bit_word_eqI)
      (use assms(2) in \<open>auto simp: bit_get_byte_fold bit_simps mult.commute add.commute\<close>)
  have "\<not> n \<le> idx * 8 + 7" using assms(2) by simp
  then have "bv_get_byte c idx = Inr (foldl (\<lambda>r i. if n \<le> i + idx * 8 then r
      else r OR push_bit i (of_bool (bit x (i + idx * 8)))) 0 [0..<8])"
    unfolding bv_get_byte_def Let_def c(1,2) using c(3) by (simp only: if_False not_True_eq_False)
  then show ?thesis by (simp only: eq)
qed

lemma bytes_down_rep:
  assumes "bv_rep n x c" "k * 8 \<le> n"
  shows "bytes_down c k = Inr (rev (map (\<lambda>i. word_of_int (drop_bit (8 * i) x)) [0..<k]))"
  using assms(2) by (induction k) (auto simp: bv_get_byte_rep[OF assms(1)])

lemma bv_as_data_rep:
  assumes "bv_rep n x c" "n mod 8 = 0"
  shows "bv_as_data c = Inr (rev (map (\<lambda>i. word_of_int (drop_bit (8 * i) x)) [0..<n div 8]))"
  using assms bytes_down_rep[OF assms(1), of "n div 8"]
  by (simp add: bv_as_data_def Let_def bv_rep_size)

text \<open>A width that is not a multiple of 8 makes \<^verbatim>\<open>as_data\<close> ask for a byte beyond the value.\<close>

lemma bv_as_data_partial:
  assumes "bv_rep n x c" "n mod 8 \<noteq> 0"
  shows "bv_as_data c = Inl (Exit ''get_byte'')"
proof -
  have "n \<le> n div 8 * 8 + 7" by presburger
  with assms show ?thesis
    by (simp add: bv_as_data_def Let_def bv_rep_size bv_get_byte_def)
qed

lemma word_of_le_int_byte:
  "i < length bs \<Longrightarrow> (word_of_int (drop_bit (8 * i) (le_int bs)) :: 8 word) = bs ! i"
  by (rule bit_word_eqI) (auto simp: bit_simps bit_le_int)

lemma data_as_data:
  assumes "data \<noteq> []"
  shows "rbind (BVConst_data data end) bv_as_data = Inr (if end = LITTLE then rev data else data)"
proof -
  obtain c where c: "BVConst_data data end = Inr c" "bv_rep (length data * 8) (le_int (le_bytes end data)) c"
    using BVConst_data_yields[OF assms] by (rule bv_yieldsE)
  have "map (\<lambda>i. word_of_int (drop_bit (8 * i) (le_int (le_bytes end data)))) [0..<length data]
        = le_bytes end data"
    by (rule nth_equalityI) (simp_all add: word_of_le_int_byte)
  with c show ?thesis by (simp add: bv_as_data_rep le_bytes_def)
qed

end
