(* ===== verification/Expr.thy ===== *)
theory Expr
  imports BVConst_Struct
begin

text \<open>
  The expression classes of \<^verbatim>\<open>expr/Expr.hpp\<close>. A shared pointer to an (immutable) node is
  represented by the tree below it; the builder interns nodes, so that equality of pointers is
  equality of trees (proved in theory \<open>ExprBuilder\<close> of its table). One constructor per class, with
  the members of the class as arguments; the width \<^verbatim>\<open>m_size\<close> that a constructor computes from the
  children is computed by \<open>expr_size\<close>, and the \<^verbatim>\<open>m_size\<close> of the four division nodes, which no
  constructor ever initialises, is an argument.
\<close>

section \<open>Nodes\<close>

text \<open>
  A pointer to a \<^verbatim>\<open>FloatFormat\<close> of the sleigh library, with the size in bytes that the format
  reports, and a constant of such a format.
\<close>

record float_format =
  ff_addr :: "64 word"
  ff_getSize :: nat

record fpconst =
  fp_val :: "64 word"
  fp_ff :: float_format

datatype expr =
    SymExpr nat nat
  | ConstExpr bvconst
  | ITEExpr expr expr expr
  | ExtractExpr expr nat nat
  | ConcatExpr "expr list"
  | ZextExpr expr nat
  | SextExpr expr nat
  | NegExpr expr
  | NotExpr expr
  | ShlExpr expr expr
  | LShrExpr expr expr
  | AShrExpr expr expr
  | AddExpr "expr list"
  | MulExpr "expr list"
  | SDivExpr expr expr nat
  | UDivExpr expr expr nat
  | SRemExpr expr expr nat
  | URemExpr expr expr nat
  | AndExpr "expr list"
  | OrExpr "expr list"
  | XorExpr "expr list"
  | BoolConst bool
  | BoolNotExpr expr
  | BoolAndExpr "expr list"
  | BoolOrExpr "expr list"
  | UltExpr expr expr
  | UleExpr expr expr
  | UgtExpr expr expr
  | UgeExpr expr expr
  | SltExpr expr expr
  | SleExpr expr expr
  | SgtExpr expr expr
  | SgeExpr expr expr
  | EqExpr expr expr
  | FPConstExpr fpconst
  | BVToFPExpr float_format expr
  | FPToBVExpr expr
  | FPConvert expr float_format
  | IntToFPExpr expr float_format
  | FPIsNAN expr
  | FPDivExpr expr expr
  | FPNegExpr expr
  | FPAddExpr "expr list"
  | FPMulExpr "expr list"
  | FPEqExpr expr expr
  | FPLtExpr expr expr

text \<open>The enumeration \<^verbatim>\<open>Expr::Kind\<close>; the prefix keeps the names apart from the bit operators.\<close>

datatype expr_kind =
    K_SYM | K_CONST | K_BOOL_CONST | K_EXTRACT | K_CONCAT | K_ZEXT | K_SEXT | K_ITE
  | K_SHL | K_LSHR | K_ASHR | K_NEG | K_NOT | K_AND | K_OR | K_XOR | K_ADD | K_MUL | K_SDIV | K_UDIV | K_SREM | K_UREM
  | K_BOOL_NOT | K_ULT | K_ULE | K_UGT | K_UGE | K_SLT | K_SLE | K_SGT | K_SGE | K_EQ | K_BOOL_AND | K_BOOL_OR
  | K_FP_CONST | K_BV_TO_FP | K_FP_TO_BV | K_FP_CONVERT | K_FP_INT_TO_FP | K_FP_IS_NAN
  | K_FP_NEG | K_FP_ADD | K_FP_MUL | K_FP_DIV | K_FP_LT | K_FP_EQ

text \<open>
  The virtual method \<^verbatim>\<open>kind()\<close>, each class's constant \<^verbatim>\<open>ekind\<close>. The constants of three classes
  name another class: \<^verbatim>\<open>AShrExpr\<close> says \<open>K_LSHR\<close>, \<^verbatim>\<open>SRemExpr\<close> says \<open>K_SDIV\<close>, \<^verbatim>\<open>URemExpr\<close> says \<open>K_UDIV\<close>.
\<close>

primrec kind :: "expr \<Rightarrow> expr_kind" where
  "kind (SymExpr _ _) = K_SYM"
| "kind (ConstExpr _) = K_CONST"
| "kind (ITEExpr _ _ _) = K_ITE"
| "kind (ExtractExpr _ _ _) = K_EXTRACT"
| "kind (ConcatExpr _) = K_CONCAT"
| "kind (ZextExpr _ _) = K_ZEXT"
| "kind (SextExpr _ _) = K_SEXT"
| "kind (NegExpr _) = K_NEG"
| "kind (NotExpr _) = K_NOT"
| "kind (ShlExpr _ _) = K_SHL"
| "kind (LShrExpr _ _) = K_LSHR"
| "kind (AShrExpr _ _) = K_LSHR"
| "kind (AddExpr _) = K_ADD"
| "kind (MulExpr _) = K_MUL"
| "kind (SDivExpr _ _ _) = K_SDIV"
| "kind (UDivExpr _ _ _) = K_UDIV"
| "kind (SRemExpr _ _ _) = K_SDIV"
| "kind (URemExpr _ _ _) = K_UDIV"
| "kind (AndExpr _) = K_AND"
| "kind (OrExpr _) = K_OR"
| "kind (XorExpr _) = K_XOR"
| "kind (BoolConst _) = K_BOOL_CONST"
| "kind (BoolNotExpr _) = K_BOOL_NOT"
| "kind (BoolAndExpr _) = K_BOOL_AND"
| "kind (BoolOrExpr _) = K_BOOL_OR"
| "kind (UltExpr _ _) = K_ULT"
| "kind (UleExpr _ _) = K_ULE"
| "kind (UgtExpr _ _) = K_UGT"
| "kind (UgeExpr _ _) = K_UGE"
| "kind (SltExpr _ _) = K_SLT"
| "kind (SleExpr _ _) = K_SLE"
| "kind (SgtExpr _ _) = K_SGT"
| "kind (SgeExpr _ _) = K_SGE"
| "kind (EqExpr _ _) = K_EQ"
| "kind (FPConstExpr _) = K_FP_CONST"
| "kind (BVToFPExpr _ _) = K_BV_TO_FP"
| "kind (FPToBVExpr _) = K_FP_TO_BV"
| "kind (FPConvert _ _) = K_FP_CONVERT"
| "kind (IntToFPExpr _ _) = K_FP_INT_TO_FP"
| "kind (FPIsNAN _) = K_FP_IS_NAN"
| "kind (FPDivExpr _ _) = K_FP_DIV"
| "kind (FPNegExpr _) = K_FP_NEG"
| "kind (FPAddExpr _) = K_FP_ADD"
| "kind (FPMulExpr _) = K_FP_MUL"
| "kind (FPEqExpr _ _) = K_FP_EQ"
| "kind (FPLtExpr _ _) = K_FP_LT"

text \<open>The virtual method \<^verbatim>\<open>children()\<close>.\<close>

primrec children :: "expr \<Rightarrow> expr list" where
  "children (SymExpr _ _) = []"
| "children (ConstExpr _) = []"
| "children (ITEExpr g t f) = [g, t, f]"
| "children (ExtractExpr e _ _) = [e]"
| "children (ConcatExpr es) = es"
| "children (ZextExpr e _) = [e]"
| "children (SextExpr e _) = [e]"
| "children (NegExpr e) = [e]"
| "children (NotExpr e) = [e]"
| "children (ShlExpr e v) = [e, v]"
| "children (LShrExpr e v) = [e, v]"
| "children (AShrExpr e v) = [e, v]"
| "children (AddExpr es) = es"
| "children (MulExpr es) = es"
| "children (SDivExpr l r _) = [l, r]"
| "children (UDivExpr l r _) = [l, r]"
| "children (SRemExpr l r _) = [l, r]"
| "children (URemExpr l r _) = [l, r]"
| "children (AndExpr es) = es"
| "children (OrExpr es) = es"
| "children (XorExpr es) = es"
| "children (BoolConst _) = []"
| "children (BoolNotExpr e) = [e]"
| "children (BoolAndExpr es) = es"
| "children (BoolOrExpr es) = es"
| "children (UltExpr l r) = [l, r]"
| "children (UleExpr l r) = [l, r]"
| "children (UgtExpr l r) = [l, r]"
| "children (UgeExpr l r) = [l, r]"
| "children (SltExpr l r) = [l, r]"
| "children (SleExpr l r) = [l, r]"
| "children (SgtExpr l r) = [l, r]"
| "children (SgeExpr l r) = [l, r]"
| "children (EqExpr l r) = [l, r]"
| "children (FPConstExpr _) = []"
| "children (BVToFPExpr _ e) = [e]"
| "children (FPToBVExpr e) = [e]"
| "children (FPConvert e _) = [e]"
| "children (IntToFPExpr e _) = [e]"
| "children (FPIsNAN e) = [e]"
| "children (FPDivExpr l r) = [l, r]"
| "children (FPNegExpr e) = [e]"
| "children (FPAddExpr es) = es"
| "children (FPMulExpr es) = es"
| "children (FPEqExpr l r) = [l, r]"
| "children (FPLtExpr l r) = [l, r]"

text \<open>
  \<^verbatim>\<open>FPExpr::ff()\<close>: the format a floating-point node is built with, the first child's for the
  arithmetic nodes; and \<^verbatim>\<open>BVExpr::size()\<close>, the width in bits of a bit-vector node. The static types of the code keep the
  two methods from other classes, for which the functions answer arbitrarily.
\<close>

definition no_ff :: float_format where
  "no_ff = \<lparr>ff_addr = 0, ff_getSize = 0\<rparr>"

primrec expr_ff :: "expr \<Rightarrow> float_format" where
  "expr_ff (SymExpr _ _) = no_ff"
| "expr_ff (ConstExpr _) = no_ff"
| "expr_ff (ITEExpr _ _ _) = no_ff"
| "expr_ff (ExtractExpr _ _ _) = no_ff"
| "expr_ff (ConcatExpr _) = no_ff"
| "expr_ff (ZextExpr _ _) = no_ff"
| "expr_ff (SextExpr _ _) = no_ff"
| "expr_ff (NegExpr _) = no_ff"
| "expr_ff (NotExpr _) = no_ff"
| "expr_ff (ShlExpr _ _) = no_ff"
| "expr_ff (LShrExpr _ _) = no_ff"
| "expr_ff (AShrExpr _ _) = no_ff"
| "expr_ff (AddExpr _) = no_ff"
| "expr_ff (MulExpr _) = no_ff"
| "expr_ff (SDivExpr _ _ _) = no_ff"
| "expr_ff (UDivExpr _ _ _) = no_ff"
| "expr_ff (SRemExpr _ _ _) = no_ff"
| "expr_ff (URemExpr _ _ _) = no_ff"
| "expr_ff (AndExpr _) = no_ff"
| "expr_ff (OrExpr _) = no_ff"
| "expr_ff (XorExpr _) = no_ff"
| "expr_ff (BoolConst _) = no_ff"
| "expr_ff (BoolNotExpr _) = no_ff"
| "expr_ff (BoolAndExpr _) = no_ff"
| "expr_ff (BoolOrExpr _) = no_ff"
| "expr_ff (UltExpr _ _) = no_ff"
| "expr_ff (UleExpr _ _) = no_ff"
| "expr_ff (UgtExpr _ _) = no_ff"
| "expr_ff (UgeExpr _ _) = no_ff"
| "expr_ff (SltExpr _ _) = no_ff"
| "expr_ff (SleExpr _ _) = no_ff"
| "expr_ff (SgtExpr _ _) = no_ff"
| "expr_ff (SgeExpr _ _) = no_ff"
| "expr_ff (EqExpr _ _) = no_ff"
| "expr_ff (FPConstExpr c) = fp_ff c"
| "expr_ff (BVToFPExpr ff _) = ff"
| "expr_ff (FPToBVExpr _) = no_ff"
| "expr_ff (FPConvert _ ff) = ff"
| "expr_ff (IntToFPExpr _ ff) = ff"
| "expr_ff (FPIsNAN _) = no_ff"
| "expr_ff (FPDivExpr l _) = expr_ff l"
| "expr_ff (FPNegExpr e) = expr_ff e"
| "expr_ff (FPAddExpr es) = hd (map expr_ff es @ [no_ff])"
| "expr_ff (FPMulExpr es) = hd (map expr_ff es @ [no_ff])"
| "expr_ff (FPEqExpr _ _) = no_ff"
| "expr_ff (FPLtExpr _ _) = no_ff"

primrec expr_size :: "expr \<Rightarrow> nat" where
  "expr_size (SymExpr _ n) = n"
| "expr_size (ConstExpr c) = m_size c"
| "expr_size (ITEExpr _ t _) = expr_size t"
| "expr_size (ExtractExpr _ high low) = high - low + 1"
| "expr_size (ConcatExpr es) = sum_list (map expr_size es)"
| "expr_size (ZextExpr _ n) = n"
| "expr_size (SextExpr _ n) = n"
| "expr_size (NegExpr e) = expr_size e"
| "expr_size (NotExpr e) = expr_size e"
| "expr_size (ShlExpr e _) = expr_size e"
| "expr_size (LShrExpr e _) = expr_size e"
| "expr_size (AShrExpr e _) = expr_size e"
| "expr_size (AddExpr es) = hd (map expr_size es @ [0])"
| "expr_size (MulExpr es) = hd (map expr_size es @ [0])"
| "expr_size (SDivExpr _ _ n) = n"
| "expr_size (UDivExpr _ _ n) = n"
| "expr_size (SRemExpr _ _ n) = n"
| "expr_size (URemExpr _ _ n) = n"
| "expr_size (AndExpr es) = hd (map expr_size es @ [0])"
| "expr_size (OrExpr es) = hd (map expr_size es @ [0])"
| "expr_size (XorExpr es) = hd (map expr_size es @ [0])"
| "expr_size (FPToBVExpr e) = ff_getSize (expr_ff e) * 8"
| "expr_size (BoolConst _) = 0"
| "expr_size (BoolNotExpr _) = 0"
| "expr_size (BoolAndExpr _) = 0"
| "expr_size (BoolOrExpr _) = 0"
| "expr_size (UltExpr _ _) = 0"
| "expr_size (UleExpr _ _) = 0"
| "expr_size (UgtExpr _ _) = 0"
| "expr_size (UgeExpr _ _) = 0"
| "expr_size (SltExpr _ _) = 0"
| "expr_size (SleExpr _ _) = 0"
| "expr_size (SgtExpr _ _) = 0"
| "expr_size (SgeExpr _ _) = 0"
| "expr_size (EqExpr _ _) = 0"
| "expr_size (FPConstExpr _) = 0"
| "expr_size (BVToFPExpr _ _) = 0"
| "expr_size (FPConvert _ _) = 0"
| "expr_size (IntToFPExpr _ _) = 0"
| "expr_size (FPIsNAN _) = 0"
| "expr_size (FPDivExpr _ _) = 0"
| "expr_size (FPNegExpr _) = 0"
| "expr_size (FPAddExpr _) = 0"
| "expr_size (FPMulExpr _) = 0"
| "expr_size (FPEqExpr _ _) = 0"
| "expr_size (FPLtExpr _ _) = 0"

end
