(* ===== verification/ExprSem.thy ===== *)
theory ExprSem
  imports Expr
begin

unbundle bit_operations_syntax

text \<open>
  The meaning of expressions, the reference against which the builder is specified: \<open>sem F \<rho> e\<close> is
  the value of \<open>e\<close> when the symbol with id \<open>i\<close> has value \<open>\<rho> i\<close>, the SMT-LIB value for the
  bit-vector nodes; a Boolean is 0 or 1, a floating-point number its encoding. \<open>F\<close> holds the
  operations of the sleigh class \<^verbatim>\<open>FloatFormat\<close>, which is not part of the repository.
\<close>

section \<open>The operations of FloatFormat\<close>

record fp_lib =
  opNeg :: "float_format \<Rightarrow> 64 word \<Rightarrow> 64 word"
  opAdd :: "float_format \<Rightarrow> 64 word \<Rightarrow> 64 word \<Rightarrow> 64 word"
  opMult :: "float_format \<Rightarrow> 64 word \<Rightarrow> 64 word \<Rightarrow> 64 word"
  opDiv :: "float_format \<Rightarrow> 64 word \<Rightarrow> 64 word \<Rightarrow> 64 word"
  opNan :: "float_format \<Rightarrow> 64 word \<Rightarrow> bool"
  opLess :: "float_format \<Rightarrow> 64 word \<Rightarrow> 64 word \<Rightarrow> bool"
  opEqual :: "float_format \<Rightarrow> 64 word \<Rightarrow> 64 word \<Rightarrow> bool"
  convertEncoding :: "float_format \<Rightarrow> 64 word \<Rightarrow> float_format \<Rightarrow> 64 word"
  getEncoding :: "float_format \<Rightarrow> int \<Rightarrow> 64 word"
  host_is_one :: "float_format \<Rightarrow> 64 word \<Rightarrow> bool"

text \<open>
  \<open>getEncoding ff i\<close> is the encoding of the double that is the integer \<open>i\<close> (the code encodes no
  other), \<open>host_is_one ff v\<close> says that the double encoded by \<open>v\<close> is 1.
\<close>

section \<open>Values of the operations\<close>

definition shl_val :: "nat \<Rightarrow> int \<Rightarrow> int \<Rightarrow> int" where
  "shl_val n x v = (if v \<ge> int n then 0 else take_bit n (push_bit (nat v) x))"

definition lshr_val :: "nat \<Rightarrow> int \<Rightarrow> int \<Rightarrow> int" where
  "lshr_val n x v = (if v \<ge> int n then 0 else drop_bit (nat v) x)"

definition ashr_val :: "nat \<Rightarrow> int \<Rightarrow> int \<Rightarrow> int" where
  "ashr_val n x v = take_bit n (drop_bit (nat (min v (int n))) (sval n x))"

definition udiv_val :: "nat \<Rightarrow> int \<Rightarrow> int \<Rightarrow> int" where
  "udiv_val n x y = (if y = 0 then mask n else x div y)"

definition urem_val :: "nat \<Rightarrow> int \<Rightarrow> int \<Rightarrow> int" where
  "urem_val n x y = (if y = 0 then x else x mod y)"

definition sdiv_val :: "nat \<Rightarrow> int \<Rightarrow> int \<Rightarrow> int" where
  "sdiv_val n x y =
     (if y = 0 then (if sval n x < 0 then 1 else mask n) else take_bit n (sval n x sdiv sval n y))"

definition srem_val :: "nat \<Rightarrow> int \<Rightarrow> int \<Rightarrow> int" where
  "srem_val n x y = (if y = 0 then x else take_bit n (sval n x smod sval n y))"

text \<open>Concatenation of values with their widths, the first the most significant.\<close>

definition concat_val :: "(nat \<times> int) list \<Rightarrow> int" where
  "concat_val = foldl (\<lambda>acc nv. push_bit (fst nv) acc OR snd nv) 0"

section \<open>Expressions\<close>

primrec sem :: "fp_lib \<Rightarrow> (nat \<Rightarrow> int) \<Rightarrow> expr \<Rightarrow> int" where
  "sem F \<rho> (SymExpr i n) = take_bit n (\<rho> i)"
| "sem F \<rho> (ConstExpr c) = bv_val c"
| "sem F \<rho> (ITEExpr g t f) = (if sem F \<rho> g \<noteq> 0 then sem F \<rho> t else sem F \<rho> f)"
| "sem F \<rho> (ExtractExpr e high low) = take_bit (high - low + 1) (drop_bit low (sem F \<rho> e))"
| "sem F \<rho> (ConcatExpr es) = concat_val (map (\<lambda>e. (expr_size e, sem F \<rho> e)) es)"
| "sem F \<rho> (ZextExpr e n) = sem F \<rho> e"
| "sem F \<rho> (SextExpr e n) = take_bit n (sval (expr_size e) (sem F \<rho> e))"
| "sem F \<rho> (NegExpr e) = take_bit (expr_size e) (- sem F \<rho> e)"
| "sem F \<rho> (NotExpr e) = take_bit (expr_size e) (NOT (sem F \<rho> e))"
| "sem F \<rho> (ShlExpr e v) = shl_val (expr_size e) (sem F \<rho> e) (sem F \<rho> v)"
| "sem F \<rho> (LShrExpr e v) = lshr_val (expr_size e) (sem F \<rho> e) (sem F \<rho> v)"
| "sem F \<rho> (AShrExpr e v) = ashr_val (expr_size e) (sem F \<rho> e) (sem F \<rho> v)"
| "sem F \<rho> (AddExpr es) = take_bit (expr_size (AddExpr es)) (sum_list (map (sem F \<rho>) es))"
| "sem F \<rho> (MulExpr es) = take_bit (expr_size (MulExpr es)) (prod_list (map (sem F \<rho>) es))"
| "sem F \<rho> (SDivExpr l r _) = sdiv_val (expr_size l) (sem F \<rho> l) (sem F \<rho> r)"
| "sem F \<rho> (UDivExpr l r _) = udiv_val (expr_size l) (sem F \<rho> l) (sem F \<rho> r)"
| "sem F \<rho> (SRemExpr l r _) = srem_val (expr_size l) (sem F \<rho> l) (sem F \<rho> r)"
| "sem F \<rho> (URemExpr l r _) = urem_val (expr_size l) (sem F \<rho> l) (sem F \<rho> r)"
| "sem F \<rho> (AndExpr es) = take_bit (expr_size (AndExpr es)) (foldr (AND) (map (sem F \<rho>) es) (- 1))"
| "sem F \<rho> (OrExpr es) = take_bit (expr_size (OrExpr es)) (foldr (OR) (map (sem F \<rho>) es) 0)"
| "sem F \<rho> (XorExpr es) = take_bit (expr_size (XorExpr es)) (foldr (XOR) (map (sem F \<rho>) es) 0)"
| "sem F \<rho> (BoolConst b) = of_bool b"
| "sem F \<rho> (BoolNotExpr e) = of_bool (sem F \<rho> e = 0)"
| "sem F \<rho> (BoolAndExpr es) = of_bool (list_all (\<lambda>v. v \<noteq> 0) (map (sem F \<rho>) es))"
| "sem F \<rho> (BoolOrExpr es) = of_bool (list_ex (\<lambda>v. v \<noteq> 0) (map (sem F \<rho>) es))"
| "sem F \<rho> (UltExpr l r) = of_bool (sem F \<rho> l < sem F \<rho> r)"
| "sem F \<rho> (UleExpr l r) = of_bool (sem F \<rho> l \<le> sem F \<rho> r)"
| "sem F \<rho> (UgtExpr l r) = of_bool (sem F \<rho> l > sem F \<rho> r)"
| "sem F \<rho> (UgeExpr l r) = of_bool (sem F \<rho> l \<ge> sem F \<rho> r)"
| "sem F \<rho> (SltExpr l r) = of_bool (sval (expr_size l) (sem F \<rho> l) < sval (expr_size l) (sem F \<rho> r))"
| "sem F \<rho> (SleExpr l r) = of_bool (sval (expr_size l) (sem F \<rho> l) \<le> sval (expr_size l) (sem F \<rho> r))"
| "sem F \<rho> (SgtExpr l r) = of_bool (sval (expr_size l) (sem F \<rho> l) > sval (expr_size l) (sem F \<rho> r))"
| "sem F \<rho> (SgeExpr l r) = of_bool (sval (expr_size l) (sem F \<rho> l) \<ge> sval (expr_size l) (sem F \<rho> r))"
| "sem F \<rho> (EqExpr l r) = of_bool (sem F \<rho> l = sem F \<rho> r)"
| "sem F \<rho> (FPConstExpr c) = uint (fp_val c)"
| "sem F \<rho> (BVToFPExpr ff e) = take_bit 64 (sem F \<rho> e)"
| "sem F \<rho> (FPToBVExpr e) = take_bit (expr_size (FPToBVExpr e)) (sem F \<rho> e)"
| "sem F \<rho> (FPConvert e ff) = uint (convertEncoding F ff (word_of_int (sem F \<rho> e)) (expr_ff e))"
| "sem F \<rho> (IntToFPExpr e ff) = uint (getEncoding F ff (sval (expr_size e) (sem F \<rho> e)))"
| "sem F \<rho> (FPIsNAN e) = of_bool (opNan F (expr_ff e) (word_of_int (sem F \<rho> e)))"
| "sem F \<rho> (FPDivExpr l r) =
     uint (opDiv F (expr_ff l) (word_of_int (sem F \<rho> l)) (word_of_int (sem F \<rho> r)))"
| "sem F \<rho> (FPNegExpr e) = uint (opNeg F (expr_ff e) (word_of_int (sem F \<rho> e)))"
| "sem F \<rho> (FPAddExpr es) = uint (foldl (opAdd F (expr_ff (FPAddExpr es)))
     (getEncoding F (expr_ff (FPAddExpr es)) 0) (map (\<lambda>e. word_of_int (sem F \<rho> e)) es))"
| "sem F \<rho> (FPMulExpr es) = uint (foldl (opMult F (expr_ff (FPMulExpr es)))
     (getEncoding F (expr_ff (FPMulExpr es)) 1) (map (\<lambda>e. word_of_int (sem F \<rho> e)) es))"
| "sem F \<rho> (FPEqExpr l r) =
     of_bool (opEqual F (expr_ff l) (word_of_int (sem F \<rho> l)) (word_of_int (sem F \<rho> r)))"
| "sem F \<rho> (FPLtExpr l r) =
     of_bool (opLess F (expr_ff l) (word_of_int (sem F \<rho> l)) (word_of_int (sem F \<rho> r)))"

section \<open>Well-formed expressions\<close>

definition is_bool :: "expr \<Rightarrow> bool" where
  "is_bool e \<longleftrightarrow> kind e \<in> {K_BOOL_CONST, K_BOOL_NOT, K_BOOL_AND, K_BOOL_OR, K_ULT, K_ULE, K_UGT,
     K_UGE, K_SLT, K_SLE, K_SGT, K_SGE, K_EQ, K_FP_IS_NAN, K_FP_EQ, K_FP_LT}"

definition is_fp :: "expr \<Rightarrow> bool" where
  "is_fp e \<longleftrightarrow> kind e \<in> {K_FP_CONST, K_BV_TO_FP, K_FP_CONVERT, K_FP_INT_TO_FP, K_FP_NEG, K_FP_ADD,
     K_FP_MUL, K_FP_DIV}"

definition is_bv :: "expr \<Rightarrow> bool" where
  "is_bv e \<longleftrightarrow> \<not> is_bool e \<and> \<not> is_fp e"

text \<open>
  \<open>wf_expr e\<close>: the node and everything below it respects the static types of the code, the widths agree,
  constants are in range and in the form the copy constructor leaves, and the nodes that the builder
  always simplifies (an extension of a constant, an extraction from an extraction) do not occur. The arithmetic right shift and the four
  divisions are excluded: the builder treats them as other nodes, or leaves their width unset.
\<close>

definition same_width :: "expr list \<Rightarrow> bool" where
  "same_width es \<longleftrightarrow> es \<noteq> [] \<and> list_all (\<lambda>e. is_bv e \<and> expr_size e = expr_size (hd es)) es"

primrec wf_expr :: "expr \<Rightarrow> bool" where
  "wf_expr (SymExpr i n) \<longleftrightarrow> 0 < n"
| "wf_expr (ConstExpr c) \<longleftrightarrow> bv_ok c \<and> BVConst_copy c = c"
| "wf_expr (ITEExpr g t f) \<longleftrightarrow> wf_expr g \<and> wf_expr t \<and> wf_expr f \<and> is_bool g \<and> is_bv t \<and> is_bv f \<and> expr_size t = expr_size f"
| "wf_expr (ExtractExpr e high low) \<longleftrightarrow> wf_expr e \<and> is_bv e \<and> low \<le> high \<and> high < expr_size e \<and>
     kind e \<notin> {K_CONST, K_EXTRACT, K_ZEXT}"
| "wf_expr (ConcatExpr es) \<longleftrightarrow> list_all (\<lambda>b. b) (map wf_expr es) \<and> es \<noteq> [] \<and> list_all is_bv es"
| "wf_expr (ZextExpr e n) \<longleftrightarrow> wf_expr e \<and> is_bv e \<and> expr_size e < n \<and> kind e \<notin> {K_CONST, K_ZEXT}"
| "wf_expr (SextExpr e n) \<longleftrightarrow> wf_expr e \<and> is_bv e \<and> expr_size e < n \<and> kind e \<notin> {K_CONST, K_SEXT}"
| "wf_expr (NegExpr e) \<longleftrightarrow> wf_expr e \<and> is_bv e \<and> kind e \<noteq> K_CONST"
| "wf_expr (NotExpr e) \<longleftrightarrow> wf_expr e \<and> is_bv e"
| "wf_expr (ShlExpr e v) \<longleftrightarrow> wf_expr e \<and> wf_expr v \<and> is_bv e \<and> is_bv v \<and> expr_size e = expr_size v"
| "wf_expr (LShrExpr e v) \<longleftrightarrow> wf_expr e \<and> wf_expr v \<and> is_bv e \<and> is_bv v \<and> expr_size e = expr_size v"
| "wf_expr (AShrExpr e v) \<longleftrightarrow> False"
| "wf_expr (AddExpr es) \<longleftrightarrow> list_all (\<lambda>b. b) (map wf_expr es) \<and> same_width es \<and> 2 \<le> length es"
| "wf_expr (MulExpr es) \<longleftrightarrow> list_all (\<lambda>b. b) (map wf_expr es) \<and> same_width es"
| "wf_expr (SDivExpr l r _) \<longleftrightarrow> False"
| "wf_expr (UDivExpr l r _) \<longleftrightarrow> False"
| "wf_expr (SRemExpr l r _) \<longleftrightarrow> False"
| "wf_expr (URemExpr l r _) \<longleftrightarrow> False"
| "wf_expr (AndExpr es) \<longleftrightarrow> list_all (\<lambda>b. b) (map wf_expr es) \<and> same_width es"
| "wf_expr (OrExpr es) \<longleftrightarrow> list_all (\<lambda>b. b) (map wf_expr es) \<and> same_width es"
| "wf_expr (XorExpr es) \<longleftrightarrow> list_all (\<lambda>b. b) (map wf_expr es) \<and> same_width es"
| "wf_expr (BoolConst b) \<longleftrightarrow> True"
| "wf_expr (BoolNotExpr e) \<longleftrightarrow> wf_expr e \<and> is_bool e"
| "wf_expr (BoolAndExpr es) \<longleftrightarrow> list_all (\<lambda>b. b) (map wf_expr es) \<and> list_all is_bool es"
| "wf_expr (BoolOrExpr es) \<longleftrightarrow> list_all (\<lambda>b. b) (map wf_expr es) \<and> list_all is_bool es"
| "wf_expr (UltExpr l r) \<longleftrightarrow> wf_expr l \<and> wf_expr r \<and> is_bv l \<and> is_bv r \<and> expr_size l = expr_size r"
| "wf_expr (UleExpr l r) \<longleftrightarrow> wf_expr l \<and> wf_expr r \<and> is_bv l \<and> is_bv r \<and> expr_size l = expr_size r"
| "wf_expr (UgtExpr l r) \<longleftrightarrow> wf_expr l \<and> wf_expr r \<and> is_bv l \<and> is_bv r \<and> expr_size l = expr_size r"
| "wf_expr (UgeExpr l r) \<longleftrightarrow> wf_expr l \<and> wf_expr r \<and> is_bv l \<and> is_bv r \<and> expr_size l = expr_size r"
| "wf_expr (SltExpr l r) \<longleftrightarrow> wf_expr l \<and> wf_expr r \<and> is_bv l \<and> is_bv r \<and> expr_size l = expr_size r"
| "wf_expr (SleExpr l r) \<longleftrightarrow> wf_expr l \<and> wf_expr r \<and> is_bv l \<and> is_bv r \<and> expr_size l = expr_size r"
| "wf_expr (SgtExpr l r) \<longleftrightarrow> wf_expr l \<and> wf_expr r \<and> is_bv l \<and> is_bv r \<and> expr_size l = expr_size r"
| "wf_expr (SgeExpr l r) \<longleftrightarrow> wf_expr l \<and> wf_expr r \<and> is_bv l \<and> is_bv r \<and> expr_size l = expr_size r"
| "wf_expr (EqExpr l r) \<longleftrightarrow> wf_expr l \<and> wf_expr r \<and> is_bv l \<and> is_bv r \<and> expr_size l = expr_size r"
| "wf_expr (FPConstExpr c) \<longleftrightarrow> True"
| "wf_expr (BVToFPExpr ff e) \<longleftrightarrow> wf_expr e \<and> is_bv e \<and> expr_size e = ff_getSize ff * 8"
| "wf_expr (FPToBVExpr e) \<longleftrightarrow> wf_expr e \<and> is_fp e \<and> 0 < ff_getSize (expr_ff e)"
| "wf_expr (FPConvert e ff) \<longleftrightarrow> wf_expr e \<and> is_fp e"
| "wf_expr (IntToFPExpr e ff) \<longleftrightarrow> wf_expr e \<and> is_bv e"
| "wf_expr (FPIsNAN e) \<longleftrightarrow> wf_expr e \<and> is_fp e"
| "wf_expr (FPDivExpr l r) \<longleftrightarrow> wf_expr l \<and> wf_expr r \<and> is_fp l \<and> is_fp r \<and> expr_ff l = expr_ff r"
| "wf_expr (FPNegExpr e) \<longleftrightarrow> wf_expr e \<and> is_fp e"
| "wf_expr (FPAddExpr es) \<longleftrightarrow> list_all (\<lambda>b. b) (map wf_expr es) \<and> es \<noteq> [] \<and> list_all is_fp es"
| "wf_expr (FPMulExpr es) \<longleftrightarrow> list_all (\<lambda>b. b) (map wf_expr es) \<and> es \<noteq> [] \<and> list_all is_fp es"
| "wf_expr (FPEqExpr l r) \<longleftrightarrow> wf_expr l \<and> wf_expr r \<and> is_fp l \<and> is_fp r \<and> expr_ff l = expr_ff r"
| "wf_expr (FPLtExpr l r) \<longleftrightarrow> wf_expr l \<and> wf_expr r \<and> is_fp l \<and> is_fp r \<and> expr_ff l = expr_ff r"

end
