(* ===== verification/ExprEq.thy ===== *)
theory ExprEq
  imports ExprSem
begin

unbundle bit_operations_syntax

text \<open>
  The virtual methods \<^verbatim>\<open>hash()\<close> and \<^verbatim>\<open>eq()\<close> of every class of \<^verbatim>\<open>expr/Expr.cpp\<close>, one definition per
  method, and the dispatch on the class. The arguments of a method are the members of the node. A
  hash feeds \<^verbatim>\<open>XXH64\<close> (a third-party function, a parameter) with the width and, for every child, the first eight bytes of
  the child object, which are the pointer to the virtual table of its class, not the address of the child.
  \<^verbatim>\<open>eq\<close> compares kinds, casts, and compares the members, children by address.
\<close>

section \<open>What the environment determines\<close>

text \<open>
  \<open>xxh64\<close> is the hash function; \<open>vptr e\<close> are the first eight bytes of node \<open>e\<close>, \<open>ff_word f\<close> those of
  the object \<open>f\<close>; \<open>addr e\<close> is the address at which the allocator put node \<open>e\<close>; \<open>stack_junk\<close> and \<open>heap_junk\<close>
  are what an uninitialised \<^verbatim>\<open>m_size\<close> of a node on the stack or the heap holds.
\<close>

record amb =
  xxh64 :: "8 word list \<Rightarrow> 64 word"
  vptr :: "expr \<Rightarrow> 64 word"
  ff_word :: "float_format \<Rightarrow> 64 word"
  addr :: "expr \<Rightarrow> nat"
  stack_junk :: nat
  heap_junk :: nat
  fpl :: fp_lib

definition bytes8 :: "64 word \<Rightarrow> 8 word list" where
  "bytes8 w = map (\<lambda>i. ucast (drop_bit (8 * i) w)) [0..<8]"

definition bytes4 :: "nat \<Rightarrow> 8 word list" where
  "bytes4 n = map (\<lambda>i. ucast (drop_bit (8 * i) (of_nat n :: 32 word))) [0..<4]"

definition size_bytes :: "nat \<Rightarrow> 8 word list" where
  "size_bytes n = bytes8 (of_nat n)"

definition raw :: "amb \<Rightarrow> expr \<Rightarrow> 8 word list" where
  "raw A e = bytes8 (vptr A e)"

definition raws :: "amb \<Rightarrow> expr list \<Rightarrow> 8 word list" where
  "raws A es = concat (map (raw A) es)"

definition ff_raw :: "amb \<Rightarrow> float_format \<Rightarrow> 8 word list" where
  "ff_raw A f = bytes8 (ff_word A f)"

section \<open>The methods of each class\<close>

text \<open>\<^verbatim>\<open>SymExpr\<close>\<close>

definition SymExpr_hash :: "amb \<Rightarrow> nat \<Rightarrow> nat \<Rightarrow> 64 word" where
  "SymExpr_hash A i n = xxh64 A (bytes4 i @ size_bytes n)"

definition SymExpr_eq :: "nat \<Rightarrow> nat \<Rightarrow> expr \<Rightarrow> bool" where
  "SymExpr_eq i n other \<longleftrightarrow> kind other = K_SYM \<and>
     (case other of SymExpr i' n' \<Rightarrow> i = i' | _ \<Rightarrow> False)"

text \<open>\<^verbatim>\<open>ConstExpr\<close>: the constructors copy the value and store its hash.\<close>

definition ConstExpr_hash :: "bvconst \<Rightarrow> 64 word res" where
  "ConstExpr_hash c = bv_hash (BVConst_copy c)"

definition ConstExpr_eq :: "bvconst \<Rightarrow> expr \<Rightarrow> bool res" where
  "ConstExpr_eq c other =
     (if kind other \<noteq> K_CONST then Inr False
      else case other of
        ConstExpr c' \<Rightarrow> if m_size c \<noteq> m_size c' then Inr False else bv_eq c c'
      | _ \<Rightarrow> Inr False)"

text \<open>\<^verbatim>\<open>ITEExpr\<close>\<close>

definition ITEExpr_hash :: "amb \<Rightarrow> expr \<Rightarrow> expr \<Rightarrow> expr \<Rightarrow> 64 word" where
  "ITEExpr_hash A g t f = xxh64 A (size_bytes (expr_size t) @ raw A g @ raw A t @ raw A f)"

definition ITEExpr_eq :: "expr \<Rightarrow> expr \<Rightarrow> expr \<Rightarrow> expr \<Rightarrow> bool" where
  "ITEExpr_eq g t f other \<longleftrightarrow> kind other = K_ITE \<and>
     (case other of ITEExpr g' t' f' \<Rightarrow> expr_size t = expr_size t' \<and> g = g' \<and> t = t' \<and> f = f' | _ \<Rightarrow> False)"

text \<open>\<^verbatim>\<open>ExtractExpr\<close>\<close>

definition ExtractExpr_hash :: "amb \<Rightarrow> expr \<Rightarrow> nat \<Rightarrow> nat \<Rightarrow> 64 word" where
  "ExtractExpr_hash A e high low = xxh64 A (bytes4 high @ bytes4 low @ raw A e)"

definition ExtractExpr_eq :: "expr \<Rightarrow> nat \<Rightarrow> nat \<Rightarrow> expr \<Rightarrow> bool" where
  "ExtractExpr_eq e high low other \<longleftrightarrow> kind other = K_EXTRACT \<and>
     (case other of ExtractExpr e' high' low' \<Rightarrow> high = high' \<and> low = low' \<and> e = e' | _ \<Rightarrow> False)"

text \<open>\<^verbatim>\<open>ConcatExpr\<close>\<close>

definition ConcatExpr_hash :: "amb \<Rightarrow> expr list \<Rightarrow> 64 word" where
  "ConcatExpr_hash A es = xxh64 A (size_bytes (expr_size (ConcatExpr es)) @ raws A es)"

definition ConcatExpr_eq :: "expr list \<Rightarrow> expr \<Rightarrow> bool" where
  "ConcatExpr_eq es other \<longleftrightarrow> kind other = K_CONCAT \<and>
     (case other of ConcatExpr es' \<Rightarrow> expr_size (ConcatExpr es) = expr_size (ConcatExpr es') \<and> length es = length es' \<and> list_all2 (=) es es' | _ \<Rightarrow> False)"

text \<open>\<^verbatim>\<open>ZextExpr\<close>\<close>

definition ZextExpr_hash :: "amb \<Rightarrow> expr \<Rightarrow> nat \<Rightarrow> 64 word" where
  "ZextExpr_hash A e n = xxh64 A (size_bytes n @ raw A e)"

definition ZextExpr_eq :: "expr \<Rightarrow> nat \<Rightarrow> expr \<Rightarrow> bool" where
  "ZextExpr_eq e n other \<longleftrightarrow> kind other = K_ZEXT \<and>
     (case other of ZextExpr e' n' \<Rightarrow> n = n' \<and> e = e' | _ \<Rightarrow> False)"

text \<open>\<^verbatim>\<open>SextExpr\<close>\<close>

definition SextExpr_hash :: "amb \<Rightarrow> expr \<Rightarrow> nat \<Rightarrow> 64 word" where
  "SextExpr_hash A e n = xxh64 A (size_bytes n @ raw A e)"

definition SextExpr_eq :: "expr \<Rightarrow> nat \<Rightarrow> expr \<Rightarrow> bool" where
  "SextExpr_eq e n other \<longleftrightarrow> kind other = K_SEXT \<and>
     (case other of SextExpr e' n' \<Rightarrow> n = n' \<and> e = e' | _ \<Rightarrow> False)"

text \<open>\<^verbatim>\<open>NegExpr\<close>\<close>

definition NegExpr_hash :: "amb \<Rightarrow> expr \<Rightarrow> 64 word" where
  "NegExpr_hash A e = xxh64 A (size_bytes (expr_size e) @ raw A e)"

definition NegExpr_eq :: "expr \<Rightarrow> expr \<Rightarrow> bool" where
  "NegExpr_eq e other \<longleftrightarrow> kind other = K_NEG \<and>
     (case other of NegExpr e' \<Rightarrow> expr_size e = expr_size e' \<and> e = e' | _ \<Rightarrow> False)"

text \<open>\<^verbatim>\<open>NotExpr\<close>\<close>

definition NotExpr_hash :: "amb \<Rightarrow> expr \<Rightarrow> 64 word" where
  "NotExpr_hash A e = xxh64 A (size_bytes (expr_size e) @ raw A e)"

definition NotExpr_eq :: "expr \<Rightarrow> expr \<Rightarrow> bool" where
  "NotExpr_eq e other \<longleftrightarrow> kind other = K_NOT \<and>
     (case other of NotExpr e' \<Rightarrow> expr_size e = expr_size e' \<and> e = e' | _ \<Rightarrow> False)"

text \<open>\<^verbatim>\<open>ShlExpr\<close>\<close>

definition ShlExpr_hash :: "amb \<Rightarrow> expr \<Rightarrow> expr \<Rightarrow> 64 word" where
  "ShlExpr_hash A e v = xxh64 A (size_bytes (expr_size e) @ raw A e @ raw A v)"

definition ShlExpr_eq :: "expr \<Rightarrow> expr \<Rightarrow> expr \<Rightarrow> bool" where
  "ShlExpr_eq e v other \<longleftrightarrow> kind other = K_SHL \<and>
     (case other of ShlExpr e' v' \<Rightarrow> expr_size e = expr_size e' \<and> e = e' \<and> v = v' | _ \<Rightarrow> False)"

text \<open>\<^verbatim>\<open>LShrExpr\<close>\<close>

definition LShrExpr_hash :: "amb \<Rightarrow> expr \<Rightarrow> expr \<Rightarrow> 64 word" where
  "LShrExpr_hash A e v = xxh64 A (size_bytes (expr_size e) @ raw A e @ raw A v)"

definition LShrExpr_eq :: "expr \<Rightarrow> expr \<Rightarrow> expr \<Rightarrow> bool" where
  "LShrExpr_eq e v other \<longleftrightarrow> kind other = K_LSHR \<and>
     (case other of LShrExpr e' v' \<Rightarrow> expr_size e = expr_size e' \<and> e = e' \<and> v = v' | AShrExpr e' v' \<Rightarrow> expr_size e = expr_size e' \<and> e = e' \<and> v = v' | _ \<Rightarrow> False)"

text \<open>\<^verbatim>\<open>AShrExpr\<close>\<close>

definition AShrExpr_hash :: "amb \<Rightarrow> expr \<Rightarrow> expr \<Rightarrow> 64 word" where
  "AShrExpr_hash A e v = xxh64 A (size_bytes (expr_size e) @ raw A e @ raw A v)"

definition AShrExpr_eq :: "expr \<Rightarrow> expr \<Rightarrow> expr \<Rightarrow> bool" where
  "AShrExpr_eq e v other \<longleftrightarrow> kind other = K_LSHR \<and>
     (case other of LShrExpr e' v' \<Rightarrow> expr_size e = expr_size e' \<and> e = e' \<and> v = v' | AShrExpr e' v' \<Rightarrow> expr_size e = expr_size e' \<and> e = e' \<and> v = v' | _ \<Rightarrow> False)"

text \<open>\<^verbatim>\<open>AddExpr\<close>\<close>

definition AddExpr_hash :: "amb \<Rightarrow> expr list \<Rightarrow> 64 word" where
  "AddExpr_hash A es = xxh64 A (size_bytes (expr_size (AddExpr es)) @ raws A es)"

definition AddExpr_eq :: "expr list \<Rightarrow> expr \<Rightarrow> bool" where
  "AddExpr_eq es other \<longleftrightarrow> kind other = K_ADD \<and>
     (case other of AddExpr es' \<Rightarrow> expr_size (AddExpr es) = expr_size (AddExpr es') \<and> length es = length es' \<and> list_all2 (=) es es' | _ \<Rightarrow> False)"

text \<open>\<^verbatim>\<open>MulExpr\<close>\<close>

definition MulExpr_hash :: "amb \<Rightarrow> expr list \<Rightarrow> 64 word" where
  "MulExpr_hash A es = xxh64 A (size_bytes (expr_size (MulExpr es)) @ raws A es)"

definition MulExpr_eq :: "expr list \<Rightarrow> expr \<Rightarrow> bool" where
  "MulExpr_eq es other \<longleftrightarrow> kind other = K_MUL \<and>
     (case other of MulExpr es' \<Rightarrow> expr_size (MulExpr es) = expr_size (MulExpr es') \<and> length es = length es' \<and> list_all2 (=) es es' | _ \<Rightarrow> False)"

text \<open>\<^verbatim>\<open>SDivExpr\<close>\<close>

definition SDivExpr_hash :: "amb \<Rightarrow> expr \<Rightarrow> expr \<Rightarrow> nat \<Rightarrow> 64 word" where
  "SDivExpr_hash A l r n = xxh64 A (size_bytes n @ raw A l @ raw A r)"

definition SDivExpr_eq :: "expr \<Rightarrow> expr \<Rightarrow> nat \<Rightarrow> expr \<Rightarrow> bool" where
  "SDivExpr_eq l r n other \<longleftrightarrow> kind other = K_SDIV \<and>
     (case other of SDivExpr l' r' n' \<Rightarrow> n = n' \<and> l = l' \<and> r = r' | SRemExpr l' r' n' \<Rightarrow> n = n' \<and> l = l' \<and> r = r' | _ \<Rightarrow> False)"

text \<open>\<^verbatim>\<open>UDivExpr\<close>\<close>

definition UDivExpr_hash :: "amb \<Rightarrow> expr \<Rightarrow> expr \<Rightarrow> nat \<Rightarrow> 64 word" where
  "UDivExpr_hash A l r n = xxh64 A (size_bytes n @ raw A l @ raw A r)"

definition UDivExpr_eq :: "expr \<Rightarrow> expr \<Rightarrow> nat \<Rightarrow> expr \<Rightarrow> bool" where
  "UDivExpr_eq l r n other \<longleftrightarrow> kind other = K_UDIV \<and>
     (case other of UDivExpr l' r' n' \<Rightarrow> n = n' \<and> l = l' \<and> r = r' | URemExpr l' r' n' \<Rightarrow> n = n' \<and> l = l' \<and> r = r' | _ \<Rightarrow> False)"

text \<open>\<^verbatim>\<open>SRemExpr\<close>\<close>

definition SRemExpr_hash :: "amb \<Rightarrow> expr \<Rightarrow> expr \<Rightarrow> nat \<Rightarrow> 64 word" where
  "SRemExpr_hash A l r n = xxh64 A (size_bytes n @ raw A l @ raw A r)"

definition SRemExpr_eq :: "expr \<Rightarrow> expr \<Rightarrow> nat \<Rightarrow> expr \<Rightarrow> bool" where
  "SRemExpr_eq l r n other \<longleftrightarrow> kind other = K_SDIV \<and>
     (case other of SRemExpr l' r' n' \<Rightarrow> n = n' \<and> l = l' \<and> r = r' | SDivExpr l' r' n' \<Rightarrow> n = n' \<and> l = l' \<and> r = r' | _ \<Rightarrow> False)"

text \<open>\<^verbatim>\<open>URemExpr\<close>\<close>

definition URemExpr_hash :: "amb \<Rightarrow> expr \<Rightarrow> expr \<Rightarrow> nat \<Rightarrow> 64 word" where
  "URemExpr_hash A l r n = xxh64 A (size_bytes n @ raw A l @ raw A r)"

definition URemExpr_eq :: "expr \<Rightarrow> expr \<Rightarrow> nat \<Rightarrow> expr \<Rightarrow> bool" where
  "URemExpr_eq l r n other \<longleftrightarrow> kind other = K_UDIV \<and>
     (case other of URemExpr l' r' n' \<Rightarrow> n = n' \<and> l = l' \<and> r = r' | UDivExpr l' r' n' \<Rightarrow> n = n' \<and> l = l' \<and> r = r' | _ \<Rightarrow> False)"

text \<open>\<^verbatim>\<open>AndExpr\<close>\<close>

definition AndExpr_hash :: "amb \<Rightarrow> expr list \<Rightarrow> 64 word" where
  "AndExpr_hash A es = xxh64 A (size_bytes (expr_size (AndExpr es)) @ raws A es)"

definition AndExpr_eq :: "expr list \<Rightarrow> expr \<Rightarrow> bool" where
  "AndExpr_eq es other \<longleftrightarrow> kind other = K_AND \<and>
     (case other of AndExpr es' \<Rightarrow> expr_size (AndExpr es) = expr_size (AndExpr es') \<and> length es = length es' \<and> list_all2 (=) es es' | _ \<Rightarrow> False)"

text \<open>\<^verbatim>\<open>OrExpr\<close>\<close>

definition OrExpr_hash :: "amb \<Rightarrow> expr list \<Rightarrow> 64 word" where
  "OrExpr_hash A es = xxh64 A (size_bytes (expr_size (OrExpr es)) @ raws A es)"

definition OrExpr_eq :: "expr list \<Rightarrow> expr \<Rightarrow> bool" where
  "OrExpr_eq es other \<longleftrightarrow> kind other = K_OR \<and>
     (case other of OrExpr es' \<Rightarrow> expr_size (OrExpr es) = expr_size (OrExpr es') \<and> length es = length es' \<and> list_all2 (=) es es' | _ \<Rightarrow> False)"

text \<open>\<^verbatim>\<open>XorExpr\<close>\<close>

definition XorExpr_hash :: "amb \<Rightarrow> expr list \<Rightarrow> 64 word" where
  "XorExpr_hash A es = xxh64 A (size_bytes (expr_size (XorExpr es)) @ raws A es)"

definition XorExpr_eq :: "expr list \<Rightarrow> expr \<Rightarrow> bool" where
  "XorExpr_eq es other \<longleftrightarrow> kind other = K_XOR \<and>
     (case other of XorExpr es' \<Rightarrow> expr_size (XorExpr es) = expr_size (XorExpr es') \<and> length es = length es' \<and> list_all2 (=) es es' | _ \<Rightarrow> False)"

text \<open>\<^verbatim>\<open>BoolConst\<close>\<close>

definition BoolConst_hash :: "bool \<Rightarrow> 64 word" where
  "BoolConst_hash b = (if b then 1 else 0)"

definition BoolConst_eq :: "bool \<Rightarrow> expr \<Rightarrow> bool" where
  "BoolConst_eq b other \<longleftrightarrow> kind other = K_BOOL_CONST \<and>
     (case other of BoolConst b' \<Rightarrow> b = b' | _ \<Rightarrow> False)"

text \<open>\<^verbatim>\<open>BoolNotExpr\<close>\<close>

definition BoolNotExpr_hash :: "amb \<Rightarrow> expr \<Rightarrow> 64 word" where
  "BoolNotExpr_hash A e = xxh64 A (raw A e)"

definition BoolNotExpr_eq :: "expr \<Rightarrow> expr \<Rightarrow> bool" where
  "BoolNotExpr_eq e other \<longleftrightarrow> kind other = K_BOOL_NOT \<and>
     (case other of BoolNotExpr e' \<Rightarrow> e = e' | _ \<Rightarrow> False)"

text \<open>\<^verbatim>\<open>BoolAndExpr\<close>\<close>

definition BoolAndExpr_hash :: "amb \<Rightarrow> expr list \<Rightarrow> 64 word" where
  "BoolAndExpr_hash A es = xxh64 A (raws A es)"

definition BoolAndExpr_eq :: "expr list \<Rightarrow> expr \<Rightarrow> bool" where
  "BoolAndExpr_eq es other \<longleftrightarrow> kind other = K_BOOL_AND \<and>
     (case other of BoolAndExpr es' \<Rightarrow> length es = length es' \<and> list_all2 (=) es es' | _ \<Rightarrow> False)"

text \<open>\<^verbatim>\<open>BoolOrExpr\<close>\<close>

definition BoolOrExpr_hash :: "amb \<Rightarrow> expr list \<Rightarrow> 64 word" where
  "BoolOrExpr_hash A es = xxh64 A (raws A es)"

definition BoolOrExpr_eq :: "expr list \<Rightarrow> expr \<Rightarrow> bool" where
  "BoolOrExpr_eq es other \<longleftrightarrow> kind other = K_BOOL_OR \<and>
     (case other of BoolOrExpr es' \<Rightarrow> length es = length es' \<and> list_all2 (=) es es' | _ \<Rightarrow> False)"

text \<open>
  The classes that the macro \<^verbatim>\<open>GEN_BINARY_LOGICAL_EXPR_IMPL\<close> generates have one hash; their \<^verbatim>\<open>eq\<close>
  compares the kind and both operands.
\<close>

definition logical_hash :: "amb \<Rightarrow> expr \<Rightarrow> expr \<Rightarrow> 64 word" where
  "logical_hash A l r = xxh64 A (raw A l @ raw A r)"

definition logical_eq :: "expr_kind \<Rightarrow> expr \<Rightarrow> expr \<Rightarrow> expr \<Rightarrow> bool" where
  "logical_eq k l r other \<longleftrightarrow> kind other = k \<and> children other = [l, r]"

text \<open>\<^verbatim>\<open>BVToFPExpr\<close>\<close>

definition BVToFPExpr_hash :: "amb \<Rightarrow> float_format \<Rightarrow> expr \<Rightarrow> 64 word" where
  "BVToFPExpr_hash A ff e = xxh64 A (ff_raw A ff @ raw A e)"

definition BVToFPExpr_eq :: "float_format \<Rightarrow> expr \<Rightarrow> expr \<Rightarrow> bool" where
  "BVToFPExpr_eq ff e other \<longleftrightarrow> kind other = K_BV_TO_FP \<and>
     (case other of BVToFPExpr ff' e' \<Rightarrow> ff = ff' \<and> e = e' | _ \<Rightarrow> False)"

text \<open>\<^verbatim>\<open>FPToBVExpr\<close>\<close>

definition FPToBVExpr_hash :: "amb \<Rightarrow> expr \<Rightarrow> 64 word" where
  "FPToBVExpr_hash A e = xxh64 A (raw A e)"

definition FPToBVExpr_eq :: "expr \<Rightarrow> expr \<Rightarrow> bool" where
  "FPToBVExpr_eq e other \<longleftrightarrow> kind other = K_FP_TO_BV \<and>
     (case other of FPToBVExpr e' \<Rightarrow> expr_size (FPToBVExpr e) = expr_size (FPToBVExpr e') \<and> e = e' | _ \<Rightarrow> False)"

text \<open>\<^verbatim>\<open>FPConvert\<close>\<close>

definition FPConvert_hash :: "amb \<Rightarrow> expr \<Rightarrow> float_format \<Rightarrow> 64 word" where
  "FPConvert_hash A e ff = xxh64 A (raw A e @ ff_raw A ff)"

definition FPConvert_eq :: "expr \<Rightarrow> float_format \<Rightarrow> expr \<Rightarrow> bool" where
  "FPConvert_eq e ff other \<longleftrightarrow> kind other = K_FP_CONVERT \<and>
     (case other of FPConvert e' ff' \<Rightarrow> ff = ff' \<and> e = e' | _ \<Rightarrow> False)"

text \<open>\<^verbatim>\<open>IntToFPExpr\<close>\<close>

definition IntToFPExpr_hash :: "amb \<Rightarrow> expr \<Rightarrow> float_format \<Rightarrow> 64 word" where
  "IntToFPExpr_hash A e ff = xxh64 A (raw A e @ ff_raw A ff)"

definition IntToFPExpr_eq :: "expr \<Rightarrow> float_format \<Rightarrow> expr \<Rightarrow> bool" where
  "IntToFPExpr_eq e ff other \<longleftrightarrow> kind other = K_FP_INT_TO_FP \<and>
     (case other of IntToFPExpr e' ff' \<Rightarrow> ff = ff' \<and> e = e' | _ \<Rightarrow> False)"

text \<open>\<^verbatim>\<open>FPIsNAN\<close>\<close>

definition FPIsNAN_hash :: "amb \<Rightarrow> expr \<Rightarrow> 64 word" where
  "FPIsNAN_hash A e = xxh64 A (raw A e)"

definition FPIsNAN_eq :: "expr \<Rightarrow> expr \<Rightarrow> bool" where
  "FPIsNAN_eq e other \<longleftrightarrow> kind other = K_FP_IS_NAN \<and>
     (case other of FPIsNAN e' \<Rightarrow> e = e' | _ \<Rightarrow> False)"

text \<open>\<^verbatim>\<open>FPNegExpr\<close>\<close>

definition FPNegExpr_hash :: "amb \<Rightarrow> expr \<Rightarrow> 64 word" where
  "FPNegExpr_hash A e = xxh64 A (raw A e)"

definition FPNegExpr_eq :: "expr \<Rightarrow> expr \<Rightarrow> bool" where
  "FPNegExpr_eq e other \<longleftrightarrow> kind other = K_FP_NEG \<and>
     (case other of FPNegExpr e' \<Rightarrow> e = e' | _ \<Rightarrow> False)"

text \<open>\<^verbatim>\<open>FPAddExpr\<close>\<close>

definition FPAddExpr_hash :: "amb \<Rightarrow> expr list \<Rightarrow> 64 word" where
  "FPAddExpr_hash A es = xxh64 A (raws A es)"

definition FPAddExpr_eq :: "expr list \<Rightarrow> expr \<Rightarrow> bool" where
  "FPAddExpr_eq es other \<longleftrightarrow> kind other = K_FP_ADD \<and>
     (case other of FPAddExpr es' \<Rightarrow> length es = length es' \<and> list_all2 (=) es es' | _ \<Rightarrow> False)"

text \<open>\<^verbatim>\<open>FPMulExpr\<close>\<close>

definition FPMulExpr_hash :: "amb \<Rightarrow> expr list \<Rightarrow> 64 word" where
  "FPMulExpr_hash A es = xxh64 A (raws A es)"

definition FPMulExpr_eq :: "expr list \<Rightarrow> expr \<Rightarrow> bool" where
  "FPMulExpr_eq es other \<longleftrightarrow> kind other = K_FP_MUL \<and>
     (case other of FPMulExpr es' \<Rightarrow> length es = length es' \<and> list_all2 (=) es es' | _ \<Rightarrow> False)"

text \<open>\<^verbatim>\<open>FPDivExpr\<close>\<close>

definition FPDivExpr_hash :: "amb \<Rightarrow> expr \<Rightarrow> expr \<Rightarrow> 64 word" where
  "FPDivExpr_hash A l r = xxh64 A (raw A l @ raw A r @ ff_raw A (expr_ff l))"

definition FPDivExpr_eq :: "expr \<Rightarrow> expr \<Rightarrow> expr \<Rightarrow> bool" where
  "FPDivExpr_eq l r other \<longleftrightarrow> kind other = K_FP_DIV \<and>
     (case other of FPDivExpr l' r' \<Rightarrow> l = l' \<and> r = r' \<and> expr_ff l = expr_ff l' | _ \<Rightarrow> False)"

text \<open>\<^verbatim>\<open>FPConstExpr\<close> and \<^verbatim>\<open>FPConst\<close>: two constants are compared by the floating-point equality of the format.\<close>

definition FPConst_hash :: "fpconst \<Rightarrow> 64 word" where
  "FPConst_hash c = ff_addr (fp_ff c) XOR fp_val c"

definition FPConst_eq :: "fp_lib \<Rightarrow> fpconst \<Rightarrow> fpconst \<Rightarrow> bool res" where
  "FPConst_eq F a b =
     (if fp_ff a \<noteq> fp_ff b then Inl (Exit ''assert_type_or_fail'')
      else Inr (opEqual F (fp_ff a) (fp_val a) (fp_val b)))"

definition FPConstExpr_eq :: "amb \<Rightarrow> fpconst \<Rightarrow> expr \<Rightarrow> bool res" where
  "FPConstExpr_eq A c other =
     (if kind other \<noteq> K_FP_CONST then Inr False
      else case other of
        FPConstExpr c' \<Rightarrow> if fp_ff c \<noteq> fp_ff c' then Inr False else FPConst_eq (fpl A) c c'
      | _ \<Rightarrow> Inr False)"

section \<open>Dispatch\<close>

primrec expr_hash :: "amb \<Rightarrow> expr \<Rightarrow> 64 word res" where
  "expr_hash A (ConstExpr c) = ConstExpr_hash c"
| "expr_hash A (BoolConst b) = Inr (BoolConst_hash b)"
| "expr_hash A (FPConstExpr c) = Inr (FPConst_hash c)"
| "expr_hash A (SymExpr i n) = Inr (SymExpr_hash A i n)"
| "expr_hash A (ITEExpr g t f) = Inr (ITEExpr_hash A g t f)"
| "expr_hash A (ExtractExpr e high low) = Inr (ExtractExpr_hash A e high low)"
| "expr_hash A (ConcatExpr es) = Inr (ConcatExpr_hash A es)"
| "expr_hash A (ZextExpr e n) = Inr (ZextExpr_hash A e n)"
| "expr_hash A (SextExpr e n) = Inr (SextExpr_hash A e n)"
| "expr_hash A (NegExpr e) = Inr (NegExpr_hash A e)"
| "expr_hash A (NotExpr e) = Inr (NotExpr_hash A e)"
| "expr_hash A (ShlExpr e v) = Inr (ShlExpr_hash A e v)"
| "expr_hash A (LShrExpr e v) = Inr (LShrExpr_hash A e v)"
| "expr_hash A (AShrExpr e v) = Inr (AShrExpr_hash A e v)"
| "expr_hash A (AddExpr es) = Inr (AddExpr_hash A es)"
| "expr_hash A (MulExpr es) = Inr (MulExpr_hash A es)"
| "expr_hash A (SDivExpr l r n) = Inr (SDivExpr_hash A l r n)"
| "expr_hash A (UDivExpr l r n) = Inr (UDivExpr_hash A l r n)"
| "expr_hash A (SRemExpr l r n) = Inr (SRemExpr_hash A l r n)"
| "expr_hash A (URemExpr l r n) = Inr (URemExpr_hash A l r n)"
| "expr_hash A (AndExpr es) = Inr (AndExpr_hash A es)"
| "expr_hash A (OrExpr es) = Inr (OrExpr_hash A es)"
| "expr_hash A (XorExpr es) = Inr (XorExpr_hash A es)"
| "expr_hash A (BoolNotExpr e) = Inr (BoolNotExpr_hash A e)"
| "expr_hash A (BoolAndExpr es) = Inr (BoolAndExpr_hash A es)"
| "expr_hash A (BoolOrExpr es) = Inr (BoolOrExpr_hash A es)"
| "expr_hash A (UltExpr l r) = Inr (logical_hash A l r)"
| "expr_hash A (UleExpr l r) = Inr (logical_hash A l r)"
| "expr_hash A (UgtExpr l r) = Inr (logical_hash A l r)"
| "expr_hash A (UgeExpr l r) = Inr (logical_hash A l r)"
| "expr_hash A (SltExpr l r) = Inr (logical_hash A l r)"
| "expr_hash A (SleExpr l r) = Inr (logical_hash A l r)"
| "expr_hash A (SgtExpr l r) = Inr (logical_hash A l r)"
| "expr_hash A (SgeExpr l r) = Inr (logical_hash A l r)"
| "expr_hash A (EqExpr l r) = Inr (logical_hash A l r)"
| "expr_hash A (FPEqExpr l r) = Inr (logical_hash A l r)"
| "expr_hash A (FPLtExpr l r) = Inr (logical_hash A l r)"
| "expr_hash A (BVToFPExpr ff e) = Inr (BVToFPExpr_hash A ff e)"
| "expr_hash A (FPToBVExpr e) = Inr (FPToBVExpr_hash A e)"
| "expr_hash A (FPConvert e ff) = Inr (FPConvert_hash A e ff)"
| "expr_hash A (IntToFPExpr e ff) = Inr (IntToFPExpr_hash A e ff)"
| "expr_hash A (FPIsNAN e) = Inr (FPIsNAN_hash A e)"
| "expr_hash A (FPNegExpr e) = Inr (FPNegExpr_hash A e)"
| "expr_hash A (FPAddExpr es) = Inr (FPAddExpr_hash A es)"
| "expr_hash A (FPMulExpr es) = Inr (FPMulExpr_hash A es)"
| "expr_hash A (FPDivExpr l r) = Inr (FPDivExpr_hash A l r)"

primrec expr_eq :: "amb \<Rightarrow> expr \<Rightarrow> expr \<Rightarrow> bool res" where
  "expr_eq A (ConstExpr c) other = ConstExpr_eq c other"
| "expr_eq A (BoolConst b) other = Inr (BoolConst_eq b other)"
| "expr_eq A (FPConstExpr c) other = FPConstExpr_eq A c other"
| "expr_eq A (SymExpr i n) other = Inr (SymExpr_eq i n other)"
| "expr_eq A (ITEExpr g t f) other = Inr (ITEExpr_eq g t f other)"
| "expr_eq A (ExtractExpr e high low) other = Inr (ExtractExpr_eq e high low other)"
| "expr_eq A (ConcatExpr es) other = Inr (ConcatExpr_eq es other)"
| "expr_eq A (ZextExpr e n) other = Inr (ZextExpr_eq e n other)"
| "expr_eq A (SextExpr e n) other = Inr (SextExpr_eq e n other)"
| "expr_eq A (NegExpr e) other = Inr (NegExpr_eq e other)"
| "expr_eq A (NotExpr e) other = Inr (NotExpr_eq e other)"
| "expr_eq A (ShlExpr e v) other = Inr (ShlExpr_eq e v other)"
| "expr_eq A (LShrExpr e v) other = Inr (LShrExpr_eq e v other)"
| "expr_eq A (AShrExpr e v) other = Inr (AShrExpr_eq e v other)"
| "expr_eq A (AddExpr es) other = Inr (AddExpr_eq es other)"
| "expr_eq A (MulExpr es) other = Inr (MulExpr_eq es other)"
| "expr_eq A (SDivExpr l r n) other = Inr (SDivExpr_eq l r n other)"
| "expr_eq A (UDivExpr l r n) other = Inr (UDivExpr_eq l r n other)"
| "expr_eq A (SRemExpr l r n) other = Inr (SRemExpr_eq l r n other)"
| "expr_eq A (URemExpr l r n) other = Inr (URemExpr_eq l r n other)"
| "expr_eq A (AndExpr es) other = Inr (AndExpr_eq es other)"
| "expr_eq A (OrExpr es) other = Inr (OrExpr_eq es other)"
| "expr_eq A (XorExpr es) other = Inr (XorExpr_eq es other)"
| "expr_eq A (BoolNotExpr e) other = Inr (BoolNotExpr_eq e other)"
| "expr_eq A (BoolAndExpr es) other = Inr (BoolAndExpr_eq es other)"
| "expr_eq A (BoolOrExpr es) other = Inr (BoolOrExpr_eq es other)"
| "expr_eq A (UltExpr l r) other = Inr (logical_eq K_ULT l r other)"
| "expr_eq A (UleExpr l r) other = Inr (logical_eq K_ULE l r other)"
| "expr_eq A (UgtExpr l r) other = Inr (logical_eq K_UGT l r other)"
| "expr_eq A (UgeExpr l r) other = Inr (logical_eq K_UGE l r other)"
| "expr_eq A (SltExpr l r) other = Inr (logical_eq K_SLT l r other)"
| "expr_eq A (SleExpr l r) other = Inr (logical_eq K_SLE l r other)"
| "expr_eq A (SgtExpr l r) other = Inr (logical_eq K_SGT l r other)"
| "expr_eq A (SgeExpr l r) other = Inr (logical_eq K_SGE l r other)"
| "expr_eq A (EqExpr l r) other = Inr (logical_eq K_EQ l r other)"
| "expr_eq A (FPEqExpr l r) other = Inr (logical_eq K_FP_EQ l r other)"
| "expr_eq A (FPLtExpr l r) other = Inr (logical_eq K_FP_LT l r other)"
| "expr_eq A (BVToFPExpr ff e) other = Inr (BVToFPExpr_eq ff e other)"
| "expr_eq A (FPToBVExpr e) other = Inr (FPToBVExpr_eq e other)"
| "expr_eq A (FPConvert e ff) other = Inr (FPConvert_eq e ff other)"
| "expr_eq A (IntToFPExpr e ff) other = Inr (IntToFPExpr_eq e ff other)"
| "expr_eq A (FPIsNAN e) other = Inr (FPIsNAN_eq e other)"
| "expr_eq A (FPNegExpr e) other = Inr (FPNegExpr_eq e other)"
| "expr_eq A (FPAddExpr es) other = Inr (FPAddExpr_eq es other)"
| "expr_eq A (FPMulExpr es) other = Inr (FPMulExpr_eq es other)"
| "expr_eq A (FPDivExpr l r) other = Inr (FPDivExpr_eq l r other)"

lemmas eq_defs =
  SymExpr_eq_def ConstExpr_eq_def BoolConst_eq_def FPConstExpr_eq_def logical_eq_def
  ITEExpr_eq_def ExtractExpr_eq_def ConcatExpr_eq_def ZextExpr_eq_def SextExpr_eq_def
  NegExpr_eq_def NotExpr_eq_def ShlExpr_eq_def LShrExpr_eq_def AShrExpr_eq_def
  AddExpr_eq_def MulExpr_eq_def SDivExpr_eq_def UDivExpr_eq_def SRemExpr_eq_def
  URemExpr_eq_def AndExpr_eq_def OrExpr_eq_def XorExpr_eq_def BoolNotExpr_eq_def
  BoolAndExpr_eq_def BoolOrExpr_eq_def BVToFPExpr_eq_def FPToBVExpr_eq_def FPConvert_eq_def
  IntToFPExpr_eq_def FPIsNAN_eq_def FPNegExpr_eq_def FPAddExpr_eq_def FPMulExpr_eq_def
  FPDivExpr_eq_def

end
