(* ===== verification/ExprBuilder.thy ===== *)
theory ExprBuilder
  imports ExprEq "HOL-Library.AList"
begin

text \<open>
  The expression builder, \<^verbatim>\<open>expr/ExprBuilder.cpp\<close>: the table of interned nodes, the cache of small
  constants, the symbols, and the \<^verbatim>\<open>mk_\<close> functions that simplify as they build. Every function is
  an operation on the builder's state that returns a node or fails.

  A weak pointer is \<open>None\<close> once it has expired. The first argument \<open>A\<close> of the operations is the environment of
  theory \<open>ExprEq\<close>; sorting and iterating over a \<^verbatim>\<open>std::map\<close> or \<^verbatim>\<open>std::set\<close> of pointers follows the
  addresses \<open>addr A\<close>. Widths are natural numbers: the truncation of a width to 32 bits is not modelled.
\<close>

section \<open>State\<close>

record builder =
  m_exprs :: "64 word \<Rightarrow> expr option list option"
  m_consts :: "((64 word \<times> nat) \<times> expr) list"
  m_sym_id_to_name :: "nat \<Rightarrow> string option"
  m_symbols :: "string \<Rightarrow> expr option"
  m_sym_ids :: "32 word"

type_synonym 'a bm = "(builder, 'a) smonad"

definition ExprBuilder_init :: builder where
  "ExprBuilder_init = \<lparr>m_exprs = (\<lambda>_. None), m_consts = [], m_sym_id_to_name = (\<lambda>_. None),
     m_symbols = (\<lambda>_. None), m_sym_ids = 0\<rparr>"

section \<open>Interning\<close>

text \<open>
  The virtual method \<^verbatim>\<open>clone()\<close>: it builds the node again from its members; a division node gets
  whatever width its heap memory holds, a constant is copied.
\<close>

definition clone :: "amb \<Rightarrow> expr \<Rightarrow> expr" where
  "clone A e = (case e of
     ConstExpr c \<Rightarrow> ConstExpr (BVConst_copy c)
   | SDivExpr l r _ \<Rightarrow> SDivExpr l r (heap_junk A)
   | UDivExpr l r _ \<Rightarrow> UDivExpr l r (heap_junk A)
   | SRemExpr l r _ \<Rightarrow> SRemExpr l r (heap_junk A)
   | URemExpr l r _ \<Rightarrow> URemExpr l r (heap_junk A)
   | _ \<Rightarrow> e)"

text \<open>The search through a bucket for a live node that \<^verbatim>\<open>eq\<close> accepts.\<close>

fun find_eq :: "amb \<Rightarrow> expr \<Rightarrow> expr option list \<Rightarrow> expr option res" where
  "find_eq A e [] = Inr None"
| "find_eq A e (None # ws) = Inl (Undefined ''null pointer'')"
| "find_eq A e (Some r # ws) =
     rbind (expr_eq A e r) (\<lambda>b. if b then Inr (Some r) else find_eq A e ws)"

definition purge :: "expr option list \<Rightarrow> expr option list" where
  "purge ws = filter (\<lambda>w. w \<noteq> None) ws"

definition get_or_create :: "amb \<Rightarrow> expr \<Rightarrow> expr bm" where
  "get_or_create A e = (\<lambda>s. case expr_hash A e of
     Inl f \<Rightarrow> Inl f
   | Inr h \<Rightarrow>
      (case m_exprs s h of
         None \<Rightarrow>
           (let r = clone A e in Inr (r, s\<lparr>m_exprs := (m_exprs s)(h \<mapsto> [Some r])\<rparr>))
       | Some ws \<Rightarrow>
           (let bucket = purge ws
            in case find_eq A e bucket of
                 Inl f \<Rightarrow> Inl f
               | Inr (Some r) \<Rightarrow> Inr (r, s\<lparr>m_exprs := (m_exprs s)(h \<mapsto> bucket)\<rparr>)
               | Inr None \<Rightarrow>
                   (let r = clone A e
                    in Inr (r, s\<lparr>m_exprs := (m_exprs s)(h \<mapsto> bucket @ [Some r])\<rparr>)))))"

definition collect_garbage :: "builder \<Rightarrow> builder" where
  "collect_garbage s = s\<lparr>m_exprs := (\<lambda>h. map_option purge (m_exprs s h))\<rparr>"

text \<open>
  The last reference to a node goes away somewhere in the program: its weak pointers expire. This
  is a step of the environment, not of the builder.
\<close>

definition expire :: "(expr \<Rightarrow> bool) \<Rightarrow> builder \<Rightarrow> builder" where
  "expire dead s = s\<lparr>m_exprs := (\<lambda>h. map_option
     (map (\<lambda>w. case w of None \<Rightarrow> None | Some r \<Rightarrow> if dead r then None else Some r)) (m_exprs s h))\<rparr>"

definition const_cache :: "amb \<Rightarrow> 64 word \<Rightarrow> nat \<Rightarrow> expr bm" where
  "const_cache A val sz = (\<lambda>s.
     case map_of (m_consts s) (val, sz) of
       Some c \<Rightarrow> Inr (c, s)
     | None \<Rightarrow>
         (let s1 = (if length (m_consts s) > 100000 then s\<lparr>m_consts := []\<rparr> else s)
          in bnd (liftr (BVConst_u64 val sz)) (\<lambda>v. bnd (get_or_create A (ConstExpr v)) (\<lambda>c.
               (\<lambda>s2. Inr (c, s2\<lparr>m_consts := ((val, sz), c) # m_consts s2\<rparr>)))) s1))"

section \<open>Symbols and constants\<close>

definition get_sym_name :: "nat \<Rightarrow> string bm" where
  "get_sym_name i = (\<lambda>s. case m_sym_id_to_name s i of
     None \<Rightarrow> Inl (StdException ''out_of_range'') | Some n \<Rightarrow> Inr (n, s))"

definition get_sym_id :: "string \<Rightarrow> nat bm" where
  "get_sym_id name = (\<lambda>s. case m_symbols s name of
     Some (SymExpr i n) \<Rightarrow> Inr (i, s) | _ \<Rightarrow> Inl (StdException ''out_of_range''))"

definition mk_true :: "expr bm" where
  "mk_true = ret (BoolConst True)"

definition mk_false :: "expr bm" where
  "mk_false = ret (BoolConst False)"

definition mk_bool :: "bool \<Rightarrow> expr bm" where
  "mk_bool b = (if b then mk_true else mk_false)"

definition mk_sym :: "amb \<Rightarrow> string \<Rightarrow> nat \<Rightarrow> expr bm" where
  "mk_sym A name sz = (\<lambda>s. case m_symbols s name of
     Some e \<Rightarrow> if expr_size e \<noteq> sz then Inl (Exit ''mk_sym'') else Inr (e, s)
   | None \<Rightarrow>
       (let sym_id = unat (m_sym_ids s); s1 = s\<lparr>m_sym_ids := m_sym_ids s + 1\<rparr>
        in bnd (get_or_create A (SymExpr sym_id sz)) (\<lambda>res.
             (\<lambda>s2. Inr (res, s2\<lparr>m_symbols := (m_symbols s2)(name \<mapsto> res),
                               m_sym_id_to_name := (m_sym_id_to_name s2)(sym_id \<mapsto> name)\<rparr>))) s1))"

definition mk_const :: "amb \<Rightarrow> bvconst \<Rightarrow> expr bm" where
  "mk_const A val = get_or_create A (ConstExpr (BVConst_copy val))"

definition mk_const_u64 :: "amb \<Rightarrow> 64 word \<Rightarrow> nat \<Rightarrow> expr bm" where
  "mk_const_u64 A val sz = const_cache A val sz"

text \<open>\<^verbatim>\<open>mk_const\<close> of the result of an operation on constants.\<close>

definition mk_const_of :: "amb \<Rightarrow> bvconst res \<Rightarrow> expr bm" where
  "mk_const_of A r = bnd (liftr r) (mk_const A)"

definition check_size_or_fail :: "string \<Rightarrow> expr \<Rightarrow> expr \<Rightarrow> unit bm" where
  "check_size_or_fail op lhs rhs =
     (if expr_size lhs \<noteq> expr_size rhs then throw (Exit op) else ret ())"

definition check_fp_type_or_fail :: "string \<Rightarrow> expr \<Rightarrow> expr \<Rightarrow> unit bm" where
  "check_fp_type_or_fail op lhs rhs =
     (if expr_ff lhs \<noteq> expr_ff rhs then throw (Exit op) else ret ())"

text \<open>The value of a constant node: the test of the kind followed by the cast.\<close>

definition dest_const :: "expr \<Rightarrow> bvconst option" where
  "dest_const e = (case e of ConstExpr c \<Rightarrow> Some c | _ \<Rightarrow> None)"

section \<open>Structure\<close>

definition mk_zext :: "amb \<Rightarrow> expr \<Rightarrow> nat \<Rightarrow> expr bm" where
  "mk_zext A e n =
     (if n < expr_size e then throw (Exit ''mk_zext'')
      else if n = expr_size e then ret e
      else case e of
        ZextExpr e' _ \<Rightarrow> get_or_create A (ZextExpr e' n)
      | ConstExpr c \<Rightarrow> mk_const_of A (bv_zext (BVConst_copy c) n)
      | _ \<Rightarrow> get_or_create A (ZextExpr e n))"

definition mk_sext :: "amb \<Rightarrow> expr \<Rightarrow> nat \<Rightarrow> expr bm" where
  "mk_sext A e n =
     (if n < expr_size e then throw (Exit ''mk_sext'')
      else if n = expr_size e then ret e
      else case e of
        SextExpr e' _ \<Rightarrow> get_or_create A (SextExpr e' n)
      | ConstExpr c \<Rightarrow> mk_const_of A (bv_sext (BVConst_copy c) n)
      | _ \<Rightarrow> get_or_create A (SextExpr e n))"

text \<open>
  The loop of \<^verbatim>\<open>mk_extract\<close> over the children of a concatenation of width \<open>off\<close>: the first child that
  holds all the bits from \<open>low\<close> to \<open>high\<close>, with its offset.
\<close>

fun concat_part :: "expr list \<Rightarrow> nat \<Rightarrow> nat \<Rightarrow> nat \<Rightarrow> (expr \<times> nat) option" where
  "concat_part [] off high low = None"
| "concat_part (e # es) off high low =
     (let off' = off - expr_size e
      in if expr_size e + off' - 1 \<ge> high \<and> low \<ge> off' then Some (e, off')
         else concat_part es off' high low)"

lemma concat_part_mem: "concat_part es off high low = Some (e, o') \<Longrightarrow> e \<in> set es"
  by (induction es arbitrary: off) (auto simp: Let_def split: if_splits)

lemma size_concat_part [termination_simp]:
  "concat_part es off high low = Some (e, o') \<Longrightarrow> size e < Suc (size_list size es)"
  using concat_part_mem size_list_estimation'[of e es "size e" size] by fastforce

text \<open>The sign bit of the operand of a sign extension, in the branch of \<^verbatim>\<open>mk_extract\<close> that asks for it.\<close>

fun mk_extract :: "amb \<Rightarrow> expr \<Rightarrow> nat \<Rightarrow> nat \<Rightarrow> expr bm" where
  "mk_extract A expr high low =
     (if high < low then throw (Exit ''mk_extract'')
      else if low = 0 \<and> high = expr_size expr - 1 then ret expr
      else case expr of
        ConstExpr c \<Rightarrow> mk_const_of A (bv_extract (BVConst_copy c) high low)
      | ExtractExpr e h l \<Rightarrow> get_or_create A (ExtractExpr e (high + l) (low + l))
      | ConcatExpr es \<Rightarrow>
          (case concat_part es (expr_size expr) high low of
             Some (e, off) \<Rightarrow> mk_extract A e (high - off) (low - off)
           | None \<Rightarrow> get_or_create A (ExtractExpr expr high low))
      | ZextExpr e n \<Rightarrow>
          (if low = 0 \<and> high = expr_size e - 1 then ret e
           else if low \<ge> expr_size e then mk_const_u64 A 0 (high - low + 1)
           else bnd (mk_extract A e (min high (n - 1)) low) (\<lambda>r. mk_zext A r (high - low + 1)))
      | SextExpr e n \<Rightarrow>
          (if low = 0 \<and> high = expr_size e - 1 then ret e
           else if low \<ge> expr_size e then
             bnd (mk_extract A e (expr_size e - 1) (expr_size e - 1)) (\<lambda>sign.
               case dest_const sign of
                 Some c \<Rightarrow> bnd (liftr (bv_is_zero c)) (\<lambda>z.
                   if z then mk_const_u64 A 0 (high - low + 1)
                   else mk_const_of A (BVConst_str ''-1'' (high - low + 1)))
               | None \<Rightarrow> get_or_create A (ExtractExpr expr high low))
           else get_or_create A (ExtractExpr expr high low))
      | _ \<Rightarrow> get_or_create A (ExtractExpr expr high low))"

declare mk_extract.simps [simp del]

definition sign_bit :: "amb \<Rightarrow> expr \<Rightarrow> expr bm" where
  "sign_bit A expr = mk_extract A expr (expr_size expr - 1) (expr_size expr - 1)"

definition mk_ite :: "amb \<Rightarrow> expr \<Rightarrow> expr \<Rightarrow> expr \<Rightarrow> expr bm" where
  "mk_ite A guard iftrue iffalse = bnd (check_size_or_fail ''ITE'' iftrue iffalse) (\<lambda>_.
     case guard of
       BoolConst b \<Rightarrow> ret (if b then iftrue else iffalse)
     | _ \<Rightarrow> get_or_create A (ITEExpr guard iftrue iffalse))"

end
