(* ===== verification/ExprBuilderArith.thy ===== *)
theory ExprBuilderArith
  imports ExprBuilder
begin

text \<open>
  The rest of \<^verbatim>\<open>expr/ExprBuilder.cpp\<close> on bit vectors and Booleans: concatenation, shifts, arithmetic,
  bitwise operations, comparisons, connectives and the conversions between the two sorts.
\<close>

section \<open>Concatenation\<close>

definition concat_els :: "expr \<Rightarrow> expr list" where
  "concat_els e = (case e of ConcatExpr es \<Rightarrow> es | _ \<Rightarrow> [e])"

text \<open>The first loop merges runs of constants: the constants that follow, then the rest.\<close>

fun take_consts :: "expr list \<Rightarrow> bvconst list \<times> expr list" where
  "take_consts [] = ([], [])"
| "take_consts (e # es) = (case dest_const e of
     Some c \<Rightarrow> (case take_consts es of (cs, rest) \<Rightarrow> (c # cs, rest))
   | None \<Rightarrow> ([], e # es))"

lemma take_consts_length: "take_consts es = (cs, rest) \<Longrightarrow> length rest \<le> length es"
  by (induction es arbitrary: cs) (auto split: option.splits prod.splits)

fun concat_consts :: "bvconst \<Rightarrow> bvconst list \<Rightarrow> bvconst res" where
  "concat_consts conc [] = Inr conc"
| "concat_consts conc (c # cs) = rbind (bv_concat conc c) (\<lambda>r. concat_consts r cs)"

function const_prop :: "amb \<Rightarrow> expr list \<Rightarrow> expr list bm" where
  "const_prop A [] = ret []"
| "const_prop A (e # es) = (case dest_const e of
     Some c \<Rightarrow> (case take_consts es of (cs, rest) \<Rightarrow>
       bnd (mk_const_of A (concat_consts (BVConst_copy c) cs)) (\<lambda>k.
       bnd (const_prop A rest) (\<lambda>r. ret (k # r))))
   | None \<Rightarrow> bnd (const_prop A es) (\<lambda>r. ret (e # r)))"
  by pat_completeness auto
termination
  by (relation "measure (\<lambda>(A, es). length es)")
    (auto dest!: take_consts_length[OF sym])

text \<open>
  The second loop merges adjacent extractions. Its index \<open>i\<close> runs over the merged list \<open>cps\<close>, but the inner
  loop looks at the elements of the list \<open>exprs\<close> from before the first loop: \<open>extract_run\<close> is the inner loop,
  with the index it stops at and the lowest bit reached.
\<close>

fun extract_run :: "expr \<Rightarrow> expr list \<Rightarrow> nat \<Rightarrow> nat \<Rightarrow> nat \<times> nat" where
  "extract_run b [] low j = (j, low)"
| "extract_run b (nxt # es) low j = (case nxt of
     ExtractExpr b' h l \<Rightarrow> if b' \<noteq> b \<or> low \<noteq> h + 1 then (j, low) else extract_run b es l (j + 1)
   | _ \<Rightarrow> (j, low))"

lemma extract_run_ge: "extract_run b es low j = (j', low') \<Longrightarrow> j \<le> j'"
  by (induction b es low j rule: extract_run.induct) (auto split: expr.splits if_splits)

function merge_extracts :: "amb \<Rightarrow> expr list \<Rightarrow> expr list \<Rightarrow> nat \<Rightarrow> expr list bm" where
  "merge_extracts A exprs cps i =
     (if i \<ge> length cps then ret []
      else case cps ! i of
        ExtractExpr b high low \<Rightarrow>
          (case extract_run b (drop (i + 1) exprs) low (i + 1) of (j, low') \<Rightarrow>
             bnd (mk_extract A b high low') (\<lambda>c.
             bnd (merge_extracts A exprs cps j) (\<lambda>cs. ret (c # cs))))
      | e \<Rightarrow> bnd (merge_extracts A exprs cps (i + 1)) (\<lambda>cs. ret (e # cs)))"
  by pat_completeness auto
termination
  by (relation "measure (\<lambda>(A, exprs, cps, i). length cps - i)")
    (auto dest!: extract_run_ge[OF sym])

declare merge_extracts.simps [simp del]

text \<open>The two patterns that rebuild a sign extension.\<close>

definition concat_sext :: "expr \<Rightarrow> expr \<Rightarrow> expr option" where
  "concat_sext left right =
     (case left of
        ExtractExpr (SextExpr e n) h low \<Rightarrow>
          if low = expr_size right \<and> e = right then Some right
          else (case right of
            SextExpr e' n' \<Rightarrow> if low = n' \<and> e = e' then Some e' else None
          | _ \<Rightarrow> None)
      | _ \<Rightarrow> None)"

definition mk_concat :: "amb \<Rightarrow> expr \<Rightarrow> expr \<Rightarrow> expr bm" where
  "mk_concat A left right =
     (case concat_sext left right of
        Some e \<Rightarrow> mk_sext A e (expr_size left + expr_size right)
      | None \<Rightarrow>
          (let exprs = concat_els left @ concat_els right
           in bnd (const_prop A exprs) (\<lambda>cps.
              bnd (merge_extracts A exprs cps 0) (\<lambda>kids.
                case kids of
                  [c] \<Rightarrow> ret c
                | _ \<Rightarrow> get_or_create A (ConcatExpr kids)))))"

section \<open>Shifts\<close>

text \<open>The amount is a \<^verbatim>\<open>uint64_t\<close> that the call truncates to 32 bits.\<close>

definition shift_const :: "(bvconst \<Rightarrow> 32 word \<Rightarrow> bvconst res) \<Rightarrow> bvconst \<Rightarrow> bvconst \<Rightarrow> bvconst res" where
  "shift_const f c v = rbind (bv_as_u64 v) (\<lambda>w. f (BVConst_copy c) (ucast w))"

text \<open>The special cases of \<^verbatim>\<open>mk_shl\<close> and \<^verbatim>\<open>mk_lshr\<close>: a constant amount that is zero or too large.\<close>

definition shift_special :: "amb \<Rightarrow> expr \<Rightarrow> bvconst \<Rightarrow> expr bm \<Rightarrow> expr bm \<Rightarrow> expr bm" where
  "shift_special A expr v large rest =
     bnd (liftr (bv_is_zero v)) (\<lambda>z. if z then ret expr
       else bnd (liftr (bv_as_u64 v)) (\<lambda>w. if unat w \<ge> expr_size expr then large else rest))"

definition mk_shl :: "amb \<Rightarrow> expr \<Rightarrow> expr \<Rightarrow> expr bm" where
  "mk_shl A expr val = bnd (check_size_or_fail ''shl'' expr val) (\<lambda>_.
     case dest_const val of
       Some v \<Rightarrow>
         (case dest_const expr of
            Some c \<Rightarrow> bnd (liftr (bv_fit_in_u64 v)) (\<lambda>fit.
              if \<not> fit then mk_const_u64 A 0 (expr_size expr)
              else mk_const_of A (shift_const bv_shl c v))
          | None \<Rightarrow> shift_special A expr v (mk_const_u64 A 0 (expr_size expr))
                     (get_or_create A (ShlExpr expr val)))
     | None \<Rightarrow> get_or_create A (ShlExpr expr val))"

definition mk_lshr :: "amb \<Rightarrow> expr \<Rightarrow> expr \<Rightarrow> expr bm" where
  "mk_lshr A expr val = bnd (check_size_or_fail ''lshr'' expr val) (\<lambda>_.
     case dest_const val of
       Some v \<Rightarrow>
         (case dest_const expr of
            Some c \<Rightarrow> bnd (liftr (bv_fit_in_u64 v)) (\<lambda>fit.
              if \<not> fit then mk_const_u64 A 0 (expr_size expr)
              else mk_const_of A (shift_const bv_lshr c v))
          | None \<Rightarrow> shift_special A expr v (mk_const_u64 A 0 (expr_size expr))
                     (get_or_create A (LShrExpr expr val)))
     | None \<Rightarrow> get_or_create A (LShrExpr expr val))"

text \<open>An arithmetic shift by too much is the sign, when the sign is a constant.\<close>

definition mk_ashr :: "amb \<Rightarrow> expr \<Rightarrow> expr \<Rightarrow> expr bm" where
  "mk_ashr A expr val = bnd (check_size_or_fail ''ashr'' expr val) (\<lambda>_.
     case dest_const val of
       Some v \<Rightarrow>
         (case dest_const expr of
            Some c \<Rightarrow> bnd (liftr (bv_fit_in_u64 v)) (\<lambda>fit.
              if \<not> fit then bnd (liftr (bv_get_bit v (expr_size val - 1))) (\<lambda>b.
                if \<not> b then mk_const_u64 A 0 (expr_size expr)
                else mk_const_of A (BVConst_str ''-1'' (expr_size expr)))
              else mk_const_of A (shift_const bv_ashr c v))
          | None \<Rightarrow> shift_special A expr v
              (bnd (mk_extract A expr (expr_size expr - 1) (expr_size expr - 1)) (\<lambda>sign.
                 case dest_const sign of
                   Some s \<Rightarrow> bnd (liftr (bv_is_zero s)) (\<lambda>z.
                     if z then mk_const_u64 A 0 (expr_size expr)
                     else mk_const_of A (BVConst_str ''-1'' (expr_size expr)))
                 | None \<Rightarrow> get_or_create A (AShrExpr expr val)))
              (get_or_create A (AShrExpr expr val)))
     | None \<Rightarrow> get_or_create A (AShrExpr expr val))"

section \<open>Arithmetic\<close>

definition mk_neg :: "amb \<Rightarrow> expr \<Rightarrow> expr bm" where
  "mk_neg A expr = (case dest_const expr of
     Some c \<Rightarrow> mk_const_of A (bv_neg (BVConst_copy c))
   | None \<Rightarrow> get_or_create A (NegExpr expr))"

definition mk_not :: "amb \<Rightarrow> expr \<Rightarrow> expr bm" where
  "mk_not A expr = (case dest_const expr of
     Some c \<Rightarrow> mk_const_of A (bv_bit_not (BVConst_copy c))
   | None \<Rightarrow> get_or_create A (NotExpr expr))"

text \<open>
  The constant-propagation loop shared by the operations with any number of operands: the constants are
  combined into \<open>concrete_val\<close>, the others are kept in order.
\<close>

fun fold_consts :: "(bvconst \<Rightarrow> bvconst \<Rightarrow> bvconst res) \<Rightarrow> bvconst \<Rightarrow> expr list
    \<Rightarrow> (bvconst \<times> expr list) res" where
  "fold_consts f acc [] = Inr (acc, [])"
| "fold_consts f acc (e # es) = (case dest_const e of
     Some c \<Rightarrow> rbind (f acc c) (\<lambda>acc'. fold_consts f acc' es)
   | None \<Rightarrow> rbind (fold_consts f acc es) (\<lambda>(c, ch). Inr (c, e # ch)))"

text \<open>Sorting by address.\<close>

definition sort_addr :: "amb \<Rightarrow> expr list \<Rightarrow> expr list" where
  "sort_addr A es = sort_key (addr A) es"

text \<open>The final checks shared by \<^verbatim>\<open>mk_add\<close>, \<^verbatim>\<open>mk_mul\<close>, \<^verbatim>\<open>mk_and\<close>, \<^verbatim>\<open>mk_or\<close> and \<^verbatim>\<open>mk_xor\<close>: \<open>neutral\<close> says that the constant can be left out.\<close>

definition finish_nary :: "amb \<Rightarrow> (expr list \<Rightarrow> expr) \<Rightarrow> (bvconst \<Rightarrow> bool res) \<Rightarrow> bvconst \<Rightarrow> expr list
    \<Rightarrow> expr bm" where
  "finish_nary A node neutral concrete_val ch =
     (if ch = [] then mk_const A concrete_val
      else bnd (liftr (neutral concrete_val)) (\<lambda>z.
           bnd (if z then ret ch
                else bnd (mk_const A concrete_val) (\<lambda>c. ret (ch @ [c]))) (\<lambda>kids.
             if length kids = 1 then ret (last kids)
             else get_or_create A (node (sort_addr A kids)))))"

definition mul_els :: "expr \<Rightarrow> expr list" where
  "mul_els e = (case e of MulExpr es \<Rightarrow> es | _ \<Rightarrow> [e])"

definition mk_mul :: "amb \<Rightarrow> expr \<Rightarrow> expr \<Rightarrow> expr bm" where
  "mk_mul A lhs rhs = bnd (check_size_or_fail ''mul'' lhs rhs) (\<lambda>_.
     let els = mul_els lhs @ mul_els rhs
     in bnd (liftr (BVConst_u64 1 (expr_size (hd els)))) (\<lambda>one.
        bnd (liftr (fold_consts bv_mul one els)) (\<lambda>(concrete_val, kids).
        bnd (liftr (bv_is_zero concrete_val)) (\<lambda>z.
          if z then mk_const A concrete_val
          else finish_nary A MulExpr bv_is_one concrete_val kids))))"

text \<open>
  The loop of \<^verbatim>\<open>mk_add\<close> that cancels a term against its negation keeps two maps from terms to the number of
  their occurrences. A map is an association list; iterating over it follows the addresses.
\<close>

type_synonym counts = "(expr \<times> nat) list"

definition count_inc :: "expr \<Rightarrow> counts \<Rightarrow> counts" where
  "count_inc e m = (case map_of m e of None \<Rightarrow> (e, 1) # m | Some k \<Rightarrow> AList.update e (k + 1) m)"

definition count_dec :: "expr \<Rightarrow> nat \<Rightarrow> counts \<Rightarrow> counts" where
  "count_dec e k m = (if k = 1 then AList.delete e m else AList.update e (k - 1) m)"

definition cancel_step :: "expr \<Rightarrow> counts \<times> counts \<Rightarrow> counts \<times> counts" where
  "cancel_step exp mm = (case mm of (negated, normal) \<Rightarrow>
     (case exp of
        NegExpr x \<Rightarrow>
          (case map_of normal x of
             Some k \<Rightarrow> (negated, count_dec x k normal)
           | None \<Rightarrow> (count_inc x negated, normal))
      | _ \<Rightarrow>
          (case map_of negated exp of
             Some k \<Rightarrow> (count_dec exp k negated, normal)
           | None \<Rightarrow> (negated, count_inc exp normal))))"

definition map_order :: "amb \<Rightarrow> counts \<Rightarrow> counts" where
  "map_order A m = sort_key (\<lambda>p. addr A (fst p)) m"

fun push_counts :: "amb \<Rightarrow> (expr \<Rightarrow> expr bm) \<Rightarrow> counts \<Rightarrow> expr list bm" where
  "push_counts A f [] = ret []"
| "push_counts A f ((x, k) # m) =
     bnd (if k > 1
          then bnd (f x) (\<lambda>y. bnd (mk_const_u64 A (of_nat k) (expr_size x)) (\<lambda>c. mk_mul A y c))
          else f x) (\<lambda>p.
     bnd (push_counts A f m) (\<lambda>ps. ret (p # ps)))"

definition add_els :: "expr \<Rightarrow> expr list" where
  "add_els e = (case e of AddExpr es \<Rightarrow> es | _ \<Rightarrow> [e])"

definition mk_add :: "amb \<Rightarrow> expr \<Rightarrow> expr \<Rightarrow> expr bm" where
  "mk_add A lhs rhs = bnd (check_size_or_fail ''add'' lhs rhs) (\<lambda>_.
     let addends = add_els lhs @ add_els rhs
     in bnd (liftr (BVConst_u64 0 (expr_size (hd addends)))) (\<lambda>zero.
        bnd (liftr (fold_consts bv_add zero addends)) (\<lambda>(concrete_val, kids).
        case foldl (\<lambda>mm e. cancel_step e mm) ([], []) kids of (negated, normal) \<Rightarrow>
        bnd (push_counts A (mk_neg A) (map_order A negated)) (\<lambda>ps1.
        bnd (push_counts A ret (map_order A normal)) (\<lambda>ps2.
          finish_nary A AddExpr bv_is_zero concrete_val (ps1 @ ps2))))))"

definition mk_sub :: "amb \<Rightarrow> expr \<Rightarrow> expr \<Rightarrow> expr bm" where
  "mk_sub A lhs rhs = bnd (check_size_or_fail ''sub'' lhs rhs) (\<lambda>_.
     case (dest_const lhs, dest_const rhs) of
       (Some a, Some b) \<Rightarrow> mk_const_of A (bv_sub (BVConst_copy a) b)
     | _ \<Rightarrow> bnd (mk_neg A rhs) (\<lambda>n. mk_add A lhs n))"

section \<open>Bitwise operations\<close>

text \<open>
  The loops of \<^verbatim>\<open>mk_and\<close> and \<^verbatim>\<open>mk_or\<close> return early at a constant that absorbs the others; \<open>Inl\<close> is
  that constant.
\<close>

fun fold_absorb :: "(bvconst \<Rightarrow> bvconst \<Rightarrow> bvconst res) \<Rightarrow> (bvconst \<Rightarrow> bool res) \<Rightarrow> bvconst \<Rightarrow> expr list
    \<Rightarrow> (expr + bvconst \<times> expr list) res" where
  "fold_absorb f absorbs acc [] = Inr (Inr (acc, []))"
| "fold_absorb f absorbs acc (e # es) = (case dest_const e of
     Some c \<Rightarrow> rbind (absorbs c) (\<lambda>z. if z then Inr (Inl e)
       else rbind (f acc c) (\<lambda>acc'. fold_absorb f absorbs acc' es))
   | None \<Rightarrow> rbind (fold_absorb f absorbs acc es) (\<lambda>r. case r of
       Inl k \<Rightarrow> Inr (Inl k) | Inr (c, ch) \<Rightarrow> Inr (Inr (c, e # ch))))"

definition and_els :: "expr \<Rightarrow> expr list" where
  "and_els e = (case e of AndExpr es \<Rightarrow> es | _ \<Rightarrow> [e])"

definition or_els :: "expr \<Rightarrow> expr list" where
  "or_els e = (case e of OrExpr es \<Rightarrow> es | _ \<Rightarrow> [e])"

definition xor_els :: "expr \<Rightarrow> expr list" where
  "xor_els e = (case e of XorExpr es \<Rightarrow> es | _ \<Rightarrow> [e])"

definition mk_and :: "amb \<Rightarrow> expr \<Rightarrow> expr \<Rightarrow> expr bm" where
  "mk_and A lhs rhs = bnd (check_size_or_fail ''and'' lhs rhs) (\<lambda>_.
     let exprs = and_els lhs @ and_els rhs
     in bnd (liftr (BVConst_str ''-1'' (expr_size (hd exprs)))) (\<lambda>ones.
        bnd (liftr (fold_absorb bv_band bv_is_zero ones exprs)) (\<lambda>r. case r of
          Inl k \<Rightarrow> ret k
        | Inr (concrete_val, kids) \<Rightarrow>
            finish_nary A AndExpr bv_has_all_bit_set concrete_val kids)))"

definition mk_or :: "amb \<Rightarrow> expr \<Rightarrow> expr \<Rightarrow> expr bm" where
  "mk_or A lhs rhs = bnd (check_size_or_fail ''or'' lhs rhs) (\<lambda>_.
     let exprs = or_els lhs @ or_els rhs
     in bnd (liftr (BVConst_u64 0 (expr_size (hd exprs)))) (\<lambda>zero.
        bnd (liftr (fold_absorb bv_bor bv_has_all_bit_set zero exprs)) (\<lambda>r. case r of
          Inl k \<Rightarrow> mk_const_of A (BVConst_str ''-1'' (expr_size (hd exprs)))
        | Inr (concrete_val, kids) \<Rightarrow>
            finish_nary A OrExpr bv_is_zero concrete_val kids)))"

text \<open>The set of \<^verbatim>\<open>mk_xor\<close>: a term that occurs again is removed.\<close>

definition toggle :: "expr \<Rightarrow> expr list \<Rightarrow> expr list" where
  "toggle e s = (if e \<in> set s then removeAll e s else e # s)"

definition mk_xor :: "amb \<Rightarrow> expr \<Rightarrow> expr \<Rightarrow> expr bm" where
  "mk_xor A lhs rhs = bnd (check_size_or_fail ''xor'' lhs rhs) (\<lambda>_.
     let exprs = xor_els lhs @ xor_els rhs
     in bnd (liftr (BVConst_u64 0 (expr_size (hd exprs)))) (\<lambda>zero.
        bnd (liftr (fold_consts bv_bxor zero exprs)) (\<lambda>(concrete_val, kids).
          finish_nary A XorExpr bv_is_zero concrete_val
            (sort_addr A (foldl (\<lambda>s e. toggle e s) [] kids)))))"

end
