(* ===== verification/ExprBuilderLogic.thy ===== *)
theory ExprBuilderLogic
  imports ExprBuilderArith
begin

text \<open>
  The comparisons, the connectives, the divisions, the conversions between bit vectors and Booleans,
  and the floating-point functions of \<^verbatim>\<open>expr/ExprBuilder.cpp\<close>.
\<close>

section \<open>Comparisons\<close>

definition mk_ult :: "amb \<Rightarrow> expr \<Rightarrow> expr \<Rightarrow> expr bm" where
  "mk_ult A lhs rhs = bnd (check_size_or_fail ''ult'' lhs rhs) (\<lambda>_.
     case (dest_const lhs, dest_const rhs) of
       (Some a, Some b) \<Rightarrow> bnd (liftr (bv_ult a b)) mk_bool
     | _ \<Rightarrow> get_or_create A (UltExpr lhs rhs))"

definition mk_ule :: "amb \<Rightarrow> expr \<Rightarrow> expr \<Rightarrow> expr bm" where
  "mk_ule A lhs rhs = bnd (check_size_or_fail ''ule'' lhs rhs) (\<lambda>_.
     case (dest_const lhs, dest_const rhs) of
       (Some a, Some b) \<Rightarrow> bnd (liftr (bv_ule a b)) mk_bool
     | _ \<Rightarrow> get_or_create A (UleExpr lhs rhs))"

definition mk_ugt :: "amb \<Rightarrow> expr \<Rightarrow> expr \<Rightarrow> expr bm" where
  "mk_ugt A lhs rhs = bnd (check_size_or_fail ''ugt'' lhs rhs) (\<lambda>_.
     case (dest_const lhs, dest_const rhs) of
       (Some a, Some b) \<Rightarrow> bnd (liftr (bv_ugt a b)) mk_bool
     | _ \<Rightarrow> get_or_create A (UgtExpr lhs rhs))"

definition mk_uge :: "amb \<Rightarrow> expr \<Rightarrow> expr \<Rightarrow> expr bm" where
  "mk_uge A lhs rhs = bnd (check_size_or_fail ''uge'' lhs rhs) (\<lambda>_.
     case (dest_const lhs, dest_const rhs) of
       (Some a, Some b) \<Rightarrow> bnd (liftr (bv_uge a b)) mk_bool
     | _ \<Rightarrow> get_or_create A (UgeExpr lhs rhs))"

definition mk_slt :: "amb \<Rightarrow> expr \<Rightarrow> expr \<Rightarrow> expr bm" where
  "mk_slt A lhs rhs = bnd (check_size_or_fail ''slt'' lhs rhs) (\<lambda>_.
     case (dest_const lhs, dest_const rhs) of
       (Some a, Some b) \<Rightarrow> bnd (liftr (bv_slt a b)) mk_bool
     | _ \<Rightarrow> get_or_create A (SltExpr lhs rhs))"

definition mk_sle :: "amb \<Rightarrow> expr \<Rightarrow> expr \<Rightarrow> expr bm" where
  "mk_sle A lhs rhs = bnd (check_size_or_fail ''sle'' lhs rhs) (\<lambda>_.
     case (dest_const lhs, dest_const rhs) of
       (Some a, Some b) \<Rightarrow> bnd (liftr (bv_sle a b)) mk_bool
     | _ \<Rightarrow> get_or_create A (SleExpr lhs rhs))"

definition mk_sgt :: "amb \<Rightarrow> expr \<Rightarrow> expr \<Rightarrow> expr bm" where
  "mk_sgt A lhs rhs = bnd (check_size_or_fail ''sgt'' lhs rhs) (\<lambda>_.
     case (dest_const lhs, dest_const rhs) of
       (Some a, Some b) \<Rightarrow> bnd (liftr (bv_sgt a b)) mk_bool
     | _ \<Rightarrow> get_or_create A (SgtExpr lhs rhs))"

definition mk_sge :: "amb \<Rightarrow> expr \<Rightarrow> expr \<Rightarrow> expr bm" where
  "mk_sge A lhs rhs = bnd (check_size_or_fail ''sge'' lhs rhs) (\<lambda>_.
     case (dest_const lhs, dest_const rhs) of
       (Some a, Some b) \<Rightarrow> bnd (liftr (bv_sge a b)) mk_bool
     | _ \<Rightarrow> get_or_create A (SgeExpr lhs rhs))"

text \<open>
  The rewriting of \<open>a - b = 0\<close> to \<open>a = b\<close>: the loop over the addends, with the right-hand side found so far
  and the other terms.
\<close>

fun eq_split :: "amb \<Rightarrow> expr list \<Rightarrow> expr option \<Rightarrow> expr list \<Rightarrow> (expr option \<times> expr list) bm" where
  "eq_split A [] rhs others = ret (rhs, others)"
| "eq_split A (a # as) rhs others =
     (if rhs = None \<and> kind a = K_NEG then eq_split A as (Some (hd (children a))) others
      else if kind a = K_CONST then
        bnd (case rhs of
               None \<Rightarrow> ret others
             | Some r \<Rightarrow> bnd (mk_neg A r) (\<lambda>n. ret (others @ [n]))) (\<lambda>others'.
        bnd (mk_neg A a) (\<lambda>n. eq_split A as (Some n) others'))
      else eq_split A as rhs (others @ [a]))"

definition add_addends :: "expr \<Rightarrow> expr list option" where
  "add_addends e = (case e of AddExpr es \<Rightarrow> Some es | _ \<Rightarrow> None)"

definition mk_eq :: "amb \<Rightarrow> expr \<Rightarrow> expr \<Rightarrow> expr bm" where
  "mk_eq A lhs rhs = bnd (check_size_or_fail ''eq'' lhs rhs) (\<lambda>_.
     case (dest_const lhs, dest_const rhs) of
       (Some a, Some b) \<Rightarrow> bnd (liftr (bv_eq a b)) mk_bool
     | (None, Some b) \<Rightarrow>
         (case add_addends lhs of
            None \<Rightarrow> get_or_create A (EqExpr lhs rhs)
          | Some addends \<Rightarrow> bnd (liftr (bv_is_zero b)) (\<lambda>z.
              if \<not> z then get_or_create A (EqExpr lhs rhs)
              else bnd (eq_split A addends None []) (\<lambda>(r, others). case r of
                None \<Rightarrow> get_or_create A (EqExpr lhs rhs)
              | Some r' \<Rightarrow>
                  (case others of
                     [] \<Rightarrow> throw (Assertion ''mk_eq'')
                   | [e] \<Rightarrow> get_or_create A (EqExpr e r')
                   | _ \<Rightarrow> bnd (get_or_create A (AddExpr others)) (\<lambda>ae.
                            get_or_create A (EqExpr ae r'))))))
     | _ \<Rightarrow> get_or_create A (EqExpr lhs rhs))"

section \<open>Connectives\<close>

text \<open>The overload of \<^verbatim>\<open>mk_not\<close> on Booleans.\<close>

definition mk_bool_not :: "amb \<Rightarrow> expr \<Rightarrow> expr bm" where
  "mk_bool_not A expr = (case expr of
     BoolConst b \<Rightarrow> (if b then mk_false else mk_true)
   | BoolNotExpr e \<Rightarrow> ret e
   | _ \<Rightarrow> get_or_create A (BoolNotExpr expr))"

definition mk_neq :: "amb \<Rightarrow> expr \<Rightarrow> expr \<Rightarrow> expr bm" where
  "mk_neq A lhs rhs = bnd (mk_eq A lhs rhs) (mk_bool_not A)"

text \<open>A \<^verbatim>\<open>std::set\<close> of pointers: without repetitions, in the order of the addresses.\<close>

definition ptr_set :: "amb \<Rightarrow> expr list \<Rightarrow> expr list" where
  "ptr_set A es = sort_addr A (remdups es)"

definition mk_bool_and_no_simpl :: "amb \<Rightarrow> expr list \<Rightarrow> expr bm" where
  "mk_bool_and_no_simpl A exprs =
     (case ptr_set A exprs of
        [] \<Rightarrow> mk_true
      | [e] \<Rightarrow> ret e
      | es \<Rightarrow> get_or_create A (BoolAndExpr es))"

definition bool_and_els :: "expr \<Rightarrow> expr list" where
  "bool_and_els e = (case e of BoolAndExpr es \<Rightarrow> es | _ \<Rightarrow> [e])"

definition bool_or_els :: "expr \<Rightarrow> expr list" where
  "bool_or_els e = (case e of BoolOrExpr es \<Rightarrow> es | _ \<Rightarrow> [e])"

definition dest_bool :: "expr \<Rightarrow> bool option" where
  "dest_bool e = (case e of BoolConst b \<Rightarrow> Some b | _ \<Rightarrow> None)"

definition mk_bool_and :: "amb \<Rightarrow> expr \<Rightarrow> expr \<Rightarrow> expr bm" where
  "mk_bool_and A e1 e2 =
     (let exprs = ptr_set A (bool_and_els e1 @ bool_and_els e2)
      in if list_ex (\<lambda>e. dest_bool e = Some False) exprs then mk_false
         else (case filter (\<lambda>e. dest_bool e = None) exprs of
             [] \<Rightarrow> mk_true
           | [e] \<Rightarrow> ret e
           | es \<Rightarrow> get_or_create A (BoolAndExpr (sort_addr A es))))"

definition mk_bool_or :: "amb \<Rightarrow> expr \<Rightarrow> expr \<Rightarrow> expr bm" where
  "mk_bool_or A e1 e2 =
     (let exprs = ptr_set A (bool_or_els e1 @ bool_or_els e2)
      in if list_ex (\<lambda>e. dest_bool e = Some True) exprs then mk_true
         else (case filter (\<lambda>e. dest_bool e = None) exprs of
             [] \<Rightarrow> mk_false
           | [e] \<Rightarrow> ret e
           | es \<Rightarrow> get_or_create A (BoolOrExpr (sort_addr A es))))"

section \<open>Division\<close>

text \<open>A constant divisor that is zero.\<close>

definition const_zero :: "expr \<Rightarrow> bool res" where
  "const_zero e = (case dest_const e of None \<Rightarrow> Inr False | Some c \<Rightarrow> bv_is_zero c)"

definition const_one :: "expr \<Rightarrow> bool res" where
  "const_one e = (case dest_const e of None \<Rightarrow> Inr False | Some c \<Rightarrow> bv_is_one c)"

definition mk_sdiv :: "amb \<Rightarrow> expr \<Rightarrow> expr \<Rightarrow> expr bm" where
  "mk_sdiv A lhs rhs = bnd (check_size_or_fail ''sdiv'' lhs rhs) (\<lambda>_.
     bnd (liftr (const_zero rhs)) (\<lambda>z.
       if z then
         bnd (mk_const_u64 A 0 (expr_size lhs)) (\<lambda>zero.
         bnd (mk_const_of A (BVConst_str ''-1'' (expr_size lhs))) (\<lambda>min1.
         bnd (mk_sge A lhs zero) (\<lambda>g. mk_ite A g min1 zero)))
       else case (dest_const lhs, dest_const rhs) of
         (Some a, Some b) \<Rightarrow> mk_const_of A (bv_sdiv (BVConst_copy a) b)
       | _ \<Rightarrow> if lhs = rhs then mk_const_u64 A 1 (expr_size lhs)
              else get_or_create A (SDivExpr lhs rhs (stack_junk A))))"

definition mk_udiv :: "amb \<Rightarrow> expr \<Rightarrow> expr \<Rightarrow> expr bm" where
  "mk_udiv A lhs rhs = bnd (check_size_or_fail ''udiv'' lhs rhs) (\<lambda>_.
     bnd (liftr (const_zero rhs)) (\<lambda>z.
       if z then mk_const_of A (BVConst_str ''-1'' (expr_size lhs))
       else case (dest_const lhs, dest_const rhs) of
         (Some a, Some b) \<Rightarrow> mk_const_of A (bv_udiv (BVConst_copy a) b)
       | _ \<Rightarrow> if lhs = rhs then mk_const_u64 A 1 (expr_size lhs)
              else get_or_create A (UDivExpr lhs rhs (stack_junk A))))"

definition mk_srem :: "amb \<Rightarrow> expr \<Rightarrow> expr \<Rightarrow> expr bm" where
  "mk_srem A lhs rhs = bnd (check_size_or_fail ''srem'' lhs rhs) (\<lambda>_.
     bnd (liftr (const_zero rhs)) (\<lambda>z.
       if z then ret lhs
       else case (dest_const lhs, dest_const rhs) of
         (Some a, Some b) \<Rightarrow> mk_const_of A (bv_srem (BVConst_copy a) b)
       | _ \<Rightarrow> bnd (liftr (const_one rhs)) (\<lambda>o1.
              if o1 then ret lhs else get_or_create A (SRemExpr lhs rhs (stack_junk A)))))"

definition mk_urem :: "amb \<Rightarrow> expr \<Rightarrow> expr \<Rightarrow> expr bm" where
  "mk_urem A lhs rhs = bnd (check_size_or_fail ''urem'' lhs rhs) (\<lambda>_.
     bnd (liftr (const_zero rhs)) (\<lambda>z.
       if z then ret lhs
       else case (dest_const lhs, dest_const rhs) of
         (Some a, Some b) \<Rightarrow> mk_const_of A (bv_urem (BVConst_copy a) b)
       | _ \<Rightarrow> bnd (liftr (const_one rhs)) (\<lambda>o1.
              if o1 then ret lhs else get_or_create A (URemExpr lhs rhs (stack_junk A)))))"

section \<open>Conversions\<close>

definition bool_to_bv :: "amb \<Rightarrow> expr \<Rightarrow> expr bm" where
  "bool_to_bv A expr =
     bnd (mk_const_u64 A 1 8) (\<lambda>one. bnd (mk_const_u64 A 0 8) (\<lambda>zero. mk_ite A expr one zero))"

definition bv_to_bool :: "amb \<Rightarrow> expr \<Rightarrow> expr bm" where
  "bv_to_bool A expr =
     (let rest = bnd (mk_const_u64 A 0 (expr_size expr)) (\<lambda>zero. mk_ugt A expr zero)
      in case expr of
        ITEExpr g t f \<Rightarrow>
          (case (dest_const t, dest_const f) of
             (Some a, Some b) \<Rightarrow> bnd (liftr (bv_is_one a)) (\<lambda>o1.
               if \<not> o1 then rest
               else bnd (liftr (bv_is_zero b)) (\<lambda>z. if z then ret g else rest))
           | _ \<Rightarrow> rest)
      | _ \<Rightarrow> rest)"

end
