(* ===== verification/ExprBuilderFP.thy ===== *)
theory ExprBuilderFP
  imports ExprBuilderLogic
begin

text \<open>
  Floating-point constants, \<^verbatim>\<open>expr/FPConst.cpp\<close>, and the floating-point functions of
  \<^verbatim>\<open>expr/ExprBuilder.cpp\<close>. The arithmetic is that of the sleigh class \<^verbatim>\<open>FloatFormat\<close>, the parameter \<open>fpl A\<close>.
  A node stands for its address: two copies of a NaN constant, which the builder never shares, are one node here.
\<close>

section \<open>Constants\<close>

text \<open>The constructor from a \<^verbatim>\<open>double\<close>; the code only passes integers.\<close>

definition FPConst_of_int :: "fp_lib \<Rightarrow> float_format \<Rightarrow> int \<Rightarrow> fpconst" where
  "FPConst_of_int F ff v = \<lparr>fp_val = getEncoding F ff v, fp_ff = ff\<rparr>"

definition FPConst_size :: "fpconst \<Rightarrow> nat" where
  "FPConst_size c = ff_getSize (fp_ff c) * 8"

definition FPConst_is_zero :: "fpconst \<Rightarrow> bool" where
  "FPConst_is_zero c \<longleftrightarrow> fp_val c = 0"

definition FPConst_is_one :: "fp_lib \<Rightarrow> fpconst \<Rightarrow> bool" where
  "FPConst_is_one F c = host_is_one F (fp_ff c) (fp_val c)"

definition FPConst_convert :: "fp_lib \<Rightarrow> fpconst \<Rightarrow> float_format \<Rightarrow> fpconst" where
  "FPConst_convert F c ff =
     (if ff = fp_ff c then c else \<lparr>fp_val = convertEncoding F ff (fp_val c) (fp_ff c), fp_ff = ff\<rparr>)"

definition FPConst_neg :: "fp_lib \<Rightarrow> fpconst \<Rightarrow> fpconst" where
  "FPConst_neg F c = c\<lparr>fp_val := opNeg F (fp_ff c) (fp_val c)\<rparr>"

definition FPConst_add :: "fp_lib \<Rightarrow> fpconst \<Rightarrow> fpconst \<Rightarrow> fpconst res" where
  "FPConst_add F a b =
     (if fp_ff a \<noteq> fp_ff b then Inl (Exit ''assert_type_or_fail'')
      else Inr (a\<lparr>fp_val := opAdd F (fp_ff a) (fp_val a) (fp_val b)\<rparr>))"

definition FPConst_mul :: "fp_lib \<Rightarrow> fpconst \<Rightarrow> fpconst \<Rightarrow> fpconst res" where
  "FPConst_mul F a b =
     (if fp_ff a \<noteq> fp_ff b then Inl (Exit ''assert_type_or_fail'')
      else Inr (a\<lparr>fp_val := opMult F (fp_ff a) (fp_val a) (fp_val b)\<rparr>))"

definition FPConst_div :: "fp_lib \<Rightarrow> fpconst \<Rightarrow> fpconst \<Rightarrow> fpconst res" where
  "FPConst_div F a b =
     (if fp_ff a \<noteq> fp_ff b then Inl (Exit ''assert_type_or_fail'')
      else Inr (a\<lparr>fp_val := opDiv F (fp_ff a) (fp_val a) (fp_val b)\<rparr>))"

definition FPConst_is_nan :: "fp_lib \<Rightarrow> fpconst \<Rightarrow> bool" where
  "FPConst_is_nan F c = opNan F (fp_ff c) (fp_val c)"

definition FPConst_lt :: "fp_lib \<Rightarrow> fpconst \<Rightarrow> fpconst \<Rightarrow> bool res" where
  "FPConst_lt F a b =
     (if fp_ff a \<noteq> fp_ff b then Inl (Exit ''assert_type_or_fail'')
      else Inr (opLess F (fp_ff a) (fp_val a) (fp_val b)))"

definition dest_fp_const :: "expr \<Rightarrow> fpconst option" where
  "dest_fp_const e = (case e of FPConstExpr c \<Rightarrow> Some c | _ \<Rightarrow> None)"

section \<open>Constants and conversions\<close>

definition mk_fp_const_double :: "amb \<Rightarrow> float_format \<Rightarrow> int \<Rightarrow> expr bm" where
  "mk_fp_const_double A ff v = get_or_create A (FPConstExpr (FPConst_of_int (fpl A) ff v))"

definition mk_fp_const :: "amb \<Rightarrow> fpconst \<Rightarrow> expr bm" where
  "mk_fp_const A c = get_or_create A (FPConstExpr c)"

definition mk_bv_to_fp :: "amb \<Rightarrow> float_format \<Rightarrow> expr \<Rightarrow> expr bm" where
  "mk_bv_to_fp A ff expr =
     (if ff_getSize ff * 8 \<noteq> expr_size expr then throw (Exit ''mk_bv_to_fp'')
      else case expr of
        ConstExpr c \<Rightarrow> bnd (liftr (bv_as_u64 c)) (\<lambda>v. get_or_create A (FPConstExpr \<lparr>fp_val = v, fp_ff = ff\<rparr>))
      | FPToBVExpr e \<Rightarrow> ret e
      | _ \<Rightarrow> get_or_create A (BVToFPExpr ff expr))"

definition mk_fp_to_bv :: "amb \<Rightarrow> expr \<Rightarrow> expr bm" where
  "mk_fp_to_bv A expr = (case expr of
     FPConstExpr c \<Rightarrow> mk_const_u64 A (fp_val c) (FPConst_size c)
   | BVToFPExpr ff e \<Rightarrow> ret e
   | _ \<Rightarrow> get_or_create A (FPToBVExpr expr))"

definition mk_fp_convert :: "amb \<Rightarrow> expr \<Rightarrow> float_format \<Rightarrow> expr bm" where
  "mk_fp_convert A expr ff =
     (if ff = expr_ff expr then ret expr
      else case expr of
        FPConstExpr c \<Rightarrow> get_or_create A (FPConstExpr (FPConst_convert (fpl A) c ff))
      | _ \<Rightarrow> get_or_create A (FPConvert expr ff))"

definition mk_int_to_fp :: "amb \<Rightarrow> expr \<Rightarrow> float_format \<Rightarrow> expr bm" where
  "mk_int_to_fp A expr ff = (case expr of
     ConstExpr c \<Rightarrow> bnd (liftr (bv_as_s64 c)) (\<lambda>v.
       get_or_create A (FPConstExpr (FPConst_of_int (fpl A) ff (sint v))))
   | _ \<Rightarrow> get_or_create A (IntToFPExpr expr ff))"

definition mk_fp_is_nan :: "amb \<Rightarrow> expr \<Rightarrow> expr bm" where
  "mk_fp_is_nan A expr = (case expr of
     FPConstExpr c \<Rightarrow> mk_bool (FPConst_is_nan (fpl A) c)
   | _ \<Rightarrow> get_or_create A (FPIsNAN expr))"

section \<open>Arithmetic\<close>

definition mk_fp_neg :: "amb \<Rightarrow> expr \<Rightarrow> expr bm" where
  "mk_fp_neg A expr = (case expr of
     FPConstExpr c \<Rightarrow> get_or_create A (FPConstExpr (FPConst_neg (fpl A) c))
   | _ \<Rightarrow> get_or_create A (FPNegExpr expr))"

definition fp_add_els :: "expr \<Rightarrow> expr list" where
  "fp_add_els e = (case e of FPAddExpr es \<Rightarrow> es | _ \<Rightarrow> [e])"

definition fp_mul_els :: "expr \<Rightarrow> expr list" where
  "fp_mul_els e = (case e of FPMulExpr es \<Rightarrow> es | _ \<Rightarrow> [e])"

text \<open>
  The loop that should fold the constants tests for the kind of a bit-vector constant, which no floating-point node
  has; if it met one, it would cast it to another class.
\<close>

fun fp_fold_consts :: "expr list \<Rightarrow> expr list res" where
  "fp_fold_consts [] = Inr []"
| "fp_fold_consts (e # es) =
     (if kind e = K_CONST then Inl (Undefined ''cast to FPConstExpr'')
      else rbind (fp_fold_consts es) (\<lambda>ch. Inr (e # ch)))"

definition mk_fp_mul :: "amb \<Rightarrow> expr \<Rightarrow> expr \<Rightarrow> expr bm" where
  "mk_fp_mul A lhs rhs = bnd (check_fp_type_or_fail ''fp_mul'' lhs rhs) (\<lambda>_.
     let els = fp_mul_els lhs @ fp_mul_els rhs;
         concrete_val = FPConst_of_int (fpl A) (expr_ff (hd els)) 1
     in bnd (liftr (fp_fold_consts els)) (\<lambda>children.
        if children = [] \<or> FPConst_is_zero concrete_val then mk_fp_const A concrete_val
        else bnd (if FPConst_is_one (fpl A) concrete_val then ret children
                  else bnd (mk_fp_const A concrete_val) (\<lambda>c. ret (children @ [c]))) (\<lambda>kids.
             if length kids = 1 then ret (last kids)
             else get_or_create A (FPMulExpr (sort_addr A kids)))))"

definition fp_cancel_step :: "expr \<Rightarrow> counts \<times> counts \<Rightarrow> counts \<times> counts" where
  "fp_cancel_step exp mm = (case mm of (negated, normal) \<Rightarrow>
     (case exp of
        FPNegExpr x \<Rightarrow>
          (case map_of normal x of
             Some k \<Rightarrow> (negated, count_dec x k normal)
           | None \<Rightarrow> (count_inc x negated, normal))
      | _ \<Rightarrow>
          (case map_of negated exp of
             Some k \<Rightarrow> (count_dec exp k negated, normal)
           | None \<Rightarrow> (negated, count_inc exp normal))))"

fun fp_push_counts :: "amb \<Rightarrow> (expr \<Rightarrow> expr bm) \<Rightarrow> counts \<Rightarrow> expr list bm" where
  "fp_push_counts A f [] = ret []"
| "fp_push_counts A f ((x, k) # m) =
     bnd (if k > 1
          then bnd (f x) (\<lambda>y. bnd (mk_fp_const_double A (expr_ff x) (int k)) (\<lambda>c. mk_fp_mul A y c))
          else f x) (\<lambda>p.
     bnd (fp_push_counts A f m) (\<lambda>ps. ret (p # ps)))"

definition mk_fp_add :: "amb \<Rightarrow> expr \<Rightarrow> expr \<Rightarrow> expr bm" where
  "mk_fp_add A lhs rhs = bnd (check_fp_type_or_fail ''fp_add'' lhs rhs) (\<lambda>_.
     let addends = fp_add_els lhs @ fp_add_els rhs;
         concrete_val = FPConst_of_int (fpl A) (expr_ff (hd addends)) 0
     in bnd (liftr (fp_fold_consts addends)) (\<lambda>children.
        case foldl (\<lambda>mm e. fp_cancel_step e mm) ([], []) children of (negated, normal) \<Rightarrow>
        bnd (fp_push_counts A (mk_fp_neg A) (map_order A negated)) (\<lambda>ps1.
        bnd (fp_push_counts A ret (map_order A normal)) (\<lambda>ps2.
          if ps1 @ ps2 = [] then mk_fp_const A concrete_val
          else bnd (if FPConst_is_zero concrete_val then ret (ps1 @ ps2)
                    else bnd (mk_fp_const A concrete_val) (\<lambda>c. ret (ps1 @ ps2 @ [c]))) (\<lambda>kids.
               if length kids = 1 then ret (last kids)
               else get_or_create A (FPAddExpr (sort_addr A kids)))))))"

definition mk_fp_sub :: "amb \<Rightarrow> expr \<Rightarrow> expr \<Rightarrow> expr bm" where
  "mk_fp_sub A lhs rhs = bnd (mk_fp_neg A rhs) (mk_fp_add A lhs)"

definition mk_fp_div :: "amb \<Rightarrow> expr \<Rightarrow> expr \<Rightarrow> expr bm" where
  "mk_fp_div A lhs rhs = bnd (check_fp_type_or_fail ''fp_div'' lhs rhs) (\<lambda>_.
     case (dest_fp_const lhs, dest_fp_const rhs) of
       (Some a, Some b) \<Rightarrow> bnd (liftr (FPConst_div (fpl A) a b)) (\<lambda>v. get_or_create A (FPConstExpr v))
     | _ \<Rightarrow> get_or_create A (FPDivExpr lhs rhs))"

definition mk_fp_lt :: "amb \<Rightarrow> expr \<Rightarrow> expr \<Rightarrow> expr bm" where
  "mk_fp_lt A lhs rhs = bnd (check_fp_type_or_fail ''fp_lt'' lhs rhs) (\<lambda>_.
     case (dest_fp_const lhs, dest_fp_const rhs) of
       (Some a, Some b) \<Rightarrow> bnd (liftr (FPConst_lt (fpl A) a b)) mk_bool
     | _ \<Rightarrow> get_or_create A (FPLtExpr lhs rhs))"

definition mk_fp_eq :: "amb \<Rightarrow> expr \<Rightarrow> expr \<Rightarrow> expr bm" where
  "mk_fp_eq A lhs rhs = bnd (check_fp_type_or_fail ''fp_eq'' lhs rhs) (\<lambda>_.
     case (dest_fp_const lhs, dest_fp_const rhs) of
       (Some a, Some b) \<Rightarrow> bnd (liftr (FPConst_eq (fpl A) a b)) mk_bool
     | _ \<Rightarrow> get_or_create A (FPEqExpr lhs rhs))"

end
