(* ===== verification/Evaluate.thy ===== *)
theory Evaluate
  imports ExprBuilderFP
begin

text \<open>
  The evaluation of an expression under an assignment of constants to symbols: \<^verbatim>\<open>evaluate\<close> of
  \<^verbatim>\<open>expr/util.cpp\<close>. It rebuilds the expression bottom-up with the builder, with a cache from nodes to their
  results. The switch over the kinds of nodes is a chain of definitions, one per group of kinds, over the
  recursive call \<open>ev\<close>.

  The switch looks at the kind a node reports: an arithmetic right shift is rebuilt as a logical one, and the
  remainders as divisions. The operands of a C++ call are evaluated from left to right.
\<close>

section \<open>State\<close>

type_synonym ecache = "expr \<Rightarrow> expr option"

type_synonym 'a em = "(builder \<times> ecache, 'a) smonad"

definition on_builder :: "'a bm \<Rightarrow> 'a em" where
  "on_builder m = (\<lambda>(b, c). case m b of Inl f \<Rightarrow> Inl f | Inr (x, b') \<Rightarrow> Inr (x, (b', c)))"

definition is_true_const :: "expr \<Rightarrow> bool" where
  "is_true_const e \<longleftrightarrow> (if kind e \<noteq> K_BOOL_CONST then False else (case e of BoolConst b \<Rightarrow> b | _ \<Rightarrow> False))"

definition is_false_const :: "expr \<Rightarrow> bool" where
  "is_false_const e \<longleftrightarrow> (if kind e \<noteq> K_BOOL_CONST then False else (case e of BoolConst b \<Rightarrow> \<not> b | _ \<Rightarrow> False))"

section \<open>The cases of the switch\<close>

definition ev1 :: "(expr \<Rightarrow> expr em) \<Rightarrow> (expr \<Rightarrow> expr bm) \<Rightarrow> expr \<Rightarrow> expr em" where
  "ev1 ev f x = bnd (ev x) (\<lambda>v. on_builder (f v))"

definition ev2 :: "(expr \<Rightarrow> expr em) \<Rightarrow> (expr \<Rightarrow> expr \<Rightarrow> expr bm) \<Rightarrow> expr \<Rightarrow> expr \<Rightarrow> expr em" where
  "ev2 ev f x y = bnd (ev x) (\<lambda>v. bnd (ev y) (\<lambda>w. on_builder (f v w)))"

text \<open>The loop over the operands of a node: the first one, then each of the others combined with the result so far.\<close>

fun ev_fold :: "(expr \<Rightarrow> expr em) \<Rightarrow> (expr \<Rightarrow> expr \<Rightarrow> expr bm) \<Rightarrow> expr \<Rightarrow> expr list \<Rightarrow> expr em" where
  "ev_fold ev f acc [] = ret acc"
| "ev_fold ev f acc (x # xs) = bnd (ev x) (\<lambda>v. bnd (on_builder (f acc v)) (\<lambda>acc'. ev_fold ev f acc' xs))"

definition ev_list :: "(expr \<Rightarrow> expr em) \<Rightarrow> (expr \<Rightarrow> expr \<Rightarrow> expr bm) \<Rightarrow> expr list \<Rightarrow> expr em" where
  "ev_list ev f es = (case es of
     [] \<Rightarrow> throw (StdException ''out_of_range'') | x # xs \<Rightarrow> bnd (ev x) (\<lambda>v. ev_fold ev f v xs))"

definition evaluate_fp :: "amb \<Rightarrow> (expr \<Rightarrow> expr em) \<Rightarrow> expr \<Rightarrow> expr em" where
  "evaluate_fp A ev e = (case e of
     FPConstExpr c \<Rightarrow> ret e
   | BVToFPExpr ff x \<Rightarrow> ev1 ev (mk_bv_to_fp A ff) x
   | FPToBVExpr x \<Rightarrow> ev1 ev (mk_fp_to_bv A) x
   | FPConvert x ff \<Rightarrow> ev1 ev (\<lambda>v. mk_fp_convert A v ff) x
   | IntToFPExpr x ff \<Rightarrow> ev1 ev (\<lambda>v. mk_int_to_fp A v ff) x
   | FPIsNAN x \<Rightarrow> ev1 ev (mk_fp_is_nan A) x
   | FPNegExpr x \<Rightarrow> ev1 ev (mk_fp_neg A) x
   | FPAddExpr es \<Rightarrow> ev_list ev (mk_fp_add A) es
   | FPMulExpr es \<Rightarrow> ev_list ev (mk_fp_mul A) es
   | FPDivExpr x y \<Rightarrow> ev2 ev (mk_fp_div A) x y
   | FPLtExpr x y \<Rightarrow> ev2 ev (mk_fp_lt A) x y
   | FPEqExpr x y \<Rightarrow> ev2 ev (mk_fp_eq A) x y
   | _ \<Rightarrow> throw (Exit ''evaluate_inner''))"

definition evaluate_connective :: "amb \<Rightarrow> (expr \<Rightarrow> expr em) \<Rightarrow> expr \<Rightarrow> expr em" where
  "evaluate_connective A ev e = (case e of
     BoolAndExpr es \<Rightarrow> ev_list ev (mk_bool_and A) es
   | BoolOrExpr es \<Rightarrow> ev_list ev (mk_bool_or A) es
   | _ \<Rightarrow> evaluate_fp A ev e)"

definition evaluate_logical :: "amb \<Rightarrow> (expr \<Rightarrow> expr em) \<Rightarrow> expr \<Rightarrow> expr em" where
  "evaluate_logical A ev e = (case e of
     BoolNotExpr x \<Rightarrow> ev1 ev (mk_bool_not A) x
   | UltExpr x y \<Rightarrow> ev2 ev (mk_ult A) x y
   | UleExpr x y \<Rightarrow> ev2 ev (mk_ule A) x y
   | UgtExpr x y \<Rightarrow> ev2 ev (mk_ugt A) x y
   | UgeExpr x y \<Rightarrow> ev2 ev (mk_uge A) x y
   | SltExpr x y \<Rightarrow> ev2 ev (mk_slt A) x y
   | SleExpr x y \<Rightarrow> ev2 ev (mk_sle A) x y
   | SgtExpr x y \<Rightarrow> ev2 ev (mk_sgt A) x y
   | SgeExpr x y \<Rightarrow> ev2 ev (mk_sge A) x y
   | EqExpr x y \<Rightarrow> ev2 ev (mk_eq A) x y
   | _ \<Rightarrow> evaluate_connective A ev e)"

definition evaluate_nary :: "amb \<Rightarrow> (expr \<Rightarrow> expr em) \<Rightarrow> expr \<Rightarrow> expr em" where
  "evaluate_nary A ev e = (case e of
     AndExpr es \<Rightarrow> ev_list ev (mk_and A) es
   | OrExpr es \<Rightarrow> ev_list ev (mk_or A) es
   | XorExpr es \<Rightarrow> ev_list ev (mk_xor A) es
   | AddExpr es \<Rightarrow> ev_list ev (mk_add A) es
   | MulExpr es \<Rightarrow> ev_list ev (mk_mul A) es
   | SDivExpr x y _ \<Rightarrow> ev2 ev (mk_sdiv A) x y
   | UDivExpr x y _ \<Rightarrow> ev2 ev (mk_udiv A) x y
   | SRemExpr x y _ \<Rightarrow> ev2 ev (mk_sdiv A) x y
   | URemExpr x y _ \<Rightarrow> ev2 ev (mk_udiv A) x y
   | _ \<Rightarrow> evaluate_logical A ev e)"

definition evaluate_node :: "amb \<Rightarrow> (nat \<Rightarrow> bvconst option) \<Rightarrow> bool \<Rightarrow> (expr \<Rightarrow> expr em) \<Rightarrow> expr \<Rightarrow> expr em" where
  "evaluate_node A assignments model_completion ev e = (case e of
     SymExpr i n \<Rightarrow>
       (case assignments i of
          Some c \<Rightarrow> on_builder (mk_const A c)
        | None \<Rightarrow> if model_completion then on_builder (mk_const_u64 A 0 n) else ret e)
   | ConstExpr c \<Rightarrow> ret e
   | BoolConst b \<Rightarrow> ret e
   | ExtractExpr x high low \<Rightarrow> ev1 ev (\<lambda>v. mk_extract A v high low) x
   | ConcatExpr es \<Rightarrow> ev_list ev (mk_concat A) es
   | ZextExpr x n \<Rightarrow> ev1 ev (\<lambda>v. mk_zext A v n) x
   | SextExpr x n \<Rightarrow> ev1 ev (\<lambda>v. mk_sext A v n) x
   | ITEExpr g t f \<Rightarrow> bnd (ev g) (\<lambda>g'. ev2 ev (mk_ite A g') t f)
   | ShlExpr x v \<Rightarrow> ev2 ev (mk_shl A) x v
   | LShrExpr x v \<Rightarrow> ev2 ev (mk_lshr A) x v
   | AShrExpr x v \<Rightarrow> ev2 ev (mk_lshr A) x v
   | NegExpr x \<Rightarrow> ev1 ev (mk_neg A) x
   | NotExpr x \<Rightarrow> ev1 ev (mk_not A) x
   | _ \<Rightarrow> evaluate_nary A ev e)"

section \<open>The recursion\<close>

text \<open>The cache around one node.\<close>

definition cached :: "expr \<Rightarrow> expr em \<Rightarrow> expr em" where
  "cached e m = (\<lambda>(b, c). case c e of
     Some r \<Rightarrow> Inr (r, (b, c))
   | None \<Rightarrow> bnd m (\<lambda>r (b', c'). Inr (r, (b', c'(e \<mapsto> r)))) (b, c))"

lemma ev_fold_cong: "\<forall>x\<in>set xs. ev x = ev' x \<Longrightarrow> ev_fold ev f acc xs = ev_fold ev' f acc xs"
  by (induction xs arbitrary: acc) simp_all

lemma ev_list_cong: "\<forall>x\<in>set xs. ev x = ev' x \<Longrightarrow> ev_list ev f xs = ev_list ev' f xs"
proof (cases xs)
  case (Cons y ys)
  assume same: "\<forall>x\<in>set xs. ev x = ev' x"
  then have "ev_fold ev f v ys = ev_fold ev' f v ys" for v
    by (intro ev_fold_cong) (simp add: Cons)
  then show ?thesis using same by (simp add: ev_list_def Cons)
qed (simp add: ev_list_def)

lemmas evaluate_defs = evaluate_node_def evaluate_nary_def evaluate_logical_def evaluate_connective_def evaluate_fp_def

lemma evaluate_node_cong [fundef_cong]:
  assumes "A = A'" "asg = asg'" "mc = mc'" "e = e'" "\<And>x. x \<in> set (children e') \<Longrightarrow> ev x = ev' x"
  shows "evaluate_node A asg mc ev e = evaluate_node A' asg' mc' ev' e'"
  using assms by (cases e') (simp_all add: evaluate_defs ev1_def ev2_def ev_list_cong[of _ ev ev'])

lemma children_size [termination_simp]: "x \<in> set (children e) \<Longrightarrow> size x < size e"
  by (cases e) (auto simp: size_list_estimation' less_Suc_eq_le)

function evaluate_inner ::
  "amb \<Rightarrow> (nat \<Rightarrow> bvconst option) \<Rightarrow> bool \<Rightarrow> expr \<Rightarrow> expr em" where
  "evaluate_inner A assignments model_completion e =
     cached e (evaluate_node A assignments model_completion (evaluate_inner A assignments model_completion) e)"
  by pat_completeness auto
termination
  by (relation "measure (\<lambda>(A, asg, mc, e). size e)") (simp_all add: children_size)

declare evaluate_inner.simps [simp del]

definition evaluate :: "amb \<Rightarrow> expr \<Rightarrow> (nat \<Rightarrow> bvconst option) \<Rightarrow> bool \<Rightarrow> expr bm" where
  "evaluate A e assignments model_completion =
     (\<lambda>b. case evaluate_inner A assignments model_completion e (b, Map.empty) of
        Inl f \<Rightarrow> Inl f | Inr (r, (b', _)) \<Rightarrow> Inr (r, b'))"

end
