(* ===== verification/ExprFacts.thy ===== *)
theory ExprFacts
  imports ExprSem
begin

unbundle bit_operations_syntax

text \<open>
  Facts on the meaning of well-formed expressions: their widths are positive, their values are in
  range, and the values of concatenations compose.
\<close>

lemma is_bool_simps [simp]:
  "is_bool (BoolConst b)" "is_bool (BoolNotExpr e)" "is_bool (BoolAndExpr es)" "is_bool (BoolOrExpr es)"
  "is_bool (UltExpr e v)" "is_bool (UleExpr e v)" "is_bool (UgtExpr e v)" "is_bool (UgeExpr e v)"
  "is_bool (SltExpr e v)" "is_bool (SleExpr e v)" "is_bool (SgtExpr e v)" "is_bool (SgeExpr e v)"
  "is_bool (EqExpr e v)" "is_bool (FPIsNAN e)" "is_bool (FPEqExpr e v)" "is_bool (FPLtExpr e v)"
  by (simp_all add: is_bool_def)

lemma is_bv_simps [simp]:
  "is_bv (SymExpr i n)" "is_bv (ConstExpr c)" "is_bv (ITEExpr g t f)" "is_bv (ExtractExpr e h l)"
  "is_bv (ConcatExpr es)" "is_bv (ZextExpr e n)" "is_bv (SextExpr e n)" "is_bv (NegExpr e)"
  "is_bv (NotExpr e)" "is_bv (ShlExpr e v)" "is_bv (LShrExpr e v)" "is_bv (AShrExpr e v)"
  "is_bv (AddExpr es)" "is_bv (MulExpr es)" "is_bv (AndExpr es)" "is_bv (OrExpr es)"
  "is_bv (XorExpr es)" "is_bv (FPToBVExpr e)"
  by (simp_all add: is_bv_def is_bool_def is_fp_def)

lemma is_bv_simps_False [simp]:
  "\<not> is_bv (BoolConst b)" "\<not> is_bv (BoolNotExpr e)" "\<not> is_bv (BoolAndExpr es)" "\<not> is_bv (BoolOrExpr es)"
  "\<not> is_bv (UltExpr e v)" "\<not> is_bv (UleExpr e v)" "\<not> is_bv (UgtExpr e v)" "\<not> is_bv (UgeExpr e v)"
  "\<not> is_bv (SltExpr e v)" "\<not> is_bv (SleExpr e v)" "\<not> is_bv (SgtExpr e v)" "\<not> is_bv (SgeExpr e v)"
  "\<not> is_bv (EqExpr e v)" "\<not> is_bv (FPIsNAN e)" "\<not> is_bv (FPEqExpr e v)" "\<not> is_bv (FPLtExpr e v)"
  "\<not> is_bv (FPConstExpr c)" "\<not> is_bv (BVToFPExpr ff e)" "\<not> is_bv (FPConvert e ff)"
  "\<not> is_bv (IntToFPExpr e ff)" "\<not> is_bv (FPDivExpr e v)" "\<not> is_bv (FPNegExpr e)"
  "\<not> is_bv (FPAddExpr es)" "\<not> is_bv (FPMulExpr es)"
  by (simp_all add: is_bv_def is_fp_def)

lemma is_bv_not_bool: "is_bool e \<Longrightarrow> \<not> is_bv e" "is_bv e \<Longrightarrow> \<not> is_bool e"
  by (simp_all add: is_bv_def)

lemma list_all_map_wf [simp]: "list_all (\<lambda>b. b) (map wf_expr es) \<longleftrightarrow> (\<forall>e\<in>set es. wf_expr e)"
  by (simp add: list_all_iff)

lemma hd_append_0 [simp]: "es \<noteq> [] \<Longrightarrow> hd (map expr_size es @ [0]) = expr_size (hd es)"
  by (cases es) auto

lemma same_width_iff:
  "same_width es \<longleftrightarrow> es \<noteq> [] \<and> (\<forall>e\<in>set es. is_bv e \<and> expr_size e = expr_size (hd es))"
  by (simp add: same_width_def list_all_iff)

lemma same_width_hd:
  "same_width es \<Longrightarrow> hd es \<in> set es"
  "same_width es \<Longrightarrow> is_bv (hd es)"
  "same_width es \<Longrightarrow> es \<noteq> []"
  by (cases es; simp add: same_width_def)+

lemma same_width_hd_wf: "same_width es \<Longrightarrow> \<forall>e\<in>set es. wf_expr e \<Longrightarrow> wf_expr (hd es)"
  using same_width_hd(1) by blast

lemma wf_size_pos: "wf_expr e \<Longrightarrow> is_bv e \<Longrightarrow> 0 < expr_size e"
proof (induction e)
  case (ConcatExpr es)
  then show ?case by (cases es) (auto simp: list_all_iff)
next
  case (ConstExpr c)
  then show ?case by (simp add: bv_ok_def)
qed (simp_all add: hd_map same_width_hd same_width_hd_wf)

section \<open>Concatenation\<close>

definition widths :: "(nat \<times> int) list \<Rightarrow> nat" where
  "widths xs = sum_list (map fst xs)"

lemma widths_simps [simp]: "widths [] = 0" "widths (x # xs) = fst x + widths xs"
  "widths (xs @ ys) = widths xs + widths ys"
  by (simp_all add: widths_def)

lemma concat_fold:
  "foldl (\<lambda>acc nv. push_bit (fst nv) acc OR snd nv) a xs = push_bit (widths xs) a OR concat_val xs"
proof (induction xs arbitrary: a)
  case (Cons x xs)
  show ?case
    using Cons.IH[of "push_bit (fst x) a OR snd x"] Cons.IH[of "snd x"]
    by (simp add: concat_val_def push_bit_or or.assoc add.commute)
qed (simp add: concat_val_def)

lemma concat_val_simps [simp]:
  "concat_val [] = 0"
  "concat_val (x # xs) = push_bit (widths xs) (snd x) OR concat_val xs"
  using concat_fold[of "snd x" xs] by (simp_all add: concat_val_def)

lemma concat_val_append:
  "concat_val (xs @ ys) = push_bit (widths ys) (concat_val xs) OR concat_val ys"
  by (induction xs) (simp_all add: push_bit_or or.assoc add.commute)

definition in_range :: "nat \<Rightarrow> int \<Rightarrow> bool" where
  "in_range n v \<longleftrightarrow> take_bit n v = v"

lemma in_range_iff: "in_range n v \<longleftrightarrow> 0 \<le> v \<and> v < 2 ^ n"
  by (metis in_range_def take_bit_id take_bit_less_exp take_bit_nonnegative)

lemma in_range_take [simp]: "in_range n (take_bit n v)"
  by (simp add: in_range_def)

lemma in_range_D: "in_range n v \<Longrightarrow> take_bit n v = v"
  by (simp add: in_range_def)

lemma in_range_bit: "in_range n v \<longleftrightarrow> (\<forall>i. bit v i \<longrightarrow> i < n)"
  by (auto simp: in_range_def bit_eq_iff bit_simps)

lemma in_range_concat2: "in_range n x \<Longrightarrow> in_range m y \<Longrightarrow> in_range (n + m) (push_bit m x OR y)"
proof -
  assume x: "in_range n x" and y: "in_range m y"
  show ?thesis
    unfolding in_range_bit
  proof (intro allI impI)
    fix i
    assume "bit (push_bit m x OR y) i"
    then have "i < m \<or> m \<le> i \<and> bit x (i - m)"
      using y by (auto simp: bit_simps in_range_bit)
    then show "i < n + m" using x by (auto simp: in_range_bit)
  qed
qed

lemma in_range_concat:
  "\<forall>p\<in>set xs. in_range (fst p) (snd p) \<Longrightarrow> in_range (widths xs) (concat_val xs)"
  by (induction xs) (simp_all add: in_range_concat2 in_range_def[of 0 0])

section \<open>Ranges\<close>

lemma take_bit_mono_range: "in_range n v \<Longrightarrow> n \<le> m \<Longrightarrow> in_range m v"
  by (auto simp: in_range_bit)

lemma sem_bv_range:
  "wf_expr e \<Longrightarrow> is_bv e \<Longrightarrow> in_range (expr_size e) (sem F \<rho> e)"
proof (induction e)
  case (ConstExpr c)
  then have "bv_rep (m_size c) (bv_val c) c" by (simp add: bv_rep_self)
  then show ?case by (simp add: in_range_def)
next
  case (ConcatExpr es)
  then have "\<forall>p\<in>set (map (\<lambda>e. (expr_size e, sem F \<rho> e)) es). in_range (fst p) (snd p)"
    by (auto simp: list_all_iff)
  from in_range_concat[OF this] show ?case by (simp add: widths_def comp_def)
next
  case (LShrExpr e v)
  then have "in_range (expr_size e) (sem F \<rho> e)" by simp
  then show ?case by (auto simp: lshr_val_def in_range_bit bit_simps)
next
  case (ZextExpr e n)
  then have "in_range (expr_size e) (sem F \<rho> e)" "expr_size e \<le> n" by simp_all
  then show ?case by (simp add: take_bit_mono_range)
qed (simp_all add: shl_val_def in_range_def[of _ 0])

lemma sem_bv_take_bit [simp]:
  "wf_expr e \<Longrightarrow> is_bv e \<Longrightarrow> take_bit (expr_size e) (sem F \<rho> e) = sem F \<rho> e"
  using sem_bv_range by (simp add: in_range_def)

lemma sem_bool_range: "is_bool e \<Longrightarrow> sem F \<rho> e = of_bool (sem F \<rho> e \<noteq> 0)"
  by (cases e) (simp_all add: is_bool_def)

lemma const_rep: "wf_expr (ConstExpr c) \<Longrightarrow> bv_rep (m_size c) (bv_val c) c"
  by (simp add: bv_rep_self)

end
