(* ===== verification/ExprIntern.thy ===== *)
theory ExprIntern
  imports ExprFacts ExprBuilder
begin

unbundle bit_operations_syntax

text \<open>
  Interning: \<open>get_or_create\<close> returns the node it is asked for, its table keeps live nodes under their
  hash, and no two live entries of a bucket are the same node.
\<close>

section \<open>Equality and hashing of well-formed nodes\<close>

lemma BVConst_copy_size [simp]: "m_size (BVConst_copy c) = m_size c"
  by (simp add: BVConst_copy_def)

lemma bv_hash_total:
  assumes "bv_rep n v c"
  shows "\<exists>h. bv_hash c = Inr h"
proof (cases "n \<le> 64")
  case True
  with assms show ?thesis by (auto simp: bv_hash_def elim: bv_rep_smallE)
next
  case False
  with assms have "is_big c" by (auto elim: bv_rep_bigE)
  with False show ?thesis
    by (simp add: bv_hash_def bv_get_byte_rep[OF assms])
qed

lemma expr_hash_total: "wf_expr e \<Longrightarrow> \<exists>h. expr_hash A e = Inr h"
proof (cases e)
  case (ConstExpr c)
  assume "wf_expr e"
  with ConstExpr show ?thesis
    using bv_hash_total[OF const_rep[of c]] by (simp add: ConstExpr_hash_def)
qed simp_all

lemma ITEExpr_eq_sound: "ITEExpr_eq g t f x \<Longrightarrow> wf_expr x \<Longrightarrow> x = ITEExpr g t f"
  unfolding ITEExpr_eq_def by (auto simp: list.rel_eq split: expr.split_asm)

lemma ExtractExpr_eq_sound: "ExtractExpr_eq e high low x \<Longrightarrow> wf_expr x \<Longrightarrow> x = ExtractExpr e high low"
  unfolding ExtractExpr_eq_def by (auto simp: list.rel_eq split: expr.split_asm)

lemma ConcatExpr_eq_sound: "ConcatExpr_eq es x \<Longrightarrow> wf_expr x \<Longrightarrow> x = ConcatExpr es"
  unfolding ConcatExpr_eq_def by (auto simp: list.rel_eq split: expr.split_asm)

lemma ZextExpr_eq_sound: "ZextExpr_eq e n x \<Longrightarrow> wf_expr x \<Longrightarrow> x = ZextExpr e n"
  unfolding ZextExpr_eq_def by (auto simp: list.rel_eq split: expr.split_asm)

lemma SextExpr_eq_sound: "SextExpr_eq e n x \<Longrightarrow> wf_expr x \<Longrightarrow> x = SextExpr e n"
  unfolding SextExpr_eq_def by (auto simp: list.rel_eq split: expr.split_asm)

lemma NegExpr_eq_sound: "NegExpr_eq e x \<Longrightarrow> wf_expr x \<Longrightarrow> x = NegExpr e"
  unfolding NegExpr_eq_def by (auto simp: list.rel_eq split: expr.split_asm)

lemma NotExpr_eq_sound: "NotExpr_eq e x \<Longrightarrow> wf_expr x \<Longrightarrow> x = NotExpr e"
  unfolding NotExpr_eq_def by (auto simp: list.rel_eq split: expr.split_asm)

lemma ShlExpr_eq_sound: "ShlExpr_eq e v x \<Longrightarrow> wf_expr x \<Longrightarrow> x = ShlExpr e v"
  unfolding ShlExpr_eq_def by (auto simp: list.rel_eq split: expr.split_asm)

lemma LShrExpr_eq_sound: "LShrExpr_eq e v x \<Longrightarrow> wf_expr x \<Longrightarrow> x = LShrExpr e v"
  unfolding LShrExpr_eq_def by (auto simp: list.rel_eq split: expr.split_asm)

lemma AddExpr_eq_sound: "AddExpr_eq es x \<Longrightarrow> wf_expr x \<Longrightarrow> x = AddExpr es"
  unfolding AddExpr_eq_def by (auto simp: list.rel_eq split: expr.split_asm)

lemma MulExpr_eq_sound: "MulExpr_eq es x \<Longrightarrow> wf_expr x \<Longrightarrow> x = MulExpr es"
  unfolding MulExpr_eq_def by (auto simp: list.rel_eq split: expr.split_asm)

lemma AndExpr_eq_sound: "AndExpr_eq es x \<Longrightarrow> wf_expr x \<Longrightarrow> x = AndExpr es"
  unfolding AndExpr_eq_def by (auto simp: list.rel_eq split: expr.split_asm)

lemma OrExpr_eq_sound: "OrExpr_eq es x \<Longrightarrow> wf_expr x \<Longrightarrow> x = OrExpr es"
  unfolding OrExpr_eq_def by (auto simp: list.rel_eq split: expr.split_asm)

lemma XorExpr_eq_sound: "XorExpr_eq es x \<Longrightarrow> wf_expr x \<Longrightarrow> x = XorExpr es"
  unfolding XorExpr_eq_def by (auto simp: list.rel_eq split: expr.split_asm)

lemma BoolConst_eq_sound: "BoolConst_eq b x \<Longrightarrow> wf_expr x \<Longrightarrow> x = BoolConst b"
  unfolding BoolConst_eq_def by (auto simp: list.rel_eq split: expr.split_asm)

lemma BoolNotExpr_eq_sound: "BoolNotExpr_eq e x \<Longrightarrow> wf_expr x \<Longrightarrow> x = BoolNotExpr e"
  unfolding BoolNotExpr_eq_def by (auto simp: list.rel_eq split: expr.split_asm)

lemma BoolAndExpr_eq_sound: "BoolAndExpr_eq es x \<Longrightarrow> wf_expr x \<Longrightarrow> x = BoolAndExpr es"
  unfolding BoolAndExpr_eq_def by (auto simp: list.rel_eq split: expr.split_asm)

lemma BoolOrExpr_eq_sound: "BoolOrExpr_eq es x \<Longrightarrow> wf_expr x \<Longrightarrow> x = BoolOrExpr es"
  unfolding BoolOrExpr_eq_def by (auto simp: list.rel_eq split: expr.split_asm)

lemma BVToFPExpr_eq_sound: "BVToFPExpr_eq ff e x \<Longrightarrow> wf_expr x \<Longrightarrow> x = BVToFPExpr ff e"
  unfolding BVToFPExpr_eq_def by (auto simp: list.rel_eq split: expr.split_asm)

lemma FPToBVExpr_eq_sound: "FPToBVExpr_eq e x \<Longrightarrow> wf_expr x \<Longrightarrow> x = FPToBVExpr e"
  unfolding FPToBVExpr_eq_def by (auto simp: list.rel_eq split: expr.split_asm)

lemma FPConvert_eq_sound: "FPConvert_eq e ff x \<Longrightarrow> wf_expr x \<Longrightarrow> x = FPConvert e ff"
  unfolding FPConvert_eq_def by (auto simp: list.rel_eq split: expr.split_asm)

lemma IntToFPExpr_eq_sound: "IntToFPExpr_eq e ff x \<Longrightarrow> wf_expr x \<Longrightarrow> x = IntToFPExpr e ff"
  unfolding IntToFPExpr_eq_def by (auto simp: list.rel_eq split: expr.split_asm)

lemma FPIsNAN_eq_sound: "FPIsNAN_eq e x \<Longrightarrow> wf_expr x \<Longrightarrow> x = FPIsNAN e"
  unfolding FPIsNAN_eq_def by (auto simp: list.rel_eq split: expr.split_asm)

lemma FPDivExpr_eq_sound: "FPDivExpr_eq l r x \<Longrightarrow> wf_expr x \<Longrightarrow> x = FPDivExpr l r"
  unfolding FPDivExpr_eq_def by (auto simp: list.rel_eq split: expr.split_asm)

lemma FPNegExpr_eq_sound: "FPNegExpr_eq e x \<Longrightarrow> wf_expr x \<Longrightarrow> x = FPNegExpr e"
  unfolding FPNegExpr_eq_def by (auto simp: list.rel_eq split: expr.split_asm)

lemma FPAddExpr_eq_sound: "FPAddExpr_eq es x \<Longrightarrow> wf_expr x \<Longrightarrow> x = FPAddExpr es"
  unfolding FPAddExpr_eq_def by (auto simp: list.rel_eq split: expr.split_asm)

lemma FPMulExpr_eq_sound: "FPMulExpr_eq es x \<Longrightarrow> wf_expr x \<Longrightarrow> x = FPMulExpr es"
  unfolding FPMulExpr_eq_def by (auto simp: list.rel_eq split: expr.split_asm)

lemma logical_eq_sound:
  "logical_eq K_ULT l r x \<Longrightarrow> x = UltExpr l r"
  "logical_eq K_ULE l r x \<Longrightarrow> x = UleExpr l r"
  "logical_eq K_UGT l r x \<Longrightarrow> x = UgtExpr l r"
  "logical_eq K_UGE l r x \<Longrightarrow> x = UgeExpr l r"
  "logical_eq K_SLT l r x \<Longrightarrow> x = SltExpr l r"
  "logical_eq K_SLE l r x \<Longrightarrow> x = SleExpr l r"
  "logical_eq K_SGT l r x \<Longrightarrow> x = SgtExpr l r"
  "logical_eq K_SGE l r x \<Longrightarrow> x = SgeExpr l r"
  "logical_eq K_EQ l r x \<Longrightarrow> x = EqExpr l r"
  "logical_eq K_FP_EQ l r x \<Longrightarrow> x = FPEqExpr l r"
  "logical_eq K_FP_LT l r x \<Longrightarrow> x = FPLtExpr l r"
  unfolding logical_eq_def by (cases x rule: expr.exhaust; simp)+

lemmas class_eq_sound =
  ITEExpr_eq_sound ExtractExpr_eq_sound ConcatExpr_eq_sound ZextExpr_eq_sound
  SextExpr_eq_sound NegExpr_eq_sound NotExpr_eq_sound ShlExpr_eq_sound
  LShrExpr_eq_sound AddExpr_eq_sound MulExpr_eq_sound AndExpr_eq_sound
  OrExpr_eq_sound XorExpr_eq_sound BoolConst_eq_sound BoolNotExpr_eq_sound
  BoolAndExpr_eq_sound BoolOrExpr_eq_sound BVToFPExpr_eq_sound FPToBVExpr_eq_sound
  FPConvert_eq_sound IntToFPExpr_eq_sound FPIsNAN_eq_sound FPDivExpr_eq_sound
  FPNegExpr_eq_sound FPAddExpr_eq_sound FPMulExpr_eq_sound
  logical_eq_sound

text \<open>Comparing two constants, or two floating-point constants.\<close>

lemma ConstExpr_eq_cases:
  "ConstExpr_eq c r = (case r of
     ConstExpr c' \<Rightarrow> if m_size c \<noteq> m_size c' then Inr False else bv_eq c c' | _ \<Rightarrow> Inr False)"
  by (simp add: ConstExpr_eq_def split: expr.split)

lemma FPConstExpr_eq_cases:
  "FPConstExpr_eq A c r = (case r of
     FPConstExpr c' \<Rightarrow> Inr (fp_ff c = fp_ff c' \<and> opEqual (fpl A) (fp_ff c) (fp_val c) (fp_val c'))
   | _ \<Rightarrow> Inr False)"
  by (simp add: FPConstExpr_eq_def FPConst_eq_def split: expr.split)

lemma ConstExpr_eq_wf:
  assumes "wf_expr (ConstExpr c)" "wf_expr (ConstExpr d)" "m_size c = m_size d"
  shows "bv_eq c d = Inr (bv_val c = bv_val d)"
  using bv_eq_rep[OF const_rep[OF assms(1)], of "bv_val d" d] const_rep[OF assms(2)] assms(3) by simp

lemma ConstExpr_eq_total:
  "wf_expr (ConstExpr c) \<Longrightarrow> wf_expr r \<Longrightarrow> \<exists>b. ConstExpr_eq c r = Inr b"
  by (auto simp: ConstExpr_eq_cases ConstExpr_eq_wf split: expr.split)

lemma expr_eq_total:
  assumes "wf_expr e" and "wf_expr r"
  shows "\<exists>b. expr_eq A e r = Inr b"
proof (cases e)
  case (ConstExpr c)
  with assms ConstExpr_eq_total show ?thesis by simp
next
  case (FPConstExpr c)
  then show ?thesis by (auto simp: FPConstExpr_eq_cases split: expr.split)
qed simp_all

lemma bvconst_canonical_eq:
  assumes "wf_expr (ConstExpr c)" "wf_expr (ConstExpr d)" "m_size c = m_size d" "bv_val c = bv_val d"
  shows "c = d"
  using assms by (cases c; cases d)
    (auto simp: BVConst_copy_def bv_ok_def bv_val_def word_uint_eq_iff split: if_splits)

lemma ConstExpr_eq_sound:
  assumes "wf_expr (ConstExpr c)" "wf_expr r" "ConstExpr_eq c r = Inr True"
  shows "r = ConstExpr c"
proof -
  from assms(3) obtain d where r: "r = ConstExpr d" "m_size c = m_size d" "bv_eq c d = Inr True"
    by (auto simp: ConstExpr_eq_cases split: if_splits expr.split_asm)
  with assms have "bv_val c = bv_val d" by (simp add: ConstExpr_eq_wf)
  with r assms bvconst_canonical_eq show ?thesis by metis
qed

lemma xor_left_cancel:
  assumes "(a :: 64 word) XOR b = a XOR c"
  shows "b = c"
proof -
  have "a XOR (a XOR b) = a XOR (a XOR c)" using assms by simp
  then show ?thesis by (simp flip: xor.assoc)
qed

lemma FPConstExpr_eq_sound:
  assumes "FPConstExpr_eq A c r = Inr True" "expr_hash A r = Inr (FPConst_hash c)"
  shows "r = FPConstExpr c"
proof -
  from assms(1) obtain d where r: "r = FPConstExpr d" "fp_ff c = fp_ff d"
    by (auto simp: FPConstExpr_eq_cases split: expr.split_asm)
  with assms(2) have "fp_val d = fp_val c"
    by (auto simp: FPConst_hash_def intro: xor_left_cancel)
  with r show ?thesis by (auto intro: fpconst.equality)
qed

lemma expr_eq_sound:
  assumes "wf_expr e" "wf_expr r" "expr_eq A e r = Inr True" "expr_hash A r = expr_hash A e"
    and "kind e \<noteq> K_SYM"
  shows "r = e"
  using assms
  by (cases e) (simp_all add: class_eq_sound ConstExpr_eq_sound FPConstExpr_eq_sound)

lemma expr_eq_refl:
  assumes "wf_expr e" "kind e \<noteq> K_FP_CONST"
  shows "expr_eq A e e = Inr True"
  using assms by (cases e)
    (simp_all add: eq_defs list.rel_eq ConstExpr_eq_wf)

section \<open>The invariant of the builder\<close>

definition live :: "expr option list \<Rightarrow> expr list" where
  "live ws = List.map_filter id ws"

lemma live_simps [simp]:
  "live [] = []" "live (None # ws) = live ws" "live (Some r # ws) = r # live ws"
  "live (ws @ ws') = live ws @ live ws'"
  by (simp_all add: live_def List.map_filter_def)

lemma live_purge [simp]: "live (purge ws) = live ws"
  by (induction ws) (auto simp: purge_def)

lemma set_live: "r \<in> set (live ws) \<longleftrightarrow> Some r \<in> set ws"
proof (induction ws)
  case (Cons w ws)
  then show ?case by (cases w) auto
qed simp

definition entry_ok :: "amb \<Rightarrow> builder \<Rightarrow> 64 word \<Rightarrow> expr \<Rightarrow> bool" where
  "entry_ok A s h r \<longleftrightarrow> wf_expr r \<and> expr_hash A r = Inr h \<and>
     (\<forall>i n. r = SymExpr i n \<longrightarrow> i < unat (m_sym_ids s))"

definition bucket_ok :: "amb \<Rightarrow> builder \<Rightarrow> 64 word \<Rightarrow> expr option list \<Rightarrow> bool" where
  "bucket_ok A s h ws \<longleftrightarrow> list_all (entry_ok A s h) (live ws) \<and>
     distinct (filter (\<lambda>r. kind r \<noteq> K_FP_CONST) (live ws))"

definition consts_ok :: "((64 word \<times> nat) \<times> expr) list \<Rightarrow> bool" where
  "consts_ok cs \<longleftrightarrow> (\<forall>v n c. ((v, n), c) \<in> set cs \<longrightarrow>
     (\<exists>k. c = ConstExpr k \<and> wf_expr c \<and> bv_rep n (take_bit n (uint v)) k))"

definition symbols_ok :: "builder \<Rightarrow> bool" where
  "symbols_ok s \<longleftrightarrow>
     (\<forall>name e. m_symbols s name = Some e \<longrightarrow>
       (\<exists>i n. e = SymExpr i n \<and> 0 < n \<and> i < unat (m_sym_ids s) \<and> m_sym_id_to_name s i = Some name)) \<and>
     (\<forall>i name. m_sym_id_to_name s i = Some name \<longrightarrow> (\<exists>n. m_symbols s name = Some (SymExpr i n)))"

definition binv :: "amb \<Rightarrow> builder \<Rightarrow> bool" where
  "binv A s \<longleftrightarrow> (\<forall>h ws. m_exprs s h = Some ws \<longrightarrow> bucket_ok A s h ws) \<and> consts_ok (m_consts s) \<and>
     symbols_ok s"

lemma binv_init: "binv A ExprBuilder_init"
  by (simp add: binv_def ExprBuilder_init_def consts_ok_def symbols_ok_def)

text \<open>Expiry of weak pointers, at any time, and garbage collection keep the invariant.\<close>

lemma live_expire:
  "live (map (\<lambda>w. case w of None \<Rightarrow> None | Some r \<Rightarrow> if dead r then None else Some r) ws) =
   filter (\<lambda>r. \<not> dead r) (live ws)"
  by (induction ws) (auto split: option.splits)

lemma distinct_filter_conj: "distinct (filter Q xs) \<Longrightarrow> distinct (filter (\<lambda>x. P x \<and> Q x) xs)"
  using distinct_filter[of "filter Q xs" P] by (simp add: conj_commute)

lemma bucket_ok_filter:
  "bucket_ok A s h ws \<Longrightarrow> live ws' = filter P (live ws) \<Longrightarrow> bucket_ok A s h ws'"
  by (auto simp: bucket_ok_def list_all_iff intro: distinct_filter_conj)

lemma binv_buckets:
  assumes "binv A s" "\<And>h ws'. f h = Some ws' \<Longrightarrow> \<exists>ws P. m_exprs s h = Some ws \<and> live ws' = filter P (live ws)"
  shows "binv A (s\<lparr>m_exprs := f\<rparr>)"
proof -
  have "bucket_ok A (s\<lparr>m_exprs := f\<rparr>) h ws'" if "f h = Some ws'" for h ws'
  proof -
    from assms(2)[OF that] obtain ws P where "m_exprs s h = Some ws" "live ws' = filter P (live ws)" by blast
    with assms(1) have "bucket_ok A s h ws'" unfolding binv_def using bucket_ok_filter by blast
    then show ?thesis by (simp add: bucket_ok_def entry_ok_def[abs_def])
  qed
  with assms(1) show ?thesis by (simp add: binv_def symbols_ok_def)
qed

lemma binv_expire: "binv A s \<Longrightarrow> binv A (expire dead s)"
  unfolding expire_def by (rule binv_buckets) (auto simp: live_expire)

lemma binv_collect_garbage: "binv A s \<Longrightarrow> binv A (collect_garbage s)"
  unfolding collect_garbage_def
  by (rule binv_buckets) (auto intro!: exI[of _ "\<lambda>_. True"])

section \<open>The search in a bucket\<close>

lemma find_eq_spec:
  assumes "wf_expr e" "kind e \<noteq> K_SYM" "\<forall>w\<in>set ws. w \<noteq> None"
    and "\<forall>r\<in>set (live ws). wf_expr r \<and> expr_hash A r = expr_hash A e"
  shows "find_eq A e ws = Inr None \<and> (kind e = K_FP_CONST \<or> e \<notin> set (live ws))
    \<or> find_eq A e ws = Inr (Some e) \<and> e \<in> set (live ws)"
  using assms(3,4)
proof (induction ws)
  case (Cons w ws)
  then obtain r where w: "w = Some r" by (cases w) auto
  with Cons.prems have r: "wf_expr r" "expr_hash A r = expr_hash A e" by auto
  obtain b where b: "expr_eq A e r = Inr b" using expr_eq_total[OF assms(1) r(1)] by blast
  show ?case
  proof (cases b)
    case True
    with b r assms(1,2) have "r = e" by (auto intro: expr_eq_sound)
    with True b w show ?thesis by simp
  next
    case False
    then have "kind e = K_FP_CONST \<or> r \<noteq> e" using b assms(1) expr_eq_refl[of r A] by auto
    with Cons False b w show ?thesis by auto
  qed
qed simp

lemma find_eq_sym:
  assumes "\<forall>w\<in>set ws. w \<noteq> None" "\<forall>r\<in>set (live ws). \<forall>j m. r = SymExpr j m \<longrightarrow> j \<noteq> i"
  shows "find_eq A (SymExpr i n) ws = Inr None"
  using assms
proof (induction ws)
  case (Cons w ws)
  then obtain r where w: "w = Some r" by (cases w) auto
  with Cons.prems have "\<not> SymExpr_eq i n r"
    by (auto simp: SymExpr_eq_def split: expr.split_asm)
  with Cons w show ?case by simp
qed simp

lemma clone_wf: "wf_expr e \<Longrightarrow> clone A e = e"
  by (cases e) (simp_all add: clone_def)

section \<open>Operations that keep the invariant\<close>

text \<open>
  \<open>builds A m P\<close>: from every state that satisfies the invariant, \<open>m\<close> returns normally, keeps the invariant, leaves the
  symbols alone, and its value satisfies \<open>P\<close>.
\<close>

definition same_syms :: "builder \<Rightarrow> builder \<Rightarrow> bool" where
  "same_syms s s' \<longleftrightarrow> m_symbols s' = m_symbols s \<and> m_sym_id_to_name s' = m_sym_id_to_name s \<and>
     m_sym_ids s' = m_sym_ids s"

definition builds :: "amb \<Rightarrow> 'a bm \<Rightarrow> ('a \<Rightarrow> bool) \<Rightarrow> bool" where
  "builds A m P \<longleftrightarrow> (\<forall>s0. tot (\<lambda>s. binv A s \<and> same_syms s0 s) m (\<lambda>x s. binv A s \<and> same_syms s0 s \<and> P x))"

lemma same_syms_refl [simp]: "same_syms s s"
  by (simp add: same_syms_def)

lemma same_syms_trans: "same_syms s t \<Longrightarrow> same_syms t u \<Longrightarrow> same_syms s u"
  by (simp add: same_syms_def)

lemma buildsI:
  assumes "\<And>s. binv A s \<Longrightarrow> \<exists>x s'. m s = Inr (x, s') \<and> binv A s' \<and> same_syms s s' \<and> P x"
  shows "builds A m P"
  unfolding builds_def
proof (intro allI totI)
  fix s0 s
  assume "binv A s \<and> same_syms s0 s"
  with assms[of s] same_syms_trans[of s0 s] show "\<exists>x s'. m s = Inr (x, s') \<and> binv A s' \<and> same_syms s0 s' \<and> P x"
    by blast
qed

lemma buildsE:
  assumes "builds A m P" "binv A s"
  obtains x s' where "m s = Inr (x, s')" "binv A s'" "same_syms s s'" "P x"
proof -
  from assms(1) have "tot (\<lambda>t. binv A t \<and> same_syms s t) m (\<lambda>x t. binv A t \<and> same_syms s t \<and> P x)"
    by (simp add: builds_def)
  then show ?thesis using assms(2) that by (auto elim!: totE[of _ m _ s])
qed

lemma builds_ret [intro]: "P x \<Longrightarrow> builds A (ret x) P"
  by (auto simp: builds_def intro: tot_ret)

lemma builds_bnd:
  assumes "builds A m P" and "\<And>x. P x \<Longrightarrow> builds A (f x) Q"
  shows "builds A (bnd m f) Q"
  unfolding builds_def
proof (intro allI tot_bnd)
  fix s0
  show "tot (\<lambda>s. binv A s \<and> same_syms s0 s) m (\<lambda>x s. binv A s \<and> same_syms s0 s \<and> P x)"
    using assms(1) by (simp add: builds_def)
  fix x
  show "tot (\<lambda>s. binv A s \<and> same_syms s0 s \<and> P x) (f x) (\<lambda>x s. binv A s \<and> same_syms s0 s \<and> Q x)"
    using assms(2)[of x] by (auto simp: builds_def tot_def)
qed

lemma builds_conseq: "builds A m P \<Longrightarrow> (\<And>x. P x \<Longrightarrow> Q x) \<Longrightarrow> builds A m Q"
  by (fastforce simp: builds_def tot_def)

lemma builds_conj:
  assumes "builds A m P" "builds A m Q"
  shows "builds A m (\<lambda>x. P x \<and> Q x)"
proof (rule buildsI)
  fix s
  assume s: "binv A s"
  show "\<exists>x s'. m s = Inr (x, s') \<and> binv A s' \<and> same_syms s s' \<and> P x \<and> Q x"
    by (rule buildsE[OF assms(1) s], rule buildsE[OF assms(2) s]) auto
qed

lemma builds_check [intro]:
  "expr_size a = expr_size b \<Longrightarrow> P () \<Longrightarrow> builds A (check_size_or_fail op a b) P"
  by (auto simp: check_size_or_fail_def)

lemma builds_liftr: "r = Inr x \<Longrightarrow> P x \<Longrightarrow> builds A (liftr r) P"
  by auto

lemma builds_liftr_bnd: "r = Inr x \<Longrightarrow> builds A (f x) Q \<Longrightarrow> builds A (bnd (liftr r) f) Q"
  by simp

lemma bucket_ok_syms:
  "bucket_ok A s h ws \<Longrightarrow> unat (m_sym_ids s) \<le> unat (m_sym_ids s') \<Longrightarrow> bucket_ok A s' h ws"
  by (fastforce simp: bucket_ok_def entry_ok_def list_all_iff)

lemma binv_put_bucket:
  assumes "binv A s" "bucket_ok A s h ws"
  shows "binv A (s\<lparr>m_exprs := (m_exprs s)(h \<mapsto> ws)\<rparr>)"
  using assms bucket_ok_syms[of A s _ _ "s\<lparr>m_exprs := (m_exprs s)(h \<mapsto> ws)\<rparr>"]
  by (auto simp: binv_def symbols_ok_def)

text \<open>The node a well-formed request gets is the node itself, as a tree.\<close>

lemma get_or_create_builds:
  assumes "wf_expr e" "kind e \<noteq> K_SYM" "P e"
  shows "builds A (get_or_create A e) P"
proof (rule buildsI)
  fix s
  assume inv: "binv A s"
  obtain h where h: "expr_hash A e = Inr h" using expr_hash_total[OF assms(1)] by blast
  have ok: "entry_ok A s h e" using assms(1,2) h by (auto simp: entry_ok_def)
  show "\<exists>x s'. get_or_create A e s = Inr (x, s') \<and> binv A s' \<and> same_syms s s' \<and> P x"
  proof (cases "m_exprs s h")
    case None
    have "bucket_ok A s h [Some e]" using ok by (simp add: bucket_ok_def)
    with None h assms inv show ?thesis
      by (auto simp: get_or_create_def Let_def clone_wf same_syms_def intro!: binv_put_bucket)
  next
    case (Some ws)
    with inv have b: "bucket_ok A s h ws" by (auto simp: binv_def)
    then have p: "bucket_ok A s h (purge ws)" by (simp add: bucket_ok_def)
    have "find_eq A e (purge ws) = Inr None \<and> (kind e = K_FP_CONST \<or> e \<notin> set (live (purge ws)))
      \<or> find_eq A e (purge ws) = Inr (Some e) \<and> e \<in> set (live (purge ws))"
      using assms(1,2) p h
      by (intro find_eq_spec) (auto simp: purge_def bucket_ok_def entry_ok_def list_all_iff)
    then show ?thesis
    proof
      assume f: "find_eq A e (purge ws) = Inr None \<and> (kind e = K_FP_CONST \<or> e \<notin> set (live (purge ws)))"
      then have "bucket_ok A s h (purge ws @ [Some e])" using p ok by (auto simp: bucket_ok_def)
      with f Some h assms inv show ?thesis
        by (auto simp: get_or_create_def Let_def clone_wf same_syms_def intro!: binv_put_bucket)
    next
      assume "find_eq A e (purge ws) = Inr (Some e) \<and> e \<in> set (live (purge ws))"
      with p Some h assms inv show ?thesis
        by (auto simp: get_or_create_def Let_def same_syms_def intro!: binv_put_bucket)
    qed
  qed
qed

lemma find_eq_mem: "find_eq A e ws = Inr (Some r) \<Longrightarrow> Some r \<in> set ws"
  by (induction A e ws rule: find_eq.induct) (auto simp: rbind_def split: sum.splits if_splits)

lemma goc_stored:
  assumes "expr_hash A e = Inr h" "clone A e = e" "get_or_create A e s = Inr (e, s')"
  shows "\<exists>ws. m_exprs s' h = Some ws \<and> e \<in> set (live ws)"
proof (cases "m_exprs s h")
  case None
  with assms show ?thesis by (auto simp: get_or_create_def Let_def)
next
  case (Some ws)
  with assms show ?thesis
    by (auto simp: get_or_create_def Let_def split: sum.splits option.splits dest!: find_eq_mem simp: set_live)
qed

lemma mk_const_builds:
  assumes "bv_rep n v c" "\<And>k. bv_rep n v k \<Longrightarrow> BVConst_copy k = k \<Longrightarrow> P (ConstExpr k)"
  shows "builds A (mk_const A c) P"
proof -
  let ?k = "BVConst_copy c"
  have k: "bv_rep n v ?k" using assms(1) by (rule BVConst_copy_rep)
  have "BVConst_copy ?k = ?k" by (simp add: BVConst_copy_def)
  with k assms(2) show ?thesis
    unfolding mk_const_def by (intro get_or_create_builds) (auto simp: bv_rep_def)
qed

lemma mk_const_of_builds:
  assumes "bv_yields n v m" "\<And>k. bv_rep n v k \<Longrightarrow> BVConst_copy k = k \<Longrightarrow> P (ConstExpr k)"
  shows "builds A (mk_const_of A m) P"
proof -
  obtain c where "m = Inr c" "bv_rep n v c" using assms(1) by (rule bv_yieldsE)
  with assms(2) show ?thesis
    unfolding mk_const_of_def by (auto intro!: mk_const_builds[of n v])
qed

lemma binv_consts: "binv A s \<Longrightarrow> consts_ok cs \<Longrightarrow> binv A (s\<lparr>m_consts := cs\<rparr>)"
  using bucket_ok_syms[of A s _ _ "s\<lparr>m_consts := cs\<rparr>"] by (auto simp: binv_def symbols_ok_def)

lemma BVConst_u64_canonical: "BVConst_u64 v n = Inr c \<Longrightarrow> BVConst_copy c = c"
  by (auto simp: BVConst_u64_def adjust_bits_def BVConst_copy_def is_big_def small_val_def Let_def
      rbind_Inr_iff split: if_splits)

lemma mk_const_u64_builds:
  assumes "0 < n" "\<And>k. bv_rep n (take_bit n (uint v)) k \<Longrightarrow> BVConst_copy k = k \<Longrightarrow> P (ConstExpr k)"
  shows "builds A (mk_const_u64 A v n) P"
proof (rule buildsI)
  fix s
  assume inv: "binv A s"
  show "\<exists>x s'. mk_const_u64 A v n s = Inr (x, s') \<and> binv A s' \<and> same_syms s s' \<and> P x"
  proof (cases "map_of (m_consts s) (v, n)")
    case (Some c)
    then have "((v, n), c) \<in> set (m_consts s)" by (rule map_of_SomeD)
    with inv obtain k where "c = ConstExpr k" "wf_expr c" "bv_rep n (take_bit n (uint v)) k"
      unfolding binv_def consts_ok_def by blast
    with Some inv assms(2) show ?thesis by (auto simp: mk_const_u64_def const_cache_def)
  next
    case None
    let ?s1 = "if length (m_consts s) > 100000 then s\<lparr>m_consts := []\<rparr> else s"
    have inv1: "binv A ?s1" using inv binv_consts[of A s "[]"] by (auto simp: consts_ok_def)
    have sy1: "same_syms s ?s1" by (simp add: same_syms_def)
    obtain k where k: "BVConst_u64 v n = Inr k" "bv_rep n (take_bit n (uint v)) k"
      using BVConst_u64_yields[OF assms(1)] by (rule bv_yieldsE)
    have "builds A (get_or_create A (ConstExpr k)) (\<lambda>r. r = ConstExpr k)"
      using k BVConst_u64_canonical by (intro get_or_create_builds) (auto simp: bv_rep_def)
    then obtain s2 where s2: "get_or_create A (ConstExpr k) ?s1 = Inr (ConstExpr k, s2)" "binv A s2"
      "same_syms ?s1 s2" using inv1 by (rule buildsE) blast
    let ?s3 = "s2\<lparr>m_consts := ((v, n), ConstExpr k) # m_consts s2\<rparr>"
    have "consts_ok (((v, n), ConstExpr k) # m_consts s2)"
      using s2(2) k BVConst_u64_canonical[OF k(1)] by (auto simp: binv_def consts_ok_def bv_rep_def)
    with s2(2) have "binv A ?s3" by (rule binv_consts)
    moreover have "same_syms s ?s3" using same_syms_trans[OF sy1 s2(3)] by (simp add: same_syms_def)
    moreover have "mk_const_u64 A v n s = Inr (ConstExpr k, ?s3)"
      using None k s2(1) by (simp add: mk_const_u64_def const_cache_def Let_def bnd_def ret_apply)
    ultimately show ?thesis using assms(2) k BVConst_u64_canonical by blast
  qed
qed

section \<open>Symbols\<close>

lemma mk_sym_known:
  "m_symbols s name = Some (SymExpr i n) \<Longrightarrow> mk_sym A name n s = Inr (SymExpr i n, s)"
  by (simp add: mk_sym_def)

lemma mk_sym_other_size:
  "m_symbols s name = Some (SymExpr i n) \<Longrightarrow> n \<noteq> m \<Longrightarrow> mk_sym A name m s = Inl (Exit ''mk_sym'')"
  by (simp add: mk_sym_def)

lemma symbols_okD:
  "symbols_ok s \<Longrightarrow> m_symbols s x = Some e \<Longrightarrow>
    \<exists>i n. e = SymExpr i n \<and> 0 < n \<and> i < unat (m_sym_ids s) \<and> m_sym_id_to_name s i = Some x"
  "symbols_ok s \<Longrightarrow> m_sym_id_to_name s i = Some x \<Longrightarrow> \<exists>n. m_symbols s x = Some (SymExpr i n)"
  unfolding symbols_ok_def by blast+

lemma symbols_okI:
  assumes "\<And>x e. m_symbols s x = Some e \<Longrightarrow>
      \<exists>i n. e = SymExpr i n \<and> 0 < n \<and> i < unat (m_sym_ids s) \<and> m_sym_id_to_name s i = Some x"
    and "\<And>i x. m_sym_id_to_name s i = Some x \<Longrightarrow> \<exists>n. m_symbols s x = Some (SymExpr i n)"
  shows "symbols_ok s"
  unfolding symbols_ok_def using assms by blast

lemma symbols_ok_add:
  assumes "symbols_ok s" "m_symbols s name = None" "i < unat (m_sym_ids s)" "0 < n"
    and "m_sym_id_to_name s i = None"
  shows "symbols_ok (s\<lparr>m_symbols := (m_symbols s)(name \<mapsto> SymExpr i n),
    m_sym_id_to_name := (m_sym_id_to_name s)(i \<mapsto> name)\<rparr>)"
    (is "symbols_ok ?s")
proof (rule symbols_okI)
  fix x e
  assume x: "m_symbols ?s x = Some e"
  show "\<exists>j k. e = SymExpr j k \<and> 0 < k \<and> j < unat (m_sym_ids ?s) \<and> m_sym_id_to_name ?s j = Some x"
  proof (cases "x = name")
    case True
    with x have "e = SymExpr i n" by simp
    with True assms(3,4) show ?thesis by (intro exI[of _ i] exI[of _ n]) simp
  next
    case False
    with x have "m_symbols s x = Some e" by simp
    from symbols_okD(1)[OF assms(1) this] obtain j k where "e = SymExpr j k" "0 < k"
      "j < unat (m_sym_ids s)" "m_sym_id_to_name s j = Some x" by blast
    with assms(5) show ?thesis by auto
  qed
next
  fix j x
  assume j: "m_sym_id_to_name ?s j = Some x"
  show "\<exists>k. m_symbols ?s x = Some (SymExpr j k)"
  proof (cases "j = i")
    case True
    with j show ?thesis by simp
  next
    case False
    with j have "m_sym_id_to_name s j = Some x" by simp
    from symbols_okD(2)[OF assms(1) this] obtain k where "m_symbols s x = Some (SymExpr j k)" by blast
    with assms(2) show ?thesis by auto
  qed
qed

lemma binv_add_sym:
  assumes "binv A s" "m_symbols s name = None" "i < unat (m_sym_ids s)" "0 < n"
    and "m_sym_id_to_name s i = None"
  shows "binv A (s\<lparr>m_symbols := (m_symbols s)(name \<mapsto> SymExpr i n),
    m_sym_id_to_name := (m_sym_id_to_name s)(i \<mapsto> name)\<rparr>)"
    (is "binv A ?s")
proof -
  have "symbols_ok s" using assms(1) by (simp add: binv_def)
  then have "symbols_ok ?s" using assms(2-5) by (rule symbols_ok_add)
  moreover have "bucket_ok A ?s h ws" if "m_exprs s h = Some ws" for h ws
    using assms(1) that bucket_ok_syms[of A s h ws ?s] by (simp add: binv_def)
  ultimately show ?thesis using assms(1) by (simp add: binv_def)
qed

lemma symbols_ok_bound: "symbols_ok s \<Longrightarrow> m_sym_id_to_name s i = Some name \<Longrightarrow> i < unat (m_sym_ids s)"
proof -
  assume ok: "symbols_ok s" and "m_sym_id_to_name s i = Some name"
  then obtain n where "m_symbols s name = Some (SymExpr i n)" using symbols_okD(2) by blast
  from symbols_okD(1)[OF ok this] show ?thesis by auto
qed

lemma mk_sym_fresh:
  assumes inv: "binv A s" and new: "m_symbols s name = None" and n: "0 < n"
    and ids: "unat (m_sym_ids s) < 2 ^ 32 - 1"
  shows "\<exists>s'. mk_sym A name n s = Inr (SymExpr (unat (m_sym_ids s)) n, s') \<and> binv A s' \<and>
    m_symbols s' = (m_symbols s)(name \<mapsto> SymExpr (unat (m_sym_ids s)) n) \<and>
    m_sym_id_to_name s' = (m_sym_id_to_name s)(unat (m_sym_ids s) \<mapsto> name) \<and>
    m_sym_ids s' = m_sym_ids s + 1"
proof -
  let ?i = "unat (m_sym_ids s)" and ?s1 = "s\<lparr>m_sym_ids := m_sym_ids s + 1\<rparr>"
  let ?e = "SymExpr ?i n"
  have suc: "unat (m_sym_ids s + 1) = Suc ?i"
    using ids by (simp add: unat_word_ariths(1))
  have none: "m_sym_id_to_name s ?i = None"
    using inv symbols_ok_bound[of s ?i] unfolding binv_def by (cases "m_sym_id_to_name s ?i") auto
  have "symbols_ok ?s1"
  proof (rule symbols_okI)
    fix x e
    assume "m_symbols ?s1 x = Some e"
    with inv symbols_okD(1)[of s x e]
    show "\<exists>j k. e = SymExpr j k \<and> 0 < k \<and> j < unat (m_sym_ids ?s1) \<and> m_sym_id_to_name ?s1 j = Some x"
      unfolding binv_def by (auto simp: suc)
  next
    fix j x
    assume "m_sym_id_to_name ?s1 j = Some x"
    with inv symbols_okD(2)[of s j x] show "\<exists>k. m_symbols ?s1 x = Some (SymExpr j k)"
      unfolding binv_def by simp
  qed
  then have inv1: "binv A ?s1"
    using inv suc bucket_ok_syms[of A s _ _ ?s1] by (auto simp: binv_def)
  have h: "expr_hash A ?e = Inr (SymExpr_hash A ?i n)" (is "_ = Inr ?h") by simp
  have ok: "entry_ok A ?s1 ?h ?e" using n suc by (simp add: entry_ok_def)
  have "\<exists>ws. get_or_create A ?e ?s1 = Inr (?e, ?s1\<lparr>m_exprs := (m_exprs s)(?h \<mapsto> ws)\<rparr>) \<and> bucket_ok A ?s1 ?h ws"
  proof (cases "m_exprs s ?h")
    case None
    then have "get_or_create A ?e ?s1 = Inr (?e, ?s1\<lparr>m_exprs := (m_exprs s)(?h \<mapsto> [Some ?e])\<rparr>)"
      by (simp add: get_or_create_def Let_def clone_def)
    moreover have "bucket_ok A ?s1 ?h [Some ?e]" using ok by (simp add: bucket_ok_def)
    ultimately show ?thesis by blast
  next
    case (Some ws)
    with inv have b0: "bucket_ok A s ?h ws" by (auto simp: binv_def)
    then have b1: "bucket_ok A ?s1 ?h ws" by (rule bucket_ok_syms) (simp add: suc)
    have old: "r \<in> set (live ws) \<Longrightarrow> r = SymExpr j m \<Longrightarrow> j \<noteq> ?i" for r j m
      using b0 by (auto simp: bucket_ok_def entry_ok_def list_all_iff)
    have "find_eq A ?e (purge ws) = Inr None"
      by (rule find_eq_sym) (use old in \<open>auto simp: purge_def[of ws, symmetric], auto simp: purge_def\<close>)
    with Some have "get_or_create A ?e ?s1 = Inr (?e, ?s1\<lparr>m_exprs := (m_exprs s)(?h \<mapsto> purge ws @ [Some ?e])\<rparr>)"
      by (simp add: get_or_create_def Let_def clone_def)
    moreover have "?e \<notin> set (live ws)" using old by blast
    then have "bucket_ok A ?s1 ?h (purge ws @ [Some ?e])" using b1 ok by (auto simp: bucket_ok_def)
    ultimately show ?thesis by blast
  qed
  then obtain ws where g: "get_or_create A ?e ?s1 = Inr (?e, ?s1\<lparr>m_exprs := (m_exprs s)(?h \<mapsto> ws)\<rparr>)"
    and b: "bucket_ok A ?s1 ?h ws" by blast
  let ?s2 = "?s1\<lparr>m_exprs := (m_exprs s)(?h \<mapsto> ws)\<rparr>"
  have inv2: "binv A ?s2" using binv_put_bucket[OF inv1 b] by simp
  have "binv A (?s2\<lparr>m_symbols := (m_symbols ?s2)(name \<mapsto> ?e),
      m_sym_id_to_name := (m_sym_id_to_name ?s2)(?i \<mapsto> name)\<rparr>)"
    using new n none suc by (intro binv_add_sym inv2) simp_all
  with g new show ?thesis by (simp add: mk_sym_def Let_def bnd_def)
qed

end
