(* ===== verification/ExprBuilder_Spec.thy ===== *)
theory ExprBuilder_Spec
  imports ExprIntern
begin

unbundle bit_operations_syntax

text \<open>
  The structural functions of the builder keep the meaning: constants, extraction, extension and
  if-then-else.
\<close>

section \<open>Results\<close>

text \<open>A node of a given width and meaning, and a Boolean node of a given meaning.\<close>

definition denotes :: "amb \<Rightarrow> nat \<Rightarrow> ((nat \<Rightarrow> int) \<Rightarrow> int) \<Rightarrow> expr \<Rightarrow> bool" where
  "denotes A n v r \<longleftrightarrow> wf_expr r \<and> is_bv r \<and> expr_size r = n \<and> (\<forall>\<rho>. sem (fpl A) \<rho> r = v \<rho>)"

definition asserts :: "amb \<Rightarrow> ((nat \<Rightarrow> int) \<Rightarrow> bool) \<Rightarrow> expr \<Rightarrow> bool" where
  "asserts A v r \<longleftrightarrow> wf_expr r \<and> is_bool r \<and> (\<forall>\<rho>. sem (fpl A) \<rho> r = of_bool (v \<rho>))"

text \<open>An operand of width \<open>n\<close>.\<close>

definition operand :: "nat \<Rightarrow> expr \<Rightarrow> bool" where
  "operand n e \<longleftrightarrow> wf_expr e \<and> is_bv e \<and> expr_size e = n"

lemma operandD: "operand n e \<Longrightarrow> wf_expr e" "operand n e \<Longrightarrow> is_bv e" "operand n e \<Longrightarrow> expr_size e = n"
  "operand n e \<Longrightarrow> 0 < n"
  using wf_size_pos by (auto simp: operand_def)

lemma operand_self: "operand n e \<Longrightarrow> denotes A n (\<lambda>\<rho>. sem (fpl A) \<rho> e) e"
  by (simp add: denotes_def operand_def)

lemma denotes_operand: "denotes A n v r \<Longrightarrow> operand n r"
  by (simp add: denotes_def operand_def)

lemma denotes_sem: "denotes A n v r \<Longrightarrow> sem (fpl A) \<rho> r = v \<rho>"
  by (simp add: denotes_def)

lemma operand_take_bit: "operand n e \<Longrightarrow> take_bit n (sem F \<rho> e) = sem F \<rho> e"
  by (auto simp: operand_def)

lemma operand_range: "operand n e \<Longrightarrow> 0 \<le> sem F \<rho> e \<and> sem F \<rho> e < 2 ^ n"
  using sem_bv_range[of e F \<rho>] by (auto simp: operand_def in_range_iff)

lemma operand_const: "operand n (ConstExpr c) \<Longrightarrow> bv_rep n (bv_val c) c \<and> BVConst_copy c = c"
  using const_rep[of c] by (auto simp: operand_def)

lemma denotes_const:
  "bv_rep n v k \<Longrightarrow> BVConst_copy k = k \<Longrightarrow> (\<And>\<rho>. w \<rho> = v) \<Longrightarrow> denotes A n w (ConstExpr k)"
  by (auto simp: denotes_def bv_rep_def)

text \<open>The node of a result, built by \<open>get_or_create\<close>.\<close>

lemma goc_denotes:
  "wf_expr e \<Longrightarrow> is_bv e \<Longrightarrow> kind e \<noteq> K_SYM \<Longrightarrow> expr_size e = n \<Longrightarrow> (\<And>\<rho>. sem (fpl A) \<rho> e = v \<rho>) \<Longrightarrow>
   builds A (get_or_create A e) (denotes A n v)"
  by (rule get_or_create_builds) (simp_all add: denotes_def)

lemma goc_asserts:
  "wf_expr e \<Longrightarrow> is_bool e \<Longrightarrow> (\<And>\<rho>. sem (fpl A) \<rho> e = of_bool (v \<rho>)) \<Longrightarrow>
   builds A (get_or_create A e) (asserts A v)"
  by (rule get_or_create_builds) (auto simp: asserts_def is_bool_def)

lemma const_denotes:
  "bv_yields n v m \<Longrightarrow> (\<And>\<rho>. w \<rho> = v) \<Longrightarrow> builds A (mk_const_of A m) (denotes A n w)"
  by (rule mk_const_of_builds) (auto intro: denotes_const)

lemma const_u64_denotes:
  "0 < n \<Longrightarrow> (\<And>\<rho>. w \<rho> = take_bit n (uint v)) \<Longrightarrow> builds A (mk_const_u64 A v n) (denotes A n w)"
  by (rule mk_const_u64_builds) (auto intro: denotes_const)

lemma const_ones_denotes:
  "0 < n \<Longrightarrow> (\<And>\<rho>. w \<rho> = mask n) \<Longrightarrow> builds A (mk_const_of A (BVConst_str ''-1'' n)) (denotes A n w)"
  using BVConst_all_ones by (intro const_denotes) (auto simp: take_bit_minus_one_eq_mask)

lemma ret_denotes: "denotes A n v r \<Longrightarrow> builds A (ret r) (denotes A n v)"
  by (rule builds_ret)

lemma mk_bool_asserts: "(\<And>\<rho>. v \<rho> = b) \<Longrightarrow> builds A (mk_bool b) (asserts A v)"
  by (auto simp: mk_bool_def mk_true_def mk_false_def asserts_def)

lemma denotes_cong: "builds A m (denotes A n v) \<Longrightarrow> (\<And>\<rho>. v \<rho> = w \<rho>) \<Longrightarrow> builds A m (denotes A n w)"
  using builds_conseq[of A m "denotes A n v" "denotes A n w"] by (simp add: denotes_def)

section \<open>Constants below a node\<close>

lemma dest_const_Some [simp]: "dest_const e = Some c \<longleftrightarrow> e = ConstExpr c"
  by (auto simp: dest_const_def split: expr.splits)

lemma dest_const_ConstExpr [simp]: "dest_const (ConstExpr c) = Some c"
  by simp

lemma dest_const_kind: "dest_const e = None \<longleftrightarrow> kind e \<noteq> K_CONST"
  by (auto simp: dest_const_def split: expr.splits)

lemma case_dest_const [case_names Const NonConst]:
  assumes "\<And>c. e = ConstExpr c \<Longrightarrow> P" "dest_const e = None \<Longrightarrow> P"
  shows P
  using assms by (cases "dest_const e") auto

section \<open>Extension\<close>

lemma mk_zext_denotes:
  assumes "operand n e" "n \<le> m"
  shows "builds A (mk_zext A e m) (denotes A m (\<lambda>\<rho>. sem (fpl A) \<rho> e))"
proof (cases "m = n")
  case True
  with assms show ?thesis by (auto simp: mk_zext_def operandD intro!: ret_denotes operand_self)
next
  case False
  with assms have nm: "n < m" "expr_size e = n" by (auto simp: operandD)
  consider (const) c where "e = ConstExpr c" | (zext) e' k where "e = ZextExpr e' k"
    | (other) "kind e \<notin> {K_CONST, K_ZEXT}"
    by (cases e) auto
  then show ?thesis
  proof cases
    case const
    with assms have c: "bv_rep n (bv_val c) c" "BVConst_copy c = c" using operand_const by auto
    with const nm show ?thesis
      by (auto simp: mk_zext_def bv_rep_size intro!: const_denotes[OF bv_zext_yields])
  next
    case zext
    with assms nm show ?thesis
      by (auto simp: mk_zext_def operand_def intro!: goc_denotes)
  next
    case other
    with nm have "mk_zext A e m = get_or_create A (ZextExpr e m)"
      by (cases e) (simp_all add: mk_zext_def)
    with other assms nm show ?thesis
      by (auto simp: operand_def intro!: goc_denotes)
  qed
qed

lemma sval_sext:
  assumes "0 < n" "n < k"
  shows "sval k (take_bit k (sval n x)) = sval n x"
proof (rule bit_eqI)
  fix i
  show "bit (sval k (take_bit k (sval n x))) i \<longleftrightarrow> bit (sval n x) i"
    using assms by (auto simp: sval_def bit_simps min_def)
qed

lemma mk_sext_denotes:
  assumes "operand n e" "n \<le> m"
  shows "builds A (mk_sext A e m) (denotes A m (\<lambda>\<rho>. take_bit m (sval n (sem (fpl A) \<rho> e))))"
proof (cases "m = n")
  case True
  with assms operandD(4)[OF assms(1)] show ?thesis
    by (auto simp: mk_sext_def operandD operand_take_bit intro!: ret_denotes denotes_cong[OF ret_denotes[OF operand_self[OF assms(1)]]])
next
  case False
  with assms have nm: "n < m" "expr_size e = n" by (auto simp: operandD)
  consider (const) c where "e = ConstExpr c" | (sext) e' k where "e = SextExpr e' k"
    | (other) "kind e \<notin> {K_CONST, K_SEXT}"
    by (cases e) auto
  then show ?thesis
  proof cases
    case const
    with assms have c: "bv_rep n (bv_val c) c" "BVConst_copy c = c" using operand_const by auto
    with const nm show ?thesis
      by (auto simp: mk_sext_def bv_rep_size intro!: const_denotes[OF bv_sext_yields])
  next
    case sext
    with assms nm have "0 < expr_size e'" "expr_size e' < n" "k = n"
      using wf_size_pos by (auto simp: operand_def)
    with sext assms nm show ?thesis
      by (auto simp: mk_sext_def operand_def sval_sext intro!: goc_denotes)
  next
    case other
    with nm have "mk_sext A e m = get_or_create A (SextExpr e m)"
      by (cases e) (simp_all add: mk_sext_def)
    with other assms nm show ?thesis
      by (auto simp: operand_def intro!: goc_denotes)
  qed
qed

section \<open>If-then-else\<close>

lemma mk_ite_denotes:
  assumes "wf_expr g" "is_bool g" "operand n t" "operand n f"
  shows "builds A (mk_ite A g t f)
    (denotes A n (\<lambda>\<rho>. if sem (fpl A) \<rho> g \<noteq> 0 then sem (fpl A) \<rho> t else sem (fpl A) \<rho> f))"
proof (cases "\<exists>b. g = BoolConst b")
  case True
  with assms show ?thesis
    by (auto simp: mk_ite_def operandD intro!: builds_bnd[OF builds_check] ret_denotes operand_self)
next
  case False
  then have "mk_ite A g t f = bnd (check_size_or_fail ''ITE'' t f) (\<lambda>_. get_or_create A (ITEExpr g t f))"
    by (cases g) (simp_all add: mk_ite_def)
  with assms show ?thesis
    by (auto simp: operandD intro!: builds_bnd[OF builds_check] goc_denotes)
qed

end
