(* ===== verification/ExtractSpec.thy ===== *)
theory ExtractSpec
  imports ExprBuilder_Spec
begin

unbundle bit_operations_syntax

text \<open>
  Extraction. \<^verbatim>\<open>mk_extract\<close> keeps the meaning except when it reaches a zero extension whose operand ends
  between \<open>low\<close> and \<open>high\<close>: then it asks the operand for bits it does not have.
\<close>

text \<open>All bits are asked for, or no zero extension is met whose operand ends strictly between the bits asked for.\<close>

fun extract_ok :: "expr \<Rightarrow> nat \<Rightarrow> nat \<Rightarrow> bool" where
  "extract_ok e high low = (low = 0 \<and> high = expr_size e - 1 \<or> (case e of
     ZextExpr e' n \<Rightarrow> low \<ge> expr_size e' \<or> (high < expr_size e' \<and> extract_ok e' high low)
   | ConcatExpr es \<Rightarrow> (case concat_part es (expr_size e) high low of
        Some (c, off) \<Rightarrow> extract_ok c (high - off) (low - off) | None \<Rightarrow> True)
   | _ \<Rightarrow> True))"

declare extract_ok.simps [simp del]

lemma extract_ok_simps [simp]:
  "extract_ok (ZextExpr e' n) high low \<longleftrightarrow> low = 0 \<and> high = n - 1 \<or>
     low \<ge> expr_size e' \<or> (high < expr_size e' \<and> extract_ok e' high low)"
  "extract_ok (ConcatExpr es) high low \<longleftrightarrow> low = 0 \<and> high = expr_size (ConcatExpr es) - 1 \<or>
     (case concat_part es (expr_size (ConcatExpr es)) high low of
        Some (c, off) \<Rightarrow> extract_ok c (high - off) (low - off) | None \<Rightarrow> True)"
  by (subst extract_ok.simps, simp)+

lemma extract_ok_other: "kind e \<notin> {K_ZEXT, K_CONCAT} \<Longrightarrow> extract_ok e high low"
  by (cases e) (simp_all add: extract_ok.simps)

text \<open>A single bit never lies across the end of an operand.\<close>

lemma extract_ok_eq: "high = low \<Longrightarrow> extract_ok e high low"
proof (induction e high low rule: extract_ok.induct)
  case (1 e high low)
  show ?case
  proof (cases "kind e \<in> {K_ZEXT, K_CONCAT}")
    case False
    then show ?thesis by (rule extract_ok_other)
  next
    case True
    with 1 show ?thesis
      by (cases e) (auto split: option.splits)
  qed
qed

lemma extract_ok_bit: "extract_ok e i i"
  by (rule extract_ok_eq) (rule refl)

section \<open>Extraction from a concatenation\<close>

abbreviation sized :: "fp_lib \<Rightarrow> (nat \<Rightarrow> int) \<Rightarrow> expr list \<Rightarrow> (nat \<times> int) list" where
  "sized F \<rho> es \<equiv> map (\<lambda>e. (expr_size e, sem F \<rho> e)) es"

lemma widths_sized: "widths (sized F \<rho> es) = sum_list (map expr_size es)"
  by (simp add: widths_def comp_def)

lemma sized_range:
  "\<forall>e\<in>set es. wf_expr e \<and> is_bv e \<Longrightarrow> in_range (sum_list (map expr_size es)) (concat_val (sized F \<rho> es))"
  using in_range_concat[of "sized F \<rho> es"] sem_bv_range by (auto simp: widths_sized)

lemma concat_part_bound:
  "concat_part es (sum_list (map expr_size es)) high low = Some (c, off) \<Longrightarrow>
   off + expr_size c \<le> sum_list (map expr_size es)"
  by (induction es) (auto simp: Let_def split: if_splits)

lemma concat_part_spec:
  assumes "concat_part es (sum_list (map expr_size es)) high low = Some (c, off)"
    and "\<forall>e\<in>set es. wf_expr e \<and> is_bv e" "low \<le> high"
  shows "c \<in> set es \<and> off \<le> low \<and> high < off + expr_size c \<and>
    (\<forall>F \<rho> i. off \<le> i \<longrightarrow> i < off + expr_size c \<longrightarrow>
       bit (concat_val (sized F \<rho> es)) i = bit (sem F \<rho> c) (i - off))"
  using assms
proof (induction es)
  case (Cons e es)
  let ?w = "sum_list (map expr_size es)"
  have pos: "0 < expr_size e" using Cons.prems(2) wf_size_pos by simp
  have bits: "bit (concat_val (sized F \<rho> (e # es))) i \<longleftrightarrow>
      (if i < ?w then bit (concat_val (sized F \<rho> es)) i else bit (sem F \<rho> e) (i - ?w))" for F \<rho> i
    using sized_range[of es F \<rho>] Cons.prems(2)
    by (auto simp: bit_simps widths_sized in_range_bit)
  show ?case
  proof (cases "expr_size e + ?w - 1 \<ge> high \<and> low \<ge> ?w")
    case True
    with Cons.prems(1) have "c = e" "off = ?w" by auto
    with True pos bits Cons.prems(3) show ?thesis by auto
  next
    case False
    with Cons.prems(1) have "concat_part es ?w high low = Some (c, off)" by (auto simp: Let_def)
    with Cons.IH Cons.prems(2,3) have IH: "c \<in> set es \<and> off \<le> low \<and> high < off + expr_size c \<and>
      (\<forall>F \<rho> i. off \<le> i \<longrightarrow> i < off + expr_size c \<longrightarrow>
         bit (concat_val (sized F \<rho> es)) i = bit (sem F \<rho> c) (i - off))" by simp
    have "off + expr_size c \<le> ?w"
      using concat_part_bound[OF \<open>concat_part es ?w high low = Some (c, off)\<close>] by simp
    with IH bits show ?thesis by auto
  qed
qed simp

section \<open>Extraction\<close>

text \<open>The value of bits \<open>low\<close> to \<open>high\<close>.\<close>

definition bits_of :: "nat \<Rightarrow> nat \<Rightarrow> int \<Rightarrow> int" where
  "bits_of high low x = take_bit (high - low + 1) (drop_bit low x)"

lemma bit_bits_of: "bit (bits_of high low x) i \<longleftrightarrow> i < high - low + 1 \<and> bit x (low + i)"
  by (auto simp: bits_of_def bit_simps)

lemma bits_of_all: "in_range n x \<Longrightarrow> 0 < n \<Longrightarrow> bits_of (n - 1) 0 x = x"
  by (simp add: bits_of_def in_range_def)

lemma extract_denotes_ret:
  assumes "operand n e" "\<And>\<rho>. sem (fpl A) \<rho> e = v \<rho>"
  shows "builds A (ret e) (denotes A n v)"
  using assms by (auto simp: denotes_def operand_def)

lemma goc_extract:
  assumes "operand n e" "low \<le> high" "high < n" "kind e \<notin> {K_CONST, K_EXTRACT, K_ZEXT}"
  shows "builds A (get_or_create A (ExtractExpr e high low))
    (denotes A (high - low + 1) (\<lambda>\<rho>. bits_of high low (sem (fpl A) \<rho> e)))"
  using assms by (intro goc_denotes) (auto simp: operand_def bits_of_def)

lemma bits_of_high: "in_range n x \<Longrightarrow> n \<le> low \<Longrightarrow> bits_of high low x = 0"
  by (rule bit_eqI) (auto simp: bit_bits_of in_range_bit)

lemma bits_of_sext_high:
  assumes "0 < m" "m \<le> low" "low \<le> high" "high < n"
  shows "bits_of high low (take_bit n (sval m x)) = (if bit x (m - 1) then mask (high - low + 1) else 0)"
  by (rule bit_eqI) (use assms in \<open>auto simp: bit_bits_of bit_simps sval_def min_def\<close>)

lemma bits_of_sext_low:
  assumes "0 < m" "m < n" "in_range m x"
  shows "bits_of (m - 1) 0 (take_bit n (sval m x)) = x"
proof (rule bit_eqI)
  fix i
  have "i < m \<Longrightarrow> min (m - 1) i = i" by simp
  then show "bit (bits_of (m - 1) 0 (take_bit n (sval m x))) i \<longleftrightarrow> bit x i"
    using assms by (auto simp: bit_bits_of bit_simps sval_def in_range_bit)
qed

lemma bits_of_bits_of:
  assumes "high \<le> h - l" "low \<le> high"
  shows "bits_of high low (bits_of h l x) = bits_of (high + l) (low + l) x"
  by (rule bit_eqI) (use assms in \<open>auto simp: bit_bits_of add_ac\<close>)

text \<open>The sign bit of an operand is not zero exactly when the value is negative.\<close>

lemma sign_bit_value: "0 < m \<Longrightarrow> bits_of (m - 1) (m - 1) x = of_bool (bit x (m - 1))"
  by (rule bit_eqI) (auto simp: bit_bits_of bit_simps)

lemma mk_extract_other:
  assumes "\<not> (low = 0 \<and> high = expr_size e - 1)" "low \<le> high"
    "kind e \<notin> {K_CONST, K_EXTRACT, K_CONCAT, K_ZEXT, K_SEXT}"
  shows "mk_extract A e high low = get_or_create A (ExtractExpr e high low)"
  by (subst mk_extract.simps) (use assms in \<open>auto split: expr.split\<close>)

lemma mk_extract_denotes:
  assumes "operand n e" "low \<le> high" "high < n" "extract_ok e high low"
  shows "builds A (mk_extract A e high low)
    (denotes A (high - low + 1) (\<lambda>\<rho>. bits_of high low (sem (fpl A) \<rho> e)))"
  using assms
proof (induction A e high low arbitrary: n rule: mk_extract.induct)
  case (1 A e high low)
  have n: "expr_size e = n" "0 < n" "wf_expr e" "is_bv e" using operandD[OF "1.prems"(1)] by auto
  have rng: "in_range n (sem F \<rho> e)" for F \<rho> using sem_bv_range n by blast
  show ?case
  proof (cases "low = 0 \<and> high = expr_size e - 1")
    case True
    then have "mk_extract A e high low = ret e" by (auto simp: mk_extract.simps)
    moreover have "high - low + 1 = n" using True n by simp
    moreover have "sem (fpl A) \<rho> e = bits_of high low (sem (fpl A) \<rho> e)" for \<rho>
      using True n bits_of_all[OF rng] by simp
    ultimately show ?thesis using extract_denotes_ret[OF "1.prems"(1)] by simp
  next
    case part: False
    consider (const) c where "e = ConstExpr c" | (extr) b h l where "e = ExtractExpr b h l"
      | (concat) es where "e = ConcatExpr es" | (zext) b k where "e = ZextExpr b k"
      | (sext) b k where "e = SextExpr b k"
      | (other) "kind e \<notin> {K_CONST, K_EXTRACT, K_CONCAT, K_ZEXT, K_SEXT}"
      by (cases e) auto
    then show ?thesis
    proof cases
      case const
      with "1.prems"(1) have c: "bv_rep n (bv_val c) c" "BVConst_copy c = c" using operand_const by auto
      with const part "1.prems" show ?thesis
        using bv_extract_yields[OF c(1) "1.prems"(2,3)]
        by (auto simp: mk_extract.simps bits_of_def intro!: const_denotes)
    next
      case extr
      with n part "1.prems" show ?thesis
        by (auto simp: mk_extract.simps bits_of_bits_of bits_of_def[symmetric, simplified]
            intro!: builds_conseq[OF goc_extract[of "expr_size b" b]] simp: operand_def)
    next
      case other
      with part "1.prems"(2) have "mk_extract A e high low = get_or_create A (ExtractExpr e high low)"
        by (intro mk_extract_other) auto
      with goc_extract[OF "1.prems"(1-3)] other show ?thesis by simp
    next
      case concat
      then have es: "\<forall>c\<in>set es. wf_expr c \<and> is_bv c" "n = sum_list (map expr_size es)"
        using n by (auto simp: list_all_iff)
      show ?thesis
      proof (cases "concat_part es n high low")
        case None
        with concat part "1.prems" n have "mk_extract A e high low = get_or_create A (ExtractExpr e high low)"
          by (auto simp: mk_extract.simps)
        with concat "1.prems" show ?thesis using goc_extract[OF "1.prems"(1-3)] by simp
      next
        case (Some x)
        then obtain c off where x: "concat_part es n high low = Some (c, off)" by (cases x) auto
        note sp = concat_part_spec[OF x[unfolded es(2)] es(1) "1.prems"(2)]
        have eq: "mk_extract A e high low = mk_extract A c (high - off) (low - off)"
          using concat part "1.prems" n x by (auto simp: mk_extract.simps)
        have "builds A (mk_extract A c (high - off) (low - off)) (denotes A (high - off - (low - off) + 1)
          (\<lambda>\<rho>. bits_of (high - off) (low - off) (sem (fpl A) \<rho> c)))"
          using concat part "1.prems" n x sp es(1)
          by (intro "1.IH"(1)[of es "(c, off)" c off "expr_size c"]) (auto simp: operand_def)
        moreover have "high - off - (low - off) + 1 = high - low + 1" using sp by auto
        moreover have "bits_of (high - off) (low - off) (sem F \<rho> c) = bits_of high low (sem F \<rho> e)" for F \<rho>
        proof (rule bit_eqI)
          fix i
          have off: "off \<le> low" "high < off + expr_size c" using sp by auto
          have "i < high - low + 1 \<Longrightarrow> bit (sem F \<rho> e) (low + i) = bit (sem F \<rho> c) (low + i - off)"
            using sp "1.prems"(2) unfolding concat by (simp only: sem.simps) (auto dest: spec[of _ "low + i"])
          with off "1.prems"(2) show "bit (bits_of (high - off) (low - off) (sem F \<rho> c)) i
              \<longleftrightarrow> bit (bits_of high low (sem F \<rho> e)) i"
            by (auto simp: bit_bits_of)
        qed
        ultimately show ?thesis unfolding eq by simp
      qed
    next
      case zext
      then have b: "operand (expr_size b) b" "expr_size b < n" "k = n" using n by (auto simp: operand_def)
      have rb: "in_range (expr_size b) (sem F \<rho> b)" for F \<rho> using b sem_bv_range by (auto simp: operand_def)
      consider (all) "low = 0" "high = expr_size b - 1" | (high) "low \<ge> expr_size b"
        | (low) "\<not> (low = 0 \<and> high = expr_size b - 1)" "\<not> low \<ge> expr_size b" "high < expr_size b"
        using "1.prems"(4) zext part by auto
      then show ?thesis
      proof cases
        case all
        then have "mk_extract A e high low = ret b" using zext part by (auto simp: mk_extract.simps)
        moreover have "high - low + 1 = expr_size b" using all operandD(4)[OF b(1)] by simp
        ultimately show ?thesis
          using all zext b rb operandD(4)[OF b(1)] by (auto simp: bits_of_all[OF rb, unfolded One_nat_def] intro!: extract_denotes_ret)
      next
        case high
        with zext part "1.prems"(2) operandD(4)[OF b(1)] show ?thesis
          by (auto simp: mk_extract.simps bits_of_high[OF rb] intro!: const_u64_denotes)
      next
        case low
        have eq: "mk_extract A e high low
            = bnd (mk_extract A b high low) (\<lambda>r. mk_zext A r (high - low + 1))"
          using low zext part "1.prems" b by (auto simp: mk_extract.simps min_def)
        have "builds A (mk_extract A b high low) (denotes A (high - low + 1)
          (\<lambda>\<rho>. bits_of high low (sem (fpl A) \<rho> b)))"
        proof -
          have "min high (k - 1) = high" using "1.prems"(3) b by simp
          then show ?thesis
            using "1.IH"(2)[of b k "expr_size b"] low zext part "1.prems" b
            by (simp only: min.absorb1) auto
        qed
        then show ?thesis
          unfolding eq using zext
          by (elim builds_bnd)
            (auto intro!: denotes_cong[OF mk_zext_denotes[OF denotes_operand]] simp: denotes_sem)
      qed
    next
      case sext
      then have b: "operand (expr_size b) b" "expr_size b < n" "k = n" using n by (auto simp: operand_def)
      have rb: "in_range (expr_size b) (sem F \<rho> b)" for F \<rho> using b sem_bv_range by (auto simp: operand_def)
      have pb: "0 < expr_size b" using operandD(4)[OF b(1)] .
      consider (all) "low = 0" "high = expr_size b - 1"
        | (high) "low \<ge> expr_size b" "\<not> (low = 0 \<and> high = expr_size b - 1)"
        | (low) "\<not> (low = 0 \<and> high = expr_size b - 1)" "\<not> low \<ge> expr_size b"
        by blast
      then show ?thesis
      proof cases
        case all
        then have "mk_extract A e high low = ret b" using sext part by (auto simp: mk_extract.simps)
        moreover have "high - low + 1 = expr_size b" using all pb by simp
        ultimately show ?thesis
          using all sext b rb pb by (auto simp: bits_of_sext_low[unfolded One_nat_def] intro!: extract_denotes_ret)
      next
        case low
        with sext part "1.prems" have "mk_extract A e high low = get_or_create A (ExtractExpr e high low)"
          by (auto simp: mk_extract.simps)
        with sext "1.prems" show ?thesis using goc_extract[OF "1.prems"(1-3)] by simp
      next
        case high
        let ?i = "expr_size b - 1"
        have eq: "mk_extract A e high low = bnd (mk_extract A b ?i ?i) (\<lambda>sign. case dest_const sign of
                 Some c \<Rightarrow> bnd (liftr (bv_is_zero c)) (\<lambda>z.
                   if z then mk_const_u64 A 0 (high - low + 1)
                   else mk_const_of A (BVConst_str ''-1'' (high - low + 1)))
               | None \<Rightarrow> get_or_create A (ExtractExpr e high low))"
          using high sext part "1.prems" by (auto simp: mk_extract.simps)
        have "builds A (mk_extract A b ?i ?i) (denotes A (?i - ?i + 1)
          (\<lambda>\<rho>. bits_of ?i ?i (sem (fpl A) \<rho> b)))"
          using high sext part "1.prems"(2) pb b(1)
          by (intro "1.IH"(3)[of b k "expr_size b"]) (auto simp: extract_ok_bit)
        then show ?thesis
          unfolding eq
        proof (rule builds_bnd)
          fix sign
          assume sg: "denotes A (?i - ?i + 1) (\<lambda>\<rho>. bits_of ?i ?i (sem (fpl A) \<rho> b)) sign"
          then have op: "operand 1 sign" using denotes_operand by simp
          show "builds A (case dest_const sign of
                 Some c \<Rightarrow> bnd (liftr (bv_is_zero c)) (\<lambda>z.
                   if z then mk_const_u64 A 0 (high - low + 1)
                   else mk_const_of A (BVConst_str ''-1'' (high - low + 1)))
               | None \<Rightarrow> get_or_create A (ExtractExpr e high low))
             (denotes A (high - low + 1) (\<lambda>\<rho>. bits_of high low (sem (fpl A) \<rho> e)))"
          proof (cases sign rule: case_dest_const)
            case (Const c)
            have rep: "bv_rep 1 (bv_val c) c" using op Const operand_const by blast
            have v: "bv_val c = of_bool (bit (sem (fpl A) \<rho> b) ?i)" for \<rho>
              using denotes_sem[OF sg, of \<rho>] Const sign_bit_value[OF pb] by simp
            have vals: "bits_of high low (sem (fpl A) \<rho> e) = (if bv_val c = 0 then 0 else mask (high - low + 1))" for \<rho>
              using v[of \<rho>] sext b high "1.prems" pb
              by (simp add: bits_of_sext_high[unfolded One_nat_def])
            show ?thesis
              using Const rep vals
              by (auto simp: bv_is_zero_rep intro!: const_u64_denotes const_ones_denotes)
          next
            case NonConst
            with sext "1.prems" show ?thesis using goc_extract[OF "1.prems"(1-3)] by simp
          qed
        qed
      qed
    qed
  qed
qed

end
