(* ===== verification/NaryOps.thy ===== *)
theory NaryOps
  imports ExtractSpec ExprBuilderArith "HOL-Library.Multiset"
begin

unbundle bit_operations_syntax

text \<open>
  The operations with any number of operands: sum, product, bitwise and, or and exclusive or. A locale states what
  their builders rely on, an associative and commutative operation that commutes with truncation, and proves the
  constant propagation and the final checks once.
\<close>

definition operands :: "nat \<Rightarrow> expr list \<Rightarrow> bool" where
  "operands n es \<longleftrightarrow> (\<forall>e\<in>set es. operand n e)"

lemma operands_simps [simp]:
  "operands n []" "operands n (e # es) \<longleftrightarrow> operand n e \<and> operands n es"
  "operands n (es @ es') \<longleftrightarrow> operands n es \<and> operands n es'"
  by (auto simp: operands_def)

lemma operands_mono: "operands n es \<Longrightarrow> set es' \<subseteq> set es \<Longrightarrow> operands n es'"
  by (auto simp: operands_def)

lemma operands_hd: "operands n es \<Longrightarrow> es \<noteq> [] \<Longrightarrow> expr_size (hd es) = n"
  by (cases es) (simp_all add: operand_def)

lemma operands_same_width: "operands n es \<Longrightarrow> es \<noteq> [] \<Longrightarrow> same_width es \<and> (\<forall>e\<in>set es. wf_expr e)"
  using operands_hd[of n es] by (simp add: operands_def operand_def same_width_iff)

lemma same_width_operands:
  "same_width es \<Longrightarrow> \<forall>e\<in>set es. wf_expr e \<Longrightarrow> operands (expr_size (hd es)) es"
  unfolding operands_def operand_def same_width_iff by blast

text \<open>The value of a list of operands under an operation \<open>g\<close> with unit \<open>u\<close>.\<close>

definition fold_val :: "(int \<Rightarrow> int \<Rightarrow> int) \<Rightarrow> int \<Rightarrow> fp_lib \<Rightarrow> (nat \<Rightarrow> int) \<Rightarrow> expr list \<Rightarrow> int" where
  "fold_val g u F \<rho> es = foldr g (map (sem F \<rho>) es) u"

lemma fold_val_simps [simp]:
  "fold_val g u F \<rho> [] = u" "fold_val g u F \<rho> (e # es) = g (sem F \<rho> e) (fold_val g u F \<rho> es)"
  by (simp_all add: fold_val_def)

locale nary_op =
  fixes f :: "bvconst \<Rightarrow> bvconst \<Rightarrow> bvconst res"
    and g :: "int \<Rightarrow> int \<Rightarrow> int"
    and u :: int
    and node :: "expr list \<Rightarrow> expr"
  assumes assoc: "g (g x y) z = g x (g y z)"
    and comm: "g x y = g y x"
    and unit: "g u x = x"
    and trunc: "take_bit n (g (take_bit n x) y) = take_bit n (g x y)"
    and f_yields: "bv_rep n x a \<Longrightarrow> bv_rep n y b \<Longrightarrow> bv_yields n (take_bit n (g x y)) (f a b)"
    and node_wf: "same_width es \<Longrightarrow> \<forall>e\<in>set es. wf_expr e \<Longrightarrow> 2 \<le> length es \<Longrightarrow> wf_expr (node es)"
    and node_wfD: "wf_expr (node es) \<Longrightarrow> same_width es \<and> (\<forall>e\<in>set es. wf_expr e)"
    and node_bv: "is_bv (node es) \<and> kind (node es) \<noteq> K_SYM"
    and node_size: "es \<noteq> [] \<Longrightarrow> expr_size (node es) = expr_size (hd es)"
    and node_sem: "es \<noteq> [] \<Longrightarrow> sem F \<rho> (node es) = take_bit (expr_size (hd es)) (foldr g (map (sem F \<rho>) es) u)"
begin

lemma left_comm: "g x (g y z) = g y (g x z)"
  using assoc comm by metis

lemma trunc2: "take_bit n (g x (take_bit n y)) = take_bit n (g x y)"
  using trunc comm by metis

lemma fold_val_append: "fold_val g u F \<rho> (es @ es') = g (fold_val g u F \<rho> es) (fold_val g u F \<rho> es')"
  by (induction es) (simp_all add: unit assoc)

lemma fold_val_perm:
  assumes "mset es = mset es'"
  shows "fold_val g u F \<rho> es = fold_val g u F \<rho> es'"
proof -
  have "fold (\<lambda>e. g (sem F \<rho> e)) (rev es) = fold (\<lambda>e. g (sem F \<rho> e)) (rev es')"
    by (rule fold_multiset_equiv) (auto simp: fun_eq_iff left_comm assms)
  then have "foldr (\<lambda>e. g (sem F \<rho> e)) es = foldr (\<lambda>e. g (sem F \<rho> e)) es'"
    by (simp add: foldr_conv_fold)
  then show ?thesis by (simp add: fold_val_def foldr_map comp_def)
qed

lemma fold_val_sort [simp]: "fold_val g u F \<rho> (sort_addr A es) = fold_val g u F \<rho> es"
  by (rule fold_val_perm) (simp add: sort_addr_def)

text \<open>Constant propagation keeps the value and leaves no constant.\<close>

lemma fold_consts_spec:
  assumes "operands n es" "bv_rep n v acc"
  shows "\<exists>c ch w. fold_consts f acc es = Inr (c, ch) \<and> bv_rep n w c \<and> set ch \<subseteq> set es \<and>
    (\<forall>e\<in>set ch. dest_const e = None) \<and>
    (\<forall>F \<rho>. take_bit n (g w (fold_val g u F \<rho> ch)) = take_bit n (g v (fold_val g u F \<rho> es)))"
  using assms
proof (induction es arbitrary: v acc)
  case Nil
  then show ?case by auto
next
  case (Cons e es)
  show ?case
  proof (cases e rule: case_dest_const)
    case (Const c)
    then have c: "bv_rep n (bv_val c) c" using Cons.prems operand_const by auto
    obtain acc' where a: "f acc c = Inr acc'" "bv_rep n (take_bit n (g v (bv_val c))) acc'"
      using f_yields[OF Cons.prems(2) c] by (rule bv_yieldsE)
    obtain k ch w where IH: "fold_consts f acc' es = Inr (k, ch)" "bv_rep n w k" "set ch \<subseteq> set es"
      "\<forall>e\<in>set ch. dest_const e = None"
      "\<And>F \<rho>. take_bit n (g w (fold_val g u F \<rho> ch)) =
        take_bit n (g (take_bit n (g v (bv_val c))) (fold_val g u F \<rho> es))"
      using Cons.IH[OF _ a(2)] Cons.prems(1) by auto
    have "take_bit n (g w (fold_val g u F \<rho> ch)) = take_bit n (g v (fold_val g u F \<rho> (e # es)))" for F \<rho>
      using Const IH(5)[of F \<rho>] by (simp add: trunc assoc)
    with Const a(1) IH(1-4) show ?thesis by fastforce
  next
    case NonConst
    obtain k ch w where IH: "fold_consts f acc es = Inr (k, ch)" "bv_rep n w k" "set ch \<subseteq> set es"
      "\<forall>e\<in>set ch. dest_const e = None"
      "\<And>F \<rho>. take_bit n (g w (fold_val g u F \<rho> ch)) = take_bit n (g v (fold_val g u F \<rho> es))"
      using Cons.IH[OF _ Cons.prems(2)] Cons.prems(1) by auto
    have "take_bit n (g w (fold_val g u F \<rho> (e # ch))) = take_bit n (g v (fold_val g u F \<rho> (e # es)))" for F \<rho>
    proof -
      let ?x = "sem F \<rho> e"
      have "take_bit n (g w (fold_val g u F \<rho> (e # ch))) = take_bit n (g ?x (g w (fold_val g u F \<rho> ch)))"
        by (simp add: left_comm)
      also have "\<dots> = take_bit n (g ?x (g v (fold_val g u F \<rho> es)))"
        using IH(5)[of F \<rho>] trunc2 by metis
      finally show ?thesis by (simp add: left_comm)
    qed
    with NonConst IH(1-4) show ?thesis by fastforce
  qed
qed

text \<open>Flattening: the operands of a node of the operation, or the expression itself.\<close>

lemma els_spec:
  assumes "operand n e" "els = [e] \<or> e = node els"
  shows "operands n els" "els \<noteq> []" "take_bit n (fold_val g u F \<rho> els) = sem F \<rho> e"
proof -
  have "operands n els \<and> els \<noteq> [] \<and> take_bit n (fold_val g u F \<rho> els) = sem F \<rho> e"
    using assms(2)
  proof
    assume "els = [e]"
    with assms(1) show ?thesis by (simp add: comm[of _ u] unit operand_take_bit)
  next
    assume e: "e = node els"
    with assms(1) have sw: "same_width els" "\<forall>e\<in>set els. wf_expr e"
      using node_wfD[of els] by (auto simp: operand_def)
    have ne: "els \<noteq> []" using sw(1) by (rule same_width_hd(3))
    have n: "expr_size (hd els) = n" using e assms(1) node_size[OF ne] by (simp add: operand_def)
    with same_width_operands[OF sw] node_sem[OF ne] e ne show ?thesis by (simp add: fold_val_def)
  qed
  then show "operands n els" "els \<noteq> []" "take_bit n (fold_val g u F \<rho> els) = sem F \<rho> e" by auto
qed

lemma flatten_spec:
  assumes "operand n e" "els = [e] \<or> e = node els" "operand n e'" "els' = [e'] \<or> e' = node els'"
  shows "operands n (els @ els')" "expr_size (hd (els @ els')) = n"
    "take_bit n (fold_val g u F \<rho> (els @ els')) = take_bit n (g (sem F \<rho> e) (sem F \<rho> e'))"
proof -
  note l = els_spec[OF assms(1,2)] and r = els_spec[OF assms(3,4)]
  show op: "operands n (els @ els')" using l(1) r(1) by simp
  show "expr_size (hd (els @ els')) = n" using op l(2) by (intro operands_hd) auto
  show "take_bit n (fold_val g u F \<rho> (els @ els')) = take_bit n (g (sem F \<rho> e) (sem F \<rho> e'))"
    unfolding fold_val_append l(3)[of F \<rho>, symmetric] r(3)[of F \<rho>, symmetric] by (simp add: trunc trunc2)
qed

text \<open>The final checks build a node of the combined value.\<close>

lemma goc_node:
  assumes "operands n es" "2 \<le> length es" "\<And>\<rho>. take_bit n (fold_val g u (fpl A) \<rho> es) = v \<rho>"
  shows "builds A (get_or_create A (node (sort_addr A es))) (denotes A n v)"
proof (rule goc_denotes)
  let ?s = "sort_addr A es"
  have ne: "?s \<noteq> []" "es \<noteq> []" "length ?s = length es" using assms(2)
    by (auto simp: sort_addr_def simp flip: length_greater_0_conv)
  have op: "operands n ?s" using assms(1) by (auto simp: sort_addr_def operands_def)
  then have sw: "same_width ?s \<and> (\<forall>e\<in>set ?s. wf_expr e)" using ne by (intro operands_same_width)
  have sz: "expr_size (hd ?s) = n" using op ne(1) by (cases ?s) (auto simp: operand_def)
  show "wf_expr (node ?s)" using node_wf[of ?s] sw ne assms(2) by simp
  show "is_bv (node ?s)" "kind (node ?s) \<noteq> K_SYM" using node_bv by auto
  show "expr_size (node ?s) = n" using node_size[OF ne(1)] sz by simp
  show "sem (fpl A) \<rho> (node ?s) = v \<rho>" for \<rho>
    using node_sem[OF ne(1)] sz assms(3) by (simp flip: fold_val_def)
qed

lemma finish_denotes:
  assumes "operands n es" "bv_rep n w c" "\<And>z. neutral c = Inr z \<Longrightarrow> z \<Longrightarrow> w = take_bit n u"
    and "\<exists>z. neutral c = Inr z"
    and "\<And>\<rho>. take_bit n (g w (fold_val g u (fpl A) \<rho> es)) = v \<rho>"
  shows "builds A (finish_nary A node neutral c es) (denotes A n v)"
proof (cases "es = []")
  case True
  with assms(2,5) show ?thesis
    by (auto simp: finish_nary_def comm[of w] unit intro!: mk_const_builds[OF assms(2)] denotes_const[of n w])
next
  case ne: False
  obtain z where z: "neutral c = Inr z" using assms(4) by blast
  let ?m = "if z then ret es else bnd (mk_const A c) (\<lambda>k. ret (es @ [k]))"
  have "builds A ?m (\<lambda>ks. operands n ks \<and> ks \<noteq> [] \<and> (\<forall>\<rho>. take_bit n (fold_val g u (fpl A) \<rho> ks) = v \<rho>))"
  proof (cases z)
    case True
    with assms(3)[OF z] have "w = take_bit n u" by simp
    then have "take_bit n (fold_val g u (fpl A) \<rho> es) = v \<rho>" for \<rho>
      using assms(5)[of \<rho>] by (simp add: trunc unit)
    with True ne assms(1) show ?thesis by auto
  next
    case False
    have "builds A (mk_const A c) (\<lambda>k. operand n k \<and> (\<forall>\<rho>. sem (fpl A) \<rho> k = w))"
      by (rule mk_const_builds[OF assms(2)]) (auto simp: operand_def bv_rep_def)
    moreover have "take_bit n (g (fold_val g u (fpl A) \<rho> es) (g w u)) = v \<rho>" for \<rho>
      using assms(5)[of \<rho>] comm unit by metis
    ultimately show ?thesis
      using False assms(1) by (auto intro!: builds_bnd[of A "mk_const A c"] simp: fold_val_append)
  qed
  then have "builds A (bnd ?m (\<lambda>ks. if length ks = 1 then ret (last ks)
      else get_or_create A (node (sort_addr A ks)))) (denotes A n v)"
  proof (rule builds_bnd)
    fix ks
    assume ks: "operands n ks \<and> ks \<noteq> [] \<and> (\<forall>\<rho>. take_bit n (fold_val g u (fpl A) \<rho> ks) = v \<rho>)"
    show "builds A (if length ks = 1 then ret (last ks) else get_or_create A (node (sort_addr A ks))) (denotes A n v)"
    proof (cases "length ks = 1")
      case True
      then obtain k where k: "ks = [k]" by (cases ks) auto
      have "g x u = x" for x using comm unit by metis
      with k ks have "operand n k" "\<And>\<rho>. take_bit n (sem (fpl A) \<rho> k) = v \<rho>" by auto
      with k show ?thesis by (auto intro!: extract_denotes_ret simp: operand_take_bit)
    next
      case False
      with ks have "2 \<le> length ks" by (cases ks; cases "tl ks") auto
      with ks False show ?thesis by (auto intro!: goc_node)
    qed
  qed
  with ne z show ?thesis by (simp add: finish_nary_def)
qed

end

section \<open>The five operations\<close>

lemma take_bit_trunc_arith:
  "take_bit n (take_bit n x + y) = take_bit n (x + y :: int)"
  "take_bit n (take_bit n x * y) = take_bit n (x * y :: int)"
  by (simp_all add: take_bit_eq_mod mod_simps)

lemma take_bit_trunc_bits:
  "take_bit n (take_bit n x AND y) = take_bit n (x AND y :: int)"
  "take_bit n (take_bit n x OR y) = take_bit n (x OR y :: int)"
  "take_bit n (take_bit n x XOR y) = take_bit n (x XOR y :: int)"
  by (auto intro!: bit_eqI simp: bit_simps)

lemma bitwise_yields:
  assumes "bv_rep n x a" "bv_rep n y b"
  shows "bv_yields n (take_bit n (x AND y)) (bv_band a b)"
    "bv_yields n (take_bit n (x OR y)) (bv_bor a b)"
    "bv_yields n (take_bit n (x XOR y)) (bv_bxor a b)"
  using assms by (simp_all add: take_bit_and take_bit_or take_bit_xor bv_band_yields bv_bor_yields bv_bxor_yields)

lemmas nary_facts = hd_map take_bit_trunc_arith take_bit_trunc_bits bitwise_yields bv_add_yields
  bv_band_yields bv_bor_yields bv_bxor_yields bv_mul_yields sum_list.eq_foldr prod_list.eq_foldr

interpretation add_op: nary_op bv_add "(+)" 0 AddExpr
  by unfold_locales (simp_all add: nary_facts)

interpretation mul_op: nary_op bv_mul "(*)" 1 MulExpr
  by unfold_locales (simp_all add: nary_facts)

interpretation and_op: nary_op bv_band "(AND)" "- 1" AndExpr
  by unfold_locales (simp_all add: nary_facts and.assoc and.commute and.left_commute)

interpretation or_op: nary_op bv_bor "(OR)" 0 OrExpr
  by unfold_locales (simp_all add: nary_facts or.assoc or.commute or.left_commute)

interpretation xor_op: nary_op bv_bxor "(XOR)" 0 XorExpr
  by unfold_locales (simp_all add: nary_facts xor.assoc xor.commute xor.left_commute)

end
