(* ===== verification/ArithSpec.thy ===== *)
theory ArithSpec
  imports NaryOps
begin

unbundle bit_operations_syntax

text \<open>
  The arithmetic and bitwise functions of the builder keep the meaning.
\<close>

section \<open>Negation\<close>

text \<open>The one constant that \<^verbatim>\<open>BVConst::neg\<close> cannot negate: the least 64-bit integer.\<close>

definition neg_ok :: "expr \<Rightarrow> bool" where
  "neg_ok e \<longleftrightarrow> (\<forall>c. e = ConstExpr c \<longrightarrow> \<not> (m_size c = 64 \<and> bv_val c = 2 ^ 63))"

lemma neg_ok_nonconst: "dest_const e = None \<Longrightarrow> neg_ok e"
  by (auto simp: neg_ok_def)

lemma mk_neg_builds:
  assumes "operand n e" "neg_ok e"
  shows "builds A (mk_neg A e)
    (\<lambda>y. denotes A n (\<lambda>\<rho>. take_bit n (- sem (fpl A) \<rho> e)) y \<and> ((\<exists>c. y = ConstExpr c) \<or> y = NegExpr e))"
proof (cases e rule: case_dest_const)
  case (Const c)
  with assms have r: "bv_rep n (bv_val c) c" "BVConst_copy c = c" using operand_const[of n c] by auto
  moreover have "\<not> (n = 64 \<and> bv_val c = 2 ^ 63)"
    using assms(2) Const bv_rep_size[OF r(1)] unfolding neg_ok_def by blast
  ultimately have c: "BVConst_copy c = c" "bv_yields n (take_bit n (- bv_val c)) (bv_neg c)"
    using bv_neg_yields by blast+
  with Const show ?thesis
    by (auto simp: mk_neg_def intro!: mk_const_of_builds[OF c(2)] denotes_const)
next
  case NonConst
  then have "mk_neg A e = get_or_create A (NegExpr e)" by (simp add: mk_neg_def)
  with assms NonConst show ?thesis
    by (auto simp: operand_def dest_const_kind denotes_def intro!: get_or_create_builds)
qed

lemma mk_neg_denotes:
  "operand n e \<Longrightarrow> neg_ok e \<Longrightarrow> builds A (mk_neg A e) (denotes A n (\<lambda>\<rho>. take_bit n (- sem (fpl A) \<rho> e)))"
  using builds_conseq[OF mk_neg_builds] by fast

lemma mk_not_denotes:
  assumes "operand n e"
  shows "builds A (mk_not A e) (denotes A n (\<lambda>\<rho>. take_bit n (NOT (sem (fpl A) \<rho> e))))"
proof (cases e rule: case_dest_const)
  case (Const c)
  with assms have "bv_rep n (bv_val c) c" "BVConst_copy c = c" using operand_const[of n c] by auto
  with Const show ?thesis
    using const_denotes[OF bv_bit_not_yields[of n "bv_val c" c], of "\<lambda>_. take_bit n (NOT (bv_val c))" A]
    by (simp add: mk_not_def)
next
  case NonConst
  then have "mk_not A e = get_or_create A (NotExpr e)" by (simp add: mk_not_def)
  with assms show ?thesis
    by (auto simp: operand_def intro!: goc_denotes)
qed

section \<open>Product\<close>

lemma mul_els_node: "mul_els e = [e] \<or> e = MulExpr (mul_els e)"
  by (simp add: mul_els_def split: expr.split)

lemma const_one: "0 < n \<Longrightarrow> bv_yields n 1 (BVConst_u64 1 n)"
  using BVConst_u64_yields[of n 1] by (cases n) (auto simp: take_bit_Suc)

lemma const_zero: "0 < n \<Longrightarrow> bv_yields n 0 (BVConst_u64 0 n)"
  using BVConst_u64_yields[of n 0] by simp

lemma mk_mul_denotes:
  assumes "operand n l" "operand n r"
  shows "builds A (mk_mul A l r) (denotes A n (\<lambda>\<rho>. take_bit n (sem (fpl A) \<rho> l * sem (fpl A) \<rho> r)))"
proof -
  let ?els = "mul_els l @ mul_els r"
  note fl = mul_op.flatten_spec[OF assms(1) mul_els_node assms(2) mul_els_node]
  have n: "0 < n" using assms(1) operandD by blast
  obtain one where one: "BVConst_u64 1 n = Inr one" "bv_rep n 1 one" using const_one[OF n] by (rule bv_yieldsE)
  obtain c ch w where fc: "fold_consts bv_mul one ?els = Inr (c, ch)" "bv_rep n w c" "set ch \<subseteq> set ?els"
    "\<And>F \<rho>. take_bit n (w * fold_val (*) 1 F \<rho> ch) = take_bit n (1 * fold_val (*) 1 F \<rho> ?els)"
    using mul_op.fold_consts_spec[OF fl(1) one(2)] by blast
  have v: "take_bit n (w * fold_val (*) 1 F \<rho> ch) = take_bit n (sem F \<rho> l * sem F \<rho> r)" for F \<rho>
    using fc(4)[of F \<rho>] fl(3) by simp
  have eq: "mk_mul A l r = (if w = 0 then mk_const A c else finish_nary A MulExpr bv_is_one c ch)"
    using one fc fl(2) assms by (simp add: mk_mul_def check_size_or_fail_def Let_def bv_is_zero_rep operandD)
  show ?thesis
  proof (cases "w = 0")
    case True
    with v eq fc(2) show ?thesis
      by (auto intro!: mk_const_builds[OF fc(2)] denotes_const[of n w])
  next
    case False
    have "builds A (finish_nary A MulExpr bv_is_one c ch)
        (denotes A n (\<lambda>\<rho>. take_bit n (sem (fpl A) \<rho> l * sem (fpl A) \<rho> r)))"
    proof (rule mul_op.finish_denotes)
      show "operands n ch" using operands_mono[OF fl(1) fc(3)] .
      show "bv_rep n w c" by (rule fc(2))
      have w: "bv_is_one c = Inr (w = 1)" using fc(2) by (rule bv_is_one_rep)
      then show "\<exists>z. bv_is_one c = Inr z" by blast
      show "w = take_bit n 1" if "bv_is_one c = Inr z" "z" for z
        using w that bv_rep_take_bit[OF fc(2)] by auto
      show "take_bit n (w * fold_val (*) 1 (fpl A) \<rho> ch) = take_bit n (sem (fpl A) \<rho> l * sem (fpl A) \<rho> r)" for \<rho>
        by (rule v)
    qed
    with eq False show ?thesis by simp
  qed
qed

section \<open>Bitwise operations\<close>

context nary_op
begin

lemma fold_absorb_spec:
  assumes "operands n es" "bv_rep n v acc" "\<And>x c. bv_rep n x c \<Longrightarrow> absorbs c = Inr (x = z)"
  shows "(\<exists>c. fold_absorb f absorbs acc es = Inr (Inl (ConstExpr c)) \<and> ConstExpr c \<in> set es \<and> bv_val c = z) \<or>
    (\<exists>c ch w. fold_absorb f absorbs acc es = Inr (Inr (c, ch)) \<and> bv_rep n w c \<and> set ch \<subseteq> set es \<and>
      (\<forall>F \<rho>. take_bit n (g w (fold_val g u F \<rho> ch)) = take_bit n (g v (fold_val g u F \<rho> es))))"
  using assms(1,2)
proof (induction es arbitrary: v acc)
  case Nil
  then show ?case by auto
next
  case (Cons e es)
  show ?case
  proof (cases e rule: case_dest_const)
    case (Const c)
    then have c: "bv_rep n (bv_val c) c" using Cons.prems operand_const by auto
    show ?thesis
    proof (cases "bv_val c = z")
      case True
      with Const assms(3)[OF c] show ?thesis by auto
    next
      case False
      obtain acc' where a: "f acc c = Inr acc'" "bv_rep n (take_bit n (g v (bv_val c))) acc'"
        using f_yields[OF Cons.prems(2) c] by (rule bv_yieldsE)
      have eq: "fold_absorb f absorbs acc (e # es) = fold_absorb f absorbs acc' es"
        using Const False assms(3)[OF c] a(1) by simp
      have t: "take_bit n (g (take_bit n (g v (bv_val c))) (fold_val g u F \<rho> es)) =
          take_bit n (g v (fold_val g u F \<rho> (e # es)))" for F \<rho>
        using Const by (simp add: trunc assoc)
      show ?thesis
        using Cons.IH[OF _ a(2)] Cons.prems(1) unfolding eq t by fastforce
    qed
  next
    case NonConst
    have t: "take_bit n (g w (fold_val g u F \<rho> (e # ch))) = take_bit n (g v (fold_val g u F \<rho> (e # es)))"
      if "take_bit n (g w (fold_val g u F \<rho> ch)) = take_bit n (g v (fold_val g u F \<rho> es))" for F \<rho> w ch
    proof -
      have "take_bit n (g w (fold_val g u F \<rho> (e # ch))) = take_bit n (g (sem F \<rho> e) (g w (fold_val g u F \<rho> ch)))"
        by (simp add: left_comm)
      also have "\<dots> = take_bit n (g (sem F \<rho> e) (g v (fold_val g u F \<rho> es)))"
        using that trunc2 by metis
      finally show ?thesis by (simp add: left_comm)
    qed
    have "operands n es" using Cons.prems(1) by simp
    from Cons.IH[OF this Cons.prems(2)] show ?thesis
    proof
      assume "\<exists>c. fold_absorb f absorbs acc es = Inr (Inl (ConstExpr c)) \<and> ConstExpr c \<in> set es \<and> bv_val c = z"
      with NonConst show ?thesis by auto
    next
      assume "\<exists>c ch w. fold_absorb f absorbs acc es = Inr (Inr (c, ch)) \<and> bv_rep n w c \<and> set ch \<subseteq> set es \<and>
        (\<forall>F \<rho>. take_bit n (g w (fold_val g u F \<rho> ch)) = take_bit n (g v (fold_val g u F \<rho> es)))"
      then obtain c ch w where "fold_absorb f absorbs acc es = Inr (Inr (c, ch))" "bv_rep n w c"
        "set ch \<subseteq> set es" "\<And>F \<rho>. take_bit n (g w (fold_val g u F \<rho> ch)) = take_bit n (g v (fold_val g u F \<rho> es))"
        by blast
      with NonConst t[of w _ _ ch] show ?thesis
        by (intro disjI2 exI[of _ c] exI[of _ "e # ch"] exI[of _ w]) auto
    qed
  qed
qed

lemma fold_val_member:
  assumes "e \<in> set es"
  shows "fold_val g u F \<rho> es = g (sem F \<rho> e) (fold_val g u F \<rho> (remove1 e es))"
proof -
  have "fold_val g u F \<rho> es = fold_val g u F \<rho> (e # remove1 e es)"
    by (rule fold_val_perm) (use assms in simp)
  then show ?thesis by simp
qed

end

lemma and_els_node: "and_els e = [e] \<or> e = AndExpr (and_els e)"
  by (simp add: and_els_def split: expr.split)

lemma or_els_node: "or_els e = [e] \<or> e = OrExpr (or_els e)"
  by (simp add: or_els_def split: expr.split)

lemma xor_els_node: "xor_els e = [e] \<or> e = XorExpr (xor_els e)"
  by (simp add: xor_els_def split: expr.split)

lemma mask_pow: "(2 :: int) ^ n - 1 = mask n"
  by (simp add: mask_eq_exp_minus_1)

lemma take_bit_mask_and: "take_bit n (mask n AND x) = take_bit n (x :: int)"
  by (rule bit_eqI) (auto simp: bit_simps)

lemma const_ones: "0 < n \<Longrightarrow> bv_yields n (mask n) (BVConst_str ''-1'' n)"
  using BVConst_all_ones[of n] by (simp add: take_bit_minus_one_eq_mask)

lemma mk_and_denotes:
  assumes "operand n l" "operand n r"
  shows "builds A (mk_and A l r) (denotes A n (\<lambda>\<rho>. sem (fpl A) \<rho> l AND sem (fpl A) \<rho> r))"
proof -
  let ?els = "and_els l @ and_els r"
  note fl = and_op.flatten_spec[OF assms(1) and_els_node assms(2) and_els_node]
  have n: "0 < n" using assms(1) operandD by blast
  have fv: "take_bit n (fold_val (AND) (- 1) F \<rho> ?els) = sem F \<rho> l AND sem F \<rho> r" for F \<rho>
    using fl(3)[of F \<rho>] assms by (simp add: take_bit_and operand_take_bit)
  obtain ones where ones: "BVConst_str ''-1'' n = Inr ones" "bv_rep n (mask n) ones"
    using const_ones[OF n] by (rule bv_yieldsE)
  have eq: "mk_and A l r = bnd (liftr (fold_absorb bv_band bv_is_zero ones ?els)) (\<lambda>r. case r of
          Inl k \<Rightarrow> ret k
        | Inr (concrete_val, kids) \<Rightarrow> finish_nary A AndExpr bv_has_all_bit_set concrete_val kids)"
    using assms fl(2) ones(1) by (simp add: mk_and_def check_size_or_fail_def Let_def operandD)
  from and_op.fold_absorb_spec[OF fl(1) ones(2) bv_is_zero_rep]
  show ?thesis
  proof
    assume "\<exists>c. fold_absorb bv_band bv_is_zero ones ?els = Inr (Inl (ConstExpr c)) \<and>
      ConstExpr c \<in> set ?els \<and> bv_val c = 0"
    then obtain c where c: "fold_absorb bv_band bv_is_zero ones ?els = Inr (Inl (ConstExpr c))"
      "ConstExpr c \<in> set ?els" "bv_val c = 0" by blast
    have "sem F \<rho> l AND sem F \<rho> r = 0" for F \<rho>
      using fv[of F \<rho>] and_op.fold_val_member[OF c(2), of F \<rho>] c(3) by simp
    moreover have "operand n (ConstExpr c)" using fl(1) c(2) by (auto simp: operands_def)
    ultimately show ?thesis
      unfolding eq c(1) using c(3) by (auto intro!: extract_denotes_ret)
  next
    assume "\<exists>c ch w. fold_absorb bv_band bv_is_zero ones ?els = Inr (Inr (c, ch)) \<and> bv_rep n w c \<and>
      set ch \<subseteq> set ?els \<and> (\<forall>F \<rho>. take_bit n (w AND fold_val (AND) (- 1) F \<rho> ch) =
        take_bit n (mask n AND fold_val (AND) (- 1) F \<rho> ?els))"
    then obtain c ch w where c: "fold_absorb bv_band bv_is_zero ones ?els = Inr (Inr (c, ch))" "bv_rep n w c"
      "set ch \<subseteq> set ?els" "\<And>F \<rho>. take_bit n (w AND fold_val (AND) (- 1) F \<rho> ch) =
        take_bit n (mask n AND fold_val (AND) (- 1) F \<rho> ?els)" by blast
    have t: "bv_has_all_bit_set c = Inr (w = mask n)"
      using bv_has_all_bit_set_rep[OF c(2)] by (simp add: mask_pow)
    have "builds A (finish_nary A AndExpr bv_has_all_bit_set c ch)
        (denotes A n (\<lambda>\<rho>. sem (fpl A) \<rho> l AND sem (fpl A) \<rho> r))"
    proof (rule and_op.finish_denotes[OF operands_mono[OF fl(1) c(3)] c(2)])
      show "\<exists>z. bv_has_all_bit_set c = Inr z" using t by blast
      show "w = take_bit n (- 1)" if "bv_has_all_bit_set c = Inr z" "z" for z
        using that t by (simp add: take_bit_minus_one_eq_mask)
      show "take_bit n (w AND fold_val (AND) (- 1) (fpl A) \<rho> ch) = sem (fpl A) \<rho> l AND sem (fpl A) \<rho> r" for \<rho>
        unfolding c(4) take_bit_mask_and by (rule fv)
    qed
    then show ?thesis unfolding eq c(1) by simp
  qed
qed

lemma mk_or_denotes:
  assumes "operand n l" "operand n r"
  shows "builds A (mk_or A l r) (denotes A n (\<lambda>\<rho>. sem (fpl A) \<rho> l OR sem (fpl A) \<rho> r))"
proof -
  let ?els = "or_els l @ or_els r"
  note fl = or_op.flatten_spec[OF assms(1) or_els_node assms(2) or_els_node]
  have n: "0 < n" using assms(1) operandD by blast
  have fv: "take_bit n (fold_val (OR) 0 F \<rho> ?els) = sem F \<rho> l OR sem F \<rho> r" for F \<rho>
    using fl(3)[of F \<rho>] assms by (simp add: take_bit_or operand_take_bit)
  obtain zero where zero: "BVConst_u64 0 n = Inr zero" "bv_rep n 0 zero"
    using const_zero[OF n] by (rule bv_yieldsE)
  have eq: "mk_or A l r = bnd (liftr (fold_absorb bv_bor bv_has_all_bit_set zero ?els)) (\<lambda>r. case r of
          Inl k \<Rightarrow> mk_const_of A (BVConst_str ''-1'' n)
        | Inr (concrete_val, kids) \<Rightarrow> finish_nary A OrExpr bv_is_zero concrete_val kids)"
    using assms fl(2) zero(1) by (simp add: mk_or_def check_size_or_fail_def Let_def operandD)
  from or_op.fold_absorb_spec[OF fl(1) zero(2) bv_has_all_bit_set_rep]
  show ?thesis
  proof
    assume "\<exists>c. fold_absorb bv_bor bv_has_all_bit_set zero ?els = Inr (Inl (ConstExpr c)) \<and>
      ConstExpr c \<in> set ?els \<and> bv_val c = 2 ^ n - 1"
    then obtain c where c: "fold_absorb bv_bor bv_has_all_bit_set zero ?els = Inr (Inl (ConstExpr c))"
      "ConstExpr c \<in> set ?els" "bv_val c = mask n" by (auto simp: mask_pow)
    have "sem F \<rho> l OR sem F \<rho> r = mask n" for F \<rho>
    proof -
      have "sem F \<rho> l OR sem F \<rho> r = take_bit n (mask n OR fold_val (OR) 0 F \<rho> (remove1 (ConstExpr c) ?els))"
        using fv[of F \<rho>] or_op.fold_val_member[OF c(2), of F \<rho>] c(3) by simp
      also have "\<dots> = mask n" by (rule bit_eqI) (auto simp: bit_simps)
      finally show ?thesis .
    qed
    then show ?thesis
      unfolding eq c(1) using n by (auto intro!: const_ones_denotes)
  next
    assume "\<exists>c ch w. fold_absorb bv_bor bv_has_all_bit_set zero ?els = Inr (Inr (c, ch)) \<and> bv_rep n w c \<and>
      set ch \<subseteq> set ?els \<and> (\<forall>F \<rho>. take_bit n (w OR fold_val (OR) 0 F \<rho> ch) =
        take_bit n (0 OR fold_val (OR) 0 F \<rho> ?els))"
    then obtain c ch w where c: "fold_absorb bv_bor bv_has_all_bit_set zero ?els = Inr (Inr (c, ch))" "bv_rep n w c"
      "set ch \<subseteq> set ?els" "\<And>F \<rho>. take_bit n (w OR fold_val (OR) 0 F \<rho> ch) =
        take_bit n (0 OR fold_val (OR) 0 F \<rho> ?els)" by blast
    have t: "bv_is_zero c = Inr (w = 0)" using c(2) by (rule bv_is_zero_rep)
    have "builds A (finish_nary A OrExpr bv_is_zero c ch)
        (denotes A n (\<lambda>\<rho>. sem (fpl A) \<rho> l OR sem (fpl A) \<rho> r))"
    proof (rule or_op.finish_denotes[OF operands_mono[OF fl(1) c(3)] c(2)])
      show "\<exists>z. bv_is_zero c = Inr z" using t by blast
      show "w = take_bit n 0" if "bv_is_zero c = Inr z" "z" for z using that t by simp
      show "take_bit n (w OR fold_val (OR) 0 (fpl A) \<rho> ch) = sem (fpl A) \<rho> l OR sem (fpl A) \<rho> r" for \<rho>
        unfolding c(4) using fv[of "fpl A" \<rho>] by simp
    qed
    then show ?thesis unfolding eq c(1) by simp
  qed
qed

section \<open>Exclusive or\<close>

lemma toggle_spec:
  assumes "distinct s"
  shows "distinct (toggle e s)" "set (toggle e s) \<subseteq> insert e (set s)"
    "fold_val (XOR) 0 F \<rho> (toggle e s) = sem F \<rho> e XOR fold_val (XOR) 0 F \<rho> s"
proof -
  show "distinct (toggle e s)" "set (toggle e s) \<subseteq> insert e (set s)"
    using assms by (auto simp: toggle_def distinct_removeAll)
  show "fold_val (XOR) 0 F \<rho> (toggle e s) = sem F \<rho> e XOR fold_val (XOR) 0 F \<rho> s"
  proof (cases "e \<in> set s")
    case True
    with assms have "fold_val (XOR) 0 F \<rho> s = sem F \<rho> e XOR fold_val (XOR) 0 F \<rho> (removeAll e s)"
      using xor_op.fold_val_member[OF True, of F \<rho>] by (simp add: distinct_remove1_removeAll)
    with True show ?thesis by (simp add: toggle_def flip: xor.assoc)
  qed (simp add: toggle_def)
qed

lemma toggles_spec:
  assumes "distinct s"
  shows "set (foldl (\<lambda>s e. toggle e s) s es) \<subseteq> set s \<union> set es \<and>
    fold_val (XOR) 0 F \<rho> (foldl (\<lambda>s e. toggle e s) s es) = fold_val (XOR) 0 F \<rho> s XOR fold_val (XOR) 0 F \<rho> es"
  using assms
proof (induction es arbitrary: s)
  case (Cons e es)
  note t = toggle_spec(1,2)[OF Cons.prems, of e] toggle_spec(3)[OF Cons.prems, of F \<rho> e]
  from Cons.IH[OF t(1)] t(2) have "set (foldl (\<lambda>s e. toggle e s) (toggle e s) es) \<subseteq> set s \<union> set (e # es)"
    by auto
  with Cons.IH[OF t(1)] t(3) show ?case by (simp add: ac_simps)
qed simp

lemma mk_xor_denotes:
  assumes "operand n l" "operand n r"
  shows "builds A (mk_xor A l r) (denotes A n (\<lambda>\<rho>. sem (fpl A) \<rho> l XOR sem (fpl A) \<rho> r))"
proof -
  let ?els = "xor_els l @ xor_els r" and ?t = "foldl (\<lambda>s e. toggle e s) []"
  note fl = xor_op.flatten_spec[OF assms(1) xor_els_node assms(2) xor_els_node]
  have n: "0 < n" using assms(1) operandD by blast
  obtain zero where zero: "BVConst_u64 0 n = Inr zero" "bv_rep n 0 zero"
    using const_zero[OF n] by (rule bv_yieldsE)
  obtain c ch w where c: "fold_consts bv_bxor zero ?els = Inr (c, ch)" "bv_rep n w c" "set ch \<subseteq> set ?els"
    "\<And>F \<rho>. take_bit n (w XOR fold_val (XOR) 0 F \<rho> ch) = take_bit n (0 XOR fold_val (XOR) 0 F \<rho> ?els)"
    using xor_op.fold_consts_spec[OF fl(1) zero(2)] by blast
  have eq: "mk_xor A l r = finish_nary A XorExpr bv_is_zero c (sort_addr A (?t ch))"
    using assms fl(2) zero(1) c(1) by (simp add: mk_xor_def check_size_or_fail_def Let_def operandD)
  have t: "bv_is_zero c = Inr (w = 0)" using c(2) by (rule bv_is_zero_rep)
  show ?thesis
    unfolding eq
  proof (rule xor_op.finish_denotes[OF _ c(2)])
    show "operands n (sort_addr A (?t ch))"
      by (rule operands_mono[OF fl(1)]) (use toggles_spec[of "[]" ch] c(3) in \<open>auto simp: sort_addr_def\<close>)
    show "\<exists>z. bv_is_zero c = Inr z" using t by blast
    show "w = take_bit n 0" if "bv_is_zero c = Inr z" "z" for z using that t by simp
    show "take_bit n (w XOR fold_val (XOR) 0 (fpl A) \<rho> (sort_addr A (?t ch)))
        = sem (fpl A) \<rho> l XOR sem (fpl A) \<rho> r" for \<rho>
      using c(4)[of "fpl A" \<rho>] fl(3)[of "fpl A" \<rho>] toggles_spec[of "[]" ch "fpl A" \<rho>] assms
      by (simp add: take_bit_xor operand_take_bit)
  qed
qed

end
