(* ===== verification/AddSpec.thy ===== *)
theory AddSpec
  imports ArithSpec
begin

unbundle bit_operations_syntax

text \<open>
  Addition: the terms are counted in two maps, a term against its negation, and the sum is built from what is left.
\<close>

section \<open>The counters\<close>

definition csum :: "fp_lib \<Rightarrow> (nat \<Rightarrow> int) \<Rightarrow> counts \<Rightarrow> int" where
  "csum F \<rho> m = sum_list (map (\<lambda>p. int (snd p) * sem F \<rho> (fst p)) m)"

definition ctotal :: "counts \<Rightarrow> nat" where
  "ctotal m = sum_list (map snd m)"

definition counts_ok :: "nat \<Rightarrow> counts \<Rightarrow> bool" where
  "counts_ok n m \<longleftrightarrow> distinct (map fst m) \<and> (\<forall>(e, k)\<in>set m. operand n e \<and> dest_const e = None \<and> 0 < k)"

lemma csum_simps [simp]:
  "csum F \<rho> [] = 0" "csum F \<rho> (p # m) = int (snd p) * sem F \<rho> (fst p) + csum F \<rho> m"
  by (simp_all add: csum_def)

lemma ctotal_simps [simp]: "ctotal [] = 0" "ctotal (p # m) = snd p + ctotal m"
  by (simp_all add: ctotal_def)

lemma csum_update:
  "distinct (map fst m) \<Longrightarrow> map_of m e = Some k \<Longrightarrow>
   csum F \<rho> (AList.update e k' m) = csum F \<rho> m + (int k' - int k) * sem F \<rho> e"
  by (induction m) (auto simp: algebra_simps)

lemma ctotal_update:
  "distinct (map fst m) \<Longrightarrow> map_of m e = Some k \<Longrightarrow> ctotal (AList.update e k' m) + k = ctotal m + k'"
  by (induction m) auto

lemma csum_delete:
  "distinct (map fst m) \<Longrightarrow> map_of m e = Some k \<Longrightarrow>
   csum F \<rho> (AList.delete e m) = csum F \<rho> m - int k * sem F \<rho> e"
proof (induction m)
  case (Cons p m)
  show ?case
  proof (cases "fst p = e")
    case True
    with Cons.prems have "AList.delete e m = m" by (auto intro: AList.delete_idem)
    with True Cons.prems show ?thesis by (cases p) auto
  next
    case False
    with Cons show ?thesis by (cases p) auto
  qed
qed simp

lemma ctotal_delete: "ctotal (AList.delete e m) \<le> ctotal m"
  by (induction m) (auto simp: AList.delete_eq)

lemma counts_ok_update:
  "counts_ok n m \<Longrightarrow> operand n e \<Longrightarrow> dest_const e = None \<Longrightarrow> 0 < k \<Longrightarrow> counts_ok n (AList.update e k m)"
  unfolding counts_ok_def
proof (intro conjI)
  assume a: "distinct (map fst m) \<and> (\<forall>(e, k)\<in>set m. operand n e \<and> dest_const e = None \<and> 0 < k)"
    "operand n e" "dest_const e = None" "0 < k"
  then show "distinct (map fst (AList.update e k m))" by (simp add: distinct_update)
  show "\<forall>(e, k)\<in>set (AList.update e k m). operand n e \<and> dest_const e = None \<and> 0 < k"
    using a by (induction m) (auto split: if_splits)
qed

lemma counts_ok_delete: "counts_ok n m \<Longrightarrow> counts_ok n (AList.delete e m)"
  by (auto simp: counts_ok_def AList.delete_eq distinct_map_filter)

lemma count_inc_spec:
  assumes "counts_ok n m" "operand n e" "dest_const e = None"
  shows "counts_ok n (count_inc e m)" "csum F \<rho> (count_inc e m) = csum F \<rho> m + sem F \<rho> e"
    "ctotal (count_inc e m) = ctotal m + 1"
proof -
  have d: "distinct (map fst m)" using assms(1) by (simp add: counts_ok_def)
  show "counts_ok n (count_inc e m)"
  proof (cases "map_of m e")
    case None
    then have "e \<notin> fst ` set m" by (simp add: map_of_eq_None_iff)
    with assms None show ?thesis by (auto simp: count_inc_def counts_ok_def)
  next
    case (Some k)
    with assms show ?thesis by (auto simp: count_inc_def intro!: counts_ok_update)
  qed
  show "csum F \<rho> (count_inc e m) = csum F \<rho> m + sem F \<rho> e"
    using csum_update[OF d] by (auto simp: count_inc_def split: option.split)
  show "ctotal (count_inc e m) = ctotal m + 1"
  proof (cases "map_of m e")
    case (Some k)
    with ctotal_update[OF d Some, of "k + 1"] show ?thesis by (simp add: count_inc_def)
  qed (simp add: count_inc_def)
qed

lemma count_dec_spec:
  assumes "counts_ok n m" "map_of m e = Some k"
  shows "counts_ok n (count_dec e k m)" "csum F \<rho> (count_dec e k m) = csum F \<rho> m - sem F \<rho> e"
    "ctotal (count_dec e k m) \<le> ctotal m"
proof -
  have d: "distinct (map fst m)" using assms(1) by (simp add: counts_ok_def)
  have e: "(e, k) \<in> set m" using assms(2) by (rule map_of_SomeD)
  then have o: "operand n e" "dest_const e = None" "0 < k" using assms(1) by (auto simp: counts_ok_def)
  show "counts_ok n (count_dec e k m)"
    using assms o by (auto simp: count_dec_def intro!: counts_ok_update counts_ok_delete)
  show "csum F \<rho> (count_dec e k m) = csum F \<rho> m - sem F \<rho> e"
    using csum_update[OF d assms(2)] csum_delete[OF d assms(2)] o(3)
    by (auto simp: count_dec_def of_nat_diff)
  show "ctotal (count_dec e k m) \<le> ctotal m"
    using ctotal_update[OF d assms(2), of "k - 1"] ctotal_delete[of e m] o(3) by (auto simp: count_dec_def)
qed

section \<open>Cancellation\<close>

text \<open>What the two maps stand for.\<close>

definition net :: "fp_lib \<Rightarrow> (nat \<Rightarrow> int) \<Rightarrow> counts \<times> counts \<Rightarrow> int" where
  "net F \<rho> mm = csum F \<rho> (snd mm) - csum F \<rho> (fst mm)"

definition maps_ok :: "nat \<Rightarrow> counts \<times> counts \<Rightarrow> bool" where
  "maps_ok n mm \<longleftrightarrow> counts_ok n (fst mm) \<and> counts_ok n (snd mm)"

lemma diff_swap: "(a :: int) - b - c = a - c - b"
  by simp

lemma cancel_step_spec:
  assumes "maps_ok n mm" "operand n e" "dest_const e = None"
  shows "maps_ok n (cancel_step e mm)"
    "take_bit n (net F \<rho> (cancel_step e mm)) = take_bit n (net F \<rho> mm + sem F \<rho> e)"
    "ctotal (fst (cancel_step e mm)) + ctotal (snd (cancel_step e mm)) \<le> ctotal (fst mm) + ctotal (snd mm) + 1"
proof -
  obtain neg nor where mm: "mm = (neg, nor)" by (cases mm)
  have ok: "counts_ok n neg" "counts_ok n nor" using assms(1) mm by (auto simp: maps_ok_def)
  have "maps_ok n (cancel_step e mm) \<and>
    take_bit n (net F \<rho> (cancel_step e mm)) = take_bit n (net F \<rho> mm + sem F \<rho> e) \<and>
    ctotal (fst (cancel_step e mm)) + ctotal (snd (cancel_step e mm)) \<le> ctotal (fst mm) + ctotal (snd mm) + 1"
  proof (cases "\<exists>x. e = NegExpr x")
    case True
    then obtain x where e: "e = NegExpr x" by blast
    have x: "operand n x" "dest_const x = None" using assms(2) e by (auto simp: operand_def dest_const_kind)
    have s: "take_bit n (a + sem F \<rho> e) = take_bit n (a - sem F \<rho> x)" for a
      using e x by (simp add: operand_def take_bit_eq_mod mod_simps)
    show ?thesis
    proof (cases "map_of nor x")
      case None
      note c = count_inc_spec[OF ok(1) x]
      show ?thesis
        using None e ok c(1,3) unfolding s mm
        by (simp add: cancel_step_def maps_ok_def net_def c(2)[of F \<rho>] diff_diff_add)
    next
      case (Some k)
      note c = count_dec_spec[OF ok(2) Some]
      show ?thesis
        using Some e ok c(1,3) unfolding s mm
        by (simp add: cancel_step_def maps_ok_def net_def c(2)[of F \<rho>] diff_swap)
    qed
  next
    case False
    then have eq: "cancel_step e mm = (case map_of neg e of
             Some k \<Rightarrow> (count_dec e k neg, nor) | None \<Rightarrow> (neg, count_inc e nor))"
      unfolding cancel_step_def mm by (cases e) (simp_all only: prod.case expr.case, simp_all)
    show ?thesis
    proof (cases "map_of neg e")
      case None
      note c = count_inc_spec[OF ok(2) assms(2,3)]
      show ?thesis
        using None ok c(1,3) unfolding mm eq[unfolded mm]
        by (simp add: maps_ok_def net_def c(2)[of F \<rho>] diff_add_eq)
    next
      case (Some k)
      note c = count_dec_spec[OF ok(1) Some]
      show ?thesis
        using Some ok c(1,3) unfolding mm eq[unfolded mm]
        by (simp add: maps_ok_def net_def c(2)[of F \<rho>] diff_diff_eq2 diff_add_eq)
    qed
  qed
  then show "maps_ok n (cancel_step e mm)"
    "take_bit n (net F \<rho> (cancel_step e mm)) = take_bit n (net F \<rho> mm + sem F \<rho> e)"
    "ctotal (fst (cancel_step e mm)) + ctotal (snd (cancel_step e mm)) \<le> ctotal (fst mm) + ctotal (snd mm) + 1"
    by auto
qed

lemma cancel_spec:
  assumes "maps_ok n mm" "operands n es" "\<forall>e\<in>set es. dest_const e = None"
  shows "maps_ok n (foldl (\<lambda>mm e. cancel_step e mm) mm es) \<and>
    (\<forall>F \<rho>. take_bit n (net F \<rho> (foldl (\<lambda>mm e. cancel_step e mm) mm es)) =
      take_bit n (net F \<rho> mm + fold_val (+) 0 F \<rho> es)) \<and>
    ctotal (fst (foldl (\<lambda>mm e. cancel_step e mm) mm es)) + ctotal (snd (foldl (\<lambda>mm e. cancel_step e mm) mm es))
      \<le> ctotal (fst mm) + ctotal (snd mm) + length es"
  using assms
proof (induction es arbitrary: mm)
  case (Cons e es)
  have e: "operand n e" "dest_const e = None" using Cons.prems by auto
  note c = cancel_step_spec[OF Cons.prems(1) e]
  have "operands n es" "\<forall>e\<in>set es. dest_const e = None" using Cons.prems by auto
  note IH = Cons.IH[OF c(1) this]
  have "take_bit n (net F \<rho> (cancel_step e mm) + fold_val (+) 0 F \<rho> es) =
      take_bit n (net F \<rho> mm + fold_val (+) 0 F \<rho> (e # es))" for F \<rho>
    using c(2)[of F \<rho>] take_bit_trunc_arith(1)[of n "net F \<rho> (cancel_step e mm)"]
      take_bit_trunc_arith(1)[of n "net F \<rho> mm + sem F \<rho> e"] by (simp add: add.assoc)
  with IH c(3) show ?case by (auto simp: add.assoc intro: order_trans)
qed simp

section \<open>Sums\<close>

lemma of_nat_count: "k < 2 ^ 64 \<Longrightarrow> uint (of_nat k :: 64 word) = int k"
  by (simp add: unsigned_of_nat take_bit_nat_eq_self uint_nat)

text \<open>The terms that are pushed: each key, or its product with its count.\<close>

lemma push_counts_spec:
  assumes f: "\<And>e. operand n e \<Longrightarrow> dest_const e = None \<Longrightarrow>
      builds A (f e) (denotes A n (\<lambda>\<rho>. take_bit n (c * sem (fpl A) \<rho> e)))"
    and m: "\<forall>(e, k)\<in>set m. operand n e \<and> dest_const e = None \<and> 0 < k" "ctotal m < 2 ^ 64"
  shows "builds A (push_counts A f m) (\<lambda>ps. operands n ps \<and>
    (\<forall>\<rho>. take_bit n (fold_val (+) 0 (fpl A) \<rho> ps) = take_bit n (c * csum (fpl A) \<rho> m)))"
  using m
proof (induction m)
  case Nil
  then show ?case by auto
next
  case (Cons p m)
  obtain x k where p: "p = (x, k)" by (cases p)
  have x: "operand n x" "dest_const x = None" "0 < k" "k < 2 ^ 64" "ctotal m < 2 ^ 64"
    using Cons.prems p by auto
  have n: "0 < n" "expr_size x = n" using x(1) operandD by auto
  let ?v = "\<lambda>\<rho>. take_bit n (int k * (c * sem (fpl A) \<rho> x))"
  have head: "builds A (if k > 1
          then bnd (f x) (\<lambda>y. bnd (mk_const_u64 A (of_nat k) (expr_size x)) (\<lambda>c. mk_mul A y c))
          else f x) (denotes A n ?v)"
  proof (cases "k > 1")
    case True
    have "builds A (bnd (f x) (\<lambda>y. bnd (mk_const_u64 A (of_nat k) (expr_size x)) (\<lambda>c. mk_mul A y c)))
      (denotes A n ?v)"
    proof (rule builds_bnd[OF f[OF x(1,2)]])
      fix y
      assume y: "denotes A n (\<lambda>\<rho>. take_bit n (c * sem (fpl A) \<rho> x)) y"
      have "builds A (mk_const_u64 A (of_nat k) n) (denotes A n (\<lambda>\<rho>. take_bit n (int k)))"
        using n(1) by (intro const_u64_denotes) (simp_all add: of_nat_count[OF x(4)])
      then show "builds A (bnd (mk_const_u64 A (of_nat k) (expr_size x)) (\<lambda>c. mk_mul A y c)) (denotes A n ?v)"
        unfolding n(2)
      proof (rule builds_bnd)
        fix d
        assume d: "denotes A n (\<lambda>\<rho>. take_bit n (int k)) d"
        have "take_bit n (sem (fpl A) \<rho> y * sem (fpl A) \<rho> d) = ?v \<rho>" for \<rho>
          using denotes_sem[OF y, of \<rho>] denotes_sem[OF d, of \<rho>]
          by (simp add: take_bit_mult mult.commute)
        then show "builds A (mk_mul A y d) (denotes A n ?v)"
          by (rule denotes_cong[OF mk_mul_denotes[OF denotes_operand[OF y] denotes_operand[OF d]]])
      qed
    qed
    with True show ?thesis by simp
  next
    case False
    with x(3) have "k = 1" by simp
    with f[OF x(1,2)] show ?thesis by simp
  qed
  have tail: "builds A (push_counts A f m) (\<lambda>ps. operands n ps \<and>
    (\<forall>\<rho>. take_bit n (fold_val (+) 0 (fpl A) \<rho> ps) = take_bit n (c * csum (fpl A) \<rho> m)))"
    using Cons.IH Cons.prems x(5) by simp
  show ?case
    unfolding p push_counts.simps
  proof (rule builds_bnd[OF head], rule builds_bnd[OF tail], rule builds_ret)
    fix y ps
    assume y: "denotes A n ?v y" and ps: "operands n ps \<and>
      (\<forall>\<rho>. take_bit n (fold_val (+) 0 (fpl A) \<rho> ps) = take_bit n (c * csum (fpl A) \<rho> m))"
    have "take_bit n (fold_val (+) 0 (fpl A) \<rho> (y # ps)) = take_bit n (c * csum (fpl A) \<rho> ((x, k) # m))" for \<rho>
    proof -
      have "take_bit n (fold_val (+) 0 (fpl A) \<rho> (y # ps))
          = take_bit n (?v \<rho> + take_bit n (fold_val (+) 0 (fpl A) \<rho> ps))"
        using denotes_sem[OF y, of \<rho>] by (simp add: add_op.trunc2)
      also have "\<dots> = take_bit n (int k * (c * sem (fpl A) \<rho> x) + c * csum (fpl A) \<rho> m)"
        using ps by (simp add: take_bit_trunc_arith add_op.trunc2)
      finally show ?thesis by (simp add: algebra_simps)
    qed
    with y ps denotes_operand show "operands n (y # ps) \<and> (\<forall>\<rho>. take_bit n (fold_val (+) 0 (fpl A) \<rho> (y # ps)) =
        take_bit n (c * csum (fpl A) \<rho> ((x, k) # m)))" by auto
  qed
qed

lemma csum_order: "csum F \<rho> (map_order A m) = csum F \<rho> m"
  by (simp add: csum_def map_order_def flip: sum_mset_sum_list)

lemma ctotal_order: "ctotal (map_order A m) = ctotal m"
  by (simp add: ctotal_def map_order_def flip: sum_mset_sum_list)

lemma add_els_node: "add_els e = [e] \<or> e = AddExpr (add_els e)"
  by (simp add: add_els_def split: expr.split)

lemma take_bit_sum3: "take_bit n (a + (b + c)) = take_bit n (a + (take_bit n b + take_bit n c))" for a :: int
  by (metis take_bit_add add_op.trunc2)

lemma fold_consts_length: "fold_consts f acc es = Inr (c, ch) \<Longrightarrow> length ch \<le> length es"
  by (induction es arbitrary: acc ch) (fastforce simp: rbind_Inr_iff split: option.splits)+

lemma maps_order_ok:
  "counts_ok n m \<Longrightarrow> \<forall>(e, k)\<in>set (map_order A m). operand n e \<and> dest_const e = None \<and> 0 < k"
  by (auto simp: counts_ok_def map_order_def)

text \<open>
  The counters of the code are of type \<^verbatim>\<open>int\<close>: with fewer than \<open>2 ^ 31\<close> terms they do not overflow.
\<close>

lemma mk_add_denotes:
  assumes "operand n l" "operand n r" and few: "length (add_els l @ add_els r) < 2 ^ 31"
  shows "builds A (mk_add A l r) (denotes A n (\<lambda>\<rho>. take_bit n (sem (fpl A) \<rho> l + sem (fpl A) \<rho> r)))"
proof -
  let ?els = "add_els l @ add_els r"
  note fl = add_op.flatten_spec[OF assms(1) add_els_node assms(2) add_els_node]
  have n: "0 < n" using assms(1) operandD by blast
  obtain z where z: "BVConst_u64 0 n = Inr z" "bv_rep n 0 z" using const_zero[OF n] by (rule bv_yieldsE)
  obtain c ch w where fc: "fold_consts bv_add z ?els = Inr (c, ch)" "bv_rep n w c" "set ch \<subseteq> set ?els"
    "\<forall>e\<in>set ch. dest_const e = None"
    "\<And>F \<rho>. take_bit n (w + fold_val (+) 0 F \<rho> ch) = take_bit n (0 + fold_val (+) 0 F \<rho> ?els)"
    using add_op.fold_consts_spec[OF fl(1) z(2)] by blast
  obtain neg nor where mm: "foldl (\<lambda>mm e. cancel_step e mm) ([], []) ch = (neg, nor)" by fastforce
  have m: "maps_ok n (neg, nor)" "\<And>F \<rho>. take_bit n (net F \<rho> (neg, nor)) = take_bit n (fold_val (+) 0 F \<rho> ch)"
    "ctotal neg + ctotal nor \<le> length ch"
    using cancel_spec[of n "([], [])" ch, OF _ operands_mono[OF fl(1) fc(3)] fc(4)] unfolding mm
    by (simp_all add: maps_ok_def counts_ok_def net_def)
  have "ctotal neg + ctotal nor < 2 ^ 31"
    using m(3) fold_consts_length[OF fc(1)] few by simp
  then have t: "ctotal (map_order A neg) < 2 ^ 64" "ctotal (map_order A nor) < 2 ^ 64"
    by (simp_all add: ctotal_order)
  have ok: "counts_ok n neg" "counts_ok n nor" using m(1) by (auto simp: maps_ok_def)
  have eq: "mk_add A l r = bnd (push_counts A (mk_neg A) (map_order A neg)) (\<lambda>ps1.
      bnd (push_counts A ret (map_order A nor)) (\<lambda>ps2. finish_nary A AddExpr bv_is_zero c (ps1 @ ps2)))"
    using z fc(1) fl(2) mm assms(1,2) by (simp add: mk_add_def check_size_or_fail_def Let_def operandD)
  have neg: "builds A (push_counts A (mk_neg A) (map_order A neg)) (\<lambda>ps. operands n ps \<and>
      (\<forall>\<rho>. take_bit n (fold_val (+) 0 (fpl A) \<rho> ps) = take_bit n (- 1 * csum (fpl A) \<rho> (map_order A neg))))"
    by (rule push_counts_spec[OF denotes_cong[OF mk_neg_denotes] maps_order_ok[OF ok(1)] t(1)])
      (simp_all add: neg_ok_nonconst)
  have nor: "builds A (push_counts A ret (map_order A nor)) (\<lambda>ps. operands n ps \<and>
      (\<forall>\<rho>. take_bit n (fold_val (+) 0 (fpl A) \<rho> ps) = take_bit n (1 * csum (fpl A) \<rho> (map_order A nor))))"
    by (rule push_counts_spec[OF _ maps_order_ok[OF ok(2)] t(2)])
      (auto simp: operand_take_bit intro!: extract_denotes_ret)
  show ?thesis
    unfolding eq
  proof (rule builds_bnd[OF neg], rule builds_bnd[OF nor])
    fix ps1 ps2
    assume 1: "operands n ps1 \<and>
        (\<forall>\<rho>. take_bit n (fold_val (+) 0 (fpl A) \<rho> ps1) = take_bit n (- 1 * csum (fpl A) \<rho> (map_order A neg)))"
      and 2: "operands n ps2 \<and>
        (\<forall>\<rho>. take_bit n (fold_val (+) 0 (fpl A) \<rho> ps2) = take_bit n (1 * csum (fpl A) \<rho> (map_order A nor)))"
    have z0: "bv_is_zero c = Inr (w = 0)" using fc(2) by (rule bv_is_zero_rep)
    have v: "take_bit n (w + fold_val (+) 0 (fpl A) \<rho> (ps1 @ ps2)) =
        take_bit n (sem (fpl A) \<rho> l + sem (fpl A) \<rho> r)" for \<rho>
    proof -
      have "take_bit n (w + fold_val (+) 0 (fpl A) \<rho> (ps1 @ ps2))
          = take_bit n (w + (take_bit n (fold_val (+) 0 (fpl A) \<rho> ps1) + take_bit n (fold_val (+) 0 (fpl A) \<rho> ps2)))"
        unfolding add_op.fold_val_append by (rule take_bit_sum3)
      also have "\<dots> = take_bit n (w + net (fpl A) \<rho> (neg, nor))"
        using 1 2 by (simp add: csum_order net_def flip: take_bit_sum3)
      also have "\<dots> = take_bit n (w + fold_val (+) 0 (fpl A) \<rho> ch)"
        using m(2)[of "fpl A" \<rho>] by (metis add_op.trunc2)
      finally show ?thesis using fc(5) fl(3) by simp
    qed
    show "builds A (finish_nary A AddExpr bv_is_zero c (ps1 @ ps2))
        (denotes A n (\<lambda>\<rho>. take_bit n (sem (fpl A) \<rho> l + sem (fpl A) \<rho> r)))"
      by (rule add_op.finish_denotes[OF _ fc(2) _ _ v]) (use 1 2 z0 in auto)
  qed
qed

text \<open>Subtraction adds the negation.\<close>

lemma mk_sub_denotes:
  assumes "operand n l" "operand n r" "neg_ok r \<or> dest_const l \<noteq> None" "length (add_els l) < 2 ^ 31 - 1"
  shows "builds A (mk_sub A l r) (denotes A n (\<lambda>\<rho>. take_bit n (sem (fpl A) \<rho> l - sem (fpl A) \<rho> r)))"
proof -
  have c: "check_size_or_fail op l r = ret ()" for op
    using assms(1,2) by (simp add: check_size_or_fail_def operandD)
  show ?thesis
  proof (cases "dest_const l \<noteq> None \<and> dest_const r \<noteq> None")
    case True
    then obtain a b where ab: "l = ConstExpr a" "r = ConstExpr b" by auto
    then have "bv_rep n (bv_val a) a" "BVConst_copy a = a" "bv_rep n (bv_val b) b"
      using assms(1,2) operand_const by auto
    then show ?thesis
      using ab c const_denotes[OF bv_sub_yields[of n "bv_val a" a "bv_val b" b]] by (simp add: mk_sub_def)
  next
    case False
    then have eq: "mk_sub A l r = bnd (mk_neg A r) (\<lambda>y. mk_add A l y)"
      using c by (auto simp: mk_sub_def split: option.split)
    have neg: "neg_ok r" using assms(3) False by (auto simp: neg_ok_def)
    show ?thesis
      unfolding eq
    proof (rule builds_bnd[OF mk_neg_builds[OF assms(2) neg]])
      fix y
      assume y: "denotes A n (\<lambda>\<rho>. take_bit n (- sem (fpl A) \<rho> r)) y \<and> ((\<exists>c. y = ConstExpr c) \<or> y = NegExpr r)"
      then have "add_els y = [y]" by (auto simp: add_els_def)
      then have few: "length (add_els l @ add_els y) < 2 ^ 31" using assms(4) by simp
      have "take_bit n (sem (fpl A) \<rho> l + sem (fpl A) \<rho> y) = take_bit n (sem (fpl A) \<rho> l - sem (fpl A) \<rho> r)" for \<rho>
        using y denotes_sem[of A n _ y \<rho>] by (fastforce simp: take_bit_eq_mod mod_simps)
      then show "builds A (mk_add A l y) (denotes A n (\<lambda>\<rho>. take_bit n (sem (fpl A) \<rho> l - sem (fpl A) \<rho> r)))"
        using y by (intro denotes_cong[OF mk_add_denotes[OF assms(1) denotes_operand few]]) auto
    qed
  qed
qed

end
