(* ===== verification/LogicSpec.thy ===== *)
theory LogicSpec
  imports ExprBuilderLogic AddSpec
begin

unbundle bit_operations_syntax

text \<open>
  The comparisons, the connectives and the conversions between bit vectors and Booleans keep the meaning.
\<close>

section \<open>Comparisons\<close>

text \<open>
  What a comparison of the builder relies on: a comparison \<open>f\<close> of constants that decides \<open>rel n\<close> for the widths
  \<open>ok n\<close>, and a node that means \<open>rel n\<close>.
\<close>

locale comparison =
  fixes f :: "bvconst \<Rightarrow> bvconst \<Rightarrow> bool res"
    and node :: "expr \<Rightarrow> expr \<Rightarrow> expr"
    and rel :: "nat \<Rightarrow> int \<Rightarrow> int \<Rightarrow> bool"
    and ok :: "nat \<Rightarrow> bool"
  assumes f_rep: "ok n \<Longrightarrow> bv_rep n x a \<Longrightarrow> bv_rep n y b \<Longrightarrow> f a b = Inr (rel n x y)"
    and node_wf: "wf_expr (node l r) \<longleftrightarrow> wf_expr l \<and> wf_expr r \<and> is_bv l \<and> is_bv r \<and> expr_size l = expr_size r"
    and node_bool: "is_bool (node l r)"
    and node_sem: "sem F \<rho> (node l r) = of_bool (rel (expr_size l) (sem F \<rho> l) (sem F \<rho> r))"
begin

lemma compare_asserts:
  assumes "operand n l" "operand n r" "ok n \<or> dest_const l = None \<or> dest_const r = None"
  shows "builds A (bnd (check_size_or_fail op l r) (\<lambda>_.
      case (dest_const l, dest_const r) of
        (Some a, Some b) \<Rightarrow> bnd (liftr (f a b)) mk_bool
      | _ \<Rightarrow> get_or_create A (node l r)))
    (asserts A (\<lambda>\<rho>. rel n (sem (fpl A) \<rho> l) (sem (fpl A) \<rho> r)))"
proof -
  let ?P = "asserts A (\<lambda>\<rho>. rel n (sem (fpl A) \<rho> l) (sem (fpl A) \<rho> r))"
  have goc: "builds A (get_or_create A (node l r)) ?P"
    using assms by (intro goc_asserts) (auto simp: node_wf node_bool node_sem operand_def)
  have con: "builds A (bnd (liftr (f a b)) mk_bool) ?P" if "l = ConstExpr a" "r = ConstExpr b" for a b
  proof -
    have "bv_rep n (bv_val a) a" "bv_rep n (bv_val b) b" using assms that operand_const by auto
    with assms(3) that show ?thesis by (auto simp: f_rep intro!: mk_bool_asserts)
  qed
  have "builds A (case (dest_const l, dest_const r) of
        (Some a, Some b) \<Rightarrow> bnd (liftr (f a b)) mk_bool
      | _ \<Rightarrow> get_or_create A (node l r)) ?P"
    using goc con by (auto split: option.split)
  moreover have "expr_size l = expr_size r" using assms by (simp add: operandD)
  ultimately show ?thesis by (auto intro: builds_bnd[OF builds_check])
qed

end

lemmas compare_facts = bv_ult_rep bv_unsigned_rep bv_slt_small_rep bv_signed_small_rep

interpretation ult: comparison bv_ult UltExpr "\<lambda>_ x y. x < y" "\<lambda>_. True"
  by unfold_locales (auto simp: compare_facts)

interpretation ule: comparison bv_ule UleExpr "\<lambda>_ x y. x \<le> y" "\<lambda>_. True"
  by unfold_locales (auto simp: compare_facts)

interpretation ugt: comparison bv_ugt UgtExpr "\<lambda>_ x y. x > y" "\<lambda>_. True"
  by unfold_locales (auto simp: compare_facts)

interpretation uge: comparison bv_uge UgeExpr "\<lambda>_ x y. x \<ge> y" "\<lambda>_. True"
  by unfold_locales (auto simp: compare_facts)

interpretation slt: comparison bv_slt SltExpr "\<lambda>n x y. sval n x < sval n y" "\<lambda>n. n \<le> 64"
  by unfold_locales (auto simp: compare_facts)

interpretation sle: comparison bv_sle SleExpr "\<lambda>n x y. sval n x \<le> sval n y" "\<lambda>n. n \<le> 64"
  by unfold_locales (auto simp: compare_facts)

interpretation sgt: comparison bv_sgt SgtExpr "\<lambda>n x y. sval n x > sval n y" "\<lambda>n. n \<le> 64"
  by unfold_locales (auto simp: compare_facts)

interpretation sge: comparison bv_sge SgeExpr "\<lambda>n x y. sval n x \<ge> sval n y" "\<lambda>n. n \<le> 64"
  by unfold_locales (auto simp: compare_facts)

lemma mk_unsigned_asserts:
  assumes "operand n l" "operand n r"
  shows "builds A (mk_ult A l r) (asserts A (\<lambda>\<rho>. sem (fpl A) \<rho> l < sem (fpl A) \<rho> r))"
    "builds A (mk_ule A l r) (asserts A (\<lambda>\<rho>. sem (fpl A) \<rho> l \<le> sem (fpl A) \<rho> r))"
    "builds A (mk_ugt A l r) (asserts A (\<lambda>\<rho>. sem (fpl A) \<rho> l > sem (fpl A) \<rho> r))"
    "builds A (mk_uge A l r) (asserts A (\<lambda>\<rho>. sem (fpl A) \<rho> l \<ge> sem (fpl A) \<rho> r))"
  unfolding mk_ult_def mk_ule_def mk_ugt_def mk_uge_def
  using ult.compare_asserts[OF assms] ule.compare_asserts[OF assms] ugt.compare_asserts[OF assms]
    uge.compare_asserts[OF assms] by simp_all

lemma mk_signed_asserts:
  assumes "operand n l" "operand n r" "n \<le> 64 \<or> dest_const l = None \<or> dest_const r = None"
  shows "builds A (mk_slt A l r) (asserts A (\<lambda>\<rho>. sval n (sem (fpl A) \<rho> l) < sval n (sem (fpl A) \<rho> r)))"
    "builds A (mk_sle A l r) (asserts A (\<lambda>\<rho>. sval n (sem (fpl A) \<rho> l) \<le> sval n (sem (fpl A) \<rho> r)))"
    "builds A (mk_sgt A l r) (asserts A (\<lambda>\<rho>. sval n (sem (fpl A) \<rho> l) > sval n (sem (fpl A) \<rho> r)))"
    "builds A (mk_sge A l r) (asserts A (\<lambda>\<rho>. sval n (sem (fpl A) \<rho> l) \<ge> sval n (sem (fpl A) \<rho> r)))"
  unfolding mk_slt_def mk_sle_def mk_sgt_def mk_sge_def
  using slt.compare_asserts[OF assms] sle.compare_asserts[OF assms] sgt.compare_asserts[OF assms]
    sge.compare_asserts[OF assms] by simp_all

section \<open>Equality\<close>

text \<open>The value still owed: the other terms less the right-hand side found so far.\<close>

definition owed :: "fp_lib \<Rightarrow> (nat \<Rightarrow> int) \<Rightarrow> expr option \<Rightarrow> expr list \<Rightarrow> int" where
  "owed F \<rho> rhs others = fold_val (+) 0 F \<rho> others - (case rhs of None \<Rightarrow> 0 | Some r \<Rightarrow> sem F \<rho> r)"

definition split_ok :: "nat \<Rightarrow> expr option \<Rightarrow> expr list \<Rightarrow> bool" where
  "split_ok n rhs others \<longleftrightarrow> operands n others \<and> (\<forall>r. rhs = Some r \<longrightarrow> operand n r \<and> neg_ok r)"

lemma mk_neg_const:
  assumes "operand n (ConstExpr c)" "neg_ok (ConstExpr c)"
  shows "builds A (mk_neg A (ConstExpr c))
    (\<lambda>y. operand n y \<and> neg_ok y \<and> (\<forall>\<rho>. sem (fpl A) \<rho> y = take_bit n (- bv_val c)))"
proof -
  have c: "bv_rep n (bv_val c) c" "BVConst_copy c = c" using assms(1) operand_const by auto
  have r: "0 \<le> bv_val c" "bv_val c < 2 ^ n" "m_size c = n" using bv_rep_range[OF c(1)] bv_rep_size[OF c(1)] by auto
  have ok: "\<not> (n = 64 \<and> bv_val c = 2 ^ 63)" using assms(2) r(3) by (auto simp: neg_ok_def)
  have ny: "neg_ok (ConstExpr k)" if "bv_rep n (take_bit n (- bv_val c)) k" for k
  proof -
    have "m_size k = n" "bv_val k = take_bit n (- bv_val c)" using that by (simp_all add: bv_rep_def)
    moreover have "(- bv_val c) mod 2 ^ 64 \<noteq> 2 ^ 63" if "n = 64"
      using ok r that by (auto simp: zmod_zminus1_eq_if)
    ultimately show ?thesis by (auto simp: neg_ok_def take_bit_eq_mod)
  qed
  show ?thesis
    unfolding mk_neg_def using ny
    by (auto simp: c(2) operand_def bv_rep_def intro!: mk_const_of_builds[OF bv_neg_yields[OF c(1) ok]])
qed

lemma split_step_neg: "a = NegExpr x \<Longrightarrow> operand n a \<Longrightarrow> operand n x \<and> neg_ok x \<and> hd (children a) = x"
  by (auto simp: operand_def neg_ok_def)

definition held :: "expr option \<Rightarrow> nat" where
  "held rhs = (case rhs of None \<Rightarrow> 0 | Some _ \<Rightarrow> 1)"

lemma eq_split_builds:
  assumes "operands n as" "\<forall>a\<in>set as. neg_ok a" "split_ok n rhs others"
  shows "builds A (eq_split A as rhs others) (\<lambda>(r, os). split_ok n r os \<and>
      length os + held r = length as + length others + held rhs \<and>
      (\<forall>\<rho>. take_bit n (owed (fpl A) \<rho> r os) = take_bit n (owed (fpl A) \<rho> rhs others + fold_val (+) 0 (fpl A) \<rho> as)))"
  (is "builds A _ (?Q as rhs others)")
  using assms
proof (induction as arbitrary: rhs others)
  case Nil
  then show ?case by auto
next
  case (Cons a as)
  have step: "builds A (eq_split A as rhs' others') (?Q (a # as) rhs others)"
    if "split_ok n rhs' others'" "length others' + held rhs' = Suc (length others + held rhs)"
      "\<And>\<rho>. take_bit n (owed (fpl A) \<rho> rhs' others') = take_bit n (owed (fpl A) \<rho> rhs others + sem (fpl A) \<rho> a)"
    for rhs' others'
  proof (rule builds_conseq[OF Cons.IH[OF _ _ that(1)]])
    show "operands n as" "\<forall>a\<in>set as. neg_ok a" using Cons.prems by auto
    fix p
    assume "?Q as rhs' others' p"
    moreover have "take_bit n (owed (fpl A) \<rho> rhs' others' + fold_val (+) 0 (fpl A) \<rho> as) =
        take_bit n (owed (fpl A) \<rho> rhs others + fold_val (+) 0 (fpl A) \<rho> (a # as))" for \<rho>
      using that(3)[of \<rho>] add_op.trunc[of n "owed (fpl A) \<rho> rhs' others'"]
        add_op.trunc[of n "owed (fpl A) \<rho> rhs others + sem (fpl A) \<rho> a"] by (simp add: add.assoc)
    ultimately show "?Q (a # as) rhs others p" using that(2) by (auto split: prod.splits)
  qed
  have a: "operand n a" "neg_ok a" and so: "split_ok n rhs others" using Cons.prems by auto
  consider (neg) x where "rhs = None" "a = NegExpr x" | (con) c where "a = ConstExpr c"
    | (other) "\<not> (rhs = None \<and> kind a = K_NEG)" "kind a \<noteq> K_CONST"
    by (cases a) auto
  then show ?case
  proof cases
    case neg
    have x: "operand n x" "neg_ok x" using a neg split_step_neg by auto
    have "take_bit n (owed (fpl A) \<rho> (Some x) others) = take_bit n (owed (fpl A) \<rho> rhs others + sem (fpl A) \<rho> a)" for \<rho>
      using neg x by (simp add: owed_def operandD take_bit_eq_mod mod_simps)
    moreover have "split_ok n (Some x) others" using x so by (simp add: split_ok_def)
    moreover have "eq_split A (a # as) rhs others = eq_split A as (Some x) others" using neg by simp
    ultimately show ?thesis using neg(1) step[of "Some x" others] by (simp add: held_def)
  next
    case other
    have "take_bit n (owed (fpl A) \<rho> rhs (others @ [a])) = take_bit n (owed (fpl A) \<rho> rhs others + sem (fpl A) \<rho> a)" for \<rho>
      by (simp add: owed_def add_op.fold_val_append algebra_simps)
    moreover have "split_ok n rhs (others @ [a])" using a so by (simp add: split_ok_def)
    moreover have "eq_split A (a # as) rhs others = eq_split A as rhs (others @ [a])" using other by auto
    ultimately show ?thesis using step[of rhs "others @ [a]"] by simp
  next
    case con
    let ?R = "\<lambda>os. operands n os \<and> length os = length others + held rhs \<and>
      (\<forall>\<rho>. take_bit n (fold_val (+) 0 (fpl A) \<rho> os) = take_bit n (owed (fpl A) \<rho> rhs others))"
    have first: "builds A (case rhs of None \<Rightarrow> ret others
        | Some r \<Rightarrow> bnd (mk_neg A r) (\<lambda>y. ret (others @ [y]))) ?R"
    proof (cases rhs)
      case None
      with so show ?thesis by (auto simp: split_ok_def held_def owed_def)
    next
      case (Some r)
      with so have r: "operand n r" "neg_ok r" "operands n others" by (auto simp: split_ok_def)
      have "builds A (bnd (mk_neg A r) (\<lambda>y. ret (others @ [y]))) ?R"
      proof (rule builds_bnd[OF mk_neg_denotes[OF r(1,2)]], rule builds_ret)
        fix y
        assume y: "denotes A n (\<lambda>\<rho>. take_bit n (- sem (fpl A) \<rho> r)) y"
        have "take_bit n (fold_val (+) 0 (fpl A) \<rho> (others @ [y])) = take_bit n (owed (fpl A) \<rho> rhs others)" for \<rho>
          using denotes_sem[OF y, of \<rho>] Some
          by (simp add: owed_def add_op.fold_val_append add_op.trunc2)
        with y r Some denotes_operand[OF y] show "?R (others @ [y])" by (simp add: held_def)
      qed
      with Some show ?thesis by simp
    qed
    have eq: "eq_split A (a # as) rhs others = bnd (case rhs of None \<Rightarrow> ret others
        | Some r \<Rightarrow> bnd (mk_neg A r) (\<lambda>y. ret (others @ [y]))) (\<lambda>os. bnd (mk_neg A a) (\<lambda>y. eq_split A as (Some y) os))"
      using con by simp
    show ?thesis
      unfolding eq
    proof (rule builds_bnd[OF first])
      fix os
      assume os: "?R os"
      show "builds A (bnd (mk_neg A a) (\<lambda>y. eq_split A as (Some y) os)) (?Q (a # as) rhs others)"
        unfolding con
      proof (rule builds_bnd[OF mk_neg_const])
        show "operand n (ConstExpr c)" "neg_ok (ConstExpr c)" using a con by auto
        fix y
        assume y: "operand n y \<and> neg_ok y \<and> (\<forall>\<rho>. sem (fpl A) \<rho> y = take_bit n (- bv_val c))"
        have "take_bit n (owed (fpl A) \<rho> (Some y) os) = take_bit n (owed (fpl A) \<rho> rhs others + sem (fpl A) \<rho> a)" for \<rho>
        proof -
          have "take_bit n (owed (fpl A) \<rho> (Some y) os) = take_bit n (take_bit n (fold_val (+) 0 (fpl A) \<rho> os) - take_bit n (- bv_val c))"
            using y by (simp add: owed_def take_bit_eq_mod mod_simps)
          also have "\<dots> = take_bit n (take_bit n (owed (fpl A) \<rho> rhs others) - take_bit n (- bv_val c))"
            using os by simp
          finally show ?thesis using con by (simp add: take_bit_eq_mod mod_simps)
        qed
        with os y show "builds A (eq_split A as (Some y) os) (?Q (ConstExpr c # as) rhs others)"
          using con by (intro step[unfolded con]) (auto simp: split_ok_def held_def)
      qed
    qed
  qed
qed


lemma take_bit_diff_0:
  assumes "take_bit n y = (y :: int)"
  shows "take_bit n (x - y) = 0 \<longleftrightarrow> take_bit n x = y"
proof
  assume "take_bit n (x - y) = 0"
  then have "take_bit n (take_bit n (x - y) + y) = take_bit n y" by simp
  then show "take_bit n x = y" using assms by (simp add: take_bit_eq_mod mod_simps)
next
  assume x: "take_bit n x = y"
  have "take_bit n (x - y) = take_bit n (take_bit n x - y)" by (simp add: take_bit_eq_mod mod_simps)
  with x show "take_bit n (x - y) = 0" by simp
qed

lemma goc_eq:
  assumes "operand n l" "operand n r" "\<And>\<rho>. v \<rho> = (sem (fpl A) \<rho> l = sem (fpl A) \<rho> r)"
  shows "builds A (get_or_create A (EqExpr l r)) (asserts A v)"
  using assms by (intro goc_asserts) (auto simp: operand_def)

lemma goc_add:
  assumes "operands n es" "2 \<le> length es"
  shows "builds A (get_or_create A (AddExpr es)) (denotes A n (\<lambda>\<rho>. take_bit n (fold_val (+) 0 (fpl A) \<rho> es)))"
proof (rule goc_denotes)
  have ne: "es \<noteq> []" using assms(2) by auto
  have sw: "same_width es \<and> (\<forall>e\<in>set es. wf_expr e)" using operands_same_width[OF assms(1) ne] .
  have n: "expr_size (hd es) = n" using operands_hd[OF assms(1) ne] .
  show "wf_expr (AddExpr es)" using sw assms(2) by simp
  show "expr_size (AddExpr es) = n" using n ne add_op.node_size by simp
  show "sem (fpl A) \<rho> (AddExpr es) = take_bit n (fold_val (+) 0 (fpl A) \<rho> es)" for \<rho>
    using add_op.node_sem[OF ne] n by (simp add: fold_val_def)
qed simp_all

lemma add_addends_Some [simp]: "add_addends e = Some es \<longleftrightarrow> e = AddExpr es"
  by (auto simp: add_addends_def split: expr.splits)

lemma add_addends_Add [simp]: "add_addends (AddExpr es) = Some es"
  by simp

text \<open>The constants of a sum that \<^verbatim>\<open>mk_eq\<close> moves to the other side.\<close>

definition eq_ok :: "expr \<Rightarrow> bool" where
  "eq_ok e \<longleftrightarrow> (case add_addends e of None \<Rightarrow> True | Some es \<Rightarrow> \<forall>a\<in>set es. neg_ok a)"

lemma mk_eq_moved:
  assumes l: "operand n (AddExpr es)" and ok: "\<forall>a\<in>set es. neg_ok a"
    and z: "operand n zero" "\<And>\<rho>. sem (fpl A) \<rho> zero = 0"
  shows "builds A (bnd (eq_split A es None []) (\<lambda>(r, others). case r of
           None \<Rightarrow> get_or_create A (EqExpr (AddExpr es) zero)
         | Some r' \<Rightarrow> (case others of
              [] \<Rightarrow> throw (Assertion ''mk_eq'')
            | [e] \<Rightarrow> get_or_create A (EqExpr e r')
            | _ \<Rightarrow> bnd (get_or_create A (AddExpr others)) (\<lambda>ae. get_or_create A (EqExpr ae r')))))
    (asserts A (\<lambda>\<rho>. sem (fpl A) \<rho> (AddExpr es) = 0))"
proof (rule builds_bnd[OF eq_split_builds])
  have es: "operands n es" "2 \<le> length es" "\<And>\<rho>. take_bit n (fold_val (+) 0 (fpl A) \<rho> es) = sem (fpl A) \<rho> (AddExpr es)"
    using add_op.els_spec[OF l, of es] l by (auto simp: operand_def)
  show "operands n es" "\<forall>a\<in>set es. neg_ok a" "split_ok n None []" using es ok by (simp_all add: split_ok_def)
  fix p
  assume "(\<lambda>(r, os). split_ok n r os \<and> length os + held r = length es + length ([] :: expr list) + held None \<and>
      (\<forall>\<rho>. take_bit n (owed (fpl A) \<rho> r os) = take_bit n (owed (fpl A) \<rho> None [] + fold_val (+) 0 (fpl A) \<rho> es))) p"
  then obtain r os where p: "p = (r, os)" and so: "split_ok n r os" and len: "length os + held r = length es"
    and v: "\<And>\<rho>. take_bit n (owed (fpl A) \<rho> r os) = sem (fpl A) \<rho> (AddExpr es)"
    using es(3) by (auto simp: owed_def held_def)
  show "builds A (case p of (r, others) \<Rightarrow> (case r of
           None \<Rightarrow> get_or_create A (EqExpr (AddExpr es) zero)
         | Some r' \<Rightarrow> (case others of
              [] \<Rightarrow> throw (Assertion ''mk_eq'')
            | [e] \<Rightarrow> get_or_create A (EqExpr e r')
            | _ \<Rightarrow> bnd (get_or_create A (AddExpr others)) (\<lambda>ae. get_or_create A (EqExpr ae r')))))
    (asserts A (\<lambda>\<rho>. sem (fpl A) \<rho> (AddExpr es) = 0))"
  proof (cases r)
    case None
    with p z l show ?thesis by (auto intro!: goc_eq[of n])
  next
    case (Some r')
    with so have r': "operand n r'" "operands n os" by (auto simp: split_ok_def)
    have eq: "sem (fpl A) \<rho> (AddExpr es) = 0 \<longleftrightarrow>
        take_bit n (fold_val (+) 0 (fpl A) \<rho> os) = sem (fpl A) \<rho> r'" for \<rho>
      unfolding v[symmetric] using Some take_bit_diff_0[OF operand_take_bit[OF r'(1)]] by (simp add: owed_def)
    have "1 \<le> length os" using len es(2) Some by (simp add: held_def)
    then consider e where "os = [e]" | e e' os' where "os = e # e' # os'" by (cases os; cases "tl os") auto
    then show ?thesis
    proof cases
      case 1
      with p Some r' eq show ?thesis by (auto simp: operand_take_bit intro!: goc_eq[of n])
    next
      case 2
      have "builds A (bnd (get_or_create A (AddExpr os)) (\<lambda>ae. get_or_create A (EqExpr ae r')))
        (asserts A (\<lambda>\<rho>. sem (fpl A) \<rho> (AddExpr es) = 0))"
      proof (rule builds_bnd[OF goc_add[OF r'(2)]])
        show "2 \<le> length os" using 2 by simp
        fix ae
        assume ae: "denotes A n (\<lambda>\<rho>. take_bit n (fold_val (+) 0 (fpl A) \<rho> os)) ae"
        show "builds A (get_or_create A (EqExpr ae r')) (asserts A (\<lambda>\<rho>. sem (fpl A) \<rho> (AddExpr es) = 0))"
          using r' denotes_operand[OF ae] denotes_sem[OF ae] eq by (intro goc_eq[of n]) auto
      qed
      with p Some 2 show ?thesis by simp
    qed
  qed
qed

lemma mk_eq_asserts:
  assumes "operand n l" "operand n r" "eq_ok l"
  shows "builds A (mk_eq A l r) (asserts A (\<lambda>\<rho>. sem (fpl A) \<rho> l = sem (fpl A) \<rho> r))"
proof -
  let ?P = "asserts A (\<lambda>\<rho>. sem (fpl A) \<rho> l = sem (fpl A) \<rho> r)"
  have c: "check_size_or_fail op l r = ret ()" for op using assms by (simp add: check_size_or_fail_def operandD)
  have goc: "builds A (get_or_create A (EqExpr l r)) ?P" using assms by (intro goc_eq[of n]) auto
  show ?thesis
  proof (cases r rule: case_dest_const)
    case NonConst
    with goc c show ?thesis by (auto simp: mk_eq_def split: option.split)
  next
    case (Const b)
    then have b: "bv_rep n (bv_val b) b" using assms(2) operand_const by auto
    show ?thesis
    proof (cases l rule: case_dest_const)
      case (Const a)
      then have "bv_rep n (bv_val a) a" using assms(1) operand_const by auto
      with Const \<open>r = ConstExpr b\<close> b c show ?thesis by (auto simp: mk_eq_def bv_eq_rep intro!: mk_bool_asserts)
    next
      case NonConst
      have z: "bv_is_zero b = Inr (bv_val b = 0)" using b by (rule bv_is_zero_rep)
      show ?thesis
      proof (cases "add_addends l")
        case None
        with NonConst Const c goc show ?thesis by (simp add: mk_eq_def)
      next
        case (Some es)
        then have l: "l = AddExpr es" by simp
        show ?thesis
        proof (cases "bv_val b = 0")
          case False
          with NonConst Const c goc z Some show ?thesis by (simp add: mk_eq_def)
        next
          case True
          have r: "operand n r" "\<And>\<rho>. sem (fpl A) \<rho> r = 0" using assms(2) Const True by simp_all
          have "operand n (AddExpr es)" "\<forall>a\<in>set es. neg_ok a" using assms(1,3) Some l by (auto simp: eq_ok_def)
          note m = mk_eq_moved[OF this r]
          have "dest_const (AddExpr es) = None" by (simp add: dest_const_def)
          with m[unfolded Const] r(2) Const True c z l show ?thesis by (simp add: mk_eq_def)
        qed
      qed
    qed
  qed
qed

section \<open>Connectives\<close>

lemma mk_bool_not_asserts:
  assumes "wf_expr e" "is_bool e"
  shows "builds A (mk_bool_not A e) (asserts A (\<lambda>\<rho>. sem (fpl A) \<rho> e = 0))"
proof -
  consider b where "e = BoolConst b" | x where "e = BoolNotExpr x"
    | "mk_bool_not A e = get_or_create A (BoolNotExpr e)"
    by (cases e) (auto simp: mk_bool_not_def)
  then show ?thesis
  proof cases
    case 1
    then show ?thesis by (cases b) (auto simp: mk_bool_not_def mk_true_def mk_false_def asserts_def)
  next
    case 2
    with assms sem_bool_range[of x] show ?thesis
      by (auto simp: mk_bool_not_def asserts_def)
  next
    case 3
    with assms show ?thesis by (auto intro!: goc_asserts)
  qed
qed


lemma mk_neq_asserts:
  assumes "operand n l" "operand n r" "eq_ok l"
  shows "builds A (mk_neq A l r) (asserts A (\<lambda>\<rho>. sem (fpl A) \<rho> l \<noteq> sem (fpl A) \<rho> r))"
  unfolding mk_neq_def
proof (rule builds_bnd[OF mk_eq_asserts[OF assms]])
  fix x
  assume x: "asserts A (\<lambda>\<rho>. sem (fpl A) \<rho> l = sem (fpl A) \<rho> r) x"
  then have b: "wf_expr x" "is_bool x" by (auto simp: asserts_def)
  have "(sem (fpl A) \<rho> x = 0) = (sem (fpl A) \<rho> l \<noteq> sem (fpl A) \<rho> r)" for \<rho>
    using x by (simp add: asserts_def)
  with mk_bool_not_asserts[OF b, of A]
  show "builds A (mk_bool_not A x) (asserts A (\<lambda>\<rho>. sem (fpl A) \<rho> l \<noteq> sem (fpl A) \<rho> r))" by simp
qed

text \<open>A Boolean node that can be an operand.\<close>

definition formula :: "expr \<Rightarrow> bool" where
  "formula e \<longleftrightarrow> wf_expr e \<and> is_bool e"

abbreviation holds :: "fp_lib \<Rightarrow> (nat \<Rightarrow> int) \<Rightarrow> expr \<Rightarrow> bool" where
  "holds F \<rho> e \<equiv> sem F \<rho> e \<noteq> 0"

lemma formula_holds: "formula e \<Longrightarrow> sem F \<rho> e = of_bool (holds F \<rho> e)"
  using sem_bool_range by (simp add: formula_def)

lemma asserts_ret: "formula e \<Longrightarrow> (\<And>\<rho>. v \<rho> = holds (fpl A) \<rho> e) \<Longrightarrow> builds A (ret e) (asserts A v)"
  by (rule builds_ret) (auto simp: asserts_def formula_def sem_bool_range[symmetric] intro: sem_bool_range)

lemma set_ptr_set [simp]: "set (ptr_set A es) = set es"
  by (simp add: ptr_set_def sort_addr_def)

lemma set_sort_addr [simp]: "set (sort_addr A es) = set es"
  by (simp add: sort_addr_def)

lemma dest_bool_Some [simp]: "dest_bool e = Some b \<longleftrightarrow> e = BoolConst b"
  by (auto simp: dest_bool_def split: expr.splits)

lemma dest_bool_BoolConst [simp]: "dest_bool (BoolConst b) = Some b"
  by simp

text \<open>
  Conjunction and disjunction differ in the constant that absorbs and in the quantifier: \<open>absorb\<close> is the absorbing
  constant, and a node of operands holds unless (for the conjunction) or only if (for the disjunction) one of them does.
\<close>

locale connective =
  fixes absorb :: bool and node :: "expr list \<Rightarrow> expr" and els :: "expr \<Rightarrow> expr list"
  assumes node_formula: "formula (node es) \<longleftrightarrow> (\<forall>e\<in>set es. formula e)"
    and node_kind: "kind (node es) \<noteq> K_SYM"
    and node_holds: "(holds F \<rho> (node es) = absorb) \<longleftrightarrow> (\<exists>e\<in>set es. holds F \<rho> e = absorb)"
    and els_cases: "els e = [e] \<or> e = node (els e)"
begin

lemma els_formula: "formula e \<Longrightarrow> x \<in> set (els e) \<Longrightarrow> formula x"
  using els_cases[of e] node_formula[of "els e"] by auto

lemma els_holds: "(\<exists>x\<in>set (els e). holds F \<rho> x = absorb) \<longleftrightarrow> holds F \<rho> e = absorb"
  using els_cases[of e]
proof
  assume "e = node (els e)"
  then show ?thesis using node_holds[of F \<rho> "els e"] by simp
qed simp

lemma connective_asserts:
  assumes "formula a" "formula b" and es: "es = ptr_set A (els a @ els b)"
  shows "builds A (if list_ex (\<lambda>e. dest_bool e = Some absorb) es then mk_bool absorb
       else (case filter (\<lambda>e. dest_bool e = None) es of
             [] \<Rightarrow> mk_bool (\<not> absorb)
           | [e] \<Rightarrow> ret e
           | es' \<Rightarrow> get_or_create A (node (sort_addr A es'))))
    (asserts A (\<lambda>\<rho>. (holds (fpl A) \<rho> a = absorb \<or> holds (fpl A) \<rho> b = absorb) = absorb))"
    (is "builds A _ (asserts A ?v)")
proof -
  let ?some = "\<lambda>\<rho> xs. \<exists>x\<in>set xs. holds (fpl A) \<rho> x = absorb"
  let ?fs = "filter (\<lambda>e. dest_bool e = None) es"
  have fm: "\<forall>x\<in>set es. formula x" using assms els_formula by auto
  have v: "?v \<rho> = (?some \<rho> es = absorb)" for \<rho>
    using els_holds[of a "fpl A" \<rho>] els_holds[of b "fpl A" \<rho>] by (simp add: es bex_Un)
  show ?thesis
  proof (cases "\<exists>e\<in>set es. dest_bool e = Some absorb")
    case True
    then have "BoolConst absorb \<in> set es" by auto
    then have "?some \<rho> es" for \<rho> by (intro bexI[of _ "BoolConst absorb"]) auto
    with v True show ?thesis by (auto simp: list_ex_iff intro!: mk_bool_asserts)
  next
    case False
    have drop: "?some \<rho> es = ?some \<rho> ?fs" for \<rho>
    proof
      assume "?some \<rho> es"
      then obtain x where x: "x \<in> set es" "holds (fpl A) \<rho> x = absorb" by blast
      then have "dest_bool x = None" using False by (cases "dest_bool x") auto
      with x show "?some \<rho> ?fs" by auto
    qed auto
    have fs: "\<forall>x\<in>set ?fs. formula x" using fm by auto
    have "builds A (case ?fs of [] \<Rightarrow> mk_bool (\<not> absorb) | [e] \<Rightarrow> ret e
           | es' \<Rightarrow> get_or_create A (node (sort_addr A es'))) (asserts A ?v)"
    proof (cases ?fs)
      case Nil
      with v drop show ?thesis by (auto intro!: mk_bool_asserts)
    next
      case (Cons e rest)
      show ?thesis
      proof (cases rest)
        case Nil
        with Cons fs v drop show ?thesis by (auto intro!: asserts_ret)
      next
        case (Cons e' rest')
        with \<open>?fs = e # rest\<close> have eq: "?fs = e # e' # rest'" by simp
        have f: "formula (node (sort_addr A ?fs))" using fs node_formula by auto
        have h: "?v \<rho> = holds (fpl A) \<rho> (node (sort_addr A ?fs))" for \<rho>
        proof -
          have "?v \<rho> = ((holds (fpl A) \<rho> (node (sort_addr A ?fs)) = absorb) = absorb)"
            by (simp only: v drop node_holds set_sort_addr)
          moreover have "((p = absorb) = absorb) = p" for p by auto
          ultimately show ?thesis by (simp only:)
        qed
        have "builds A (get_or_create A (node (sort_addr A ?fs))) (asserts A ?v)"
          using f formula_holds[OF f] h node_kind by (intro goc_asserts) (auto simp: formula_def)
        with eq show ?thesis by simp
      qed
    qed
    with False show ?thesis by (simp add: list_ex_iff)
  qed
qed

end

interpretation conj: connective False BoolAndExpr bool_and_els
  by unfold_locales (auto simp: formula_def bool_and_els_def list_all_iff split: expr.split)

interpretation disj: connective True BoolOrExpr bool_or_els
  by unfold_locales (auto simp: formula_def bool_or_els_def list_all_iff list_ex_iff split: expr.split)

lemma mk_bool_and_asserts:
  assumes "formula a" "formula b"
  shows "builds A (mk_bool_and A a b) (asserts A (\<lambda>\<rho>. holds (fpl A) \<rho> a \<and> holds (fpl A) \<rho> b))"
  using conj.connective_asserts[OF assms refl, of A] unfolding mk_bool_and_def Let_def mk_bool_def simp_thms if_True if_False by simp

lemma mk_bool_or_asserts:
  assumes "formula a" "formula b"
  shows "builds A (mk_bool_or A a b) (asserts A (\<lambda>\<rho>. holds (fpl A) \<rho> a \<or> holds (fpl A) \<rho> b))"
  using disj.connective_asserts[OF assms refl, of A] unfolding mk_bool_or_def Let_def mk_bool_def simp_thms if_True if_False
  by simp

lemma mk_bool_and_no_simpl_asserts:
  assumes "\<forall>e\<in>set es. formula e"
  shows "builds A (mk_bool_and_no_simpl A es) (asserts A (\<lambda>\<rho>. \<forall>e\<in>set es. holds (fpl A) \<rho> e))"
proof -
  have s: "set (ptr_set A es) = set es" by simp
  consider "ptr_set A es = []" | e where "ptr_set A es = [e]" | e e' es' where "ptr_set A es = e # e' # es'"
    by (cases "ptr_set A es"; cases "tl (ptr_set A es)") auto
  then show ?thesis
  proof cases
    case 1
    with s show ?thesis by (auto simp: mk_bool_and_no_simpl_def mk_true_def asserts_def)
  next
    case 2
    with s have "set es = {e}" by auto
    with 2 assms show ?thesis by (auto simp: mk_bool_and_no_simpl_def intro!: asserts_ret)
  next
    case 3
    have "builds A (get_or_create A (BoolAndExpr (ptr_set A es))) (asserts A (\<lambda>\<rho>. \<forall>e\<in>set es. holds (fpl A) \<rho> e))"
      using assms by (intro goc_asserts) (auto simp: formula_def list_all_iff)
    with 3 show ?thesis by (simp add: mk_bool_and_no_simpl_def)
  qed
qed

section \<open>Conversions\<close>

lemma bool_to_bv_denotes:
  assumes "formula e"
  shows "builds A (bool_to_bv A e) (denotes A 8 (\<lambda>\<rho>. of_bool (holds (fpl A) \<rho> e)))"
  unfolding bool_to_bv_def
proof (rule builds_bnd[OF const_u64_denotes[where w = "\<lambda>_. 1"]], simp, simp,
    rule builds_bnd[OF const_u64_denotes[where w = "\<lambda>_. 0"]], simp, simp)
  fix one zero
  assume 1: "denotes A 8 (\<lambda>_. 1) one" and 0: "denotes A 8 (\<lambda>_. 0) zero"
  have "wf_expr e" "is_bool e" using assms by (auto simp: formula_def)
  from mk_ite_denotes[OF this denotes_operand[OF 1] denotes_operand[OF 0], of A]
  show "builds A (mk_ite A e one zero) (denotes A 8 (\<lambda>\<rho>. of_bool (holds (fpl A) \<rho> e)))"
    by (rule denotes_cong) (simp add: denotes_sem[OF 1] denotes_sem[OF 0])
qed

lemma case_not_ite: "\<nexists>g t f. e = ITEExpr g t f \<Longrightarrow> (case e of ITEExpr g t f \<Rightarrow> h g t f | _ \<Rightarrow> r) = r"
  by (cases e) simp_all

lemma bv_to_bool_asserts:
  assumes "operand n e"
  shows "builds A (bv_to_bool A e) (asserts A (\<lambda>\<rho>. sem (fpl A) \<rho> e \<noteq> 0))"
proof -
  let ?P = "asserts A (\<lambda>\<rho>. sem (fpl A) \<rho> e \<noteq> 0)"
  let ?rest = "bnd (mk_const_u64 A 0 (expr_size e)) (\<lambda>zero. mk_ugt A e zero)"
  have n: "0 < expr_size e" "expr_size e = n" using assms operandD by auto
  have rest: "builds A ?rest ?P"
  proof (rule builds_bnd[OF const_u64_denotes[where w = "\<lambda>_. 0"]])
    fix zero
    assume z: "denotes A (expr_size e) (\<lambda>_. 0) zero"
    have "operand n zero" using denotes_operand[OF z] n(2) by simp
    note u = mk_unsigned_asserts(3)[OF assms this, of A]
    have "(sem (fpl A) \<rho> zero < sem (fpl A) \<rho> e) = (sem (fpl A) \<rho> e \<noteq> 0)" for \<rho>
      using denotes_sem[OF z, of \<rho>] operand_range[OF assms, of "fpl A" \<rho>] by auto
    with u show "builds A (mk_ugt A e zero) ?P" by simp
  qed (use n in simp_all)
  show ?thesis
  proof (cases "\<exists>g a b. e = ITEExpr g (ConstExpr a) (ConstExpr b)")
    case False
    have "bv_to_bool A e = ?rest"
    proof (cases "\<exists>g t f. e = ITEExpr g t f")
      case True
      then obtain g t f where e: "e = ITEExpr g t f" by blast
      with False have "dest_const t = None \<or> dest_const f = None" by (cases "dest_const t"; cases "dest_const f") auto
      with e show ?thesis by (auto simp: bv_to_bool_def Let_def split: option.split)
    next
      case False
      then show ?thesis unfolding bv_to_bool_def Let_def by (rule case_not_ite)
    qed
    with rest show ?thesis by simp
  next
    case True
    then obtain g a b where e: "e = ITEExpr g (ConstExpr a) (ConstExpr b)" by blast
    have g: "formula g" and o: "operand n (ConstExpr a)" "operand n (ConstExpr b)"
      using assms unfolding e by (simp_all add: operand_def formula_def)
    have ab: "bv_rep n (bv_val a) a" "bv_rep n (bv_val b) b" using o operand_const by blast+
    have "bv_is_one a = Inr (bv_val a = 1)" "bv_is_zero b = Inr (bv_val b = 0)"
      using ab by (auto intro: bv_is_one_rep bv_is_zero_rep)
    then have eq: "bv_to_bool A e = (if bv_val a = 1 \<and> bv_val b = 0 then ret g else ?rest)"
      using e by (simp add: bv_to_bool_def Let_def)
    show ?thesis
    proof (cases "bv_val a = 1 \<and> bv_val b = 0")
      case True
      with eq e g show ?thesis by (auto intro!: asserts_ret)
    next
      case False
      with eq rest show ?thesis by simp
    qed
  qed
qed

end
