(* ===== verification/ShiftDivSpec.thy ===== *)
theory ShiftDivSpec
  imports LogicSpec
begin

unbundle bit_operations_syntax

text \<open>
  Shifts and divisions: where the builder folds constants the result is the SMT-LIB value, with the exceptions that
  the last section states.
\<close>

section \<open>Shifts\<close>

lemma check_same [simp]: "operand n l \<Longrightarrow> operand n r \<Longrightarrow> check_size_or_fail op l r = ret ()"
  by (simp add: check_size_or_fail_def operandD)

lemma shift_amount:
  assumes "bv_rep n y v" "n \<le> 64" "y < 2 ^ 32"
  shows "bv_as_u64 v = Inr (word_of_int y)" "unat (word_of_int y :: 64 word) = nat y"
    "unat (ucast (word_of_int y :: 64 word) :: 32 word) = nat y"
proof -
  have y: "0 \<le> y" using bv_rep_range[OF assms(1)] by simp
  then obtain k where k: "y = int k" using zero_le_imp_eq_int by blast
  have b: "k < 2 ^ 32" "k < 2 ^ 64" using assms(3) k by simp_all
  show "bv_as_u64 v = Inr (word_of_int y)" using bv_as_u64_rep[OF assms(1,2)] .
  show "unat (word_of_int y :: 64 word) = nat y" using b k by (simp add: unsigned_of_nat take_bit_nat_eq_self)
  then show "unat (ucast (word_of_int y :: 64 word) :: 32 word) = nat y"
    using b k by (simp add: unsigned_ucast_eq take_bit_nat_eq_self)
qed

text \<open>
  What the two logical shifts share: a shift \<open>f\<close> of constants that computes \<open>val n\<close>, and a node that means it.
\<close>

locale logical_shift =
  fixes f :: "bvconst \<Rightarrow> 32 word \<Rightarrow> bvconst res"
    and node :: "expr \<Rightarrow> expr \<Rightarrow> expr"
    and val :: "nat \<Rightarrow> int \<Rightarrow> int \<Rightarrow> int"
  assumes f_yields: "bv_rep n x c \<Longrightarrow> n \<le> 64 \<Longrightarrow> bv_yields n (val n x (int (unat v))) (f c v)"
    and val_0: "take_bit n x = x \<Longrightarrow> val n x 0 = x"
    and val_large: "int n \<le> y \<Longrightarrow> val n x y = 0"
    and node_wf: "wf_expr (node l r) \<longleftrightarrow> wf_expr l \<and> wf_expr r \<and> is_bv l \<and> is_bv r \<and> expr_size l = expr_size r"
    and node_bv: "is_bv (node l r) \<and> kind (node l r) \<noteq> K_SYM"
    and node_size: "expr_size (node l r) = expr_size l"
    and node_sem: "sem F \<rho> (node l r) = val (expr_size l) (sem F \<rho> l) (sem F \<rho> r)"
begin

lemma goc_shift:
  "operand n e \<Longrightarrow> operand n v \<Longrightarrow>
   builds A (get_or_create A (node e v)) (denotes A n (\<lambda>\<rho>. val n (sem (fpl A) \<rho> e) (sem (fpl A) \<rho> v)))"
  using node_bv by (intro goc_denotes) (auto simp: node_wf node_size node_sem operand_def)

lemma shift_denotes:
  assumes "operand n e" "operand n v" "\<And>k. v = ConstExpr k \<Longrightarrow> n \<le> 64 \<and> (bv_val k < 2 ^ 32 \<or> dest_const e = None)"
  shows "builds A (case dest_const v of
       Some w \<Rightarrow>
         (case dest_const e of
            Some c \<Rightarrow> bnd (liftr (bv_fit_in_u64 w)) (\<lambda>fit.
              if \<not> fit then mk_const_u64 A 0 (expr_size e)
              else mk_const_of A (shift_const f c w))
          | None \<Rightarrow> shift_special A e w (mk_const_u64 A 0 (expr_size e)) (get_or_create A (node e v)))
     | None \<Rightarrow> get_or_create A (node e v))
    (denotes A n (\<lambda>\<rho>. val n (sem (fpl A) \<rho> e) (sem (fpl A) \<rho> v)))"
    (is "builds A _ ?P")
proof (cases v rule: case_dest_const)
  case NonConst
  with goc_shift[OF assms(1,2)] show ?thesis by simp
next
  case (Const w)
  have n: "0 < n" "expr_size e = n" using operandD[OF assms(1)] by auto
  have w: "bv_rep n (bv_val w) w" "n \<le> 64" using assms(2,3) Const operand_const by auto
  show ?thesis
  proof (cases e rule: case_dest_const)
    case (Const c)
    have c: "bv_rep n (bv_val c) c" "BVConst_copy c = c" using assms(1) Const operand_const by auto
    have small: "bv_val w < 2 ^ 32" using assms(3) Const \<open>v = ConstExpr w\<close> by auto
    note am = shift_amount[OF w this]
    have nn: "0 \<le> bv_val w" using bv_rep_range[OF w(1)] by simp
    have "bv_fit_in_u64 w = Inr True" using bv_fit_in_u64_rep[OF w(1)] small by simp
    moreover have "bv_yields n (val n (bv_val c) (bv_val w)) (shift_const f c w)"
      using f_yields[OF c(1) w(2), of "ucast (word_of_int (bv_val w) :: 64 word)"] am nn c(2)
      by (simp add: shift_const_def)
    ultimately show ?thesis
      using Const \<open>v = ConstExpr w\<close> by (auto intro!: const_denotes)
  next
    case NonConst
    have special: "builds A (shift_special A e w (mk_const_u64 A 0 (expr_size e)) (get_or_create A (node e v))) ?P"
    proof (cases "bv_val w = 0")
      case True
      with bv_is_zero_rep[OF w(1)] Const assms(1) show ?thesis
        by (auto simp: shift_special_def val_0 operand_take_bit intro!: extract_denotes_ret)
    next
      case False
      have r: "0 \<le> bv_val w" "bv_val w < 2 ^ n" using bv_rep_range[OF w(1)] by auto
      have "(2 :: int) ^ n \<le> 2 ^ 64" by (rule power_increasing) (use w(2) in simp_all)
      with r have u: "unat (word_of_int (bv_val w) :: 64 word) = nat (bv_val w)"
        by (simp add: nat_uint_eq[symmetric] unsigned_of_int take_bit_int_eq_self)
      have eq: "shift_special A e w (mk_const_u64 A 0 (expr_size e)) (get_or_create A (node e v)) =
          (if int n \<le> bv_val w then mk_const_u64 A 0 n else get_or_create A (node e v))"
        using False bv_is_zero_rep[OF w(1)] bv_as_u64_rep[OF w] u n r by (auto simp: shift_special_def)
      show ?thesis
      proof (cases "int n \<le> bv_val w")
        case True
        with eq Const n show ?thesis by (auto simp: val_large intro!: const_u64_denotes)
      next
        case False
        with eq goc_shift[OF assms(1,2)] show ?thesis by simp
      qed
    qed
    with NonConst Const show ?thesis by simp
  qed
qed

end

lemma uint_unat: "int n \<le> uint v \<longleftrightarrow> n \<le> unat v" "nat (uint v) = unat v" for v :: "32 word"
  by (metis of_nat_le_iff uint_nat) (simp add: nat_uint_eq)

lemma shl_large: "n \<le> k \<Longrightarrow> take_bit n (push_bit k (x :: int)) = 0"
  by (rule bit_eqI) (auto simp: bit_simps)

lemma lshr_large: "bv_rep n x c \<Longrightarrow> n \<le> k \<Longrightarrow> drop_bit k x = 0"
  using bv_rep_range[of n x c] bit_of_range[of x n] by (intro bit_eqI) (force simp: bit_simps)

interpretation shl: logical_shift bv_shl ShlExpr shl_val
proof unfold_locales
  fix n x c and v :: "32 word"
  assume "bv_rep n x c" "n \<le> 64"
  from bv_shl_small_yields[OF this, of v] show "bv_yields n (shl_val n x (int (unat v))) (bv_shl c v)"
    by (auto simp: shl_val_def uint_unat shl_large split: if_splits)
qed (auto simp: shl_val_def)

interpretation lshr: logical_shift bv_lshr LShrExpr lshr_val
proof unfold_locales
  fix n x c and v :: "32 word"
  assume a: "bv_rep n x c" "n \<le> 64"
  from bv_lshr_yields[OF this(1), of v] lshr_large[OF a(1)]
  show "bv_yields n (lshr_val n x (int (unat v))) (bv_lshr c v)"
    by (auto simp: lshr_val_def uint_unat split: if_splits)
qed (auto simp: lshr_val_def)

text \<open>The amount of a shift by a constant that the code handles.\<close>

definition shift_ok :: "nat \<Rightarrow> expr \<Rightarrow> expr \<Rightarrow> bool" where
  "shift_ok n e v \<longleftrightarrow> (case dest_const v of None \<Rightarrow> True
     | Some k \<Rightarrow> n \<le> 64 \<and> (bv_val k < 2 ^ 32 \<or> dest_const e = None))"

lemma shift_okD: "shift_ok n e v \<Longrightarrow> v = ConstExpr k \<Longrightarrow> n \<le> 64 \<and> (bv_val k < 2 ^ 32 \<or> dest_const e = None)"
  by (simp add: shift_ok_def)

lemma mk_shl_denotes:
  "operand n e \<Longrightarrow> operand n v \<Longrightarrow> shift_ok n e v \<Longrightarrow>
   builds A (mk_shl A e v) (denotes A n (\<lambda>\<rho>. shl_val n (sem (fpl A) \<rho> e) (sem (fpl A) \<rho> v)))"
  unfolding mk_shl_def by (subst check_same) (simp_all add: shl.shift_denotes[OF _ _ shift_okD])

lemma mk_lshr_denotes:
  "operand n e \<Longrightarrow> operand n v \<Longrightarrow> shift_ok n e v \<Longrightarrow>
   builds A (mk_lshr A e v) (denotes A n (\<lambda>\<rho>. lshr_val n (sem (fpl A) \<rho> e) (sem (fpl A) \<rho> v)))"
  unfolding mk_lshr_def by (subst check_same) (simp_all add: lshr.shift_denotes[OF _ _ shift_okD])

text \<open>Wider than 64 bits, a constant amount other than zero makes the builder read a member that was never set.\<close>

lemma wide_amount:
  assumes "operand n (ConstExpr k)" "64 < n" "bv_val k < 2 ^ 64"
  shows "bv_as_u64 k = Inl (Undefined ''m_small_val is not initialised'')"
proof -
  have k: "bv_rep n (bv_val k) k" "BVConst_copy k = k" using assms(1) operand_const by auto
  have "m_small_val (BVConst_copy k) = None" using k(1) assms(2) by (simp add: BVConst_copy_def bv_rep_size)
  then have "small_val k = Inl (Undefined ''m_small_val is not initialised'')" using k(2) by (simp add: small_val_def)
  with bv_as_u64_eq[OF k(1)] assms(3) show ?thesis by simp
qed

lemma mk_shift_wide:
  assumes "operand n e" "operand n (ConstExpr k)" "64 < n" "bv_val k \<noteq> 0" "bv_val k < 2 ^ 64" "dest_const e = None"
  shows "mk_shl A e (ConstExpr k) s = Inl (Undefined ''m_small_val is not initialised'')"
    "mk_lshr A e (ConstExpr k) s = Inl (Undefined ''m_small_val is not initialised'')"
proof -
  have "bv_rep n (bv_val k) k" using assms(2) operand_const by blast
  then have z: "bv_is_zero k = Inr False" using assms(4) bv_is_zero_rep by auto
  note w = wide_amount[OF assms(2,3,5)]
  show "mk_shl A e (ConstExpr k) s = Inl (Undefined ''m_small_val is not initialised'')"
    "mk_lshr A e (ConstExpr k) s = Inl (Undefined ''m_small_val is not initialised'')"
    using check_same[OF assms(1,2)] assms(6) z w
    by (simp_all add: mk_shl_def mk_lshr_def shift_special_def throw_apply)
qed


section \<open>Division\<close>

lemma const_zero_rep: "bv_rep n x d \<Longrightarrow> const_zero (ConstExpr d) = Inr (x = 0)"
  by (simp add: const_zero_def bv_is_zero_rep)

lemma const_one_rep: "bv_rep n x d \<Longrightarrow> const_one (ConstExpr d) = Inr (x = 1)"
  by (simp add: const_one_def bv_is_one_rep)

text \<open>The divisions whose divisor is a constant and that the builder evaluates at once.\<close>

lemma mk_unsigned_div_denotes:
  assumes "operand n l" "operand n (ConstExpr d)" "dest_const l \<noteq> None \<or> bv_val d = 0"
  shows "builds A (mk_udiv A l (ConstExpr d)) (denotes A n (\<lambda>\<rho>. udiv_val n (sem (fpl A) \<rho> l) (bv_val d)))"
    "builds A (mk_urem A l (ConstExpr d)) (denotes A n (\<lambda>\<rho>. urem_val n (sem (fpl A) \<rho> l) (bv_val d)))"
proof -
  have d: "bv_rep n (bv_val d) d" using assms(2) operand_const by blast
  have n: "0 < n" "expr_size l = n" using operandD[OF assms(1)] by auto
  note cs = check_same[OF assms(1,2)] and cz = const_zero_rep[OF d]
  have "builds A (mk_udiv A l (ConstExpr d)) (denotes A n (\<lambda>\<rho>. udiv_val n (sem (fpl A) \<rho> l) (bv_val d))) \<and>
    builds A (mk_urem A l (ConstExpr d)) (denotes A n (\<lambda>\<rho>. urem_val n (sem (fpl A) \<rho> l) (bv_val d)))"
  proof (cases "bv_val d = 0")
    case True
    have "bv_yields n (mask n) (BVConst_str ''-1'' n)"
      using BVConst_all_ones[OF n(1)] by (simp add: take_bit_minus_one_eq_mask)
    with True cs cz n assms(1) show ?thesis
      by (auto simp: mk_udiv_def mk_urem_def udiv_val_def urem_val_def intro!: const_denotes extract_denotes_ret)
  next
    case False
    then obtain c where l: "l = ConstExpr c" using assms(3) by auto
    then have c: "bv_rep n (bv_val c) c" "BVConst_copy c = c" using assms(1) operand_const by auto
    from False l c cs cz show ?thesis
      using bv_udiv_yields[OF c(1) d False] bv_urem_yields[OF c(1) d False]
      by (auto simp: mk_udiv_def mk_urem_def udiv_val_def urem_val_def intro!: const_denotes)
  qed
  then show "builds A (mk_udiv A l (ConstExpr d)) (denotes A n (\<lambda>\<rho>. udiv_val n (sem (fpl A) \<rho> l) (bv_val d)))"
    "builds A (mk_urem A l (ConstExpr d)) (denotes A n (\<lambda>\<rho>. urem_val n (sem (fpl A) \<rho> l) (bv_val d)))" by auto
qed

text \<open>Signed division by zero: the comment asks for the value of Z3, which is 1 for a negative dividend; the code gives 0.\<close>

lemma mk_sdiv_zero_denotes:
  assumes "operand n l" "operand n (ConstExpr d)" "bv_val d = 0" "n \<le> 64 \<or> dest_const l = None"
  shows "builds A (mk_sdiv A l (ConstExpr d))
    (denotes A n (\<lambda>\<rho>. if 0 \<le> sval n (sem (fpl A) \<rho> l) then mask n else 0))"
proof -
  have d: "bv_rep n (bv_val d) d" using assms(2) operand_const by blast
  have n: "0 < n" "expr_size l = n" using operandD[OF assms(1)] by auto
  have s0: "sval n 0 = 0" using sval_eq_0_iff[of n 0] n(1) by simp
  have eq: "mk_sdiv A l (ConstExpr d) = bnd (mk_const_u64 A 0 n) (\<lambda>zero.
      bnd (mk_const_of A (BVConst_str ''-1'' n)) (\<lambda>min1. bnd (mk_sge A l zero) (\<lambda>g. mk_ite A g min1 zero)))"
    using check_same[OF assms(1,2)] const_zero_rep[OF d] assms(3) n(2) by (simp add: mk_sdiv_def)
  have ones: "bv_yields n (mask n) (BVConst_str ''-1'' n)"
    using BVConst_all_ones[OF n(1)] by (simp add: take_bit_minus_one_eq_mask)
  show ?thesis
    unfolding eq
  proof (rule builds_bnd[OF const_u64_denotes[where w = "\<lambda>_. 0"]],
      simp add: n, simp, rule builds_bnd[OF const_denotes[where w = "\<lambda>_. mask n"]], rule ones, simp)
    fix zero min1
    assume z: "denotes A n (\<lambda>_. 0) zero" and m: "denotes A n (\<lambda>_. mask n) min1"
    note zo = denotes_operand[OF z] and mo = denotes_operand[OF m]
    have "n \<le> 64 \<or> dest_const l = None \<or> dest_const zero = None" using assms(4) by auto
    note g = mk_signed_asserts(4)[OF assms(1) zo this, of A]
    show "builds A (bnd (mk_sge A l zero) (\<lambda>g. mk_ite A g min1 zero))
        (denotes A n (\<lambda>\<rho>. if 0 \<le> sval n (sem (fpl A) \<rho> l) then mask n else 0))"
    proof (rule builds_bnd[OF g])
      fix x
      assume x: "asserts A (\<lambda>\<rho>. sval n (sem (fpl A) \<rho> zero) \<le> sval n (sem (fpl A) \<rho> l)) x"
      then have b: "wf_expr x" "is_bool x" by (auto simp: asserts_def)
      show "builds A (mk_ite A x min1 zero) (denotes A n (\<lambda>\<rho>. if 0 \<le> sval n (sem (fpl A) \<rho> l) then mask n else 0))"
        by (rule denotes_cong[OF mk_ite_denotes[OF b mo zo]])
          (use x denotes_sem[OF z] denotes_sem[OF m] s0 in \<open>simp add: asserts_def\<close>)
    qed
  qed
qed

lemma mk_signed_div_denotes:
  assumes "operand n l" "operand n (ConstExpr d)" "dest_const l \<noteq> None \<or> bv_val d = 0"
    and "\<not> (n = 64 \<and> bv_val d = 2 ^ 64 - 1 \<and> (\<exists>c. l = ConstExpr c \<and> bv_val c = 2 ^ 63))"
    and "bv_val d \<noteq> 0 \<or> n \<le> 64 \<or> dest_const l = None"
  shows "builds A (mk_srem A l (ConstExpr d)) (denotes A n (\<lambda>\<rho>. srem_val n (sem (fpl A) \<rho> l) (bv_val d)))" (is ?srem)
    and "builds A (mk_sdiv A l (ConstExpr d)) (denotes A n (\<lambda>\<rho>. if bv_val d = 0 \<and> sval n (sem (fpl A) \<rho> l) < 0 then 0
       else sdiv_val n (sem (fpl A) \<rho> l) (bv_val d)))" (is ?sdiv)
proof -
  have d: "bv_rep n (bv_val d) d" using assms(2) operand_const by blast
  have n: "0 < n" "expr_size l = n" using operandD[OF assms(1)] by auto
  note cs = check_same[OF assms(1,2)] and cz = const_zero_rep[OF d]
  have "?srem \<and> ?sdiv"
  proof (cases "bv_val d = 0")
    case True
    have "n \<le> 64 \<or> dest_const l = None" using assms(5) True by auto
    note z = mk_sdiv_zero_denotes[OF assms(1,2) True this, of A]
    have "builds A (mk_srem A l (ConstExpr d)) (denotes A n (\<lambda>\<rho>. srem_val n (sem (fpl A) \<rho> l) (bv_val d)))"
      using True cs cz n assms(1) by (auto simp: mk_srem_def srem_val_def intro!: extract_denotes_ret)
    moreover have ?sdiv by (rule denotes_cong[OF z]) (simp add: True sdiv_val_def)
    ultimately show ?thesis by blast
  next
    case False
    then obtain c where l: "l = ConstExpr c" using assms(3) by auto
    then have c: "bv_rep n (bv_val c) c" "BVConst_copy c = c" using assms(1) operand_const by auto
    have ov: "\<not> (n = 64 \<and> bv_val c = 2 ^ 63 \<and> bv_val d = 2 ^ 64 - 1)" using assms(4) l by blast
    from False l c cs cz show ?thesis
      using bv_sdiv_yields[OF c(1) d False ov] bv_srem_yields[OF c(1) d False ov]
      by (auto simp: mk_sdiv_def mk_srem_def sdiv_val_def srem_val_def intro!: const_denotes)
  qed
  then show ?srem ?sdiv by auto
qed

text \<open>A node divided by itself is the constant one.\<close>

lemma mk_div_self_denotes:
  assumes "operand n l" "dest_const l = None"
  shows "builds A (mk_udiv A l l) (denotes A n (\<lambda>_. 1))" "builds A (mk_sdiv A l l) (denotes A n (\<lambda>_. 1))"
proof -
  have n: "0 < n" "expr_size l = n" using operandD[OF assms(1)] by auto
  have one: "builds A (mk_const_u64 A 1 n) (denotes A n (\<lambda>_. 1))" using n(1) by (intro const_u64_denotes) auto
  have "const_zero l = Inr False" using assms(2) by (cases l) (simp_all add: const_zero_def dest_const_def)
  then show "builds A (mk_udiv A l l) (denotes A n (\<lambda>_. 1))" "builds A (mk_sdiv A l l) (denotes A n (\<lambda>_. 1))"
    using check_same[OF assms(1,1)] assms(2) one n(2) by (simp_all add: mk_udiv_def mk_sdiv_def)
qed

text \<open>A remainder by one is not zero: the builder returns the dividend.\<close>

lemma mk_rem_one:
  assumes "operand n l" "operand n (ConstExpr d)" "bv_val d = 1" "dest_const l = None"
  shows "mk_urem A l (ConstExpr d) s = Inr (l, s)" "mk_srem A l (ConstExpr d) s = Inr (l, s)"
proof -
  have d: "bv_rep n (bv_val d) d" using assms(2) operand_const by blast
  show "mk_urem A l (ConstExpr d) s = Inr (l, s)" "mk_srem A l (ConstExpr d) s = Inr (l, s)"
    using check_same[OF assms(1,2)] const_zero_rep[OF d] const_one_rep[OF d] assms(3,4)
    by (simp_all add: mk_urem_def mk_srem_def ret_apply)
qed

section \<open>The arithmetic shift and the logical one\<close>

text \<open>The class \<^verbatim>\<open>AShrExpr\<close> gives its kind as that of \<^verbatim>\<open>LShrExpr\<close>, so a search for it accepts a logical shift.\<close>

lemma purge_some: "w \<in> set (purge ws) \<Longrightarrow> \<exists>r. w = Some r"
  by (cases w) (auto simp: purge_def)

lemma find_ashr:
  assumes "\<forall>w\<in>set ws. w \<noteq> None" "\<forall>r\<in>set (live ws). wf_expr r" "LShrExpr e v \<in> set (live ws)"
  shows "find_eq A (AShrExpr e v) ws = Inr (Some (LShrExpr e v))"
  using assms
proof (induction ws)
  case (Cons w ws)
  then obtain r where w: "w = Some r" by (cases w) auto
  with Cons.prems have r: "wf_expr r" by simp
  have eq: "AShrExpr_eq e v r \<longleftrightarrow> r = LShrExpr e v"
    using r by (cases r) (auto simp: AShrExpr_eq_def)
  show ?case
  proof (cases "r = LShrExpr e v")
    case True
    with w eq show ?thesis by simp
  next
    case False
    with w eq Cons show ?thesis by auto
  qed
qed simp

lemma mk_ashr_aliases:
  assumes "binv A s" "operand n e" "operand n v" "dest_const v = None"
  shows "\<exists>s' s''. mk_lshr A e v s = Inr (LShrExpr e v, s') \<and> mk_ashr A e v s' = Inr (LShrExpr e v, s'') \<and> binv A s'"
proof -
  let ?l = "LShrExpr e v"
  have l: "mk_lshr A e v = get_or_create A ?l" "mk_ashr A e v = get_or_create A (AShrExpr e v)"
    using assms(4) check_same[OF assms(2,3)] by (simp_all add: mk_lshr_def mk_ashr_def)
  have wf: "wf_expr ?l" using assms(2,3) by (simp add: operand_def)
  have "builds A (get_or_create A ?l) (\<lambda>r. r = ?l)" using wf by (intro get_or_create_builds) auto
  then obtain s' where s': "get_or_create A ?l s = Inr (?l, s')" "binv A s'"
    using assms(1) by (auto elim!: buildsE)
  obtain h where h: "expr_hash A ?l = Inr h" "expr_hash A (AShrExpr e v) = Inr h"
    by (simp add: LShrExpr_hash_def AShrExpr_hash_def)
  obtain ws where ws: "m_exprs s' h = Some ws" "?l \<in> set (live ws)"
    using goc_stored[OF h(1) clone_wf[OF wf] s'(1)] by blast
  have "bucket_ok A s' h ws" using s'(2) ws(1) by (simp add: binv_def)
  then have "find_eq A (AShrExpr e v) (purge ws) = Inr (Some ?l)"
    using ws(2) by (intro find_ashr) (auto simp: bucket_ok_def entry_ok_def list_all_iff purge_some)
  with h(2) ws(1) have "\<exists>s''. get_or_create A (AShrExpr e v) s' = Inr (?l, s'')"
    by (simp add: get_or_create_def Let_def)
  with s' l show ?thesis by auto
qed

end
