(* ===== verification/ConcatSpec.thy ===== *)
theory ConcatSpec
  imports ExtractSpec ExprBuilderArith
begin

unbundle bit_operations_syntax

text \<open>
  Concatenation. \<^verbatim>\<open>mk_concat\<close> flattens its operands, merges adjacent constants and then adjacent extractions of
  the same node. The second merge takes its position in the merged list but looks ahead in the list from before the
  first merge; the result is right as long as the operands hold no two adjacent constants, as the builder leaves them.
\<close>

section \<open>Lists of parts\<close>

definition part :: "expr \<Rightarrow> bool" where
  "part e \<longleftrightarrow> wf_expr e \<and> is_bv e"

definition parts_width :: "expr list \<Rightarrow> nat" where
  "parts_width es = sum_list (map expr_size es)"

definition parts_val :: "fp_lib \<Rightarrow> (nat \<Rightarrow> int) \<Rightarrow> expr list \<Rightarrow> int" where
  "parts_val F \<rho> es = concat_val (sized F \<rho> es)"

lemma parts_width_simps [simp]:
  "parts_width [] = 0" "parts_width (e # es) = expr_size e + parts_width es"
  "parts_width (es @ es') = parts_width es + parts_width es'"
  by (simp_all add: parts_width_def)

lemma parts_val_simps [simp]:
  "parts_val F \<rho> [] = 0"
  "parts_val F \<rho> (e # es) = push_bit (parts_width es) (sem F \<rho> e) OR parts_val F \<rho> es"
  by (simp_all add: parts_val_def parts_width_def widths_sized)

lemma parts_val_append:
  "parts_val F \<rho> (es @ es') = push_bit (parts_width es') (parts_val F \<rho> es) OR parts_val F \<rho> es'"
  by (simp add: parts_val_def parts_width_def concat_val_append widths_sized)

lemma operand_part: "operand n e \<Longrightarrow> part e"
  by (simp add: operand_def part_def)

lemma part_operand: "part e \<Longrightarrow> operand (expr_size e) e"
  by (simp add: operand_def part_def)

fun no_adjacent :: "expr list \<Rightarrow> bool" where
  "no_adjacent (x # y # zs) \<longleftrightarrow> \<not> (dest_const x \<noteq> None \<and> dest_const y \<noteq> None) \<and> no_adjacent (y # zs)"
| "no_adjacent _ \<longleftrightarrow> True"

text \<open>An operand as the builder leaves it.\<close>

definition concat_ok :: "expr \<Rightarrow> bool" where
  "concat_ok e \<longleftrightarrow> no_adjacent (concat_els e) \<and>
     list_all (\<lambda>x. case x of ExtractExpr b _ _ \<Rightarrow> kind b \<noteq> K_CONCAT | _ \<Rightarrow> True) (concat_els e)"

lemma concat_els_cases: "concat_els e = [e] \<or> e = ConcatExpr (concat_els e)"
  by (simp add: concat_els_def split: expr.split)

lemma concat_els_spec:
  assumes "operand n e"
  shows "\<forall>x\<in>set (concat_els e). part x" "concat_els e \<noteq> []" "parts_width (concat_els e) = n"
    "parts_val F \<rho> (concat_els e) = sem F \<rho> e"
proof -
  have "(\<forall>x\<in>set (concat_els e). part x) \<and> concat_els e \<noteq> [] \<and> parts_width (concat_els e) = n \<and>
      parts_val F \<rho> (concat_els e) = sem F \<rho> e"
    using concat_els_cases[of e]
  proof
    assume "concat_els e = [e]"
    with assms show ?thesis by (simp add: operand_def part_def)
  next
    let ?es = "concat_els e"
    assume e: "e = ConcatExpr ?es"
    have "operand n (ConcatExpr ?es)" using assms e by simp
    then have 1: "(\<forall>x\<in>set ?es. part x) \<and> ?es \<noteq> [] \<and> parts_width ?es = n"
      by (auto simp: operand_def part_def parts_width_def list_all_iff)
    have "parts_val F \<rho> ?es = sem F \<rho> (ConcatExpr ?es)" by (simp add: parts_val_def)
    with 1 e show ?thesis by metis
  qed
  then show "\<forall>x\<in>set (concat_els e). part x" "concat_els e \<noteq> []" "parts_width (concat_els e) = n"
    "parts_val F \<rho> (concat_els e) = sem F \<rho> e" by auto
qed

section \<open>Merging constants\<close>

lemma rbind_right [simp]: "rbind m Inr = m"
  by (cases m) auto

lemma take_consts_none: "(es = [] \<or> dest_const (hd es) = None) \<Longrightarrow> take_consts es = ([], es)"
  by (cases es) auto

lemma const_again:
  assumes "part (ConstExpr c)"
  shows "builds A (mk_const_of A (Inr (BVConst_copy c))) (\<lambda>k. k = ConstExpr c)"
proof -
  have c: "bv_rep (m_size c) (bv_val c) c" "BVConst_copy c = c"
    using assms const_rep by (auto simp: part_def)
  have "builds A (mk_const_of A (Inr c)) (\<lambda>k. k = ConstExpr c)"
  proof (rule mk_const_of_builds)
    show "bv_yields (m_size c) (bv_val c) (Inr c)" using c(1) by simp
    fix k
    assume "bv_rep (m_size c) (bv_val c) k" "BVConst_copy k = k"
    with c show "ConstExpr k = ConstExpr c" using bvconst_canonical_eq[of k c] by (auto simp: bv_rep_def)
  qed
  with c(2) show ?thesis by simp
qed

lemma no_adjacent_Cons: "no_adjacent (x # zs) \<Longrightarrow> no_adjacent zs"
  by (cases zs) auto

lemma no_adjacent_hd: "no_adjacent (ConstExpr c # zs) \<Longrightarrow> zs = [] \<or> dest_const (hd zs) = None"
  by (cases zs; cases "dest_const (hd zs)") auto

lemma const_prop_same:
  assumes "no_adjacent es" "\<forall>e\<in>set es. part e"
  shows "builds A (const_prop A es) (\<lambda>ks. ks = es)"
  using assms
proof (induction es)
  case (Cons e es)
  have IH: "builds A (const_prop A es) (\<lambda>ks. ks = es)"
    using Cons no_adjacent_Cons by auto
  show ?case
  proof (cases e rule: case_dest_const)
    case (Const c)
    with Cons.prems have t: "take_consts es = ([], es)" by (intro take_consts_none no_adjacent_hd) simp
    have "builds A (mk_const_of A (Inr (BVConst_copy c))) (\<lambda>k. k = e)" using const_again Cons.prems Const by simp
    with Const t IH show ?thesis
      by (auto intro!: builds_bnd[of A "mk_const_of A (Inr (BVConst_copy c))" "\<lambda>k. k = e"] builds_bnd[OF IH])
  next
    case NonConst
    with IH show ?thesis by (auto intro!: builds_bnd[OF IH])
  qed
qed auto

lemma const_prop_junction:
  assumes "no_adjacent (ls @ [ConstExpr a])" "no_adjacent (ConstExpr b # rs)"
    and "\<forall>e\<in>set (ls @ ConstExpr a # ConstExpr b # rs). part e"
  shows "builds A (const_prop A (ls @ ConstExpr a # ConstExpr b # rs)) (\<lambda>ks. \<exists>k. ks = ls @ ConstExpr k # rs \<and>
    operand (m_size a + m_size b) (ConstExpr k) \<and> bv_val k = push_bit (m_size b) (bv_val a) OR bv_val b)"
  using assms
proof (induction ls)
  case Nil
  have a: "bv_rep (m_size a) (bv_val a) a" "BVConst_copy a = a" and b: "bv_rep (m_size b) (bv_val b) b"
    using Nil.prems const_rep by (auto simp: part_def)
  have t: "take_consts rs = ([], rs)" using Nil.prems by (intro take_consts_none no_adjacent_hd) simp
  have rs: "builds A (const_prop A rs) (\<lambda>ks. ks = rs)"
    using Nil.prems no_adjacent_Cons by (intro const_prop_same) auto
  have "builds A (mk_const_of A (bv_concat a b)) (\<lambda>y. \<exists>k. y = ConstExpr k \<and>
      operand (m_size a + m_size b) (ConstExpr k) \<and> bv_val k = push_bit (m_size b) (bv_val a) OR bv_val b)"
    by (rule mk_const_of_builds[OF bv_concat_yields[OF a(1) b]]) (auto simp: operand_def bv_rep_def)
  then have "builds A (bnd (mk_const_of A (bv_concat a b)) (\<lambda>k. bnd (const_prop A rs) (\<lambda>r. ret (k # r))))
    (\<lambda>ks. \<exists>k. ks = ConstExpr k # rs \<and> operand (m_size a + m_size b) (ConstExpr k) \<and>
      bv_val k = push_bit (m_size b) (bv_val a) OR bv_val b)"
    by (rule builds_bnd) (auto intro!: builds_bnd[OF rs])
  with t a(2) show ?case by simp
next
  case (Cons e ls)
  let ?Q = "\<lambda>ls ks. \<exists>k. ks = ls @ ConstExpr k # rs \<and> operand (m_size a + m_size b) (ConstExpr k) \<and>
    bv_val k = push_bit (m_size b) (bv_val a) OR bv_val b"
  let ?es = "ls @ ConstExpr a # ConstExpr b # rs"
  have IH: "builds A (const_prop A ?es) (?Q ls)"
    using Cons.IH Cons.prems no_adjacent_Cons[of e] by simp
  show ?case
  proof (cases e rule: case_dest_const)
    case (Const c)
    then have "no_adjacent (ConstExpr c # (ls @ [ConstExpr a]))" using Cons.prems(1) by simp
    then have "dest_const (hd (ls @ [ConstExpr a])) = None" using no_adjacent_hd by blast
    then have t: "take_consts ?es = ([], ?es)" by (intro take_consts_none) (cases ls; simp)
    have "builds A (mk_const_of A (Inr (BVConst_copy c))) (\<lambda>k. k = e)" using const_again Cons.prems Const by simp
    then have "builds A (bnd (mk_const_of A (Inr (BVConst_copy c))) (\<lambda>k. bnd (const_prop A ?es) (\<lambda>r. ret (k # r))))
        (?Q (e # ls))"
      by (rule builds_bnd) (auto intro!: builds_bnd[OF IH])
    with Const t show ?thesis by simp
  next
    case NonConst
    have "builds A (bnd (const_prop A ?es) (\<lambda>r. ret (e # r))) (?Q (e # ls))"
      by (rule builds_bnd[OF IH]) auto
    with NonConst show ?thesis by simp
  qed
qed


section \<open>Merging extractions\<close>

lemma bits_of_join:
  assumes "l' < l" "l \<le> h"
  shows "push_bit (l - l') (bits_of h l x) OR bits_of (l - 1) l' x = bits_of h l' x"
proof (rule bit_eqI)
  fix i
  show "bit (push_bit (l - l') (bits_of h l x) OR bits_of (l - 1) l' x) i \<longleftrightarrow> bit (bits_of h l' x) i"
  proof (cases "i < l - l'")
    case True
    with assms show ?thesis by (auto simp: bit_bits_of bit_simps)
  next
    case False
    then have "l + (i - (l - l')) = l' + i" using assms(1) by simp
    with False assms show ?thesis by (auto simp: bit_bits_of bit_simps add.commute[of l'])
  qed
qed

text \<open>The inner loop stops at some element, and the elements it passed are the bits down to the one it reached.\<close>

lemma extract_run_spec:
  assumes "extract_run b es low j = (j', low')" "\<forall>e\<in>set es. part e"
  shows "\<exists>k. j' = j + k \<and> k \<le> length es \<and> low' \<le> low \<and> parts_width (take k es) = low - low' \<and>
    (low' = low \<longrightarrow> k = 0) \<and>
    (\<forall>F \<rho>. low' < low \<longrightarrow> parts_val F \<rho> (take k es) = bits_of (low - 1) low' (sem F \<rho> b))"
  using assms
proof (induction b es low j rule: extract_run.induct)
  case (2 b nxt es low j)
  show ?case
  proof (cases "\<exists>h l. nxt = ExtractExpr b h l \<and> low = h + 1")
    case False
    then have "extract_run b (nxt # es) low j = (j, low)" by (auto split: expr.split)
    with "2.prems" show ?thesis by (intro exI[of _ 0]) auto
  next
    case True
    then obtain h l where nxt: "nxt = ExtractExpr b h l" and low: "low = h + 1" by blast
    have l: "l \<le> h" using "2.prems"(2) nxt by (simp add: part_def)
    have run: "extract_run b es l (j + 1) = (j', low')" using "2.prems"(1) nxt low by simp
    have IH: "\<exists>k. j' = j + 1 + k \<and> k \<le> length es \<and> low' \<le> l \<and> parts_width (take k es) = l - low' \<and>
        (low' = l \<longrightarrow> k = 0) \<and>
        (\<forall>F \<rho>. low' < l \<longrightarrow> parts_val F \<rho> (take k es) = bits_of (l - 1) low' (sem F \<rho> b))"
      using "2.IH"[of b h l] nxt low run "2.prems"(2) by auto
    then obtain k where k: "j' = j + 1 + k" "k \<le> length es" "low' \<le> l" "parts_width (take k es) = l - low'"
      "low' = l \<longrightarrow> k = 0"
      and v: "\<And>F \<rho>. low' < l \<Longrightarrow> parts_val F \<rho> (take k es) = bits_of (l - 1) low' (sem F \<rho> b)" by blast
    have "parts_val F \<rho> (nxt # take k es) = bits_of h low' (sem F \<rho> b)" for F \<rho>
    proof (cases "low' < l")
      case True
      with k v[OF True, of F \<rho>] l bits_of_join[OF True l] nxt show ?thesis by (simp add: bits_of_def)
    next
      case False
      with k nxt show ?thesis by (simp add: bits_of_def)
    qed
    with k l low nxt show ?thesis by (intro exI[of _ "Suc k"]) auto
  qed
qed auto

lemma extract_run_bound:
  "extract_run b es low j = (j + k, low') \<Longrightarrow> k \<le> length es"
proof (induction b es low j arbitrary: k rule: extract_run.induct)
  case (2 b nxt es low j)
  show ?case
  proof (cases "\<exists>h l. nxt = ExtractExpr b h l \<and> low = h + 1")
    case False
    then have "extract_run b (nxt # es) low j = (j, low)" by (auto split: expr.split)
    with "2.prems" show ?thesis by simp
  next
    case True
    then obtain h l where n: "nxt = ExtractExpr b h l" "low = h + 1" by blast
    with "2.prems" have r: "extract_run b es l (j + 1) = (j + k, low')" by simp
    then have "j + 1 \<le> j + k" by (rule extract_run_ge)
    with "2.IH"[of b h l "k - 1"] n r show ?thesis by simp
  qed
qed simp

text \<open>
  The look-ahead at position \<open>i\<close> of the merged list agrees with it: the elements the inner loop passes are also those of
  the merged list.
\<close>

definition runs_agree :: "expr list \<Rightarrow> expr list \<Rightarrow> bool" where
  "runs_agree exprs cps \<longleftrightarrow> (\<forall>i < length cps. \<forall>b h l k low'.
     cps ! i = ExtractExpr b h l \<longrightarrow> extract_run b (drop (i + 1) exprs) l (i + 1) = (i + 1 + k, low') \<longrightarrow>
       k \<le> length (drop (i + 1) cps) \<and> take k (drop (i + 1) exprs) = take k (drop (i + 1) cps))"

definition merge_ok :: "expr \<Rightarrow> bool" where
  "merge_ok x \<longleftrightarrow> (case x of ExtractExpr b _ _ \<Rightarrow> kind b \<noteq> K_CONCAT | _ \<Rightarrow> True)"

lemma case_not_extract:
  "\<nexists>b h l. e = ExtractExpr b h l \<Longrightarrow> (case e of ExtractExpr b h l \<Rightarrow> f b h l | e' \<Rightarrow> g e') = g e"
  by (cases e) simp_all

lemma merge_extracts_other:
  "i < length cps \<Longrightarrow> \<nexists>b h l. cps ! i = ExtractExpr b h l \<Longrightarrow>
   merge_extracts A exprs cps i = bnd (merge_extracts A exprs cps (i + 1)) (\<lambda>cs. ret (cps ! i # cs))"
  by (subst merge_extracts.simps, subst if_not_P, simp, rule case_not_extract)

lemma merge_extracts_builds:
  assumes "runs_agree exprs cps" "\<forall>e\<in>set cps. part e \<and> merge_ok e" "\<forall>e\<in>set exprs. part e"
  shows "builds A (merge_extracts A exprs cps i) (\<lambda>ks. (\<forall>k\<in>set ks. part k) \<and>
    parts_width ks = parts_width (drop i cps) \<and> (i < length cps \<longrightarrow> ks \<noteq> []) \<and>
    (\<forall>\<rho>. parts_val (fpl A) \<rho> ks = parts_val (fpl A) \<rho> (drop i cps)))"
    (is "builds A _ (?Q i)")
proof (induction "length cps - i" arbitrary: i rule: less_induct)
  case less
  show ?case
  proof (cases "i < length cps")
    case False
    then show ?thesis by (subst merge_extracts.simps) auto
  next
    case i: True
    let ?e = "cps ! i"
    have drop: "drop i cps = ?e # drop (i + 1) cps" using i by (simp add: Cons_nth_drop_Suc)
    have e: "part ?e" "merge_ok ?e" using assms(2) i by auto
    show ?thesis
    proof (cases "\<exists>b h l. ?e = ExtractExpr b h l")
      case False
      have IH: "builds A (merge_extracts A exprs cps (i + 1)) (?Q (i + 1))" by (rule less.hyps) (use i in simp)
      have "builds A (bnd (merge_extracts A exprs cps (i + 1)) (\<lambda>cs. ret (?e # cs))) (?Q i)"
        by (rule builds_bnd[OF IH], rule builds_ret) (use e drop in auto)
      with merge_extracts_other[OF i False] show ?thesis by simp
    next
      case True
      then obtain b h l where b: "?e = ExtractExpr b h l" by blast
      have wb: "operand (expr_size b) b" "l \<le> h" "h < expr_size b" "kind b \<notin> {K_CONST, K_EXTRACT, K_ZEXT, K_CONCAT}"
        using e b by (auto simp: part_def operand_def merge_ok_def)
      obtain j low' where r: "extract_run b (drop (i + 1) exprs) l (i + 1) = (j, low')" by fastforce
      have "\<forall>e\<in>set (drop (i + 1) exprs). part e" using assms(3) by (auto dest: in_set_dropD)
      from extract_run_spec[OF r this] obtain k where k: "j = i + 1 + k" "low' \<le> l"
        "parts_width (take k (drop (i + 1) exprs)) = l - low'" "low' = l \<longrightarrow> k = 0"
        "\<And>F \<rho>. low' < l \<Longrightarrow> parts_val F \<rho> (take k (drop (i + 1) exprs)) = bits_of (l - 1) low' (sem F \<rho> b)"
        by blast
      let ?run = "take k (drop (i + 1) cps)"
      have run: "k \<le> length (drop (i + 1) cps)" "take k (drop (i + 1) exprs) = ?run"
        using assms(1) i b r k(1) unfolding runs_agree_def by blast+
      have "drop j cps = drop k (drop (i + 1) cps)" unfolding k(1) by (simp add: add.commute)
      then have "?run @ drop j cps = drop (i + 1) cps" by (simp only: append_take_drop_id)
      then have split: "drop i cps = ?e # ?run @ drop j cps" unfolding drop by simp
      have w: "parts_width (?e # ?run) = h - low' + 1" using b k(2,3) run(2) wb(2) by simp
      have v: "parts_val F \<rho> (?e # ?run) = bits_of h low' (sem F \<rho> b)" for F \<rho>
      proof (cases "low' < l")
        case True
        with b k(3) k(5)[OF True, of F \<rho>] run(2) bits_of_join[OF True wb(2)] show ?thesis by (simp add: bits_of_def)
      next
        case False
        with b k(2,4) show ?thesis by (simp add: bits_of_def)
      qed
      have va: "parts_val F \<rho> (drop i cps) =
          push_bit (parts_width (drop j cps)) (bits_of h low' (sem F \<rho> b)) OR parts_val F \<rho> (drop j cps)" for F \<rho>
        unfolding split using parts_val_append[of F \<rho> "?e # ?run" "drop j cps"] v[of F \<rho>]
        by (simp del: parts_val_simps)
      have j: "i < j" using k(1) by simp
      have ex: "builds A (mk_extract A b h low') (denotes A (h - low' + 1) (\<lambda>\<rho>. bits_of h low' (sem (fpl A) \<rho> b)))"
        using wb k(2) by (intro mk_extract_denotes) (auto simp: extract_ok_other)
      have IH: "builds A (merge_extracts A exprs cps j) (?Q j)" by (rule less.hyps) (use i j in simp)
      have eq: "merge_extracts A exprs cps i = bnd (mk_extract A b h low') (\<lambda>c.
             bnd (merge_extracts A exprs cps j) (\<lambda>cs. ret (c # cs)))"
        using i b r by (subst merge_extracts.simps) simp
      show ?thesis
        unfolding eq
      proof (rule builds_bnd[OF ex], rule builds_bnd[OF IH], rule builds_ret)
        fix c cs
        assume c: "denotes A (h - low' + 1) (\<lambda>\<rho>. bits_of h low' (sem (fpl A) \<rho> b)) c" and cs: "?Q j cs"
        have "part c" "expr_size c = h - low' + 1" using denotes_operand[OF c] by (auto simp: operand_part operand_def)
        moreover have "parts_val (fpl A) \<rho> (c # cs) = parts_val (fpl A) \<rho> (drop i cps)" for \<rho>
          using cs denotes_sem[OF c, of \<rho>] va[of "fpl A" \<rho>] by simp
        ultimately show "?Q i (c # cs)" using cs w unfolding split by simp
      qed
    qed
  qed
qed


section \<open>Concatenation\<close>

lemma runs_agree_same: "runs_agree es es"
  unfolding runs_agree_def
proof (intro allI impI conjI)
  fix i b h l k low'
  assume "extract_run b (drop (i + 1) es) l (i + 1) = (i + 1 + k, low')"
  then show "k \<le> length (drop (i + 1) es)" by (rule extract_run_bound)
qed simp


lemma extract_run_self:
  "l \<le> h \<Longrightarrow> extract_run b (ExtractExpr b h l # es) l j = (j, l)"
  by simp

lemma extract_run_local:
  "extract_run b (es @ ConstExpr c # fs) low j = extract_run b es low j"
  by (induction b es low j rule: extract_run.induct) (auto split: expr.split)

lemma extract_run_take:
  assumes "extract_run b es low j = (j + k, low')" "k \<le> length es"
  shows "take k (es @ fs) = take k es"
  using assms(2) by simp

text \<open>After the merge at the junction the look-ahead finds the element itself and stops at once.\<close>

lemma runs_agree_junction:
  assumes "\<forall>e\<in>set rs. part e"
  shows "runs_agree (ls @ ConstExpr a # ConstExpr b # rs) (ls @ ConstExpr k # rs)"
  unfolding runs_agree_def
proof (intro allI impI)
  let ?ex = "ls @ ConstExpr a # ConstExpr b # rs" and ?cp = "ls @ ConstExpr k # rs"
  fix i d h l n low'
  assume i: "i < length ?cp" and e: "?cp ! i = ExtractExpr d h l"
    and r: "extract_run d (drop (i + 1) ?ex) l (i + 1) = (i + 1 + n, low')"
  show "n \<le> length (drop (i + 1) ?cp) \<and> take n (drop (i + 1) ?ex) = take n (drop (i + 1) ?cp)"
  proof (cases "i < length ls")
    case True
    then have d: "drop (i + 1) ?ex = drop (i + 1) ls @ ConstExpr a # ConstExpr b # rs"
      "drop (i + 1) ?cp = drop (i + 1) ls @ ConstExpr k # rs" by simp_all
    have "extract_run d (drop (i + 1) ls) l (i + 1) = (i + 1 + n, low')"
      using r unfolding d extract_run_local by simp
    then have "n \<le> length (drop (i + 1) ls)" by (rule extract_run_bound)
    then show ?thesis unfolding d by simp
  next
    case False
    have "i \<noteq> length ls" using e by auto
    with False obtain m where m: "i = length ls + 1 + m" by (metis Suc_eq_plus1 less_antisym linorder_neqE_nat less_iff_Suc_add add_Suc_right add_Suc)
    have mr: "m < length rs" "rs ! m = ExtractExpr d h l" using i e m by (simp_all add: nth_append)
    have "drop (i + 1) ?ex = drop m rs" using m by simp
    also have "\<dots> = ExtractExpr d h l # drop (m + 1) rs" using mr by (metis Cons_nth_drop_Suc Suc_eq_plus1)
    finally have d: "drop (i + 1) ?ex = ExtractExpr d h l # drop (m + 1) rs" .
    have "part (ExtractExpr d h l)" using assms mr by (metis nth_mem)
    then have "l \<le> h" by (simp add: part_def)
    then have "extract_run d (drop (i + 1) ?ex) l (i + 1) = (i + 1, l)" unfolding d by (rule extract_run_self)
    with r show ?thesis by simp
  qed
qed

lemma no_adjacent_append:
  "no_adjacent ls \<Longrightarrow> no_adjacent rs \<Longrightarrow>
   (ls = [] \<or> rs = [] \<or> dest_const (last ls) = None \<or> dest_const (hd rs) = None) \<Longrightarrow> no_adjacent (ls @ rs)"
proof (induction ls rule: no_adjacent.induct, goal_cases)
  case (3 x)
  then show ?case by (cases rs) auto
qed auto

text \<open>Constant propagation over the elements of two operands of the builder.\<close>

lemma const_prop_builds:
  assumes "operand n l" "operand m r" "concat_ok l" "concat_ok r"
  shows "builds A (const_prop A (concat_els l @ concat_els r)) (\<lambda>cps. runs_agree (concat_els l @ concat_els r) cps \<and>
    (\<forall>e\<in>set cps. part e \<and> merge_ok e) \<and> cps \<noteq> [] \<and> parts_width cps = n + m \<and>
    (\<forall>F \<rho>. parts_val F \<rho> cps = push_bit m (sem F \<rho> l) OR sem F \<rho> r))"
proof -
  let ?ls = "concat_els l" and ?rs = "concat_els r"
  note l = concat_els_spec[OF assms(1)] and r = concat_els_spec[OF assms(2)]
  have ok: "no_adjacent ?ls" "no_adjacent ?rs" "\<forall>e\<in>set ?ls. merge_ok e" "\<forall>e\<in>set ?rs. merge_ok e"
    using assms(3,4) by (simp_all add: concat_ok_def merge_ok_def list_all_iff)
  have v: "parts_val F \<rho> (?ls @ ?rs) = push_bit m (sem F \<rho> l) OR sem F \<rho> r" for F \<rho>
    using l(4) r(3,4) by (simp add: parts_val_append)
  show ?thesis
  proof (cases "dest_const (last ?ls) = None \<or> dest_const (hd ?rs) = None")
    case True
    then have "no_adjacent (?ls @ ?rs)" using ok by (intro no_adjacent_append) auto
    moreover have "\<forall>e\<in>set (?ls @ ?rs). part e" using l(1) r(1) by auto
    ultimately have "builds A (const_prop A (?ls @ ?rs)) (\<lambda>cps. cps = ?ls @ ?rs)" by (rule const_prop_same)
    then show ?thesis
      by (rule builds_conseq) (use l r ok v runs_agree_same in auto)
  next
    case False
    then obtain a b where ab: "last ?ls = ConstExpr a" "hd ?rs = ConstExpr b" by auto
    obtain ls where ls: "?ls = ls @ [ConstExpr a]" using l(2) ab(1) by (metis append_butlast_last_id)
    obtain rs where rs: "?rs = ConstExpr b # rs" using r(2) ab(2) by (cases ?rs) auto
    have eq: "?ls @ ?rs = ls @ ConstExpr a # ConstExpr b # rs" using ls rs by simp
    have p: "\<forall>e\<in>set (ls @ ConstExpr a # ConstExpr b # rs). part e" using l(1) r(1) unfolding eq[symmetric] by auto
    have "builds A (const_prop A (ls @ ConstExpr a # ConstExpr b # rs)) (\<lambda>ks. \<exists>k. ks = ls @ ConstExpr k # rs \<and>
      operand (m_size a + m_size b) (ConstExpr k) \<and> bv_val k = push_bit (m_size b) (bv_val a) OR bv_val b)"
      using ok(1,2) p unfolding ls rs by (intro const_prop_junction) auto
    then show ?thesis
      unfolding eq
    proof (rule builds_conseq)
      fix ks
      assume "\<exists>k. ks = ls @ ConstExpr k # rs \<and> operand (m_size a + m_size b) (ConstExpr k) \<and>
        bv_val k = push_bit (m_size b) (bv_val a) OR bv_val b"
      then obtain k where ks: "ks = ls @ ConstExpr k # rs" and k: "operand (m_size a + m_size b) (ConstExpr k)"
        "bv_val k = push_bit (m_size b) (bv_val a) OR bv_val b" by blast
      have sz: "m_size k = m_size a + m_size b" using k(1) by (simp add: operand_def)
      have "parts_val F \<rho> ks = parts_val F \<rho> (?ls @ ?rs)" for F \<rho>
        unfolding ks eq using sz k(2) by (simp add: parts_val_append push_bit_or add_ac or.assoc)
      moreover have "parts_width ks = n + m" using l(3) r(3) sz unfolding ks ls rs by simp
      moreover have "runs_agree (ls @ ConstExpr a # ConstExpr b # rs) ks"
        unfolding ks by (rule runs_agree_junction) (use p in auto)
      moreover have "\<forall>e\<in>set ks. part e \<and> merge_ok e"
        using p ok(3,4) operand_part[OF k(1)] unfolding ks ls rs by (auto simp: merge_ok_def)
      ultimately show "runs_agree (ls @ ConstExpr a # ConstExpr b # rs) ks \<and> (\<forall>e\<in>set ks. part e \<and> merge_ok e) \<and>
        ks \<noteq> [] \<and> parts_width ks = n + m \<and> (\<forall>F \<rho>. parts_val F \<rho> ks = push_bit m (sem F \<rho> l) OR sem F \<rho> r)"
        using v ks by auto
    qed
  qed
qed

lemma goc_concat:
  assumes "\<forall>k\<in>set ks. part k" "ks \<noteq> []" "parts_width ks = n" "\<And>\<rho>. parts_val (fpl A) \<rho> ks = v \<rho>"
  shows "builds A (case ks of [c] \<Rightarrow> ret c | _ \<Rightarrow> get_or_create A (ConcatExpr ks)) (denotes A n v)"
proof -
  have goc: "builds A (get_or_create A (ConcatExpr ks)) (denotes A n v)"
    using assms by (intro goc_denotes) (auto simp: part_def parts_width_def parts_val_def list_all_iff)
  consider c where "ks = [c]" | "(case ks of [c] \<Rightarrow> ret c | _ \<Rightarrow> get_or_create A (ConcatExpr ks)) = get_or_create A (ConcatExpr ks)"
    by (cases ks; cases "tl ks") auto
  then show ?thesis
  proof cases
    case 1
    with assms show ?thesis by (auto simp: part_def operand_def intro!: extract_denotes_ret)
  qed (use goc in simp)
qed

text \<open>The two patterns of a sign extension.\<close>

lemma join_low_bits:
  assumes "low \<le> h" "h < n"
  shows "push_bit low (bits_of h low (take_bit n y)) OR take_bit low y = take_bit (h + 1) (y :: int)"
proof (rule bit_eqI)
  fix i
  show "bit (push_bit low (bits_of h low (take_bit n y)) OR take_bit low y) i \<longleftrightarrow> bit (take_bit (h + 1) y) i"
    using assms by (cases "i < low") (auto simp: bit_bits_of bit_simps)
qed

lemma concat_sext_spec:
  assumes "concat_sext l r = Some e" "operand n l" "operand m r"
  shows "operand (expr_size e) e \<and> expr_size e \<le> n + m \<and>
    (\<forall>F \<rho>. take_bit (n + m) (sval (expr_size e) (sem F \<rho> e)) = push_bit m (sem F \<rho> l) OR sem F \<rho> r)"
proof -
  obtain x k h low where l: "l = ExtractExpr (SextExpr x k) h low"
    and cs: "low = expr_size r \<and> x = r \<and> e = r \<or> (\<exists>k'. r = SextExpr x k' \<and> low = k' \<and> e = x)"
    using assms(1) by (auto simp: concat_sext_def split: expr.split_asm if_splits)
  have x: "operand (expr_size x) x" "expr_size x < k" "low \<le> h" "h < k" and n: "n = h - low + 1"
    using assms(2) l by (auto simp: operand_def)
  have m: "m = expr_size r" using assms(3) by (simp add: operand_def)
  have sl: "sem F \<rho> l = bits_of h low (take_bit k (sval (expr_size x) (sem F \<rho> x)))" for F \<rho>
    using l by (simp add: bits_of_def)
  from cs show ?thesis
  proof
    assume 1: "low = expr_size r \<and> x = r \<and> e = r"
    have "take_bit m (sval m (sem F \<rho> r)) = sem F \<rho> r" for F \<rho>
      using take_bit_sval[of m] operandD(4)[OF assms(3)] operand_take_bit[OF assms(3)] by simp
    moreover have "low = m" "x = r" "e = r" "expr_size r = m" "n + m = h + 1" using 1 m n x(3) by auto
    ultimately show ?thesis
      using assms(3) x(1) join_low_bits[OF x(3,4), of "sval m (sem F \<rho> r)" for F \<rho>] by (simp add: sl)
  next
    assume "\<exists>k'. r = SextExpr x k' \<and> low = k' \<and> e = x"
    then obtain k' where 2: "r = SextExpr x k'" "low = k'" "e = x" by blast
    then have "expr_size x < k'" "m = k'" using assms(3) by (auto simp: operand_def)
    moreover have "n + m = h + 1" using 2 n x(3) \<open>m = k'\<close> by simp
    ultimately show ?thesis
      using 2 x(1) join_low_bits[OF x(3,4), of "sval (expr_size x) (sem F \<rho> x)" for F \<rho>] by (simp add: sl)
  qed
qed

lemma mk_concat_denotes:
  assumes "operand n l" "operand m r" "concat_ok l" "concat_ok r"
  shows "builds A (mk_concat A l r) (denotes A (n + m) (\<lambda>\<rho>. push_bit m (sem (fpl A) \<rho> l) OR sem (fpl A) \<rho> r))"
proof (cases "concat_sext l r")
  case (Some e)
  note s = concat_sext_spec[OF Some assms(1,2)]
  then have "builds A (mk_sext A e (n + m)) (denotes A (n + m) (\<lambda>\<rho>. push_bit m (sem (fpl A) \<rho> l) OR sem (fpl A) \<rho> r))"
    by (intro denotes_cong[OF mk_sext_denotes]) auto
  with Some assms show ?thesis by (simp add: mk_concat_def operandD)
next
  case None
  let ?ex = "concat_els l @ concat_els r"
  have p: "\<forall>e\<in>set ?ex. part e" using concat_els_spec(1)[OF assms(1)] concat_els_spec(1)[OF assms(2)] by auto
  have "builds A (bnd (const_prop A ?ex) (\<lambda>cps. bnd (merge_extracts A ?ex cps 0) (\<lambda>kids.
      case kids of [c] \<Rightarrow> ret c | _ \<Rightarrow> get_or_create A (ConcatExpr kids))))
    (denotes A (n + m) (\<lambda>\<rho>. push_bit m (sem (fpl A) \<rho> l) OR sem (fpl A) \<rho> r))"
  proof (rule builds_bnd[OF const_prop_builds[OF assms]])
    fix cps
    assume c: "runs_agree ?ex cps \<and> (\<forall>e\<in>set cps. part e \<and> merge_ok e) \<and> cps \<noteq> [] \<and> parts_width cps = n + m \<and>
      (\<forall>F \<rho>. parts_val F \<rho> cps = push_bit m (sem F \<rho> l) OR sem F \<rho> r)"
    then have "runs_agree ?ex cps" "\<forall>e\<in>set cps. part e \<and> merge_ok e" by auto
    note mb = merge_extracts_builds[OF this p, of A 0]
    show "builds A (bnd (merge_extracts A ?ex cps 0) (\<lambda>kids.
        case kids of [c] \<Rightarrow> ret c | _ \<Rightarrow> get_or_create A (ConcatExpr kids)))
      (denotes A (n + m) (\<lambda>\<rho>. push_bit m (sem (fpl A) \<rho> l) OR sem (fpl A) \<rho> r))"
      by (rule builds_bnd[OF mb]) (use c in \<open>auto intro!: goc_concat\<close>)
  qed
  with None show ?thesis by (simp add: mk_concat_def Let_def)
qed

end
