(* ===== verification/ConstFold.thy ===== *)
theory ConstFold
  imports ShiftDivSpec ConcatSpec
begin

unbundle bit_operations_syntax

text \<open>
  The builder on constants: every function of the bit-vector and Boolean fragment applied to constants returns a
  constant, the one of the value. \<open>konst n v e\<close> says that the node \<open>e\<close> is the constant \<open>v\<close> of width \<open>n\<close>.
\<close>

definition konst :: "nat \<Rightarrow> int \<Rightarrow> expr \<Rightarrow> bool" where
  "konst n v e \<longleftrightarrow> (\<exists>k. e = ConstExpr k \<and> bv_rep n v k \<and> BVConst_copy k = k)"

lemma konstE:
  assumes "konst n v e"
  obtains k where "e = ConstExpr k" "bv_rep n v k" "BVConst_copy k = k"
  using assms by (auto simp: konst_def)

lemma konst_const [simp]: "konst n v (ConstExpr k) \<longleftrightarrow> bv_rep n v k \<and> BVConst_copy k = k"
  by (simp add: konst_def)

lemma konst_operand: "konst n v e \<Longrightarrow> operand n e"
  by (auto simp: konst_def operand_def bv_rep_def)

lemma konst_sem: "konst n v e \<Longrightarrow> sem F \<rho> e = v"
  by (auto simp: konst_def bv_rep_def)

lemma konst_pos: "konst n v e \<Longrightarrow> 0 < n"
  by (auto simp: konst_def bv_rep_pos)

lemma konst_range: "konst n v e \<Longrightarrow> 0 \<le> v \<and> v < 2 ^ n"
  by (auto simp: konst_def bv_rep_range)

lemma konst_size: "konst n v e \<Longrightarrow> expr_size e = n"
  by (auto simp: konst_def bv_rep_def)

lemma konst_take_bit: "konst n v e \<Longrightarrow> take_bit n v = v"
  by (auto simp: konst_def)

section \<open>Building constants\<close>

lemma const_of_konst: "bv_yields n v m \<Longrightarrow> v = w \<Longrightarrow> builds A (mk_const_of A m) (konst n w)"
  by (rule mk_const_of_builds) auto

lemma const_konst: "bv_rep n v k \<Longrightarrow> v = w \<Longrightarrow> builds A (mk_const A k) (konst n w)"
  by (rule mk_const_builds) auto

lemma const_u64_konst: "0 < n \<Longrightarrow> take_bit n (uint v) = w \<Longrightarrow> builds A (mk_const_u64 A v n) (konst n w)"
  by (rule mk_const_u64_builds) auto

lemma ones_konst: "0 < n \<Longrightarrow> builds A (mk_const_of A (BVConst_str ''-1'' n)) (konst n (mask n))"
  by (rule const_of_konst[OF BVConst_all_ones]) (simp_all add: take_bit_minus_one_eq_mask)

lemma ret_konst: "konst n v e \<Longrightarrow> builds A (ret e) (konst n v)"
  by (rule builds_ret)

lemma yields_bnd:
  assumes "bv_yields n v m" "\<And>k. bv_rep n v k \<Longrightarrow> builds A (f k) Q"
  shows "builds A (bnd (liftr m) f) Q"
  using assms by (auto elim!: bv_yieldsE)

section \<open>Structure and negation\<close>

lemma mk_zext_konst: "konst n v e \<Longrightarrow> n \<le> m \<Longrightarrow> builds A (mk_zext A e m) (konst m v)"
  by (erule konstE) (auto simp: mk_zext_def bv_rep_size intro!: const_of_konst[OF bv_zext_yields])

lemma mk_sext_konst:
  assumes e: "konst n v e" and "n \<le> m"
  shows "builds A (mk_sext A e m) (konst m (take_bit m (sval n v)))"
proof -
  obtain k where k: "e = ConstExpr k" "bv_rep n v k" "BVConst_copy k = k" using e by (rule konstE)
  have n: "m_size k = n" using k(2) by (rule bv_rep_size)
  show ?thesis
  proof (cases "m = n")
    case True
    then show ?thesis using e k n konst_take_bit[OF e] konst_pos[OF e] by (auto simp: mk_sext_def intro!: ret_konst)
  next
    case False
    with k n assms(2) have "mk_sext A e m = mk_const_of A (bv_sext k m)" by (simp add: mk_sext_def)
    with const_of_konst[OF bv_sext_yields[OF k(2) assms(2)] refl] show ?thesis by simp
  qed
qed

lemma mk_extract_konst:
  assumes e: "konst n v e" and b: "low \<le> high" "high < n"
  shows "builds A (mk_extract A e high low) (konst (high - low + 1) (take_bit (high - low + 1) (drop_bit low v)))"
proof -
  obtain k where k: "e = ConstExpr k" "bv_rep n v k" "BVConst_copy k = k" using e by (rule konstE)
  have n: "m_size k = n" using k(2) by (rule bv_rep_size)
  show ?thesis
  proof (cases "low = 0 \<and> high = n - 1")
    case True
    then have "mk_extract A e high low = ret e" using k(1) n unfolding mk_extract.simps[of A e high low] by simp
    moreover have "konst (high - low + 1) (take_bit (high - low + 1) (drop_bit low v)) e"
      using True e b konst_take_bit[OF e] by simp
    ultimately show ?thesis by (simp add: ret_konst)
  next
    case False
    then have "mk_extract A e high low = mk_const_of A (bv_extract k high low)"
      using k b n unfolding mk_extract.simps[of A e high low] by auto
    with const_of_konst[OF bv_extract_yields[OF k(2) b] refl] show ?thesis by simp
  qed
qed

lemma mk_neg_konst:
  assumes "konst n v e" "\<not> (n = 64 \<and> v = 2 ^ 63)"
  shows "builds A (mk_neg A e) (konst n (take_bit n (- v)))"
  using assms(1)
proof (rule konstE)
  fix k
  assume k: "e = ConstExpr k" "bv_rep n v k" "BVConst_copy k = k"
  from const_of_konst[OF bv_neg_yields[OF k(2) assms(2)] refl] show ?thesis
    using k by (simp add: mk_neg_def)
qed

lemma mk_not_konst:
  assumes "konst n v e"
  shows "builds A (mk_not A e) (konst n (take_bit n (NOT v)))"
  using assms
proof (rule konstE)
  fix k
  assume k: "e = ConstExpr k" "bv_rep n v k" "BVConst_copy k = k"
  from const_of_konst[OF bv_bit_not_yields[OF k(2)] refl] show ?thesis
    using k by (simp add: mk_not_def)
qed

lemma merge_one: "kind c = K_CONST \<Longrightarrow> merge_extracts A es [c] 0 = ret [c]"
  by (cases c) (simp_all add: merge_extracts.simps[of _ _ _ 0] merge_extracts.simps[of _ _ _ "Suc 0"])

lemma mk_concat_konst:
  assumes "konst n x a" "konst m y b"
  shows "builds A (mk_concat A a b) (konst (n + m) (push_bit m x OR y))"
proof -
  obtain i j where ij: "a = ConstExpr i" "bv_rep n x i" "BVConst_copy i = i" "b = ConstExpr j" "bv_rep m y j"
    using assms by (auto elim!: konstE)
  let ?out = "\<lambda>cps. bnd (merge_extracts A [a, b] cps 0) (\<lambda>kids. case kids of [c] \<Rightarrow> ret c | _ \<Rightarrow> get_or_create A (ConcatExpr kids))"
  have "mk_concat A a b = bnd (const_prop A [a, b]) ?out"
    by (simp add: mk_concat_def concat_sext_def concat_els_def Let_def ij(1,4))
  moreover have "builds A (const_prop A [a, b]) (\<lambda>cps. \<exists>c. cps = [c] \<and> konst (n + m) (push_bit m x OR y) c)"
    unfolding ij(1,4) by (simp add: ij(3)) (rule builds_bnd[OF const_of_konst[OF bv_concat_yields[OF ij(2,5)] refl]], rule builds_ret, simp)
  moreover have "builds A (?out cps) (konst (n + m) (push_bit m x OR y))"
    if "\<exists>c. cps = [c] \<and> konst (n + m) (push_bit m x OR y) c" for cps
    using that by (auto simp: merge_one ret_konst elim!: konstE)
  ultimately show ?thesis by (simp add: builds_bnd)
qed

section \<open>Operations with any number of operands\<close>

lemma finish_konst: "bv_rep n v k \<Longrightarrow> v = w \<Longrightarrow> builds A (finish_nary A node f k []) (konst n w)"
  by (simp add: finish_nary_def const_konst)

lemma fold2_konst:
  assumes "bv_rep n x i" "bv_rep n y j" "bv_rep n u z"
    and f: "\<And>p q a b. bv_rep n p a \<Longrightarrow> bv_rep n q b \<Longrightarrow> bv_yields n (g p q) (f a b)"
  shows "\<exists>k. fold_consts f z [ConstExpr i, ConstExpr j] = Inr (k, []) \<and> bv_rep n (g (g u x) y) k"
proof -
  obtain a where a: "f z i = Inr a" "bv_rep n (g u x) a" using f[OF assms(3,1)] by (rule bv_yieldsE)
  obtain b where b: "f a j = Inr b" "bv_rep n (g (g u x) y) b" using f[OF a(2) assms(2)] by (rule bv_yieldsE)
  show ?thesis using a b by simp
qed

lemma fold2_absorb:
  assumes "bv_rep n x i" "bv_rep n y j" "bv_rep n u z"
    and f: "\<And>p q a b. bv_rep n p a \<Longrightarrow> bv_rep n q b \<Longrightarrow> bv_yields n (g p q) (f a b)"
    and t: "\<And>p a. bv_rep n p a \<Longrightarrow> t a = Inr (p = w)"
  shows "if x = w \<or> y = w
    then fold_absorb f t z [ConstExpr i, ConstExpr j] = Inr (Inl (ConstExpr (if x = w then i else j)))
    else \<exists>k. fold_absorb f t z [ConstExpr i, ConstExpr j] = Inr (Inr (k, [])) \<and> bv_rep n (g (g u x) y) k"
proof -
  obtain a where a: "f z i = Inr a" "bv_rep n (g u x) a" using f[OF assms(3,1)] by (rule bv_yieldsE)
  obtain b where b: "f a j = Inr b" "bv_rep n (g (g u x) y) b" using f[OF a(2) assms(2)] by (rule bv_yieldsE)
  show ?thesis using a b t[OF assms(1)] t[OF assms(2)] by auto
qed

lemma konst2E:
  assumes "konst n x a" "konst n y b"
  obtains i j where "a = ConstExpr i" "bv_rep n x i" "BVConst_copy i = i" "b = ConstExpr j" "bv_rep n y j"
    "BVConst_copy j = j" "expr_size a = n" "check_size_or_fail op a b = ret ()"
  using assms by (auto simp: konst_def bv_rep_size check_size_or_fail_def)

lemma check_konst: "konst n x a \<Longrightarrow> konst n y b \<Longrightarrow> check_size_or_fail op a b = ret ()"
  using check_same konst_operand by blast

lemma mk_add_konst:
  assumes "konst n x a" "konst n y b"
  shows "builds A (mk_add A a b) (konst n (take_bit n (x + y)))"
proof -
  obtain i j where ij: "a = ConstExpr i" "bv_rep n x i" "b = ConstExpr j" "bv_rep n y j"
    using assms by (auto elim!: konstE)
  obtain z where z: "BVConst_u64 0 n = Inr z" "bv_rep n 0 z"
    using BVConst_u64_yields[OF konst_pos[OF assms(1)], of 0] by (auto elim: bv_yieldsE)
  obtain k where k: "fold_consts bv_add z [a, b] = Inr (k, [])" "bv_rep n (take_bit n (take_bit n (0 + x) + y)) k"
    using fold2_konst[where f = bv_add and g = "\<lambda>x y. take_bit n (x + y)", OF ij(2,4) z(2) bv_add_yields] ij(1,3) by blast
  have "mk_add A a b = finish_nary A AddExpr bv_is_zero k []"
    using check_konst[OF assms] z(1) k(1) ij konst_size[OF assms(1)]
    by (simp add: mk_add_def add_els_def map_order_def del: fold_consts.simps)
  with finish_konst[OF k(2)] show ?thesis by (simp add: konst_take_bit[OF assms(1)])
qed

lemma mk_mul_konst:
  assumes "konst n x a" "konst n y b"
  shows "builds A (mk_mul A a b) (konst n (take_bit n (x * y)))"
proof -
  obtain i j where ij: "a = ConstExpr i" "bv_rep n x i" "b = ConstExpr j" "bv_rep n y j"
    using assms by (auto elim!: konstE)
  have n: "0 < n" using konst_pos[OF assms(1)] .
  obtain z where z: "BVConst_u64 1 n = Inr z" "bv_rep n 1 z"
    using BVConst_u64_yields[OF n, of 1] n by (auto elim: bv_yieldsE)
  obtain k where k: "fold_consts bv_mul z [a, b] = Inr (k, [])" "bv_rep n (take_bit n (take_bit n (1 * x) * y)) k"
    using fold2_konst[where f = bv_mul and g = "\<lambda>x y. take_bit n (x * y)", OF ij(2,4) z(2) bv_mul_yields] ij(1,3) by blast
  have k': "bv_rep n (take_bit n (x * y)) k" using k(2) konst_take_bit[OF assms(1)] by simp
  have "mk_mul A a b = (if take_bit n (x * y) = 0 then mk_const A k else finish_nary A MulExpr bv_is_one k [])"
    using check_konst[OF assms] z(1) k(1) ij konst_size[OF assms(1)] bv_is_zero_rep[OF k']
    by (simp add: mk_mul_def mul_els_def del: fold_consts.simps)
  with finish_konst[OF k'] const_konst[OF k'] show ?thesis by simp
qed

lemma mk_xor_konst:
  assumes "konst n x a" "konst n y b"
  shows "builds A (mk_xor A a b) (konst n (x XOR y))"
proof -
  obtain i j where ij: "a = ConstExpr i" "bv_rep n x i" "b = ConstExpr j" "bv_rep n y j"
    using assms by (auto elim!: konstE)
  obtain z where z: "BVConst_u64 0 n = Inr z" "bv_rep n 0 z"
    using BVConst_u64_yields[OF konst_pos[OF assms(1)], of 0] by (auto elim: bv_yieldsE)
  obtain k where k: "fold_consts bv_bxor z [a, b] = Inr (k, [])" "bv_rep n ((0 XOR x) XOR y) k"
    using fold2_konst[where f = bv_bxor and g = "(XOR)", OF ij(2,4) z(2) bv_bxor_yields] ij(1,3) by blast
  have "mk_xor A a b = finish_nary A XorExpr bv_is_zero k []"
    using check_konst[OF assms] z(1) k(1) ij konst_size[OF assms(1)]
    by (simp add: mk_xor_def xor_els_def sort_addr_def del: fold_consts.simps)
  with finish_konst[OF k(2)] show ?thesis by simp
qed

lemma mk_and_konst:
  assumes "konst n x a" "konst n y b"
  shows "builds A (mk_and A a b) (konst n (x AND y))"
proof -
  obtain i j where ij: "a = ConstExpr i" "bv_rep n x i" "b = ConstExpr j" "bv_rep n y j"
    "BVConst_copy i = i" "BVConst_copy j = j"
    using assms by (auto elim!: konstE)
  obtain z where z: "BVConst_str ''-1'' n = Inr z" "bv_rep n (take_bit n (- 1)) z"
    using BVConst_all_ones[OF konst_pos[OF assms(1)]] by (auto elim: bv_yieldsE)
  note r = fold2_absorb[where f = bv_band and g = "(AND)" and t = bv_is_zero and w = 0, OF ij(2,4) z(2) bv_band_yields bv_is_zero_rep[where n = n]]
  have m: "mk_and A a b = bnd (liftr (fold_absorb bv_band bv_is_zero z [a, b])) (\<lambda>r. case r of
      Inl k \<Rightarrow> ret k | Inr (k, kids) \<Rightarrow> finish_nary A AndExpr bv_has_all_bit_set k kids)"
    using check_konst[OF assms] z(1) ij konst_size[OF assms(1)]
    by (simp add: mk_and_def and_els_def del: fold_absorb.simps)
  have v: "(take_bit n (- 1) AND x) AND y = x AND y" using konst_take_bit[OF assms(1)] by (simp add: take_bit_eq_mask and.commute)
  show ?thesis
  proof (cases "x = 0 \<or> y = 0")
    case True
    with r m ij have "mk_and A a b = ret (ConstExpr (if x = 0 then i else j))" by (simp del: fold_absorb.simps)
    with True ij show ?thesis by (auto intro!: ret_konst)
  next
    case False
    with r m ij v obtain k where "mk_and A a b = finish_nary A AndExpr bv_has_all_bit_set k []" "bv_rep n (x AND y) k"
      by (auto simp del: fold_absorb.simps)
    then show ?thesis by (simp add: finish_konst)
  qed
qed

lemma or_mask: "take_bit n x = x \<Longrightarrow> x OR mask n = mask n" "take_bit n x = x \<Longrightarrow> mask n OR x = (mask n :: int)"
  by (metis bit_eq_iff bit_or_iff bit_mask_iff bit_take_bit_iff)+

lemma mk_or_konst:
  assumes "konst n x a" "konst n y b"
  shows "builds A (mk_or A a b) (konst n (x OR y))"
proof -
  obtain i j where ij: "a = ConstExpr i" "bv_rep n x i" "b = ConstExpr j" "bv_rep n y j"
    using assms by (auto elim!: konstE)
  have n: "0 < n" using konst_pos[OF assms(1)] .
  obtain z where z: "BVConst_u64 0 n = Inr z" "bv_rep n 0 z"
    using BVConst_u64_yields[OF n, of 0] by (auto elim: bv_yieldsE)
  note r = fold2_absorb[where f = bv_bor and g = "(OR)" and t = bv_has_all_bit_set and w = "2 ^ n - 1", OF ij(2,4) z(2) bv_bor_yields bv_has_all_bit_set_rep[where n = n]]
  have m: "mk_or A a b = bnd (liftr (fold_absorb bv_bor bv_has_all_bit_set z [a, b])) (\<lambda>r. case r of
      Inl k \<Rightarrow> mk_const_of A (BVConst_str ''-1'' n) | Inr (k, kids) \<Rightarrow> finish_nary A OrExpr bv_is_zero k kids)"
    using check_konst[OF assms] z(1) ij konst_size[OF assms(1)]
    by (simp add: mk_or_def or_els_def del: fold_absorb.simps)
  have ones: "2 ^ n - 1 = (mask n :: int)" by (simp add: mask_eq_exp_minus_1)
  show ?thesis
  proof (cases "x = mask n \<or> y = mask n")
    case True
    then have "x OR y = mask n" using or_mask konst_take_bit[OF assms(1)] konst_take_bit[OF assms(2)] by auto
    moreover have "mk_or A a b = mk_const_of A (BVConst_str ''-1'' n)"
      using True r m ij ones by (simp del: fold_absorb.simps)
    ultimately show ?thesis using ones_konst[OF n] by simp
  next
    case False
    with r m ij ones obtain k where "mk_or A a b = finish_nary A OrExpr bv_is_zero k []" "bv_rep n (0 OR x OR y) k"
      by (auto simp del: fold_absorb.simps)
    then show ?thesis by (simp add: finish_konst)
  qed
qed

section \<open>Shifts\<close>

lemma shift_const_konst:
  assumes f: "\<And>v. bv_yields n (val n x (int (unat v))) (f i v)"
    and "bv_rep n y j" "BVConst_copy i = i" "n \<le> 32"
  shows "builds A (mk_const_of A (shift_const f i j)) (konst n (val n x y))"
proof -
  have y: "0 \<le> y" "y < 2 ^ n" using bv_rep_range[OF assms(2)] by simp_all
  have "(2 :: int) ^ n \<le> 2 ^ 32" using assms(4) by (intro power_increasing) simp_all
  with y(2) have y32: "y < 2 ^ 32" by linarith
  with shift_amount[OF assms(2)] assms(4)
  have s: "bv_as_u64 j = Inr (word_of_int y)" "unat (ucast (word_of_int y :: 64 word) :: 32 word) = nat y"
    using bv_as_u64_rep[OF assms(2)] by simp_all
  have "shift_const f i j = f i (ucast (word_of_int y :: 64 word))" using s(1) assms(3) by (simp add: shift_const_def)
  with f[of "ucast (word_of_int y :: 64 word)"] s(2) y(1) show ?thesis
    by (auto intro!: const_of_konst)
qed

lemma mk_shift_konst:
  assumes "konst n x a" "konst n y b" "n \<le> 32"
  shows "builds A (mk_shl A a b) (konst n (shl_val n x y))" "builds A (mk_lshr A a b) (konst n (lshr_val n x y))"
proof -
  obtain i j where ij: "a = ConstExpr i" "bv_rep n x i" "BVConst_copy i = i" "b = ConstExpr j" "bv_rep n y j"
    using assms by (auto elim!: konstE)
  have "(2 :: int) ^ n < 2 ^ 64" using assms(3) by (intro power_strict_increasing) simp_all
  then have fit: "bv_fit_in_u64 j = Inr True"
    using bv_fit_in_u64_rep[OF ij(5)] bv_rep_range[OF ij(5)] by simp
  have n: "n \<le> 64" using assms(3) by simp
  show "builds A (mk_shl A a b) (konst n (shl_val n x y))"
    using shift_const_konst[where val = shl_val and f = bv_shl, OF shl.f_yields[OF ij(2) n] ij(5,3) assms(3)]
      check_konst[OF assms(1,2)] fit by (simp add: mk_shl_def ij(1,4))
  show "builds A (mk_lshr A a b) (konst n (lshr_val n x y))"
    using shift_const_konst[where val = lshr_val and f = bv_lshr, OF lshr.f_yields[OF ij(2) n] ij(5,3) assms(3)]
      check_konst[OF assms(1,2)] fit by (simp add: mk_lshr_def ij(1,4))
qed

section \<open>Formulas\<close>

lemma mk_bool_ret: "mk_bool b = ret (BoolConst b)"
  by (simp add: mk_bool_def mk_true_def mk_false_def)

lemma mk_unsigned_konst:
  assumes "konst n x a" "konst n y b"
  shows "mk_ult A a b = ret (BoolConst (x < y))" "mk_ule A a b = ret (BoolConst (x \<le> y))"
    "mk_ugt A a b = ret (BoolConst (x > y))" "mk_uge A a b = ret (BoolConst (x \<ge> y))"
    "mk_eq A a b = ret (BoolConst (x = y))"
proof -
  obtain i j where ij: "a = ConstExpr i" "bv_rep n x i" "b = ConstExpr j" "bv_rep n y j"
    using assms by (auto elim!: konstE)
  note facts = check_konst[OF assms, unfolded ij(1,3)] ij(1,3) mk_bool_ret bv_ult_rep[OF ij(2,4)] bv_unsigned_rep[OF ij(2,4)] bv_eq_rep[OF ij(2,4)]
  show "mk_ult A a b = ret (BoolConst (x < y))" by (simp add: mk_ult_def facts)
  show "mk_ule A a b = ret (BoolConst (x \<le> y))" by (simp add: mk_ule_def facts)
  show "mk_ugt A a b = ret (BoolConst (x > y))" by (simp add: mk_ugt_def facts)
  show "mk_uge A a b = ret (BoolConst (x \<ge> y))" by (simp add: mk_uge_def facts)
  show "mk_eq A a b = ret (BoolConst (x = y))" by (simp add: mk_eq_def facts)
qed

lemma mk_signed_konst:
  assumes "konst n x a" "konst n y b" "n \<le> 64"
  shows "mk_slt A a b = ret (BoolConst (sval n x < sval n y))" "mk_sle A a b = ret (BoolConst (sval n x \<le> sval n y))"
    "mk_sgt A a b = ret (BoolConst (sval n x > sval n y))" "mk_sge A a b = ret (BoolConst (sval n x \<ge> sval n y))"
proof -
  obtain i j where ij: "a = ConstExpr i" "bv_rep n x i" "b = ConstExpr j" "bv_rep n y j"
    using assms by (auto elim!: konstE)
  note facts = check_konst[OF assms(1,2), unfolded ij(1,3)] ij(1,3) mk_bool_ret
    bv_slt_small_rep[OF ij(2,4) assms(3)] bv_signed_small_rep[OF ij(2,4) assms(3)]
  show "mk_slt A a b = ret (BoolConst (sval n x < sval n y))" by (simp add: mk_slt_def facts)
  show "mk_sle A a b = ret (BoolConst (sval n x \<le> sval n y))" by (simp add: mk_sle_def facts)
  show "mk_sgt A a b = ret (BoolConst (sval n x > sval n y))" by (simp add: mk_sgt_def facts)
  show "mk_sge A a b = ret (BoolConst (sval n x \<ge> sval n y))" by (simp add: mk_sge_def facts)
qed

lemma mk_connective_konst:
  "mk_bool_not A (BoolConst p) = ret (BoolConst (\<not> p))"
  "mk_bool_and A (BoolConst p) (BoolConst q) = ret (BoolConst (p \<and> q))"
  "mk_bool_or A (BoolConst p) (BoolConst q) = ret (BoolConst (p \<or> q))"
  by (cases p; cases q; simp add: mk_bool_not_def mk_bool_and_def mk_bool_or_def bool_and_els_def bool_or_els_def
      ptr_set_def sort_addr_def mk_true_def mk_false_def dest_bool_def insort_key_def Let_def)+

end
