(* ===== verification/EvalSpec.thy ===== *)
theory EvalSpec
  imports Evaluate ConstFold
begin

unbundle bit_operations_syntax

text \<open>
  Evaluation computes the meaning: under an assignment of constants to all symbols, evaluating an expression of the
  fragment below returns the constant of its value, for a bit vector and for a formula alike.
\<close>

section \<open>The fragment and the result\<close>

definition env_of :: "(nat \<Rightarrow> bvconst option) \<Rightarrow> nat \<Rightarrow> int" where
  "env_of asg i = (case asg i of Some c \<Rightarrow> bv_val c | None \<Rightarrow> 0)"

text \<open>
  What evaluation needs of a node beside that it is well-formed: a symbol has a constant of its width or is completed,
  a negation is not of 64 bits (the code negates the least signed value there), a shift has at most 32 bits and a signed
  comparison at most 64, a connective has operands, and floating point is left out.
\<close>

definition node_ok :: "(nat \<Rightarrow> bvconst option) \<Rightarrow> bool \<Rightarrow> expr \<Rightarrow> bool" where
  "node_ok asg mc e = (case e of
     SymExpr i n \<Rightarrow> (case asg i of Some c \<Rightarrow> bv_ok c \<and> m_size c = n | None \<Rightarrow> mc)
   | NegExpr x \<Rightarrow> expr_size x \<noteq> 64
   | ShlExpr x v \<Rightarrow> expr_size x \<le> 32
   | LShrExpr x v \<Rightarrow> expr_size x \<le> 32
   | SltExpr x y \<Rightarrow> expr_size x \<le> 64
   | SleExpr x y \<Rightarrow> expr_size x \<le> 64
   | SgtExpr x y \<Rightarrow> expr_size x \<le> 64
   | SgeExpr x y \<Rightarrow> expr_size x \<le> 64
   | BoolAndExpr es \<Rightarrow> es \<noteq> []
   | BoolOrExpr es \<Rightarrow> es \<noteq> []
   | _ \<Rightarrow> \<not> is_fp e \<and> kind e \<notin> {K_FP_TO_BV, K_FP_IS_NAN, K_FP_EQ, K_FP_LT})"

fun evaluable :: "(nat \<Rightarrow> bvconst option) \<Rightarrow> bool \<Rightarrow> expr \<Rightarrow> bool" where
  "evaluable asg mc e \<longleftrightarrow> node_ok asg mc e \<and> (\<forall>x\<in>set (children e). evaluable asg mc x)"

declare evaluable.simps [simp del]

lemmas evaluable_nodes = evaluable.simps[of _ _ "SymExpr i n" for i n] evaluable.simps[of _ _ "ConstExpr c" for c]
  evaluable.simps[of _ _ "AddExpr es" for es] evaluable.simps[of _ _ "UltExpr x y" for x y]

definition result :: "fp_lib \<Rightarrow> (nat \<Rightarrow> int) \<Rightarrow> expr \<Rightarrow> expr \<Rightarrow> bool" where
  "result F \<rho> e r \<longleftrightarrow> (if is_bool e then r = BoolConst (holds F \<rho> e) else konst (expr_size e) (sem F \<rho> e) r)"

lemma result_bool: "is_bool e \<Longrightarrow> result F \<rho> e = (\<lambda>r. r = BoolConst (holds F \<rho> e))"
  by (simp add: result_def fun_eq_iff)

lemma result_bv: "is_bv e \<Longrightarrow> result F \<rho> e = konst (expr_size e) (sem F \<rho> e)"
  by (simp add: result_def is_bv_not_bool fun_eq_iff)

section \<open>Triples of the evaluation\<close>

definition cache_ok :: "fp_lib \<Rightarrow> (nat \<Rightarrow> int) \<Rightarrow> ecache \<Rightarrow> bool" where
  "cache_ok F \<rho> c \<longleftrightarrow> (\<forall>e r. c e = Some r \<longrightarrow> result F \<rho> e r)"

definition eval_inv :: "amb \<Rightarrow> (nat \<Rightarrow> int) \<Rightarrow> builder \<times> ecache \<Rightarrow> bool" where
  "eval_inv A \<rho> bc \<longleftrightarrow> binv A (fst bc) \<and> cache_ok (fpl A) \<rho> (snd bc)"

definition evals :: "amb \<Rightarrow> (nat \<Rightarrow> int) \<Rightarrow> 'a em \<Rightarrow> ('a \<Rightarrow> bool) \<Rightarrow> bool" where
  "evals A \<rho> m P \<longleftrightarrow> (\<forall>b0. tot (\<lambda>bc. eval_inv A \<rho> bc \<and> same_syms b0 (fst bc)) m
     (\<lambda>x bc. (eval_inv A \<rho> bc \<and> same_syms b0 (fst bc)) \<and> P x))"

lemma evalsI:
  assumes "\<And>bc. eval_inv A \<rho> bc \<Longrightarrow> \<exists>x bc'. m bc = Inr (x, bc') \<and> eval_inv A \<rho> bc' \<and> same_syms (fst bc) (fst bc') \<and> P x"
  shows "evals A \<rho> m P"
  unfolding evals_def
proof (intro allI totI)
  fix b0 bc
  assume bc: "eval_inv A \<rho> bc \<and> same_syms b0 (fst bc)"
  with assms[of bc] show "\<exists>x bc'. m bc = Inr (x, bc') \<and> (eval_inv A \<rho> bc' \<and> same_syms b0 (fst bc')) \<and> P x"
    using same_syms_trans[of b0 "fst bc"] by metis
qed

lemma evalsE:
  assumes "evals A \<rho> m P" "eval_inv A \<rho> bc"
  obtains x b c where "m bc = Inr (x, (b, c))" "eval_inv A \<rho> (b, c)" "same_syms (fst bc) b" "P x"
proof -
  have "tot (\<lambda>v. eval_inv A \<rho> v \<and> same_syms (fst bc) (fst v)) m
     (\<lambda>x v. (eval_inv A \<rho> v \<and> same_syms (fst bc) (fst v)) \<and> P x)"
    using assms(1) unfolding evals_def by blast
  then show ?thesis using assms(2) that by (auto elim!: totE[of _ _ _ bc])
qed

lemma evals_ret: "P x \<Longrightarrow> evals A \<rho> (ret x) P"
  by (auto simp: evals_def intro!: tot_ret)

lemma evals_bnd: "evals A \<rho> m P \<Longrightarrow> (\<And>x. P x \<Longrightarrow> evals A \<rho> (f x) Q) \<Longrightarrow> evals A \<rho> (bnd m f) Q"
  unfolding evals_def
  by (intro allI, rule tot_bnd, blast, subst conj_commute, rule tot_pre_pure, blast)

lemma evals_on_builder: "builds A m P \<Longrightarrow> evals A \<rho> (on_builder m) P"
  by (fastforce simp: eval_inv_def on_builder_def elim: buildsE intro!: evalsI)

lemma evals_ev1:
  "evals A \<rho> (ev x) P \<Longrightarrow> (\<And>v. P v \<Longrightarrow> builds A (f v) Q) \<Longrightarrow> evals A \<rho> (ev1 ev f x) Q"
  unfolding ev1_def by (blast intro: evals_bnd evals_on_builder)

lemma evals_ev2:
  "evals A \<rho> (ev x) P \<Longrightarrow> evals A \<rho> (ev y) P' \<Longrightarrow> (\<And>v w. P v \<Longrightarrow> P' w \<Longrightarrow> builds A (f v w) Q) \<Longrightarrow>
   evals A \<rho> (ev2 ev f x y) Q"
  unfolding ev2_def by (blast intro: evals_bnd evals_on_builder)

lemma evals_ev_fold:
  assumes "\<forall>x\<in>set ys. evals A \<rho> (ev x) (P x)" "Inv xs acc"
    and "\<And>us x acc v. x \<in> set ys \<Longrightarrow> us \<noteq> [] \<Longrightarrow> Inv us acc \<Longrightarrow> P x v \<Longrightarrow> builds A (f acc v) (Inv (us @ [x]))"
    and "xs \<noteq> []"
  shows "evals A \<rho> (ev_fold ev f acc ys) (Inv (xs @ ys))"
  using assms
proof (induction ys arbitrary: xs acc)
  case (Cons y ys)
  show ?case
    unfolding ev_fold.simps
  proof (rule evals_bnd[of A \<rho> _ "P y"], goal_cases)
    case (2 v)
    show ?case
    proof (rule evals_bnd[OF evals_on_builder[OF Cons.prems(3)[OF _ Cons.prems(4,2) 2]]], simp)
      fix acc'
      assume "Inv (xs @ [y]) acc'"
      then show "evals A \<rho> (ev_fold ev f acc' ys) (Inv (xs @ y # ys))"
        using Cons.IH[of "xs @ [y]" acc'] Cons.prems(1,3) by simp
    qed
  qed (use Cons.prems in simp)
qed (simp add: evals_ret)

lemma evals_ev_list:
  assumes "\<forall>x\<in>set es. evals A \<rho> (ev x) (P x)" "es \<noteq> []" "\<And>x v. x \<in> set es \<Longrightarrow> P x v \<Longrightarrow> Inv [x] v"
    and "\<And>us x acc v. x \<in> set es \<Longrightarrow> us \<noteq> [] \<Longrightarrow> Inv us acc \<Longrightarrow> P x v \<Longrightarrow> builds A (f acc v) (Inv (us @ [x]))"
  shows "evals A \<rho> (ev_list ev f es) (Inv es)"
proof (cases es)
  case (Cons x xs)
  have "evals A \<rho> (ev_fold ev f v xs) (Inv (x # xs))" if "P x v" for v
    using evals_ev_fold[of xs A \<rho> ev P Inv "[x]" v f] assms that Cons by simp
  with assms(1) Cons show ?thesis by (auto simp: ev_list_def intro: evals_bnd)
qed (use assms in simp)

section \<open>The cases of the switch\<close>

text \<open>Below a node, the recursive calls return the values of the children.\<close>

abbreviation kids_ok :: "amb \<Rightarrow> (nat \<Rightarrow> int) \<Rightarrow> (expr \<Rightarrow> expr em) \<Rightarrow> expr \<Rightarrow> bool" where
  "kids_ok A \<rho> ev e \<equiv> \<forall>x\<in>set (children e). evals A \<rho> (ev x) (result (fpl A) \<rho> x)"

context nary_op
begin

lemma unit_right: "g x u = x"
  by (metis comm unit)

lemma fold_val_value: "us \<noteq> [] \<Longrightarrow>
   take_bit n (g (take_bit n (fold_val g u F \<rho> us)) (sem F \<rho> x)) = take_bit n (fold_val g u F \<rho> (us @ [x]))"
  by (simp add: trunc fold_val_append unit_right)

lemma eval_list:
  assumes kids: "\<forall>x\<in>set es. evals A \<rho> (ev x) (result (fpl A) \<rho> x)" and node: "wf_expr (node es)"
    and step: "\<And>n x y a b. konst n x a \<Longrightarrow> konst n y b \<Longrightarrow> builds A (bld a b) (konst n (take_bit n (g x y)))"
  shows "evals A \<rho> (ev_list ev bld es) (result (fpl A) \<rho> (node es))"
proof -
  let ?n = "expr_size (hd es)"
  let ?Inv = "\<lambda>us. konst ?n (take_bit ?n (fold_val g u (fpl A) \<rho> us))"
  have w: "same_width es" using node_wfD[OF node] by simp
  have e: "result (fpl A) \<rho> x v \<longleftrightarrow> konst ?n (sem (fpl A) \<rho> x) v" if "x \<in> set es" for x v
  proof -
    have "is_bv x" "expr_size x = ?n" using w that unfolding same_width_iff by blast+
    then show ?thesis by (simp add: result_bv)
  qed
  have "evals A \<rho> (ev_list ev bld es) (?Inv es)"
  proof (rule evals_ev_list[where Inv = ?Inv, OF kids])
    show "es \<noteq> []" using w by (rule same_width_hd(3))
    show "?Inv [x] v" if "x \<in> set es" "result (fpl A) \<rho> x v" for x v
      using e[OF that(1)] that(2) konst_take_bit[of ?n "sem (fpl A) \<rho> x" v] unfolding fold_val_simps unit_right by presburger
    fix us x acc v
    assume "x \<in> set es" "us \<noteq> []" "?Inv us acc" "result (fpl A) \<rho> x v"
    then show "builds A (bld acc v) (?Inv (us @ [x]))"
      using step[of ?n "take_bit ?n (fold_val g u (fpl A) \<rho> us)" acc "sem (fpl A) \<rho> x" v] e[of x v]
      unfolding fold_val_value[OF \<open>us \<noteq> []\<close>] by blast
  qed
  then show ?thesis
    using w node_bv node_size[of es] node_sem[of es "fpl A" \<rho>] same_width_hd(3)[OF w]
    by (simp add: result_bv fold_val_def)
qed

end

lemma evaluate_arith:
  assumes "kids_ok A \<rho> ev e" "wf_expr e" "kind e \<in> {K_ADD, K_MUL, K_AND, K_OR, K_XOR}"
  shows "evals A \<rho> (evaluate_node A asg mc ev e) (result (fpl A) \<rho> e)"
proof -
  have bits: "builds A (mk_and A a b) (konst n (take_bit n (x AND y)))" "builds A (mk_or A a b) (konst n (take_bit n (x OR y)))"
    "builds A (mk_xor A a b) (konst n (take_bit n (x XOR y)))" if "konst n x a" "konst n y b" for n x y a b
    using mk_and_konst[OF that] mk_or_konst[OF that] mk_xor_konst[OF that] konst_take_bit[OF that(1)] konst_take_bit[OF that(2)]
    by simp_all
  consider es where "e = AddExpr es" | es where "e = MulExpr es" | es where "e = AndExpr es"
    | es where "e = OrExpr es" | es where "e = XorExpr es"
    using assms(3) by (cases e) auto
  then show ?thesis
    using assms(1,2) add_op.eval_list[OF _ _ mk_add_konst] mul_op.eval_list[OF _ _ mk_mul_konst]
      and_op.eval_list[OF _ _ bits(1)] or_op.eval_list[OF _ _ bits(2)] xor_op.eval_list[OF _ _ bits(3)]
    by cases (simp_all add: evaluate_defs)
qed

lemma evaluate_structural:
  assumes "kids_ok A \<rho> ev e" "wf_expr e" "node_ok asg mc e"
    and "kind e \<in> {K_EXTRACT, K_ZEXT, K_SEXT, K_ITE, K_SHL, K_LSHR, K_NEG, K_NOT}"
  shows "evals A \<rho> (evaluate_node A asg mc ev e) (result (fpl A) \<rho> e)"
  using assms
proof (cases e)
  case (ExtractExpr x high low)
  with assms show ?thesis
    by (auto simp: evaluate_defs result_bv intro!: evals_ev1 mk_extract_konst[where low = low and high = high, simplified])
next
  case (ZextExpr x n)
  with assms show ?thesis
    by (auto simp: evaluate_defs result_bv intro!: evals_ev1 mk_zext_konst)
next
  case (SextExpr x n)
  with assms show ?thesis
    by (auto simp: evaluate_defs result_bv intro!: evals_ev1 mk_sext_konst)
next
  case (NegExpr x)
  with assms show ?thesis
    by (auto simp: evaluate_defs result_bv node_ok_def intro!: evals_ev1 mk_neg_konst)
next
  case (NotExpr x)
  with assms show ?thesis
    by (auto simp: evaluate_defs result_bv intro!: evals_ev1 mk_not_konst)
next
  case (ShlExpr x v)
  with assms show ?thesis
    by (auto simp: evaluate_defs result_bv node_ok_def intro!: evals_ev2 mk_shift_konst)
next
  case (LShrExpr x v)
  with assms show ?thesis
    by (auto simp: evaluate_defs result_bv node_ok_def intro!: evals_ev2 mk_shift_konst)
next
  case (ITEExpr g t f)
  have "builds A (mk_ite A g' v w) (konst (expr_size e) (sem (fpl A) \<rho> e))"
    if "result (fpl A) \<rho> g g'" "result (fpl A) \<rho> t v" "result (fpl A) \<rho> f w" for g' v w
    using that assms(2) ITEExpr
    by (auto simp: result_bv result_bool mk_ite_def check_konst intro!: ret_konst)
  with ITEExpr assms show ?thesis
    by (auto simp: evaluate_defs result_bv intro!: evals_bnd[of A \<rho> "ev g"] evals_ev2)
qed auto

lemma evaluate_concat:
  assumes kids: "\<forall>x\<in>set es. evals A \<rho> (ev x) (result (fpl A) \<rho> x)" and "wf_expr (ConcatExpr es)"
  shows "evals A \<rho> (ev_list ev (mk_concat A) es) (result (fpl A) \<rho> (ConcatExpr es))"
proof -
  let ?vs = "\<lambda>us. map (\<lambda>e. (expr_size e, sem (fpl A) \<rho> e)) us"
  let ?Inv = "\<lambda>us. konst (widths (?vs us)) (concat_val (?vs us))"
  have e: "result (fpl A) \<rho> x = konst (expr_size x) (sem (fpl A) \<rho> x)" if "x \<in> set es" for x
    using assms(2) that by (auto simp: list_all_iff result_bv)
  have "evals A \<rho> (ev_list ev (mk_concat A) es) (?Inv es)"
  proof (rule evals_ev_list[where Inv = ?Inv, OF kids])
    show "es \<noteq> []" using assms(2) by simp
    show "?Inv [x] v" if "x \<in> set es" "result (fpl A) \<rho> x v" for x v
      using that e by simp
    fix us x acc v
    assume "x \<in> set es" "?Inv us acc" "result (fpl A) \<rho> x v"
    then show "builds A (mk_concat A acc v) (?Inv (us @ [x]))"
      using mk_concat_konst[of _ _ acc _ _ v A] e by (simp add: concat_val_append)
  qed
  then show ?thesis by (simp add: result_bv widths_def comp_def)
qed

lemma evaluate_connectives:
  assumes kids: "\<forall>x\<in>set es. evals A \<rho> (ev x) (result (fpl A) \<rho> x)" and es: "es \<noteq> []" "\<forall>x\<in>set es. is_bool x"
    and bld: "\<And>p q. bld (BoolConst p) (BoolConst q) = ret (BoolConst (f p q))"
    and h: "\<And>x. h [x] = x" "\<And>us x. us \<noteq> [] \<Longrightarrow> h (us @ [x]) = f (h us) x"
  shows "evals A \<rho> (ev_list ev bld es) (\<lambda>r. r = BoolConst (h (map (holds (fpl A) \<rho>) es)))"
proof (rule evals_ev_list[where Inv = "\<lambda>us r. r = BoolConst (h (map (holds (fpl A) \<rho>) us))", OF kids es(1)])
  show "v = BoolConst (h (map (holds (fpl A) \<rho>) [x]))" if "x \<in> set es" "result (fpl A) \<rho> x v" for x v
    using that es(2) by (simp add: result_bool h)
  fix us x acc v
  assume "x \<in> set es" "us \<noteq> []" "acc = BoolConst (h (map (holds (fpl A) \<rho>) us))" "result (fpl A) \<rho> x v"
  then show "builds A (bld acc v) (\<lambda>r. r = BoolConst (h (map (holds (fpl A) \<rho>) (us @ [x]))))"
    using es(2) bld h(2)[of "map (holds (fpl A) \<rho>) us"] by (auto simp: result_bool)
qed

lemmas compare_konst = mk_unsigned_konst mk_signed_konst

lemma evaluate_formula:
  assumes "kids_ok A \<rho> ev e" "wf_expr e" "node_ok asg mc e" "is_bool e"
  shows "evals A \<rho> (evaluate_node A asg mc ev e) (result (fpl A) \<rho> e)"
  using assms
proof (cases e)
  case (BoolAndExpr es)
  have "evals A \<rho> (ev_list ev (mk_bool_and A) es) (\<lambda>r. r = BoolConst (list_all (\<lambda>b. b) (map (holds (fpl A) \<rho>) es)))"
    using assms BoolAndExpr
    by (intro evaluate_connectives[where f = "(\<and>)"]) (auto simp: mk_connective_konst node_ok_def list_all_iff)
  then show ?thesis using BoolAndExpr by (simp add: evaluate_defs result_bool list_all_iff)
next
  case (BoolOrExpr es)
  have "evals A \<rho> (ev_list ev (mk_bool_or A) es) (\<lambda>r. r = BoolConst (list_ex (\<lambda>b. b) (map (holds (fpl A) \<rho>) es)))"
    using assms BoolOrExpr
    by (intro evaluate_connectives[where f = "(\<or>)"]) (auto simp: mk_connective_konst node_ok_def list_ex_iff list_all_iff)
  then show ?thesis using BoolOrExpr by (simp add: evaluate_defs result_bool list_ex_iff)
next
  case (BoolNotExpr x)
  with assms show ?thesis
    by (auto simp: evaluate_defs result_bool mk_connective_konst intro!: evals_ev1)
next
  case (EqExpr x y)
  with assms show ?thesis
    by (auto simp: evaluate_defs result_bool result_bv compare_konst intro!: evals_ev2)
next
  case (UltExpr x y)
  with assms show ?thesis
    by (auto simp: evaluate_defs result_bool result_bv compare_konst intro!: evals_ev2)
next
  case (UleExpr x y)
  with assms show ?thesis
    by (auto simp: evaluate_defs result_bool result_bv compare_konst intro!: evals_ev2)
next
  case (UgtExpr x y)
  with assms show ?thesis
    by (auto simp: evaluate_defs result_bool result_bv compare_konst intro!: evals_ev2)
next
  case (UgeExpr x y)
  with assms show ?thesis
    by (auto simp: evaluate_defs result_bool result_bv compare_konst intro!: evals_ev2)
next
  case (SltExpr x y)
  with assms show ?thesis
    by (auto simp: evaluate_defs result_bool result_bv node_ok_def compare_konst intro!: evals_ev2)
next
  case (SleExpr x y)
  with assms show ?thesis
    by (auto simp: evaluate_defs result_bool result_bv node_ok_def compare_konst intro!: evals_ev2)
next
  case (SgtExpr x y)
  with assms show ?thesis
    by (auto simp: evaluate_defs result_bool result_bv node_ok_def compare_konst intro!: evals_ev2)
next
  case (SgeExpr x y)
  with assms show ?thesis
    by (auto simp: evaluate_defs result_bool result_bv node_ok_def compare_konst intro!: evals_ev2)
qed (auto simp: is_bool_def evaluate_defs result_bool node_ok_def intro!: evals_ret)

lemma evaluate_leaf:
  assumes "wf_expr e" "node_ok asg mc e" "kind e \<in> {K_SYM, K_CONST}" "\<rho> = env_of asg"
  shows "evals A \<rho> (evaluate_node A asg mc ev e) (result (fpl A) \<rho> e)"
  using assms
proof (cases e)
  case (SymExpr i n)
  show ?thesis
  proof (cases "asg i")
    case None
    with SymExpr assms show ?thesis
      by (auto simp: evaluate_defs result_bv node_ok_def env_of_def intro!: evals_on_builder const_u64_konst)
  next
    case (Some c)
    with SymExpr assms have "bv_rep n (bv_val c) c" by (simp add: bv_rep_def node_ok_def)
    with SymExpr Some assms show ?thesis
      by (auto simp: evaluate_defs result_bv env_of_def intro!: evals_on_builder const_konst)
  qed
next
  case (ConstExpr c)
  with assms show ?thesis
    by (auto simp: evaluate_defs result_bv bv_rep_self intro!: evals_ret)
qed auto

lemma evaluate_node_result:
  assumes "kids_ok A \<rho> ev e" "wf_expr e" "node_ok asg mc e" "\<rho> = env_of asg"
  shows "evals A \<rho> (evaluate_node A asg mc ev e) (result (fpl A) \<rho> e)"
proof -
  consider "kind e \<in> {K_SYM, K_CONST}" | "kind e \<in> {K_ADD, K_MUL, K_AND, K_OR, K_XOR}"
    | "kind e \<in> {K_EXTRACT, K_ZEXT, K_SEXT, K_ITE, K_SHL, K_LSHR, K_NEG, K_NOT}" | es where "e = ConcatExpr es" | "is_bool e"
    using assms(2,3) by (cases e) (auto simp: node_ok_def is_fp_def)
  then show ?thesis
  proof cases
    case 4
    with assms evaluate_concat[of es A \<rho> ev] show ?thesis by (simp add: evaluate_defs)
  qed (use assms in \<open>blast intro: evaluate_leaf evaluate_arith evaluate_structural evaluate_formula\<close>)+
qed

lemma cached_evals:
  assumes "evals A \<rho> m (result (fpl A) \<rho> e)"
  shows "evals A \<rho> (cached e m) (result (fpl A) \<rho> e)"
proof (rule evalsI)
  fix s
  assume inv: "eval_inv A \<rho> s"
  obtain b c where s: "s = (b, c)" by (cases s)
  show "\<exists>r s'. cached e m s = Inr (r, s') \<and> eval_inv A \<rho> s' \<and> same_syms (fst s) (fst s') \<and> result (fpl A) \<rho> e r"
  proof (cases "c e")
    case None
    obtain r b' c' where "m s = Inr (r, (b', c'))" "eval_inv A \<rho> (b', c')" "same_syms (fst s) b'" "result (fpl A) \<rho> e r"
      by (rule evalsE[OF assms inv])
    with None s show ?thesis
      by (auto simp: cached_def bnd_def eval_inv_def cache_ok_def)
  next
    case (Some r)
    with inv s show ?thesis by (auto simp: cached_def eval_inv_def cache_ok_def)
  qed
qed

lemma wf_children: "wf_expr e \<Longrightarrow> x \<in> set (children e) \<Longrightarrow> wf_expr x"
  by (cases e) (auto simp: list_all_iff)

lemma evaluate_inner_result:
  assumes "\<rho> = env_of asg"
  shows "wf_expr e \<Longrightarrow> evaluable asg mc e \<Longrightarrow> evals A \<rho> (evaluate_inner A asg mc e) (result (fpl A) \<rho> e)"
proof (induction e rule: measure_induct_rule[where f = size])
  case (less e)
  have n: "node_ok asg mc e" and k: "\<forall>x\<in>set (children e). evaluable asg mc x"
    using less.prems(2) by (simp_all add: evaluable.simps[of _ _ e])
  have "kids_ok A \<rho> (evaluate_inner A asg mc) e"
    using less.IH children_size wf_children[OF less.prems(1)] k by blast
  then show ?case
    using n less.prems(1) assms by (subst evaluate_inner.simps) (intro cached_evals evaluate_node_result)
qed

lemma evaluate_result:
  assumes "binv A s" "wf_expr e" "evaluable asg mc e"
  shows "\<exists>r s'. evaluate A e asg mc s = Inr (r, s') \<and> binv A s' \<and> same_syms s s' \<and> result (fpl A) (env_of asg) e r"
proof -
  have "eval_inv A (env_of asg) (s, Map.empty)"
    using assms(1) by (simp add: eval_inv_def cache_ok_def)
  with evaluate_inner_result[OF refl assms(2,3), of A] show ?thesis
    by (rule evalsE) (auto simp: evaluate_def eval_inv_def)
qed

end
