(* ===== verification/BVConst_Properties.thy ===== *)
theory BVConst_Properties
  imports BVConst_Struct
begin

unbundle bit_operations_syntax

text \<open>
  The properties of bit-vector constants, for every width: \<open>bv_rep n v c\<close> says that \<open>c\<close> is a well-formed
  constant of width \<open>n\<close> and value \<open>v\<close>, and \<open>bv_yields n v m\<close> that the operation \<open>m\<close> returns one.
\<close>

section \<open>Sample constants\<close>

definition small_const :: "nat \<Rightarrow> 64 word \<Rightarrow> bvconst" where
  "small_const n w = \<lparr>m_size = n, m_small_val = Some w, m_big_val = 0\<rparr>"

definition big_const :: "nat \<Rightarrow> int \<Rightarrow> bvconst" where
  "big_const n v = \<lparr>m_size = n, m_small_val = None, m_big_val = v\<rparr>"

lemma small_const_rep: "0 < n \<Longrightarrow> n \<le> 64 \<Longrightarrow> uint w < 2 ^ n \<Longrightarrow> bv_rep n (uint w) (small_const n w)"
  by (simp add: bv_rep_def bv_ok_def bv_val_def small_const_def)

lemma big_const_rep: "64 < n \<Longrightarrow> 0 \<le> v \<Longrightarrow> v < 2 ^ n \<Longrightarrow> bv_rep n v (big_const n v)"
  by (simp add: bv_rep_def bv_ok_def bv_val_def big_const_def)

lemma sample8: "bv_rep 8 200 (small_const 8 200)" "bv_rep 8 100 (small_const 8 100)"
  "bv_rep 8 3 (small_const 8 3)"
  using small_const_rep[where n = 8 and w = 200] small_const_rep[where n = 8 and w = 100] small_const_rep[where n = 8 and w = 3]
  by simp_all

lemma sample80: "bv_rep 80 (2 ^ 79) (big_const 80 (2 ^ 79))" "bv_rep 80 5 (big_const 80 5)"
  "bv_rep 80 0x123456789ABCDEF01234 (big_const 80 0x123456789ABCDEF01234)"
  using big_const_rep[of 80 "2 ^ 79"] big_const_rep[of 80 5] big_const_rep[of 80 "0x123456789ABCDEF01234"]
  by simp_all

lemma sample40: "bv_rep 40 0x100000000 (small_const 40 0x100000000)"
  using small_const_rep[where n = 40 and w = "0x100000000"] by simp

section \<open>Arithmetic\<close>

text \<open>C37: addition, subtraction and multiplication of two constants of the same width are arithmetic modulo \<open>2 ^ n\<close>,
  for the machine words of the small representation and for the big integers alike, and they never fail.\<close>

theorem bv_ring_correct:
  assumes "bv_rep n x a" and "bv_rep n y b"
  shows "bv_yields n ((x + y) mod 2 ^ n) (bv_add a b) \<and> bv_yields n ((x - y) mod 2 ^ n) (bv_sub a b) \<and>
    bv_yields n ((x * y) mod 2 ^ n) (bv_mul a b)"
  using bv_add_yields[OF assms] bv_sub_yields[OF assms] bv_mul_yields[OF assms] by (simp add: take_bit_eq_mod)

theorem bv_ring_correct_witness:
  "bv_yields 8 ((200 + 100) mod 2 ^ 8) (bv_add (small_const 8 200) (small_const 8 100)) \<and>
   bv_yields 80 ((2 ^ 79 - 5) mod 2 ^ 80) (bv_sub (big_const 80 (2 ^ 79)) (big_const 80 5))"
  using bv_ring_correct[OF sample8(1,2)] bv_ring_correct[OF sample80(1,2)] by blast

text \<open>C38: the bitwise operations combine the values bit by bit and keep the width; the complement is taken within
  the width.\<close>

theorem bv_bitwise_correct:
  assumes "bv_rep n x a" and "bv_rep n y b"
  shows "bv_yields n (x AND y) (bv_band a b) \<and> bv_yields n (x OR y) (bv_bor a b) \<and>
    bv_yields n (x XOR y) (bv_bxor a b) \<and> bv_yields n (2 ^ n - 1 - x) (bv_bit_not a) \<and> bv_bnot a = bv_bit_not a"
proof -
  have "take_bit n (NOT x) = 2 ^ n - 1 - x"
    using bv_rep_range[OF assms(1)] minus_mod_int_eq[of "2 ^ n" "x + 1"] by (simp add: take_bit_eq_mod not_int_def)
  then show ?thesis
    using bv_band_yields[OF assms] bv_bor_yields[OF assms] bv_bxor_yields[OF assms] bv_bit_not_yields[OF assms(1)]
    by (simp add: bv_bnot_eq)
qed

theorem bv_bitwise_correct_witness:
  "bv_yields 8 (200 XOR 100) (bv_bxor (small_const 8 200) (small_const 8 100)) \<and>
   bv_yields 8 55 (bv_bit_not (small_const 8 200))"
  using bv_bitwise_correct[OF sample8(1,2)] by simp

text \<open>C39: division and remainder by a non-zero constant: the unsigned ones are the quotient and the remainder of
  the values; the signed ones truncate towards zero, unless the quotient overflows a 64-bit integer.\<close>

theorem bv_division_correct:
  assumes "bv_rep n x a" and "bv_rep n y b" and "y \<noteq> 0" and "\<not> (n = 64 \<and> x = 2 ^ 63 \<and> y = 2 ^ 64 - 1)"
  shows "bv_yields n (x div y) (bv_udiv a b) \<and> bv_yields n (x mod y) (bv_urem a b) \<and>
    bv_yields n ((sval n x sdiv sval n y) mod 2 ^ n) (bv_sdiv a b) \<and>
    bv_yields n ((sval n x smod sval n y) mod 2 ^ n) (bv_srem a b)"
  using bv_udiv_yields[OF assms(1-3)] bv_urem_yields[OF assms(1-3)] bv_sdiv_yields[OF assms] bv_srem_yields[OF assms]
  by (simp add: take_bit_eq_mod)

theorem bv_division_correct_witness:
  "bv_yields 8 (200 div 3) (bv_udiv (small_const 8 200) (small_const 8 3)) \<and>
   bv_yields 80 (2 ^ 79 mod 5) (bv_urem (big_const 80 (2 ^ 79)) (big_const 80 5))"
  using bv_division_correct[OF sample8(1,3)] bv_division_correct[OF sample80(1,2)] by auto

text \<open>The shifts of a constant by an amount \<open>v\<close> below its width: to the right logically and arithmetically
  for every width, and to the left for the small representation.\<close>

theorem bv_shift_correct:
  assumes "bv_rep n x c" and "unat v < n"
  shows "bv_yields n (x div 2 ^ unat v) (bv_lshr c v) \<and>
    bv_yields n ((sval n x div 2 ^ unat v) mod 2 ^ n) (bv_ashr c v) \<and>
    (n \<le> 64 \<longrightarrow> bv_yields n ((x * 2 ^ unat v) mod 2 ^ n) (bv_shl c v))"
  using bv_lshr_yields[OF assms(1), of v] bv_ashr_yields[OF assms(1), of v] bv_shl_small_yields[OF assms(1), of v] assms(2)
  by (simp add: take_bit_eq_mod drop_bit_eq_div push_bit_eq_mult)

theorem bv_shift_correct_witness:
  "bv_yields 8 (200 div 2 ^ 3) (bv_lshr (small_const 8 200) 3) \<and>
   bv_yields 8 ((200 * 2 ^ 3) mod 2 ^ 8) (bv_shl (small_const 8 200) 3)"
  using bv_shift_correct[OF sample8(1), of 3] by simp

text \<open>The left shift of a constant wider than 64 bits does not clear the bits it shifts in: the low \<open>v\<close> bits of
  the value stay where they are.\<close>

theorem bv_shl_big_keeps_low_bits:
  assumes "bv_rep n x c" and "64 < n" and "v \<noteq> 0" and "unat v < n"
  shows "bv_yields n ((x * 2 ^ unat v) mod 2 ^ n + x mod 2 ^ unat v) (bv_shl c v)"
proof -
  have "take_bit n (push_bit (unat v) x) AND take_bit (unat v) x = 0"
    by (rule bit_eqI) (auto simp: bit_simps)
  then have "take_bit n (push_bit (unat v) x) OR take_bit (unat v) x
      = take_bit n (push_bit (unat v) x) + take_bit (unat v) x"
    by (simp add: disjunctive_add_eq_or)
  with bv_shl_big_yields[OF assms] show ?thesis by (simp add: take_bit_eq_mod push_bit_eq_mult)
qed

theorem bv_shl_big_keeps_low_bits_witness:
  "bv_yields 80 11 (bv_shl (big_const 80 5) 1)"
  using bv_shl_big_keeps_low_bits[OF sample80(2), of 1] by simp

section \<open>Widths\<close>

text \<open>C40: concatenation, zero and sign extension and extraction have the value of the bits they name, across the
  border between the two representations.\<close>

theorem bv_structure_correct:
  assumes "bv_rep n x a" and "bv_rep m y b" and "n \<le> k" and "low \<le> high" and "high < n"
  shows "bv_yields (n + m) (x * 2 ^ m + y) (bv_concat a b) \<and> bv_yields k x (bv_zext a k) \<and>
    bv_yields k (sval n x mod 2 ^ k) (bv_sext a k) \<and>
    bv_yields (high - low + 1) (x div 2 ^ low mod 2 ^ (high - low + 1)) (bv_extract a high low)"
proof -
  have "push_bit m x AND y = 0"
    using bv_rep_range[OF assms(2)] by (intro bit_eqI) (auto simp: bit_simps dest!: bit_of_range[of y m])
  then have "push_bit m x OR y = x * 2 ^ m + y" by (simp add: disjunctive_add_eq_or flip: push_bit_eq_mult)
  with bv_concat_yields[OF assms(1,2)] bv_zext_yields[OF assms(1,3)] bv_sext_yields[OF assms(1,3)]
    bv_extract_yields[OF assms(1,4,5)]
  show ?thesis by (simp add: take_bit_eq_mod drop_bit_eq_div)
qed

theorem bv_structure_correct_witness:
  "bv_yields 88 (0x123456789ABCDEF01234 * 2 ^ 8 + 200) (bv_concat (big_const 80 0x123456789ABCDEF01234) (small_const 8 200)) \<and>
   bv_yields 16 0x1234 (bv_extract (big_const 80 0x123456789ABCDEF01234) 15 0)"
  using bv_structure_correct[OF sample80(3) sample8(1), of 128 0 15] by simp

text \<open>The bytes of a constant: a constant built from a non-empty sequence of bytes in a given byte order gives
  back these bytes, most significant first.\<close>

theorem bv_data_round_trip:
  assumes "data \<noteq> []"
  shows "rbind (BVConst_data data end) bv_as_data = Inr (if end = LITTLE then rev data else data)"
  using assms by (rule data_as_data)

theorem bv_data_round_trip_witness:
  "rbind (BVConst_data [1, 2, 3] LITTLE) bv_as_data = Inr [3, 2, 1]"
  using bv_data_round_trip[of "[1, 2, 3]" LITTLE] by simp

section \<open>Comparisons\<close>

text \<open>Equality and the unsigned comparisons of two constants of the same width compare their values; the signed
  ones compare the two's complement values of constants of at most 64 bits.\<close>

theorem bv_compare_correct:
  assumes "bv_rep n x a" and "bv_rep n y b"
  shows "bv_eq a b = Inr (x = y) \<and> bv_ult a b = Inr (x < y) \<and> bv_ule a b = Inr (x \<le> y) \<and>
    bv_ugt a b = Inr (x > y) \<and> bv_uge a b = Inr (x \<ge> y) \<and>
    (n \<le> 64 \<longrightarrow> bv_slt a b = Inr (sval n x < sval n y) \<and> bv_sle a b = Inr (sval n x \<le> sval n y) \<and>
      bv_sgt a b = Inr (sval n x > sval n y) \<and> bv_sge a b = Inr (sval n x \<ge> sval n y))"
  using bv_eq_rep[OF assms] bv_ult_rep[OF assms] bv_unsigned_rep[OF assms] bv_slt_small_rep[OF assms]
    bv_signed_small_rep[OF assms] by blast

theorem bv_compare_correct_witness:
  "bv_ult (small_const 8 100) (small_const 8 200) = Inr True \<and>
   bv_slt (small_const 8 100) (small_const 8 200) = Inr False"
  using bv_compare_correct[OF sample8(2,1)] by (simp add: sval_eq_if)

text \<open>Wider than 64 bits the signed comparison answers true whenever the sign bits differ, so a positive
  constant is below a negative one and two such constants are each below the other.\<close>

theorem bv_slt_big_signs:
  assumes "bv_rep n x a" and "bv_rep n y b" and "64 < n" and "bit x (n - 1) \<noteq> bit y (n - 1)"
  shows "bv_slt a b = Inr True \<and> bv_slt b a = Inr True"
  using assms(4) bv_slt_big_rep[OF assms(1-3)] bv_slt_big_rep[OF assms(2,1,3)] by simp

theorem bv_slt_big_signs_witness:
  "bv_slt (big_const 80 (2 ^ 79)) (big_const 80 5) = Inr True \<and>
   bv_slt (big_const 80 5) (big_const 80 (2 ^ 79)) = Inr True"
  by (rule bv_slt_big_signs[OF sample80(1,2)]) (simp_all add: bit_iff_odd)

text \<open>The widening products: the signed one is the product of the two's complement values at twice the width,
  and the unsigned one the product of the values for operands of at most 32 or more than 64 bits.\<close>

theorem bv_widening_mul_correct:
  assumes "bv_rep n x a" and "bv_rep n y b"
  shows "bv_yields (n * 2) ((sval n x * sval n y) mod 2 ^ (n * 2)) (bv_smul a b) \<and>
    (n \<le> 32 \<or> 64 < n \<longrightarrow> bv_yields (n * 2) (x * y) (bv_umul a b))"
  using bv_smul_yields[OF assms] bv_umul_yields[OF assms] by (simp add: take_bit_eq_mod)

theorem bv_widening_mul_correct_witness:
  "bv_yields 16 20000 (bv_umul (small_const 8 200) (small_const 8 100))"
  using bv_widening_mul_correct[OF sample8(1,2)] by simp

text \<open>Between 33 and 64 bits the unsigned widening product multiplies the big integers, which the constructor
  from an integer leaves at zero: the product is zero whatever the operands.\<close>

theorem bv_umul_middle_zero:
  assumes "bv_rep n x a" and "bv_rep n y b" and "32 < n" and "n \<le> 64" and "m_big_val a = 0"
  shows "bv_yields (n * 2) 0 (bv_umul a b)"
proof -
  have "m_size a = n" "m_size b = n" using assms(1,2) by (simp_all add: bv_rep_size)
  with assms show ?thesis
    by (auto simp: bv_umul_def check_size_or_die_def Let_def intro!: yields_adjust_big)
qed

theorem bv_umul_middle_zero_witness:
  "bv_yields 80 0 (bv_umul (small_const 40 0x100000000) (small_const 40 0x100000000))"
  using bv_umul_middle_zero[OF sample40 sample40] by (simp add: small_const_def)

end
