(* ===== verification/Builder_Properties.thy ===== *)
theory Builder_Properties
  imports ShiftDivSpec ConcatSpec BVConst_Properties
begin

unbundle bit_operations_syntax

text \<open>
  The properties of the expression builder: the states it reaches, interning, symbols, and the meaning of what each
  function returns. A function \<open>makes\<close> a value when from the state it returns a node of the right width and
  meaning, whatever the addresses of the nodes, and keeps the invariant.
\<close>

definition makes :: "amb \<Rightarrow> builder \<Rightarrow> expr bm \<Rightarrow> nat \<Rightarrow> ((nat \<Rightarrow> int) \<Rightarrow> int) \<Rightarrow> bool" where
  "makes A s m n v \<longleftrightarrow>
     (\<exists>e s'. m s = Inr (e, s') \<and> binv A s' \<and> operand n e \<and> (\<forall>\<rho>. sem (fpl A) \<rho> e = v \<rho>))"

lemma makesI:
  assumes "builds A m (denotes A n v)" "binv A s"
  shows "makes A s m n v"
  using assms by (auto simp: makes_def denotes_def operand_def elim!: buildsE)

lemma makes_cong: "makes A s m n v \<Longrightarrow> (\<And>\<rho>. v \<rho> = w \<rho>) \<Longrightarrow> makes A s m n w"
  by (simp add: makes_def)

definition decides :: "amb \<Rightarrow> builder \<Rightarrow> expr bm \<Rightarrow> ((nat \<Rightarrow> int) \<Rightarrow> bool) \<Rightarrow> bool" where
  "decides A s m v \<longleftrightarrow>
     (\<exists>e s'. m s = Inr (e, s') \<and> binv A s' \<and> formula e \<and> (\<forall>\<rho>. holds (fpl A) \<rho> e = v \<rho>))"

lemma decidesI:
  assumes "builds A m (asserts A v)" "binv A s"
  shows "decides A s m v"
  using assms by (auto simp: decides_def asserts_def formula_def elim!: buildsE)

section \<open>Samples\<close>

text \<open>An environment, and operands of 32 bits.\<close>

definition sample_env :: amb where
  "sample_env = \<lparr>xxh64 = (\<lambda>bs. of_nat (length bs)), vptr = (\<lambda>_. 0), ff_word = (\<lambda>_. 0), addr = (\<lambda>_. 0),
     stack_junk = 0, heap_junk = 0,
     fpl = \<lparr>opNeg = (\<lambda>_ x. x), opAdd = (\<lambda>_ x _. x), opMult = (\<lambda>_ x _. x), opDiv = (\<lambda>_ x _. x), opNan = (\<lambda>_ _. False),
       opLess = (\<lambda>_ _ _. False), opEqual = (\<lambda>_ x y. x = y), convertEncoding = (\<lambda>_ x _. x),
       getEncoding = (\<lambda>_ i. word_of_int i), host_is_one = (\<lambda>_ x. x = 1)\<rparr>\<rparr>"

definition sym32 :: "nat \<Rightarrow> expr" where
  "sym32 i = SymExpr i 32"

lemma sym32_operand: "operand 32 (sym32 i)"
  by (simp add: operand_def sym32_def)

lemma sym32_ok: "neg_ok (sym32 i)" "add_els (sym32 i) = [sym32 i]" "extract_ok (sym32 i) h l"
  by (simp_all add: neg_ok_def sym32_def add_els_def extract_ok_other)

section \<open>Reachable states\<close>

text \<open>The states a builder passes through while it interns well-formed nodes only: its operations on them, garbage collection and
  the expiry of nodes. \<^verbatim>\<open>mk_ashr\<close>, \<^verbatim>\<open>mk_sdiv\<close>, \<^verbatim>\<open>mk_udiv\<close>, \<^verbatim>\<open>mk_srem\<close> and \<^verbatim>\<open>mk_urem\<close> leave these states when they make a node
  of their own: such a node reports the kind of another class or loses its size when it is cloned, so no node that holds one is
  well-formed, and the table does not stay consistent.\<close>

inductive breach :: "amb \<Rightarrow> builder \<Rightarrow> bool" for A where
  init: "breach A ExprBuilder_init"
| intern: "breach A s \<Longrightarrow> wf_expr e \<Longrightarrow> kind e \<noteq> K_SYM \<Longrightarrow> get_or_create A e s = Inr (r, s') \<Longrightarrow> breach A s'"
| cached: "breach A s \<Longrightarrow> 0 < n \<Longrightarrow> mk_const_u64 A v n s = Inr (r, s') \<Longrightarrow> breach A s'"
| symbol: "breach A s \<Longrightarrow> 0 < n \<Longrightarrow> unat (m_sym_ids s) < 2 ^ 32 - 1 \<Longrightarrow> mk_sym A name n s = Inr (r, s') \<Longrightarrow> breach A s'"
| gc: "breach A s \<Longrightarrow> breach A (collect_garbage s)"
| expired: "breach A s \<Longrightarrow> breach A (expire dead s)"

lemma breach_binv: "breach A s \<Longrightarrow> binv A s"
proof (induction rule: breach.induct)
  case (intern s e r s')
  then show ?case using get_or_create_builds[of e "\<lambda>_. True" A] by (auto elim: buildsE)
next
  case (cached s n v r s')
  then show ?case using mk_const_u64_builds[of n v "\<lambda>_. True" A] by (auto elim: buildsE)
next
  case (symbol s n name r s')
  show ?case
  proof (cases "m_symbols s name")
    case None
    with symbol mk_sym_fresh[of A s name n] show ?thesis by auto
  next
    case (Some e)
    with symbol show ?thesis by (auto simp: mk_sym_def split: if_splits)
  qed
qed (auto intro: binv_init binv_collect_garbage binv_expire)

text \<open>C11: as long as only well-formed nodes are interned (no arithmetic right shift, division or remainder node), in every
  reachable state the table of interned nodes is consistent: each node lies in the bucket of its
  hash, is well-formed, and occurs at most once among the live nodes of the bucket (floating-point constants apart);
  the cache maps a value and a width to a constant of that value; and the two symbol maps are inverse to each other.\<close>

theorem builder_invariant:
  assumes "breach A s"
  shows "(\<forall>h ws r. m_exprs s h = Some ws \<longrightarrow> Some r \<in> set ws \<longrightarrow> wf_expr r \<and> expr_hash A r = Inr h) \<and>
    (\<forall>h ws. m_exprs s h = Some ws \<longrightarrow> distinct (filter (\<lambda>r. kind r \<noteq> K_FP_CONST) (live ws))) \<and>
    (\<forall>v n c. ((v, n), c) \<in> set (m_consts s) \<longrightarrow> (\<forall>F \<rho>. sem F \<rho> c = uint v mod 2 ^ n)) \<and>
    (\<forall>x i n. m_symbols s x = Some (SymExpr i n) \<longrightarrow> m_sym_id_to_name s i = Some x) \<and>
    (\<forall>i x. m_sym_id_to_name s i = Some x \<longrightarrow> (\<exists>n. m_symbols s x = Some (SymExpr i n)))"
proof -
  have inv: "binv A s" using assms by (rule breach_binv)
  then have b: "bucket_ok A s h ws" if "m_exprs s h = Some ws" for h ws using that by (simp add: binv_def)
  have c: "sem F \<rho> c = uint v mod 2 ^ n" if "((v, n), c) \<in> set (m_consts s)" for v n c F \<rho>
    using inv that by (fastforce simp: binv_def consts_ok_def bv_rep_def take_bit_eq_mod)
  have "symbols_ok s" using inv by (simp add: binv_def)
  note symbols_okD[OF this]
  with b c show ?thesis
    by (auto simp: bucket_ok_def entry_ok_def list_all_iff set_live) fastforce+
qed

theorem builder_invariant_witness:
  "\<exists>s'. mk_sym sample_env ''x'' 8 ExprBuilder_init = Inr (SymExpr 0 8, s') \<and> m_sym_id_to_name s' 0 = Some ''x''"
proof -
  obtain s' where s': "mk_sym sample_env ''x'' 8 ExprBuilder_init = Inr (SymExpr 0 8, s')"
    "m_symbols s' ''x'' = Some (SymExpr 0 8)"
    using mk_sym_fresh[OF binv_init, of "''x''" 8 sample_env] by (auto simp: ExprBuilder_init_def)
  have "breach sample_env s'"
    by (rule breach.symbol[OF breach.init _ _ s'(1)]) (simp_all add: ExprBuilder_init_def)
  from builder_invariant[OF this] s' show ?thesis by blast
qed

lemma goc_again:
  assumes "binv A s" "wf_expr e" "kind e \<noteq> K_SYM" "kind e \<noteq> K_FP_CONST"
    and "expr_hash A e = Inr h" "m_exprs s h = Some ws" "e \<in> set (live ws)"
  shows "get_or_create A e s = Inr (e, s\<lparr>m_exprs := (m_exprs s)(h \<mapsto> purge ws)\<rparr>)"
proof -
  have "bucket_ok A s h ws" using assms(1,6) by (simp add: binv_def)
  then have "\<forall>r\<in>set (live (purge ws)). wf_expr r \<and> expr_hash A r = expr_hash A e"
    using assms(5) by (simp add: bucket_ok_def entry_ok_def list_all_iff)
  moreover have "\<forall>w\<in>set (purge ws). w \<noteq> None" by (simp add: purge_def)
  ultimately have "find_eq A e (purge ws) = Inr None \<and> (kind e = K_FP_CONST \<or> e \<notin> set (live (purge ws)))
    \<or> find_eq A e (purge ws) = Inr (Some e) \<and> e \<in> set (live (purge ws))"
    by (intro find_eq_spec[OF assms(2,3)])
  then have "find_eq A e (purge ws) = Inr (Some e)" using assms(4,7) by simp
  with assms(5,6) show ?thesis by (simp add: get_or_create_def Let_def)
qed

text \<open>C14: interning: asking for a well-formed node that is not a symbol returns that very node from every reachable
  state, and asking again leaves the table as it is, so equal nodes are shared (a floating-point constant that is not
  equal to itself excepted).\<close>

theorem interning_shares:
  assumes "breach A s" and "wf_expr e" and "kind e \<noteq> K_SYM" and "kind e \<noteq> K_FP_CONST"
  shows "\<exists>s' s''. get_or_create A e s = Inr (e, s') \<and> get_or_create A e s' = Inr (e, s'') \<and>
    (\<forall>h. map_option live (m_exprs s'' h) = map_option live (m_exprs s' h))"
proof -
  have "builds A (get_or_create A e) (\<lambda>r. r = e)" using assms by (intro get_or_create_builds) auto
  then obtain s' where 1: "get_or_create A e s = Inr (e, s')" "binv A s'"
    using breach_binv[OF assms(1)] by (auto elim!: buildsE)
  obtain h where h: "expr_hash A e = Inr h" using expr_hash_total[OF assms(2)] by blast
  obtain ws where ws: "m_exprs s' h = Some ws" "e \<in> set (live ws)"
    using goc_stored[OF h clone_wf[OF assms(2)] 1(1)] by blast
  note 2 = goc_again[OF 1(2) assms(2-4) h ws]
  show ?thesis
    by (intro exI[of _ s'] exI[of _ "s'\<lparr>m_exprs := (m_exprs s')(h \<mapsto> purge ws)\<rparr>"] conjI 1(1) 2) (simp add: ws)
qed

theorem interning_shares_witness:
  "\<exists>s' s''. get_or_create sample_env (NegExpr (sym32 1)) ExprBuilder_init = Inr (NegExpr (sym32 1), s') \<and>
     get_or_create sample_env (NegExpr (sym32 1)) s' = Inr (NegExpr (sym32 1), s'') \<and>
     (\<forall>h. map_option live (m_exprs s'' h) = map_option live (m_exprs s' h))"
  by (rule interning_shares[OF breach.init]) (simp_all add: sym32_def)

text \<open>Symbols: a new name gets the next identifier as long as the 32-bit counter has not wrapped, and from then on
  the name, at the same width, gives that symbol; at another width it fails.\<close>

theorem mk_sym_stable:
  assumes "breach A s" and "m_symbols s name = None" and "0 < n" and "unat (m_sym_ids s) < 2 ^ 32 - 1" and "m \<noteq> n"
  shows "\<exists>s'. mk_sym A name n s = Inr (SymExpr (unat (m_sym_ids s)) n, s') \<and>
    mk_sym A name n s' = Inr (SymExpr (unat (m_sym_ids s)) n, s') \<and>
    mk_sym A name m s' = Inl (Exit ''mk_sym'') \<and>
    get_sym_name (unat (m_sym_ids s)) s' = Inr (name, s') \<and> get_sym_id name s' = Inr (unat (m_sym_ids s), s')"
  using mk_sym_fresh[OF breach_binv[OF assms(1)] assms(2-4)] assms(5)
  by (auto simp: mk_sym_known mk_sym_other_size get_sym_name_def get_sym_id_def)

theorem mk_sym_stable_witness:
  "\<exists>s'. mk_sym sample_env ''x'' 8 ExprBuilder_init = Inr (SymExpr 0 8, s') \<and>
     mk_sym sample_env ''x'' 16 s' = Inl (Exit ''mk_sym'')"
  using mk_sym_stable[OF breach.init, of "''x''" 8 16 sample_env] by (auto simp: ExprBuilder_init_def)

section \<open>Meaning of the results\<close>

text \<open>C21: \<^verbatim>\<open>mk_add\<close> and \<^verbatim>\<open>mk_sub\<close> return a node that means the sum and the difference modulo \<open>2 ^ n\<close>, through
  flattening, constant propagation, cancellation of opposite terms and collection of equal ones; the counters of the code
  are 32-bit integers, hence the bound on the number of terms, and the negation of the least 64-bit constant overflows.\<close>

theorem mk_add_sub_correct:
  assumes "binv A s" and "operand n l" and "operand n r" and "neg_ok r"
    and "length (add_els l) < 2 ^ 30" and "length (add_els r) < 2 ^ 30"
  shows "makes A s (mk_add A l r) n (\<lambda>\<rho>. (sem (fpl A) \<rho> l + sem (fpl A) \<rho> r) mod 2 ^ n) \<and>
    makes A s (mk_sub A l r) n (\<lambda>\<rho>. (sem (fpl A) \<rho> l - sem (fpl A) \<rho> r) mod 2 ^ n)"
  using mk_add_denotes[OF assms(2,3), of A] mk_sub_denotes[OF assms(2,3), of A] assms
  by (simp add: makesI flip: take_bit_eq_mod)

theorem mk_add_sub_correct_witness:
  "makes sample_env ExprBuilder_init (mk_add sample_env (sym32 0) (sym32 1)) 32
     (\<lambda>\<rho>. (sem (fpl sample_env) \<rho> (sym32 0) + sem (fpl sample_env) \<rho> (sym32 1)) mod 2 ^ 32)"
  using mk_add_sub_correct[OF binv_init sym32_operand[of 0] sym32_operand[of 1], of sample_env] by (simp add: sym32_ok)

text \<open>C27: \<^verbatim>\<open>mk_mul\<close>, \<^verbatim>\<open>mk_neg\<close> and \<^verbatim>\<open>mk_not\<close> return nodes that mean the product, the negation and the complement
  modulo \<open>2 ^ n\<close>.\<close>

theorem mk_mul_neg_not_correct:
  assumes "binv A s" and "operand n l" and "operand n r" and "neg_ok l"
  shows "makes A s (mk_mul A l r) n (\<lambda>\<rho>. (sem (fpl A) \<rho> l * sem (fpl A) \<rho> r) mod 2 ^ n) \<and>
    makes A s (mk_neg A l) n (\<lambda>\<rho>. (- sem (fpl A) \<rho> l) mod 2 ^ n) \<and>
    makes A s (mk_not A l) n (\<lambda>\<rho>. (NOT (sem (fpl A) \<rho> l)) mod 2 ^ n)"
  using mk_mul_denotes[OF assms(2,3), of A] mk_neg_denotes[OF assms(2,4), of A] mk_not_denotes[OF assms(2), of A] assms(1)
  by (simp add: makesI flip: take_bit_eq_mod)

theorem mk_mul_neg_not_correct_witness:
  "makes sample_env ExprBuilder_init (mk_mul sample_env (sym32 0) (sym32 1)) 32
     (\<lambda>\<rho>. (sem (fpl sample_env) \<rho> (sym32 0) * sem (fpl sample_env) \<rho> (sym32 1)) mod 2 ^ 32)"
  using mk_mul_neg_not_correct[OF binv_init sym32_operand[of 0] sym32_operand[of 1], of sample_env] by (simp add: sym32_ok)

text \<open>C28: \<^verbatim>\<open>mk_and\<close>, \<^verbatim>\<open>mk_or\<close> and \<^verbatim>\<open>mk_xor\<close> return nodes that mean the bitwise operations, absorbing and neutral
  constants, duplicates and cancelling pairs included.\<close>

theorem mk_bitwise_correct:
  assumes "binv A s" and "operand n l" and "operand n r"
  shows "makes A s (mk_and A l r) n (\<lambda>\<rho>. sem (fpl A) \<rho> l AND sem (fpl A) \<rho> r) \<and>
    makes A s (mk_or A l r) n (\<lambda>\<rho>. sem (fpl A) \<rho> l OR sem (fpl A) \<rho> r) \<and>
    makes A s (mk_xor A l r) n (\<lambda>\<rho>. sem (fpl A) \<rho> l XOR sem (fpl A) \<rho> r)"
  using mk_and_denotes[OF assms(2,3)] mk_or_denotes[OF assms(2,3)] mk_xor_denotes[OF assms(2,3)] assms(1)
  by (simp add: makesI)

theorem mk_bitwise_correct_witness:
  "makes sample_env ExprBuilder_init (mk_xor sample_env (sym32 0) (sym32 0)) 32
     (\<lambda>\<rho>. sem (fpl sample_env) \<rho> (sym32 0) XOR sem (fpl sample_env) \<rho> (sym32 0))"
  using mk_bitwise_correct[OF binv_init sym32_operand[of 0] sym32_operand[of 0], of sample_env] by blast

text \<open>C23: \<^verbatim>\<open>mk_extract\<close> returns the bits from \<open>low\<close> to \<open>high\<close> through concatenations and extensions, as long as it
  meets no zero extension whose operand ends between the two bits.\<close>

theorem mk_extract_correct:
  assumes "binv A s" and "operand n e" and "low \<le> high" and "high < n" and "extract_ok e high low"
  shows "makes A s (mk_extract A e high low) (high - low + 1)
    (\<lambda>\<rho>. sem (fpl A) \<rho> e div 2 ^ low mod 2 ^ (high - low + 1))"
  by (rule makes_cong[OF makesI[OF mk_extract_denotes[OF assms(2-5)] assms(1)]])
    (simp add: bits_of_def take_bit_eq_mod drop_bit_eq_div)

theorem mk_extract_correct_witness:
  "makes sample_env ExprBuilder_init (mk_extract sample_env (ConcatExpr [sym32 0, sym32 1]) 40 35) 6
     (\<lambda>\<rho>. sem (fpl sample_env) \<rho> (ConcatExpr [sym32 0, sym32 1]) div 2 ^ 35 mod 2 ^ 6)"
proof -
  have "operand 64 (ConcatExpr [sym32 0, sym32 1])" "extract_ok (ConcatExpr [sym32 0, sym32 1]) 40 35"
    by (simp_all add: operand_def sym32_def extract_ok_other)
  from mk_extract_correct[OF binv_init this(1) _ _ this(2)] show ?thesis by simp
qed

text \<open>C29: extending, and choosing between two nodes: \<^verbatim>\<open>mk_zext\<close> keeps the value, \<^verbatim>\<open>mk_sext\<close> keeps the two's
  complement value, and \<^verbatim>\<open>mk_ite\<close> selects by the guard.\<close>

theorem mk_extend_ite_correct:
  assumes "binv A s" and "operand n l" and "operand n r" and "n \<le> m" and "wf_expr g" and "is_bool g"
  shows "makes A s (mk_zext A l m) m (\<lambda>\<rho>. sem (fpl A) \<rho> l) \<and>
    makes A s (mk_sext A l m) m (\<lambda>\<rho>. sval n (sem (fpl A) \<rho> l) mod 2 ^ m) \<and>
    makes A s (mk_ite A g l r) n (\<lambda>\<rho>. if sem (fpl A) \<rho> g \<noteq> 0 then sem (fpl A) \<rho> l else sem (fpl A) \<rho> r)"
  using mk_zext_denotes[OF assms(2,4), of A] mk_sext_denotes[OF assms(2,4), of A] mk_ite_denotes[OF assms(5,6,2,3), of A] assms(1)
  by (simp add: makesI flip: take_bit_eq_mod)

theorem mk_extend_ite_correct_witness:
  "makes sample_env ExprBuilder_init (mk_sext sample_env (sym32 0) 64) 64
     (\<lambda>\<rho>. sval 32 (sem (fpl sample_env) \<rho> (sym32 0)) mod 2 ^ 64)"
  using mk_extend_ite_correct[OF binv_init sym32_operand[of 0] sym32_operand[of 1], of 64 "BoolConst True" sample_env]
  by (simp add: is_bool_def)


text \<open>C22: \<^verbatim>\<open>mk_concat\<close> returns a node that means the concatenation, through flattening, the merging of adjacent
  constants and extractions, and the recognition of sign extensions, for operands that hold neither adjacent constants nor an extraction of a
  concatenation (\<open>concat_ok\<close>).\<close>

theorem mk_concat_correct:
  assumes "binv A s" and "operand n l" and "operand m r" and "concat_ok l" and "concat_ok r"
  shows "makes A s (mk_concat A l r) (n + m) (\<lambda>\<rho>. sem (fpl A) \<rho> l * 2 ^ m + sem (fpl A) \<rho> r)"
proof (rule makes_cong[OF makesI[OF mk_concat_denotes[OF assms(2-5)] assms(1)]])
  fix \<rho>
  have "push_bit m (sem (fpl A) \<rho> l) AND sem (fpl A) \<rho> r = 0"
    using operand_range[OF assms(3), of "fpl A" \<rho>]
    by (intro bit_eqI) (auto simp: bit_simps dest!: bit_of_range[of "sem (fpl A) \<rho> r" m])
  then show "push_bit m (sem (fpl A) \<rho> l) OR sem (fpl A) \<rho> r = sem (fpl A) \<rho> l * 2 ^ m + sem (fpl A) \<rho> r"
    by (simp add: disjunctive_add_eq_or flip: push_bit_eq_mult)
qed

theorem mk_concat_correct_witness:
  "makes sample_env ExprBuilder_init
     (mk_concat sample_env (ExtractExpr (sym32 0) 15 8) (ExtractExpr (sym32 0) 7 0)) (8 + 8)
     (\<lambda>\<rho>. sem (fpl sample_env) \<rho> (ExtractExpr (sym32 0) 15 8) * 2 ^ 8 + sem (fpl sample_env) \<rho> (ExtractExpr (sym32 0) 7 0))"
  by (rule mk_concat_correct[OF binv_init]) (simp_all add: operand_def sym32_def concat_ok_def concat_els_def)

text \<open>C30: the shifts: \<^verbatim>\<open>mk_shl\<close> and \<^verbatim>\<open>mk_lshr\<close> return nodes that mean the SMT-LIB shifts, the amount a node or a
  constant (of at most 64 bits, and below \<open>2 ^ 32\<close> when both operands are constants).\<close>

theorem mk_shift_correct:
  assumes "binv A s" and "operand n e" and "operand n v" and "shift_ok n e v"
  shows "makes A s (mk_shl A e v) n (\<lambda>\<rho>. shl_val n (sem (fpl A) \<rho> e) (sem (fpl A) \<rho> v)) \<and>
    makes A s (mk_lshr A e v) n (\<lambda>\<rho>. lshr_val n (sem (fpl A) \<rho> e) (sem (fpl A) \<rho> v))"
  using mk_shl_denotes[OF assms(2-4)] mk_lshr_denotes[OF assms(2-4)] assms(1) by (simp add: makesI)

theorem mk_shift_correct_witness:
  "makes sample_env ExprBuilder_init (mk_shl sample_env (sym32 0) (sym32 1)) 32
     (\<lambda>\<rho>. shl_val 32 (sem (fpl sample_env) \<rho> (sym32 0)) (sem (fpl sample_env) \<rho> (sym32 1)))"
  using mk_shift_correct[OF binv_init sym32_operand[of 0] sym32_operand[of 1], of sample_env]
  by (simp add: shift_ok_def sym32_def dest_const_def)

text \<open>Wider than 64 bits, a shift by a non-zero constant that fits in 64 bits reads the machine word of the amount,
  which a wide constant never sets: undefined behaviour.\<close>

theorem mk_shift_wide_undefined:
  assumes "operand n e" and "operand n (ConstExpr k)" and "64 < n" and "bv_val k \<noteq> 0" and "bv_val k < 2 ^ 64"
    and "dest_const e = None"
  shows "mk_shl A e (ConstExpr k) s = Inl (Undefined ''m_small_val is not initialised'') \<and>
    mk_lshr A e (ConstExpr k) s = Inl (Undefined ''m_small_val is not initialised'')"
  using mk_shift_wide[OF assms] by blast

theorem mk_shift_wide_undefined_witness:
  "mk_shl sample_env (SymExpr 0 80) (ConstExpr (big_const 80 5)) ExprBuilder_init
     = Inl (Undefined ''m_small_val is not initialised'')"
proof -
  have "operand 80 (SymExpr 0 80)" "operand 80 (ConstExpr (big_const 80 5))" "dest_const (SymExpr 0 80) = None"
    "bv_val (big_const 80 5) = 5"
    by (simp_all add: operand_def big_const_def bv_ok_def BVConst_copy_def bv_val_def dest_const_def)
  then show ?thesis using mk_shift_wide_undefined[of 80 "SymExpr 0 80" "big_const 80 5"] by simp
qed

text \<open>C26: the comparisons return formulas that hold exactly when the values compare: the unsigned ones always, the
  signed ones for at most 64 bits or when an operand is not a constant.\<close>

theorem mk_compare_correct:
  assumes "binv A s" and "operand n l" and "operand n r"
  shows "decides A s (mk_ult A l r) (\<lambda>\<rho>. sem (fpl A) \<rho> l < sem (fpl A) \<rho> r) \<and>
    decides A s (mk_ule A l r) (\<lambda>\<rho>. sem (fpl A) \<rho> l \<le> sem (fpl A) \<rho> r) \<and>
    decides A s (mk_ugt A l r) (\<lambda>\<rho>. sem (fpl A) \<rho> l > sem (fpl A) \<rho> r) \<and>
    decides A s (mk_uge A l r) (\<lambda>\<rho>. sem (fpl A) \<rho> l \<ge> sem (fpl A) \<rho> r) \<and>
    (n \<le> 64 \<or> dest_const l = None \<or> dest_const r = None \<longrightarrow>
      decides A s (mk_slt A l r) (\<lambda>\<rho>. sval n (sem (fpl A) \<rho> l) < sval n (sem (fpl A) \<rho> r)) \<and>
      decides A s (mk_sle A l r) (\<lambda>\<rho>. sval n (sem (fpl A) \<rho> l) \<le> sval n (sem (fpl A) \<rho> r)) \<and>
      decides A s (mk_sgt A l r) (\<lambda>\<rho>. sval n (sem (fpl A) \<rho> l) > sval n (sem (fpl A) \<rho> r)) \<and>
      decides A s (mk_sge A l r) (\<lambda>\<rho>. sval n (sem (fpl A) \<rho> l) \<ge> sval n (sem (fpl A) \<rho> r)))"
  using mk_unsigned_asserts[OF assms(2,3), of A] mk_signed_asserts[OF assms(2,3), of A] decidesI[OF _ assms(1)] by blast

theorem mk_compare_correct_witness:
  "decides sample_env ExprBuilder_init (mk_slt sample_env (sym32 0) (sym32 1))
     (\<lambda>\<rho>. sval 32 (sem (fpl sample_env) \<rho> (sym32 0)) < sval 32 (sem (fpl sample_env) \<rho> (sym32 1)))"
  using mk_compare_correct[OF binv_init sym32_operand[of 0] sym32_operand[of 1], of sample_env] by simp

text \<open>C24: \<^verbatim>\<open>mk_eq\<close> and \<^verbatim>\<open>mk_neq\<close> return formulas that hold exactly when the values are equal and different, also when a sum
  compared with zero is split into the two sides of an equation.\<close>

theorem mk_eq_correct:
  assumes "binv A s" and "operand n l" and "operand n r" and "eq_ok l"
  shows "decides A s (mk_eq A l r) (\<lambda>\<rho>. sem (fpl A) \<rho> l = sem (fpl A) \<rho> r) \<and>
    decides A s (mk_neq A l r) (\<lambda>\<rho>. sem (fpl A) \<rho> l \<noteq> sem (fpl A) \<rho> r)"
  using mk_eq_asserts[OF assms(2-4), of A] mk_neq_asserts[OF assms(2-4), of A] decidesI[OF _ assms(1)] by blast

theorem mk_eq_correct_witness:
  "decides sample_env ExprBuilder_init
     (mk_eq sample_env (AddExpr [sym32 0, NegExpr (sym32 1)]) (ConstExpr (small_const 32 0)))
     (\<lambda>\<rho>. sem (fpl sample_env) \<rho> (AddExpr [sym32 0, NegExpr (sym32 1)]) = sem (fpl sample_env) \<rho> (ConstExpr (small_const 32 0)))"
proof -
  have "operand 32 (AddExpr [sym32 0, NegExpr (sym32 1)])" "operand 32 (ConstExpr (small_const 32 0))"
    "eq_ok (AddExpr [sym32 0, NegExpr (sym32 1)])"
    by (simp_all add: operand_def sym32_def same_width_def small_const_def bv_ok_def BVConst_copy_def eq_ok_def neg_ok_def)
  from mk_eq_correct[OF binv_init this] show ?thesis by blast
qed

text \<open>C25: the connectives and the conversions: negation, conjunction and disjunction (with duplicates and constants
  removed) and the two conversions between formulas and bit vectors mean what their names say.\<close>

theorem mk_bool_correct:
  assumes "binv A s" and "formula a" and "formula b" and "operand n e"
  shows "decides A s (mk_bool_not A a) (\<lambda>\<rho>. \<not> holds (fpl A) \<rho> a) \<and>
    decides A s (mk_bool_and A a b) (\<lambda>\<rho>. holds (fpl A) \<rho> a \<and> holds (fpl A) \<rho> b) \<and>
    decides A s (mk_bool_or A a b) (\<lambda>\<rho>. holds (fpl A) \<rho> a \<or> holds (fpl A) \<rho> b) \<and>
    makes A s (bool_to_bv A a) 8 (\<lambda>\<rho>. of_bool (holds (fpl A) \<rho> a)) \<and>
    decides A s (bv_to_bool A e) (\<lambda>\<rho>. sem (fpl A) \<rho> e \<noteq> 0)"
proof -
  have "wf_expr a" "is_bool a" using assms(2) by (auto simp: formula_def)
  from decidesI[OF mk_bool_not_asserts[OF this] assms(1)]
  have "decides A s (mk_bool_not A a) (\<lambda>\<rho>. \<not> holds (fpl A) \<rho> a)" by simp
  with decidesI[OF mk_bool_and_asserts[OF assms(2,3)] assms(1)] decidesI[OF mk_bool_or_asserts[OF assms(2,3)] assms(1)]
    makesI[OF bool_to_bv_denotes[OF assms(2)] assms(1)] decidesI[OF bv_to_bool_asserts[OF assms(4)] assms(1)]
  show ?thesis by blast
qed

theorem mk_bool_correct_witness:
  "decides sample_env ExprBuilder_init (mk_bool_and sample_env (UltExpr (sym32 0) (sym32 1)) (BoolConst True))
     (\<lambda>\<rho>. holds (fpl sample_env) \<rho> (UltExpr (sym32 0) (sym32 1)) \<and> holds (fpl sample_env) \<rho> (BoolConst True))"
proof -
  have "formula (UltExpr (sym32 0) (sym32 1))" "formula (BoolConst True)" by (simp_all add: formula_def sym32_def)
  from mk_bool_correct[OF binv_init this sym32_operand] show ?thesis by blast
qed

text \<open>C31: the divisions evaluated at once, of two constants and of any value by the constant zero: \<^verbatim>\<open>mk_udiv\<close>, \<^verbatim>\<open>mk_urem\<close> and
  \<^verbatim>\<open>mk_srem\<close> return nodes that mean the SMT-LIB value for every value of the symbols, and so does \<^verbatim>\<open>mk_sdiv\<close> except for a
  negative dividend and the divisor zero, where it gives 0 and SMT-LIB 1. Excluded are the least 64-bit number by minus one (a
  signed overflow) and the signed division of a constant wider than 64 bits by zero. The other two cases without a
  division node are wrong: a remainder by the constant one (\<open>mk_rem_by_one\<close>) and a quotient of a node by itself
  (\<open>mk_div_by_itself\<close>).\<close>

theorem mk_division_correct:
  assumes "binv A s" and "operand n l" and "operand n (ConstExpr d)" and "dest_const l \<noteq> None \<or> bv_val d = 0"
    and "\<not> (n = 64 \<and> bv_val d = 2 ^ 64 - 1 \<and> (\<exists>c. l = ConstExpr c \<and> bv_val c = 2 ^ 63))"
    and "bv_val d \<noteq> 0 \<or> n \<le> 64 \<or> dest_const l = None"
  shows "makes A s (mk_udiv A l (ConstExpr d)) n (\<lambda>\<rho>. udiv_val n (sem (fpl A) \<rho> l) (bv_val d)) \<and>
    makes A s (mk_urem A l (ConstExpr d)) n (\<lambda>\<rho>. urem_val n (sem (fpl A) \<rho> l) (bv_val d)) \<and>
    makes A s (mk_srem A l (ConstExpr d)) n (\<lambda>\<rho>. srem_val n (sem (fpl A) \<rho> l) (bv_val d)) \<and>
    makes A s (mk_sdiv A l (ConstExpr d)) n (\<lambda>\<rho>. if bv_val d = 0 \<and> sval n (sem (fpl A) \<rho> l) < 0 then 0
       else sdiv_val n (sem (fpl A) \<rho> l) (bv_val d))"
  using mk_unsigned_div_denotes[OF assms(2-4), of A] mk_signed_div_denotes[OF assms(2-6), of A] makesI[OF _ assms(1)] by blast

theorem mk_division_correct_witness:
  "makes sample_env ExprBuilder_init (mk_sdiv sample_env (sym32 0) (ConstExpr (small_const 32 0))) 32
     (\<lambda>\<rho>. if sval 32 (sem (fpl sample_env) \<rho> (sym32 0)) < 0 then 0 else sdiv_val 32 (sem (fpl sample_env) \<rho> (sym32 0)) 0)"
proof -
  have z: "operand 32 (ConstExpr (small_const 32 0))" "bv_val (small_const 32 0) = 0"
    by (simp_all add: operand_def small_const_def bv_ok_def BVConst_copy_def bv_val_def)
  from mk_division_correct[OF binv_init sym32_operand[of 0] z(1), of sample_env] z(2) show ?thesis by (simp cong: if_cong)
qed

text \<open>The quotient of a node by itself is the constant one, also where the node is zero and SMT-LIB gives all ones.\<close>

theorem mk_div_by_itself:
  assumes "binv A s" and "operand n l" and "dest_const l = None"
  shows "makes A s (mk_udiv A l l) n (\<lambda>_. 1) \<and> makes A s (mk_sdiv A l l) n (\<lambda>_. 1) \<and> udiv_val 8 0 0 = 255 \<and> sdiv_val 8 0 0 = 255"
  using mk_div_self_denotes[OF assms(2,3), of A] makesI[OF _ assms(1)] by (simp add: udiv_val_def sdiv_val_def mask_eq_exp_minus_1 sval_def)

theorem mk_div_by_itself_witness: "makes sample_env ExprBuilder_init (mk_udiv sample_env (sym32 0) (sym32 0)) 32 (\<lambda>_. 1)"
  using mk_div_by_itself[OF binv_init sym32_operand[of 0], of sample_env] by (simp add: sym32_def dest_const_def)

text \<open>Signed division by zero: for a negative dividend the node means 0, where SMT-LIB and Z3, which the comment
  in the code names, give 1.\<close>

theorem mk_sdiv_by_zero:
  assumes "binv A s" and "operand n l" and "operand n (ConstExpr d)" and "bv_val d = 0"
    and "n \<le> 64 \<or> dest_const l = None"
  shows "makes A s (mk_sdiv A l (ConstExpr d)) n (\<lambda>\<rho>. if 0 \<le> sval n (sem (fpl A) \<rho> l) then 2 ^ n - 1 else 0) \<and>
    sdiv_val n x 0 = (if 0 \<le> sval n x then 2 ^ n - 1 else 1)"
  using makesI[OF mk_sdiv_zero_denotes[OF assms(2-5)] assms(1)] unfolding sdiv_val_def mask_eq_exp_minus_1 by auto

theorem mk_sdiv_by_zero_witness:
  "makes sample_env ExprBuilder_init (mk_sdiv sample_env (sym32 0) (ConstExpr (small_const 32 0))) 32
     (\<lambda>\<rho>. if 0 \<le> sval 32 (sem (fpl sample_env) \<rho> (sym32 0)) then 2 ^ 32 - 1 else 0)"
proof -
  have z: "operand 32 (ConstExpr (small_const 32 0))" "bv_val (small_const 32 0) = 0"
    by (simp_all add: operand_def small_const_def bv_ok_def BVConst_copy_def bv_val_def)
  from mk_sdiv_by_zero[OF binv_init sym32_operand[of 0] z, of sample_env] show ?thesis by simp
qed

text \<open>A remainder by the constant one returns the dividend, although the remainder of any value by one is zero.\<close>

theorem mk_rem_by_one:
  assumes "operand n l" and "operand n (ConstExpr d)" and "bv_val d = 1" and "dest_const l = None"
  shows "mk_urem A l (ConstExpr d) s = Inr (l, s) \<and> mk_srem A l (ConstExpr d) s = Inr (l, s) \<and>
    urem_val n x (bv_val d) = 0"
  using mk_rem_one[OF assms] assms(3) by (simp add: urem_val_def)

theorem mk_rem_by_one_witness:
  "mk_urem sample_env (sym32 0) (ConstExpr (small_const 32 1)) ExprBuilder_init = Inr (sym32 0, ExprBuilder_init)"
proof -
  have "operand 32 (ConstExpr (small_const 32 1))" "bv_val (small_const 32 1) = 1" "dest_const (sym32 0) = None"
    by (simp_all add: operand_def small_const_def bv_ok_def BVConst_copy_def bv_val_def sym32_def dest_const_def)
  from mk_rem_by_one[OF sym32_operand this] show ?thesis by blast
qed

text \<open>Once a logical right shift has been built, asking for the arithmetic right shift of the same operands returns
  the logical one: the two classes share their kind, and the search accepts any node of that kind.\<close>

theorem mk_ashr_returns_lshr:
  assumes "binv A s" and "operand n e" and "operand n v" and "dest_const v = None"
  shows "\<exists>s' s''. mk_lshr A e v s = Inr (LShrExpr e v, s') \<and> mk_ashr A e v s' = Inr (LShrExpr e v, s'') \<and>
    sem F \<rho> (LShrExpr e v) = lshr_val n (sem F \<rho> e) (sem F \<rho> v)"
  using mk_ashr_aliases[OF assms] assms(2) by (auto simp: operand_def)

theorem mk_ashr_returns_lshr_witness:
  "\<exists>s' s''. mk_lshr sample_env (sym32 0) (sym32 1) ExprBuilder_init = Inr (LShrExpr (sym32 0) (sym32 1), s') \<and>
     mk_ashr sample_env (sym32 0) (sym32 1) s' = Inr (LShrExpr (sym32 0) (sym32 1), s'')"
  using mk_ashr_returns_lshr[OF binv_init sym32_operand[of 0] sym32_operand[of 1], of sample_env]
  by (auto simp: sym32_def dest_const_def)

end
