(* ===== verification/Evaluate_Properties.thy ===== *)
theory Evaluate_Properties
  imports EvalSpec Builder_Properties
begin

text \<open>
  The properties of the evaluation of expressions.
\<close>

text \<open>C10: evaluation computes the meaning: under an assignment that gives the symbols constants of their width, or with
  model completion, evaluating a well-formed bit vector of the fragment returns the constant of its value, and
  evaluating a formula returns its truth value; neither ever fails.\<close>

theorem evaluate_correct:
  assumes "binv A s" and "wf_expr e" and "evaluable asg mc e"
  shows "(is_bv e \<longrightarrow> (\<exists>k s'. evaluate A e asg mc s = Inr (ConstExpr k, s') \<and> m_size k = expr_size e \<and>
      bv_val k = sem (fpl A) (env_of asg) e \<and> binv A s')) \<and>
    (is_bool e \<longrightarrow> (\<exists>s'. evaluate A e asg mc s = Inr (BoolConst (holds (fpl A) (env_of asg) e), s') \<and> binv A s'))"
  using evaluate_result[OF assms] by (auto simp: result_bv result_bool konst_def bv_rep_def)

theorem evaluate_correct_witness:
  "\<exists>s'. evaluate sample_env (UltExpr (AddExpr [sym32 0, sym32 1]) (ConstExpr (small_const 32 9)))
     (\<lambda>i. if i = 0 then Some (small_const 32 7) else None) True ExprBuilder_init = Inr (BoolConst True, s')"
proof -
  let ?asg = "\<lambda>i. if i = (0 :: nat) then Some (small_const 32 7) else None"
  let ?e = "UltExpr (AddExpr [sym32 0, sym32 1]) (ConstExpr (small_const 32 9))"
  have v: "bv_val (small_const 32 7) = 7" "bv_val (small_const 32 9) = 9"
    by (simp_all add: bv_val_def small_const_def)
  have "evaluable ?asg True ?e"
    by (simp add: evaluable_nodes sym32_def node_ok_def is_fp_def small_const_def bv_ok_def)
  moreover have "wf_expr ?e"
    by (simp add: sym32_def small_const_def bv_ok_def BVConst_copy_def same_width_def)
  moreover have "sem F (env_of ?asg) ?e = 1" for F
    by (simp add: sym32_def env_of_def v)
  ultimately show ?thesis
    using evaluate_correct[OF binv_init, of ?e ?asg True sample_env] by auto
qed

text \<open>An arithmetic right shift is evaluated as a logical one: the result is the constant of the value shifted with
  zeros, also for a negative value.\<close>

theorem evaluate_ashr_logical:
  assumes "binv A s" and "operand n x" and "operand n v" and "n \<le> 32"
    and "evaluable asg mc x" and "evaluable asg mc v"
  shows "\<exists>k s'. evaluate A (AShrExpr x v) asg mc s = Inr (ConstExpr k, s') \<and>
    bv_val k = lshr_val n (sem (fpl A) (env_of asg) x) (sem (fpl A) (env_of asg) v)"
proof -
  let ?\<rho> = "env_of asg" and ?ev = "evaluate_inner A asg mc"
  have x: "evals A ?\<rho> (?ev x) (konst n (sem (fpl A) ?\<rho> x))" and v: "evals A ?\<rho> (?ev v) (konst n (sem (fpl A) ?\<rho> v))"
    using evaluate_inner_result[OF refl _ assms(5), of A] evaluate_inner_result[OF refl _ assms(6), of A] assms(2,3)
    by (auto simp: operand_def result_bv)
  have "evals A ?\<rho> (ev2 ?ev (mk_lshr A) x v) (konst n (lshr_val n (sem (fpl A) ?\<rho> x) (sem (fpl A) ?\<rho> v)))"
    by (rule evals_ev2[OF x v]) (rule mk_shift_konst(2)[OF _ _ assms(4)])
  moreover have "eval_inv A ?\<rho> (s, Map.empty)" using assms(1) by (simp add: eval_inv_def cache_ok_def)
  ultimately obtain r b c where "ev2 ?ev (mk_lshr A) x v (s, Map.empty) = Inr (r, (b, c))"
    "konst n (lshr_val n (sem (fpl A) ?\<rho> x) (sem (fpl A) ?\<rho> v)) r"
    by (rule evalsE) force
  then show ?thesis
    by (auto simp: evaluate_def evaluate_inner.simps[of A asg mc "AShrExpr x v"] cached_def evaluate_node_def bnd_def konst_def bv_rep_def)
qed

theorem evaluate_ashr_logical_witness:
  "\<exists>k s'. evaluate sample_env (AShrExpr (sym32 0) (sym32 1))
       (\<lambda>i. Some (small_const 32 (if i = 0 then 0x80000000 else 31))) True ExprBuilder_init = Inr (ConstExpr k, s') \<and>
     bv_val k = 1 \<and> ashr_val 32 0x80000000 31 = 0xFFFFFFFF"
proof -
  let ?asg = "\<lambda>i. Some (small_const 32 (if i = (0 :: nat) then 0x80000000 else 31))"
  have v: "bv_val (small_const 32 0x80000000) = 0x80000000" "bv_val (small_const 32 31) = 31"
    by (simp_all add: bv_val_def small_const_def)
  have e: "evaluable ?asg True (sym32 0)" "evaluable ?asg True (sym32 1)"
    by (simp_all add: evaluable_nodes sym32_def node_ok_def small_const_def bv_ok_def)
  have s: "sem F (env_of ?asg) (sym32 0) = 0x80000000" "sem F (env_of ?asg) (sym32 1) = 31" for F
    by (simp_all add: sym32_def env_of_def v)
  have "lshr_val 32 0x80000000 31 = 1" "ashr_val 32 0x80000000 31 = 0xFFFFFFFF"
    by (simp_all add: lshr_val_def ashr_val_def sval_def mask_eq_exp_minus_1)
  with evaluate_ashr_logical[OF binv_init sym32_operand sym32_operand _ e, of sample_env] s show ?thesis by simp
qed

end
