(* ===== verification/BVPrint.thy ===== *)
theory BVPrint
  imports BVConst_Struct
begin

unbundle bit_operations_syntax

text \<open>
  Printing of constants: \<^verbatim>\<open>BVConst::to_string\<close> of \<^verbatim>\<open>expr/BVConst.cpp\<close>, which the solver uses to pass constants to Z3, and
  the proof that the constructor from a numeral reads back what it prints.
\<close>

section \<open>Definitions\<close>

text \<open>The digits that a stream or GMP prints, without leading zeros and in lower case.\<close>

definition digit_char :: "nat \<Rightarrow> char" where
  "digit_char d = char_of (if d < 10 then 48 + d else 87 + d)"

fun digits :: "nat \<Rightarrow> nat \<Rightarrow> string" where
  "digits base n =
     (if n < base \<or> base < 2 then [digit_char n] else digits base (n div base) @ [digit_char (n mod base)])"

declare digits.simps [simp del]

text \<open>The buffer of \<^verbatim>\<open>gmp_snprintf\<close> holds 4095 characters; only a longer text than 4096 is refused.\<close>

definition mpz_to_string :: "int \<Rightarrow> bool \<Rightarrow> string res" where
  "mpz_to_string v hex =
     (let str = (if hex then ''0x'' else []) @ (if v < 0 then ''-'' else []) @ digits (if hex then 16 else 10) (nat \<bar>v\<bar>)
      in if length str > 4096 then Inl (Exit ''mpz_to_string'') else Inr (take 4095 str))"

definition bv_to_string :: "bool \<Rightarrow> bvconst \<Rightarrow> string res" where
  "bv_to_string hex c =
     (if \<not> is_big c
      then rbind (small_val c) (\<lambda>w.
        Inr (if hex then ''0x'' @ digits 16 (unat w) else digits 10 (unat w)))
      else mpz_to_string (m_big_val c) hex)"

section \<open>Reading back\<close>

lemma digit_val_char: "d < base \<Longrightarrow> base \<le> 16 \<Longrightarrow> digit_val base (digit_char d) = Some d"
  by (simp add: digit_val_def digit_char_def Let_def)

lemma digits_induct [case_names less step]:
  assumes "2 \<le> base" "\<And>n. n < base \<Longrightarrow> P n" "\<And>n. base \<le> n \<Longrightarrow> P (n div base) \<Longrightarrow> P n"
  shows "P (n :: nat)"
proof (induction n rule: less_induct)
  case (less n)
  with assms show ?case by (cases "n < base") auto
qed

lemma digits_prefix_append:
  "length (digits_prefix base xs) = length xs \<Longrightarrow> digits_prefix base (xs @ ys) = digits_prefix base xs @ digits_prefix base ys"
proof (induction xs)
  case (Cons x xs)
  then show ?case by (cases "digit_val base x") auto
qed simp

lemma digits_spec:
  assumes "2 \<le> base" "base \<le> 16"
  shows "digits_value base (digits_prefix base (digits base n)) = n \<and>
    length (digits_prefix base (digits base n)) = length (digits base n) \<and> digits base n \<noteq> [] \<and>
    (\<forall>c\<in>set (digits base n). \<exists>d<base. c = digit_char d)"
proof (induction n rule: digits_induct[OF assms(1)])
  case (1 n)
  with assms show ?case by (auto simp: digits.simps[of base n] digit_val_char digits_value_def)
next
  case (2 n)
  have v: "digits_value base (ds @ [d]) = digits_value base ds * base + d" for ds d by (simp add: digits_value_def)
  have m: "digit_val base (digit_char (n mod base)) = Some (n mod base)" using assms by (simp add: digit_val_char)
  have s: "digits base n = digits base (n div base) @ [digit_char (n mod base)]"
    using 2 assms by (simp add: digits.simps[of base n])
  show ?case
    unfolding s using 2 assms(1) m by (auto simp: digits_prefix_append v intro: exI[of _ "n mod base"])
qed

lemma digits_length: "2 \<le> base \<Longrightarrow> n < 2 ^ k \<Longrightarrow> length (digits base n) \<le> max 1 k"
proof (induction k arbitrary: n)
  case (Suc k)
  show ?case
  proof (cases "n < base")
    case False
    have "n div base \<le> n div 2" using Suc.prems(1) by (simp add: div_le_mono2)
    also have "\<dots> < 2 ^ k" using Suc.prems(2) by simp
    finally have l: "length (digits base (n div base)) \<le> max 1 k" using Suc.IH Suc.prems(1) by blast
    have "k \<noteq> 0" using False Suc.prems by (intro notI) simp
    with l False Suc.prems(1) show ?thesis by (simp add: digits.simps[of base n])
  qed (simp add: digits.simps[of base n])
qed (simp add: digits.simps[of base 0])

lemma digit_char_plain:
  assumes "d < 16"
  shows "\<not> is_space (digit_char d)" "digit_char d \<noteq> CHR ''-''" "digit_char d \<noteq> CHR ''+''" "digit_char d \<noteq> CHR ''x''"
    "digit_char d \<noteq> CHR ''X''" "d < 10 \<Longrightarrow> digit_char d \<noteq> CHR ''b''"
proof -
  have code: "(of_char (digit_char d) :: nat) = (if d < 10 then 48 + d else 87 + d)"
    using assms by (simp add: digit_char_def)
  show "\<not> is_space (digit_char d)" using assms by (simp add: is_space_def code)
  show "digit_char d \<noteq> CHR ''-''" "digit_char d \<noteq> CHR ''+''" "digit_char d \<noteq> CHR ''x''" "digit_char d \<noteq> CHR ''X''"
    "d < 10 \<Longrightarrow> digit_char d \<noteq> CHR ''b''"
    using assms code by (auto dest!: arg_cong[of _ _ "of_char :: char \<Rightarrow> nat"] split: if_splits)
qed

text \<open>A printed number has no sign, no white space and no prefix, so both parsers read its digits.\<close>

lemma digits_clean:
  assumes "base \<in> {10, 16}"
  shows "\<forall>c\<in>set (digits base n). \<not> is_space c \<and> c \<noteq> CHR ''-'' \<and> c \<noteq> CHR ''+'' \<and> c \<noteq> CHR ''x'' \<and> c \<noteq> CHR ''X'' \<and>
    (base = 10 \<longrightarrow> c \<noteq> CHR ''b'')"
proof
  fix c
  assume "c \<in> set (digits base n)"
  moreover have "2 \<le> base" "base \<le> 16" using assms by auto
  ultimately obtain d where "d < base" "c = digit_char d" using digits_spec[of base n] by blast
  with assms digit_char_plain[of d] show "\<not> is_space c \<and> c \<noteq> CHR ''-'' \<and> c \<noteq> CHR ''+'' \<and> c \<noteq> CHR ''x'' \<and>
    c \<noteq> CHR ''X'' \<and> (base = 10 \<longrightarrow> c \<noteq> CHR ''b'')" by auto
qed

lemma numeral_base_digits: "numeral_base (digits 10 n) = (10, digits 10 n)" "numeral_base (''0x'' @ digits 16 n) = (16, digits 16 n)"
proof -
  have c: "\<forall>c\<in>set (digits 10 n). c \<noteq> CHR ''x'' \<and> c \<noteq> CHR ''b''" using digits_clean[of 10 n] by blast
  show "numeral_base (digits 10 n) = (10, digits 10 n)"
  proof (cases "digits 10 n")
    case (Cons a as)
    with c show ?thesis by (cases as) (auto simp: numeral_base_def)
  qed (simp add: numeral_base_def)
qed (simp add: numeral_base_def)

lemma strip_digits: "base \<in> {10, 16} \<Longrightarrow> strip_hex_prefix base (digits base n) = digits base n"
  using digits_clean[of base n] by (auto simp: strip_hex_prefix_def split: list.split)

lemma parse_digits:
  assumes "base \<in> {10, 16}"
  shows "n < 2 ^ 64 \<Longrightarrow> stoul (digits base n) base = Inr (of_nat n)" "mpz_of_string (digits base n) base = Inr (int n)"
proof -
  have b: "2 \<le> base" "base \<le> 16" using assms by auto
  note d = digits_spec[OF b, of n] and c = digits_clean[OF assms, of n]
  obtain a as where a: "digits base n = a # as" using d by (cases "digits base n") auto
  have p: "digits_prefix base (a # as) \<noteq> []" "digits_value base (digits_prefix base (a # as)) = n"
    "length (digits_prefix base (a # as)) = length (a # as)" using d a by auto
  have w: "dropWhile is_space (a # as) = a # as" "filter (\<lambda>c. \<not> is_space c) (a # as) = a # as" "a \<noteq> CHR ''-''" "a \<noteq> CHR ''+''"
    using c a by (auto simp: filter_id_conv)
  show "n < 2 ^ 64 \<Longrightarrow> stoul (digits base n) base = Inr (of_nat n)"
    using strip_digits[OF assms, of n] p w a unfolding stoul_def a
    by (simp add: Let_def del: dropWhile.simps digits_prefix.simps)
  show "mpz_of_string (digits base n) base = Inr (int n)"
    using p w unfolding mpz_of_string_def a by (simp add: Let_def del: filter.simps digits_prefix.simps)
qed

lemma print_digits:
  assumes c: "bv_rep n v c" and n: "n \<le> 4000"
  shows "bv_to_string hex c = Inr ((if hex then ''0x'' else []) @ digits (if hex then 16 else 10) (nat v))"
proof (cases "n \<le> 64")
  case True
  then show ?thesis using c by (auto simp: bv_to_string_def elim!: bv_rep_smallE)
next
  case False
  let ?b = "if hex then 16 else 10 :: nat"
  let ?s = "(if hex then ''0x'' else []) @ digits ?b (nat v)"
  have v: "0 \<le> v" "v < 2 ^ n" "0 < n" using bv_rep_range[OF c] bv_rep_pos[OF c] by auto
  then have "nat v < 2 ^ n" by (simp add: nat_less_iff)
  then have "length (digits ?b (nat v)) \<le> n" using digits_length[of ?b "nat v" n] v(3) by (auto split: if_splits)
  then have "length ?s \<le> 4095" using n by (cases hex) auto
  with False c v(1) show ?thesis
    by (auto simp: bv_to_string_def mpz_to_string_def Let_def elim!: bv_rep_bigE)
qed

text \<open>Printing a constant and constructing one from the text gives the value back, in both bases.\<close>

lemma print_parse:
  assumes c: "bv_rep n v c" and n: "n \<le> 4000"
  shows "\<exists>s. bv_to_string hex c = Inr s \<and> bv_yields n v (BVConst_str s n)"
proof -
  let ?b = "if hex then 16 else 10 :: nat" and ?m = "nat v"
  let ?s = "(if hex then ''0x'' else []) @ digits ?b ?m"
  have v: "0 \<le> v" "v < 2 ^ n" "0 < n" using bv_rep_range[OF c] bv_rep_pos[OF c] by auto
  have b: "?b \<in> {10, 16}" by simp
  have print: "bv_to_string hex c = Inr ?s" using print_digits[OF c n] .
  have nb: "numeral_base ?s = (?b, digits ?b ?m)" using numeral_base_digits by simp
  have "bv_yields n (take_bit n v) (BVConst_str ?s n)"
  proof (rule BVConst_str_yields[OF v(3) nb, where w = "of_nat ?m"])
    assume "n \<le> 64"
    then have "(2 :: int) ^ n \<le> 2 ^ 64" by (intro power_increasing) simp_all
    with v have m: "?m < 2 ^ 64" and "v < 2 ^ 64" by (simp_all add: nat_less_iff)
    then have "uint (of_nat ?m :: 64 word) = v" using v(1) by (simp add: unsigned_of_int take_bit_int_eq_self)
    with parse_digits(1)[OF b m]
    show "stoul (digits ?b ?m) ?b = Inr (of_nat ?m) \<and> take_bit n (uint (of_nat ?m :: 64 word)) = take_bit n v"
      by (simp only:)
  next
    assume "\<not> n \<le> 64"
    then show "mpz_of_string (digits ?b ?m) ?b = Inr v" using parse_digits(2)[OF b] v(1) by simp
  qed
  with print show ?thesis using bv_rep_take_bit[OF c] by simp
qed

end
