(* ===== verification/ConstraintManager.thy ===== *)
theory ConstraintManager
  imports Evaluate
begin

text \<open>
  The path constraints of a state: the class \<^verbatim>\<open>ConstraintManager\<close> of \<^verbatim>\<open>solver/ConstraintManager.cpp\<close>. It keeps the
  constraints, indexed by the symbols they involve, and the graph of the symbols that occur together, so that a query is
  answered with the constraints that can influence it.

  A \<^verbatim>\<open>std::set\<close> of symbols is a sorted list; a \<^verbatim>\<open>std::set\<close> of pointers is a list in the order of the addresses.
\<close>

section \<open>State\<close>

type_synonym involved = "expr \<Rightarrow> nat list option"

record constraint_manager =
  m_constraint_map :: "(nat \<times> expr list) list"
  m_constraints :: "expr list"
  m_dependencies :: "(nat \<times> nat list) list"

text \<open>The process-wide objects: the builder, the cache of involved symbols, and the solver library.\<close>

record 'z world =
  w_builder :: builder
  w_involved :: involved
  w_z3 :: 'z

type_synonym ('z, 'a) wm = "('z world, 'a) smonad"

definition in_builder :: "'a bm \<Rightarrow> ('z, 'a) wm" where
  "in_builder m = (\<lambda>w. case m (w_builder w) of Inl f \<Rightarrow> Inl f | Inr (x, b) \<Rightarrow> Inr (x, w\<lparr>w_builder := b\<rparr>))"

definition ConstraintManager_init :: constraint_manager where
  "ConstraintManager_init = \<lparr>m_constraint_map = [], m_constraints = [], m_dependencies = []\<rparr>"

section \<open>Involved symbols\<close>

function get_involved_inputs :: "expr \<Rightarrow> involved \<Rightarrow> nat list \<times> involved" where
  "get_involved_inputs e g = (case g e of
     Some r \<Rightarrow> (r, g)
   | None \<Rightarrow>
       (case (if kind e = K_SYM then (case e of SymExpr i n \<Rightarrow> [i] | _ \<Rightarrow> [], g)
         else fold (\<lambda>x (res, g'). case get_involved_inputs x g' of
                 (ids, g'') \<Rightarrow> (fold insort_insert ids res, g'')) (children e) ([], g)) of
          (res, g') \<Rightarrow> (res, g'(e \<mapsto> res))))"
  by pat_completeness auto
termination
  by (relation "measure (\<lambda>(e, g). size e)") (simp_all add: children_size)

declare get_involved_inputs.simps [simp del]

section \<open>Adding a constraint\<close>

text \<open>\<^verbatim>\<open>m[k].insert(x)\<close> on a map of sets, the empty set for a new key.\<close>

definition ptr_insert :: "amb \<Rightarrow> expr \<Rightarrow> expr list \<Rightarrow> expr list" where
  "ptr_insert A e es = (if e \<in> set es then es else insort_key (addr A) e es)"

definition map_insert :: "('b \<Rightarrow> 'b list \<Rightarrow> 'b list) \<Rightarrow> 'a \<Rightarrow> 'b \<Rightarrow> ('a \<times> 'b list) list \<Rightarrow> ('a \<times> 'b list) list" where
  "map_insert ins k x m = AList.update k (ins x (case map_of m k of None \<Rightarrow> [] | Some xs \<Rightarrow> xs)) m"

definition cm_step :: "amb \<Rightarrow> expr \<Rightarrow> nat list \<Rightarrow> nat \<Rightarrow> constraint_manager \<Rightarrow> constraint_manager" where
  "cm_step A c ids s cm = cm
     \<lparr>m_constraint_map := map_insert (ptr_insert A) s c (m_constraint_map cm),
      m_dependencies := fold (\<lambda>s_again. map_insert insort_insert s s_again) ids (m_dependencies cm)\<rparr>"

definition cm_add :: "amb \<Rightarrow> expr \<Rightarrow> constraint_manager \<Rightarrow> involved \<Rightarrow> constraint_manager \<times> involved" where
  "cm_add A c cm g = (case get_involved_inputs c g of (ids, g') \<Rightarrow>
     (let cm' = fold (cm_step A c ids) ids cm
      in (cm'\<lparr>m_constraints := ptr_insert A c (m_constraints cm')\<rparr>, g')))"

section \<open>The constraints that matter\<close>

text \<open>The loop over the queue; the back of the queue is the head of the list.\<close>

function dep_loop :: "(nat \<times> nat list) list \<Rightarrow> nat list \<Rightarrow> nat list \<Rightarrow> nat list" where
  "dep_loop deps [] res = res"
| "dep_loop deps (cur # queue) res =
     (if cur \<in> set res then dep_loop deps queue res
      else (let res' = insort_insert cur res
            in case map_of deps cur of
                 None \<Rightarrow> dep_loop deps queue res'
               | Some nexts \<Rightarrow> dep_loop deps (rev (filter (\<lambda>next. next \<notin> set res') nexts) @ queue) res'))"
  by pat_completeness auto
termination
proof (relation "inv_image (finite_psubset <*lex*> less_than) (\<lambda>(deps, queue, res). (fst ` set deps - set res, length queue))",
    goal_cases)
  case 1
  show ?case by (intro wf_inv_image wf_lex_prod wf_finite_psubset wf_less_than)
next
  case (4 deps cur queue res res' nexts)
  then have "cur \<in> fst ` set deps" by (auto dest!: map_of_SomeD simp: image_iff) force
  with 4 show ?case by (auto simp: finite_psubset_def set_insort_insert)
qed (auto simp: finite_psubset_def set_insort_insert)

definition get_dependencies :: "constraint_manager \<Rightarrow> expr \<Rightarrow> involved \<Rightarrow> nat list \<times> involved" where
  "get_dependencies cm e g = (case get_involved_inputs e g of
     (ids, g') \<Rightarrow> (dep_loop (m_dependencies cm) (rev ids) [], g'))"

text \<open>\<^verbatim>\<open>pi(expr)\<close> and \<^verbatim>\<open>pi()\<close>.\<close>

definition relevant :: "amb \<Rightarrow> constraint_manager \<Rightarrow> nat list \<Rightarrow> expr list" where
  "relevant A cm ids = fold (\<lambda>sym cs. case map_of (m_constraint_map cm) sym of
     None \<Rightarrow> cs | Some es \<Rightarrow> fold (ptr_insert A) es cs) ids []"

definition cm_pi :: "amb \<Rightarrow> constraint_manager \<Rightarrow> expr \<Rightarrow> ('z, expr) wm" where
  "cm_pi A cm e = (\<lambda>w. case get_dependencies cm e (w_involved w) of
     (ids, g) \<Rightarrow> in_builder (mk_bool_and_no_simpl A (relevant A cm ids)) (w\<lparr>w_involved := g\<rparr>))"

fun and_all :: "amb \<Rightarrow> expr \<Rightarrow> expr list \<Rightarrow> expr bm" where
  "and_all A e [] = ret e"
| "and_all A e (c # cs) = bnd (mk_bool_and A e c) (\<lambda>e'. and_all A e' cs)"

definition cm_pi_all :: "amb \<Rightarrow> constraint_manager \<Rightarrow> ('z, expr) wm" where
  "cm_pi_all A cm = (case m_constraints cm of
     [] \<Rightarrow> in_builder mk_true
   | c # cs \<Rightarrow> in_builder (and_all A c cs))"

end
