(* ===== verification/Z3Solver.thy ===== *)
theory Z3Solver
  imports BVPrint ConstraintManager
begin

text \<open>
  The solver back end, \<^verbatim>\<open>solver/Z3Solver.cpp\<close>: the translation of expressions to Z3 terms, and the queries. Z3 is not part
  of the repository: its term constructors are the record \<open>z3_api\<close>, and its decision procedure the record \<open>z3_engine\<close>, both
  arguments of the definitions. An answer of Z3 may depend on the number of calls before it, so nothing is assumed about
  timeouts.
\<close>

section \<open>The interface of Z3\<close>

type_synonym z3_sort = "nat \<times> nat"

record 'z z3_api =
  z_bv_const :: "string \<Rightarrow> nat \<Rightarrow> 'z"
  z_bv_val :: "string \<Rightarrow> nat \<Rightarrow> 'z"
  z_bv_val_u64 :: "64 word \<Rightarrow> nat \<Rightarrow> 'z"
  z_bool_val :: "bool \<Rightarrow> 'z"
  z_extract :: "'z \<Rightarrow> nat \<Rightarrow> nat \<Rightarrow> 'z"
  z_concat :: "'z \<Rightarrow> 'z \<Rightarrow> 'z"
  z_zext :: "'z \<Rightarrow> nat \<Rightarrow> 'z"
  z_sext :: "'z \<Rightarrow> nat \<Rightarrow> 'z"
  z_ite :: "'z \<Rightarrow> 'z \<Rightarrow> 'z \<Rightarrow> 'z"
  z_shl :: "'z \<Rightarrow> 'z \<Rightarrow> 'z"
  z_lshr :: "'z \<Rightarrow> 'z \<Rightarrow> 'z"
  z_ashr :: "'z \<Rightarrow> 'z \<Rightarrow> 'z"
  z_neg :: "'z \<Rightarrow> 'z"
  z_not :: "'z \<Rightarrow> 'z"
  z_and :: "'z \<Rightarrow> 'z \<Rightarrow> 'z"
  z_or :: "'z \<Rightarrow> 'z \<Rightarrow> 'z"
  z_xor :: "'z \<Rightarrow> 'z \<Rightarrow> 'z"
  z_add :: "'z \<Rightarrow> 'z \<Rightarrow> 'z"
  z_mul :: "'z \<Rightarrow> 'z \<Rightarrow> 'z"
  z_div :: "'z \<Rightarrow> 'z \<Rightarrow> 'z"
  z_udiv :: "'z \<Rightarrow> 'z \<Rightarrow> 'z"
  z_lnot :: "'z \<Rightarrow> 'z"
  z_land :: "'z \<Rightarrow> 'z \<Rightarrow> 'z"
  z_lor :: "'z \<Rightarrow> 'z \<Rightarrow> 'z"
  z_ult :: "'z \<Rightarrow> 'z \<Rightarrow> 'z"
  z_ule :: "'z \<Rightarrow> 'z \<Rightarrow> 'z"
  z_ugt :: "'z \<Rightarrow> 'z \<Rightarrow> 'z"
  z_uge :: "'z \<Rightarrow> 'z \<Rightarrow> 'z"
  z_slt :: "'z \<Rightarrow> 'z \<Rightarrow> 'z"
  z_sle :: "'z \<Rightarrow> 'z \<Rightarrow> 'z"
  z_sgt :: "'z \<Rightarrow> 'z \<Rightarrow> 'z"
  z_sge :: "'z \<Rightarrow> 'z \<Rightarrow> 'z"
  z_eq :: "'z \<Rightarrow> 'z \<Rightarrow> 'z"
  z_lt :: "'z \<Rightarrow> 'z \<Rightarrow> 'z"
  z_distinct :: "'z \<Rightarrow> 'z \<Rightarrow> 'z"
  z_from_ieee_bv :: "'z \<Rightarrow> z3_sort \<Rightarrow> 'z"
  z_to_ieee_bv :: "'z \<Rightarrow> 'z"
  z_fpa_to_fpa :: "'z \<Rightarrow> z3_sort \<Rightarrow> 'z"
  z_sbv_to_fpa :: "'z \<Rightarrow> z3_sort \<Rightarrow> 'z"
  z_fpa_nan :: "z3_sort \<Rightarrow> 'z"
  z_simplify :: "'z \<Rightarrow> 'z"

text \<open>The operators \<open>+\<close>, \<open>*\<close>, \<open>/\<close>, \<open>-\<close> and \<open><\<close> of \<^verbatim>\<open>z3::expr\<close> are overloaded: they apply to bit vectors and to floating point.\<close>

datatype z3_answer = Z3_unsat | Z3_sat | Z3_unknown

text \<open>The model of the last check: the interpreted constants with their width and decimal numeral.\<close>

record 'z z3_engine =
  z_check :: "nat \<Rightarrow> 'z list \<Rightarrow> z3_answer"
  z_model :: "nat \<Rightarrow> 'z list \<Rightarrow> (string \<times> nat \<times> string) list"
  z_fract :: "float_format \<Rightarrow> 64 word \<Rightarrow> 64 word"

text \<open>\<open>z_fract\<close> is \<^verbatim>\<open>FloatFormat::extractFractionalCode\<close> of the sleigh library.\<close>

record 'z z3_solver =
  z3_assertions :: "'z list"
  z3_checks :: nat

datatype check_result = SAT | UNSAT | UNKNOWN

type_synonym ('z, 'a) zm = "('z z3_solver, 'a) wm"

section \<open>Translation\<close>

function countSetBits :: "64 word \<Rightarrow> nat" where
  "countSetBits n = (if n = 0 then 0 else (if odd n then 1 else 0) + countSetBits (drop_bit 1 n))"
  by pat_completeness auto
termination
proof (relation "measure unat", goal_cases)
  case (2 n)
  then have "0 < unat n" by (simp add: unat_gt_0)
  moreover have "unat (drop_bit 1 n) = unat n div 2" unfolding unat_drop_bit_eq by (simp add: drop_bit_eq_div)
  ultimately show ?case by simp
qed simp

declare countSetBits.simps [simp del]

text \<open>The constant \<^verbatim>\<open>(2UL << 63) - 1\<close> wraps to all ones.\<close>

definition get_fp_sort :: "'z z3_engine \<Rightarrow> float_format \<Rightarrow> z3_sort" where
  "get_fp_sort Z ff =
     (let fract_size = countSetBits (z_fract Z ff (push_bit 63 2 - 1)) + 1
      in (ff_getSize ff * 8 - fract_size, fract_size))"

text \<open>The cache maps the nodes already translated; the builder is only read, for the names of symbols.\<close>

type_synonym 'z zcache = "expr \<Rightarrow> 'z option"

type_synonym 'z tm = "('z zcache, 'z) smonad"

definition tr1 :: "(expr \<Rightarrow> 'z tm) \<Rightarrow> ('z \<Rightarrow> 'z) \<Rightarrow> expr \<Rightarrow> 'z tm" where
  "tr1 tr f x = bnd (tr x) (\<lambda>a. ret (f a))"

definition tr2 :: "(expr \<Rightarrow> 'z tm) \<Rightarrow> ('z \<Rightarrow> 'z \<Rightarrow> 'z) \<Rightarrow> expr \<Rightarrow> expr \<Rightarrow> 'z tm" where
  "tr2 tr f x y = bnd (tr x) (\<lambda>a. bnd (tr y) (\<lambda>b. ret (f a b)))"

fun tr_fold :: "(expr \<Rightarrow> 'z tm) \<Rightarrow> ('z \<Rightarrow> 'z \<Rightarrow> 'z) \<Rightarrow> 'z \<Rightarrow> expr list \<Rightarrow> 'z tm" where
  "tr_fold tr f acc [] = ret acc"
| "tr_fold tr f acc (x # xs) = bnd (tr x) (\<lambda>a. tr_fold tr f (f acc a) xs)"

definition tr_list :: "(expr \<Rightarrow> 'z tm) \<Rightarrow> ('z \<Rightarrow> 'z \<Rightarrow> 'z) \<Rightarrow> expr list \<Rightarrow> 'z tm" where
  "tr_list tr f es = (case es of
     [] \<Rightarrow> throw (StdException ''out_of_range'') | x # xs \<Rightarrow> bnd (tr x) (\<lambda>a. tr_fold tr f a xs))"

definition to_z3_fp :: "'z z3_api \<Rightarrow> 'z z3_engine \<Rightarrow> (expr \<Rightarrow> 'z tm) \<Rightarrow> expr \<Rightarrow> 'z tm" where
  "to_z3_fp Z E tr e = (case e of
     FPConstExpr c \<Rightarrow> ret (z_from_ieee_bv Z (z_bv_val_u64 Z (fp_val c) (ff_getSize (fp_ff c) * 8)) (get_fp_sort E (fp_ff c)))
   | BVToFPExpr ff x \<Rightarrow> tr1 tr (\<lambda>a. z_from_ieee_bv Z a (get_fp_sort E ff)) x
   | FPNegExpr x \<Rightarrow> tr1 tr (z_neg Z) x
   | FPAddExpr es \<Rightarrow> tr_list tr (z_add Z) es
   | FPMulExpr es \<Rightarrow> tr_list tr (z_mul Z) es
   | FPToBVExpr x \<Rightarrow> tr1 tr (z_to_ieee_bv Z) x
   | FPConvert x ff \<Rightarrow> tr1 tr (\<lambda>a. z_fpa_to_fpa Z a (get_fp_sort E ff)) x
   | IntToFPExpr x ff \<Rightarrow> tr1 tr (\<lambda>a. z_sbv_to_fpa Z a (get_fp_sort E ff)) x
   | FPIsNAN x \<Rightarrow> tr1 tr (\<lambda>a. z_eq Z a (z_fpa_nan Z (get_fp_sort E (expr_ff x)))) x
   | FPDivExpr x y \<Rightarrow> tr2 tr (z_div Z) x y
   | FPEqExpr x y \<Rightarrow> tr2 tr (z_eq Z) x y
   | FPLtExpr x y \<Rightarrow> tr2 tr (z_lt Z) x y
   | _ \<Rightarrow> throw (Exit ''to_z3_inner''))"

definition to_z3_logical :: "'z z3_api \<Rightarrow> 'z z3_engine \<Rightarrow> (expr \<Rightarrow> 'z tm) \<Rightarrow> expr \<Rightarrow> 'z tm" where
  "to_z3_logical Z E tr e = (case e of
     BoolNotExpr x \<Rightarrow> tr1 tr (z_lnot Z) x
   | UltExpr x y \<Rightarrow> tr2 tr (z_ult Z) x y
   | UleExpr x y \<Rightarrow> tr2 tr (z_ule Z) x y
   | UgtExpr x y \<Rightarrow> tr2 tr (z_ugt Z) x y
   | UgeExpr x y \<Rightarrow> tr2 tr (z_uge Z) x y
   | SltExpr x y \<Rightarrow> tr2 tr (z_slt Z) x y
   | SleExpr x y \<Rightarrow> tr2 tr (z_sle Z) x y
   | SgtExpr x y \<Rightarrow> tr2 tr (z_sgt Z) x y
   | SgeExpr x y \<Rightarrow> tr2 tr (z_sge Z) x y
   | EqExpr x y \<Rightarrow> tr2 tr (z_eq Z) x y
   | BoolAndExpr es \<Rightarrow> tr_list tr (z_land Z) es
   | BoolOrExpr es \<Rightarrow> tr_list tr (z_lor Z) es
   | _ \<Rightarrow> to_z3_fp Z E tr e)"

text \<open>
  The kinds \<open>SREM\<close> and \<open>UREM\<close> are never reported: the remainders are translated as divisions, and the arithmetic right
  shift as the logical one.
\<close>

definition to_z3_arith :: "'z z3_api \<Rightarrow> 'z z3_engine \<Rightarrow> (expr \<Rightarrow> 'z tm) \<Rightarrow> expr \<Rightarrow> 'z tm" where
  "to_z3_arith Z E tr e = (case e of
     AndExpr es \<Rightarrow> tr_list tr (z_and Z) es
   | OrExpr es \<Rightarrow> tr_list tr (z_or Z) es
   | XorExpr es \<Rightarrow> tr_list tr (z_xor Z) es
   | AddExpr es \<Rightarrow> tr_list tr (z_add Z) es
   | MulExpr es \<Rightarrow> tr_list tr (z_mul Z) es
   | SDivExpr x y _ \<Rightarrow> tr2 tr (z_div Z) x y
   | UDivExpr x y _ \<Rightarrow> tr2 tr (z_udiv Z) x y
   | SRemExpr x y _ \<Rightarrow> tr2 tr (z_div Z) x y
   | URemExpr x y _ \<Rightarrow> tr2 tr (z_udiv Z) x y
   | _ \<Rightarrow> to_z3_logical Z E tr e)"

definition to_z3_node :: "'z z3_api \<Rightarrow> 'z z3_engine \<Rightarrow> builder \<Rightarrow> (expr \<Rightarrow> 'z tm) \<Rightarrow> expr \<Rightarrow> 'z tm" where
  "to_z3_node Z E b tr e = (case e of
     SymExpr i n \<Rightarrow>
       (case get_sym_name i b of Inl f \<Rightarrow> throw f | Inr (name, _) \<Rightarrow> ret (z_bv_const Z name n))
   | ConstExpr c \<Rightarrow> (case bv_to_string False c of Inl f \<Rightarrow> throw f | Inr s \<Rightarrow> ret (z_bv_val Z s (m_size c)))
   | BoolConst v \<Rightarrow> ret (z_bool_val Z v)
   | ExtractExpr x high low \<Rightarrow> tr1 tr (\<lambda>a. z_extract Z a high low) x
   | ConcatExpr es \<Rightarrow> tr_list tr (z_concat Z) es
   | ZextExpr x n \<Rightarrow> tr1 tr (\<lambda>a. z_zext Z a (n - expr_size x)) x
   | SextExpr x n \<Rightarrow> tr1 tr (\<lambda>a. z_sext Z a (n - expr_size x)) x
   | ITEExpr g t f \<Rightarrow> bnd (tr g) (\<lambda>a. tr2 tr (z_ite Z a) t f)
   | ShlExpr x v \<Rightarrow> tr2 tr (z_shl Z) x v
   | LShrExpr x v \<Rightarrow> tr2 tr (z_lshr Z) x v
   | AShrExpr x v \<Rightarrow> tr2 tr (z_lshr Z) x v
   | NegExpr x \<Rightarrow> tr1 tr (z_neg Z) x
   | NotExpr x \<Rightarrow> tr1 tr (z_not Z) x
   | _ \<Rightarrow> to_z3_arith Z E tr e)"

definition tr_cached :: "expr \<Rightarrow> 'z tm \<Rightarrow> 'z tm" where
  "tr_cached e m = (\<lambda>c. case c e of Some z \<Rightarrow> Inr (z, c) | None \<Rightarrow> bnd m (\<lambda>z c'. Inr (z, c'(e \<mapsto> z))) c)"

lemma tr_fold_cong: "\<forall>x\<in>set xs. tr x = tr' x \<Longrightarrow> tr_fold tr f acc xs = tr_fold tr' f acc xs"
  by (induction xs arbitrary: acc) simp_all

lemma tr_list_cong: "\<forall>x\<in>set xs. tr x = tr' x \<Longrightarrow> tr_list tr f xs = tr_list tr' f xs"
proof (cases xs)
  case (Cons y ys)
  assume same: "\<forall>x\<in>set xs. tr x = tr' x"
  then have "tr_fold tr f v ys = tr_fold tr' f v ys" for v
    by (intro tr_fold_cong) (simp add: Cons)
  then show ?thesis using same by (simp add: tr_list_def Cons)
qed (simp add: tr_list_def)

lemmas to_z3_defs = to_z3_node_def to_z3_arith_def to_z3_logical_def to_z3_fp_def

lemma to_z3_node_cong [fundef_cong]:
  assumes "Z = Z'" "E = E'" "b = b'" "e = e'" "\<And>x. x \<in> set (children e') \<Longrightarrow> tr x = tr' x"
  shows "to_z3_node Z E b tr e = to_z3_node Z' E' b' tr' e'"
  using assms by (cases e') (simp_all add: to_z3_defs tr1_def tr2_def tr_list_cong[of _ tr tr'])

function to_z3_inner :: "'z z3_api \<Rightarrow> 'z z3_engine \<Rightarrow> builder \<Rightarrow> expr \<Rightarrow> 'z tm" where
  "to_z3_inner Z E b e = tr_cached e (to_z3_node Z E b (to_z3_inner Z E b) e)"
  by pat_completeness auto
termination
  by (relation "measure (\<lambda>(Z, E, b, e). size e)") (simp_all add: children_size)

declare to_z3_inner.simps [simp del]

definition to_z3 :: "'z z3_api \<Rightarrow> 'z z3_engine \<Rightarrow> expr \<Rightarrow> ('z, 'z) zm" where
  "to_z3 Z E e = (\<lambda>w. case to_z3_inner Z E (w_builder w) e Map.empty of Inl f \<Rightarrow> Inl f | Inr (z, _) \<Rightarrow> Inr (z, w))"

section \<open>Queries\<close>

definition z3_reset :: "('z, unit) zm" where
  "z3_reset = (\<lambda>w. Inr ((), w\<lparr>w_z3 := (w_z3 w)\<lparr>z3_assertions := []\<rparr>\<rparr>))"

definition z3_add :: "'z \<Rightarrow> ('z, unit) zm" where
  "z3_add z = (\<lambda>w. Inr ((), w\<lparr>w_z3 := (w_z3 w)\<lparr>z3_assertions := z3_assertions (w_z3 w) @ [z]\<rparr>\<rparr>))"

definition z3_check :: "'z z3_engine \<Rightarrow> ('z, z3_answer) zm" where
  "z3_check E = (\<lambda>w. Inr (z_check E (z3_checks (w_z3 w)) (z3_assertions (w_z3 w)),
     w\<lparr>w_z3 := (w_z3 w)\<lparr>z3_checks := z3_checks (w_z3 w) + 1\<rparr>\<rparr>))"

fun add_simplified :: "'z z3_api \<Rightarrow> 'z z3_engine \<Rightarrow> expr list \<Rightarrow> ('z, unit) zm" where
  "add_simplified Z E [] = ret ()"
| "add_simplified Z E (c # cs) = bnd (to_z3 Z E c) (\<lambda>z. bnd (z3_add (z_simplify Z z)) (\<lambda>_. add_simplified Z E cs))"

definition check :: "'z z3_api \<Rightarrow> 'z z3_engine \<Rightarrow> expr \<Rightarrow> ('z, check_result) zm" where
  "check Z E query = bnd z3_reset (\<lambda>_.
     bnd (add_simplified Z E (case query of BoolAndExpr es \<Rightarrow> es | _ \<Rightarrow> [query])) (\<lambda>_.
     bnd (z3_check E) (\<lambda>r. ret (case r of Z3_unsat \<Rightarrow> UNSAT | Z3_sat \<Rightarrow> SAT | Z3_unknown \<Rightarrow> UNKNOWN))))"

text \<open>The model of the last check, from the names to the constants.\<close>

fun read_model :: "(string \<times> nat \<times> string) list \<Rightarrow> (nat \<Rightarrow> bvconst option) \<Rightarrow> (nat \<Rightarrow> bvconst option) bm" where
  "read_model [] res = ret res"
| "read_model ((name, n, val) # rest) res =
     bnd (liftr (BVConst_str val n)) (\<lambda>bv. bnd (get_sym_id name) (\<lambda>i.
       read_model rest (if res i = None then res(i \<mapsto> bv) else res)))"

definition model :: "'z z3_engine \<Rightarrow> ('z, nat \<Rightarrow> bvconst option) zm" where
  "model E = (\<lambda>w. in_builder (read_model (z_model E (z3_checks (w_z3 w) - 1) (z3_assertions (w_z3 w))) Map.empty) w)"

text \<open>The result of the evaluation is cast to a constant.\<close>

definition as_const :: "expr \<Rightarrow> ('z, bvconst) wm" where
  "as_const e = (case e of ConstExpr c \<Rightarrow> ret c | _ \<Rightarrow> throw (Undefined ''cast to ConstExpr''))"

fun eval_loop :: "amb \<Rightarrow> 'z z3_api \<Rightarrow> 'z z3_engine \<Rightarrow> expr \<Rightarrow> 'z \<Rightarrow> nat \<Rightarrow> bvconst list \<Rightarrow> ('z, bvconst list) zm" where
  "eval_loop A Z E val val_z3 0 res = ret res"
| "eval_loop A Z E val val_z3 (Suc n) res = bnd (z3_check E) (\<lambda>r.
     if r \<noteq> Z3_sat then ret res
     else bnd (model E) (\<lambda>m. bnd (in_builder (evaluate A val m True)) (\<lambda>val_conc.
          bnd (as_const val_conc) (\<lambda>c. bnd (to_z3 Z E val_conc) (\<lambda>z.
          bnd (z3_add (z_distinct Z z val_z3)) (\<lambda>_. eval_loop A Z E val val_z3 n (res @ [c])))))))"

definition eval_upto :: "amb \<Rightarrow> 'z z3_api \<Rightarrow> 'z z3_engine \<Rightarrow> expr \<Rightarrow> expr \<Rightarrow> nat \<Rightarrow> ('z, bvconst list) zm" where
  "eval_upto A Z E val pi n = bnd (to_z3 Z E val) (\<lambda>val_z3. bnd (to_z3 Z E pi) (\<lambda>pi_z3.
     bnd z3_reset (\<lambda>_. bnd (z3_add pi_z3) (\<lambda>_. eval_loop A Z E val val_z3 n []))))"

end
