(* ===== verification/Solver.thy ===== *)
theory Solver
  imports Z3Solver
begin

text \<open>
  The solver of a state, \<^verbatim>\<open>state/Solver.cpp\<close>: the path constraints, and a cached model of them that answers a query
  without Z3 when the query evaluates to true under it.
\<close>

section \<open>State\<close>

record solver =
  m_manager :: constraint_manager
  m_model :: "nat \<Rightarrow> bvconst option"

definition Solver_init :: solver where
  "Solver_init = \<lparr>m_manager = ConstraintManager_init, m_model = Map.empty\<rparr>"

type_synonym ('z, 'a) sm = "(solver \<times> 'z z3_solver world, 'a) smonad"

definition in_world :: "('z, 'a) zm \<Rightarrow> ('z, 'a) sm" where
  "in_world m = (\<lambda>(s, w). case m w of Inl f \<Rightarrow> Inl f | Inr (x, w') \<Rightarrow> Inr (x, (s, w')))"

definition get_solver :: "('z, solver) sm" where
  "get_solver = (\<lambda>(s, w). Inr (s, (s, w)))"

definition set_model :: "(nat \<Rightarrow> bvconst option) \<Rightarrow> ('z, unit) sm" where
  "set_model m = (\<lambda>(s, w). Inr ((), (s\<lparr>m_model := m\<rparr>, w)))"

definition building :: "'a bm \<Rightarrow> ('z, 'a) sm" where
  "building m = in_world (in_builder m)"

definition manager_pi :: "amb \<Rightarrow> expr \<Rightarrow> ('z, expr) sm" where
  "manager_pi A e = bnd get_solver (\<lambda>s. in_world (cm_pi A (m_manager s) e))"

definition manager_pi_all :: "amb \<Rightarrow> ('z, expr) sm" where
  "manager_pi_all A = bnd get_solver (\<lambda>s. in_world (cm_pi_all A (m_manager s)))"

definition dependencies :: "expr \<Rightarrow> ('z, nat list) sm" where
  "dependencies e = (\<lambda>(s, w). case get_dependencies (m_manager s) e (w_involved w) of
     (ids, g) \<Rightarrow> Inr (ids, (s, w\<lparr>w_involved := g\<rparr>)))"

section \<open>Adding constraints\<close>

definition manager_add :: "amb \<Rightarrow> expr \<Rightarrow> ('z, unit) sm" where
  "manager_add A c = (\<lambda>(s, w). case cm_add A c (m_manager s) (w_involved w) of
     (cm, g) \<Rightarrow> Inr ((), (s\<lparr>m_manager := cm\<rparr>, w\<lparr>w_involved := g\<rparr>)))"

definition solver_add_inv :: "amb \<Rightarrow> expr \<Rightarrow> bool \<Rightarrow> ('z, unit) sm" where
  "solver_add_inv A c invalidate_model =
     bnd (if is_true_const c then ret () else manager_add A c) (\<lambda>_.
       if invalidate_model
       then bnd (dependencies c) (\<lambda>involved_symbols. bnd get_solver (\<lambda>s.
              set_model (fold (\<lambda>s_id m. m(s_id := None)) involved_symbols (m_model s))))
       else ret ())"

definition solver_add :: "amb \<Rightarrow> expr \<Rightarrow> ('z, unit) sm" where
  "solver_add A c = solver_add_inv A c True"

section \<open>Queries\<close>

text \<open>The model of Z3 is merged into the cached one.\<close>

definition populate :: "'z z3_engine \<Rightarrow> ('z, unit) sm" where
  "populate E = bnd (in_world (model E)) (\<lambda>m. bnd get_solver (\<lambda>s. set_model (m_model s ++ m)))"

definition check_sat :: "amb \<Rightarrow> 'z z3_api \<Rightarrow> 'z z3_engine \<Rightarrow> expr \<Rightarrow> bool \<Rightarrow> ('z, check_result) sm" where
  "check_sat A Z E c populate_model =
     (case c of
        BoolConst b \<Rightarrow> ret (if b then SAT else UNSAT)
      | _ \<Rightarrow> bnd get_solver (\<lambda>s. bnd (building (evaluate A c (m_model s) False)) (\<lambda>v.
          if is_true_const v then ret SAT
          else if kind v = K_CONST then throw (Assertion ''check_sat'')
          else bnd (manager_pi A c) (\<lambda>p. bnd (building (mk_bool_and A p c)) (\<lambda>q.
               bnd (in_world (check Z E q)) (\<lambda>res.
               bnd (if res = SAT \<and> populate_model then populate E else ret ()) (\<lambda>_. ret res)))))))"

definition satisfiable :: "amb \<Rightarrow> 'z z3_api \<Rightarrow> 'z z3_engine \<Rightarrow> ('z, check_result) sm" where
  "satisfiable A Z E = bnd (manager_pi_all A) (\<lambda>p. bnd get_solver (\<lambda>s.
     bnd (building (evaluate A p (m_model s) False)) (\<lambda>v.
       if is_true_const v then ret SAT
       else if kind v = K_CONST then throw (Assertion ''satisfiable'')
       else bnd (manager_pi_all A) (\<lambda>q. bnd (in_world (check Z E q)) (\<lambda>res.
            bnd (if res = SAT then populate E else ret ()) (\<lambda>_. ret res))))))"

definition check_sat_and_add_if_sat :: "amb \<Rightarrow> 'z z3_api \<Rightarrow> 'z z3_engine \<Rightarrow> expr \<Rightarrow> ('z, check_result) sm" where
  "check_sat_and_add_if_sat A Z E c = bnd (check_sat A Z E c True) (\<lambda>r.
     bnd (if r = SAT then solver_add_inv A c False else ret ()) (\<lambda>_. ret r))"

definition may_be_true :: "amb \<Rightarrow> 'z z3_api \<Rightarrow> 'z z3_engine \<Rightarrow> expr \<Rightarrow> ('z, check_result) sm" where
  "may_be_true A Z E c = check_sat A Z E c False"

definition solver_value :: "expr \<Rightarrow> ('z, bvconst) sm" where
  "solver_value v = (case v of
     ConstExpr c \<Rightarrow> ret c
   | BoolConst b \<Rightarrow> liftr (BVConst_u64 (if b then 1 else 0) 1)
   | _ \<Rightarrow> throw (Assertion ''evaluate''))"

definition solver_evaluate :: "amb \<Rightarrow> 'z z3_api \<Rightarrow> 'z z3_engine \<Rightarrow> expr \<Rightarrow> ('z, bvconst option) sm" where
  "solver_evaluate A Z E e = bnd (dependencies e) (\<lambda>involved_symbols. bnd get_solver (\<lambda>s.
     bnd (if list_ex (\<lambda>s_id. m_model s s_id = None) involved_symbols
          then bnd (manager_pi A e) (\<lambda>p. check_sat A Z E p True) else ret SAT) (\<lambda>r.
       if r \<noteq> SAT then ret None
       else bnd get_solver (\<lambda>s. bnd (building (evaluate A e (m_model s) True)) (\<lambda>v.
            bnd (solver_value v) (\<lambda>c. ret (Some c)))))))"

definition evaluate_upto :: "amb \<Rightarrow> 'z z3_api \<Rightarrow> 'z z3_engine \<Rightarrow> expr \<Rightarrow> nat \<Rightarrow> ('z, bvconst list option) sm" where
  "evaluate_upto A Z E e n = bnd (manager_pi A e) (\<lambda>p. bnd (check_sat A Z E p True) (\<lambda>r.
     if r \<noteq> SAT then ret None
     else bnd (manager_pi A e) (\<lambda>p. bnd (in_world (eval_upto A Z E e p n)) (\<lambda>vs. ret (Some vs)))))"

end
