(* ===== verification/ConstraintSpec.thy ===== *)
theory ConstraintSpec
  imports ConstraintManager LogicSpec
begin

text \<open>
  The constraint manager answers a query with the constraints that share symbols with it, directly or through others,
  and leaves out only constraints on other symbols: the meaning of an expression depends on its symbols only.
\<close>

section \<open>The symbols of an expression\<close>

fun syms :: "expr \<Rightarrow> nat set" where
  "syms e = (case e of SymExpr i n \<Rightarrow> {i} | _ \<Rightarrow> \<Union>x\<in>set (children e). syms x)"

declare syms.simps [simp del]

lemma syms_sym [simp]: "syms (SymExpr i n) = {i}"
  by (simp add: syms.simps)

lemma syms_children: "kind e \<noteq> K_SYM \<Longrightarrow> syms e = (\<Union>x\<in>set (children e). syms x)"
  unfolding syms.simps[of e] by (cases e) simp_all

lemma finite_syms [simp]: "finite (syms e)"
proof (induction e rule: measure_induct_rule[where f = size])
  case (less e)
  show ?case
  proof (cases "kind e = K_SYM")
    case True
    then show ?thesis by (cases e) simp_all
  next
    case False
    with less show ?thesis by (simp add: syms_children children_size)
  qed
qed

lemma sem_children:
  assumes "\<forall>x\<in>set (children e). sem F \<rho> x = sem F \<rho>' x" "kind e \<noteq> K_SYM"
  shows "sem F \<rho> e = sem F \<rho>' e"
  using assms by (cases e) (simp_all cong: map_cong)

text \<open>The meaning of an expression depends only on the values of its symbols.\<close>

lemma sem_coincidence: "(\<And>i. i \<in> syms e \<Longrightarrow> \<rho> i = \<rho>' i) \<Longrightarrow> sem F \<rho> e = sem F \<rho>' e"
proof (induction e rule: measure_induct_rule[where f = size])
  case (less e)
  show ?case
  proof (cases "kind e = K_SYM")
    case True
    with less.prems show ?thesis by (cases e) simp_all
  next
    case False
    have "sem F \<rho> x = sem F \<rho>' x" if "x \<in> set (children e)" for x
      using less.IH[OF children_size[OF that]] less.prems that unfolding syms_children[OF False] by blast
    with False show ?thesis by (intro sem_children) simp_all
  qed
qed

section \<open>Involved symbols\<close>

definition involved_ok :: "involved \<Rightarrow> bool" where
  "involved_ok g \<longleftrightarrow> (\<forall>e r. g e = Some r \<longrightarrow> r = sorted_list_of_set (syms e))"

lemma insort_insert_set: "finite X \<Longrightarrow> insort_insert x (sorted_list_of_set X) = sorted_list_of_set (insert x X)"
  by (cases "x \<in> X") (simp_all add: insort_insert_triv insort_insert_insort insert_absorb)

lemma fold_insort_set:
  "finite X \<Longrightarrow> fold insort_insert xs (sorted_list_of_set X) = sorted_list_of_set (set xs \<union> X)"
proof (induction xs arbitrary: X)
  case (Cons x xs)
  have "set (x # xs) \<union> X = set xs \<union> insert x X" by auto
  with Cons.IH[of "insert x X"] Cons.prems show ?case
    by (simp add: insort_insert_set del: sorted_list_of_set_insert_remove)
qed simp

lemma involved_fold:
  assumes "\<And>x g. x \<in> set xs \<Longrightarrow> involved_ok g \<Longrightarrow>
      \<exists>g'. get_involved_inputs x g = (sorted_list_of_set (syms x), g') \<and> involved_ok g'"
    and "involved_ok g" "finite X"
  shows "\<exists>g'. fold (\<lambda>x (res, g'). case get_involved_inputs x g' of (ids, g'') \<Rightarrow> (fold insort_insert ids res, g''))
      xs (sorted_list_of_set X, g) = (sorted_list_of_set ((\<Union>x\<in>set xs. syms x) \<union> X), g') \<and> involved_ok g'"
  using assms
proof (induction xs arbitrary: g X)
  case (Cons x xs)
  obtain g1 where g1: "get_involved_inputs x g = (sorted_list_of_set (syms x), g1)" "involved_ok g1"
    using Cons.prems(1)[of x g] Cons.prems(2) by auto
  have "finite (syms x \<union> X)" using Cons.prems(3) by simp
  from Cons.IH[OF _ g1(2) this] Cons.prems(1)
  show ?case using g1(1) Cons.prems(3) by (simp add: fold_insort_set Un_assoc Un_left_commute)
qed simp

lemma get_involved_inputs_spec:
  "involved_ok g \<Longrightarrow> \<exists>g'. get_involved_inputs e g = (sorted_list_of_set (syms e), g') \<and> involved_ok g'"
proof (induction e arbitrary: g rule: measure_induct_rule[where f = size])
  case (less e)
  show ?case
  proof (cases "g e")
    case (Some r)
    with less.prems show ?thesis by (simp add: get_involved_inputs.simps[of e g] involved_ok_def)
  next
    case None
    show ?thesis
    proof (cases "kind e = K_SYM")
      case True
      then obtain i n where "e = SymExpr i n" by (cases e) auto
      with None less.prems show ?thesis unfolding get_involved_inputs.simps[of e g] by (simp add: involved_ok_def)
    next
      case False
      from involved_fold[of "children e" g "{}"] less.IH children_size less.prems
      obtain g' where "fold (\<lambda>x (res, g'). case get_involved_inputs x g' of (ids, g'') \<Rightarrow> (fold insort_insert ids res, g''))
          (children e) ([], g) = (sorted_list_of_set (syms e), g')" "involved_ok g'"
        using False by (auto simp: syms_children)
      with None False show ?thesis unfolding get_involved_inputs.simps[of e g] by (simp add: involved_ok_def)
    qed
  qed
qed

section \<open>The closure of a query\<close>

definition dep_rel :: "(nat \<times> nat list) list \<Rightarrow> (nat \<times> nat) set" where
  "dep_rel deps = {(s, t). \<exists>ts. map_of deps s = Some ts \<and> t \<in> set ts}"

text \<open>The loop computes the symbols reachable from the queue; what is in \<open>res\<close> has its successors in \<open>res\<close> or the queue.\<close>

lemma dep_loop_sub: "set (dep_loop deps queue res) \<subseteq> set res \<union> (dep_rel deps)\<^sup>* `` set queue"
proof (induction deps queue res rule: dep_loop.induct)
  case (2 deps cur queue res)
  show ?case
  proof (cases "cur \<in> set res")
    case True
    with 2 show ?thesis by auto
  next
    case False
    show ?thesis
    proof (cases "map_of deps cur")
      case None
      with False 2(2)[OF False refl None] show ?thesis by (auto simp: Let_def set_insort_insert)
    next
      case (Some nexts)
      have "(cur, t) \<in> dep_rel deps" if "t \<in> set nexts" for t using Some that by (auto simp: dep_rel_def)
      then have "(dep_rel deps)\<^sup>* `` set nexts \<subseteq> (dep_rel deps)\<^sup>* `` {cur}"
        by (auto intro: converse_rtrancl_into_rtrancl)
      with False Some 2(3)[OF False refl Some] show ?thesis by (auto simp: Let_def set_insort_insert)
    qed
  qed
qed simp

lemma dep_loop_super: "set res \<union> set queue \<subseteq> set (dep_loop deps queue res)"
proof (induction deps queue res rule: dep_loop.induct)
  case (2 deps cur queue res)
  then show ?case by (auto simp: Let_def set_insort_insert split: option.split)
qed simp

lemma dep_loop_closed:
  "\<forall>s\<in>set res. \<forall>t. (s, t) \<in> dep_rel deps \<longrightarrow> t \<in> set res \<union> set queue \<Longrightarrow>
   \<forall>s\<in>set (dep_loop deps queue res). \<forall>t. (s, t) \<in> dep_rel deps \<longrightarrow> t \<in> set (dep_loop deps queue res)"
proof (induction deps queue res rule: dep_loop.induct)
  case (2 deps cur queue res)
  show ?case
  proof (cases "cur \<in> set res")
    case True
    with 2 show ?thesis by auto
  next
    case False
    show ?thesis
    proof (cases "map_of deps cur")
      case None
      have "\<not> (cur, t) \<in> dep_rel deps" for t using None by (simp add: dep_rel_def)
      with 2(2)[OF False refl None] 2(4) None False show ?thesis by (auto simp: Let_def set_insort_insert)
    next
      case (Some nexts)
      have "(cur, t) \<in> dep_rel deps \<longleftrightarrow> t \<in> set nexts" for t using Some by (auto simp: dep_rel_def)
      with 2(3)[OF False refl Some] 2(4) Some False show ?thesis by (auto simp: Let_def set_insort_insert)
    qed
  qed
qed simp

lemma dep_loop_closure: "set (dep_loop deps queue []) = (dep_rel deps)\<^sup>* `` set queue"
proof
  show "set (dep_loop deps queue []) \<subseteq> (dep_rel deps)\<^sup>* `` set queue" using dep_loop_sub[of deps queue "[]"] by simp
  have c: "\<forall>s\<in>set (dep_loop deps queue []). \<forall>t. (s, t) \<in> dep_rel deps \<longrightarrow> t \<in> set (dep_loop deps queue [])"
    by (rule dep_loop_closed) simp
  show "(dep_rel deps)\<^sup>* `` set queue \<subseteq> set (dep_loop deps queue [])"
  proof
    fix t
    assume "t \<in> (dep_rel deps)\<^sup>* `` set queue"
    then obtain s where "s \<in> set queue" "(s, t) \<in> (dep_rel deps)\<^sup>*" by auto
    from this(2,1) show "t \<in> set (dep_loop deps queue [])"
      by (induction rule: rtrancl_induct) (use c dep_loop_super[of "[]" queue deps] in auto)
  qed
qed

section \<open>The invariant of the manager\<close>

definition entries :: "('a \<times> 'b list) list \<Rightarrow> 'a \<Rightarrow> 'b set" where
  "entries m k = (case map_of m k of None \<Rightarrow> {} | Some xs \<Rightarrow> set xs)"

lemma entries_Nil [simp]: "entries [] k = {}"
  by (simp add: entries_def)

lemma entries_map_insert:
  assumes "\<And>xs. set (ins x xs) = insert x (set xs)"
  shows "entries (map_insert ins k x m) k' = (if k' = k then insert x (entries m k) else entries m k')"
  by (auto simp: entries_def map_insert_def update_conv' assms split: option.split)

lemma dep_rel_entries: "dep_rel deps = {(s, t). t \<in> entries deps s}"
  by (auto simp: dep_rel_def entries_def split: option.splits)

lemma set_ptr_insert [simp]: "set (ptr_insert A c cs) = insert c (set cs)"
  by (auto simp: ptr_insert_def set_insort_key)

text \<open>
  The map from symbols to constraints is the index of the constraints by their symbols, and two symbols depend on each
  other exactly when a constraint involves both.
\<close>

definition cm_inv :: "constraint_manager \<Rightarrow> bool" where
  "cm_inv cm \<longleftrightarrow> (\<forall>c\<in>set (m_constraints cm). formula c) \<and>
     (\<forall>s. entries (m_constraint_map cm) s = {c \<in> set (m_constraints cm). s \<in> syms c}) \<and>
     dep_rel (m_dependencies cm) = (\<Union>c\<in>set (m_constraints cm). syms c \<times> syms c)"

lemma cm_inv_init: "cm_inv ConstraintManager_init"
  by (simp add: cm_inv_def ConstraintManager_init_def dep_rel_entries)

lemma deps_fold:
  "entries (fold (\<lambda>t. map_insert insort_insert s t) ts deps) s' =
     (if s' = s then set ts \<union> entries deps s else entries deps s')"
  by (induction ts arbitrary: deps) (auto simp: entries_map_insert set_insort_insert)

lemma cm_add_fold:
  "m_constraints (fold (cm_step A c ids) xs cm) = m_constraints cm \<and>
    entries (m_constraint_map (fold (cm_step A c ids) xs cm)) s =
      (if s \<in> set xs then insert c (entries (m_constraint_map cm) s) else entries (m_constraint_map cm) s) \<and>
    entries (m_dependencies (fold (cm_step A c ids) xs cm)) s =
      (if s \<in> set xs then set ids \<union> entries (m_dependencies cm) s else entries (m_dependencies cm) s)"
  by (induction xs arbitrary: cm) (auto simp: cm_step_def entries_map_insert deps_fold)

lemma cm_add_spec:
  assumes "cm_inv cm" "involved_ok g" "formula c"
  obtains cm' g' where "cm_add A c cm g = (cm', g')" "cm_inv cm'" "involved_ok g'"
    "set (m_constraints cm') = insert c (set (m_constraints cm))"
proof -
  let ?ids = "sorted_list_of_set (syms c)"
  obtain g' where g': "get_involved_inputs c g = (?ids, g')" "involved_ok g'"
    using get_involved_inputs_spec[OF assms(2)] by blast
  let ?cm = "fold (cm_step A c ?ids) ?ids cm"
  let ?cm' = "?cm\<lparr>m_constraints := ptr_insert A c (m_constraints ?cm)\<rparr>"
  note f = cm_add_fold[of A c ?ids ?ids cm]
  have s: "set (m_constraints ?cm') = insert c (set (m_constraints cm))" using f by simp
  have m: "entries (m_constraint_map ?cm') s = {d \<in> insert c (set (m_constraints cm)). s \<in> syms d}" for s
    using f[of s] assms(1) by (auto simp: cm_inv_def)
  have d: "dep_rel (m_dependencies ?cm') = (\<Union>d\<in>insert c (set (m_constraints cm)). syms d \<times> syms d)"
  proof -
    have "t \<in> entries (m_dependencies ?cm') s \<longleftrightarrow> (s, t) \<in> syms c \<times> syms c \<or> (s, t) \<in> dep_rel (m_dependencies cm)" for s t
      using f[of s] by (auto simp: dep_rel_entries)
    then have "dep_rel (m_dependencies ?cm') = syms c \<times> syms c \<union> dep_rel (m_dependencies cm)"
      by (auto simp: dep_rel_entries)
    also have "dep_rel (m_dependencies cm) = (\<Union>d\<in>set (m_constraints cm). syms d \<times> syms d)"
      using assms(1) by (simp add: cm_inv_def)
    finally show ?thesis by simp
  qed
  have "cm_inv ?cm'" using assms(1,3) m d unfolding cm_inv_def s by simp
  moreover have "cm_add A c cm g = (?cm', g')" using g'(1) by (simp add: cm_add_def Let_def)
  ultimately show ?thesis using that g'(2) s by blast
qed

section \<open>The answer to a query\<close>

definition closure :: "constraint_manager \<Rightarrow> expr \<Rightarrow> nat set" where
  "closure cm e = (dep_rel (m_dependencies cm))\<^sup>* `` syms e"

definition query_slice :: "constraint_manager \<Rightarrow> expr \<Rightarrow> expr set" where
  "query_slice cm e = {c \<in> set (m_constraints cm). syms c \<inter> closure cm e \<noteq> {}}"

lemma slice_inside: "cm_inv cm \<Longrightarrow> c \<in> query_slice cm e \<Longrightarrow> syms c \<subseteq> closure cm e"
proof
  fix t
  assume inv: "cm_inv cm" and c: "c \<in> query_slice cm e" and t: "t \<in> syms c"
  from c obtain s s0 where s: "s \<in> syms c" "c \<in> set (m_constraints cm)" "s0 \<in> syms e" "(s0, s) \<in> (dep_rel (m_dependencies cm))\<^sup>*"
    by (auto simp: query_slice_def closure_def)
  have "(s, t) \<in> dep_rel (m_dependencies cm)" using inv s(1,2) t unfolding cm_inv_def by blast
  with s(4) have "(s0, t) \<in> (dep_rel (m_dependencies cm))\<^sup>*" by (rule rtrancl_into_rtrancl)
  with s(3) show "t \<in> closure cm e" by (auto simp: closure_def)
qed

lemma closure_syms: "syms e \<subseteq> closure cm e"
  by (auto simp: closure_def)

lemma get_dependencies_spec:
  assumes "involved_ok g"
  obtains ids g' where "get_dependencies cm e g = (ids, g')" "set ids = closure cm e" "involved_ok g'"
proof -
  obtain g' where "get_involved_inputs e g = (sorted_list_of_set (syms e), g')" "involved_ok g'"
    using get_involved_inputs_spec[OF assms] by blast
  with that show ?thesis by (simp add: get_dependencies_def dep_loop_closure closure_def)
qed

lemma set_fold_ptr_insert [simp]: "set (fold (ptr_insert A) es cs) = set es \<union> set cs"
  by (induction es arbitrary: cs) auto

lemma relevant_fold:
  "set (fold (\<lambda>s cs. case map_of (m_constraint_map cm) s of None \<Rightarrow> cs | Some es \<Rightarrow> fold (ptr_insert A) es cs) ids cs)
   = (\<Union>s\<in>set ids. entries (m_constraint_map cm) s) \<union> set cs"
  by (induction ids arbitrary: cs) (auto simp: entries_def split: option.split)

lemma set_relevant: "cm_inv cm \<Longrightarrow> set ids = closure cm e \<Longrightarrow> set (relevant A cm ids) = query_slice cm e"
  unfolding relevant_def relevant_fold by (auto simp: cm_inv_def query_slice_def)

text \<open>The objects of the process are consistent.\<close>

definition world_ok :: "amb \<Rightarrow> 'z world \<Rightarrow> bool" where
  "world_ok A w \<longleftrightarrow> binv A (w_builder w) \<and> involved_ok (w_involved w)"

text \<open>
  \<open>wbuilds A m P\<close>: from every consistent state \<open>m\<close> returns a value with \<open>P\<close>, in a consistent state with the same
  symbols and the same solver.
\<close>

definition wbuilds :: "amb \<Rightarrow> ('z, 'a) wm \<Rightarrow> ('a \<Rightarrow> bool) \<Rightarrow> bool" where
  "wbuilds A m P \<longleftrightarrow> (\<forall>w0 :: 'z world. tot (\<lambda>w. world_ok A w \<and> same_syms (w_builder w0) (w_builder w) \<and> w_z3 w = w_z3 w0) m
     (\<lambda>x w. (world_ok A w \<and> same_syms (w_builder w0) (w_builder w) \<and> w_z3 w = w_z3 w0) \<and> P x))"

lemma wbuildsI:
  fixes m :: "('z, 'a) wm"
  assumes "\<And>w. world_ok A w \<Longrightarrow> \<exists>x w'. m w = Inr (x, w') \<and> world_ok A w' \<and> same_syms (w_builder w) (w_builder w') \<and>
    w_z3 w' = w_z3 w \<and> P x"
  shows "wbuilds A m P"
  unfolding wbuilds_def
proof (intro allI totI)
  fix w0 w :: "'z world"
  assume w: "world_ok A w \<and> same_syms (w_builder w0) (w_builder w) \<and> w_z3 w = w_z3 w0"
  with assms[of w] show "\<exists>x w'. m w = Inr (x, w') \<and>
      (world_ok A w' \<and> same_syms (w_builder w0) (w_builder w') \<and> w_z3 w' = w_z3 w0) \<and> P x"
    using same_syms_trans[of "w_builder w0" "w_builder w"] by metis
qed

lemma wbuildsE:
  assumes "wbuilds A m P" "world_ok A w"
  obtains x w' where "m w = Inr (x, w')" "world_ok A w'" "same_syms (w_builder w) (w_builder w')" "w_z3 w' = w_z3 w" "P x"
proof -
  have "tot (\<lambda>v. world_ok A v \<and> same_syms (w_builder w) (w_builder v) \<and> w_z3 v = w_z3 w) m
     (\<lambda>x v. (world_ok A v \<and> same_syms (w_builder w) (w_builder v) \<and> w_z3 v = w_z3 w) \<and> P x)"
    using assms(1) unfolding wbuilds_def by blast
  then show ?thesis using assms(2) that by (auto elim!: totE[of _ _ _ w])
qed

lemma wbuilds_bnd: "wbuilds A m P \<Longrightarrow> (\<And>x. P x \<Longrightarrow> wbuilds A (f x) Q) \<Longrightarrow> wbuilds A (bnd m f) Q"
  unfolding wbuilds_def
  by (intro allI, rule tot_bnd, blast, subst conj_commute, rule tot_pre_pure, blast)

lemma wbuilds_builder: "builds A m P \<Longrightarrow> wbuilds A (in_builder m) P"
  by (auto simp: world_ok_def in_builder_def intro!: wbuildsI elim!: buildsE)

lemma cm_pi_wbuilds:
  assumes "cm_inv cm" "\<And>es. set es = query_slice cm e \<Longrightarrow> builds A (mk_bool_and_no_simpl A es) P"
  shows "wbuilds A (cm_pi A cm e) P"
proof (rule wbuildsI)
  fix w :: "'z world"
  assume w: "world_ok A w"
  obtain ids g where d: "get_dependencies cm e (w_involved w) = (ids, g)" "set ids = closure cm e" "involved_ok g"
    using w get_dependencies_spec[of "w_involved w" cm e] unfolding world_ok_def by blast
  note b = wbuilds_builder[OF assms(2)[OF set_relevant[OF assms(1) d(2)]]]
  have "world_ok A (w\<lparr>w_involved := g\<rparr>)" using w d(3) by (simp add: world_ok_def)
  from wbuildsE[OF b this] d(1)
  show "\<exists>x w'. cm_pi A cm e w = Inr (x, w') \<and> world_ok A w' \<and> same_syms (w_builder w) (w_builder w') \<and>
      w_z3 w' = w_z3 w \<and> P x"
    by (simp add: cm_pi_def) blast
qed

lemma slice_formula: "cm_inv cm \<Longrightarrow> c \<in> query_slice cm e \<Longrightarrow> formula c"
  by (auto simp: query_slice_def cm_inv_def)

lemma cm_pi_spec:
  assumes "cm_inv cm"
  shows "wbuilds A (cm_pi A cm e) (asserts A (\<lambda>\<rho>. \<forall>c\<in>query_slice cm e. holds (fpl A) \<rho> c))"
proof (rule cm_pi_wbuilds[OF assms])
  fix es
  assume e: "set es = query_slice cm e"
  then have "\<forall>c\<in>set es. formula c" using slice_formula[OF assms] by simp
  from mk_bool_and_no_simpl_asserts[OF this, of A]
  show "builds A (mk_bool_and_no_simpl A es) (asserts A (\<lambda>\<rho>. \<forall>c\<in>query_slice cm e. holds (fpl A) \<rho> c))"
    unfolding e .
qed

lemma and_all_spec:
  "formula e \<Longrightarrow> \<forall>c\<in>set cs. formula c \<Longrightarrow>
   builds A (and_all A e cs) (asserts A (\<lambda>\<rho>. holds (fpl A) \<rho> e \<and> (\<forall>c\<in>set cs. holds (fpl A) \<rho> c)))"
proof (induction cs arbitrary: e)
  case Nil
  then show ?case by (auto intro!: asserts_ret)
next
  case (Cons c cs)
  then have "formula c" by simp
  show ?case
    unfolding and_all.simps
  proof (rule builds_bnd[OF mk_bool_and_asserts[OF Cons.prems(1) \<open>formula c\<close>]])
    fix x
    assume x: "asserts A (\<lambda>\<rho>. holds (fpl A) \<rho> e \<and> holds (fpl A) \<rho> c) x"
    then have "formula x" by (simp add: asserts_def formula_def)
    from Cons.IH[OF this] Cons.prems x
    show "builds A (and_all A x cs) (asserts A (\<lambda>\<rho>. holds (fpl A) \<rho> e \<and> (\<forall>c\<in>set (c # cs). holds (fpl A) \<rho> c)))"
      by (auto simp: asserts_def elim!: builds_conseq)
  qed
qed

lemma cm_pi_all_spec:
  assumes "cm_inv cm"
  shows "wbuilds A (cm_pi_all A cm) (asserts A (\<lambda>\<rho>. \<forall>c\<in>set (m_constraints cm). holds (fpl A) \<rho> c))"
proof (cases "m_constraints cm")
  case Nil
  then show ?thesis by (auto simp: cm_pi_all_def mk_true_def asserts_def intro!: wbuilds_builder builds_ret)
next
  case (Cons c cs)
  with assms have "formula c" "\<forall>c\<in>set cs. formula c" by (simp_all add: cm_inv_def)
  from wbuilds_builder[OF and_all_spec[OF this]] Cons show ?thesis by (simp add: cm_pi_all_def)
qed

section \<open>Leaving out the other constraints is sound\<close>

definition sat :: "fp_lib \<Rightarrow> expr set \<Rightarrow> bool" where
  "sat F cs \<longleftrightarrow> (\<exists>\<rho>. \<forall>c\<in>cs. holds F \<rho> c)"

lemma slice_sat:
  assumes "cm_inv cm" and others: "sat F (set (m_constraints cm) - query_slice cm e)" and query: "sat F (insert e (query_slice cm e))"
  shows "sat F (insert e (set (m_constraints cm)))"
proof -
  obtain \<rho> where \<rho>: "\<forall>c\<in>set (m_constraints cm) - query_slice cm e. holds F \<rho> c" using others by (auto simp: sat_def)
  obtain \<sigma> where \<sigma>: "\<forall>c\<in>insert e (query_slice cm e). holds F \<sigma> c" using query by (auto simp: sat_def)
  let ?\<tau> = "\<lambda>i. if i \<in> closure cm e then \<sigma> i else \<rho> i"
  have "sem F ?\<tau> c = sem F \<sigma> c" if "c \<in> insert e (query_slice cm e)" for c
    using that slice_inside[OF assms(1), of c e] closure_syms[of e cm] by (intro sem_coincidence) auto
  moreover have "sem F ?\<tau> c = sem F \<rho> c" if "c \<in> set (m_constraints cm) - query_slice cm e" for c
    using that by (intro sem_coincidence) (auto simp: query_slice_def)
  ultimately have "\<forall>c\<in>insert e (set (m_constraints cm)). holds F ?\<tau> c" using \<rho> \<sigma> by (metis DiffI insert_iff)
  then show ?thesis by (auto simp: sat_def)
qed

end
