(* ===== verification/Z3Spec.thy ===== *)
theory Z3Spec
  imports Z3Solver ConstraintSpec EvalSpec
begin

unbundle bit_operations_syntax

text \<open>
  The translation to Z3 keeps the meaning: under the documented meaning of the term constructors, the Z3 term of an
  expression has the value of the expression, for the bit-vector and Boolean fragment.
\<close>

section \<open>The meaning of Z3 terms\<close>

text \<open>
  The documented meaning of Z3, the SMT-LIB theory of bit vectors: \<open>zval\<close> is the value of a term under values for the
  names of its constants, \<open>zw\<close> the width of a bit-vector term.
\<close>

record 'z z3_sem =
  zval :: "(string \<Rightarrow> int) \<Rightarrow> 'z \<Rightarrow> int"
  zw :: "'z \<Rightarrow> nat option"

definition bvt :: "'z z3_sem \<Rightarrow> 'z \<Rightarrow> nat \<Rightarrow> ((string \<Rightarrow> int) \<Rightarrow> int) \<Rightarrow> bool" where
  "bvt S a n v \<longleftrightarrow> zw S a = Some n \<and> (\<forall>\<eta>. zval S \<eta> a = v \<eta>)"

definition bt :: "'z z3_sem \<Rightarrow> 'z \<Rightarrow> ((string \<Rightarrow> int) \<Rightarrow> bool) \<Rightarrow> bool" where
  "bt S a p \<longleftrightarrow> zw S a = None \<and> (\<forall>\<eta>. zval S \<eta> a = of_bool (p \<eta>))"

definition bv_unary :: "'z z3_sem \<Rightarrow> ('z \<Rightarrow> 'z) \<Rightarrow> (nat \<Rightarrow> int \<Rightarrow> int) \<Rightarrow> bool" where
  "bv_unary S f g \<longleftrightarrow> (\<forall>a n v. bvt S a n v \<longrightarrow> bvt S (f a) n (\<lambda>\<eta>. g n (v \<eta>)))"

definition bv_binary :: "'z z3_sem \<Rightarrow> ('z \<Rightarrow> 'z \<Rightarrow> 'z) \<Rightarrow> (nat \<Rightarrow> int \<Rightarrow> int \<Rightarrow> int) \<Rightarrow> bool" where
  "bv_binary S f g \<longleftrightarrow> (\<forall>a b n v w. bvt S a n v \<longrightarrow> bvt S b n w \<longrightarrow> bvt S (f a b) n (\<lambda>\<eta>. g n (v \<eta>) (w \<eta>)))"

definition bv_relation :: "'z z3_sem \<Rightarrow> ('z \<Rightarrow> 'z \<Rightarrow> 'z) \<Rightarrow> (nat \<Rightarrow> int \<Rightarrow> int \<Rightarrow> bool) \<Rightarrow> bool" where
  "bv_relation S f r \<longleftrightarrow> (\<forall>a b n v w. bvt S a n v \<longrightarrow> bvt S b n w \<longrightarrow> bt S (f a b) (\<lambda>\<eta>. r n (v \<eta>) (w \<eta>)))"

text \<open>The laws, one for each constructor that the translation uses outside floating point.\<close>

definition z3_leaves :: "'z z3_api \<Rightarrow> 'z z3_sem \<Rightarrow> bool" where
  "z3_leaves Z S \<longleftrightarrow>
     (\<forall>s n. bvt S (z_bv_const Z s n) n (\<lambda>\<eta>. take_bit n (\<eta> s))) \<and>
     (\<forall>v n. bvt S (z_bv_val Z (digits 10 v) n) n (\<lambda>_. take_bit n (int v))) \<and>
     (\<forall>p. bt S (z_bool_val Z p) (\<lambda>_. p))"

definition z3_structure :: "'z z3_api \<Rightarrow> 'z z3_sem \<Rightarrow> bool" where
  "z3_structure Z S \<longleftrightarrow>
     (\<forall>a n v h l. bvt S a n v \<longrightarrow> l \<le> h \<longrightarrow> h < n \<longrightarrow>
        bvt S (z_extract Z a h l) (h - l + 1) (\<lambda>\<eta>. take_bit (h - l + 1) (drop_bit l (v \<eta>)))) \<and>
     (\<forall>a b n m v w. bvt S a n v \<longrightarrow> bvt S b m w \<longrightarrow> bvt S (z_concat Z a b) (n + m) (\<lambda>\<eta>. push_bit m (v \<eta>) OR w \<eta>)) \<and>
     (\<forall>a n v k. bvt S a n v \<longrightarrow> bvt S (z_zext Z a k) (n + k) v) \<and>
     (\<forall>a n v k. bvt S a n v \<longrightarrow> bvt S (z_sext Z a k) (n + k) (\<lambda>\<eta>. take_bit (n + k) (sval n (v \<eta>)))) \<and>
     (\<forall>c a b p n v w. bt S c p \<longrightarrow> bvt S a n v \<longrightarrow> bvt S b n w \<longrightarrow>
        bvt S (z_ite Z c a b) n (\<lambda>\<eta>. if p \<eta> then v \<eta> else w \<eta>))"

definition z3_arith :: "'z z3_api \<Rightarrow> 'z z3_sem \<Rightarrow> bool" where
  "z3_arith Z S \<longleftrightarrow>
     bv_binary S (z_shl Z) shl_val \<and> bv_binary S (z_lshr Z) lshr_val \<and>
     bv_unary S (z_neg Z) (\<lambda>n v. take_bit n (- v)) \<and> bv_unary S (z_not Z) (\<lambda>n v. take_bit n (NOT v)) \<and>
     bv_binary S (z_add Z) (\<lambda>n v w. take_bit n (v + w)) \<and> bv_binary S (z_mul Z) (\<lambda>n v w. take_bit n (v * w)) \<and>
     bv_binary S (z_and Z) (\<lambda>n v w. take_bit n (v AND w)) \<and> bv_binary S (z_or Z) (\<lambda>n v w. take_bit n (v OR w)) \<and>
     bv_binary S (z_xor Z) (\<lambda>n v w. take_bit n (v XOR w))"

definition z3_logic :: "'z z3_api \<Rightarrow> 'z z3_sem \<Rightarrow> bool" where
  "z3_logic Z S \<longleftrightarrow>
     (\<forall>a p. bt S a p \<longrightarrow> bt S (z_lnot Z a) (\<lambda>\<eta>. \<not> p \<eta>)) \<and>
     (\<forall>a b p q. bt S a p \<longrightarrow> bt S b q \<longrightarrow> bt S (z_land Z a b) (\<lambda>\<eta>. p \<eta> \<and> q \<eta>)) \<and>
     (\<forall>a b p q. bt S a p \<longrightarrow> bt S b q \<longrightarrow> bt S (z_lor Z a b) (\<lambda>\<eta>. p \<eta> \<or> q \<eta>)) \<and>
     bv_relation S (z_ult Z) (\<lambda>n v w. v < w) \<and> bv_relation S (z_ule Z) (\<lambda>n v w. v \<le> w) \<and>
     bv_relation S (z_ugt Z) (\<lambda>n v w. v > w) \<and> bv_relation S (z_uge Z) (\<lambda>n v w. v \<ge> w) \<and>
     bv_relation S (z_slt Z) (\<lambda>n v w. sval n v < sval n w) \<and> bv_relation S (z_sle Z) (\<lambda>n v w. sval n v \<le> sval n w) \<and>
     bv_relation S (z_sgt Z) (\<lambda>n v w. sval n v > sval n w) \<and> bv_relation S (z_sge Z) (\<lambda>n v w. sval n v \<ge> sval n w) \<and>
     bv_relation S (z_eq Z) (\<lambda>n v w. v = w) \<and> bv_relation S (z_distinct Z) (\<lambda>n v w. v \<noteq> w) \<and>
     (\<forall>a \<eta>. zval S \<eta> (z_simplify Z a) = zval S \<eta> a \<and> zw S (z_simplify Z a) = zw S a)"

definition z3_sound :: "'z z3_api \<Rightarrow> 'z z3_sem \<Rightarrow> bool" where
  "z3_sound Z S \<longleftrightarrow> z3_leaves Z S \<and> z3_structure Z S \<and> z3_arith Z S \<and> z3_logic Z S"

lemma z3_structureD:
  assumes "z3_sound Z S"
  shows "bvt S a n v \<Longrightarrow> l \<le> h \<Longrightarrow> h < n \<Longrightarrow>
      bvt S (z_extract Z a h l) (h - l + 1) (\<lambda>\<eta>. take_bit (h - l + 1) (drop_bit l (v \<eta>)))"
    and "bvt S a n v \<Longrightarrow> bvt S a' m w \<Longrightarrow> bvt S (z_concat Z a a') (n + m) (\<lambda>\<eta>. push_bit m (v \<eta>) OR w \<eta>)"
    and "bvt S a n v \<Longrightarrow> bvt S (z_zext Z a k) (n + k) v"
    and "bvt S a n v \<Longrightarrow> bvt S (z_sext Z a k) (n + k) (\<lambda>\<eta>. take_bit (n + k) (sval n (v \<eta>)))"
    and "bt S c p \<Longrightarrow> bvt S a n v \<Longrightarrow> bvt S a' n w \<Longrightarrow> bvt S (z_ite Z c a a') n (\<lambda>\<eta>. if p \<eta> then v \<eta> else w \<eta>)"
  using assms unfolding z3_sound_def z3_structure_def by simp_all

section \<open>The fragment and the result\<close>

definition env_names :: "builder \<Rightarrow> (string \<Rightarrow> int) \<Rightarrow> nat \<Rightarrow> int" where
  "env_names b \<eta> i = (case m_sym_id_to_name b i of Some s \<Rightarrow> \<eta> s | None \<Rightarrow> 0)"

text \<open>The symbols have names, the constants can be printed, a connective has operands; floating point is left out.\<close>

definition tr_node_ok :: "builder \<Rightarrow> expr \<Rightarrow> bool" where
  "tr_node_ok b e = (case e of
     SymExpr i n \<Rightarrow> m_sym_id_to_name b i \<noteq> None
   | ConstExpr c \<Rightarrow> m_size c \<le> 4000
   | BoolAndExpr es \<Rightarrow> es \<noteq> []
   | BoolOrExpr es \<Rightarrow> es \<noteq> []
   | _ \<Rightarrow> \<not> is_fp e \<and> kind e \<notin> {K_FP_TO_BV, K_FP_IS_NAN, K_FP_EQ, K_FP_LT})"

fun translatable :: "builder \<Rightarrow> expr \<Rightarrow> bool" where
  "translatable b e \<longleftrightarrow> tr_node_ok b e \<and> (\<forall>x\<in>set (children e). translatable b x)"

declare translatable.simps [simp del]

definition means :: "fp_lib \<Rightarrow> 'z z3_sem \<Rightarrow> builder \<Rightarrow> expr \<Rightarrow> 'z \<Rightarrow> bool" where
  "means F S b e z \<longleftrightarrow> (if is_bool e then bt S z (\<lambda>\<eta>. holds F (env_names b \<eta>) e)
     else bvt S z (expr_size e) (\<lambda>\<eta>. sem F (env_names b \<eta>) e))"

lemma means_bool: "is_bool e \<Longrightarrow> means F S b e = (\<lambda>z. bt S z (\<lambda>\<eta>. holds F (env_names b \<eta>) e))"
  by (simp add: means_def fun_eq_iff)

lemma means_bv: "is_bv e \<Longrightarrow> means F S b e = (\<lambda>z. bvt S z (expr_size e) (\<lambda>\<eta>. sem F (env_names b \<eta>) e))"
  by (simp add: means_def is_bv_not_bool fun_eq_iff)

section \<open>Triples of the translation\<close>

definition tcache_ok :: "fp_lib \<Rightarrow> 'z z3_sem \<Rightarrow> builder \<Rightarrow> 'z zcache \<Rightarrow> bool" where
  "tcache_ok F S b c \<longleftrightarrow> (\<forall>e z. c e = Some z \<longrightarrow> means F S b e z)"

definition trans :: "fp_lib \<Rightarrow> 'z z3_sem \<Rightarrow> builder \<Rightarrow> 'z tm \<Rightarrow> ('z \<Rightarrow> bool) \<Rightarrow> bool" where
  "trans F S b m P \<longleftrightarrow> tot (tcache_ok F S b) m (\<lambda>z c. tcache_ok F S b c \<and> P z)"

lemma trans_ret: "P z \<Longrightarrow> trans F S b (ret z) P"
  by (auto simp: trans_def intro!: tot_ret)

lemma trans_bnd: "trans F S b m P \<Longrightarrow> (\<And>z. P z \<Longrightarrow> trans F S b (f z) Q) \<Longrightarrow> trans F S b (bnd m f) Q"
  unfolding trans_def
  by (erule tot_bnd, subst conj_commute, rule tot_pre_pure) (simp add: conj_commute)

lemma trans_tr1: "trans F S b (tr x) P \<Longrightarrow> (\<And>a. P a \<Longrightarrow> Q (f a)) \<Longrightarrow> trans F S b (tr1 tr f x) Q"
  unfolding tr1_def by (blast intro: trans_bnd trans_ret)

lemma trans_tr2:
  "trans F S b (tr x) P \<Longrightarrow> trans F S b (tr y) P' \<Longrightarrow> (\<And>a a'. P a \<Longrightarrow> P' a' \<Longrightarrow> Q (f a a')) \<Longrightarrow>
   trans F S b (tr2 tr f x y) Q"
  unfolding tr2_def by (blast intro: trans_bnd trans_ret)

lemma trans_tr_fold:
  assumes "\<forall>x\<in>set ys. trans F S b (tr x) (P x)" "Inv xs acc"
    and "\<And>us x acc a. x \<in> set ys \<Longrightarrow> us \<noteq> [] \<Longrightarrow> Inv us acc \<Longrightarrow> P x a \<Longrightarrow> Inv (us @ [x]) (f acc a)"
    and "xs \<noteq> []"
  shows "trans F S b (tr_fold tr f acc ys) (Inv (xs @ ys))"
  using assms
proof (induction ys arbitrary: xs acc)
  case (Cons y ys)
  show ?case
    unfolding tr_fold.simps
  proof (rule trans_bnd[of F S b _ "P y"])
    fix a
    assume "P y a"
    with Cons.prems have "Inv (xs @ [y]) (f acc a)" by simp
    with Cons.IH[of "xs @ [y]" "f acc a"] Cons.prems(1,3)
    show "trans F S b (tr_fold tr f (f acc a) ys) (Inv (xs @ y # ys))" by simp
  qed (use Cons.prems in simp)
qed (simp add: trans_ret)

lemma trans_tr_list:
  assumes "\<forall>x\<in>set es. trans F S b (tr x) (P x)" "es \<noteq> []" "\<And>x a. x \<in> set es \<Longrightarrow> P x a \<Longrightarrow> Inv [x] a"
    and "\<And>us x acc a. x \<in> set es \<Longrightarrow> us \<noteq> [] \<Longrightarrow> Inv us acc \<Longrightarrow> P x a \<Longrightarrow> Inv (us @ [x]) (f acc a)"
  shows "trans F S b (tr_list tr f es) (Inv es)"
proof (cases es)
  case (Cons x xs)
  have "trans F S b (tr_fold tr f v xs) (Inv (x # xs))" if "P x v" for v
    using trans_tr_fold[of xs F S b tr P Inv "[x]" v f] assms that Cons by simp
  with assms(1) Cons show ?thesis by (auto simp: tr_list_def intro: trans_bnd)
qed (use assms in simp)

section \<open>The cases of the switch\<close>

abbreviation kids_tr :: "fp_lib \<Rightarrow> 'z z3_sem \<Rightarrow> builder \<Rightarrow> (expr \<Rightarrow> 'z tm) \<Rightarrow> expr \<Rightarrow> bool" where
  "kids_tr F S b tr e \<equiv> \<forall>x\<in>set (children e). trans F S b (tr x) (means F S b x)"

lemma bvtD: "bvt S a n v \<Longrightarrow> n = m \<Longrightarrow> (\<And>\<eta>. v \<eta> = w \<eta>) \<Longrightarrow> bvt S a m w"
  by (simp add: bvt_def)

context nary_op
begin

lemma trans_list:
  assumes kids: "\<forall>x\<in>set es. trans F S b (tr x) (means F S b x)" and node: "wf_expr (node es)"
    and law: "bv_binary S f' (\<lambda>n v w. take_bit n (g v w))"
  shows "trans F S b (tr_list tr f' es) (means F S b (node es))"
proof -
  let ?n = "expr_size (hd es)"
  let ?Inv = "\<lambda>us a. bvt S a ?n (\<lambda>\<eta>. take_bit ?n (fold_val g u F (env_names b \<eta>) us))"
  have w: "same_width es" using node_wfD[OF node] by simp
  have e: "means F S b x a \<longleftrightarrow> bvt S a ?n (\<lambda>\<eta>. sem F (env_names b \<eta>) x)" if "x \<in> set es" for x a
  proof -
    have "is_bv x" "expr_size x = ?n" using w that unfolding same_width_iff by blast+
    then show ?thesis by (simp add: means_bv)
  qed
  have t: "take_bit ?n (sem F \<rho> x) = sem F \<rho> x" if "x \<in> set es" for x \<rho>
  proof -
    have "is_bv x" "expr_size x = ?n" "wf_expr x" using w that node_wfD[OF node] unfolding same_width_iff by blast+
    then show ?thesis using sem_bv_take_bit by metis
  qed
  have "trans F S b (tr_list tr f' es) (?Inv es)"
  proof (rule trans_tr_list[where Inv = ?Inv, OF kids])
    show "es \<noteq> []" using w by (rule same_width_hd(3))
    show "?Inv [x] a" if "x \<in> set es" "means F S b x a" for x a
      using e[OF that(1)] that(2) t[OF that(1)] unfolding fold_val_simps unit_right by simp
    fix us x acc a
    assume x: "x \<in> set es" "us \<noteq> []" "?Inv us acc" "means F S b x a"
    then have "bvt S a ?n (\<lambda>\<eta>. sem F (env_names b \<eta>) x)" using e by blast
    with law x(3) have "bvt S (f' acc a) ?n
        (\<lambda>\<eta>. take_bit ?n (g (take_bit ?n (fold_val g u F (env_names b \<eta>) us)) (sem F (env_names b \<eta>) x)))"
      unfolding bv_binary_def by blast
    then show "?Inv (us @ [x]) (f' acc a)" unfolding fold_val_value[OF x(2)] .
  qed
  then show ?thesis
    using w node_bv node_size[of es] node_sem[of es F] same_width_hd(3)[OF w]
    by (simp add: means_bv fold_val_def)
qed

end

lemma to_z3_nary:
  assumes "kids_tr F S b tr e" "wf_expr e" "kind e \<in> {K_ADD, K_MUL, K_AND, K_OR, K_XOR}" "z3_sound Z S"
  shows "trans F S b (to_z3_node Z E b tr e) (means F S b e)"
proof -
  consider es where "e = AddExpr es" | es where "e = MulExpr es" | es where "e = AndExpr es"
    | es where "e = OrExpr es" | es where "e = XorExpr es"
    using assms(3) by (cases e) auto
  then show ?thesis
    using assms(1,2,4) add_op.trans_list[of _ F S b tr "z_add Z"] mul_op.trans_list[of _ F S b tr "z_mul Z"]
      and_op.trans_list[of _ F S b tr "z_and Z"] or_op.trans_list[of _ F S b tr "z_or Z"]
      xor_op.trans_list[of _ F S b tr "z_xor Z"]
    by cases (simp_all add: to_z3_defs z3_sound_def z3_arith_def)
qed

lemma to_z3_concat:
  assumes kids: "\<forall>x\<in>set es. trans F S b (tr x) (means F S b x)" and "wf_expr (ConcatExpr es)"
    and law: "z3_sound Z S"
  shows "trans F S b (tr_list tr (z_concat Z) es) (means F S b (ConcatExpr es))"
proof -
  let ?vs = "\<lambda>\<eta> us. map (\<lambda>e. (expr_size e, sem F (env_names b \<eta>) e)) us"
  let ?Inv = "\<lambda>us a. bvt S a (sum_list (map expr_size us)) (\<lambda>\<eta>. concat_val (?vs \<eta> us))"
  have e: "means F S b x = (\<lambda>a. bvt S a (expr_size x) (\<lambda>\<eta>. sem F (env_names b \<eta>) x))" if "x \<in> set es" for x
    using assms(2) that by (auto simp: list_all_iff means_bv)
  have "trans F S b (tr_list tr (z_concat Z) es) (?Inv es)"
  proof (rule trans_tr_list[where Inv = ?Inv, OF kids])
    show "es \<noteq> []" using assms(2) by simp
    show "?Inv [x] a" if "x \<in> set es" "means F S b x a" for x a
      using that e by simp
    fix us x acc a
    assume "x \<in> set es" "?Inv us acc" "means F S b x a"
    with e have "bvt S acc (sum_list (map expr_size us)) (\<lambda>\<eta>. concat_val (?vs \<eta> us))"
      "bvt S a (expr_size x) (\<lambda>\<eta>. sem F (env_names b \<eta>) x)" by simp_all
    from z3_structureD(2)[OF law this]
    have "bvt S (z_concat Z acc a) (sum_list (map expr_size us) + expr_size x)
        (\<lambda>\<eta>. push_bit (expr_size x) (concat_val (?vs \<eta> us)) OR sem F (env_names b \<eta>) x)" .
    then show "?Inv (us @ [x]) (z_concat Z acc a)" by (simp add: concat_val_append)
  qed
  then show ?thesis by (simp add: means_bv)
qed

lemma to_z3_structural:
  assumes "kids_tr F S b tr e" "wf_expr e" "z3_sound Z S"
    and "kind e \<in> {K_EXTRACT, K_ZEXT, K_SEXT, K_ITE, K_SHL, K_LSHR, K_NEG, K_NOT}"
  shows "trans F S b (to_z3_node Z E b tr e) (means F S b e)"
proof -
  note st = z3_structureD[OF assms(3)]
  have a: "z3_arith Z S" using assms(3) by (simp add: z3_sound_def)
  show ?thesis
    using assms(1,2,4)
  proof (cases e)
    case (ExtractExpr x high low)
    have "trans F S b (tr1 tr (\<lambda>a. z_extract Z a high low) x) (means F S b e)"
      by (rule trans_tr1[where P = "means F S b x"], use assms(1) ExtractExpr in simp)
        (use assms(2) ExtractExpr st(1)[of _ "expr_size x"] in \<open>simp add: means_bv\<close>)
    then show ?thesis by (simp add: ExtractExpr to_z3_defs)
  next
    case (ZextExpr x n)
    have "trans F S b (tr1 tr (\<lambda>a. z_zext Z a (n - expr_size x)) x) (means F S b e)"
      by (rule trans_tr1[where P = "means F S b x"], use assms(1) ZextExpr in simp)
        (use assms(2) ZextExpr st(3)[of _ "expr_size x" _ "n - expr_size x"] in \<open>simp add: means_bv\<close>)
    then show ?thesis by (simp add: ZextExpr to_z3_defs)
  next
    case (SextExpr x n)
    have "trans F S b (tr1 tr (\<lambda>a. z_sext Z a (n - expr_size x)) x) (means F S b e)"
      by (rule trans_tr1[where P = "means F S b x"], use assms(1) SextExpr in simp)
        (use assms(2) SextExpr st(4)[of _ "expr_size x" _ "n - expr_size x"] in \<open>simp add: means_bv\<close>)
    then show ?thesis by (simp add: SextExpr to_z3_defs)
  next
    case (NegExpr x)
    with assms(1,2) a show ?thesis by (auto simp: to_z3_defs means_bv z3_arith_def bv_unary_def intro!: trans_tr1)
  next
    case (NotExpr x)
    with assms(1,2) a show ?thesis by (auto simp: to_z3_defs means_bv z3_arith_def bv_unary_def intro!: trans_tr1)
  next
    case (ShlExpr x v)
    with assms(1,2) a show ?thesis by (auto simp: to_z3_defs means_bv z3_arith_def bv_binary_def intro!: trans_tr2)
  next
    case (LShrExpr x v)
    with assms(1,2) a show ?thesis by (auto simp: to_z3_defs means_bv z3_arith_def bv_binary_def intro!: trans_tr2)
  next
    case (ITEExpr g t f)
    have k: "trans F S b (tr g) (means F S b g)" "trans F S b (tr t) (means F S b t)" "trans F S b (tr f) (means F S b f)"
      using assms(1) ITEExpr by simp_all
    have "means F S b e (z_ite Z c x y)" if "means F S b g c" "means F S b t x" "means F S b f y" for c x y
      using that st(5)[of c _ x "expr_size t" _ y] assms(2) ITEExpr by (simp add: means_bv means_bool)
    then have "trans F S b (bnd (tr g) (\<lambda>a. tr2 tr (z_ite Z a) t f)) (means F S b e)"
      by (intro trans_bnd[OF k(1)] trans_tr2[OF k(2,3)])
    then show ?thesis by (simp add: ITEExpr to_z3_defs)
  qed auto
qed

lemma to_z3_connective:
  assumes kids: "\<forall>x\<in>set es. trans F S b (tr x) (means F S b x)" and es: "es \<noteq> []" "\<forall>x\<in>set es. is_bool x"
    and law: "\<And>a a' p q. bt S a p \<Longrightarrow> bt S a' q \<Longrightarrow> bt S (f' a a') (\<lambda>\<eta>. f (p \<eta>) (q \<eta>))"
    and h: "\<And>x. h [x] = x" "\<And>us x. us \<noteq> [] \<Longrightarrow> h (us @ [x]) = f (h us) x"
  shows "trans F S b (tr_list tr f' es) (\<lambda>a. bt S a (\<lambda>\<eta>. h (map (holds F (env_names b \<eta>)) es)))"
proof (rule trans_tr_list[where Inv = "\<lambda>us a. bt S a (\<lambda>\<eta>. h (map (holds F (env_names b \<eta>)) us))", OF kids es(1)])
  show "bt S a (\<lambda>\<eta>. h (map (holds F (env_names b \<eta>)) [x]))" if "x \<in> set es" "means F S b x a" for x a
    using that es(2) by (simp add: means_bool h)
  fix us x acc a
  assume "x \<in> set es" "us \<noteq> []" "bt S acc (\<lambda>\<eta>. h (map (holds F (env_names b \<eta>)) us))" "means F S b x a"
  then show "bt S (f' acc a) (\<lambda>\<eta>. h (map (holds F (env_names b \<eta>)) (us @ [x])))"
    using es(2) law[of acc _ a "\<lambda>\<eta>. holds F (env_names b \<eta>) x"] by (simp add: means_bool h(2))
qed

lemma to_z3_formula:
  assumes "kids_tr F S b tr e" "wf_expr e" "tr_node_ok b e" "is_bool e" "z3_sound Z S"
  shows "trans F S b (to_z3_node Z E b tr e) (means F S b e)"
proof -
  have l: "z3_logic Z S" using assms(5) by (simp add: z3_sound_def)
  have v: "bt S (z_bool_val Z p) (\<lambda>_. p)" for p using assms(5) by (simp add: z3_sound_def z3_leaves_def)
  have n: "bt S (z_lnot Z a) (\<lambda>\<eta>. p \<eta> = 0)" if "bt S a (\<lambda>\<eta>. p \<eta> \<noteq> 0)" for a and p :: "(string \<Rightarrow> int) \<Rightarrow> int"
  proof -
    have "bt S (z_lnot Z a) (\<lambda>\<eta>. \<not> p \<eta> \<noteq> 0)" using l that unfolding z3_logic_def by blast
    then show ?thesis by simp
  qed
  show ?thesis
    using assms(1-4)
proof (cases e)
  case (BoolAndExpr es)
  have "trans F S b (tr_list tr (z_land Z) es) (\<lambda>a. bt S a (\<lambda>\<eta>. list_all (\<lambda>b. b) (map (holds F (env_names b \<eta>)) es)))"
    using assms BoolAndExpr l
    by (intro to_z3_connective[where f = "(\<and>)"]) (auto simp: tr_node_ok_def list_all_iff z3_logic_def)
  then show ?thesis using BoolAndExpr by (simp add: to_z3_defs means_bool list_all_iff)
next
  case (BoolOrExpr es)
  have "trans F S b (tr_list tr (z_lor Z) es) (\<lambda>a. bt S a (\<lambda>\<eta>. list_ex (\<lambda>b. b) (map (holds F (env_names b \<eta>)) es)))"
    using assms BoolOrExpr l
    by (intro to_z3_connective[where f = "(\<or>)"]) (auto simp: tr_node_ok_def list_all_iff list_ex_iff z3_logic_def)
  then show ?thesis using BoolOrExpr by (simp add: to_z3_defs means_bool list_ex_iff)
next
  case (BoolNotExpr x)
  with assms n show ?thesis by (auto simp: to_z3_defs means_bool intro!: trans_tr1)
next
  case (BoolConst p)
  with v show ?thesis by (simp add: to_z3_defs means_bool trans_ret)
next
  case (EqExpr x y)
  with assms l show ?thesis
    by (auto simp: to_z3_defs means_bv means_bool z3_logic_def bv_relation_def intro!: trans_tr2)
next
  case (UltExpr x y)
  with assms l show ?thesis
    by (auto simp: to_z3_defs means_bv means_bool z3_logic_def bv_relation_def intro!: trans_tr2)
next
  case (UleExpr x y)
  with assms l show ?thesis
    by (auto simp: to_z3_defs means_bv means_bool z3_logic_def bv_relation_def intro!: trans_tr2)
next
  case (UgtExpr x y)
  with assms l show ?thesis
    by (auto simp: to_z3_defs means_bv means_bool z3_logic_def bv_relation_def intro!: trans_tr2)
next
  case (UgeExpr x y)
  with assms l show ?thesis
    by (auto simp: to_z3_defs means_bv means_bool z3_logic_def bv_relation_def intro!: trans_tr2)
next
  case (SltExpr x y)
  with assms l show ?thesis
    by (auto simp: to_z3_defs means_bv means_bool z3_logic_def bv_relation_def intro!: trans_tr2)
next
  case (SleExpr x y)
  with assms l show ?thesis
    by (auto simp: to_z3_defs means_bv means_bool z3_logic_def bv_relation_def intro!: trans_tr2)
next
  case (SgtExpr x y)
  with assms l show ?thesis
    by (auto simp: to_z3_defs means_bv means_bool z3_logic_def bv_relation_def intro!: trans_tr2)
next
  case (SgeExpr x y)
  with assms l show ?thesis
    by (auto simp: to_z3_defs means_bv means_bool z3_logic_def bv_relation_def intro!: trans_tr2)
qed (auto simp: is_bool_def tr_node_ok_def)
qed

lemma to_z3_leaf:
  assumes "wf_expr e" "tr_node_ok b e" "kind e \<in> {K_SYM, K_CONST}" "z3_sound Z S"
  shows "trans F S b (to_z3_node Z E b tr e) (means F S b e)"
proof -
  have l: "z3_leaves Z S" using assms(4) by (simp add: z3_sound_def)
  show ?thesis
    using assms(1-3)
  proof (cases e)
    case (SymExpr i n)
    with assms(2) obtain s where s: "m_sym_id_to_name b i = Some s" by (auto simp: tr_node_ok_def)
    have "bvt S (z_bv_const Z s n) n (\<lambda>\<eta>. take_bit n (\<eta> s))" using l by (simp add: z3_leaves_def)
    with SymExpr s show ?thesis
      by (simp add: to_z3_defs means_bv get_sym_name_def env_names_def trans_ret)
  next
    case (ConstExpr c)
    let ?v = "bv_val c"
    have c: "bv_rep (m_size c) ?v c" using assms(1) ConstExpr by (simp add: bv_rep_self)
    have v: "0 \<le> ?v" using bv_rep_range[OF c] by simp
    have p: "bv_to_string False c = Inr (digits 10 (nat ?v))"
      using print_digits[OF c] assms(2) ConstExpr by (simp add: tr_node_ok_def)
    have "bvt S (z_bv_val Z (digits 10 (nat ?v)) (m_size c)) (m_size c) (\<lambda>_. take_bit (m_size c) (int (nat ?v)))"
      using l unfolding z3_leaves_def by blast
    with ConstExpr p v bv_rep_take_bit[OF c] show ?thesis
      by (simp add: to_z3_defs means_bv trans_ret)
  qed auto
qed

lemma to_z3_node_means:
  assumes "kids_tr F S b tr e" "wf_expr e" "tr_node_ok b e" "z3_sound Z S"
  shows "trans F S b (to_z3_node Z E b tr e) (means F S b e)"
proof -
  consider "kind e \<in> {K_SYM, K_CONST}" | "kind e \<in> {K_ADD, K_MUL, K_AND, K_OR, K_XOR}"
    | "kind e \<in> {K_EXTRACT, K_ZEXT, K_SEXT, K_ITE, K_SHL, K_LSHR, K_NEG, K_NOT}" | es where "e = ConcatExpr es" | "is_bool e"
    using assms(2,3) by (cases e) (auto simp: tr_node_ok_def is_fp_def)
  then show ?thesis
  proof cases
    case 4
    with assms to_z3_concat[of es F S b tr] show ?thesis by (simp add: to_z3_defs)
  qed (use assms in \<open>blast intro: to_z3_leaf to_z3_nary to_z3_structural to_z3_formula\<close>)+
qed

lemma tr_cached_trans:
  assumes "trans F S b m (means F S b e)"
  shows "trans F S b (tr_cached e m) (means F S b e)"
  unfolding trans_def
proof (rule totI)
  fix c :: "'a zcache"
  assume c: "tcache_ok F S b c"
  show "\<exists>z c'. tr_cached e m c = Inr (z, c') \<and> tcache_ok F S b c' \<and> means F S b e z"
  proof (cases "c e")
    case None
    from assms c obtain z c' where "m c = Inr (z, c')" "tcache_ok F S b c'" "means F S b e z"
      unfolding trans_def by (auto elim: totE)
    with None show ?thesis by (auto simp: tr_cached_def bnd_def tcache_ok_def)
  next
    case (Some z)
    with c show ?thesis by (auto simp: tr_cached_def tcache_ok_def)
  qed
qed

lemma to_z3_inner_means:
  assumes "z3_sound Z S"
  shows "wf_expr e \<Longrightarrow> translatable b e \<Longrightarrow> trans F S b (to_z3_inner Z E b e) (means F S b e)"
proof (induction e rule: measure_induct_rule[where f = size])
  case (less e)
  have n: "tr_node_ok b e" and k: "\<forall>x\<in>set (children e). translatable b x"
    using less.prems(2) by (simp_all add: translatable.simps[of _ e])
  have "kids_tr F S b (to_z3_inner Z E b) e"
    using less.IH children_size wf_children[OF less.prems(1)] k by blast
  then show ?case
    using n less.prems(1) assms by (subst to_z3_inner.simps) (intro tr_cached_trans to_z3_node_means)
qed

lemma to_z3_means:
  assumes "z3_sound Z S" "wf_expr e" "translatable (w_builder w) e"
  shows "\<exists>z. to_z3 Z E e w = Inr (z, w) \<and> means F S (w_builder w) e z"
proof -
  have "tcache_ok F S (w_builder w) Map.empty" by (simp add: tcache_ok_def)
  with to_z3_inner_means[OF assms, of F E] show ?thesis
    unfolding trans_def by (auto simp: to_z3_def elim!: totE[of _ _ _ Map.empty])
qed

end
