(* ===== verification/PartialEval.thy ===== *)
theory PartialEval
  imports EvalSpec
begin

unbundle bit_operations_syntax

text \<open>
  Evaluation under an assignment of some of the symbols: what is left of the expression means, for all values of the other
  symbols, what the expression means under the assignment. The builder is called with nodes that are not constants then, so
  its side conditions count. \<open>sound_calls\<close> runs the evaluation and tests them at every call.
\<close>

section \<open>A run that tests the side conditions\<close>

definition guarded :: "bool \<Rightarrow> expr bm \<Rightarrow> expr bm" where
  "guarded ok m = (if ok then m else throw (Assertion ''a side condition of the builder''))"

definition checked_logical :: "amb \<Rightarrow> (expr \<Rightarrow> expr em) \<Rightarrow> expr \<Rightarrow> expr em" where
  "checked_logical A ev e = (case e of
     BoolConst b \<Rightarrow> ret e
   | BoolNotExpr x \<Rightarrow> ev1 ev (mk_bool_not A) x
   | UltExpr x y \<Rightarrow> ev2 ev (mk_ult A) x y
   | UleExpr x y \<Rightarrow> ev2 ev (mk_ule A) x y
   | UgtExpr x y \<Rightarrow> ev2 ev (mk_ugt A) x y
   | UgeExpr x y \<Rightarrow> ev2 ev (mk_uge A) x y
   | SltExpr x y \<Rightarrow> ev2 ev (\<lambda>v w. guarded (expr_size v \<le> 64 \<or> dest_const v = None \<or> dest_const w = None) (mk_slt A v w)) x y
   | SleExpr x y \<Rightarrow> ev2 ev (\<lambda>v w. guarded (expr_size v \<le> 64 \<or> dest_const v = None \<or> dest_const w = None) (mk_sle A v w)) x y
   | SgtExpr x y \<Rightarrow> ev2 ev (\<lambda>v w. guarded (expr_size v \<le> 64 \<or> dest_const v = None \<or> dest_const w = None) (mk_sgt A v w)) x y
   | SgeExpr x y \<Rightarrow> ev2 ev (\<lambda>v w. guarded (expr_size v \<le> 64 \<or> dest_const v = None \<or> dest_const w = None) (mk_sge A v w)) x y
   | EqExpr x y \<Rightarrow> ev2 ev (\<lambda>v w. guarded (eq_ok v) (mk_eq A v w)) x y
   | BoolAndExpr es \<Rightarrow> ev_list ev (mk_bool_and A) es
   | BoolOrExpr es \<Rightarrow> ev_list ev (mk_bool_or A) es
   | _ \<Rightarrow> throw (Assertion ''not of the fragment''))"

definition checked_node :: "amb \<Rightarrow> (nat \<Rightarrow> bvconst option) \<Rightarrow> (expr \<Rightarrow> expr em) \<Rightarrow> expr \<Rightarrow> expr em" where
  "checked_node A asg ev e = (case e of
     SymExpr i n \<Rightarrow> (case asg i of Some c \<Rightarrow> on_builder (guarded (bv_ok c \<and> m_size c = n) (mk_const A c)) | None \<Rightarrow> ret e)
   | ConstExpr c \<Rightarrow> ret e
   | ExtractExpr x high low \<Rightarrow> ev1 ev (\<lambda>v. guarded (extract_ok v high low) (mk_extract A v high low)) x
   | ConcatExpr es \<Rightarrow> ev_list ev (\<lambda>v w. guarded (concat_ok v \<and> concat_ok w) (mk_concat A v w)) es
   | ZextExpr x n \<Rightarrow> ev1 ev (\<lambda>v. mk_zext A v n) x
   | SextExpr x n \<Rightarrow> ev1 ev (\<lambda>v. mk_sext A v n) x
   | ITEExpr g t f \<Rightarrow> bnd (ev g) (\<lambda>g'. ev2 ev (mk_ite A g') t f)
   | ShlExpr x v \<Rightarrow> ev2 ev (\<lambda>v w. guarded (shift_ok (expr_size v) v w) (mk_shl A v w)) x v
   | LShrExpr x v \<Rightarrow> ev2 ev (\<lambda>v w. guarded (shift_ok (expr_size v) v w) (mk_lshr A v w)) x v
   | NegExpr x \<Rightarrow> ev1 ev (\<lambda>v. guarded (neg_ok v) (mk_neg A v)) x
   | NotExpr x \<Rightarrow> ev1 ev (mk_not A) x
   | AndExpr es \<Rightarrow> ev_list ev (mk_and A) es
   | OrExpr es \<Rightarrow> ev_list ev (mk_or A) es
   | XorExpr es \<Rightarrow> ev_list ev (mk_xor A) es
   | AddExpr es \<Rightarrow> ev_list ev (\<lambda>v w. guarded (length (add_els v @ add_els w) < 2 ^ 31) (mk_add A v w)) es
   | MulExpr es \<Rightarrow> ev_list ev (mk_mul A) es
   | _ \<Rightarrow> checked_logical A ev e)"

lemma checked_node_cong [fundef_cong]:
  assumes "A = A'" "asg = asg'" "e = e'" "\<And>x. x \<in> set (children e') \<Longrightarrow> ev x = ev' x"
  shows "checked_node A asg ev e = checked_node A' asg' ev' e'"
  using assms by (cases e') (simp_all add: checked_node_def checked_logical_def ev1_def ev2_def ev_list_cong[of _ ev ev'])

function checked_inner :: "amb \<Rightarrow> (nat \<Rightarrow> bvconst option) \<Rightarrow> expr \<Rightarrow> expr em" where
  "checked_inner A assignments e = cached e (checked_node A assignments (checked_inner A assignments) e)"
  by pat_completeness auto
termination
  by (relation "measure (\<lambda>(A, asg, e). size e)") (simp_all add: children_size)

declare checked_inner.simps [simp del]

definition sound_calls :: "amb \<Rightarrow> (nat \<Rightarrow> bvconst option) \<Rightarrow> expr \<Rightarrow> builder \<Rightarrow> bool" where
  "sound_calls A asg e b \<longleftrightarrow> (case checked_inner A asg e (b, Map.empty) of Inl _ \<Rightarrow> False | Inr _ \<Rightarrow> True)"

section \<open>The run is the evaluation\<close>

definition refines :: "('s, 'a) smonad \<Rightarrow> ('s, 'a) smonad \<Rightarrow> bool" where
  "refines m m' \<longleftrightarrow> (\<forall>s r. m s = Inr r \<longrightarrow> m' s = Inr r)"

named_theorems refining

lemma refines_same [refining]: "refines m m"
  by (simp add: refines_def)

lemma refines_throw [refining]: "refines (throw f) m"
  by (simp add: refines_def throw_apply)

lemma refines_bnd: "refines m m' \<Longrightarrow> (\<And>x. refines (f x) (f' x)) \<Longrightarrow> refines (bnd m f) (bnd m' f')"
  by (fastforce simp: refines_def bnd_def split: sum.splits)

lemma refines_guarded: "refines (on_builder (guarded ok m)) (on_builder m)"
  by (simp add: guarded_def refines_def on_builder_def throw_apply split: prod.splits)

lemma refines_ev1:
  "refines (ev x) (ev' x) \<Longrightarrow> (\<And>v. refines (on_builder (f v)) (on_builder (f' v))) \<Longrightarrow> refines (ev1 ev f x) (ev1 ev' f' x)"
  unfolding ev1_def by (blast intro: refines_bnd)

lemma refines_ev2:
  "refines (ev x) (ev' x) \<Longrightarrow> refines (ev y) (ev' y) \<Longrightarrow> (\<And>v w. refines (on_builder (f v w)) (on_builder (f' v w))) \<Longrightarrow>
   refines (ev2 ev f x y) (ev2 ev' f' x y)"
  unfolding ev2_def by (blast intro: refines_bnd)

lemma refines_ev_fold:
  "\<forall>x\<in>set xs. refines (ev x) (ev' x) \<Longrightarrow> (\<And>v w. refines (on_builder (f v w)) (on_builder (f' v w))) \<Longrightarrow>
   refines (ev_fold ev f acc xs) (ev_fold ev' f' acc xs)"
  by (induction xs arbitrary: acc) (auto intro!: refines_same refines_bnd)

lemma refines_ev_list:
  "\<forall>x\<in>set xs. refines (ev x) (ev' x) \<Longrightarrow> (\<And>v w. refines (on_builder (f v w)) (on_builder (f' v w))) \<Longrightarrow>
   refines (ev_list ev f xs) (ev_list ev' f' xs)"
  by (cases xs) (auto simp: ev_list_def intro!: refines_same refines_bnd refines_ev_fold)

lemma refines_node:
  assumes "\<forall>x\<in>set (children e). refines (ev x) (ev' x)"
  shows "refines (checked_node A asg ev e) (evaluate_node A asg False ev' e)"
  using assms
  by (cases e) (auto simp: checked_node_def checked_logical_def evaluate_defs split: option.split
      intro!: refines_ev1 refines_ev2 refines_ev_list refines_bnd refining refines_guarded)

lemma refines_cached: "refines m m' \<Longrightarrow> refines (cached e m) (cached e m')"
  by (fastforce simp: refines_def cached_def bnd_def split: sum.splits option.splits prod.splits)

lemma refines_inner: "refines (checked_inner A asg e) (evaluate_inner A asg False e)"
proof (induction e rule: measure_induct_rule[where f = size])
  case (less e)
  then have "\<forall>x\<in>set (children e). refines (checked_inner A asg x) (evaluate_inner A asg False x)" by (simp add: children_size)
  then show ?case by (subst checked_inner.simps, subst evaluate_inner.simps) (intro refines_cached refines_node)
qed

section \<open>What is left means the same\<close>

text \<open>The assignment over other values for the symbols without one.\<close>

definition upd_env :: "(nat \<Rightarrow> bvconst option) \<Rightarrow> (nat \<Rightarrow> int) \<Rightarrow> nat \<Rightarrow> int" where
  "upd_env m \<rho> i = (case m i of Some c \<Rightarrow> bv_val c | None \<Rightarrow> \<rho> i)"

abbreviation sem_under :: "amb \<Rightarrow> (nat \<Rightarrow> bvconst option) \<Rightarrow> (nat \<Rightarrow> int) \<Rightarrow> expr \<Rightarrow> int" where
  "sem_under A m \<rho> e \<equiv> sem (fpl A) (upd_env m \<rho>) e"

definition residual :: "amb \<Rightarrow> (nat \<Rightarrow> bvconst option) \<Rightarrow> expr \<Rightarrow> expr \<Rightarrow> bool" where
  "residual A m e r \<longleftrightarrow> (if is_bool e then asserts A (\<lambda>\<rho>. sem_under A m \<rho> e \<noteq> 0) r
     else denotes A (expr_size e) (\<lambda>\<rho>. sem_under A m \<rho> e) r)"

lemma residual_bool: "is_bool e \<Longrightarrow> residual A m e = asserts A (\<lambda>\<rho>. sem_under A m \<rho> e \<noteq> 0)"
  by (simp add: residual_def fun_eq_iff)

lemma residual_bv: "is_bv e \<Longrightarrow> residual A m e = denotes A (expr_size e) (\<lambda>\<rho>. sem_under A m \<rho> e)"
  by (simp add: residual_def is_bv_not_bool fun_eq_iff)

definition pinv :: "amb \<Rightarrow> (nat \<Rightarrow> bvconst option) \<Rightarrow> builder \<times> ecache \<Rightarrow> bool" where
  "pinv A m bc \<longleftrightarrow> binv A (fst bc) \<and> (\<forall>e r. snd bc e = Some r \<longrightarrow> residual A m e r)"

definition psound :: "amb \<Rightarrow> (nat \<Rightarrow> bvconst option) \<Rightarrow> 'a em \<Rightarrow> ('a \<Rightarrow> bool) \<Rightarrow> bool" where
  "psound A m op P \<longleftrightarrow> (\<forall>bc x bc'. pinv A m bc \<longrightarrow> op bc = Inr (x, bc') \<longrightarrow> pinv A m bc' \<and> same_syms (fst bc) (fst bc') \<and> P x)"

lemma psound_ret: "P x \<Longrightarrow> psound A m (ret x) P"
  by (auto simp: psound_def ret_apply)

lemma psound_throw: "psound A m (throw f) P"
  by (simp add: psound_def throw_apply)

lemma psound_bnd:
  assumes "psound A m op P" "\<And>x. P x \<Longrightarrow> psound A m (f x) Q"
  shows "psound A m (bnd op f) Q"
  unfolding psound_def
proof (intro allI impI)
  fix bc y bc2
  assume "pinv A m bc" "bnd op f bc = Inr (y, bc2)"
  moreover from this obtain x bc1 where "op bc = Inr (x, bc1)" "f x bc1 = Inr (y, bc2)"
    by (auto simp: bnd_def split: sum.splits)
  ultimately show "pinv A m bc2 \<and> same_syms (fst bc) (fst bc2) \<and> Q y"
    using assms unfolding psound_def by (meson same_syms_trans)
qed

lemma psound_builder: "builds A op P \<Longrightarrow> psound A m (on_builder op) P"
  by (fastforce simp: psound_def on_builder_def pinv_def elim: buildsE split: sum.splits prod.splits)

lemma psound_guarded: "(ok \<Longrightarrow> builds A op P) \<Longrightarrow> psound A m (on_builder (guarded ok op)) P"
  using psound_builder[of A op P m] by (cases ok) (simp_all add: guarded_def psound_def on_builder_def throw_apply split: prod.splits)

lemma psound_ev1: "psound A m (ev x) P \<Longrightarrow> (\<And>v. P v \<Longrightarrow> psound A m (on_builder (f v)) Q) \<Longrightarrow> psound A m (ev1 ev f x) Q"
  unfolding ev1_def by (blast intro: psound_bnd)

lemma psound_ev2:
  "psound A m (ev x) P \<Longrightarrow> psound A m (ev y) P' \<Longrightarrow> (\<And>v w. P v \<Longrightarrow> P' w \<Longrightarrow> psound A m (on_builder (f v w)) Q) \<Longrightarrow>
   psound A m (ev2 ev f x y) Q"
  unfolding ev2_def by (blast intro: psound_bnd)

lemma psound_ev_fold:
  assumes "\<forall>x\<in>set ys. psound A m (ev x) (P x)" "Inv xs acc"
    and "\<And>us x acc v. x \<in> set ys \<Longrightarrow> us \<noteq> [] \<Longrightarrow> Inv us acc \<Longrightarrow> P x v \<Longrightarrow> psound A m (on_builder (f acc v)) (Inv (us @ [x]))"
    and "xs \<noteq> []"
  shows "psound A m (ev_fold ev f acc ys) (Inv (xs @ ys))"
  using assms
proof (induction ys arbitrary: xs acc)
  case (Cons y ys)
  show ?case
    unfolding ev_fold.simps
  proof (rule psound_bnd[of A m _ "P y"], goal_cases)
    case (2 v)
    show ?case
    proof (rule psound_bnd[OF Cons.prems(3)[OF _ Cons.prems(4,2) 2]], simp)
      fix acc'
      assume "Inv (xs @ [y]) acc'"
      then show "psound A m (ev_fold ev f acc' ys) (Inv (xs @ y # ys))"
        using Cons.IH[of "xs @ [y]" acc'] Cons.prems(1,3) by simp
    qed
  qed (use Cons.prems in simp)
qed (simp add: psound_ret)

lemma psound_ev_list:
  assumes "\<forall>x\<in>set es. psound A m (ev x) (P x)" "\<And>x v. x \<in> set es \<Longrightarrow> P x v \<Longrightarrow> Inv [x] v"
    and "\<And>us x acc v. x \<in> set es \<Longrightarrow> us \<noteq> [] \<Longrightarrow> Inv us acc \<Longrightarrow> P x v \<Longrightarrow> psound A m (on_builder (f acc v)) (Inv (us @ [x]))"
  shows "psound A m (ev_list ev f es) (Inv es)"
proof (cases es)
  case (Cons x xs)
  have "psound A m (ev_fold ev f v xs) (Inv (x # xs))" if "P x v" for v
    using psound_ev_fold[of xs A m ev P Inv "[x]" v f] assms that Cons by simp
  with assms(1) Cons show ?thesis by (auto simp: ev_list_def intro: psound_bnd)
qed (simp add: ev_list_def psound_throw)

section \<open>The cases of the switch\<close>

abbreviation kids_left :: "amb \<Rightarrow> (nat \<Rightarrow> bvconst option) \<Rightarrow> (expr \<Rightarrow> expr em) \<Rightarrow> expr \<Rightarrow> bool" where
  "kids_left A m ev e \<equiv> \<forall>x\<in>set (children e). psound A m (ev x) (residual A m x)"

text \<open>The rules of the builder for operands whose values are known.\<close>

lemma denotes_on1:
  assumes "\<And>x. operand n x \<Longrightarrow> ok x \<Longrightarrow> builds A (f x) (denotes A k (\<lambda>\<rho>. g (sem (fpl A) \<rho> x)))" "denotes A n v x"
  shows "ok x \<Longrightarrow> builds A (f x) (denotes A k (\<lambda>\<rho>. g (v \<rho>)))"
  by (rule denotes_cong[OF assms(1)]) (use assms(2) in \<open>auto simp: denotes_operand denotes_sem\<close>)

lemma denotes_on2:
  assumes "\<And>x y. operand n x \<Longrightarrow> operand k y \<Longrightarrow> ok x y \<Longrightarrow> builds A (f x y) (denotes A l (\<lambda>\<rho>. g (sem (fpl A) \<rho> x) (sem (fpl A) \<rho> y)))"
    and "denotes A n v x" "denotes A k w y"
  shows "ok x y \<Longrightarrow> builds A (f x y) (denotes A l (\<lambda>\<rho>. g (v \<rho>) (w \<rho>)))"
  by (rule denotes_cong[OF assms(1)]) (use assms(2,3) in \<open>auto simp: denotes_operand denotes_sem\<close>)

lemma asserts_on2:
  assumes "\<And>x y. operand n x \<Longrightarrow> operand n y \<Longrightarrow> ok x y \<Longrightarrow> builds A (f x y) (asserts A (\<lambda>\<rho>. g (sem (fpl A) \<rho> x) (sem (fpl A) \<rho> y)))"
    and "denotes A n v x" "denotes A n w y"
  shows "ok x y \<Longrightarrow> builds A (f x y) (asserts A (\<lambda>\<rho>. g (v \<rho>) (w \<rho>)))"
proof -
  assume "ok x y"
  from assms(1)[OF denotes_operand[OF assms(2)] denotes_operand[OF assms(3)] this] show ?thesis
    by (simp add: denotes_sem[OF assms(2)] denotes_sem[OF assms(3)])
qed

lemma asserts_cong: "builds A m (asserts A v) \<Longrightarrow> (\<And>\<rho>. v \<rho> = w \<rho>) \<Longrightarrow> builds A m (asserts A w)"
proof -
  assume "builds A m (asserts A v)" and "\<And>\<rho>. v \<rho> = w \<rho>"
  moreover from this(2) have "v = w" by (rule ext)
  ultimately show ?thesis by simp
qed

context nary_op
begin

lemma left_list:
  assumes kids: "\<forall>x\<in>set es. psound A m (ev x) (residual A m x)" and node: "wf_expr (node es)"
    and step: "\<And>n x y. operand n x \<Longrightarrow> operand n y \<Longrightarrow> ok x y \<Longrightarrow>
      builds A (bld x y) (denotes A n (\<lambda>\<rho>. take_bit n (g (sem (fpl A) \<rho> x) (sem (fpl A) \<rho> y))))"
  shows "psound A m (ev_list ev (\<lambda>x y. guarded (ok x y) (bld x y)) es) (residual A m (node es))"
proof -
  let ?n = "expr_size (hd es)"
  let ?Inv = "\<lambda>us. denotes A ?n (\<lambda>\<rho>. take_bit ?n (fold_val g u (fpl A) (upd_env m \<rho>) us))"
  have w: "same_width es" using node_wfD[OF node] by simp
  have e: "residual A m x = denotes A ?n (\<lambda>\<rho>. sem_under A m \<rho> x)" "operand ?n x" if "x \<in> set es" for x
  proof -
    have "is_bv x" "expr_size x = ?n" "wf_expr x" using w that node_wfD[OF node] unfolding same_width_iff by blast+
    then show "residual A m x = denotes A ?n (\<lambda>\<rho>. sem_under A m \<rho> x)" "operand ?n x" by (simp_all add: residual_bv operand_def)
  qed
  have "psound A m (ev_list ev (\<lambda>x y. guarded (ok x y) (bld x y)) es) (?Inv es)"
  proof (rule psound_ev_list[where Inv = ?Inv, OF kids])
    show "?Inv [x] v" if "x \<in> set es" "residual A m x v" for x v
      using that(2) operand_take_bit[OF e(2)[OF that(1)]] unfolding e(1)[OF that(1)] fold_val_simps unit_right by simp
    fix us x acc v
    assume a: "x \<in> set es" "us \<noteq> []" "?Inv us acc" "residual A m x v"
    show "psound A m (on_builder (guarded (ok acc v) (bld acc v))) (?Inv (us @ [x]))"
      using denotes_on2[where f = bld and ok = ok and g = "\<lambda>x y. take_bit ?n (g x y)", OF step a(3) a(4)[unfolded e(1)[OF a(1)]]]
      unfolding fold_val_value[OF a(2)] by (rule psound_guarded)
  qed
  then show ?thesis
    using w node_bv node_size[of es] node_sem[of es] same_width_hd(3)[OF w]
    by (simp add: residual_bv fold_val_def)
qed

lemma left_list_plain:
  assumes "\<forall>x\<in>set es. psound A m (ev x) (residual A m x)" "wf_expr (node es)"
    and "\<And>n x y. operand n x \<Longrightarrow> operand n y \<Longrightarrow> builds A (bld x y) (denotes A n (\<lambda>\<rho>. take_bit n (g (sem (fpl A) \<rho> x) (sem (fpl A) \<rho> y))))"
  shows "psound A m (ev_list ev bld es) (residual A m (node es))"
  using left_list[OF assms(1,2), of "\<lambda>_ _. True" bld] assms(3) by (simp add: guarded_def)

end

text \<open>A node with one operand, with two, and a comparison.\<close>

lemma left_one:
  assumes kid: "psound A m (ev x) (residual A m x)" and x: "operand n x"
    and step: "\<And>v. operand n v \<Longrightarrow> ok v \<Longrightarrow> builds A (f v) (denotes A k (\<lambda>\<rho>. g (sem (fpl A) \<rho> v)))"
    and e: "is_bv e" "expr_size e = k" "\<And>\<rho>. sem (fpl A) \<rho> e = g (sem (fpl A) \<rho> x)"
  shows "psound A m (ev1 ev (\<lambda>v. guarded (ok v) (f v)) x) (residual A m e)"
proof (rule psound_ev1[where ev = ev and x = x and P = "residual A m x", OF kid])
  fix v assume "residual A m x v"
  then have "denotes A n (\<lambda>\<rho>. sem_under A m \<rho> x) v" using x by (simp add: residual_bv operand_def)
  from denotes_on1[where f = f and ok = ok and g = g, OF step this]
  show "psound A m (on_builder (guarded (ok v) (f v))) (residual A m e)"
    using e by (intro psound_guarded) (simp add: residual_bv)
qed

lemma left_two:
  assumes kids: "psound A m (ev x) (residual A m x)" "psound A m (ev y) (residual A m y)" and xy: "operand n x" "operand n y"
    and step: "\<And>v w. operand n v \<Longrightarrow> operand n w \<Longrightarrow> ok v w \<Longrightarrow>
      builds A (f v w) (denotes A k (\<lambda>\<rho>. g (sem (fpl A) \<rho> v) (sem (fpl A) \<rho> w)))"
    and e: "is_bv e" "expr_size e = k" "\<And>\<rho>. sem (fpl A) \<rho> e = g (sem (fpl A) \<rho> x) (sem (fpl A) \<rho> y)"
  shows "psound A m (ev2 ev (\<lambda>v w. guarded (ok v w) (f v w)) x y) (residual A m e)"
proof (rule psound_ev2[where ev = ev and x = x and y = y and P = "residual A m x" and P' = "residual A m y", OF kids])
  fix v w assume "residual A m x v" "residual A m y w"
  then have "denotes A n (\<lambda>\<rho>. sem_under A m \<rho> x) v" "denotes A n (\<lambda>\<rho>. sem_under A m \<rho> y) w"
    using xy by (simp_all add: residual_bv operand_def)
  from denotes_on2[where f = f and ok = ok and g = g, OF step this]
  show "psound A m (on_builder (guarded (ok v w) (f v w))) (residual A m e)"
    using e by (intro psound_guarded) (simp add: residual_bv)
qed

lemma left_compare:
  assumes kids: "psound A m (ev x) (residual A m x)" "psound A m (ev y) (residual A m y)" and xy: "operand n x" "operand n y"
    and step: "\<And>v w. operand n v \<Longrightarrow> operand n w \<Longrightarrow> ok v w \<Longrightarrow>
      builds A (f v w) (asserts A (\<lambda>\<rho>. g (sem (fpl A) \<rho> v) (sem (fpl A) \<rho> w)))"
    and e: "is_bool e" "\<And>\<rho>. sem (fpl A) \<rho> e = of_bool (g (sem (fpl A) \<rho> x) (sem (fpl A) \<rho> y))"
  shows "psound A m (ev2 ev (\<lambda>v w. guarded (ok v w) (f v w)) x y) (residual A m e)"
proof (rule psound_ev2[where ev = ev and x = x and y = y and P = "residual A m x" and P' = "residual A m y", OF kids])
  fix v w assume "residual A m x v" "residual A m y w"
  then have "denotes A n (\<lambda>\<rho>. sem_under A m \<rho> x) v" "denotes A n (\<lambda>\<rho>. sem_under A m \<rho> y) w"
    using xy by (simp_all add: residual_bv operand_def)
  from asserts_on2[where f = f and ok = ok and g = g, OF step this]
  show "psound A m (on_builder (guarded (ok v w) (f v w))) (residual A m e)"
    using e by (intro psound_guarded) (simp add: residual_bool)
qed

lemma left_arith:
  assumes "kids_left A m ev e" "wf_expr e" "kind e \<in> {K_ADD, K_MUL, K_AND, K_OR, K_XOR}"
  shows "psound A m (checked_node A m ev e) (residual A m e)"
proof -
  have bits: "builds A (mk_and A x y) (denotes A n (\<lambda>\<rho>. take_bit n (sem (fpl A) \<rho> x AND sem (fpl A) \<rho> y)))"
    "builds A (mk_or A x y) (denotes A n (\<lambda>\<rho>. take_bit n (sem (fpl A) \<rho> x OR sem (fpl A) \<rho> y)))"
    "builds A (mk_xor A x y) (denotes A n (\<lambda>\<rho>. take_bit n (sem (fpl A) \<rho> x XOR sem (fpl A) \<rho> y)))"
    if "operand n x" "operand n y" for n x y
    using mk_and_denotes[OF that, of A] mk_or_denotes[OF that, of A] mk_xor_denotes[OF that, of A]
    by (simp_all add: operand_take_bit[OF that(1)] operand_take_bit[OF that(2)])
  consider es where "e = AddExpr es" | es where "e = MulExpr es" | es where "e = AndExpr es"
    | es where "e = OrExpr es" | es where "e = XorExpr es"
    using assms(3) by (cases e) auto
  then show ?thesis
    using assms(1,2) add_op.left_list[OF _ _ mk_add_denotes] mul_op.left_list_plain[OF _ _ mk_mul_denotes]
      and_op.left_list_plain[OF _ _ bits(1)] or_op.left_list_plain[OF _ _ bits(2)] xor_op.left_list_plain[OF _ _ bits(3)]
    by cases (simp_all add: checked_node_def)
qed

lemma guarded_True: "guarded True f = f"
  by (simp add: guarded_def)

lemmas left_plain = left_one[where ok = "\<lambda>_. True", unfolded guarded_True] left_two[where ok = "\<lambda>_ _. True", unfolded guarded_True]
  left_compare[where ok = "\<lambda>_ _. True", unfolded guarded_True]

lemma left_ite:
  assumes kids: "psound A m (ev g) (residual A m g)" "psound A m (ev t) (residual A m t)" "psound A m (ev f) (residual A m f)"
    and wf: "wf_expr (ITEExpr g t f)"
  shows "psound A m (bnd (ev g) (\<lambda>g'. ev2 ev (mk_ite A g') t f)) (residual A m (ITEExpr g t f))"
proof (rule psound_bnd[where P = "residual A m g", OF kids(1)],
    rule psound_ev2[where ev = ev and x = t and y = f and P = "residual A m t" and P' = "residual A m f", OF kids(2,3)])
  fix g' v w assume r: "residual A m g g'" "residual A m t v" "residual A m f w"
  let ?n = "expr_size t"
  have g: "asserts A (\<lambda>\<rho>. sem_under A m \<rho> g \<noteq> 0) g'" using r(1) wf by (simp add: residual_bool)
  have d: "denotes A ?n (\<lambda>\<rho>. sem_under A m \<rho> t) v" "denotes A ?n (\<lambda>\<rho>. sem_under A m \<rho> f) w"
    using r(2,3) wf by (simp_all add: residual_bv)
  have "builds A (mk_ite A g' v w) (denotes A ?n (\<lambda>\<rho>. sem_under A m \<rho> (ITEExpr g t f)))"
    by (rule denotes_cong[OF mk_ite_denotes[OF _ _ denotes_operand[OF d(1)] denotes_operand[OF d(2)]]])
      (use g in \<open>simp_all add: asserts_def denotes_sem[OF d(1)] denotes_sem[OF d(2)]\<close>)
  then show "psound A m (on_builder (mk_ite A g' v w)) (residual A m (ITEExpr g t f))"
    by (intro psound_builder) (simp add: residual_bv)
qed

lemma left_structural:
  assumes "kids_left A m ev e" "wf_expr e" "kind e \<in> {K_EXTRACT, K_ZEXT, K_SEXT, K_ITE, K_SHL, K_LSHR, K_NEG, K_NOT}"
  shows "psound A m (checked_node A m ev e) (residual A m e)"
  using assms
proof (cases e)
  case (ExtractExpr x high low)
  with assms show ?thesis
    by (auto simp: checked_node_def operand_def bits_of_def intro!: left_one[where n = "expr_size x" and g = "bits_of high low"] mk_extract_denotes)
next
  case (ZextExpr x n)
  with assms show ?thesis
    by (auto simp: checked_node_def operand_def intro!: left_plain(1)[where n = "expr_size x" and g = "\<lambda>v. v"] mk_zext_denotes)
next
  case (SextExpr x n)
  with assms show ?thesis
    by (auto simp: checked_node_def operand_def
        intro!: left_plain(1)[where n = "expr_size x" and g = "\<lambda>v. take_bit n (sval (expr_size x) v)"] mk_sext_denotes)
next
  case (NegExpr x)
  with assms show ?thesis
    by (auto simp: checked_node_def operand_def
        intro!: left_one[where n = "expr_size x" and g = "\<lambda>v. take_bit (expr_size x) (- v)"] mk_neg_denotes)
next
  case (NotExpr x)
  with assms show ?thesis
    by (auto simp: checked_node_def operand_def
        intro!: left_plain(1)[where n = "expr_size x" and g = "\<lambda>v. take_bit (expr_size x) (NOT v)"] mk_not_denotes)
next
  case (ShlExpr x v)
  with assms show ?thesis
    by (auto simp: checked_node_def operand_def intro!: left_two[where n = "expr_size x" and g = "shl_val (expr_size x)"] mk_shl_denotes)
next
  case (LShrExpr x v)
  with assms show ?thesis
    by (auto simp: checked_node_def operand_def intro!: left_two[where n = "expr_size x" and g = "lshr_val (expr_size x)"] mk_lshr_denotes)
next
  case (ITEExpr g t f)
  with assms show ?thesis by (simp add: checked_node_def left_ite)
qed auto

lemma left_concat:
  assumes kids: "\<forall>x\<in>set es. psound A m (ev x) (residual A m x)" and "wf_expr (ConcatExpr es)"
  shows "psound A m (ev_list ev (\<lambda>v w. guarded (concat_ok v \<and> concat_ok w) (mk_concat A v w)) es) (residual A m (ConcatExpr es))"
proof -
  let ?vs = "\<lambda>\<rho> us. map (\<lambda>e. (expr_size e, sem_under A m \<rho> e)) us" and ?w = "\<lambda>us. sum_list (map expr_size us)"
  let ?Inv = "\<lambda>us. denotes A (?w us) (\<lambda>\<rho>. concat_val (?vs \<rho> us))"
  have e: "residual A m x = denotes A (expr_size x) (\<lambda>\<rho>. sem_under A m \<rho> x)" if "x \<in> set es" for x
    using assms(2) that by (auto simp: list_all_iff residual_bv)
  have "psound A m (ev_list ev (\<lambda>v w. guarded (concat_ok v \<and> concat_ok w) (mk_concat A v w)) es) (?Inv es)"
  proof (rule psound_ev_list[where Inv = ?Inv, OF kids])
    show "?Inv [x] v" if "x \<in> set es" "residual A m x v" for x v
      using that e by simp
    fix us x acc v
    assume a: "x \<in> set es" "?Inv us acc" "residual A m x v"
    have "builds A (mk_concat A acc v) (denotes A (?w us + expr_size x)
        (\<lambda>\<rho>. push_bit (expr_size x) (concat_val (?vs \<rho> us)) OR sem_under A m \<rho> x))" if "concat_ok acc \<and> concat_ok v"
      by (rule denotes_on2[where f = "mk_concat A" and ok = "\<lambda>v w. concat_ok v \<and> concat_ok w"
            and g = "\<lambda>v w. push_bit (expr_size x) v OR w" and x = acc and y = v, OF mk_concat_denotes a(2) a(3)[unfolded e[OF a(1)]]])
        (use that in auto)
    then show "psound A m (on_builder (guarded (concat_ok acc \<and> concat_ok v) (mk_concat A acc v))) (?Inv (us @ [x]))"
      by (intro psound_guarded) (simp add: concat_val_append)
  qed
  then show ?thesis by (simp add: residual_bv)
qed

lemma left_connectives:
  assumes kids: "\<forall>x\<in>set es. psound A m (ev x) (residual A m x)" and es: "\<forall>x\<in>set es. wf_expr x \<and> is_bool x"
    and step: "\<And>x y. formula x \<Longrightarrow> formula y \<Longrightarrow> builds A (bld x y) (asserts A (\<lambda>\<rho>. f (holds (fpl A) \<rho> x) (holds (fpl A) \<rho> y)))"
    and h: "\<And>x. h [x] = x" "\<And>us x. us \<noteq> [] \<Longrightarrow> h (us @ [x]) = f (h us) x"
  shows "psound A m (ev_list ev bld es) (asserts A (\<lambda>\<rho>. h (map (\<lambda>x. sem_under A m \<rho> x \<noteq> 0) es)))"
proof (rule psound_ev_list[where Inv = "\<lambda>us. asserts A (\<lambda>\<rho>. h (map (\<lambda>x. sem_under A m \<rho> x \<noteq> 0) us))", OF kids])
  show "asserts A (\<lambda>\<rho>. h (map (\<lambda>x. sem_under A m \<rho> x \<noteq> 0) [x])) v" if "x \<in> set es" "residual A m x v" for x v
    using that es by (simp add: residual_bool h)
  fix us x acc v
  assume a: "x \<in> set es" "us \<noteq> []" "asserts A (\<lambda>\<rho>. h (map (\<lambda>x. sem_under A m \<rho> x \<noteq> 0) us)) acc" "residual A m x v"
  have "asserts A (\<lambda>\<rho>. sem_under A m \<rho> x \<noteq> 0) v" using a(1,4) es by (simp add: residual_bool)
  with a(3) have "formula acc" "formula v" "\<And>\<rho>. holds (fpl A) \<rho> acc = h (map (\<lambda>x. sem_under A m \<rho> x \<noteq> 0) us)"
    "\<And>\<rho>. holds (fpl A) \<rho> v = (sem_under A m \<rho> x \<noteq> 0)" by (simp_all add: asserts_def formula_def)
  then show "psound A m (on_builder (bld acc v)) (asserts A (\<lambda>\<rho>. h (map (\<lambda>x. sem_under A m \<rho> x \<noteq> 0) (us @ [x]))))"
    using a(2) by (intro psound_builder asserts_cong[OF step]) (simp_all add: h(2))
qed

lemmas checked_defs = checked_node_def checked_logical_def

lemma left_formula:
  assumes "kids_left A m ev e" "wf_expr e" "is_bool e"
  shows "psound A m (checked_node A m ev e) (residual A m e)"
  using assms
proof (cases e)
  case (BoolAndExpr es)
  have "psound A m (ev_list ev (mk_bool_and A) es) (asserts A (\<lambda>\<rho>. list_all (\<lambda>b. b) (map (\<lambda>x. sem_under A m \<rho> x \<noteq> 0) es)))"
    using assms BoolAndExpr
    by (intro left_connectives[where f = "(\<and>)"] mk_bool_and_asserts) (auto simp: list_all_iff)
  then show ?thesis using BoolAndExpr by (simp add: checked_defs residual_bool list_all_iff)
next
  case (BoolOrExpr es)
  have "psound A m (ev_list ev (mk_bool_or A) es) (asserts A (\<lambda>\<rho>. list_ex (\<lambda>b. b) (map (\<lambda>x. sem_under A m \<rho> x \<noteq> 0) es)))"
    using assms BoolOrExpr
    by (intro left_connectives[where f = "(\<or>)"] mk_bool_or_asserts) (auto simp: list_ex_iff list_all_iff)
  then show ?thesis using BoolOrExpr by (simp add: checked_defs residual_bool list_ex_iff)
next
  case (BoolNotExpr x)
  have "psound A m (ev1 ev (mk_bool_not A) x) (residual A m e)"
  proof (rule psound_ev1[where ev = ev and x = x and P = "residual A m x"])
    show "psound A m (ev x) (residual A m x)" using assms(1) BoolNotExpr by simp
    fix v assume "residual A m x v"
    then have v: "asserts A (\<lambda>\<rho>. sem_under A m \<rho> x \<noteq> 0) v" using assms(2) BoolNotExpr by (simp add: residual_bool)
    then have "builds A (mk_bool_not A v) (asserts A (\<lambda>\<rho>. sem_under A m \<rho> x = 0))"
      by (intro asserts_cong[OF mk_bool_not_asserts]) (simp_all add: asserts_def)
    then show "psound A m (on_builder (mk_bool_not A v)) (residual A m e)"
      using BoolNotExpr by (intro psound_builder) (simp add: residual_bool)
  qed
  with BoolNotExpr show ?thesis by (simp add: checked_defs)
next
  case (BoolConst b)
  then show ?thesis by (auto simp: checked_defs residual_bool asserts_def intro!: psound_ret)
next
  case (EqExpr x y)
  with assms show ?thesis
    by (auto simp: checked_defs operand_def intro!: left_compare[where n = "expr_size x" and g = "\<lambda>v w. v = w"] mk_eq_asserts)
next
  case (UltExpr x y)
  with assms show ?thesis
    by (auto simp: checked_defs operand_def intro!: left_plain(3)[where n = "expr_size x" and g = "\<lambda>v w. v < w"] mk_unsigned_asserts)
next
  case (UleExpr x y)
  with assms show ?thesis
    by (auto simp: checked_defs operand_def intro!: left_plain(3)[where n = "expr_size x" and g = "\<lambda>v w. v \<le> w"] mk_unsigned_asserts)
next
  case (UgtExpr x y)
  with assms show ?thesis
    by (auto simp: checked_defs operand_def intro!: left_plain(3)[where n = "expr_size x" and g = "\<lambda>v w. v > w"] mk_unsigned_asserts)
next
  case (UgeExpr x y)
  with assms show ?thesis
    by (auto simp: checked_defs operand_def intro!: left_plain(3)[where n = "expr_size x" and g = "\<lambda>v w. v \<ge> w"] mk_unsigned_asserts)
next
  case (SltExpr x y)
  with assms show ?thesis
    by (auto simp: checked_defs operand_def
        intro!: left_compare[where n = "expr_size x" and g = "\<lambda>v w. sval (expr_size x) v < sval (expr_size x) w"] mk_signed_asserts)
next
  case (SleExpr x y)
  with assms show ?thesis
    by (auto simp: checked_defs operand_def
        intro!: left_compare[where n = "expr_size x" and g = "\<lambda>v w. sval (expr_size x) v \<le> sval (expr_size x) w"] mk_signed_asserts)
next
  case (SgtExpr x y)
  with assms show ?thesis
    by (auto simp: checked_defs operand_def
        intro!: left_compare[where n = "expr_size x" and g = "\<lambda>v w. sval (expr_size x) v > sval (expr_size x) w"] mk_signed_asserts)
next
  case (SgeExpr x y)
  with assms show ?thesis
    by (auto simp: checked_defs operand_def
        intro!: left_compare[where n = "expr_size x" and g = "\<lambda>v w. sval (expr_size x) v \<ge> sval (expr_size x) w"] mk_signed_asserts)
qed (auto simp: is_bool_def checked_defs intro!: psound_throw)

lemma left_leaf:
  assumes "wf_expr e" "kind e \<in> {K_SYM, K_CONST}"
  shows "psound A m (checked_node A m ev e) (residual A m e)"
  using assms
proof (cases e)
  case (SymExpr i n)
  show ?thesis
  proof (cases "m i")
    case None
    with SymExpr assms show ?thesis
      by (auto simp: checked_node_def residual_bv denotes_def upd_env_def intro!: psound_ret)
  next
    case (Some c)
    have "builds A (mk_const A c) (residual A m e)" if "bv_ok c \<and> m_size c = n"
    proof (rule mk_const_builds)
      show c: "bv_rep n (bv_val c) c" using that by (simp add: bv_rep_def)
      show "residual A m e (ConstExpr k)" if "bv_rep n (bv_val c) k" "BVConst_copy k = k" for k
        using that SymExpr Some assms bv_rep_take_bit[OF c]
        by (simp add: residual_bv denotes_def upd_env_def bv_rep_def)
    qed
    with SymExpr Some show ?thesis by (simp add: checked_node_def psound_guarded)
  qed
next
  case (ConstExpr c)
  with assms show ?thesis
    by (auto simp: checked_node_def residual_bv denotes_def intro!: psound_ret)
qed auto

lemma left_node:
  assumes "kids_left A m ev e" "wf_expr e"
  shows "psound A m (checked_node A m ev e) (residual A m e)"
proof -
  consider "kind e \<in> {K_SYM, K_CONST}" | "kind e \<in> {K_ADD, K_MUL, K_AND, K_OR, K_XOR}"
    | "kind e \<in> {K_EXTRACT, K_ZEXT, K_SEXT, K_ITE, K_SHL, K_LSHR, K_NEG, K_NOT}" | es where "e = ConcatExpr es" | "is_bool e"
    | "checked_node A m ev e = throw (Assertion ''not of the fragment'')"
    using assms(2) by (cases e) (auto simp: is_bool_def checked_defs)
  then show ?thesis
  proof cases
    case 4
    with assms left_concat[of es A m ev] show ?thesis by (simp add: checked_node_def)
  qed (use assms in \<open>auto intro: left_leaf left_arith left_structural left_formula psound_throw\<close>)
qed

lemma cached_psound:
  assumes "psound A m op (residual A m e)"
  shows "psound A m (cached e op) (residual A m e)"
  unfolding psound_def
proof (intro allI impI)
  fix s r s'
  assume inv: "pinv A m s" and run: "cached e op s = Inr (r, s')"
  obtain b c where s: "s = (b, c)" by (cases s)
  show "pinv A m s' \<and> same_syms (fst s) (fst s') \<and> residual A m e r"
  proof (cases "c e")
    case None
    with s run obtain b' c' where r: "op s = Inr (r, (b', c'))" "s' = (b', c'(e \<mapsto> r))"
      by (auto simp: cached_def bnd_def split: sum.splits prod.splits)
    with assms inv have "pinv A m (b', c')" "same_syms (fst s) b'" "residual A m e r"
      unfolding psound_def by (metis fst_conv)+
    with r show ?thesis by (auto simp: pinv_def)
  next
    case (Some v)
    with inv run s show ?thesis by (auto simp: cached_def pinv_def)
  qed
qed

lemma checked_inner_psound: "wf_expr e \<Longrightarrow> psound A m (checked_inner A m e) (residual A m e)"
proof (induction e rule: measure_induct_rule[where f = size])
  case (less e)
  then have "kids_left A m (checked_inner A m) e" by (meson children_size wf_children)
  then show ?case by (subst checked_inner.simps[of A m e]) (intro cached_psound left_node less.prems)
qed

lemma evaluate_residual:
  assumes "binv A s" "wf_expr e" "sound_calls A m e s"
  shows "\<exists>r s'. evaluate A e m False s = Inr (r, s') \<and> binv A s' \<and> same_syms s s' \<and> residual A m e r"
proof -
  obtain r b c where run: "checked_inner A m e (s, Map.empty) = Inr (r, (b, c))"
    using assms(3) unfolding sound_calls_def by (auto split: sum.splits)
  moreover have "pinv A m (s, Map.empty)" using assms(1) by (simp add: pinv_def)
  ultimately have "pinv A m (b, c) \<and> same_syms (fst (s, Map.empty :: ecache)) (fst (b, c)) \<and> residual A m e r"
    using checked_inner_psound[OF assms(2), of A m] unfolding psound_def by blast
  then have "binv A b \<and> same_syms s b \<and> residual A m e r" by (simp add: pinv_def)
  moreover have "evaluate_inner A m False e (s, Map.empty) = Inr (r, (b, c))"
    using refines_inner[of A m e] run unfolding refines_def by blast
  ultimately show ?thesis by (simp add: evaluate_def)
qed

end
