(* ===== verification/SolverSpec.thy ===== *)
theory SolverSpec
  imports Solver Z3Spec PartialEval
begin

text \<open>
  The solver is sound: under the documented meaning of Z3, a query that the solver calls unsatisfiable contradicts the
  path constraints, all of them, although only those that share symbols with the query are passed to Z3.
\<close>

section \<open>Z3\<close>

definition engine_sound :: "'z z3_engine \<Rightarrow> 'z z3_sem \<Rightarrow> bool" where
  "engine_sound E S \<longleftrightarrow>
     (\<forall>k as. z_check E k as = Z3_unsat \<longrightarrow> \<not> (\<exists>\<eta>. \<forall>a\<in>set as. zval S \<eta> a \<noteq> 0)) \<and>
     (\<forall>k as. z_check E k as = Z3_sat \<longrightarrow> (\<exists>\<eta>. \<forall>a\<in>set as. zval S \<eta> a \<noteq> 0))"

lemma translatable_children: "translatable b e \<Longrightarrow> x \<in> set (children e) \<Longrightarrow> translatable b x"
  by (simp add: translatable.simps[of b e])

lemma translatable_named: "translatable b e \<Longrightarrow> i \<in> syms e \<Longrightarrow> m_sym_id_to_name b i \<noteq> None"
proof (induction e rule: measure_induct_rule[where f = size])
  case (less e)
  show ?case
  proof (cases "kind e = K_SYM")
    case True
    moreover have "tr_node_ok b e" using less.prems(1) by (simp add: translatable.simps[of b e])
    ultimately show ?thesis using less.prems(2) by (cases e) (auto simp: tr_node_ok_def)
  next
    case False
    with less.prems(2) obtain x where "x \<in> set (children e)" "i \<in> syms x" by (auto simp: syms_children)
    with less.IH[of x] less.prems(1) show ?thesis by (simp add: children_size translatable_children)
  qed
qed

lemma translatable_syms: "translatable b e \<Longrightarrow> m_sym_id_to_name b' = m_sym_id_to_name b \<Longrightarrow> translatable b' e"
proof (induction e rule: measure_induct_rule[where f = size])
  case (less e)
  then have "\<forall>x\<in>set (children e). translatable b' x" by (auto simp: children_size translatable_children)
  moreover have "tr_node_ok b e" using less.prems(1) by (simp add: translatable.simps[of b e])
  then have "tr_node_ok b' e" using less.prems(2) by (cases e) (simp_all add: tr_node_ok_def)
  ultimately show ?case by (simp add: translatable.simps[of b' e])
qed

text \<open>Every environment of the symbols is one of names, because no two symbols share a name.\<close>

lemma env_names_onto:
  assumes "binv A b"
  obtains \<eta> where "\<And>i. m_sym_id_to_name b i \<noteq> None \<Longrightarrow> env_names b \<eta> i = \<rho> i"
proof -
  have "symbols_ok b" using assms by (simp add: binv_def)
  note sy = symbols_okD[OF this]
  let ?\<eta> = "\<lambda>s. \<rho> (case m_symbols b s of Some (SymExpr i n) \<Rightarrow> i | _ \<Rightarrow> 0)"
  have "env_names b ?\<eta> i = \<rho> i" if "m_sym_id_to_name b i \<noteq> None" for i
    using that sy by (fastforce simp: env_names_def)
  then show ?thesis using that by blast
qed

lemma sat_names:
  assumes "binv A b" "\<forall>c\<in>cs. translatable b c"
  shows "sat F cs \<longleftrightarrow> (\<exists>\<eta>. \<forall>c\<in>cs. holds F (env_names b \<eta>) c)"
proof
  assume "sat F cs"
  then obtain \<rho> where \<rho>: "\<forall>c\<in>cs. holds F \<rho> c" by (auto simp: sat_def)
  obtain \<eta> where \<eta>: "\<And>i. m_sym_id_to_name b i \<noteq> None \<Longrightarrow> env_names b \<eta> i = \<rho> i"
    using env_names_onto[OF assms(1)] by blast
  have "sem F (env_names b \<eta>) c = sem F \<rho> c" if "c \<in> cs" for c
    using assms(2) that by (intro sem_coincidence \<eta> translatable_named) auto
  then have "\<forall>c\<in>cs. holds F (env_names b \<eta>) c" using \<rho> by simp
  then show "\<exists>\<eta>. \<forall>c\<in>cs. holds F (env_names b \<eta>) c" by blast
qed (auto simp: sat_def)

lemma add_simplified_spec:
  assumes "z3_sound Z S" "\<forall>c\<in>set cs. formula c \<and> translatable (w_builder w) c"
  shows "\<exists>zs. add_simplified Z E cs w = Inr ((), w\<lparr>w_z3 := (w_z3 w)\<lparr>z3_assertions := z3_assertions (w_z3 w) @ zs\<rparr>\<rparr>) \<and>
    (\<forall>\<eta>. (\<forall>z\<in>set zs. zval S \<eta> z \<noteq> 0) \<longleftrightarrow> (\<forall>c\<in>set cs. holds F (env_names (w_builder w) \<eta>) c))"
  using assms(2)
proof (induction cs arbitrary: w)
  case Nil
  then show ?case by (auto simp: ret_apply intro!: exI[of _ "[]"])
next
  case (Cons c cs)
  then have c: "wf_expr c" "is_bool c" "translatable (w_builder w) c" by (simp_all add: formula_def)
  obtain z where z: "to_z3 Z E c w = Inr (z, w)" "means F S (w_builder w) c z"
    using to_z3_means[OF assms(1) c(1,3)] by blast
  let ?z = "z_simplify Z z"
  let ?w = "w\<lparr>w_z3 := (w_z3 w)\<lparr>z3_assertions := z3_assertions (w_z3 w) @ [?z]\<rparr>\<rparr>"
  have v: "zval S \<eta> ?z \<noteq> 0 \<longleftrightarrow> holds F (env_names (w_builder w) \<eta>) c" for \<eta>
    using z(2) c(2) assms(1) by (auto simp: means_bool bt_def z3_sound_def z3_logic_def)
  obtain zs where "add_simplified Z E cs ?w = Inr ((), ?w\<lparr>w_z3 := (w_z3 ?w)\<lparr>z3_assertions := z3_assertions (w_z3 ?w) @ zs\<rparr>\<rparr>)"
    "\<forall>\<eta>. (\<forall>z\<in>set zs. zval S \<eta> z \<noteq> 0) \<longleftrightarrow> (\<forall>c\<in>set cs. holds F (env_names (w_builder w) \<eta>) c)"
    using Cons.IH[of ?w] Cons.prems by auto
  then show ?case
    using z(1) v by (intro exI[of _ "?z # zs"]) (simp add: bnd_def z3_add_def)
qed

text \<open>The solver of Z3 is asked once, for terms that hold exactly when the query does.\<close>

definition answer_of :: "z3_answer \<Rightarrow> check_result" where
  "answer_of a = (case a of Z3_unsat \<Rightarrow> UNSAT | Z3_sat \<Rightarrow> SAT | Z3_unknown \<Rightarrow> UNKNOWN)"

lemma check_run:
  assumes "z3_sound Z S" "formula q" "translatable (w_builder w) q"
  obtains zs where "check Z E q w = Inr (answer_of (z_check E (z3_checks (w_z3 w)) zs),
      w\<lparr>w_z3 := \<lparr>z3_assertions = zs, z3_checks = z3_checks (w_z3 w) + 1\<rparr>\<rparr>)"
    "\<forall>\<eta>. (\<forall>z\<in>set zs. zval S \<eta> z \<noteq> 0) \<longleftrightarrow> holds F (env_names (w_builder w) \<eta>) q"
proof -
  let ?cs = "case q of BoolAndExpr es \<Rightarrow> es | _ \<Rightarrow> [q]"
  let ?w = "w\<lparr>w_z3 := (w_z3 w)\<lparr>z3_assertions := []\<rparr>\<rparr>"
  have ok: "\<forall>c\<in>set ?cs. formula c \<and> translatable (w_builder ?w) c"
    using assms(2,3) translatable_children[OF assms(3)] by (cases q) (auto simp: formula_def list_all_iff)
  have h: "(\<forall>c\<in>set ?cs. holds F \<rho> c) \<longleftrightarrow> holds F \<rho> q" for \<rho>
    by (cases q) (simp_all add: list_all_iff)
  obtain zs where zs: "add_simplified Z E ?cs ?w = Inr ((), ?w\<lparr>w_z3 := (w_z3 ?w)\<lparr>z3_assertions := z3_assertions (w_z3 ?w) @ zs\<rparr>\<rparr>)"
    "\<forall>\<eta>. (\<forall>z\<in>set zs. zval S \<eta> z \<noteq> 0) \<longleftrightarrow> (\<forall>c\<in>set ?cs. holds F (env_names (w_builder ?w) \<eta>) c)"
    using add_simplified_spec[OF assms(1) ok] by blast
  have "check Z E q w = Inr (answer_of (z_check E (z3_checks (w_z3 w)) zs),
      w\<lparr>w_z3 := \<lparr>z3_assertions = zs, z3_checks = z3_checks (w_z3 w) + 1\<rparr>\<rparr>)"
    using zs(1) by (simp add: check_def bnd_def z3_reset_def z3_check_def ret_apply answer_of_def)
  moreover have "\<forall>\<eta>. (\<forall>z\<in>set zs. zval S \<eta> z \<noteq> 0) \<longleftrightarrow> holds F (env_names (w_builder w) \<eta>) q"
    using zs(2) h by simp
  ultimately show ?thesis by (rule that)
qed

lemma check_spec:
  assumes "z3_sound Z S" "engine_sound E S" "binv A (w_builder w)" "formula q" "translatable (w_builder w) q"
  shows "\<exists>r u. check Z E q w = Inr (r, w\<lparr>w_z3 := u\<rparr>) \<and> (r = UNSAT \<longrightarrow> \<not> sat F {q}) \<and> (r = SAT \<longrightarrow> sat F {q})"
proof -
  obtain zs where zs: "check Z E q w = Inr (answer_of (z_check E (z3_checks (w_z3 w)) zs),
      w\<lparr>w_z3 := \<lparr>z3_assertions = zs, z3_checks = z3_checks (w_z3 w) + 1\<rparr>\<rparr>)"
    "\<forall>\<eta>. (\<forall>z\<in>set zs. zval S \<eta> z \<noteq> 0) \<longleftrightarrow> holds F (env_names (w_builder w) \<eta>) q"
    by (rule check_run[OF assms(1,4,5)])
  have "sat F {q} \<longleftrightarrow> (\<exists>\<eta>. \<forall>z\<in>set zs. zval S \<eta> z \<noteq> 0)"
    using zs(2) sat_names[OF assms(3), of "{q}" F] assms(5) by simp
  then have "answer_of (z_check E k zs) = UNSAT \<longrightarrow> \<not> sat F {q}" "answer_of (z_check E k zs) = SAT \<longrightarrow> sat F {q}" for k
    using assms(2) unfolding engine_sound_def by (auto simp: answer_of_def split: z3_answer.splits)
  with zs(1) show ?thesis by blast
qed

section \<open>Conjunctions stay in the fragment\<close>

lemma translatable_and: "es \<noteq> [] \<Longrightarrow> translatable b (BoolAndExpr es) \<longleftrightarrow> (\<forall>x\<in>set es. translatable b x)"
  unfolding translatable.simps[of b "BoolAndExpr es"] by (simp add: tr_node_ok_def)

lemma translatable_bool_const [simp]: "translatable b (BoolConst p)"
  unfolding translatable.simps[of b "BoolConst p"] by (simp add: tr_node_ok_def is_fp_def)

text \<open>A property that a conjunction has exactly when its operands have it, and that the constants have.\<close>

definition and_closed :: "(expr \<Rightarrow> bool) \<Rightarrow> bool" where
  "and_closed Q \<longleftrightarrow> (\<forall>p. Q (BoolConst p)) \<and> (\<forall>es. es \<noteq> [] \<longrightarrow> Q (BoolAndExpr es) = (\<forall>x\<in>set es. Q x))"

lemma and_closedD: "and_closed Q \<Longrightarrow> Q (BoolConst p)" "and_closed Q \<Longrightarrow> es \<noteq> [] \<Longrightarrow> Q (BoolAndExpr es) \<longleftrightarrow> (\<forall>x\<in>set es. Q x)"
  by (auto simp: and_closed_def)

lemma and_closed_translatable: "and_closed (translatable b)"
  by (simp add: and_closed_def translatable_and)

lemma goc_and_closed:
  assumes "and_closed Q" "\<forall>x\<in>set es. formula x \<and> Q x" "es \<noteq> []"
  shows "builds A (get_or_create A (BoolAndExpr es)) Q"
  using assms by (intro get_or_create_builds) (auto simp: and_closedD formula_def list_all_iff)

lemma mk_bool_and_no_simpl_closed:
  assumes "and_closed Q" "\<forall>x\<in>set es. formula x \<and> Q x"
  shows "builds A (mk_bool_and_no_simpl A es) Q"
proof -
  let ?es = "ptr_set A es"
  have s: "\<forall>x\<in>set ?es. formula x \<and> Q x" using assms(2) by simp
  consider "?es = []" | e where "?es = [e]" | e e' es' where "?es = e # e' # es'"
    by (cases "?es"; cases "tl ?es") auto
  then show ?thesis
  proof cases
    case 3
    with goc_and_closed[OF assms(1) s, of A] show ?thesis by (simp add: mk_bool_and_no_simpl_def)
  qed (use s and_closedD(1)[OF assms(1)] in \<open>auto simp: mk_bool_and_no_simpl_def mk_true_def\<close>)
qed

lemma mk_bool_and_closed:
  assumes Q: "and_closed Q" and "formula a \<and> Q a" "formula c \<and> Q c"
  shows "builds A (mk_bool_and A a c) Q"
proof -
  have els: "\<forall>x\<in>set (bool_and_els e). formula x \<and> Q x" if "formula e \<and> Q e" for e
  proof (cases "\<exists>es. e = BoolAndExpr es")
    case True
    then obtain es where e: "e = BoolAndExpr es" by blast
    with that and_closedD(2)[OF Q, of es] show ?thesis
      by (cases "es = []") (auto simp: e bool_and_els_def formula_def list_all_iff)
  next
    case False
    with that show ?thesis by (cases e) (auto simp: bool_and_els_def)
  qed
  let ?es = "ptr_set A (bool_and_els a @ bool_and_els c)"
  let ?fs = "filter (\<lambda>e. dest_bool e = None) ?es"
  have s: "\<forall>x\<in>set ?fs. formula x \<and> Q x" using els[OF assms(2)] els[OF assms(3)] by auto
  note k = and_closedD(1)[OF Q]
  consider "?fs = []" | e where "?fs = [e]" | e e' es' where "?fs = e # e' # es'"
    by (cases "?fs"; cases "tl ?fs") auto
  then show ?thesis
  proof cases
    case 2
    with s k show ?thesis by (auto simp: mk_bool_and_def Let_def mk_false_def)
  next
    case 3
    have "\<forall>x\<in>set (sort_addr A ?fs). formula x \<and> Q x" using s by simp
    moreover have "sort_addr A ?fs \<noteq> []" using 3 by (metis set_sort_addr list.set_intros(1) list.set(1) empty_iff)
    ultimately have "builds A (get_or_create A (BoolAndExpr (sort_addr A ?fs))) Q"
      by (rule goc_and_closed[OF Q])
    with 3 k show ?thesis by (auto simp: mk_bool_and_def Let_def mk_false_def)
  qed (use k in \<open>auto simp: mk_bool_and_def Let_def mk_false_def mk_true_def\<close>)
qed

lemma and_all_closed:
  assumes "and_closed Q" "\<forall>x\<in>set cs. formula x \<and> Q x" "formula e \<and> Q e"
  shows "builds A (and_all A e cs) Q"
  using assms(2,3)
proof (induction cs arbitrary: e)
  case (Cons c cs)
  then have f: "formula e" "formula c" by simp_all
  from builds_conj[OF mk_bool_and_asserts[OF f, of A] mk_bool_and_closed[OF assms(1), of e c A]] Cons
  show ?case by (auto simp: asserts_def formula_def elim!: builds_bnd)
qed (simp add: builds_ret)

section \<open>The query of a state\<close>

definition slice_ok :: "builder \<Rightarrow> constraint_manager \<Rightarrow> bool" where
  "slice_ok b cm \<longleftrightarrow> cm_inv cm \<and> (\<forall>c\<in>set (m_constraints cm). translatable b c)"

lemma cm_pi_query:
  assumes "slice_ok b cm"
  shows "wbuilds A (cm_pi A cm e) (\<lambda>p. asserts A (\<lambda>\<rho>. \<forall>c\<in>query_slice cm e. holds (fpl A) \<rho> c) p \<and> translatable b p)"
proof (rule cm_pi_wbuilds)
  show inv: "cm_inv cm" using assms by (simp add: slice_ok_def)
  fix es
  assume e: "set es = query_slice cm e"
  then have f: "\<forall>c\<in>set es. formula c \<and> translatable b c"
    using slice_formula[OF inv] assms by (auto simp: slice_ok_def query_slice_def)
  then have "\<forall>c\<in>set es. formula c" by simp
  from builds_conj[OF mk_bool_and_no_simpl_asserts[OF this, of A] mk_bool_and_no_simpl_closed[OF and_closed_translatable f, of A]]
  show "builds A (mk_bool_and_no_simpl A es)
      (\<lambda>p. asserts A (\<lambda>\<rho>. \<forall>c\<in>query_slice cm e. holds (fpl A) \<rho> c) p \<and> translatable b p)"
    unfolding e .
qed

definition query_of :: "amb \<Rightarrow> constraint_manager \<Rightarrow> expr \<Rightarrow> builder \<Rightarrow> expr \<Rightarrow> bool" where
  "query_of A cm c b q \<longleftrightarrow> formula q \<and> translatable b q \<and>
     (\<forall>\<rho>. holds (fpl A) \<rho> q \<longleftrightarrow> (\<forall>d\<in>insert c (query_slice cm c). holds (fpl A) \<rho> d))"

lemma query_builds:
  assumes "slice_ok b cm" "formula c" "translatable b c"
  shows "wbuilds A (bnd (cm_pi A cm c) (\<lambda>p. in_builder (mk_bool_and A p c))) (query_of A cm c b)"
proof (rule wbuilds_bnd[OF cm_pi_query[OF assms(1)]], rule wbuilds_builder)
  fix p
  assume p: "asserts A (\<lambda>\<rho>. \<forall>c\<in>query_slice cm c. holds (fpl A) \<rho> c) p \<and> translatable b p"
  then have f: "formula p" by (simp add: asserts_def formula_def)
  from builds_conj[OF mk_bool_and_asserts[OF f assms(2), of A] mk_bool_and_closed[OF and_closed_translatable, of p b c A]]
  show "builds A (mk_bool_and A p c) (query_of A cm c b)"
    using f p assms by (auto simp: query_of_def asserts_def formula_def elim!: builds_conseq)
qed

lemma sat_query:
  assumes "cm_inv cm" "query_of A cm c b q"
  shows "\<not> sat (fpl A) {q} \<Longrightarrow> \<not> sat (fpl A) (insert c (set (m_constraints cm)))"
    and "sat (fpl A) {q} \<Longrightarrow> sat (fpl A) (insert c (query_slice cm c))"
  using assms(2) unfolding sat_def query_of_def by (auto simp: query_slice_def)

section \<open>Evaluation under the cached model\<close>

text \<open>
  Evaluation of a query under the cached model, which may have values for some of its symbols only: either every symbol
  has a value, or the calls of the builder that the evaluation makes meet the side conditions of the builder.
\<close>

definition eval_sound :: "amb \<Rightarrow> (nat \<Rightarrow> bvconst option) \<Rightarrow> expr \<Rightarrow> builder \<Rightarrow> bool" where
  "eval_sound A m e b \<longleftrightarrow> evaluable m False e \<or> sound_calls A m e b"

lemma evaluable_syms: "evaluable m False e \<Longrightarrow> syms e \<subseteq> dom m"
proof (induction e rule: measure_induct_rule[where f = size])
  case (less e)
  have n: "node_ok m False e" and k: "\<forall>x\<in>set (children e). evaluable m False x"
    using less.prems by (simp_all add: evaluable.simps[of _ _ e])
  show ?case
  proof (cases "kind e = K_SYM")
    case True
    with n show ?thesis by (cases e) (auto simp: node_ok_def split: option.splits)
  next
    case False
    with less.IH k children_size show ?thesis unfolding syms_children[OF False] by blast
  qed
qed

lemma upd_env_agree: "syms e \<subseteq> dom m \<Longrightarrow> sem F (upd_env m \<rho>) e = sem F (env_of m) e"
  by (rule sem_coincidence) (auto simp: upd_env_def env_of_def split: option.splits)

lemma eval_formula:
  fixes w :: "'z z3_solver world"
  assumes "world_ok A w" "formula c" "eval_sound A m c (w_builder w)"
  obtains v b1 where "building (evaluate A c m False) (s, w) = Inr (v, (s, w\<lparr>w_builder := b1\<rparr>))"
    "world_ok A (w\<lparr>w_builder := b1\<rparr>)" "same_syms (w_builder w) b1" "asserts A (\<lambda>\<rho>. holds (fpl A) (upd_env m \<rho>) c) v"
proof -
  have f: "wf_expr c" "is_bool c" using assms(2) by (simp_all add: formula_def)
  have b: "binv A (w_builder w)" using assms(1) by (simp add: world_ok_def)
  have "\<exists>v b1. evaluate A c m False (w_builder w) = Inr (v, b1) \<and> binv A b1 \<and> same_syms (w_builder w) b1 \<and>
      asserts A (\<lambda>\<rho>. holds (fpl A) (upd_env m \<rho>) c) v"
  proof (cases "evaluable m False c")
    case True
    note agree = upd_env_agree[OF evaluable_syms[OF True]]
    from evaluate_result[OF b f(1) True] f(2) show ?thesis
      by (auto simp: result_bool asserts_def agree)
  next
    case False
    with assms(3) have "sound_calls A m c (w_builder w)" by (simp add: eval_sound_def)
    from evaluate_residual[OF b f(1) this] f(2) show ?thesis by (simp add: residual_bool)
  qed
  then obtain v b1 where v: "evaluate A c m False (w_builder w) = Inr (v, b1)" "binv A b1" "same_syms (w_builder w) b1"
      "asserts A (\<lambda>\<rho>. holds (fpl A) (upd_env m \<rho>) c) v" by blast
  show ?thesis
    by (rule that[of v b1]) (use v assms(1) in \<open>simp_all add: building_def in_world_def in_builder_def world_ok_def\<close>)
qed

lemma asserts_true_const: "asserts A P v \<Longrightarrow> is_true_const v \<Longrightarrow> P \<rho>"
  by (cases v) (auto simp: asserts_def is_true_const_def split: if_splits)

lemma asserts_not_const: "asserts A P v \<Longrightarrow> kind v \<noteq> K_CONST"
  by (cases v) (auto simp: asserts_def is_bool_def)

text \<open>The answer of \<open>check_sat\<close> when it leaves the cached model alone.\<close>

definition answer_ok :: "fp_lib \<Rightarrow> (nat \<Rightarrow> bvconst option) \<Rightarrow> constraint_manager \<Rightarrow> expr \<Rightarrow> check_result \<Rightarrow> bool" where
  "answer_ok F m cm c r \<longleftrightarrow>
     (r = UNSAT \<longrightarrow> \<not> sat F (insert c (set (m_constraints cm)))) \<and>
     (r = SAT \<longrightarrow> (\<forall>\<rho>. holds F (upd_env m \<rho>) c) \<or> sat F (insert c (query_slice cm c)))"

lemma answer_true: "(\<And>\<rho>. holds F (upd_env m \<rho>) c) \<Longrightarrow> answer_ok F m cm c SAT"
  by (simp add: answer_ok_def)

lemma check_sat_not_const:
  "kind c \<noteq> K_BOOL_CONST \<Longrightarrow> check_sat A Z E c p = bnd get_solver (\<lambda>s. bnd (building (evaluate A c (m_model s) False)) (\<lambda>v.
     if is_true_const v then ret SAT
     else if kind v = K_CONST then throw (Assertion ''check_sat'')
     else bnd (manager_pi A c) (\<lambda>q. bnd (building (mk_bool_and A q c)) (\<lambda>q.
          bnd (in_world (check Z E q)) (\<lambda>res.
          bnd (if res = SAT \<and> p then populate E else ret ()) (\<lambda>_. ret res))))))"
  unfolding check_sat_def by (cases c) auto

lemma check_sat_spec:
  fixes w :: "'z z3_solver world"
  assumes sound: "z3_sound Z S" "engine_sound E S"
    and w: "world_ok A w" "slice_ok (w_builder w) (m_manager s)"
    and c: "formula c" "translatable (w_builder w) c" "eval_sound A (m_model s) c (w_builder w)"
  shows "\<exists>r w'. check_sat A Z E c False (s, w) = Inr (r, (s, w')) \<and> world_ok A w' \<and>
    same_syms (w_builder w) (w_builder w') \<and> answer_ok (fpl A) (m_model s) (m_manager s) c r"
proof (cases "kind c = K_BOOL_CONST")
  case True
  then obtain p where "c = BoolConst p" by (cases c) simp_all
  with w show ?thesis
    by (cases p) (auto simp: check_sat_def ret_apply answer_ok_def sat_def)
next
  case False
  obtain v b1 where v: "building (evaluate A c (m_model s) False) (s, w) = Inr (v, (s, w\<lparr>w_builder := b1\<rparr>))"
    "world_ok A (w\<lparr>w_builder := b1\<rparr>)" "same_syms (w_builder w) b1" "asserts A (\<lambda>\<rho>. holds (fpl A) (upd_env (m_model s) \<rho>) c) v"
    by (rule eval_formula[OF w(1) c(1,3)])
  let ?w = "w\<lparr>w_builder := b1\<rparr>"
  show ?thesis
  proof (cases "is_true_const v")
    case True
    with v(1) False have "check_sat A Z E c False (s, w) = Inr (SAT, (s, ?w))"
      by (simp add: check_sat_not_const bnd_def get_solver_def ret_apply)
    with v(2,3) answer_true[OF asserts_true_const[OF v(4) True]] show ?thesis by auto
  next
    case no: False
    have sl: "cm_inv (m_manager s)" using w(2) by (simp add: slice_ok_def)
    obtain q w2 where q: "bnd (cm_pi A (m_manager s) c) (\<lambda>p. in_builder (mk_bool_and A p c)) ?w = Inr (q, w2)" "world_ok A w2"
      "same_syms b1 (w_builder w2)" "query_of A (m_manager s) c (w_builder w) q"
      by (rule wbuildsE[OF query_builds[OF w(2) c(1,2)] v(2)]) simp
    have "same_syms (w_builder w) (w_builder w2)" using v(3) q(3) by (rule same_syms_trans)
    then have "m_sym_id_to_name (w_builder w2) = m_sym_id_to_name (w_builder w)" by (simp add: same_syms_def)
    then have "translatable (w_builder w2) q" "formula q"
      using q(4) translatable_syms[of "w_builder w" q "w_builder w2"] by (auto simp: query_of_def)
    then obtain r u where r: "check Z E q w2 = Inr (r, w2\<lparr>w_z3 := u\<rparr>)" "r = UNSAT \<longrightarrow> \<not> sat (fpl A) {q}" "r = SAT \<longrightarrow> sat (fpl A) {q}"
      using check_spec[OF sound, of A w2 q "fpl A"] q(2) by (auto simp: world_ok_def)
    have "check_sat A Z E c False (s, w) = Inr (r, (s, w2\<lparr>w_z3 := u\<rparr>))"
      using v(1) no asserts_not_const[OF v(4)] q(1) r(1) False
      by (auto simp: check_sat_not_const bnd_def get_solver_def ret_apply manager_pi_def in_world_def
            building_def split: sum.splits)
    moreover have "answer_ok (fpl A) (m_model s) (m_manager s) c r"
      using r(2,3) sat_query[OF sl q(4)] by (auto simp: answer_ok_def)
    ultimately show ?thesis
      using q(2) \<open>same_syms (w_builder w) (w_builder w2)\<close> by (auto simp: world_ok_def)
  qed
qed

end
