(* ===== verification/Z3Instance.thy ===== *)
theory Z3Instance
  imports SolverSpec
begin

unbundle bit_operations_syntax

text \<open>
  The laws assumed of Z3 can hold: in this instance a term is its meaning, a width and a function of the values of the
  names, and the decision procedure is exact.
\<close>

type_synonym meaning = "nat option \<times> ((string \<Rightarrow> int) \<Rightarrow> int)"

definition m_unary :: "(nat \<Rightarrow> int \<Rightarrow> int) \<Rightarrow> meaning \<Rightarrow> meaning" where
  "m_unary g a = (fst a, \<lambda>\<eta>. g (the (fst a)) (snd a \<eta>))"

definition m_binary :: "(nat \<Rightarrow> int \<Rightarrow> int \<Rightarrow> int) \<Rightarrow> meaning \<Rightarrow> meaning \<Rightarrow> meaning" where
  "m_binary g a b = (fst a, \<lambda>\<eta>. g (the (fst a)) (snd a \<eta>) (snd b \<eta>))"

definition m_relation :: "(nat \<Rightarrow> int \<Rightarrow> int \<Rightarrow> bool) \<Rightarrow> meaning \<Rightarrow> meaning \<Rightarrow> meaning" where
  "m_relation r a b = (None, \<lambda>\<eta>. of_bool (r (the (fst a)) (snd a \<eta>) (snd b \<eta>)))"

definition m_num :: "string \<Rightarrow> int" where
  "m_num s = (case mpz_of_string s 10 of Inr v \<Rightarrow> v | Inl _ \<Rightarrow> 0)"

definition meaning_api :: "meaning z3_api" where
  "meaning_api = \<lparr>
     z_bv_const = (\<lambda>s n. (Some n, \<lambda>\<eta>. take_bit n (\<eta> s))),
     z_bv_val = (\<lambda>s n. (Some n, \<lambda>_. take_bit n (m_num s))),
     z_bv_val_u64 = (\<lambda>v n. (Some n, \<lambda>_. take_bit n (uint v))),
     z_bool_val = (\<lambda>p. (None, \<lambda>_. of_bool p)),
     z_extract = (\<lambda>a h l. (Some (h - l + 1), \<lambda>\<eta>. take_bit (h - l + 1) (drop_bit l (snd a \<eta>)))),
     z_concat = (\<lambda>a b. (Some (the (fst a) + the (fst b)), \<lambda>\<eta>. push_bit (the (fst b)) (snd a \<eta>) OR snd b \<eta>)),
     z_zext = (\<lambda>a k. (Some (the (fst a) + k), snd a)),
     z_sext = (\<lambda>a k. (Some (the (fst a) + k), \<lambda>\<eta>. take_bit (the (fst a) + k) (sval (the (fst a)) (snd a \<eta>)))),
     z_ite = (\<lambda>c a b. (fst a, \<lambda>\<eta>. if snd c \<eta> \<noteq> 0 then snd a \<eta> else snd b \<eta>)),
     z_shl = m_binary shl_val, z_lshr = m_binary lshr_val, z_ashr = m_binary ashr_val,
     z_neg = m_unary (\<lambda>n v. take_bit n (- v)), z_not = m_unary (\<lambda>n v. take_bit n (NOT v)),
     z_and = m_binary (\<lambda>n v w. take_bit n (v AND w)), z_or = m_binary (\<lambda>n v w. take_bit n (v OR w)),
     z_xor = m_binary (\<lambda>n v w. take_bit n (v XOR w)), z_add = m_binary (\<lambda>n v w. take_bit n (v + w)),
     z_mul = m_binary (\<lambda>n v w. take_bit n (v * w)), z_div = m_binary (\<lambda>n v w. take_bit n (v div w)),
     z_udiv = m_binary (\<lambda>n v w. take_bit n (v div w)),
     z_lnot = (\<lambda>a. (None, \<lambda>\<eta>. of_bool (snd a \<eta> = 0))),
     z_land = (\<lambda>a b. (None, \<lambda>\<eta>. of_bool (snd a \<eta> \<noteq> 0 \<and> snd b \<eta> \<noteq> 0))),
     z_lor = (\<lambda>a b. (None, \<lambda>\<eta>. of_bool (snd a \<eta> \<noteq> 0 \<or> snd b \<eta> \<noteq> 0))),
     z_ult = m_relation (\<lambda>n v w. v < w), z_ule = m_relation (\<lambda>n v w. v \<le> w),
     z_ugt = m_relation (\<lambda>n v w. v > w), z_uge = m_relation (\<lambda>n v w. v \<ge> w),
     z_slt = m_relation (\<lambda>n v w. sval n v < sval n w), z_sle = m_relation (\<lambda>n v w. sval n v \<le> sval n w),
     z_sgt = m_relation (\<lambda>n v w. sval n v > sval n w), z_sge = m_relation (\<lambda>n v w. sval n v \<ge> sval n w),
     z_eq = m_relation (\<lambda>n v w. v = w), z_lt = m_relation (\<lambda>n v w. v < w), z_distinct = m_relation (\<lambda>n v w. v \<noteq> w),
     z_from_ieee_bv = (\<lambda>a _. a), z_to_ieee_bv = (\<lambda>a. a), z_fpa_to_fpa = (\<lambda>a _. a), z_sbv_to_fpa = (\<lambda>a _. a),
     z_fpa_nan = (\<lambda>_. (None, \<lambda>_. 0)), z_simplify = (\<lambda>a. a)\<rparr>"

definition meaning_sem :: "meaning z3_sem" where
  "meaning_sem = \<lparr>zval = (\<lambda>\<eta> a. snd a \<eta>), zw = fst\<rparr>"

definition meaning_engine :: "meaning z3_engine" where
  "meaning_engine = \<lparr>z_check = (\<lambda>_ as. if \<exists>\<eta>. \<forall>a\<in>set as. snd a \<eta> \<noteq> 0 then Z3_sat else Z3_unsat),
     z_model = (\<lambda>_ _. []), z_fract = (\<lambda>_ v. v)\<rparr>"

lemma m_num_digits: "m_num (digits 10 v) = int v"
  using parse_digits(2)[of 10 v] by (simp add: m_num_def)

lemma meaning_leaves: "z3_leaves meaning_api meaning_sem"
  by (simp add: z3_leaves_def bvt_def bt_def meaning_api_def meaning_sem_def m_num_digits)

lemma meaning_structure: "z3_structure meaning_api meaning_sem"
  by (simp add: z3_structure_def bvt_def bt_def meaning_api_def meaning_sem_def)

lemma meaning_arith: "z3_arith meaning_api meaning_sem"
  by (simp add: z3_arith_def bv_unary_def bv_binary_def bvt_def meaning_api_def meaning_sem_def m_unary_def m_binary_def)

lemma meaning_logic: "z3_logic meaning_api meaning_sem"
  by (simp add: z3_logic_def bv_relation_def bvt_def bt_def meaning_api_def meaning_sem_def m_relation_def)

lemma meaning_sound: "z3_sound meaning_api meaning_sem"
  by (simp add: z3_sound_def meaning_leaves meaning_structure meaning_arith meaning_logic)

lemma meaning_engine_sound: "engine_sound meaning_engine meaning_sem"
  by (simp add: engine_sound_def meaning_engine_def meaning_sem_def)

end
