(* ===== verification/SolverInv.thy ===== *)
theory SolverInv
  imports SolverSpec
begin

text \<open>
  The invariant of the solver of a state: the cached model extends every solution of the constraints it does not touch
  to a solution of all of them. It makes the answers from the cached model sound, and adding a constraint keeps it
  because the model forgets everything the new constraint depends on.
\<close>

definition model_inv :: "fp_lib \<Rightarrow> (nat \<Rightarrow> bvconst option) \<Rightarrow> expr set \<Rightarrow> bool" where
  "model_inv F m C \<longleftrightarrow> (\<forall>\<rho>. (\<forall>d\<in>C. syms d \<inter> dom m = {} \<longrightarrow> holds F \<rho> d) \<longrightarrow> (\<forall>d\<in>C. holds F (upd_env m \<rho>) d))"

lemma model_inv_empty: "model_inv F Map.empty C"
proof -
  have "upd_env Map.empty \<rho> = \<rho>" for \<rho> by (simp add: upd_env_def fun_eq_iff)
  then show ?thesis by (simp add: model_inv_def)
qed

lemma upd_env_untouched: "syms e \<inter> dom m = {} \<Longrightarrow> sem F (upd_env m \<rho>) e = sem F \<rho> e"
  by (rule sem_coincidence) (auto simp: upd_env_def split: option.splits)

text \<open>A query that holds under the cached model is satisfiable together with all constraints, if they are.\<close>

lemma model_inv_sat:
  assumes "model_inv F m C" "sat F C" "\<And>\<rho>. holds F (upd_env m \<rho>) c"
  shows "sat F (insert c C)"
proof -
  obtain \<rho> where "\<forall>d\<in>C. holds F \<rho> d" using assms(2) by (auto simp: sat_def)
  then have "\<forall>d\<in>C. holds F (upd_env m \<rho>) d" using assms(1) by (auto simp: model_inv_def)
  with assms(3)[of \<rho>] show ?thesis by (auto simp: sat_def)
qed

text \<open>Forgetting a set of symbols that no other constraint mixes with the rest.\<close>

lemma model_inv_forget:
  assumes inv: "model_inv F m C" and m': "m' = (\<lambda>i. if i \<in> X then None else m i)"
    and X: "\<forall>d\<in>C'. syms d \<subseteq> X \<or> syms d \<inter> X = {}" and old: "\<forall>d\<in>C' - C. syms d \<subseteq> X" and sub: "C \<subseteq> C'"
  shows "model_inv F m' C'"
  unfolding model_inv_def
proof (intro allI impI ballI)
  fix \<rho> d
  assume \<rho>: "\<forall>d\<in>C'. syms d \<inter> dom m' = {} \<longrightarrow> holds F \<rho> d" and d: "d \<in> C'"
  show "holds F (upd_env m' \<rho>) d"
  proof (cases "syms d \<subseteq> X")
    case True
    then have "syms d \<inter> dom m' = {}" by (auto simp: m' split: if_splits)
    with \<rho> d show ?thesis by (simp add: upd_env_untouched)
  next
    case False
    with X d have dX: "syms d \<inter> X = {}" by blast
    have "d \<in> C" using False old d by blast
    have "\<forall>d\<in>C. syms d \<inter> dom m = {} \<longrightarrow> holds F \<rho> d"
    proof (intro ballI impI)
      fix e
      assume "e \<in> C" "syms e \<inter> dom m = {}"
      moreover have "dom m' \<subseteq> dom m" by (auto simp: m' split: if_splits)
      ultimately show "holds F \<rho> e" using \<rho> sub by blast
    qed
    with inv \<open>d \<in> C\<close> have "holds F (upd_env m \<rho>) d" by (simp add: model_inv_def)
    moreover have "sem F (upd_env m' \<rho>) d = sem F (upd_env m \<rho>) d"
      using dX by (intro sem_coincidence) (auto simp: upd_env_def m')
    ultimately show ?thesis by simp
  qed
qed

section \<open>Adding a constraint\<close>

definition solver_ok :: "amb \<Rightarrow> builder \<Rightarrow> solver \<Rightarrow> bool" where
  "solver_ok A b s \<longleftrightarrow> slice_ok b (m_manager s) \<and> model_inv (fpl A) (m_model s) (set (m_constraints (m_manager s)))"

lemma solver_ok_init: "solver_ok A b Solver_init"
  by (simp add: solver_ok_def Solver_init_def slice_ok_def cm_inv_init model_inv_empty)
    (simp add: ConstraintManager_init_def)

lemma fold_forget: "fold (\<lambda>s_id m. m(s_id := None)) ids m = (\<lambda>i. if i \<in> set ids then None else m i)"
  by (induction ids arbitrary: m) (auto simp: fun_eq_iff)

lemma closure_separates:
  assumes "cm_inv cm" "d \<in> set (m_constraints cm)"
  shows "syms d \<subseteq> closure cm c \<or> syms d \<inter> closure cm c = {}"
  using slice_inside[OF assms(1), of d c] assms(2) by (auto simp: query_slice_def)

lemma is_true_const_iff [simp]: "is_true_const c \<longleftrightarrow> c = BoolConst True"
  by (cases c) (simp_all add: is_true_const_def)

lemma solver_add_spec:
  assumes ok: "solver_ok A (w_builder w) s" "involved_ok (w_involved w)" "formula c" "translatable (w_builder w) c"
  obtains s' w' where "solver_add A c (s, w) = Inr ((), (s', w'))" "solver_ok A (w_builder w) s'"
    "involved_ok (w_involved w')" "w_builder w' = w_builder w" "w_z3 w' = w_z3 w"
    "m_model s' = (\<lambda>i. if i \<in> closure (m_manager s') c then None else m_model s i)"
    "set (m_constraints (m_manager s')) =
      (if c = BoolConst True then set (m_constraints (m_manager s)) else insert c (set (m_constraints (m_manager s))))"
proof -
  have inv: "cm_inv (m_manager s)" and tr: "\<forall>d\<in>set (m_constraints (m_manager s)). translatable (w_builder w) d"
    and mi: "model_inv (fpl A) (m_model s) (set (m_constraints (m_manager s)))"
    using ok(1) by (simp_all add: solver_ok_def slice_ok_def)
  have "\<exists>cm' g'. (if is_true_const c then ret () else manager_add A c) (s, w) = Inr ((), (s\<lparr>m_manager := cm'\<rparr>, w\<lparr>w_involved := g'\<rparr>))
      \<and> cm_inv cm' \<and> involved_ok g' \<and> set (m_constraints cm') =
      (if c = BoolConst True then set (m_constraints (m_manager s)) else insert c (set (m_constraints (m_manager s))))"
  proof (cases "c = BoolConst True")
    case True
    with inv ok(2) show ?thesis
      by (intro exI[of _ "m_manager s"] exI[of _ "w_involved w"]) (simp add: ret_apply)
  next
    case False
    obtain cm' g' where "cm_add A c (m_manager s) (w_involved w) = (cm', g')" "cm_inv cm'" "involved_ok g'"
      "set (m_constraints cm') = insert c (set (m_constraints (m_manager s)))"
      using cm_add_spec[OF inv ok(2,3)] by blast
    with False show ?thesis by (auto simp: manager_add_def)
  qed
  then obtain cm' g' where
    add: "(if is_true_const c then ret () else manager_add A c) (s, w) = Inr ((), (s\<lparr>m_manager := cm'\<rparr>, w\<lparr>w_involved := g'\<rparr>))"
    and cm': "cm_inv cm'" and g': "involved_ok g'" and set: "set (m_constraints cm') =
      (if c = BoolConst True then set (m_constraints (m_manager s)) else insert c (set (m_constraints (m_manager s))))"
    by blast
  obtain ids g2 where deps: "get_dependencies cm' c g' = (ids, g2)" "set ids = closure cm' c" "involved_ok g2"
    using get_dependencies_spec[OF g'] by blast
  let ?s = "s\<lparr>m_manager := cm', m_model := (\<lambda>i. if i \<in> closure cm' c then None else m_model s i)\<rparr>"
  have run: "solver_add A c (s, w) = Inr ((), (?s, w\<lparr>w_involved := g2\<rparr>))"
    using add deps by (simp add: solver_add_def solver_add_inv_def bnd_def dependencies_def get_solver_def set_model_def fold_forget cong: if_cong)
  have "model_inv (fpl A) (m_model ?s) (set (m_constraints cm'))"
  proof (rule model_inv_forget[OF mi, of _ "closure cm' c"])
    show "\<forall>d\<in>set (m_constraints cm'). syms d \<subseteq> closure cm' c \<or> syms d \<inter> closure cm' c = {}"
      using closure_separates[OF cm'] by blast
    show "\<forall>d\<in>set (m_constraints cm') - set (m_constraints (m_manager s)). syms d \<subseteq> closure cm' c"
      using set closure_syms[of c cm'] by (auto split: if_splits)
  qed (use set in auto)
  then have "solver_ok A (w_builder w) ?s"
    using cm' tr ok(4) set by (auto simp: solver_ok_def slice_ok_def)
  then show ?thesis by (rule that[OF run]) (simp_all add: deps(3) set)
qed

section \<open>Queries\<close>

lemma check_sat_sound:
  fixes w :: "'z z3_solver world"
  assumes sound: "z3_sound Z S" "engine_sound E S"
    and w: "world_ok A w" "solver_ok A (w_builder w) s"
    and c: "formula c" "translatable (w_builder w) c" "eval_sound A (m_model s) c (w_builder w)"
    and path: "sat (fpl A) (set (m_constraints (m_manager s)))"
  shows "\<exists>r w'. check_sat A Z E c False (s, w) = Inr (r, (s, w')) \<and> world_ok A w' \<and> same_syms (w_builder w) (w_builder w') \<and>
    (r = UNSAT \<longrightarrow> \<not> sat (fpl A) (insert c (set (m_constraints (m_manager s))))) \<and>
    (r = SAT \<longrightarrow> sat (fpl A) (insert c (set (m_constraints (m_manager s)))))"
proof -
  let ?C = "set (m_constraints (m_manager s))"
  have sl: "slice_ok (w_builder w) (m_manager s)" and inv: "cm_inv (m_manager s)" and mi: "model_inv (fpl A) (m_model s) ?C"
    using w(2) by (simp_all add: solver_ok_def slice_ok_def)
  have "sat (fpl A) (insert c ?C)" if "r = SAT" "answer_ok (fpl A) (m_model s) (m_manager s) c r" for r
  proof (cases "\<forall>\<rho>. holds (fpl A) (upd_env (m_model s) \<rho>) c")
    case True
    then show ?thesis by (intro model_inv_sat[OF mi path]) blast
  next
    case False
    have "sat (fpl A) (?C - query_slice (m_manager s) c)" using path by (auto simp: sat_def)
    moreover have "sat (fpl A) (insert c (query_slice (m_manager s) c))" using that False by (simp add: answer_ok_def)
    ultimately show ?thesis by (rule slice_sat[OF inv])
  qed
  with check_sat_spec[OF sound w(1) sl c] show ?thesis by (fastforce simp: answer_ok_def)
qed

end
