(* ===== verification/Solver_Properties.thy ===== *)
theory Solver_Properties
  imports Z3Instance SolverInv Evaluate_Properties
begin

text \<open>
  The properties of the path constraints: printing of constants, slicing, the translation to Z3 and the queries.
\<close>

section \<open>Printing\<close>

text \<open>Printing a constant of at most 4000 bits, in decimal or hexadecimal, and constructing a constant of the
  same width from the text gives a constant of the same value.\<close>

theorem bv_print_parse:
  assumes "bv_rep n v c" and "n \<le> 4000"
  shows "\<exists>s c'. bv_to_string hex c = Inr s \<and> BVConst_str s n = Inr c' \<and> bv_rep n v c'"
  using print_parse[OF assms] by (auto simp: bv_yields_def)

theorem bv_print_parse_witness:
  "\<exists>s c'. bv_to_string True (small_const 16 0xBEEF) = Inr s \<and> BVConst_str s 16 = Inr c' \<and> bv_rep 16 0xBEEF c'"
proof -
  have "bv_rep 16 0xBEEF (small_const 16 0xBEEF)"
    by (simp add: bv_rep_def bv_ok_def small_const_def bv_val_def)
  from bv_print_parse[OF this] show ?thesis by simp
qed

section \<open>Slicing\<close>

text \<open>The states of a manager: constraints are added, and queries fill the cache of involved symbols.\<close>

inductive cm_reach :: "amb \<Rightarrow> constraint_manager \<Rightarrow> involved \<Rightarrow> bool" for A where
  init: "cm_reach A ConstraintManager_init Map.empty"
| add: "cm_reach A cm g \<Longrightarrow> formula c \<Longrightarrow> cm_add A c cm g = (cm', g') \<Longrightarrow> cm_reach A cm' g'"
| query: "cm_reach A cm g \<Longrightarrow> get_dependencies cm e g = (ids, g') \<Longrightarrow> cm_reach A cm g'"

lemma cm_reach_inv: "cm_reach A cm g \<Longrightarrow> cm_inv cm \<and> involved_ok g"
proof (induction rule: cm_reach.induct)
  case init
  then show ?case by (simp add: cm_inv_init involved_ok_def)
next
  case (add cm g c cm' g')
  then obtain cm2 g2 where "cm_add A c cm g = (cm2, g2)" "cm_inv cm2" "involved_ok g2"
    using cm_add_spec[of cm g c A] by blast
  with add show ?case by simp
next
  case (query cm g e ids g')
  then obtain ids2 g2 where "get_dependencies cm e g = (ids2, g2)" "involved_ok g2"
    using get_dependencies_spec[of g cm e] by blast
  with query show ?case by simp
qed

lemma reach_world: "cm_reach A cm (w_involved w) \<Longrightarrow> binv A (w_builder w) \<Longrightarrow> cm_inv cm \<and> world_ok A w"
  using cm_reach_inv by (auto simp: world_ok_def)

text \<open>The symbols connected with an expression: those reached from its own through constraints that mention both ends.\<close>

definition connected :: "expr set \<Rightarrow> expr \<Rightarrow> nat set" where
  "connected C e = (\<Union>c\<in>C. syms c \<times> syms c)\<^sup>* `` syms e"

lemma closure_connected: "cm_inv cm \<Longrightarrow> closure cm e = connected (set (m_constraints cm)) e"
  by (simp add: closure_def connected_def cm_inv_def)

text \<open>C36: the dependencies of an expression are exactly the symbols reachable from its own through the constraints that
  were added, whatever the order of the additions and whatever the cache of involved symbols holds.\<close>

theorem get_dependencies_reachable:
  assumes "cm_reach A cm g"
  shows "set (fst (get_dependencies cm e g)) = connected (set (m_constraints cm)) e"
proof -
  have inv: "cm_inv cm" "involved_ok g" using cm_reach_inv[OF assms] by blast+
  obtain ids g' where d: "get_dependencies cm e g = (ids, g')" "set ids = closure cm e"
    by (rule get_dependencies_spec[OF inv(2)])
  show ?thesis unfolding d(1) fst_conv d(2) by (rule closure_connected[OF inv(1)])
qed

definition below32 :: "nat \<Rightarrow> 64 word \<Rightarrow> expr" where
  "below32 i k = UltExpr (sym32 i) (ConstExpr (small_const 32 k))"

lemma below32_formula: "uint k < 2 ^ 32 \<Longrightarrow> formula (below32 i k)"
  by (simp add: formula_def below32_def sym32_def small_const_def bv_ok_def BVConst_copy_def)

lemma below32_syms [simp]: "syms (below32 i k) = {i}"
  by (simp add: below32_def sym32_def syms_children)

definition less32 :: "nat \<Rightarrow> nat \<Rightarrow> expr" where
  "less32 i j = UltExpr (sym32 i) (sym32 j)"

lemma less32_formula: "formula (less32 i j)"
  by (simp add: formula_def less32_def sym32_def)

lemma less32_syms [simp]: "syms (less32 i j) = {i, j}"
  by (auto simp: less32_def sym32_def syms_children)

text \<open>Two constraints, on symbols 0 and 1, and on symbol 2.\<close>

lemma two_constraints:
  obtains cm g where "cm_reach sample_env cm g" "set (m_constraints cm) = {less32 0 1, below32 2 9}"
proof -
  obtain cm1 g1 where 1: "cm_add sample_env (less32 0 1) ConstraintManager_init Map.empty = (cm1, g1)"
    "set (m_constraints cm1) = {less32 0 1}"
    by (rule cm_add_spec[OF cm_inv_init _ less32_formula, of Map.empty sample_env 0 1])
      (simp_all add: involved_ok_def, simp add: ConstraintManager_init_def)
  have r1: "cm_reach sample_env cm1 g1" by (rule cm_reach.add[OF cm_reach.init less32_formula 1(1)])
  have f: "formula (below32 2 9)" by (simp add: below32_formula)
  obtain cm2 g2 where 2: "cm_add sample_env (below32 2 9) cm1 g1 = (cm2, g2)"
    "set (m_constraints cm2) = insert (below32 2 9) {less32 0 1}"
    using cm_reach_inv[OF r1] cm_add_spec[of cm1 g1 "below32 2 9" sample_env] f 1(2) by metis
  with cm_reach.add[OF r1 f 2(1)] that show ?thesis by auto
qed

lemma two_connected: "connected {less32 0 1, below32 2 9} (below32 0 5) = {0, 1}"
proof -
  have step: "t \<in> {0, 1}" if "(s, t) \<in> ({0, 1} \<times> {0, 1} \<union> {2} \<times> {2})" "s \<in> {0, 1 :: nat}" for s t using that by auto
  have "t \<in> {0, 1}" if "(0, t) \<in> ({0, 1} \<times> {0, 1} \<union> {2} \<times> {2})\<^sup>*" for t :: nat
    using that by (induction rule: rtrancl_induct) (use step in auto)
  then show ?thesis by (auto simp: connected_def)
qed

theorem get_dependencies_reachable_witness:
  "\<exists>cm g. cm_reach sample_env cm g \<and> set (m_constraints cm) = {less32 0 1, below32 2 9} \<and>
     set (fst (get_dependencies cm (below32 0 5) g)) = {0, 1}"
proof -
  obtain cm g where cm: "cm_reach sample_env cm g" "set (m_constraints cm) = {less32 0 1, below32 2 9}"
    by (rule two_constraints)
  have "set (fst (get_dependencies cm (below32 0 5) g)) = {0, 1}"
    using get_dependencies_reachable[OF cm(1), of "below32 0 5"] unfolding cm(2) two_connected .
  with cm show ?thesis by (intro exI[of _ cm] exI[of _ g] conjI)
qed

text \<open>C8: a query passes to the solver only the constraints connected with it, as one formula, and this is enough: the query
  is satisfiable together with all the constraints exactly when it is satisfiable together with that formula, provided
  that the constraints left out are satisfiable on their own.\<close>

theorem query_slice_enough:
  assumes "cm_reach A cm (w_involved w)" and "binv A (w_builder w)" and "formula e"
  shows "\<exists>q w'. cm_pi A cm e w = Inr (q, w') \<and> formula q \<and>
    (\<forall>\<rho>. holds (fpl A) \<rho> q \<longleftrightarrow> (\<forall>c\<in>set (m_constraints cm). syms c \<inter> connected (set (m_constraints cm)) e \<noteq> {} \<longrightarrow> holds (fpl A) \<rho> c)) \<and>
    (sat (fpl A) (insert e (set (m_constraints cm))) \<longleftrightarrow>
       sat (fpl A) {q, e} \<and> sat (fpl A) {c \<in> set (m_constraints cm). syms c \<inter> connected (set (m_constraints cm)) e = {}})"
proof -
  have inv: "cm_inv cm" and w: "world_ok A w" using reach_world[OF assms(1,2)] by simp_all
  let ?C = "set (m_constraints cm)" and ?Q = "query_slice cm e"
  obtain q w' where q: "cm_pi A cm e w = Inr (q, w')" "asserts A (\<lambda>\<rho>. \<forall>c\<in>?Q. holds (fpl A) \<rho> c) q"
    by (rule wbuildsE[OF cm_pi_spec[OF inv] w])
  have h: "holds (fpl A) \<rho> q \<longleftrightarrow> (\<forall>c\<in>?Q. holds (fpl A) \<rho> c)" for \<rho> using q(2) by (simp add: asserts_def)
  have Q: "?Q = {c \<in> ?C. syms c \<inter> connected ?C e \<noteq> {}}"
    by (simp add: query_slice_def closure_connected[OF inv])
  have rest: "?C - ?Q = {c \<in> ?C. syms c \<inter> connected ?C e = {}}" unfolding Q by blast
  have "sat (fpl A) (insert e ?C) \<longleftrightarrow> sat (fpl A) {q, e} \<and> sat (fpl A) (?C - ?Q)"
  proof
    assume "sat (fpl A) (insert e ?C)"
    then show "sat (fpl A) {q, e} \<and> sat (fpl A) (?C - ?Q)" using h Q by (auto simp: sat_def)
  next
    assume s: "sat (fpl A) {q, e} \<and> sat (fpl A) (?C - ?Q)"
    then have "sat (fpl A) (insert e ?Q)" using h by (auto simp: sat_def)
    with s show "sat (fpl A) (insert e ?C)" using slice_sat[OF inv] by blast
  qed
  moreover have "holds (fpl A) \<rho> q \<longleftrightarrow> (\<forall>c\<in>?C. syms c \<inter> connected ?C e \<noteq> {} \<longrightarrow> holds (fpl A) \<rho> c)" for \<rho>
    unfolding h Q by blast
  moreover have "formula q" using q(2) by (simp add: asserts_def formula_def)
  ultimately show ?thesis using q(1) unfolding rest by blast
qed

theorem query_slice_enough_witness:
  "\<exists>cm (w :: unit world) q w'. set (m_constraints cm) = {less32 0 1, below32 2 9} \<and>
     cm_pi sample_env cm (below32 0 5) w = Inr (q, w') \<and>
     (\<forall>\<rho>. holds (fpl sample_env) \<rho> q \<longleftrightarrow> holds (fpl sample_env) \<rho> (less32 0 1))"
proof -
  obtain cm g where cm: "cm_reach sample_env cm g" "set (m_constraints cm) = {less32 0 1, below32 2 9}"
    by (rule two_constraints)
  let ?w = "\<lparr>w_builder = ExprBuilder_init, w_involved = g, w_z3 = ()\<rparr>"
  have "cm_reach sample_env cm (w_involved ?w)" "binv sample_env (w_builder ?w)" using cm(1) by (simp_all add: binv_init)
  from query_slice_enough[OF this below32_formula[of 5 0]] cm(2) obtain q w' where
    "cm_pi sample_env cm (below32 0 5) ?w = Inr (q, w')"
    "\<forall>\<rho>. holds (fpl sample_env) \<rho> q \<longleftrightarrow> (\<forall>c\<in>{less32 0 1, below32 2 9}. syms c \<inter> {0, 1} \<noteq> {} \<longrightarrow> holds (fpl sample_env) \<rho> c)"
    unfolding cm(2) two_connected by auto
  with cm(2) show ?thesis by (intro exI[of _ cm] exI[of _ ?w] exI[of _ q] exI[of _ w']) simp
qed

text \<open>Without a query the manager returns the conjunction of all its constraints.\<close>

theorem all_constraints_kept:
  assumes "cm_reach A cm (w_involved w)" and "binv A (w_builder w)"
  shows "\<exists>q w'. cm_pi_all A cm w = Inr (q, w') \<and> formula q \<and>
    (\<forall>\<rho>. holds (fpl A) \<rho> q \<longleftrightarrow> (\<forall>c\<in>set (m_constraints cm). holds (fpl A) \<rho> c))"
proof -
  have inv: "cm_inv cm" and w: "world_ok A w" using reach_world[OF assms] by simp_all
  show ?thesis
    by (rule wbuildsE[OF cm_pi_all_spec[OF inv] w]) (auto simp: asserts_def formula_def)
qed

theorem all_constraints_kept_witness:
  "\<exists>cm (w :: unit world) q w'. set (m_constraints cm) = {less32 0 1, below32 2 9} \<and> cm_pi_all sample_env cm w = Inr (q, w') \<and>
     (\<forall>\<rho>. holds (fpl sample_env) \<rho> q \<longleftrightarrow> holds (fpl sample_env) \<rho> (less32 0 1) \<and> holds (fpl sample_env) \<rho> (below32 2 9))"
proof -
  obtain cm g where cm: "cm_reach sample_env cm g" "set (m_constraints cm) = {less32 0 1, below32 2 9}"
    by (rule two_constraints)
  have "cm_reach sample_env cm (w_involved \<lparr>w_builder = ExprBuilder_init, w_involved = g, w_z3 = ()\<rparr>)" using cm(1) by simp
  from all_constraints_kept[OF this] cm(2) show ?thesis by (fastforce simp: binv_init)
qed

section \<open>The translation to Z3\<close>

text \<open>C7: the Z3 term of an expression means the same: under the documented meaning of the constructors of Z3, and for
  every value of the named symbols, the term of a well-formed bit vector of the fragment has its width and its value,
  and the term of a formula its truth value; the translation never fails and leaves the solver as it was.\<close>

theorem to_z3_correct:
  assumes "z3_sound Z S" and "wf_expr e" and "translatable (w_builder w) e"
  shows "\<exists>z. to_z3 Z E e w = Inr (z, w) \<and>
    (is_bv e \<longrightarrow> zw S z = Some (expr_size e) \<and> (\<forall>\<eta>. zval S \<eta> z = sem F (env_names (w_builder w) \<eta>) e)) \<and>
    (is_bool e \<longrightarrow> zw S z = None \<and> (\<forall>\<eta>. zval S \<eta> z = of_bool (holds F (env_names (w_builder w) \<eta>) e)))"
  using to_z3_means[OF assms, of E F] by (auto simp: means_bool means_bv bvt_def bt_def)

lemma named_builder:
  obtains b where "binv sample_env b" "m_sym_id_to_name b 0 = Some ''x''"
proof -
  obtain b where "binv sample_env b" "m_sym_id_to_name b 0 = Some ''x''"
    using mk_sym_fresh[OF binv_init, of "''x''" 32 sample_env] by (auto simp: ExprBuilder_init_def)
  then show ?thesis by (rule that)
qed

lemma small_const_val: "0 < n \<Longrightarrow> n \<le> 64 \<Longrightarrow> uint k < 2 ^ n \<Longrightarrow> bv_val (small_const n k) = uint k"
  by (simp add: bv_val_def small_const_def)

lemma below32_translatable: "m_sym_id_to_name b i \<noteq> None \<Longrightarrow> translatable b (below32 i k)"
  unfolding below32_def sym32_def translatable.simps[of b "UltExpr x y" for x y] translatable.simps[of b "SymExpr j n" for j n]
    translatable.simps[of b "ConstExpr c" for c]
  by (simp add: tr_node_ok_def is_fp_def translatable.simps[of b "SymExpr j n" for j n] translatable.simps[of b "ConstExpr c" for c]
      small_const_def)

lemma below32_holds: "uint k < 2 ^ 32 \<Longrightarrow> holds F \<rho> (below32 i k) \<longleftrightarrow> take_bit 32 (\<rho> i) < uint k"
  by (simp add: below32_def sym32_def small_const_val)

theorem to_z3_correct_witness:
  "\<exists>(w :: meaning z3_solver world) z. to_z3 meaning_api meaning_engine (below32 0 9) w = Inr (z, w) \<and>
     (\<forall>\<eta>. zval meaning_sem \<eta> z = of_bool (take_bit 32 (\<eta> ''x'') < 9))"
proof -
  obtain b where b: "binv sample_env b" "m_sym_id_to_name b 0 = Some ''x''" by (rule named_builder)
  let ?w = "\<lparr>w_builder = b, w_involved = Map.empty, w_z3 = \<lparr>z3_assertions = [], z3_checks = 0\<rparr>\<rparr> :: meaning z3_solver world"
  have f: "wf_expr (below32 0 9)" "is_bool (below32 0 9)"
    using below32_formula[of 9 0] by (simp_all add: formula_def)
  have "translatable (w_builder ?w) (below32 0 9)" using b(2) by (simp add: below32_translatable)
  from to_z3_correct[OF meaning_sound f(1) this, of meaning_engine undefined] f(2) b(2)
  obtain z where "to_z3 meaning_api meaning_engine (below32 0 9) ?w = Inr (z, ?w)"
    "\<forall>\<eta>. zval meaning_sem \<eta> z = of_bool (take_bit 32 (\<eta> ''x'') < 9)"
    by (auto simp: below32_holds env_names_def)
  then show ?thesis by blast
qed

section \<open>The solver of a state\<close>

text \<open>C9: adding a constraint keeps the solver consistent and forgets the cached values of exactly the symbols that are
  connected with the new constraint, so that the cached model still extends every solution of the constraints it leaves
  alone; a constraint that is the constant true is not stored.\<close>

theorem solver_add_correct:
  assumes "solver_ok A (w_builder w) s" and "involved_ok (w_involved w)"
    and "formula c" and "translatable (w_builder w) c"
  shows "\<exists>s' w'. solver_add A c (s, w) = Inr ((), (s', w')) \<and> solver_ok A (w_builder w) s' \<and> w_builder w' = w_builder w \<and>
    set (m_constraints (m_manager s')) =
      (if c = BoolConst True then set (m_constraints (m_manager s)) else insert c (set (m_constraints (m_manager s)))) \<and>
    (\<forall>i. m_model s' i = (if i \<in> connected (set (m_constraints (m_manager s'))) c then None else m_model s i))"
proof -
  obtain s' w' where s': "solver_add A c (s, w) = Inr ((), (s', w'))" "solver_ok A (w_builder w) s'" "w_builder w' = w_builder w"
    "m_model s' = (\<lambda>i. if i \<in> closure (m_manager s') c then None else m_model s i)"
    "set (m_constraints (m_manager s')) =
      (if c = BoolConst True then set (m_constraints (m_manager s)) else insert c (set (m_constraints (m_manager s))))"
    by (rule solver_add_spec[OF assms])
  have "closure (m_manager s') c = connected (set (m_constraints (m_manager s'))) c"
    using s'(2) by (intro closure_connected) (simp add: solver_ok_def slice_ok_def)
  then have "\<forall>i. m_model s' i = (if i \<in> connected (set (m_constraints (m_manager s'))) c then None else m_model s i)"
    unfolding s'(4) by simp
  with s'(1,2,3,5) show ?thesis by (intro exI[of _ s'] exI[of _ w'] conjI)
qed

lemma sample_added:
  assumes "binv sample_env b" "m_sym_id_to_name b 0 = Some ''x''"
  obtains s w where "solver_add sample_env (below32 0 5)
      (Solver_init, \<lparr>w_builder = b, w_involved = Map.empty, w_z3 = \<lparr>z3_assertions = [], z3_checks = 0\<rparr>\<rparr> :: 'z z3_solver world)
      = Inr ((), (s, w))"
    "solver_ok sample_env b s" "set (m_constraints (m_manager s)) = {below32 0 5}" "m_model s = Map.empty" "w_builder w = b"
    "involved_ok (w_involved w)"
proof -
  let ?w = "\<lparr>w_builder = b, w_involved = Map.empty, w_z3 = \<lparr>z3_assertions = [], z3_checks = 0\<rparr>\<rparr> :: 'z z3_solver world"
  have ok: "solver_ok sample_env (w_builder ?w) Solver_init" by (simp add: solver_ok_init)
  have i: "involved_ok (w_involved ?w)" by (simp add: involved_ok_def)
  have f: "formula (below32 0 5)" by (simp add: below32_formula)
  have t: "translatable (w_builder ?w) (below32 0 5)" using assms(2) by (simp add: below32_translatable)
  obtain s w where "solver_add sample_env (below32 0 5) (Solver_init, ?w) = Inr ((), (s, w))" "solver_ok sample_env (w_builder ?w) s"
    "involved_ok (w_involved w)" "w_builder w = w_builder ?w"
    "m_model s = (\<lambda>i. if i \<in> closure (m_manager s) (below32 0 5) then None else m_model Solver_init i)"
    "set (m_constraints (m_manager s)) = (if below32 0 5 = BoolConst True then set (m_constraints (m_manager Solver_init))
      else insert (below32 0 5) (set (m_constraints (m_manager Solver_init))))"
    by (rule solver_add_spec[OF ok i f t])
  note r = this
  have m: "m_model s = Map.empty" unfolding r(5) by (rule ext) (simp add: Solver_init_def)
  have c: "set (m_constraints (m_manager s)) = {below32 0 5}"
    unfolding r(6) by (simp add: below32_def Solver_init_def ConstraintManager_init_def)
  have "w_builder w = b" unfolding r(4) by simp
  with r(2) have ok: "solver_ok sample_env b s" by simp
  show ?thesis by (rule that[OF r(1) ok c m \<open>w_builder w = b\<close> r(3)])
qed

theorem solver_add_correct_witness:
  "\<exists>s (w :: meaning z3_solver world) s' w'. solver_add sample_env (below32 0 4) (s, w) = Inr ((), (s', w')) \<and>
     set (m_constraints (m_manager s')) = {below32 0 4, below32 0 5} \<and> m_model s' 0 = None"
proof -
  obtain b where b: "binv sample_env b" "m_sym_id_to_name b 0 = Some ''x''" by (rule named_builder)
  obtain s and w :: "meaning z3_solver world" where s: "solver_ok sample_env (w_builder w) s" "involved_ok (w_involved w)"
    "set (m_constraints (m_manager s)) = {below32 0 5}" "w_builder w = b"
    by (rule sample_added[OF b]) simp
  have "formula (below32 0 4)" "translatable (w_builder w) (below32 0 4)"
    using b(2) s(4) by (simp_all add: below32_formula below32_translatable)
  from solver_add_correct[OF s(1,2) this] obtain s' w' where s': "solver_add sample_env (below32 0 4) (s, w) = Inr ((), (s', w'))"
    "set (m_constraints (m_manager s')) = {below32 0 4, below32 0 5}"
    "m_model s' 0 = (if 0 \<in> connected {below32 0 4, below32 0 5} (below32 0 4) then None else m_model s 0)"
    unfolding s(3) by (auto simp: below32_def)
  have "0 \<in> connected C (below32 0 4)" for C by (auto simp: connected_def)
  with s' show ?thesis by auto
qed

text \<open>C6: a query without model population is answered soundly, whether its symbols have values in the cached model or not:
  under the documented meaning of Z3, if the constraints of the path are satisfiable then the answer UNSAT means that they
  contradict the query, and the answer SAT, from the cached model or from Z3, that they are satisfiable together with it;
  all the constraints are meant, although only those connected with the query are passed to Z3. What is needed of the
  query: it is a formula of the nodes that are translated to Z3, and either all its symbols have values and it is in the
  fragment of evaluation, or (\<open>sound_calls\<close>) every call of the builder made by evaluating it under the partial model meets
  the side conditions under which the builder is correct.\<close>

theorem check_sat_correct:
  fixes w :: "'z z3_solver world"
  assumes "z3_sound Z S" and "engine_sound E S"
    and "binv A (w_builder w)" and "involved_ok (w_involved w)" and "solver_ok A (w_builder w) s"
    and "formula c" and "translatable (w_builder w) c"
    and "evaluable (m_model s) False c \<or> sound_calls A (m_model s) c (w_builder w)"
    and "sat (fpl A) (set (m_constraints (m_manager s)))"
  shows "\<exists>r w'. may_be_true A Z E c (s, w) = Inr (r, (s, w')) \<and>
    (r = UNSAT \<longrightarrow> \<not> sat (fpl A) (insert c (set (m_constraints (m_manager s))))) \<and>
    (r = SAT \<longrightarrow> sat (fpl A) (insert c (set (m_constraints (m_manager s)))))"
  using check_sat_sound[OF assms(1,2) _ assms(5-7) _ assms(9)] assms(3,4,8) by (auto simp: world_ok_def may_be_true_def eval_sound_def)

lemma below32_sound_calls:
  assumes "binv A b" "m i = None" "uint k < 2 ^ 32"
  shows "sound_calls A m (below32 i k) b"
proof -
  let ?x = "SymExpr i 32" and ?c = "ConstExpr (small_const 32 k)"
  have "operand 32 ?x" "operand 32 ?c"
    using assms(3) by (simp_all add: operand_def small_const_def bv_ok_def BVConst_copy_def)
  from mk_unsigned_asserts(1)[OF this, of A] obtain r b' where "mk_ult A ?x ?c b = Inr (r, b')"
    by (rule buildsE[OF _ assms(1)])
  then show ?thesis using assms(2)
    by (simp add: sound_calls_def below32_def sym32_def checked_inner.simps checked_defs cached_def ev2_def on_builder_def
        bnd_def ret_apply)
qed

text \<open>The path says x below 5, the model is empty, the query is x below 0.\<close>

theorem check_sat_correct_witness:
  "\<exists>s (w :: meaning z3_solver world) r w'. set (m_constraints (m_manager s)) = {below32 0 5} \<and> m_model s 0 = None \<and>
     may_be_true sample_env meaning_api meaning_engine (below32 0 0) (s, w) = Inr (r, (s, w')) \<and> r \<noteq> SAT"
proof -
  obtain b where b: "binv sample_env b" "m_sym_id_to_name b 0 = Some ''x''" by (rule named_builder)
  obtain s and w :: "meaning z3_solver world" where s: "solver_ok sample_env b s" "set (m_constraints (m_manager s)) = {below32 0 5}"
    "m_model s = Map.empty" "w_builder w = b" "involved_ok (w_involved w)"
    by (rule sample_added[OF b])
  have ok: "solver_ok sample_env (w_builder w) s" and i: "binv sample_env (w_builder w)" using s(1,4) b(1) by simp_all
  have ev: "evaluable (m_model s) False (below32 0 0) \<or> sound_calls sample_env (m_model s) (below32 0 0) (w_builder w)"
    using below32_sound_calls[OF i] s(3) by simp
  have "sat F {below32 0 5}" for F
    by (auto simp: sat_def below32_holds intro!: exI[of _ "\<lambda>_. 1"])
  then have path: "sat (fpl sample_env) (set (m_constraints (m_manager s)))" using s(2) by simp
  have f: "formula (below32 0 0)" "translatable (w_builder w) (below32 0 0)"
    using b(2) s(4) by (simp_all add: below32_formula below32_translatable)
  from check_sat_correct[OF meaning_sound meaning_engine_sound i s(5) ok f ev path]
  obtain r w' where r: "may_be_true sample_env meaning_api meaning_engine (below32 0 0) (s, w) = Inr (r, (s, w'))"
    "r = SAT \<longrightarrow> sat (fpl sample_env) (insert (below32 0 0) (set (m_constraints (m_manager s))))"
    by blast
  have "\<not> sat F (insert (below32 0 0) C)" for F C
    using below32_holds[of 0 F _ 0] by (auto simp: sat_def not_less)
  with r(2) have "r \<noteq> SAT" by blast
  with r(1) s(2,3) show ?thesis by (intro exI[of _ s] exI[of _ w] exI[of _ r] exI[of _ w']) simp
qed

end
