(* ===== verification/AddressSpace.thy ===== *)
theory AddressSpace
  imports Naaz_Prelude BVConst
begin

text \<open>
  The bytes of the loaded program, \<^verbatim>\<open>loader/AddressSpace.cpp\<close>: segments, symbols and relocations. Addresses are 64-bit
  words and wrap around.
\<close>

section \<open>Symbols, segments and relocations\<close>

datatype symbol_type = FUNCTION | LOCAL | GLOBAL | UNKNOWN_SYMBOL

record symbol =
  symbol_addr :: "64 word"
  symbol_name :: string
  symbol_type :: symbol_type

definition type_to_string :: "symbol_type \<Rightarrow> string" where
  "type_to_string t = (case t of FUNCTION \<Rightarrow> ''function'' | LOCAL \<Rightarrow> ''local'' | GLOBAL \<Rightarrow> ''global''
     | UNKNOWN_SYMBOL \<Rightarrow> ''unknown'')"

datatype relocation_type = FUNC | DATA

record relocation =
  reloc_addr :: "64 word"
  reloc_name :: string
  reloc_type :: relocation_type

record segment =
  seg_name :: string
  seg_addr :: "64 word"
  seg_data :: "8 word list"
  seg_size :: "64 word"
  seg_perm :: "8 word"

text \<open>The two constructors: a copy of \<open>size\<close> bytes of the buffer, and zeros.\<close>

definition Segment_data :: "string \<Rightarrow> 64 word \<Rightarrow> 8 word list \<Rightarrow> 64 word \<Rightarrow> 8 word \<Rightarrow> segment" where
  "Segment_data name a data n perm =
     \<lparr>seg_name = name, seg_addr = a, seg_data = take (unat n) data, seg_size = n, seg_perm = perm\<rparr>"

definition Segment_zero :: "string \<Rightarrow> 64 word \<Rightarrow> 64 word \<Rightarrow> 8 word \<Rightarrow> segment" where
  "Segment_zero name a n perm =
     \<lparr>seg_name = name, seg_addr = a, seg_data = replicate (unat n) 0, seg_size = n, seg_perm = perm\<rparr>"

definition contains :: "segment \<Rightarrow> 64 word \<Rightarrow> bool" where
  "contains s a \<longleftrightarrow> a \<ge> seg_addr s \<and> a < seg_addr s + seg_size s"

definition seg_read :: "segment \<Rightarrow> 64 word \<Rightarrow> 8 word option" where
  "seg_read s a = (if \<not> contains s a then None else Some (seg_data s ! unat (a - seg_addr s)))"

text \<open>A reference is the rest of the buffer and its length.\<close>

definition seg_get_ref :: "segment \<Rightarrow> 64 word \<Rightarrow> (8 word list \<times> 64 word) option" where
  "seg_get_ref s a = (if \<not> contains s a then None
     else Some (drop (unat (a - seg_addr s)) (seg_data s), seg_size s - (a - seg_addr s)))"

section \<open>The address space\<close>

record address_space =
  m_segments :: "segment list"
  as_symbols :: "64 word \<Rightarrow> symbol list option"
  m_relocs :: "relocation list"

definition AddressSpace_init :: address_space where
  "AddressSpace_init = \<lparr>m_segments = [], as_symbols = Map.empty, m_relocs = []\<rparr>"

definition register_segment :: "string \<Rightarrow> 64 word \<Rightarrow> 8 word list \<Rightarrow> 64 word \<Rightarrow> 8 word \<Rightarrow> address_space \<Rightarrow> address_space" where
  "register_segment name a data n perm as = as\<lparr>m_segments := m_segments as @ [Segment_data name a data n perm]\<rparr>"

definition register_segment_zero :: "string \<Rightarrow> 64 word \<Rightarrow> 64 word \<Rightarrow> 8 word \<Rightarrow> address_space \<Rightarrow> address_space" where
  "register_segment_zero name a n perm as = as\<lparr>m_segments := m_segments as @ [Segment_zero name a n perm]\<rparr>"

text \<open>The vector constructor of the code takes the size of the vector.\<close>

definition register_segment_vec :: "string \<Rightarrow> 64 word \<Rightarrow> 8 word list \<Rightarrow> 8 word \<Rightarrow> address_space \<Rightarrow> address_space" where
  "register_segment_vec name a data perm = register_segment name a data (of_nat (length data)) perm"

fun find_byte :: "segment list \<Rightarrow> 64 word \<Rightarrow> 8 word option" where
  "find_byte [] a = None"
| "find_byte (s # ss) a = (if contains s a then seg_read s a else find_byte ss a)"

definition as_read_byte :: "address_space \<Rightarrow> 64 word \<Rightarrow> 8 word option" where
  "as_read_byte as a = find_byte (m_segments as) a"

text \<open>The bytes of a word, in the order of the code: \<open>b1\<close> at the lower address.\<close>

fun find_word :: "segment list \<Rightarrow> 64 word \<Rightarrow> endianess \<Rightarrow> 16 word option" where
  "find_word [] a end = None"
| "find_word (s # ss) a end = (if contains s a \<and> contains s (a + 1)
     then (case (seg_read s a, seg_read s (a + 1)) of
       (Some b1, Some b2) \<Rightarrow> Some (if end = BIG then or (push_bit 8 (ucast b1)) (ucast b2) else or (push_bit 8 (ucast b2)) (ucast b1))
     | _ \<Rightarrow> None)
     else find_word ss a end)"

definition read_word :: "address_space \<Rightarrow> 64 word \<Rightarrow> endianess \<Rightarrow> 16 word option" where
  "read_word as a end = find_word (m_segments as) a end"

text \<open>The two halves are always read in little-endian order.\<close>

definition read_dword :: "address_space \<Rightarrow> 64 word \<Rightarrow> endianess \<Rightarrow> 32 word option" where
  "read_dword as a end = (case (read_word as a LITTLE, read_word as (a + 2) LITTLE) of
     (Some w1, Some w2) \<Rightarrow> Some (if end = BIG then or (push_bit 16 (ucast w1)) (ucast w2) else or (push_bit 16 (ucast w2)) (ucast w1))
   | _ \<Rightarrow> None)"

definition read_qword :: "address_space \<Rightarrow> 64 word \<Rightarrow> endianess \<Rightarrow> 64 word option" where
  "read_qword as a end = (case (read_dword as a LITTLE, read_dword as (a + 4) LITTLE) of
     (Some d1, Some d2) \<Rightarrow> Some (if end = BIG then or (push_bit 32 (ucast d1)) (ucast d2) else or (push_bit 32 (ucast d2)) (ucast d1))
   | _ \<Rightarrow> None)"

fun find_ref :: "segment list \<Rightarrow> 64 word \<Rightarrow> (8 word list \<times> 64 word) option" where
  "find_ref [] a = None"
| "find_ref (s # ss) a = (if contains s a then seg_get_ref s a else find_ref ss a)"

definition get_ref :: "address_space \<Rightarrow> 64 word \<Rightarrow> (8 word list \<times> 64 word) option" where
  "get_ref as a = find_ref (m_segments as) a"

text \<open>The insertion at the end has no effect when the address already has symbols.\<close>

definition register_symbol :: "64 word \<Rightarrow> string \<Rightarrow> symbol_type \<Rightarrow> address_space \<Rightarrow> address_space" where
  "register_symbol a name t as =
     (let sy = \<lparr>symbol_addr = a, symbol_name = name, symbol_type = t\<rparr>
      in as\<lparr>as_symbols := (case as_symbols as a of
           Some sys \<Rightarrow> (as_symbols as)(a \<mapsto> sys @ [sy])
         | None \<Rightarrow> (as_symbols as)(a \<mapsto> [sy]))\<rparr>)"

definition register_relocation :: "64 word \<Rightarrow> string \<Rightarrow> relocation_type \<Rightarrow> address_space \<Rightarrow> address_space" where
  "register_relocation a name t as = as\<lparr>m_relocs := m_relocs as @ [\<lparr>reloc_addr = a, reloc_name = name, reloc_type = t\<rparr>]\<rparr>"

section \<open>Reading\<close>

text \<open>The buffer of a segment has its size, and no read leaves it.\<close>

definition segments_ok :: "address_space \<Rightarrow> bool" where
  "segments_ok as \<longleftrightarrow> (\<forall>s\<in>set (m_segments as). length (seg_data s) = unat (seg_size s))"

lemma segments_ok_init: "segments_ok AddressSpace_init"
  by (simp add: segments_ok_def AddressSpace_init_def)

lemma segments_ok_register:
  "segments_ok as \<Longrightarrow> unat n \<le> length data \<Longrightarrow> segments_ok (register_segment name a data n perm as)"
  "segments_ok as \<Longrightarrow> segments_ok (register_segment_zero name a n perm as)"
  by (auto simp: segments_ok_def register_segment_def register_segment_zero_def Segment_data_def Segment_zero_def)

lemma contains_bound:
  assumes "contains s a"
  shows "unat (a - seg_addr s) < unat (seg_size s)"
proof -
  have "a - seg_addr s < seg_size s"
  proof (rule ccontr)
    assume "\<not> a - seg_addr s < seg_size s"
    then have "seg_size s \<le> a - seg_addr s" by simp
    then have "seg_addr s + seg_size s \<le> seg_addr s + (a - seg_addr s)"
      using assms by (intro word_plus_mono_right) (simp_all add: contains_def)
    with assms show False by (auto simp: contains_def)
  qed
  then show ?thesis by (simp add: word_less_nat_alt)
qed

text \<open>A segment that ends at the top of the address space contains no address, because its end wraps to zero.\<close>

lemma contains_wraps: "seg_addr s + seg_size s = 0 \<Longrightarrow> \<not> contains s a"
  by (simp add: contains_def)

lemma seg_read_inside: "contains s a \<Longrightarrow> seg_read s a = Some (seg_data s ! unat (a - seg_addr s))"
  by (simp add: seg_read_def)

text \<open>The bytes \<open>a\<close> to \<open>a + n - 1\<close> lie in the segment \<open>s\<close> and in no other.\<close>

definition covers :: "address_space \<Rightarrow> segment \<Rightarrow> 64 word \<Rightarrow> nat \<Rightarrow> bool" where
  "covers as s a n \<longleftrightarrow> s \<in> set (m_segments as) \<and>
     (\<forall>i<n. contains s (a + of_nat i) \<and> (\<forall>t\<in>set (m_segments as). t \<noteq> s \<longrightarrow> \<not> contains t (a + of_nat i)))"

definition seg_byte :: "segment \<Rightarrow> 64 word \<Rightarrow> nat \<Rightarrow> 8 word" where
  "seg_byte s a i = seg_data s ! unat (a + of_nat i - seg_addr s)"

lemma covers_shift: "covers as s a n \<Longrightarrow> k + m \<le> n \<Longrightarrow> covers as s (a + of_nat k) m"
  unfolding covers_def
proof (elim conjE, intro conjI allI impI)
  fix i
  assume a: "\<forall>i<n. contains s (a + of_nat i) \<and> (\<forall>t\<in>set (m_segments as). t \<noteq> s \<longrightarrow> \<not> contains t (a + of_nat i))"
    and i: "k + m \<le> n" "i < m"
  then have "k + i < n" by simp
  with a have "contains s (a + of_nat (k + i)) \<and> (\<forall>t\<in>set (m_segments as). t \<noteq> s \<longrightarrow> \<not> contains t (a + of_nat (k + i)))" by blast
  then show "contains s (a + of_nat k + of_nat i)"
    "\<forall>t\<in>set (m_segments as). t \<noteq> s \<longrightarrow> \<not> contains t (a + of_nat k + of_nat i)" by (simp_all add: add.assoc)
qed

lemma find_byte_covers:
  "contains s a \<Longrightarrow> \<forall>t\<in>set ss. t \<noteq> s \<longrightarrow> \<not> contains t a \<Longrightarrow> s \<in> set ss \<Longrightarrow> find_byte ss a = seg_read s a"
proof (induction ss)
  case (Cons u ss)
  show ?case
  proof (cases "u = s")
    case True
    with Cons.prems(1) show ?thesis by simp
  next
    case False
    with Cons.prems have "\<not> contains u a" "s \<in> set ss" "\<forall>t\<in>set ss. t \<noteq> s \<longrightarrow> \<not> contains t a" by auto
    with Cons.IH[OF Cons.prems(1)] show ?thesis by simp
  qed
qed simp

lemma read_byte_covers: "covers as s a 1 \<Longrightarrow> as_read_byte as a = Some (seg_byte s a 0)"
  using find_byte_covers[of s a "m_segments as"] by (simp add: covers_def as_read_byte_def seg_byte_def seg_read_inside)

lemma find_word_covers:
  "contains s a \<Longrightarrow> contains s (a + 1) \<Longrightarrow> \<forall>t\<in>set ss. t \<noteq> s \<longrightarrow> \<not> contains t a \<Longrightarrow> s \<in> set ss \<Longrightarrow>
   find_word ss a end = Some (if end = BIG
     then or (push_bit 8 (ucast (seg_byte s a 0))) (ucast (seg_byte s a 1))
     else or (push_bit 8 (ucast (seg_byte s a 1))) (ucast (seg_byte s a 0)))"
proof (induction ss)
  case (Cons u ss)
  show ?case
  proof (cases "u = s")
    case True
    with Cons.prems(1,2) show ?thesis by (simp add: seg_read_inside seg_byte_def)
  next
    case False
    with Cons.prems have "\<not> contains u a" "s \<in> set ss" "\<forall>t\<in>set ss. t \<noteq> s \<longrightarrow> \<not> contains t a" by auto
    with Cons.IH[OF Cons.prems(1,2)] show ?thesis by simp
  qed
qed simp

lemma read_word_covers:
  assumes "covers as s a 2"
  shows "read_word as a end = Some (if end = BIG
     then or (push_bit 8 (ucast (seg_byte s a 0))) (ucast (seg_byte s a 1))
     else or (push_bit 8 (ucast (seg_byte s a 1))) (ucast (seg_byte s a 0)))"
proof -
  have "contains s (a + of_nat i) \<and> (\<forall>t\<in>set (m_segments as). t \<noteq> s \<longrightarrow> \<not> contains t (a + of_nat i))" if "i < 2" for i
    using assms that by (simp add: covers_def)
  from this[of 0] this[of 1] assms show ?thesis
    unfolding read_word_def by (intro find_word_covers) (auto simp: covers_def)
qed

lemma uint_pair:
  fixes x y :: "'a :: len word"
  assumes "LENGTH('b :: len) = 2 * LENGTH('a)"
  shows "uint (or (push_bit LENGTH('a) (ucast y)) (ucast x) :: 'b word) = uint x + 2 ^ LENGTH('a) * uint y"
proof -
  let ?n = "LENGTH('a)"
  have x: "0 \<le> uint x" "uint x < 2 ^ ?n" and y: "0 \<le> uint y" "uint y < 2 ^ ?n" by simp_all
  have tx: "take_bit ?n (uint x) = uint x" using x by (simp add: take_bit_int_eq_self)
  have "uint (ucast x :: 'b word) = uint x" "uint (ucast y :: 'b word) = uint y"
    using assms by (simp_all add: uint_up_ucast is_up)
  then have "uint (or (push_bit ?n (ucast y)) (ucast x) :: 'b word) = or (take_bit (2 * ?n) (push_bit ?n (uint y))) (uint x)"
    using assms by (simp add: unsigned_or_eq unsigned_push_bit_eq)
  also have "take_bit (2 * ?n) (push_bit ?n (uint y)) = push_bit ?n (uint y)"
    using y by (simp add: take_bit_push_bit take_bit_int_eq_self)
  also have "or (push_bit ?n (uint y)) (uint x) = push_bit ?n (uint y) + uint x"
    by (rule disjunctive_add_eq_or [symmetric], subst tx [symmetric])
      (auto simp: bit_eq_iff bit_simps)
  finally show ?thesis by (simp add: push_bit_eq_mult mult.commute)
qed

text \<open>
  The value of a read: little-endian as expected; the big-endian reads of four and eight bytes swap the halves but not the
  bytes inside them.
\<close>

definition seg_value :: "segment \<Rightarrow> 64 word \<Rightarrow> nat list \<Rightarrow> int" where
  "seg_value s a is = horner_sum uint 256 (map (seg_byte s a) is)"

lemma word_value:
  assumes "covers as s a 2"
  obtains w where "read_word as a end = Some w" "uint w = seg_value s a (if end = BIG then [1, 0] else [0, 1])"
  using read_word_covers[OF assms, of "end"] uint_pair[where 'a = 8 and 'b = 16]
  by (cases "end") (simp_all add: seg_value_def)

lemma seg_byte_shift: "seg_byte s (a + of_nat k) i = seg_byte s a (k + i)"
  by (simp add: seg_byte_def add.assoc)

lemma dword_value:
  assumes "covers as s a 4"
  obtains w where "read_dword as a end = Some w" "uint w = seg_value s a (if end = BIG then [2, 3, 0, 1] else [0, 1, 2, 3])"
proof -
  have c: "covers as s a 2" "covers as s (a + of_nat 2) 2"
    using covers_shift[OF assms, of 0 2] covers_shift[OF assms, of 2 2] by simp_all
  obtain w1 where w1: "read_word as a LITTLE = Some w1" "uint w1 = seg_value s a [0, 1]"
    by (rule word_value[OF c(1), of LITTLE]) simp
  obtain w2 where w2: "read_word as (a + 2) LITTLE = Some w2" "uint w2 = seg_value s (a + of_nat 2) [0, 1]"
    by (rule word_value[OF c(2), of LITTLE]) simp
  have pair: "uint (or (push_bit 16 (ucast w2)) (ucast w1) :: 32 word) = uint w1 + 2 ^ 16 * uint w2"
    "uint (or (push_bit 16 (ucast w1)) (ucast w2) :: 32 word) = uint w2 + 2 ^ 16 * uint w1"
    using uint_pair[where 'a = 16 and 'b = 32, of w2 w1] uint_pair[where 'a = 16 and 'b = 32, of w1 w2] by simp_all
  show ?thesis
    using w1 w2 pair
    by (cases "end"; intro that; (simp add: read_dword_def; fail)?)
      (simp_all add: read_dword_def seg_value_def seg_byte_shift del: of_nat_numeral)
qed

lemma qword_value:
  assumes "covers as s a 8"
  obtains w where "read_qword as a end = Some w"
    "uint w = seg_value s a (if end = BIG then [4, 5, 6, 7, 0, 1, 2, 3] else [0, 1, 2, 3, 4, 5, 6, 7])"
proof -
  have c: "covers as s a 4" "covers as s (a + of_nat 4) 4"
    using covers_shift[OF assms, of 0 4] covers_shift[OF assms, of 4 4] by simp_all
  obtain w1 where w1: "read_dword as a LITTLE = Some w1" "uint w1 = seg_value s a [0, 1, 2, 3]"
    by (rule dword_value[OF c(1), of LITTLE]) simp
  obtain w2 where w2: "read_dword as (a + 4) LITTLE = Some w2" "uint w2 = seg_value s (a + of_nat 4) [0, 1, 2, 3]"
    by (rule dword_value[OF c(2), of LITTLE]) simp
  have pair: "uint (or (push_bit 32 (ucast w2)) (ucast w1) :: 64 word) = uint w1 + 2 ^ 32 * uint w2"
    "uint (or (push_bit 32 (ucast w1)) (ucast w2) :: 64 word) = uint w2 + 2 ^ 32 * uint w1"
    using uint_pair[where 'a = 32 and 'b = 64, of w2 w1] uint_pair[where 'a = 32 and 'b = 64, of w1 w2] by simp_all
  show ?thesis
    using w1 w2 pair
    by (cases "end"; intro that; (simp add: read_qword_def; fail)?)
      (simp_all add: read_qword_def seg_value_def seg_byte_shift del: of_nat_numeral)
qed

end
