(* ===== verification/MapMemory.thy ===== *)
theory MapMemory
  imports AddressSpace Solver
begin

text \<open>
  The memories of a state, \<^verbatim>\<open>state/MapMemory.cpp\<close>: a map from addresses to bytes that are expressions. A byte that is not
  in the map comes from the address space of the program, or is made up. An access at a symbolic address enumerates the
  addresses with the solver. Where C++ leaves the order of evaluation of arguments open, it is left to right.
\<close>

section \<open>State\<close>

datatype uninit_behavior = RET_SYM | RET_ZERO | THROW_ERR

record sym_access_behavior =
  max_n_eval_read :: nat
  max_n_eval_write :: nat

record map_memory =
  m_uninit_behavior :: uninit_behavior
  m_sym_access_behavior :: sym_access_behavior
  m_as :: "address_space option"
  m_memory :: "64 word \<Rightarrow> expr option"
  mm_name :: string
  has_solver :: bool

text \<open>The options of \<^verbatim>\<open>util/config.hpp\<close>, that the command line can change.\<close>

record config =
  lazy_solving :: bool
  z3_timeout :: "32 word"
  default_max_n_eval_sym_read :: nat
  default_max_n_eval_sym_write :: nat
  printable_stdin :: bool

definition Config_init :: config where
  "Config_init = \<lparr>lazy_solving = True, z3_timeout = 10000, default_max_n_eval_sym_read = 256,
     default_max_n_eval_sym_write = 64, printable_stdin = False\<rparr>"

definition MapMemory_as :: "config \<Rightarrow> string \<Rightarrow> address_space option \<Rightarrow> uninit_behavior \<Rightarrow> map_memory" where
  "MapMemory_as cfg name as b = \<lparr>m_uninit_behavior = b, m_sym_access_behavior =
       \<lparr>max_n_eval_read = default_max_n_eval_sym_read cfg, max_n_eval_write = default_max_n_eval_sym_write cfg\<rparr>,
     m_as = as, m_memory = Map.empty, mm_name = name, has_solver = False\<rparr>"

definition MapMemory_name :: "config \<Rightarrow> string \<Rightarrow> uninit_behavior \<Rightarrow> map_memory" where
  "MapMemory_name cfg name b = MapMemory_as cfg name None b"

definition MapMemory_access :: "string \<Rightarrow> address_space option \<Rightarrow> sym_access_behavior \<Rightarrow> uninit_behavior \<Rightarrow> map_memory res" where
  "MapMemory_access name as ab b =
     (if max_n_eval_read ab = 0 \<or> max_n_eval_write ab = 0 then Inl (Exit ''MapMemory'')
      else Inr \<lparr>m_uninit_behavior = b, m_sym_access_behavior = ab, m_as = as, m_memory = Map.empty, mm_name = name,
        has_solver = False\<rparr>)"

text \<open>The copy constructor copies everything except the pointer to the solver.\<close>

definition mm_clone :: "map_memory \<Rightarrow> map_memory" where
  "mm_clone m = m\<lparr>has_solver := False\<rparr>"

definition set_solver :: "map_memory \<Rightarrow> map_memory" where
  "set_solver m = m\<lparr>has_solver := True\<rparr>"

text \<open>A memory works with the solver of its state. The value \<open>None\<close> stands for an \<^verbatim>\<open>UnsatStateException\<close> thrown.\<close>

type_synonym ('z, 'a) mm = "(map_memory \<times> solver \<times> 'z z3_solver world, 'a) smonad"

definition mem_solver :: "('z, 'a) sm \<Rightarrow> ('z, 'a) mm" where
  "mem_solver f = (\<lambda>(m, sw). case f sw of Inl e \<Rightarrow> Inl e | Inr (x, sw') \<Rightarrow> Inr (x, (m, sw')))"

definition mem_builder :: "'a bm \<Rightarrow> ('z, 'a) mm" where
  "mem_builder f = mem_solver (building f)"

definition get_mem :: "('z, map_memory) mm" where
  "get_mem = (\<lambda>(m, sw). Inr (m, (m, sw)))"

section \<open>Bytes\<close>

definition write_byte :: "64 word \<Rightarrow> expr \<Rightarrow> ('z, unit) mm" where
  "write_byte a v = (if expr_size v \<noteq> 8 then throw (Exit ''write_byte'')
     else (\<lambda>(m, sw). Inr ((), (m\<lparr>m_memory := (m_memory m)(a \<mapsto> v)\<rparr>, sw))))"

definition fill_byte :: "64 word \<Rightarrow> expr bm \<Rightarrow> ('z, expr) mm" where
  "fill_byte a f = bnd (mem_builder f) (\<lambda>e. bnd (write_byte a e) (\<lambda>_. ret e))"

definition byte_name :: "string \<Rightarrow> 64 word \<Rightarrow> string" where
  "byte_name name a = name @ ''+0x'' @ digits 16 (unat a)"

definition read_byte :: "amb \<Rightarrow> 64 word \<Rightarrow> ('z, expr) mm" where
  "read_byte A a = bnd get_mem (\<lambda>m. case m_memory m a of
     Some e \<Rightarrow> ret e
   | None \<Rightarrow> (case (case m_as m of None \<Rightarrow> None | Some as \<Rightarrow> as_read_byte as a) of
       Some b \<Rightarrow> fill_byte a (mk_const_u64 A (ucast b) 8)
     | None \<Rightarrow> (case m_uninit_behavior m of
         RET_SYM \<Rightarrow> fill_byte a (mk_sym A (byte_name (mm_name m) a) 8)
       | RET_ZERO \<Rightarrow> fill_byte a (mk_const_u64 A 0 8)
       | THROW_ERR \<Rightarrow> throw (Exit ''read_byte''))))"

section \<open>Concrete addresses\<close>

text \<open>The loop over the bytes from index \<open>i\<close>, \<open>n\<close> of them left.\<close>

fun read_loop :: "amb \<Rightarrow> 64 word \<Rightarrow> endianess \<Rightarrow> nat \<Rightarrow> nat \<Rightarrow> expr \<Rightarrow> ('z, expr) mm" where
  "read_loop A a end i 0 acc = ret acc"
| "read_loop A a end i (Suc n) acc = bnd (read_byte A (a + of_nat i)) (\<lambda>b.
     bnd (mem_builder (if end = BIG then mk_concat A acc b else mk_concat A b acc)) (\<lambda>acc'.
       read_loop A a end (i + 1) n acc'))"

definition mem_read :: "amb \<Rightarrow> 64 word \<Rightarrow> nat \<Rightarrow> endianess \<Rightarrow> ('z, expr) mm" where
  "mem_read A a len end = (if len = 0 then throw (Exit ''read'')
     else bnd (read_byte A a) (\<lambda>b. read_loop A a end 1 (len - 1) b))"

fun write_loop :: "amb \<Rightarrow> 64 word \<Rightarrow> expr \<Rightarrow> endianess \<Rightarrow> nat \<Rightarrow> nat \<Rightarrow> nat \<Rightarrow> ('z, unit) mm" where
  "write_loop A a v end len i 0 = ret ()"
| "write_loop A a v end len i (Suc n) =
     bnd (mem_builder (if end = BIG then mk_extract A v ((len - i - 1) * 8 + 7) ((len - i - 1) * 8)
                       else mk_extract A v (i * 8 + 7) (i * 8))) (\<lambda>e.
       bnd (write_byte (a + of_nat i) e) (\<lambda>_. write_loop A a v end len (i + 1) n))"

definition mem_write :: "amb \<Rightarrow> 64 word \<Rightarrow> expr \<Rightarrow> endianess \<Rightarrow> ('z, unit) mm" where
  "mem_write A a v end = (if expr_size v mod 8 \<noteq> 0 then throw (Exit ''write'')
     else write_loop A a v end (expr_size v div 8) 0 (expr_size v div 8))"

section \<open>Symbolic addresses\<close>

text \<open>The condition that the address is one of those enumerated, the last one first.\<close>

fun one_of :: "amb \<Rightarrow> expr \<Rightarrow> bvconst list \<Rightarrow> expr \<Rightarrow> expr bm" where
  "one_of A p [] cond = ret cond"
| "one_of A p (c # cs) cond = bnd (mk_const A c) (\<lambda>k. bnd (mk_eq A k p) (\<lambda>e.
     bnd (mk_bool_or A e cond) (\<lambda>cond'. one_of A p cs cond')))"

definition addr_among :: "amb \<Rightarrow> expr \<Rightarrow> bvconst list \<Rightarrow> expr bm" where
  "addr_among A p cs = (case cs of
     [] \<Rightarrow> throw (StdException ''out_of_range'')
   | c # cs' \<Rightarrow> bnd (mk_const A c) (\<lambda>k. bnd (mk_eq A k p) (\<lambda>cond. one_of A p cs' cond)))"

text \<open>The addresses of an access; the bound of reads is used for writes too.\<close>

definition concrete_addrs :: "amb \<Rightarrow> 'z z3_api \<Rightarrow> 'z z3_engine \<Rightarrow> expr \<Rightarrow> ('z, bvconst list option) mm" where
  "concrete_addrs A Z E p = bnd get_mem (\<lambda>m.
     if \<not> has_solver m then throw (Exit ''symbolic memory accesses without solver'')
     else bnd (mem_solver (satisfiable A Z E)) (\<lambda>r. if r \<noteq> SAT then ret None
       else (let k = max_n_eval_read (m_sym_access_behavior m)
         in bnd (mem_solver (evaluate_upto A Z E p k)) (\<lambda>res. case res of
              None \<Rightarrow> throw (StdException ''bad_optional_access'')
            | Some cs \<Rightarrow> bnd (if length cs = k
                then bnd (mem_builder (addr_among A p cs)) (\<lambda>cond. mem_solver (solver_add A cond))
                else ret ()) (\<lambda>_. ret (Some cs))))))"

fun ite_chain :: "amb \<Rightarrow> expr \<Rightarrow> nat \<Rightarrow> endianess \<Rightarrow> bvconst list \<Rightarrow> expr \<Rightarrow> ('z, expr) mm" where
  "ite_chain A p len end [] res = ret res"
| "ite_chain A p len end (c # cs) res =
     bnd (mem_builder (bnd (mk_const A c) (\<lambda>k. mk_eq A k p))) (\<lambda>g.
     bnd (liftr (bv_as_u64 c)) (\<lambda>a. bnd (mem_read A a len end) (\<lambda>v.
     bnd (mem_builder (mk_ite A g v res)) (\<lambda>res'. ite_chain A p len end cs res'))))"

definition mem_read_expr :: "amb \<Rightarrow> 'z z3_api \<Rightarrow> 'z z3_engine \<Rightarrow> expr \<Rightarrow> nat \<Rightarrow> endianess \<Rightarrow> ('z, expr option) mm" where
  "mem_read_expr A Z E p len end = (case p of
     ConstExpr c \<Rightarrow> bnd (liftr (bv_as_u64 c)) (\<lambda>a. bnd (mem_read A a len end) (\<lambda>v. ret (Some v)))
   | _ \<Rightarrow> bnd (concrete_addrs A Z E p) (\<lambda>res. case res of
       None \<Rightarrow> ret None
     | Some [] \<Rightarrow> throw (StdException ''out_of_range'')
     | Some (c # cs) \<Rightarrow> bnd (liftr (bv_as_u64 c)) (\<lambda>a. bnd (mem_read A a len end) (\<lambda>v.
         bnd (ite_chain A p len end cs v) (\<lambda>v'. ret (Some v'))))))"

fun write_each :: "amb \<Rightarrow> expr \<Rightarrow> expr \<Rightarrow> endianess \<Rightarrow> bvconst list \<Rightarrow> ('z, unit) mm" where
  "write_each A p v end [] = ret ()"
| "write_each A p v end (c # cs) = bnd (liftr (bv_as_u64 c)) (\<lambda>a.
     bnd (mem_builder (bnd (mk_const A c) (\<lambda>k. mk_eq A k p))) (\<lambda>g.
     bnd (mem_read A a (expr_size v div 8) end) (\<lambda>old.
     bnd (mem_builder (mk_ite A g v old)) (\<lambda>new.
     bnd (mem_write A a new end) (\<lambda>_. write_each A p v end cs)))))"

definition mem_write_expr :: "amb \<Rightarrow> 'z z3_api \<Rightarrow> 'z z3_engine \<Rightarrow> expr \<Rightarrow> expr \<Rightarrow> endianess \<Rightarrow> ('z, unit option) mm" where
  "mem_write_expr A Z E p v end = (case p of
     ConstExpr c \<Rightarrow> bnd (liftr (bv_as_u64 c)) (\<lambda>a. bnd (mem_write A a v end) (\<lambda>_. ret (Some ())))
   | _ \<Rightarrow> bnd (concrete_addrs A Z E p) (\<lambda>res. case res of
       None \<Rightarrow> ret None
     | Some cs \<Rightarrow> bnd (write_each A p v end cs) (\<lambda>_. ret (Some ()))))"

end
