(* ===== verification/MemorySpec.thy ===== *)
theory MemorySpec
  imports MapMemory ExtractSpec ConcatSpec ConstFold
begin

unbundle bit_operations_syntax

text \<open>
  Memory at concrete addresses: a write stores the bytes of a value in the order of the architecture and changes no other
  address, and a read after it puts the bytes together again. What the argument needs of the kind of value is the locale
  \<open>memory_bytes\<close>; where the parts determine the node it is \<open>memory_value\<close>, with constants and with terms the builder leaves
  alone as its two interpretations. The other values are in \<open>BytesSpec\<close>.
\<close>

section \<open>Builder steps\<close>

lemma mem_builderE:
  assumes "builds A f Q" "binv A (w_builder w)"
  obtains x b where "mem_builder f (m, s, w) = Inr (x, (m, s, w\<lparr>w_builder := b\<rparr>))" "binv A b"
    "same_syms (w_builder w) b" "Q x"
  by (rule buildsE[OF assms]) (simp add: mem_builder_def mem_solver_def building_def in_world_def in_builder_def)

definition mem_ok :: "map_memory \<Rightarrow> bool" where
  "mem_ok m \<longleftrightarrow> (\<forall>a e. m_memory m a = Some e \<longrightarrow> operand 8 e)"

section \<open>Writing and reading\<close>

definition offsets :: "64 word \<Rightarrow> nat \<Rightarrow> 64 word set" where
  "offsets a n = (\<lambda>i. a + of_nat i) ` {..<n}"

lemma offset_inj: "i < 2 ^ 64 \<Longrightarrow> j < 2 ^ 64 \<Longrightarrow> a + of_nat i = (a + of_nat j :: 64 word) \<longleftrightarrow> i = j"
  by (simp add: of_nat_eq_iff word_of_nat_eq_iff take_bit_nat_eq_self)

locale memory_bytes =
  fixes A :: amb and ok :: "nat \<Rightarrow> expr \<Rightarrow> bool" and part :: "expr \<Rightarrow> nat \<Rightarrow> nat \<Rightarrow> expr \<Rightarrow> bool"
  assumes width: "ok len v \<Longrightarrow> 0 < len \<and> expr_size v = 8 * len"
    and byte: "ok len v \<Longrightarrow> j < len \<Longrightarrow> builds A (mk_extract A v (j * 8 + 7) (j * 8)) (part v (j + 1) j)"
    and byte_operand: "ok len v \<Longrightarrow> j < len \<Longrightarrow> part v (j + 1) j e \<Longrightarrow> operand 8 e"
    and join: "ok len v \<Longrightarrow> lo < mid \<Longrightarrow> mid < hi \<Longrightarrow> hi \<le> len \<Longrightarrow> part v hi mid e \<Longrightarrow> part v mid lo e' \<Longrightarrow>
      builds A (mk_concat A e e') (part v hi lo)"
begin

text \<open>The position, by significance, of the byte at offset \<open>i\<close>.\<close>

definition pos :: "endianess \<Rightarrow> nat \<Rightarrow> nat \<Rightarrow> nat" where
  "pos end len i = (if end = BIG then len - i - 1 else i)"

lemma pos_less: "i < len \<Longrightarrow> pos end len i < len"
  by (simp add: pos_def)

definition stored :: "map_memory \<Rightarrow> 64 word \<Rightarrow> expr \<Rightarrow> endianess \<Rightarrow> nat \<Rightarrow> nat \<Rightarrow> bool" where
  "stored m a v end len i \<longleftrightarrow> (\<exists>e. m_memory m (a + of_nat i) = Some e \<and> part v (pos end len i + 1) (pos end len i) e)"

lemma write_loop_spec:
  assumes "ok len v" "len \<le> 2 ^ 64" "binv A (w_builder w)" "i + n = len" "\<forall>j<i. stored m a v end len j"
  shows "\<exists>mem b. write_loop A a v end len i n (m, s, w) = Inr ((), (m\<lparr>m_memory := mem\<rparr>, s, w\<lparr>w_builder := b\<rparr>)) \<and>
    binv A b \<and> same_syms (w_builder w) b \<and> (\<forall>j<len. stored (m\<lparr>m_memory := mem\<rparr>) a v end len j) \<and>
    (\<forall>x. x \<notin> offsets a len \<longrightarrow> mem x = m_memory m x)"
  using assms(3-5)
proof (induction n arbitrary: i m w)
  case 0
  then show ?case by (intro exI[of _ "m_memory m"] exI[of _ "w_builder w"]) (simp add: ret_apply)
next
  case (Suc n)
  then have i: "i < len" by simp
  let ?p = "pos end len i"
  have ex: "(if end = BIG then mk_extract A v ((len - i - 1) * 8 + 7) ((len - i - 1) * 8)
      else mk_extract A v (i * 8 + 7) (i * 8)) = mk_extract A v (?p * 8 + 7) (?p * 8)"
    by (simp add: pos_def)
  obtain e b where e: "mem_builder (mk_extract A v (?p * 8 + 7) (?p * 8)) (m, s, w) = Inr (e, (m, s, w\<lparr>w_builder := b\<rparr>))"
    "binv A b" "same_syms (w_builder w) b" "part v (?p + 1) ?p e"
    by (rule mem_builderE[OF byte[OF assms(1) pos_less[OF i]] Suc.prems(1)])
  have sz: "expr_size e = 8" using byte_operand[OF assms(1) pos_less[OF i] e(4)] by (simp add: operand_def)
  let ?m = "m\<lparr>m_memory := (m_memory m)(a + of_nat i \<mapsto> e)\<rparr>"
  have "stored ?m a v end len j" if "j < i + 1" for j
    using that Suc.prems(3) e(4) offset_inj[of i j a] i assms(2) by (cases "j = i") (auto simp: stored_def)
  then have st: "\<forall>j<i + 1. stored ?m a v end len j" by blast
  have "binv A (w_builder (w\<lparr>w_builder := b\<rparr>))" "i + 1 + n = len" using e(2) Suc.prems(2) by simp_all
  from Suc.IH[OF this st] obtain mem b' where r:
    "write_loop A a v end len (i + 1) n (?m, s, w\<lparr>w_builder := b\<rparr>) = Inr ((), (m\<lparr>m_memory := mem\<rparr>, s, w\<lparr>w_builder := b'\<rparr>))"
    "binv A b'" "same_syms b b'" "\<forall>j<len. stored (m\<lparr>m_memory := mem\<rparr>) a v end len j"
    "\<forall>x. x \<notin> offsets a len \<longrightarrow> mem x = m_memory ?m x"
    by auto
  have "mem x = m_memory m x" if "x \<notin> offsets a len" for x
    using that r(5) i by (auto simp: offsets_def)
  moreover have "write_loop A a v end len i (Suc n) (m, s, w) = Inr ((), (m\<lparr>m_memory := mem\<rparr>, s, w\<lparr>w_builder := b'\<rparr>))"
    unfolding write_loop.simps ex using e(1) sz r(1) by (simp add: bnd_def write_byte_def)
  ultimately show ?case using r(2,4) same_syms_trans[OF e(3) r(3)] by (intro exI[of _ mem] exI[of _ b']) blast
qed

lemma read_byte_stored: "m_memory m x = Some e \<Longrightarrow> read_byte A x (m, s, w) = Inr (e, (m, s, w))"
  by (simp add: read_byte_def bnd_def get_mem_def ret_apply)

definition joined :: "expr \<Rightarrow> endianess \<Rightarrow> nat \<Rightarrow> nat \<Rightarrow> expr \<Rightarrow> bool" where
  "joined v end len i acc \<longleftrightarrow> (if end = BIG then part v len (len - i) acc else part v i 0 acc)"

lemma read_loop_part:
  assumes "ok len v" "binv A (w_builder w)" "i + n = len" "0 < i" "\<forall>j<len. stored m a v end len j" "joined v end len i acc"
  shows "\<exists>r b. read_loop A a end i n acc (m, s, w) = Inr (r, (m, s, w\<lparr>w_builder := b\<rparr>)) \<and> binv A b \<and>
    same_syms (w_builder w) b \<and> part v len 0 r"
  using assms(2-4,6)
proof (induction n arbitrary: i acc w)
  case 0
  then have "part v len 0 acc" by (auto simp: joined_def split: if_splits)
  with 0 show ?case by (intro exI[of _ acc] exI[of _ "w_builder w"]) (simp add: ret_apply)
next
  case (Suc n)
  then have i: "i < len" by simp
  obtain e where e: "m_memory m (a + of_nat i) = Some e" "part v (pos end len i + 1) (pos end len i) e"
    using assms(5) i by (auto simp: stored_def)
  have "builds A (if end = BIG then mk_concat A acc e else mk_concat A e acc) (joined v end len (i + 1))"
  proof (cases "end = BIG")
    case True
    have "builds A (mk_concat A acc e) (part v len (len - (i + 1)))"
      by (rule join[OF assms(1), of _ "len - i"]) (use True e(2) Suc.prems i in \<open>auto simp: joined_def pos_def\<close>)
    with True show ?thesis by (simp add: joined_def[abs_def])
  next
    case False
    have "builds A (mk_concat A e acc) (part v (i + 1) 0)"
      by (rule join[OF assms(1), of _ i]) (use False e(2) Suc.prems i in \<open>auto simp: joined_def pos_def\<close>)
    with False show ?thesis by (simp add: joined_def[abs_def])
  qed
  then obtain acc' b where acc': "mem_builder (if end = BIG then mk_concat A acc e else mk_concat A e acc) (m, s, w)
      = Inr (acc', (m, s, w\<lparr>w_builder := b\<rparr>))" "binv A b" "same_syms (w_builder w) b" "joined v end len (i + 1) acc'"
    by (rule mem_builderE[OF _ Suc.prems(1)])
  have "binv A (w_builder (w\<lparr>w_builder := b\<rparr>))" "i + 1 + n = len" "0 < i + 1" using acc'(2) Suc.prems(2) by simp_all
  from Suc.IH[OF this acc'(4)] acc'(1,3) show ?case
    by (fastforce simp: bnd_def read_byte_stored[OF e(1)] intro: same_syms_trans)
qed

lemma mem_read_part:
  assumes "ok len v" "binv A (w_builder w)" "\<forall>j<len. stored m a v end len j"
  shows "\<exists>r b. mem_read A a len end (m, s, w) = Inr (r, (m, s, w\<lparr>w_builder := b\<rparr>)) \<and> binv A b \<and>
    same_syms (w_builder w) b \<and> part v len 0 r"
proof -
  have len: "0 < len" using width[OF assms(1)] by simp
  then obtain e where e: "m_memory m a = Some e" "part v (pos end len 0 + 1) (pos end len 0) e"
    using assms(3) by (auto simp: stored_def dest!: spec[of _ 0])
  have "joined v end len 1 e" using e(2) len by (simp add: joined_def pos_def split: if_splits)
  moreover have "1 + (len - 1) = len" "0 < (1 :: nat)" using len by simp_all
  ultimately show ?thesis
    using read_loop_part[OF assms(1,2), of 1 "len - 1" m a "end" e s] assms(3) len
    by (simp add: mem_read_def bnd_def read_byte_stored[OF e(1)])
qed

text \<open>Writing and reading back.\<close>

lemma write_stored:
  fixes w :: "'z z3_solver world"
  assumes "ok len v" "len \<le> 2 ^ 64" "binv A (w_builder w)"
  obtains mem b where "mem_write A a v end (m, s, w) = Inr ((), (m\<lparr>m_memory := mem\<rparr>, s, w\<lparr>w_builder := b\<rparr>))"
    "binv A b" "same_syms (w_builder w) b" "\<And>x. x \<notin> offsets a len \<Longrightarrow> mem x = m_memory m x"
    "\<And>x. x \<in> offsets a len \<Longrightarrow> \<exists>e. mem x = Some e \<and> operand 8 e"
    "\<forall>j<len. stored (m\<lparr>m_memory := mem\<rparr>) a v end len j"
proof -
  have sz: "expr_size v = 8 * len" using width[OF assms(1)] by simp
  obtain mem b where r: "write_loop A a v end len 0 len (m, s, w) = Inr ((), (m\<lparr>m_memory := mem\<rparr>, s, w\<lparr>w_builder := b\<rparr>))"
    "binv A b" "same_syms (w_builder w) b" "\<forall>j<len. stored (m\<lparr>m_memory := mem\<rparr>) a v end len j"
    "\<forall>x. x \<notin> offsets a len \<longrightarrow> mem x = m_memory m x"
    using write_loop_spec[OF assms(1-3), of 0 len m a "end" s] by auto
  have "mem_write A a v end (m, s, w) = Inr ((), (m\<lparr>m_memory := mem\<rparr>, s, w\<lparr>w_builder := b\<rparr>))"
    using r(1) by (simp add: mem_write_def sz)
  moreover have "\<exists>e. mem x = Some e \<and> operand 8 e" if "x \<in> offsets a len" for x
    using that r(4) byte_operand[OF assms(1) pos_less] by (fastforce simp: offsets_def stored_def)
  ultimately show ?thesis
    using r by (intro that[of mem b]) (blast | simp)+
qed

lemma round_trip_part:
  fixes w :: "'z z3_solver world"
  assumes "ok len v" "len \<le> 2 ^ 64" "binv A (w_builder w)"
  obtains mem b r b' where "mem_write A a v end (m, s, w) = Inr ((), (m\<lparr>m_memory := mem\<rparr>, s, w\<lparr>w_builder := b\<rparr>))"
    "mem_read A a len end (m\<lparr>m_memory := mem\<rparr>, s, w\<lparr>w_builder := b\<rparr>) =
      Inr (r, (m\<lparr>m_memory := mem\<rparr>, s, w\<lparr>w_builder := b'\<rparr>))" "part v len 0 r"
    "\<And>x. x \<notin> offsets a len \<Longrightarrow> mem x = m_memory m x" "\<And>x. x \<in> offsets a len \<Longrightarrow> \<exists>e. mem x = Some e \<and> operand 8 e"
proof (rule write_stored[OF assms, of a "end" m s])
  fix mem b
  assume r: "mem_write A a v end (m, s, w) = Inr ((), (m\<lparr>m_memory := mem\<rparr>, s, w\<lparr>w_builder := b\<rparr>))" "binv A b"
    "\<And>x. x \<notin> offsets a len \<Longrightarrow> mem x = m_memory m x" "\<And>x. x \<in> offsets a len \<Longrightarrow> \<exists>e. mem x = Some e \<and> operand 8 e"
    and st: "\<forall>j<len. stored (m\<lparr>m_memory := mem\<rparr>) a v end len j"
  have "binv A (w_builder (w\<lparr>w_builder := b\<rparr>))" using r(2) by simp
  from mem_read_part[OF assms(1) this st, of s] obtain x b' where
    "mem_read A a len end (m\<lparr>m_memory := mem\<rparr>, s, w\<lparr>w_builder := b\<rparr>) =
      Inr (x, (m\<lparr>m_memory := mem\<rparr>, s, w\<lparr>w_builder := b\<rparr>\<lparr>w_builder := b'\<rparr>))" "part v len 0 x" by blast
  then show thesis using that[of mem b x b'] r by simp
qed

end

text \<open>Values that their parts determine.\<close>

locale memory_value = memory_bytes +
  assumes whole: "ok len v \<Longrightarrow> part v len 0 e \<Longrightarrow> e = v"
begin

lemma mem_read_spec:
  assumes "ok len v" "binv A (w_builder w)" "\<forall>j<len. stored m a v end len j"
  shows "\<exists>b. mem_read A a len end (m, s, w) = Inr (v, (m, s, w\<lparr>w_builder := b\<rparr>)) \<and> binv A b \<and> same_syms (w_builder w) b"
  using mem_read_part[OF assms, of s] whole[OF assms(1)] by blast

lemma round_trip:
  fixes w :: "'z z3_solver world"
  assumes "ok len v" "len \<le> 2 ^ 64" "binv A (w_builder w)"
  shows "\<exists>mem b b'. mem_write A a v end (m, s, w) = Inr ((), (m\<lparr>m_memory := mem\<rparr>, s, w\<lparr>w_builder := b\<rparr>)) \<and>
    mem_read A a len end (m\<lparr>m_memory := mem\<rparr>, s, w\<lparr>w_builder := b\<rparr>) =
      Inr (v, (m\<lparr>m_memory := mem\<rparr>, s, w\<lparr>w_builder := b'\<rparr>)) \<and>
    (\<forall>x. x \<notin> offsets a len \<longrightarrow> mem x = m_memory m x) \<and> (\<forall>x\<in>offsets a len. \<exists>e. mem x = Some e \<and> operand 8 e)"
  by (rule round_trip_part[OF assms, of a "end" m s]) (use whole[OF assms(1)] in blast)

end

section \<open>Constants\<close>

definition const_ok :: "nat \<Rightarrow> expr \<Rightarrow> bool" where
  "const_ok len v \<longleftrightarrow> 0 < len \<and> (\<exists>c. v = ConstExpr c \<and> konst (8 * len) (bv_val c) v)"

definition const_part :: "expr \<Rightarrow> nat \<Rightarrow> nat \<Rightarrow> expr \<Rightarrow> bool" where
  "const_part v hi lo e \<longleftrightarrow> (\<exists>c. v = ConstExpr c \<and>
     konst (8 * (hi - lo)) (take_bit (8 * (hi - lo)) (drop_bit (8 * lo) (bv_val c))) e)"

lemma konst_same: "konst n x e \<Longrightarrow> konst n x e' \<Longrightarrow> e = e'"
  using bvconst_canonical_eq by (auto simp: konst_def bv_rep_def)

interpretation const_mem: memory_value A const_ok const_part for A
proof unfold_locales
  fix len v
  assume "const_ok len v"
  then show "0 < len \<and> expr_size v = 8 * len" by (auto simp: const_ok_def bv_rep_size)
next
  fix len v j
  assume "const_ok len v" "j < len"
  then show "builds A (mk_extract A v (j * 8 + 7) (j * 8)) (const_part v (j + 1) j)"
    using mk_extract_konst[of "8 * len" _ v "j * 8" "j * 8 + 7" A]
    by (fastforce simp: const_ok_def const_part_def[abs_def] mult.commute)
next
  fix len v j e
  assume "const_part v (j + 1) j e"
  then show "operand 8 e" by (auto simp: const_part_def konst_def bv_rep_def operand_def)
next
  fix len v lo mid hi e e'
  assume b: "lo < mid" "mid < hi" and e: "const_part v hi mid e" "const_part v mid lo e'"
  then obtain c where c: "v = ConstExpr c"
    "konst (8 * (hi - mid)) (take_bit (8 * (hi - mid)) (drop_bit (8 * mid) (bv_val c))) e"
    "konst (8 * (mid - lo)) (take_bit (8 * (mid - lo)) (drop_bit (8 * lo) (bv_val c))) e'"
    by (auto simp: const_part_def)
  have w: "8 * (hi - mid) + 8 * (mid - lo) = 8 * (hi - lo)" using b by simp
  have "push_bit (8 * (mid - lo)) (take_bit (8 * (hi - mid)) (drop_bit (8 * mid) x)) OR
      take_bit (8 * (mid - lo)) (drop_bit (8 * lo) x) = take_bit (8 * (hi - lo)) (drop_bit (8 * lo) x)" for x :: int
  proof (rule bit_eqI)
    fix n
    have "8 * mid + (n - 8 * (mid - lo)) = 8 * lo + n" if "8 * (mid - lo) \<le> n" using that b by linarith
    moreover have "n - 8 * (mid - lo) < 8 * (hi - mid) \<longleftrightarrow> n < 8 * (hi - lo)" if "8 * (mid - lo) \<le> n" using that b by linarith
    moreover have "n < 8 * (hi - lo)" if "\<not> 8 * (mid - lo) \<le> n" using that b by linarith
    ultimately show "bit (push_bit (8 * (mid - lo)) (take_bit (8 * (hi - mid)) (drop_bit (8 * mid) x)) OR
      take_bit (8 * (mid - lo)) (drop_bit (8 * lo) x)) n \<longleftrightarrow> bit (take_bit (8 * (hi - lo)) (drop_bit (8 * lo) x)) n"
      by (cases "8 * (mid - lo) \<le> n") (simp_all add: bit_simps)
  qed
  with mk_concat_konst[OF c(2,3), of A] c(1) w show "builds A (mk_concat A e e') (const_part v hi lo)"
    by (simp add: const_part_def[abs_def])
next
  fix len v e
  assume "const_ok len v" "const_part v len 0 e"
  then obtain c where c: "v = ConstExpr c" "konst (8 * len) (bv_val c) v" "konst (8 * len) (take_bit (8 * len) (bv_val c)) e"
    by (auto simp: const_ok_def const_part_def)
  have "take_bit (8 * len) (bv_val c) = bv_val c" using konst_take_bit[OF c(2)] .
  with konst_same[OF c(2)] c(3) show "e = v" by simp
qed

section \<open>Symbolic values\<close>

definition term_ok :: "nat \<Rightarrow> expr \<Rightarrow> bool" where
  "term_ok len v \<longleftrightarrow> 0 < len \<and> operand (8 * len) v \<and> kind v \<notin> {K_CONST, K_EXTRACT, K_CONCAT, K_ZEXT, K_SEXT}"

definition piece :: "expr \<Rightarrow> nat \<Rightarrow> nat \<Rightarrow> expr" where
  "piece v h l = (if l = 0 \<and> h = expr_size v - 1 then v else ExtractExpr v h l)"

definition term_part :: "expr \<Rightarrow> nat \<Rightarrow> nat \<Rightarrow> expr \<Rightarrow> bool" where
  "term_part v hi lo e \<longleftrightarrow> e = piece v (8 * hi - 1) (8 * lo)"

lemma extract_piece:
  assumes "term_ok len v" "l \<le> h" "h < 8 * len"
  shows "builds A (mk_extract A v h l) (\<lambda>e. e = piece v h l)"
proof (cases "l = 0 \<and> h = expr_size v - 1")
  case True
  then have "mk_extract A v h l = ret v" unfolding mk_extract.simps[of A v h l] by simp
  with True show ?thesis by (simp add: piece_def builds_ret)
next
  case False
  have v: "operand (8 * len) v" "kind v \<notin> {K_CONST, K_EXTRACT, K_CONCAT, K_ZEXT, K_SEXT}"
    using assms(1) unfolding term_ok_def by blast+
  have "mk_extract A v h l = get_or_create A (ExtractExpr v h l)" by (rule mk_extract_other[OF False assms(2) v(2)])
  moreover have "wf_expr (ExtractExpr v h l)" using v assms(2,3) by (auto simp: operand_def)
  ultimately show ?thesis using False by (auto simp: piece_def intro: get_or_create_builds)
qed

lemma concat_pieces:
  assumes "term_ok len v" "l' \<le> h'" "h' < h" "h < 8 * len"
  shows "builds A (mk_concat A (piece v h (h' + 1)) (piece v h' l')) (\<lambda>e. e = piece v h l')"
proof -
  have v: "expr_size v = 8 * len" "kind v \<notin> {K_CONST, K_EXTRACT, K_CONCAT, K_ZEXT, K_SEXT}"
    using assms(1) by (simp_all add: term_ok_def operand_def)
  have p: "piece v h (h' + 1) = ExtractExpr v h (h' + 1)" "piece v h' l' = ExtractExpr v h' l'"
    using assms v by (auto simp: piece_def)
  have "concat_sext (ExtractExpr v h (h' + 1)) (ExtractExpr v h' l') = None"
    using v(2) by (cases v) (simp_all add: concat_sext_def)
  moreover have "dest_const (ExtractExpr v h l) = None" for h l by (simp add: dest_const_def)
  ultimately have "mk_concat A (piece v h (h' + 1)) (piece v h' l') = bnd (mk_extract A v h l') (\<lambda>c. ret c)"
    unfolding p mk_concat_def
    by (simp add: concat_els_def Let_def merge_extracts.simps[of A es cps 0 for es cps]
        merge_extracts.simps[of A es cps "Suc (Suc 0)" for es cps] bnd_def ret_def fun_eq_iff split: sum.split)
  with extract_piece[OF assms(1), of l' h A] assms show ?thesis by (simp add: builds_bnd builds_ret)
qed

interpretation term_mem: memory_value A term_ok term_part for A
proof unfold_locales
  fix len v
  assume "term_ok len v"
  then show "0 < len \<and> expr_size v = 8 * len" by (simp add: term_ok_def operand_def)
next
  fix len v j
  assume "term_ok len v" "j < len"
  then show "builds A (mk_extract A v (j * 8 + 7) (j * 8)) (term_part v (j + 1) j)"
    using extract_piece[of len v "j * 8" "j * 8 + 7" A] by (simp add: term_part_def[abs_def] mult.commute add.commute)
next
  fix len v j e
  assume "term_ok len v" "j < len" "term_part v (j + 1) j e"
  then show "operand 8 e" by (auto simp: term_ok_def term_part_def piece_def operand_def)
next
  fix len v lo mid hi e e'
  assume "term_ok len v" "lo < mid" "mid < hi" "hi \<le> len" "term_part v hi mid e" "term_part v mid lo e'"
  then show "builds A (mk_concat A e e') (term_part v hi lo)"
    using concat_pieces[of len v "8 * lo" "8 * mid - 1" "8 * hi - 1" A] by (simp add: term_part_def[abs_def])
next
  fix len v e
  assume "term_ok len v" "term_part v len 0 e"
  then show "e = v" by (simp add: term_part_def piece_def term_ok_def operand_def)
qed

end
