(* ===== verification/Memory_Properties.thy ===== *)
theory Memory_Properties
  imports MemorySpec Builder_Properties
begin

text \<open>
  The properties of the address space and of memory.
\<close>

section \<open>The address space\<close>

text \<open>C35: the reads of the address space, for bytes that lie in one segment: a little-endian read of eight bytes gives their
  little-endian value, but the big-endian read only swaps the two halves and leaves the bytes of each half in
  little-endian order.\<close>

theorem address_space_reads:
  assumes "covers as s a 8"
  shows "as_read_byte as a = Some (seg_byte s a 0) \<and>
    map_option uint (read_qword as a LITTLE) = Some (seg_value s a [0, 1, 2, 3, 4, 5, 6, 7]) \<and>
    map_option uint (read_qword as a BIG) = Some (seg_value s a [4, 5, 6, 7, 0, 1, 2, 3])"
proof (intro conjI)
  have "covers as s a 1" using covers_shift[OF assms, of 0 1] by simp
  then show "as_read_byte as a = Some (seg_byte s a 0)" by (rule read_byte_covers)
  show "map_option uint (read_qword as a LITTLE) = Some (seg_value s a [0, 1, 2, 3, 4, 5, 6, 7])"
    by (rule qword_value[OF assms, of LITTLE]) simp
  show "map_option uint (read_qword as a BIG) = Some (seg_value s a [4, 5, 6, 7, 0, 1, 2, 3])"
    by (rule qword_value[OF assms, of BIG]) simp
qed

theorem address_space_reads_witness:
  "map_option uint (read_qword (register_segment_vec ''text'' 0x1000 [1, 2, 3, 4, 5, 6, 7, 8] 1 AddressSpace_init) 0x1000 LITTLE)
     = Some 0x0807060504030201 \<and>
   map_option uint (read_qword (register_segment_vec ''text'' 0x1000 [1, 2, 3, 4, 5, 6, 7, 8] 1 AddressSpace_init) 0x1000 BIG)
     = Some 0x0403020108070605"
proof -
  let ?d = "[1, 2, 3, 4, 5, 6, 7, 8] :: 8 word list"
  let ?as = "register_segment_vec ''text'' 0x1000 ?d 1 AddressSpace_init" and ?s = "Segment_data ''text'' 0x1000 ?d 8 1"
  have segs: "m_segments ?as = [?s]"
    by (simp add: register_segment_vec_def register_segment_def AddressSpace_init_def)
  have "contains ?s (0x1000 + of_nat i)" if "i < 8" for i
  proof -
    have "i \<in> {0, 1, 2, 3, 4, 5, 6, 7}" using that by auto
    then show ?thesis by (auto simp: contains_def Segment_data_def)
  qed
  then have "covers ?as ?s 0x1000 8" by (simp add: covers_def segs)
  from address_space_reads[OF this] show ?thesis
    by (simp add: seg_value_def seg_byte_def Segment_data_def)
qed

section \<open>Memory\<close>

text \<open>C15: a write at a concrete address followed by a read of the same length and byte order gives back the value written,
  the same shared node, whether it is a constant or a term the builder does not take apart; it changes no other address,
  stores well-formed bytes, and wraps around at the top of the address space.\<close>

theorem memory_round_trip:
  fixes w :: "'z z3_solver world"
  assumes "const_ok len v \<or> term_ok len v" and "len \<le> 2 ^ 64" and "binv A (w_builder w)"
  shows "\<exists>mem b b'. mem_write A a v end (m, s, w) = Inr ((), (m\<lparr>m_memory := mem\<rparr>, s, w\<lparr>w_builder := b\<rparr>)) \<and>
    mem_read A a len end (m\<lparr>m_memory := mem\<rparr>, s, w\<lparr>w_builder := b\<rparr>) =
      Inr (v, (m\<lparr>m_memory := mem\<rparr>, s, w\<lparr>w_builder := b'\<rparr>)) \<and>
    (\<forall>x. x \<notin> offsets a len \<longrightarrow> mem x = m_memory m x) \<and> (\<forall>x\<in>offsets a len. \<exists>e. mem x = Some e \<and> operand 8 e)"
  using assms(1)
  by (elim disjE) (rule const_mem.round_trip[OF _ assms(2,3)], assumption, rule term_mem.round_trip[OF _ assms(2,3)], assumption)

definition empty_world :: "builder \<Rightarrow> 'z z3_solver world" where
  "empty_world b = \<lparr>w_builder = b, w_involved = Map.empty, w_z3 = \<lparr>z3_assertions = [], z3_checks = 0\<rparr>\<rparr>"

theorem memory_round_trip_witness:
  "\<exists>m' b b'. mem_write sample_env (- 1) (sym32 0) BIG (MapMemory_name Config_init ''ram'' RET_SYM, Solver_init, empty_world ExprBuilder_init :: unit z3_solver world) =
       Inr ((), (m', Solver_init, empty_world b)) \<and>
     mem_read sample_env (- 1) 4 BIG (m', Solver_init, empty_world b) = Inr (sym32 0, (m', Solver_init, empty_world b' :: unit z3_solver world)) \<and>
     m_memory m' 3 = None"
proof -
  let ?w = "empty_world ExprBuilder_init :: unit z3_solver world" and ?m = "MapMemory_name Config_init ''ram'' RET_SYM"
  have "term_ok 4 (sym32 0)" by (simp add: term_ok_def sym32_def operand_def)
  moreover have "binv sample_env (w_builder ?w)" by (simp add: empty_world_def binv_init)
  ultimately obtain mem b b' where
    "mem_write sample_env (- 1) (sym32 0) BIG (?m, Solver_init, ?w) = Inr ((), (?m\<lparr>m_memory := mem\<rparr>, Solver_init, ?w\<lparr>w_builder := b\<rparr>))"
    "mem_read sample_env (- 1) 4 BIG (?m\<lparr>m_memory := mem\<rparr>, Solver_init, ?w\<lparr>w_builder := b\<rparr>) =
      Inr (sym32 0, (?m\<lparr>m_memory := mem\<rparr>, Solver_init, ?w\<lparr>w_builder := b'\<rparr>))"
    "\<forall>x. x \<notin> offsets (- 1) 4 \<longrightarrow> mem x = m_memory ?m x"
    using memory_round_trip[of 4 "sym32 0" sample_env ?w "- 1" BIG ?m Solver_init] by auto
  moreover have "3 \<notin> offsets (- 1) 4"
  proof -
    have "i \<in> {0, 1, 2, 3}" if "i < 4" for i :: nat using that by auto
    then show ?thesis by (fastforce simp: offsets_def)
  qed
  moreover have "m_memory ?m 3 = None" by (simp add: MapMemory_name_def MapMemory_as_def)
  moreover have "?w\<lparr>w_builder := c\<rparr> = empty_world c" for c by (simp add: empty_world_def)
  ultimately show ?thesis
    by (intro exI[of _ "?m\<lparr>m_memory := mem\<rparr>"] exI[of _ b] exI[of _ b']) simp
qed

text \<open>C34: reading a byte that was never written: the byte of the address space when it has one, and otherwise what the
  behaviour of the memory says: a fresh symbol named after the memory and the address, the constant zero, or the end of
  the process; the byte read is stored, so that reading it again gives the same node and changes nothing.\<close>

theorem memory_uninitialised:
  assumes "m_memory m a = None" and "binv A (w_builder w)"
    and "m_symbols (w_builder w) (byte_name (mm_name m) a) = None" and "unat (m_sym_ids (w_builder w)) < 2 ^ 32 - 1"
  shows "case (case m_as m of None \<Rightarrow> None | Some as \<Rightarrow> as_read_byte as a, m_uninit_behavior m) of
      (None, THROW_ERR) \<Rightarrow> read_byte A a (m, s, w) = Inl (Exit ''read_byte'')
    | (content, behaviour) \<Rightarrow> \<exists>e b. read_byte A a (m, s, w) =
          Inr (e, (m\<lparr>m_memory := (m_memory m)(a \<mapsto> e)\<rparr>, s, w\<lparr>w_builder := b\<rparr>)) \<and> binv A b \<and>
        read_byte A a (m\<lparr>m_memory := (m_memory m)(a \<mapsto> e)\<rparr>, s, w\<lparr>w_builder := b\<rparr>) =
          Inr (e, (m\<lparr>m_memory := (m_memory m)(a \<mapsto> e)\<rparr>, s, w\<lparr>w_builder := b\<rparr>)) \<and>
        (case content of Some v \<Rightarrow> konst 8 (uint v) e
         | None \<Rightarrow> if behaviour = RET_ZERO then konst 8 0 e
           else e = SymExpr (unat (m_sym_ids (w_builder w))) 8 \<and>
             m_sym_id_to_name b (unat (m_sym_ids (w_builder w))) = Some (byte_name (mm_name m) a))"
proof -
  let ?content = "case m_as m of None \<Rightarrow> None | Some as \<Rightarrow> as_read_byte as a"
  let ?R = "\<lambda>f Q. \<exists>e b. fill_byte a f (m, s, w) = Inr (e, (m\<lparr>m_memory := (m_memory m)(a \<mapsto> e)\<rparr>, s, w\<lparr>w_builder := b\<rparr>)) \<and>
    binv A b \<and> read_byte A a (m\<lparr>m_memory := (m_memory m)(a \<mapsto> e)\<rparr>, s, w\<lparr>w_builder := b\<rparr>) =
          Inr (e, (m\<lparr>m_memory := (m_memory m)(a \<mapsto> e)\<rparr>, s, w\<lparr>w_builder := b\<rparr>)) \<and> Q e b"
  have fill: "?R f Q" if "f (w_builder w) = Inr (e, b)" "binv A b" "expr_size e = 8" "Q e b" for f Q e b
    using that by (intro exI[of _ e] exI[of _ b]) (simp add: fill_byte_def bnd_def mem_builder_def mem_solver_def
        building_def in_world_def in_builder_def write_byte_def ret_apply const_mem.read_byte_stored)
  have const: "?R (mk_const_u64 A (ucast v) 8) (\<lambda>e b. konst 8 (uint v) e)" for v :: "8 word"
  proof -
    have "builds A (mk_const_u64 A (ucast v) 8) (konst 8 (uint v))"
      by (rule const_u64_konst) (simp_all add: unsigned_ucast_eq take_bit_int_eq_self uint_lt2p[where 'a = 8, simplified])
    then obtain e b where "mk_const_u64 A (ucast v) 8 (w_builder w) = Inr (e, b)" "binv A b" "konst 8 (uint v) e"
      by (rule buildsE[OF _ assms(2)])
    then show ?thesis by (intro fill) (auto simp: konst_def bv_rep_def)
  qed
  obtain b where sym: "mk_sym A (byte_name (mm_name m) a) 8 (w_builder w) = Inr (SymExpr (unat (m_sym_ids (w_builder w))) 8, b)"
    "binv A b" "m_sym_id_to_name b (unat (m_sym_ids (w_builder w))) = Some (byte_name (mm_name m) a)"
    using mk_sym_fresh[OF assms(2,3) _ assms(4), of 8] by auto
  have sym: "?R (mk_sym A (byte_name (mm_name m) a) 8) (\<lambda>e b. e = SymExpr (unat (m_sym_ids (w_builder w))) 8 \<and>
      m_sym_id_to_name b (unat (m_sym_ids (w_builder w))) = Some (byte_name (mm_name m) a))"
    by (rule fill[where f = "mk_sym A (byte_name (mm_name m) a) 8", OF sym(1,2)]) (simp_all add: sym(3))
  have r: "read_byte A a (m, s, w) = (case ?content of Some b \<Rightarrow> fill_byte a (mk_const_u64 A (ucast b) 8)
     | None \<Rightarrow> (case m_uninit_behavior m of RET_SYM \<Rightarrow> fill_byte a (mk_sym A (byte_name (mm_name m) a) 8)
       | RET_ZERO \<Rightarrow> fill_byte a (mk_const_u64 A 0 8) | THROW_ERR \<Rightarrow> throw (Exit ''read_byte''))) (m, s, w)"
    using assms(1) by (simp add: read_byte_def bnd_def get_mem_def)
  show ?thesis
  proof (cases ?content)
    case (Some v)
    with const[of v] r show ?thesis by simp
  next
    case None
    then show ?thesis using const[of 0] sym r by (cases "m_uninit_behavior m") (simp_all add: throw_def)
  qed
qed

theorem memory_uninitialised_witness:
  "\<exists>m b. read_byte sample_env 16 (MapMemory_name Config_init ''ram'' RET_SYM, Solver_init, empty_world ExprBuilder_init :: unit z3_solver world) =
       Inr (SymExpr 0 8, (m, Solver_init, empty_world b)) \<and> m_memory m 16 = Some (SymExpr 0 8) \<and>
     m_sym_id_to_name b 0 = Some ''ram+0x10''"
proof -
  let ?w = "empty_world ExprBuilder_init :: unit z3_solver world" and ?m = "MapMemory_name Config_init ''ram'' RET_SYM"
  have m: "m_memory ?m 16 = None" "m_uninit_behavior ?m = RET_SYM" "m_as ?m = None" "mm_name ?m = ''ram''"
    by (simp_all add: MapMemory_name_def MapMemory_as_def)
  have w: "w_builder ?w = ExprBuilder_init" "unat (m_sym_ids ExprBuilder_init) = 0"
    "m_symbols ExprBuilder_init n = None" "binv sample_env ExprBuilder_init" for n
    by (simp_all add: empty_world_def ExprBuilder_init_def binv_init[unfolded ExprBuilder_init_def])
  have n: "byte_name ''ram'' 16 = ''ram+0x10''" by (simp add: byte_name_def) code_simp
  have e: "?w\<lparr>w_builder := c\<rparr> = empty_world c" for c by (simp add: empty_world_def)
  from memory_uninitialised[of ?m 16 sample_env ?w Solver_init] m w n e show ?thesis by auto
qed

end
