(* ===== verification/FileSystem.thy ===== *)
theory FileSystem
  imports MapMemory
begin

text \<open>
  The files of a state, \<^verbatim>\<open>state/File.cpp\<close> and \<^verbatim>\<open>state/FileSystem.cpp\<close>: a file is a memory with a size, an open file is a
  handle with an offset, and the table of open files is indexed by descriptors. File names and contents are never those of
  the host.
\<close>

section \<open>Files and handles\<close>

record sfile =
  m_filename :: string
  f_size :: "64 word"
  m_content :: map_memory

record file_handle =
  h_filename :: string
  m_off :: "64 word"
  m_descriptor :: int

text \<open>An operation on something that lives next to the solver and the world.\<close>

type_synonym ('x, 'z, 'a) beside = "('x \<times> solver \<times> 'z z3_solver world, 'a) smonad"

definition get_it :: "('x, 'z, 'x) beside" where
  "get_it = (\<lambda>(x, sw). Inr (x, (x, sw)))"

definition modify :: "('x \<Rightarrow> 'x) \<Rightarrow> ('x, 'z, unit) beside" where
  "modify f = (\<lambda>(x, sw). Inr ((), (f x, sw)))"

definition in_content :: "('z, 'a) mm \<Rightarrow> (sfile, 'z, 'a) beside" where
  "in_content op = (\<lambda>(f, sw). case op (m_content f, sw) of
     Inl e \<Rightarrow> Inl e | Inr (x, (c, sw')) \<Rightarrow> Inr (x, (f\<lparr>m_content := c\<rparr>, sw')))"

definition File_init :: "config \<Rightarrow> string \<Rightarrow> sfile" where
  "File_init cfg name = \<lparr>m_filename = name, f_size = 0, m_content = MapMemory_name cfg name RET_SYM\<rparr>"

definition file_clone :: "sfile \<Rightarrow> sfile" where
  "file_clone f = f\<lparr>m_content := mm_clone (m_content f)\<rparr>"

definition enlarge :: "64 word \<Rightarrow> sfile \<Rightarrow> sfile" where
  "enlarge off f = (if off > f_size f then f\<lparr>f_size := off\<rparr> else f)"

definition file_read :: "amb \<Rightarrow> 64 word \<Rightarrow> 64 word \<Rightarrow> (sfile, 'z, expr) beside" where
  "file_read A off n = bnd (in_content (mem_read A off (unat n) BIG)) (\<lambda>e.
     bnd (modify (enlarge (off + n))) (\<lambda>_. ret e))"

definition file_read_all :: "amb \<Rightarrow> (sfile, 'z, expr) beside" where
  "file_read_all A = bnd get_it (\<lambda>f. in_content (mem_read A 0 (unat (f_size f)) BIG))"

definition file_write :: "amb \<Rightarrow> 64 word \<Rightarrow> expr \<Rightarrow> (sfile, 'z, unit) beside" where
  "file_write A off data = bnd (in_content (mem_write A off data BIG)) (\<lambda>_.
     modify (enlarge (off + of_nat (expr_size data div 8))))"

definition gen_handle :: "int \<Rightarrow> sfile \<Rightarrow> file_handle" where
  "gen_handle fd f = \<lparr>h_filename = m_filename f, m_off = 0, m_descriptor = fd\<rparr>"

text \<open>The operations of a handle return the handle updated.\<close>

definition handle_seek :: "file_handle \<Rightarrow> 64 word \<Rightarrow> (sfile, 'z, file_handle) beside" where
  "handle_seek h off = bnd (modify (enlarge off)) (\<lambda>_. ret (h\<lparr>m_off := off\<rparr>))"

definition handle_read :: "amb \<Rightarrow> file_handle \<Rightarrow> 64 word \<Rightarrow> (sfile, 'z, expr \<times> file_handle) beside" where
  "handle_read A h n = bnd (file_read A (m_off h) n) (\<lambda>e. ret (e, h\<lparr>m_off := m_off h + n\<rparr>))"

definition handle_write :: "amb \<Rightarrow> file_handle \<Rightarrow> expr \<Rightarrow> (sfile, 'z, file_handle) beside" where
  "handle_write A h data = bnd (file_write A (m_off h) data) (\<lambda>_.
     ret (h\<lparr>m_off := m_off h + of_nat (expr_size data div 8)\<rparr>))"

section \<open>The file system\<close>

record file_system =
  m_files :: "string \<Rightarrow> sfile option"
  m_open_files :: "int \<Rightarrow> file_handle option"
  m_free_fd :: int

type_synonym ('z, 'a) fsm = "(file_system, 'z, 'a) beside"

text \<open>The insertion of a handle has no effect on a descriptor that is in use; the counter is an \<^verbatim>\<open>int\<close>.\<close>

definition fs_open :: "config \<Rightarrow> string \<Rightarrow> file_system \<Rightarrow> (int \<times> file_system) res" where
  "fs_open cfg path fs =
     (let f = (case m_files fs path of Some f \<Rightarrow> f | None \<Rightarrow> File_init cfg path);
          h = gen_handle (m_free_fd fs) f
      in if m_free_fd fs \<ge> 2 ^ 31 - 1 then Inl (Undefined ''signed overflow'')
         else Inr (m_descriptor h, fs\<lparr>m_files := (m_files fs)(path \<mapsto> f), m_free_fd := m_free_fd fs + 1,
           m_open_files := (case m_open_files fs (m_descriptor h) of
             None \<Rightarrow> (m_open_files fs)(m_descriptor h \<mapsto> h) | Some _ \<Rightarrow> m_open_files fs)\<rparr>))"

definition FileSystem_init :: "config \<Rightarrow> file_system res" where
  "FileSystem_init cfg = rbind (fs_open cfg ''stdin'' \<lparr>m_files = Map.empty, m_open_files = Map.empty, m_free_fd = 0\<rparr>)
     (\<lambda>(fd, fs). if fd \<noteq> 0 then Inl (Assertion ''stdin'') else rbind (fs_open cfg ''stdout'' fs)
     (\<lambda>(fd, fs). if fd \<noteq> 1 then Inl (Assertion ''stdout'') else rbind (fs_open cfg ''stderr'' fs)
     (\<lambda>(fd, fs). if fd \<noteq> 2 then Inl (Assertion ''stderr'') else Inr fs)))"

definition fs_clone :: "file_system \<Rightarrow> file_system" where
  "fs_clone fs = fs\<lparr>m_files := (\<lambda>name. map_option file_clone (m_files fs name))\<rparr>"

definition fs_close :: "int \<Rightarrow> file_system \<Rightarrow> file_system res" where
  "fs_close fd fs = (if m_open_files fs fd = None then Inl (Exit ''close'')
     else Inr (fs\<lparr>m_open_files := (m_open_files fs)(fd := None),
       m_free_fd := (if fd = m_free_fd fs - 1 then m_free_fd fs - 1 else m_free_fd fs)\<rparr>))"

text \<open>The handle of a descriptor works on the file of its name; both are stored again.\<close>

definition with_handle :: "string \<Rightarrow> int \<Rightarrow> (file_handle \<Rightarrow> (sfile, 'z, 'a \<times> file_handle) beside) \<Rightarrow> ('z, 'a) fsm" where
  "with_handle msg fd op = (\<lambda>(fs, sw). case m_open_files fs fd of
     None \<Rightarrow> Inl (Exit msg)
   | Some h \<Rightarrow> (case m_files fs (h_filename h) of
       None \<Rightarrow> Inl (StdException ''out_of_range'')
     | Some f \<Rightarrow> (case op h (f, sw) of
         Inl e \<Rightarrow> Inl e
       | Inr ((x, h'), (f', sw')) \<Rightarrow> Inr (x, (fs\<lparr>m_files := (m_files fs)(h_filename h \<mapsto> f'),
           m_open_files := (m_open_files fs)(fd \<mapsto> h')\<rparr>, sw')))))"

definition fs_seek :: "int \<Rightarrow> 64 word \<Rightarrow> ('z, unit) fsm" where
  "fs_seek fd off = with_handle ''seek'' fd (\<lambda>h. bnd (handle_seek h off) (\<lambda>h'. ret ((), h')))"

text \<open>A negative size becomes a large unsigned one.\<close>

definition fs_read :: "amb \<Rightarrow> int \<Rightarrow> 64 word \<Rightarrow> ('z, expr) fsm" where
  "fs_read A fd n = with_handle ''read'' fd (\<lambda>h. handle_read A h n)"

definition fs_write :: "amb \<Rightarrow> int \<Rightarrow> expr \<Rightarrow> ('z, unit) fsm" where
  "fs_write A fd data = with_handle ''write'' fd (\<lambda>h. bnd (handle_write A h data) (\<lambda>h'. ret ((), h')))"

section \<open>The invariant of the table\<close>

text \<open>Every open descriptor lies below the next free one, is the one of its handle, and its file exists; every file lies
  under its name and has no solver.\<close>

definition fs_ok :: "file_system \<Rightarrow> bool" where
  "fs_ok fs \<longleftrightarrow> 0 \<le> m_free_fd fs \<and>
     (\<forall>fd h. m_open_files fs fd = Some h \<longrightarrow> 0 \<le> fd \<and> fd < m_free_fd fs \<and> m_descriptor h = fd \<and> m_files fs (h_filename h) \<noteq> None) \<and>
     (\<forall>name f. m_files fs name = Some f \<longrightarrow> m_filename f = name \<and> \<not> has_solver (m_content f))"

lemma fs_okD:
  assumes "fs_ok fs"
  shows "0 \<le> m_free_fd fs" "m_open_files fs fd = Some h \<Longrightarrow> 0 \<le> fd \<and> fd < m_free_fd fs \<and> m_descriptor h = fd"
    "m_open_files fs fd = Some h \<Longrightarrow> \<exists>f. m_files fs (h_filename h) = Some f"
    "m_files fs name = Some f \<Longrightarrow> m_filename f = name \<and> \<not> has_solver (m_content f)"
  using assms by (fastforce simp: fs_ok_def)+

end
