(* ===== verification/BytesSpec.thy ===== *)
theory BytesSpec
  imports MemorySpec
begin

unbundle bit_operations_syntax

text \<open>
  Values in memory that reading does not give back as the same node, as concatenations and extensions: their bytes are put
  together to a node that means the same. The nodes that the two merges of \<^verbatim>\<open>mk_concat\<close> leave as they should be are
  closed under concatenation, so any row of such bytes can be read.
\<close>

section \<open>Concatenations of plain elements\<close>

text \<open>A node that extraction does not look into, and an element of a concatenation: not a concatenation itself, and an
  extraction only of such a node.\<close>

definition atomic :: "expr \<Rightarrow> bool" where
  "atomic b \<longleftrightarrow> kind b \<notin> {K_CONST, K_EXTRACT, K_CONCAT, K_ZEXT, K_SEXT}"

definition element :: "expr \<Rightarrow> bool" where
  "element e \<longleftrightarrow> part e \<and> kind e \<noteq> K_CONCAT \<and> (case e of ExtractExpr b _ _ \<Rightarrow> atomic b | _ \<Rightarrow> True)"

definition plain :: "expr \<Rightarrow> bool" where
  "plain e \<longleftrightarrow> no_adjacent (concat_els e) \<and> (\<forall>x\<in>set (concat_els e). element x)"

lemma elementI: "part e \<Longrightarrow> kind e \<notin> {K_CONCAT, K_EXTRACT} \<Longrightarrow> element e"
  by (cases e) (simp_all add: element_def)

lemma element_atomic: "part e \<Longrightarrow> atomic e \<Longrightarrow> element e"
  by (rule elementI) (auto simp: atomic_def)

lemma element_plain: "element e \<Longrightarrow> plain e"
  by (cases e) (simp_all add: plain_def concat_els_def element_def)

lemma element_merge_ok: "element e \<Longrightarrow> merge_ok e"
  by (auto simp: element_def merge_ok_def atomic_def split: expr.splits)

lemma plain_concat_ok: "plain e \<Longrightarrow> concat_ok e"
  using element_merge_ok by (auto simp: plain_def concat_ok_def list_all_iff merge_ok_def)

lemma extract_atomic:
  assumes "operand n b" "low \<le> high" "high < n" "atomic b"
  shows "builds A (mk_extract A b high low) (\<lambda>c. element c \<and> dest_const c = None)"
proof (cases "low = 0 \<and> high = expr_size b - 1")
  case True
  then have "mk_extract A b high low = ret b" by (auto simp: mk_extract.simps)
  moreover have "element b" "dest_const b = None"
    using assms operand_part[OF assms(1)] by (auto simp: element_atomic atomic_def dest_const_kind)
  ultimately show ?thesis by (simp add: builds_ret)
next
  case False
  then have "mk_extract A b high low = get_or_create A (ExtractExpr b high low)"
    using assms by (intro mk_extract_other) (auto simp: atomic_def)
  moreover have "wf_expr (ExtractExpr b high low)" using assms by (auto simp: operand_def atomic_def)
  ultimately show ?thesis
    using assms(4) by (auto simp: element_def part_def dest_const_def intro!: get_or_create_builds)
qed

lemma const_prop_plain:
  assumes "operand n l" "operand m r" "plain l" "plain r"
  shows "builds A (const_prop A (concat_els l @ concat_els r)) (\<lambda>cps. no_adjacent cps \<and> (\<forall>x\<in>set cps. element x))"
proof -
  let ?ls = "concat_els l" and ?rs = "concat_els r"
  note l = concat_els_spec[OF assms(1)] and r = concat_els_spec[OF assms(2)]
  have ok: "no_adjacent ?ls" "no_adjacent ?rs" "\<forall>e\<in>set ?ls. element e" "\<forall>e\<in>set ?rs. element e"
    using assms(3,4) by (simp_all add: plain_def)
  show ?thesis
  proof (cases "dest_const (last ?ls) = None \<or> dest_const (hd ?rs) = None")
    case True
    then have "no_adjacent (?ls @ ?rs)" using ok by (intro no_adjacent_append) auto
    moreover have "\<forall>e\<in>set (?ls @ ?rs). part e" using l(1) r(1) by auto
    ultimately have "builds A (const_prop A (?ls @ ?rs)) (\<lambda>cps. cps = ?ls @ ?rs)" by (rule const_prop_same)
    then show ?thesis
      by (rule builds_conseq) (use ok \<open>no_adjacent (?ls @ ?rs)\<close> in auto)
  next
    case False
    then obtain a b where ab: "last ?ls = ConstExpr a" "hd ?rs = ConstExpr b" by auto
    obtain ls where ls: "?ls = ls @ [ConstExpr a]" using l(2) ab(1) by (metis append_butlast_last_id)
    obtain rs where rs: "?rs = ConstExpr b # rs" using r(2) ab(2) by (cases ?rs) auto
    have eq: "?ls @ ?rs = ls @ ConstExpr a # ConstExpr b # rs" using ls rs by simp
    have p: "\<forall>e\<in>set (ls @ ConstExpr a # ConstExpr b # rs). part e" using l(1) r(1) unfolding eq[symmetric] by auto
    have "builds A (const_prop A (ls @ ConstExpr a # ConstExpr b # rs)) (\<lambda>ks. \<exists>k. ks = ls @ ConstExpr k # rs \<and>
      operand (m_size a + m_size b) (ConstExpr k) \<and> bv_val k = push_bit (m_size b) (bv_val a) OR bv_val b)"
      using ok(1,2) p unfolding ls rs by (intro const_prop_junction) auto
    then show ?thesis
      unfolding eq
    proof (rule builds_conseq, elim exE conjE)
      fix ks k
      assume ks: "ks = ls @ ConstExpr k # rs" and k: "operand (m_size a + m_size b) (ConstExpr k)"
      have front: "no_adjacent ls \<and> (ls = [] \<or> dest_const (last ls) = None)" if "no_adjacent (ls @ [ConstExpr c])" for ls c
        using that by (induction ls rule: no_adjacent.induct) (auto simp del: not_None_eq)
      have tail: "no_adjacent (ConstExpr k # rs)" using ok(2) unfolding rs by (cases rs) auto
      have "no_adjacent ks"
        unfolding ks using front[of ls a] tail ok(1) unfolding ls by (intro no_adjacent_append) auto
      moreover have "element (ConstExpr k)" using operand_part[OF k] by (intro elementI) auto
      ultimately show "no_adjacent ks \<and> (\<forall>x\<in>set ks. element x)" using ok(3,4) unfolding ks ls rs by auto
    qed
  qed
qed

lemma merge_extracts_plain:
  assumes "no_adjacent cps" "\<forall>x\<in>set cps. element x" "\<forall>e\<in>set exprs. part e"
  shows "builds A (merge_extracts A exprs cps i) (\<lambda>ks. no_adjacent ks \<and> (\<forall>x\<in>set ks. element x) \<and>
    (ks \<noteq> [] \<and> dest_const (hd ks) \<noteq> None \<longrightarrow> i < length cps \<and> dest_const (cps ! i) \<noteq> None))"
    (is "builds A _ (?Q i)")
proof (induction "length cps - i" arbitrary: i rule: less_induct)
  case less
  show ?case
  proof (cases "i < length cps")
    case False
    then show ?thesis by (subst merge_extracts.simps) auto
  next
    case i: True
    let ?e = "cps ! i"
    have e: "element ?e" using assms(2) i by simp
    have adj: "\<not> (dest_const ?e \<noteq> None \<and> dest_const (cps ! (i + 1)) \<noteq> None)" if "i + 1 < length cps"
      using assms(1) that
    proof (induction cps arbitrary: i rule: no_adjacent.induct)
      case (1 x y zs)
      then show ?case by (cases i) auto
    qed auto
    show ?thesis
    proof (cases "\<exists>b h l. ?e = ExtractExpr b h l")
      case False
      have IH: "builds A (merge_extracts A exprs cps (i + 1)) (?Q (i + 1))" by (rule less.hyps) (use i in simp)
      have "builds A (bnd (merge_extracts A exprs cps (i + 1)) (\<lambda>cs. ret (?e # cs))) (?Q i)"
      proof (rule builds_bnd[OF IH], rule builds_ret)
        fix cs
        assume "?Q (i + 1) cs"
        then show "?Q i (?e # cs)" using e i adj by (cases cs) auto
      qed
      with merge_extracts_other[OF i False] show ?thesis by simp
    next
      case True
      then obtain b h l where b: "?e = ExtractExpr b h l" by blast
      have wb: "operand (expr_size b) b" "l \<le> h" "h < expr_size b" "atomic b"
        using e b by (auto simp: part_def operand_def element_def)
      obtain j low' where r: "extract_run b (drop (i + 1) exprs) l (i + 1) = (j, low')" by fastforce
      have "\<forall>e\<in>set (drop (i + 1) exprs). part e" using assms(3) by (auto dest: in_set_dropD)
      from extract_run_spec[OF r this] have low: "low' \<le> l" "i < j" by auto
      have ex: "builds A (mk_extract A b h low') (\<lambda>c. element c \<and> dest_const c = None)"
        using wb low by (intro extract_atomic) auto
      have IH: "builds A (merge_extracts A exprs cps j) (?Q j)" by (rule less.hyps) (use i low in simp)
      have eq: "merge_extracts A exprs cps i = bnd (mk_extract A b h low') (\<lambda>c.
             bnd (merge_extracts A exprs cps j) (\<lambda>cs. ret (c # cs)))"
        using i b r by (subst merge_extracts.simps) simp
      show ?thesis
        unfolding eq
      proof (rule builds_bnd[OF ex], rule builds_bnd[OF IH], rule builds_ret)
        fix c cs
        assume "element c \<and> dest_const c = None" "?Q j cs"
        then show "?Q i (c # cs)" by (cases cs) auto
      qed
    qed
  qed
qed

lemma concat_sext_plain: "plain l \<Longrightarrow> concat_sext l r = None"
  by (auto simp: plain_def concat_sext_def concat_els_def element_def atomic_def split: expr.splits)

lemma mk_concat_plain:
  assumes "operand n l" "operand m r" "plain l" "plain r"
  shows "builds A (mk_concat A l r) (\<lambda>e. plain e \<and>
    denotes A (n + m) (\<lambda>\<rho>. push_bit m (sem (fpl A) \<rho> l) OR sem (fpl A) \<rho> r) e)"
proof (rule builds_conj[OF _ mk_concat_denotes[OF assms(1,2)]])
  show ok: "concat_ok l" "concat_ok r" using assms(3,4) by (simp_all add: plain_concat_ok)
  let ?ex = "concat_els l @ concat_els r"
  have p: "\<forall>e\<in>set ?ex. part e" using concat_els_spec(1)[OF assms(1)] concat_els_spec(1)[OF assms(2)] by auto
  have "builds A (bnd (const_prop A ?ex) (\<lambda>cps. bnd (merge_extracts A ?ex cps 0) (\<lambda>kids.
      case kids of [c] \<Rightarrow> ret c | _ \<Rightarrow> get_or_create A (ConcatExpr kids)))) plain"
  proof (rule builds_bnd[OF builds_conj[OF const_prop_builds[OF assms(1,2) ok] const_prop_plain[OF assms]]])
    fix cps
    assume c: "(runs_agree ?ex cps \<and> (\<forall>e\<in>set cps. part e \<and> merge_ok e) \<and> cps \<noteq> [] \<and> parts_width cps = n + m \<and>
      (\<forall>F \<rho>. parts_val F \<rho> cps = push_bit m (sem F \<rho> l) OR sem F \<rho> r)) \<and> no_adjacent cps \<and> (\<forall>x\<in>set cps. element x)"
    then have ra: "runs_agree ?ex cps" "\<forall>e\<in>set cps. part e \<and> merge_ok e" and pl: "no_adjacent cps" "\<forall>x\<in>set cps. element x" by auto
    note mb = builds_conj[OF merge_extracts_builds[OF ra p, of A 0] merge_extracts_plain[OF pl p, of A 0]]
    show "builds A (bnd (merge_extracts A ?ex cps 0) (\<lambda>kids. case kids of [c] \<Rightarrow> ret c | _ \<Rightarrow> get_or_create A (ConcatExpr kids))) plain"
    proof (rule builds_bnd[OF mb])
      fix ks
      assume k: "((\<forall>k\<in>set ks. part k) \<and> parts_width ks = parts_width (drop 0 cps) \<and> (0 < length cps \<longrightarrow> ks \<noteq> []) \<and>
          (\<forall>\<rho>. parts_val (fpl A) \<rho> ks = parts_val (fpl A) \<rho> (drop 0 cps))) \<and> no_adjacent ks \<and> (\<forall>x\<in>set ks. element x) \<and>
          (ks \<noteq> [] \<and> dest_const (hd ks) \<noteq> None \<longrightarrow> 0 < length cps \<and> dest_const (cps ! 0) \<noteq> None)"
      have ne: "ks \<noteq> []" using k c by auto
      have wf: "wf_expr (ConcatExpr ks)" using k ne by (auto simp: part_def list_all_iff)
      have "plain (ConcatExpr ks)" using k by (simp add: plain_def concat_els_def)
      then have goc: "builds A (get_or_create A (ConcatExpr ks)) plain" using wf by (intro get_or_create_builds) auto
      have "builds A (ret x) plain" if "ks = [x]" for x using k that by (auto intro: element_plain)
      then show "builds A (case ks of [c] \<Rightarrow> ret c | _ \<Rightarrow> get_or_create A (ConcatExpr ks)) plain"
        using goc by (auto split: list.split)
    qed
  qed
  then show "builds A (mk_concat A l r) plain"
    using concat_sext_plain[OF assms(3), of r] by (simp add: mk_concat_def Let_def)
qed

text \<open>A property of nodes that concatenation keeps: constants have it, an extraction and a concatenation have it when the nodes
  below have it.\<close>

definition leafy :: "(expr \<Rightarrow> bool) \<Rightarrow> bool" where
  "leafy Q \<longleftrightarrow> (\<forall>c. Q (ConstExpr c)) \<and> (\<forall>b h l. Q (ExtractExpr b h l) = Q b) \<and> (\<forall>es. Q (ConcatExpr es) = (\<forall>x\<in>set es. Q x))"

lemma leafy_els: "leafy Q \<Longrightarrow> (\<forall>x\<in>set (concat_els e). Q x) = Q e"
  by (cases e) (simp_all add: concat_els_def leafy_def)

lemma extract_atomic_leafy:
  assumes "operand n b" "low \<le> high" "high < n" "atomic b" "leafy Q" "Q b"
  shows "builds A (mk_extract A b high low) Q"
proof (cases "low = 0 \<and> high = expr_size b - 1")
  case True
  then have "mk_extract A b high low = ret b" by (auto simp: mk_extract.simps)
  then show ?thesis using assms(6) by (simp add: builds_ret)
next
  case False
  then have "mk_extract A b high low = get_or_create A (ExtractExpr b high low)"
    using assms by (intro mk_extract_other) (auto simp: atomic_def)
  moreover have "wf_expr (ExtractExpr b high low)" "Q (ExtractExpr b high low)"
    using assms by (auto simp: operand_def atomic_def leafy_def)
  ultimately show ?thesis by (auto intro!: get_or_create_builds)
qed

lemma const_prop_leafy:
  assumes "operand n l" "operand m r" "plain l" "plain r" "leafy Q" "Q l" "Q r"
  shows "builds A (const_prop A (concat_els l @ concat_els r)) (\<lambda>cps. \<forall>x\<in>set cps. Q x)"
proof -
  let ?ls = "concat_els l" and ?rs = "concat_els r"
  note l = concat_els_spec[OF assms(1)] and r = concat_els_spec[OF assms(2)]
  have ok: "no_adjacent ?ls" "no_adjacent ?rs" "\<forall>e\<in>set ?ls. Q e" "\<forall>e\<in>set ?rs. Q e"
    using assms(3,4,6,7) by (simp_all add: plain_def leafy_els[OF assms(5)])
  show ?thesis
  proof (cases "dest_const (last ?ls) = None \<or> dest_const (hd ?rs) = None")
    case True
    then have "no_adjacent (?ls @ ?rs)" using ok by (intro no_adjacent_append) auto
    moreover have "\<forall>e\<in>set (?ls @ ?rs). part e" using l(1) r(1) by auto
    ultimately have "builds A (const_prop A (?ls @ ?rs)) (\<lambda>cps. cps = ?ls @ ?rs)" by (rule const_prop_same)
    then show ?thesis by (rule builds_conseq) (use ok in auto)
  next
    case False
    then obtain a b where ab: "last ?ls = ConstExpr a" "hd ?rs = ConstExpr b" by auto
    obtain ls where ls: "?ls = ls @ [ConstExpr a]" using l(2) ab(1) by (metis append_butlast_last_id)
    obtain rs where rs: "?rs = ConstExpr b # rs" using r(2) ab(2) by (cases ?rs) auto
    have eq: "?ls @ ?rs = ls @ ConstExpr a # ConstExpr b # rs" using ls rs by simp
    have p: "\<forall>e\<in>set (ls @ ConstExpr a # ConstExpr b # rs). part e" using l(1) r(1) unfolding eq[symmetric] by auto
    have "builds A (const_prop A (ls @ ConstExpr a # ConstExpr b # rs)) (\<lambda>ks. \<exists>k. ks = ls @ ConstExpr k # rs \<and>
      operand (m_size a + m_size b) (ConstExpr k) \<and> bv_val k = push_bit (m_size b) (bv_val a) OR bv_val b)"
      using ok(1,2) p unfolding ls rs by (intro const_prop_junction) auto
    then show ?thesis
      unfolding eq by (rule builds_conseq) (use ok(3,4) assms(5) in \<open>auto simp: ls rs leafy_def\<close>)
  qed
qed

lemma merge_extracts_leafy:
  assumes "\<forall>x\<in>set cps. element x \<and> Q x" "\<forall>e\<in>set exprs. part e" "leafy Q"
  shows "builds A (merge_extracts A exprs cps i) (\<lambda>ks. \<forall>x\<in>set ks. Q x)"
proof (induction "length cps - i" arbitrary: i rule: less_induct)
  case less
  show ?case
  proof (cases "i < length cps")
    case False
    then show ?thesis by (subst merge_extracts.simps) auto
  next
    case i: True
    let ?e = "cps ! i"
    have e: "element ?e" "Q ?e" using assms(1) i by simp_all
    show ?thesis
    proof (cases "\<exists>b h l. ?e = ExtractExpr b h l")
      case False
      have "builds A (merge_extracts A exprs cps (i + 1)) (\<lambda>ks. \<forall>x\<in>set ks. Q x)" by (rule less.hyps) (use i in simp)
      then have "builds A (bnd (merge_extracts A exprs cps (i + 1)) (\<lambda>cs. ret (?e # cs))) (\<lambda>ks. \<forall>x\<in>set ks. Q x)"
        by (rule builds_bnd) (simp add: builds_ret e(2))
      with merge_extracts_other[OF i False] show ?thesis by simp
    next
      case True
      then obtain b h l where b: "?e = ExtractExpr b h l" by blast
      have wb: "operand (expr_size b) b" "l \<le> h" "h < expr_size b" "atomic b" "Q b"
        using e b assms(3) by (auto simp: part_def operand_def element_def leafy_def)
      obtain j low' where r: "extract_run b (drop (i + 1) exprs) l (i + 1) = (j, low')" by fastforce
      have "\<forall>e\<in>set (drop (i + 1) exprs). part e" using assms(2) by (auto dest: in_set_dropD)
      from extract_run_spec[OF r this] have low: "low' \<le> l" "i < j" by auto
      have ex: "builds A (mk_extract A b h low') Q"
        using wb low assms(3) by (intro extract_atomic_leafy) auto
      have IH: "builds A (merge_extracts A exprs cps j) (\<lambda>ks. \<forall>x\<in>set ks. Q x)" by (rule less.hyps) (use i low in simp)
      have eq: "merge_extracts A exprs cps i = bnd (mk_extract A b h low') (\<lambda>c.
             bnd (merge_extracts A exprs cps j) (\<lambda>cs. ret (c # cs)))"
        using i b r by (subst merge_extracts.simps) simp
      show ?thesis
        unfolding eq by (rule builds_bnd[OF ex], rule builds_bnd[OF IH]) (simp add: builds_ret)
    qed
  qed
qed

lemma mk_concat_leafy:
  assumes "operand n l" "operand m r" "plain l" "plain r" and Q: "leafy Q" "Q l" "Q r"
  shows "builds A (mk_concat A l r) Q"
proof -
  have ok: "concat_ok l" "concat_ok r" using assms(3,4) by (simp_all add: plain_concat_ok)
  let ?ex = "concat_els l @ concat_els r"
  have p: "\<forall>e\<in>set ?ex. part e" using concat_els_spec(1)[OF assms(1)] concat_els_spec(1)[OF assms(2)] by auto
  note cb = builds_conj[OF const_prop_builds[OF assms(1,2) ok] builds_conj[OF const_prop_plain[OF assms(1-4)] const_prop_leafy[OF assms]]]
  have "builds A (bnd (const_prop A ?ex) (\<lambda>cps. bnd (merge_extracts A ?ex cps 0) (\<lambda>kids.
      case kids of [c] \<Rightarrow> ret c | _ \<Rightarrow> get_or_create A (ConcatExpr kids)))) Q"
  proof (rule builds_bnd[OF cb], elim conjE)
    fix cps
    assume ra: "runs_agree ?ex cps" "\<forall>e\<in>set cps. part e \<and> merge_ok e" "cps \<noteq> []"
      and pl: "\<forall>x\<in>set cps. element x" "\<forall>x\<in>set cps. Q x"
    have "\<forall>x\<in>set cps. element x \<and> Q x" using pl by blast
    note mb = builds_conj[OF merge_extracts_builds[OF ra(1,2) p, of A 0] merge_extracts_leafy[OF this p Q(1), of A 0]]
    show "builds A (bnd (merge_extracts A ?ex cps 0) (\<lambda>kids. case kids of [c] \<Rightarrow> ret c | _ \<Rightarrow> get_or_create A (ConcatExpr kids))) Q"
    proof (rule builds_bnd[OF mb], elim conjE)
      fix ks
      assume k: "\<forall>k\<in>set ks. part k" "0 < length cps \<longrightarrow> ks \<noteq> []" "\<forall>x\<in>set ks. Q x"
      have wf: "wf_expr (ConcatExpr ks)" using k ra(3) by (auto simp: part_def list_all_iff)
      have "Q (ConcatExpr ks)" using k(3) Q(1) by (simp add: leafy_def)
      then have goc: "builds A (get_or_create A (ConcatExpr ks)) Q" using wf by (intro get_or_create_builds) auto
      have "builds A (ret x) Q" if "ks = [x]" for x using k that by (simp add: builds_ret)
      then show "builds A (case ks of [c] \<Rightarrow> ret c | _ \<Rightarrow> get_or_create A (ConcatExpr ks)) Q"
        using goc by (auto split: list.split)
    qed
  qed
  then show "builds A (mk_concat A l r) Q"
    using concat_sext_plain[OF assms(3), of r] by (simp add: mk_concat_def Let_def)
qed

section \<open>The bytes of a value\<close>

text \<open>No extraction of the bits asked for crosses the parts of a concatenation or the end of an extended value, except that
  all of it may be asked for.\<close>

fun sliced :: "expr \<Rightarrow> nat \<Rightarrow> nat \<Rightarrow> bool" where
  "sliced e high low = (if low = 0 \<and> high = expr_size e - 1 then plain e else (case e of
     ConstExpr _ \<Rightarrow> True
   | ExtractExpr b _ _ \<Rightarrow> atomic b
   | ConcatExpr es \<Rightarrow> (case concat_part es (expr_size e) high low of
        Some (c, off) \<Rightarrow> sliced c (high - off) (low - off) | None \<Rightarrow> False)
   | ZextExpr b n \<Rightarrow> if low = 0 \<and> high = expr_size b - 1 then plain b
       else low \<ge> expr_size b \<or> (high < expr_size b \<and> sliced b high low)
   | SextExpr b n \<Rightarrow> low = 0 \<and> high = expr_size b - 1 \<and> plain b
   | _ \<Rightarrow> True))"

declare sliced.simps [simp del]

lemma sliced_extract_ok: "sliced e high low \<Longrightarrow> extract_ok e high low"
proof (induction e high low rule: sliced.induct)
  case (1 e high low)
  show ?case
  proof (cases "low = 0 \<and> high = expr_size e - 1")
    case True
    then show ?thesis by (subst extract_ok.simps) simp
  next
    case part: False
    consider (concat) es where "e = ConcatExpr es" | (zext) b n where "e = ZextExpr b n" | (other) "kind e \<notin> {K_ZEXT, K_CONCAT}"
      by (cases e) auto
    then show ?thesis
    proof cases
      case concat
      with "1.prems" part obtain c off where c: "concat_part es (expr_size e) high low = Some (c, off)" "sliced c (high - off) (low - off)"
        by (auto simp: sliced.simps[of "ConcatExpr es"] split: option.splits)
      with concat "1.IH"(1)[OF part concat c(1) refl] show ?thesis by simp
    next
      case zext
      then show ?thesis
      proof (cases "low = 0 \<and> high = expr_size b - 1 \<or> low \<ge> expr_size b")
        case True
        then have "extract_ok b high low \<and> high < expr_size b \<or> low \<ge> expr_size b"
          by (cases "expr_size b = 0") (auto simp: extract_ok.simps[of b])
        with zext show ?thesis by auto
      next
        case False
        with "1.prems" part zext have "high < expr_size b" "sliced b high low" by (auto simp: sliced.simps[of "ZextExpr b n"])
        with "1.IH"(2)[OF part zext] False zext show ?thesis by auto
      qed
    qed (rule extract_ok_other)
  qed
qed

lemma element_part: "element e \<Longrightarrow> part e"
  by (simp add: element_def)

lemma goc_extract_plain:
  assumes "operand n b" "low \<le> high" "high < n" "atomic b"
  shows "builds A (get_or_create A (ExtractExpr b high low)) plain"
  using assms by (intro get_or_create_builds element_plain) (auto simp: element_def part_def operand_def atomic_def)

lemma const_plain: "0 < n \<Longrightarrow> builds A (mk_const_u64 A v n) plain"
  by (rule mk_const_u64_builds) (auto intro!: element_plain elementI simp: part_def bv_rep_def)

lemma mk_extract_plain:
  assumes "operand n e" "low \<le> high" "high < n" "sliced e high low"
  shows "builds A (mk_extract A e high low) plain"
  using assms
proof (induction A e high low arbitrary: n rule: mk_extract.induct)
  case (1 A e high low)
  have n: "expr_size e = n" "0 < n" "wf_expr e" "is_bv e" using operandD[OF "1.prems"(1)] by auto
  show ?case
  proof (cases "low = 0 \<and> high = expr_size e - 1")
    case True
    then have "mk_extract A e high low = ret e" by (auto simp: mk_extract.simps)
    moreover have "plain e" using True "1.prems"(4) by (simp add: sliced.simps[of e])
    ultimately show ?thesis by (simp add: builds_ret)
  next
    case part: False
    consider (const) c where "e = ConstExpr c" | (extr) b h l where "e = ExtractExpr b h l"
      | (concat) es where "e = ConcatExpr es" | (zext) b k where "e = ZextExpr b k"
      | (sext) b k where "e = SextExpr b k"
      | (other) "kind e \<notin> {K_CONST, K_EXTRACT, K_CONCAT, K_ZEXT, K_SEXT}"
      by (cases e) auto
    then show ?thesis
    proof cases
      case const
      with "1.prems"(1) have c: "bv_rep n (bv_val c) c" "BVConst_copy c = c" using operand_const by auto
      have "builds A (mk_const_of A (bv_extract (BVConst_copy c) high low)) plain"
        unfolding c(2) by (rule mk_const_of_builds[OF bv_extract_yields[OF c(1) "1.prems"(2,3)]])
          (auto intro!: element_plain elementI simp: part_def bv_rep_def)
      with const part "1.prems" show ?thesis by (auto simp: mk_extract.simps)
    next
      case extr
      then have "atomic b" using "1.prems"(4) part by (auto simp: sliced.simps[of "ExtractExpr b h l"])
      then have "builds A (get_or_create A (ExtractExpr b (high + l) (low + l))) plain"
        using extr n "1.prems" by (intro goc_extract_plain[of "expr_size b"]) (auto simp: operand_def)
      with extr part "1.prems"(2) show ?thesis by (auto simp: mk_extract.simps)
    next
      case other
      then have "mk_extract A e high low = get_or_create A (ExtractExpr e high low)" using part "1.prems"(2) by (intro mk_extract_other) auto
      with goc_extract_plain[OF "1.prems"(1-3)] other show ?thesis by (simp add: atomic_def)
    next
      case concat
      then obtain c off where c: "concat_part es n high low = Some (c, off)" "sliced c (high - off) (low - off)"
        using "1.prems"(4) part n by (auto simp: sliced.simps[of "ConcatExpr es"] split: option.splits)
      have es: "\<forall>c\<in>set es. wf_expr c \<and> is_bv c" "n = sum_list (map expr_size es)"
        using n concat by (auto simp: list_all_iff)
      note sp = concat_part_spec[OF c(1)[unfolded es(2)] es(1) "1.prems"(2)]
      have eq: "mk_extract A e high low = mk_extract A c (high - off) (low - off)"
        using concat part "1.prems" n c by (auto simp: mk_extract.simps)
      show ?thesis
        unfolding eq using concat part "1.prems" n c sp es(1)
        by (intro "1.IH"(1)[of es "(c, off)" c off "expr_size c"]) (auto simp: operand_def)
    next
      case zext
      then have b: "operand (expr_size b) b" "expr_size b < n" "k = n" using n by (auto simp: operand_def)
      have sl: "if low = 0 \<and> high = expr_size b - 1 then plain b else low \<ge> expr_size b \<or> (high < expr_size b \<and> sliced b high low)"
        using "1.prems"(4) part unfolding zext by (subst (asm) sliced.simps) (simp split: if_splits)
      consider (all) "low = 0" "high = expr_size b - 1" | (high) "low \<ge> expr_size b"
        | (low) "\<not> (low = 0 \<and> high = expr_size b - 1)" "\<not> low \<ge> expr_size b" "high < expr_size b" "sliced b high low"
        using sl by (auto split: if_splits)
      then show ?thesis
      proof cases
        case all
        then have "mk_extract A e high low = ret b" using zext part by (auto simp: mk_extract.simps)
        with sl all show ?thesis by (simp add: builds_ret)
      next
        case high
        with zext part "1.prems"(2) operandD(4)[OF b(1)] show ?thesis by (auto simp: mk_extract.simps const_plain)
      next
        case low
        have eq: "mk_extract A e high low = bnd (mk_extract A b high low) (\<lambda>r. mk_zext A r (high - low + 1))"
          using low zext part "1.prems" b by (auto simp: mk_extract.simps min_def)
        have "min high (k - 1) = high" using "1.prems"(3) b by simp
        then have IH: "builds A (mk_extract A b high low) plain"
          using "1.IH"(2)[of b k "expr_size b"] low zext part "1.prems" b by (simp only: min.absorb1) auto
        note d = mk_extract_denotes[OF b(1) "1.prems"(2) low(3) sliced_extract_ok[OF low(4)], of A]
        show ?thesis
          unfolding eq
        proof (rule builds_bnd[OF builds_conj[OF IH d]])
          fix r
          assume r: "plain r \<and> denotes A (high - low + 1) (\<lambda>\<rho>. bits_of high low (sem (fpl A) \<rho> b)) r"
          then have "expr_size r = high - low + 1" by (simp add: denotes_def)
          with r show "builds A (mk_zext A r (high - low + 1)) plain" by (simp add: mk_zext_def builds_ret)
        qed
      qed
    next
      case sext
      then have sl: "low = 0 \<and> high = expr_size b - 1 \<and> plain b"
        using "1.prems"(4) part by (subst (asm) sliced.simps) (simp split: if_splits)
      then have "mk_extract A e high low = ret b" using sext part by (auto simp: mk_extract.simps)
      with sl show ?thesis by (simp add: builds_ret)
    qed
  qed
qed

definition sliceable :: "nat \<Rightarrow> expr \<Rightarrow> bool" where
  "sliceable len v \<longleftrightarrow> 0 < len \<and> operand (8 * len) v \<and> (\<forall>j<len. sliced v (j * 8 + 7) (j * 8))"

definition value_part :: "amb \<Rightarrow> expr \<Rightarrow> nat \<Rightarrow> nat \<Rightarrow> expr \<Rightarrow> bool" where
  "value_part A v hi lo e \<longleftrightarrow> plain e \<and> denotes A (8 * (hi - lo)) (\<lambda>\<rho>. bits_of (8 * hi - 1) (8 * lo) (sem (fpl A) \<rho> v)) e"

interpretation sliced_mem: memory_bytes A sliceable "value_part A" for A
proof unfold_locales
  fix len v
  assume "sliceable len v"
  then show "0 < len \<and> expr_size v = 8 * len" by (simp add: sliceable_def operand_def)
next
  fix len v j
  assume "sliceable len v" "j < len"
  then have v: "operand (8 * len) v" "sliced v (j * 8 + 7) (j * 8)" "j * 8 + 7 < 8 * len" by (auto simp: sliceable_def)
  have "builds A (mk_extract A v (j * 8 + 7) (j * 8)) (denotes A (j * 8 + 7 - j * 8 + 1) (\<lambda>\<rho>. bits_of (j * 8 + 7) (j * 8) (sem (fpl A) \<rho> v)))"
    by (rule mk_extract_denotes[OF v(1) _ v(3) sliced_extract_ok[OF v(2)]]) simp
  from builds_conj[OF mk_extract_plain[OF v(1) _ v(3,2)] this]
  show "builds A (mk_extract A v (j * 8 + 7) (j * 8)) (value_part A v (j + 1) j)"
    by (simp add: value_part_def[abs_def] mult.commute add.commute)
next
  fix len v j e
  assume "value_part A v (j + 1) j e"
  then show "operand 8 e" using denotes_operand by (auto simp: value_part_def)
next
  fix len v lo mid hi e e'
  assume b: "lo < mid" "mid < hi" and e: "value_part A v hi mid e" "value_part A v mid lo e'"
  then have p: "plain e" "plain e'" and d: "denotes A (8 * (hi - mid)) (\<lambda>\<rho>. bits_of (8 * hi - 1) (8 * mid) (sem (fpl A) \<rho> v)) e"
    "denotes A (8 * (mid - lo)) (\<lambda>\<rho>. bits_of (8 * mid - 1) (8 * lo) (sem (fpl A) \<rho> v)) e'" by (auto simp: value_part_def)
  have w: "8 * (hi - mid) + 8 * (mid - lo) = 8 * (hi - lo)" "8 * mid - 8 * lo = 8 * (mid - lo)" using b by simp_all
  have j: "push_bit (8 * (mid - lo)) (bits_of (8 * hi - 1) (8 * mid) x) OR bits_of (8 * mid - 1) (8 * lo) x = bits_of (8 * hi - 1) (8 * lo) x" for x
    using bits_of_join[of "8 * lo" "8 * mid" "8 * hi - 1" x] b by (simp add: w(2))
  show "builds A (mk_concat A e e') (value_part A v hi lo)"
    using mk_concat_plain[OF denotes_operand[OF d(1)] denotes_operand[OF d(2)] p, of A]
    by (simp add: value_part_def[abs_def] w(1) denotes_sem[OF d(1)] denotes_sem[OF d(2)] j[unfolded One_nat_def])
qed

lemma value_part_whole: "sliceable len v \<Longrightarrow> value_part A v len 0 e \<Longrightarrow> denotes A (8 * len) (\<lambda>\<rho>. sem (fpl A) \<rho> v) e"
proof -
  assume v: "sliceable len v" and e: "value_part A v len 0 e"
  have "operand (8 * len) v" "0 < 8 * len" using v by (simp_all add: sliceable_def)
  then have "bits_of (8 * len - 1) 0 (sem F \<rho> v) = sem F \<rho> v" for F \<rho>
    using bits_of_all[of "8 * len" "sem F \<rho> v"] sem_bv_range[of v F \<rho>] by (auto simp: operand_def)
  with e show ?thesis by (simp add: value_part_def)
qed

lemma const_sliceable: "const_ok len v \<Longrightarrow> sliceable len v"
proof -
  assume v: "const_ok len v"
  then obtain c where c: "v = ConstExpr c" by (auto simp: const_ok_def)
  have op: "operand (8 * len) v" using v by (auto simp: const_ok_def konst_def bv_rep_def operand_def)
  then have "plain v" using operand_part[OF op] c by (intro element_plain elementI) auto
  then show ?thesis using v op c by (auto simp: sliceable_def sliced.simps[of "ConstExpr c"] const_ok_def)
qed

lemma term_sliceable: "term_ok len v \<Longrightarrow> sliceable len v"
proof -
  assume v: "term_ok len v"
  then have op: "operand (8 * len) v" and k: "kind v \<notin> {K_CONST, K_EXTRACT, K_CONCAT, K_ZEXT, K_SEXT}"
    by (auto simp: term_ok_def)
  have "plain v" using operand_part[OF op] k by (intro element_plain elementI) auto
  then have "sliced v h l" for h l using k by (subst sliced.simps) (cases v; simp)
  then show ?thesis using v op by (simp add: sliceable_def term_ok_def)
qed

section \<open>Any row of bytes\<close>

definition byte_at :: "map_memory \<Rightarrow> 64 word \<Rightarrow> nat \<Rightarrow> expr" where
  "byte_at m a j = the (m_memory m (a + of_nat j))"

definition bytes_stored :: "map_memory \<Rightarrow> 64 word \<Rightarrow> nat \<Rightarrow> bool" where
  "bytes_stored m a n \<longleftrightarrow> (\<forall>j<n. \<exists>e. m_memory m (a + of_nat j) = Some e \<and> operand 8 e \<and> plain e)"

definition row_val :: "fp_lib \<Rightarrow> (nat \<Rightarrow> int) \<Rightarrow> map_memory \<Rightarrow> 64 word \<Rightarrow> nat \<Rightarrow> int" where
  "row_val F \<rho> m a n = parts_val F \<rho> (map (byte_at m a) [0..<n])"

lemma read_loop_row:
  assumes "leafy Q" and "bytes_stored m a (i + n)" "binv A (w_builder w)" "plain acc"
    "denotes A (8 * i) (\<lambda>\<rho>. row_val (fpl A) \<rho> m a i) acc" "\<forall>j<i + n. Q (byte_at m a j)" "Q acc"
  shows "\<exists>r b. read_loop A a BIG i n acc (m, s, w) = Inr (r, (m, s, w\<lparr>w_builder := b\<rparr>)) \<and> binv A b \<and>
    same_syms (w_builder w) b \<and> plain r \<and> denotes A (8 * (i + n)) (\<lambda>\<rho>. row_val (fpl A) \<rho> m a (i + n)) r \<and> Q r"
  using assms(2-)
proof (induction n arbitrary: i acc w)
  case 0
  then show ?case by (intro exI[of _ acc] exI[of _ "w_builder w"]) (simp add: ret_apply)
next
  case (Suc n)
  obtain e where e: "m_memory m (a + of_nat i) = Some e" "operand 8 e" "plain e"
    using Suc.prems(1) unfolding bytes_stored_def by (elim allE[of _ i]) auto
  have rv: "row_val F \<rho> m a (Suc i) = push_bit 8 (row_val F \<rho> m a i) OR sem F \<rho> e" for F \<rho>
    using e(1,2) by (simp add: row_val_def parts_val_append byte_at_def operand_def)
  have "Q e" using Suc.prems(5) e(1) by (auto simp: byte_at_def dest!: spec[of _ i])
  then have "builds A (mk_concat A acc e) (\<lambda>r. (plain r \<and> denotes A (8 * Suc i) (\<lambda>\<rho>. row_val (fpl A) \<rho> m a (Suc i)) r) \<and> Q r)"
    using builds_conj[OF mk_concat_plain[OF denotes_operand[OF Suc.prems(4)] e(2) Suc.prems(3) e(3), of A]
      mk_concat_leafy[OF denotes_operand[OF Suc.prems(4)] e(2) Suc.prems(3) e(3) assms(1) Suc.prems(6), of A]]
    by (simp add: rv denotes_sem[OF Suc.prems(4)] add.commute)
  then obtain acc' b where acc': "mem_builder (mk_concat A acc e) (m, s, w) = Inr (acc', (m, s, w\<lparr>w_builder := b\<rparr>))" "binv A b"
    "same_syms (w_builder w) b" "plain acc'" "denotes A (8 * Suc i) (\<lambda>\<rho>. row_val (fpl A) \<rho> m a (Suc i)) acc'" "Q acc'"
    by (rule mem_builderE[OF _ Suc.prems(2)]) blast
  have "bytes_stored m a (Suc i + n)" "binv A (w_builder (w\<lparr>w_builder := b\<rparr>))" "\<forall>j<Suc i + n. Q (byte_at m a j)"
    using Suc.prems(1,5) acc'(2) by simp_all
  from Suc.IH[OF this(1,2) acc'(4,5) this(3) acc'(6)] acc'(1,3) show ?case
    by (fastforce simp: bnd_def const_mem.read_byte_stored[OF e(1)] intro: same_syms_trans)
qed

lemma mem_read_row:
  assumes "leafy Q" and "bytes_stored m a n" "0 < n" "binv A (w_builder w)" "\<forall>j<n. Q (byte_at m a j)"
  obtains r b where "mem_read A a n BIG (m, s, w) = Inr (r, (m, s, w\<lparr>w_builder := b\<rparr>))" "binv A b" "same_syms (w_builder w) b"
    "plain r" "denotes A (8 * n) (\<lambda>\<rho>. row_val (fpl A) \<rho> m a n) r" "Q r"
proof -
  obtain e where e: "m_memory m a = Some e" "operand 8 e" "plain e"
    using assms(2,3) by (auto simp: bytes_stored_def dest!: spec[of _ 0])
  have q: "Q e" using assms(3,5) e(1) by (auto simp: byte_at_def dest!: spec[of _ 0])
  have "denotes A (8 * 1) (\<lambda>\<rho>. row_val (fpl A) \<rho> m a 1) e"
    using e by (simp add: row_val_def byte_at_def denotes_def operand_def)
  with read_loop_row[OF assms(1), of m a 1 "n - 1" A w e s] assms e q show ?thesis
    by (fastforce simp: mem_read_def bnd_def const_mem.read_byte_stored[OF e(1)] intro: that)
qed

end
