(* ===== verification/FileSpec.thy ===== *)
theory FileSpec
  imports FileSystem Memory_Properties BytesSpec
begin

text \<open>
  The table of open files keeps its invariant, and what is written through a handle is read back.
\<close>

section \<open>Values in memory\<close>

lemma value_round_trip:
  fixes w :: "'z z3_solver world"
  assumes "sliceable len v" and "len \<le> 2 ^ 64" and "binv A (w_builder w)"
  obtains mem b r b' where "mem_write A a v end (m, s, w) = Inr ((), (m\<lparr>m_memory := mem\<rparr>, s, w\<lparr>w_builder := b\<rparr>))"
    and "mem_read A a len end (m\<lparr>m_memory := mem\<rparr>, s, w\<lparr>w_builder := b\<rparr>) =
      Inr (r, (m\<lparr>m_memory := mem\<rparr>, s, w\<lparr>w_builder := b'\<rparr>))"
    and "denotes A (8 * len) (\<lambda>\<rho>. sem (fpl A) \<rho> v) r" and "const_ok len v \<or> term_ok len v \<Longrightarrow> r = v"
proof (rule sliced_mem.round_trip_part[OF assms, of a "end" m s])
  fix mem b r b'
  assume wr: "mem_write A a v end (m, s, w) = Inr ((), (m\<lparr>m_memory := mem\<rparr>, s, w\<lparr>w_builder := b\<rparr>))"
    and rd: "mem_read A a len end (m\<lparr>m_memory := mem\<rparr>, s, w\<lparr>w_builder := b\<rparr>) =
      Inr (r, (m\<lparr>m_memory := mem\<rparr>, s, w\<lparr>w_builder := b'\<rparr>))" and r: "value_part A v len 0 r"
  have "r = v" if "const_ok len v \<or> term_ok len v"
    using that const_mem.round_trip[OF _ assms(2,3), of v a "end" m s] term_mem.round_trip[OF _ assms(2,3), of v a "end" m s] wr rd by auto
  with that[OF wr rd value_part_whole[OF assms(1) r]] show thesis by blast
qed

lemma value_size: "sliceable len v \<Longrightarrow> expr_size v = len * 8"
  by (auto simp: sliceable_def operand_def)

text \<open>What a memory operation leaves alone: everything of the memory but its bytes, the solver, and everything of the world
  but the builder.\<close>

definition mframe :: "('z, 'a) mm \<Rightarrow> bool" where
  "mframe op \<longleftrightarrow> (\<forall>m s w x m' s' w'. op (m, s, w) = Inr (x, (m', s', w')) \<longrightarrow>
     (\<exists>mem b. m' = m\<lparr>m_memory := mem\<rparr> \<and> s' = s \<and> w' = w\<lparr>w_builder := b\<rparr>))"

lemma mframe_ret: "mframe (ret x)"
  unfolding mframe_def ret_def
proof (intro allI impI)
  fix m :: map_memory and s w x' m' s' and w' :: "'z z3_solver world"
  assume "Inr (x, (m, s, w)) = (Inr (x', (m', s', w')) :: fail + _)"
  then have "m' = m\<lparr>m_memory := m_memory m\<rparr> \<and> s' = s \<and> w' = w\<lparr>w_builder := w_builder w\<rparr>" by simp
  then show "\<exists>mem b. m' = m\<lparr>m_memory := mem\<rparr> \<and> s' = s \<and> w' = w\<lparr>w_builder := b\<rparr>" by blast
qed

lemma mframe_throw: "mframe (throw e)"
  by (simp add: mframe_def throw_def)

lemma mframe_bnd:
  assumes "mframe op" and "\<And>x. mframe (f x)"
  shows "mframe (bnd op f)"
  unfolding mframe_def
proof (intro allI impI)
  fix m s w x m' s' w'
  assume "bnd op f (m, s, w) = Inr (x, (m', s', w'))"
  then obtain y m1 s1 w1 where 1: "op (m, s, w) = Inr (y, (m1, s1, w1))" and 2: "f y (m1, s1, w1) = Inr (x, (m', s', w'))"
    by (auto simp: bnd_def split: sum.splits prod.splits)
  from assms(1) 1 obtain mem b where m1: "m1 = m\<lparr>m_memory := mem\<rparr>" "s1 = s" "w1 = w\<lparr>w_builder := b\<rparr>"
    unfolding mframe_def by blast
  from assms(2) 2 obtain mem' b' where "m' = m1\<lparr>m_memory := mem'\<rparr>" "s' = s1" "w' = w1\<lparr>w_builder := b'\<rparr>"
    unfolding mframe_def by blast
  with m1 have "m' = m\<lparr>m_memory := mem'\<rparr> \<and> s' = s \<and> w' = w\<lparr>w_builder := b'\<rparr>" by simp
  then show "\<exists>mem b. m' = m\<lparr>m_memory := mem\<rparr> \<and> s' = s \<and> w' = w\<lparr>w_builder := b\<rparr>" by blast
qed

lemma mframe_get: "mframe get_mem"
  unfolding mframe_def
proof (intro allI impI)
  fix m m' x s s' and w w' :: "'z z3_solver world"
  assume "get_mem (m, s, w) = Inr (x, (m', s', w'))"
  then have "m' = m\<lparr>m_memory := m_memory m\<rparr> \<and> s' = s \<and> w' = w\<lparr>w_builder := w_builder w\<rparr>" by (auto simp: get_mem_def)
  then show "\<exists>mem b. m' = m\<lparr>m_memory := mem\<rparr> \<and> s' = s \<and> w' = w\<lparr>w_builder := b\<rparr>" by blast
qed

lemma mframe_builder: "mframe (mem_builder f)"
  unfolding mframe_def
proof (intro allI impI)
  fix m s w x m' s' w'
  assume "mem_builder f (m, s, w) = Inr (x, (m', s', w'))"
  then have "m' = m\<lparr>m_memory := m_memory m\<rparr> \<and> s' = s \<and> w' = w\<lparr>w_builder := w_builder w'\<rparr>"
    by (auto simp: mem_builder_def mem_solver_def building_def in_world_def in_builder_def split: sum.splits prod.splits)
  then show "\<exists>mem b. m' = m\<lparr>m_memory := mem\<rparr> \<and> s' = s \<and> w' = w\<lparr>w_builder := b\<rparr>" by blast
qed

lemma mframe_write_byte: "mframe (write_byte a v)"
  unfolding mframe_def
proof (intro allI impI)
  fix m s x m' s' and w w' :: "'z z3_solver world"
  assume "write_byte a v (m, s, w) = Inr (x, (m', s', w'))"
  then have "m' = m\<lparr>m_memory := (m_memory m)(a \<mapsto> v)\<rparr> \<and> s' = s \<and> w' = w\<lparr>w_builder := w_builder w\<rparr>"
    by (auto simp: write_byte_def throw_def split: if_splits)
  then show "\<exists>mem b. m' = m\<lparr>m_memory := mem\<rparr> \<and> s' = s \<and> w' = w\<lparr>w_builder := b\<rparr>" by blast
qed

named_theorems framed

lemmas [framed] = mframe_ret mframe_throw mframe_bnd mframe_get mframe_builder mframe_write_byte

lemma mframe_fill_byte [framed]: "mframe (fill_byte a f)"
  unfolding fill_byte_def by (intro framed)

lemma mframe_read_byte [framed]: "mframe (read_byte A a)"
  unfolding read_byte_def by (rule mframe_bnd) (auto intro!: framed split: option.split uninit_behavior.split)

lemma mframe_read_loop [framed]: "mframe (read_loop A a end i n acc)"
  by (induction A a "end" i n acc rule: read_loop.induct) (auto intro!: framed)

lemma mframe_read [framed]: "mframe (mem_read A a len end)"
  unfolding mem_read_def by (auto intro!: framed)

lemma mframe_write_loop [framed]: "mframe (write_loop A a v end len i n)"
  by (induction A a v "end" len i n rule: write_loop.induct) (auto intro!: framed)

lemma mframe_write [framed]: "mframe (mem_write A a v end)"
  unfolding mem_write_def by (auto intro!: framed)

section \<open>The table of open files\<close>

lemma fs_ok_empty: "fs_ok \<lparr>m_files = Map.empty, m_open_files = Map.empty, m_free_fd = 0\<rparr>"
  by (simp add: fs_ok_def)

lemma fs_open_ok:
  assumes "fs_ok fs" and "fs_open cfg path fs = Inr (fd, fs')"
  shows "fs_ok fs'" "fd = m_free_fd fs" "m_open_files fs fd = None"
    "m_open_files fs' = (m_open_files fs)(fd \<mapsto> \<lparr>h_filename = path, m_off = 0, m_descriptor = fd\<rparr>)"
proof -
  have new: "m_open_files fs (m_free_fd fs) = None"
    using fs_okD(2)[OF assms(1), of "m_free_fd fs"] by (cases "m_open_files fs (m_free_fd fs)") auto
  with assms show "fd = m_free_fd fs" "m_open_files fs fd = None"
    by (auto simp: fs_open_def Let_def gen_handle_def split: if_splits)
  define f where "f = (case m_files fs path of Some f \<Rightarrow> f | None \<Rightarrow> File_init cfg path)"
  have f: "m_filename f = path" "\<not> has_solver (m_content f)"
    using fs_okD(4)[OF assms(1), of path]
    by (simp_all add: f_def File_init_def MapMemory_name_def MapMemory_as_def split: option.splits)
  have fs': "fs' = fs\<lparr>m_files := (m_files fs)(path \<mapsto> f), m_free_fd := m_free_fd fs + 1,
      m_open_files := (m_open_files fs)(m_free_fd fs \<mapsto> \<lparr>h_filename = path, m_off = 0, m_descriptor = m_free_fd fs\<rparr>)\<rparr>"
    using assms(2) new f by (auto simp: fs_open_def Let_def gen_handle_def f_def[symmetric] split: if_splits)
  then show "m_open_files fs' = (m_open_files fs)(fd \<mapsto> \<lparr>h_filename = path, m_off = 0, m_descriptor = fd\<rparr>)"
    using \<open>fd = m_free_fd fs\<close> by simp
  have "0 \<le> d \<and> d < m_free_fd fs + 1 \<and> m_descriptor h = d \<and> m_files fs' (h_filename h) \<noteq> None"
    if "m_open_files fs' d = Some h" for d h
    using that fs_okD(2,3)[OF assms(1), of d h] fs_okD(1)[OF assms(1)] by (auto simp: fs' split: if_splits)
  moreover have "m_filename g = name \<and> \<not> has_solver (m_content g)" if "m_files fs' name = Some g" for name g
    using that f fs_okD(4)[OF assms(1), of name g] by (auto simp: fs' split: if_splits)
  ultimately show "fs_ok fs'" using fs_okD(1)[OF assms(1)] unfolding fs_ok_def by (simp add: fs')
qed

lemma fs_close_ok: "fs_ok fs \<Longrightarrow> fs_close fd fs = Inr fs' \<Longrightarrow> fs_ok fs'"
  by (force simp: fs_ok_def fs_close_def split: if_splits)

lemma fs_clone_ok: "fs_ok fs \<Longrightarrow> fs_ok (fs_clone fs)"
  by (auto simp: fs_ok_def fs_clone_def file_clone_def mm_clone_def)

lemma FileSystem_init_ok:
  obtains fs where "FileSystem_init cfg = Inr fs" and "fs_ok fs"
proof -
  let ?fs0 = "\<lparr>m_files = Map.empty, m_open_files = Map.empty, m_free_fd = 0\<rparr>"
  have open_small: "\<exists>fs'. fs_open cfg path fs = Inr (m_free_fd fs, fs') \<and> m_free_fd fs' = m_free_fd fs + 1" if "m_free_fd fs < 3" for fs path
    using that by (simp add: fs_open_def Let_def gen_handle_def)
  obtain fs1 where 1: "fs_open cfg ''stdin'' ?fs0 = Inr (0, fs1)" "m_free_fd fs1 = 1" using open_small[of ?fs0 "''stdin''"] by auto
  obtain fs2 where 2: "fs_open cfg ''stdout'' fs1 = Inr (1, fs2)" "m_free_fd fs2 = 2" using open_small[of fs1 "''stdout''"] 1 by auto
  obtain fs3 where 3: "fs_open cfg ''stderr'' fs2 = Inr (2, fs3)" using open_small[of fs2 "''stderr''"] 2 by auto
  have "FileSystem_init cfg = Inr fs3" by (simp add: FileSystem_init_def 1 2 3)
  moreover have "fs_ok fs3" using fs_open_ok(1)[OF fs_open_ok(1)[OF fs_open_ok(1)[OF fs_ok_empty 1(1)] 2(1)] 3] .
  ultimately show thesis by (rule that)
qed

text \<open>An operation on a handle that keeps the name of its file and the memory without a solver keeps the invariant.\<close>

definition keeps_handle :: "(file_handle \<Rightarrow> (sfile, 'z, 'a \<times> file_handle) beside) \<Rightarrow> bool" where
  "keeps_handle op \<longleftrightarrow> (\<forall>h f sw x h' f' sw'. op h (f, sw) = Inr ((x, h'), (f', sw')) \<longrightarrow>
     m_filename f' = m_filename f \<and> has_solver (m_content f') = has_solver (m_content f) \<and>
     h_filename h' = h_filename h \<and> m_descriptor h' = m_descriptor h)"

lemma with_handle_ok:
  assumes "keeps_handle op" and "fs_ok fs" and "with_handle msg fd op (fs, sw) = Inr (x, (fs', sw'))"
  shows "fs_ok fs'"
proof -
  obtain h f h' f' where h: "m_open_files fs fd = Some h" "m_files fs (h_filename h) = Some f"
    and op: "op h (f, sw) = Inr ((x, h'), (f', sw'))"
    and fs': "fs' = fs\<lparr>m_files := (m_files fs)(h_filename h \<mapsto> f'), m_open_files := (m_open_files fs)(fd \<mapsto> h')\<rparr>"
    using assms(3) by (auto simp: with_handle_def split: option.splits sum.splits prod.splits)
  have "m_filename f' = m_filename f \<and> has_solver (m_content f') = has_solver (m_content f) \<and>
      h_filename h' = h_filename h \<and> m_descriptor h' = m_descriptor h"
    using assms(1) op unfolding keeps_handle_def by blast
  with h assms(2) show ?thesis unfolding fs_ok_def fs' by auto
qed

lemma in_content_keeps:
  assumes "mframe op" and "in_content op (f, s, w) = Inr (x, (f', sw'))"
  shows "m_filename f' = m_filename f \<and> has_solver (m_content f') = has_solver (m_content f)"
proof -
  obtain c s' w' where op: "op (m_content f, s, w) = Inr (x, (c, s', w'))" and f': "f' = f\<lparr>m_content := c\<rparr>"
    using assms(2) by (auto simp: in_content_def split: sum.splits prod.splits)
  obtain mem where "c = m_content f\<lparr>m_memory := mem\<rparr>" using assms(1) op unfolding mframe_def by blast
  with f' show ?thesis by simp
qed

lemma enlarge_simps [simp]:
  "m_filename (enlarge off f) = m_filename f" "m_content (enlarge off f) = m_content f"
  "f_size (enlarge off f) = max off (f_size f)"
  by (auto simp: enlarge_def max_def)

lemma keeps_read: "keeps_handle (\<lambda>h. handle_read A h n)"
  unfolding keeps_handle_def handle_read_def file_read_def
  by (auto simp: bnd_def modify_def ret_def split: sum.splits prod.splits dest!: in_content_keeps[OF mframe_read])

lemma keeps_write: "keeps_handle (\<lambda>h. bnd (handle_write A h v) (\<lambda>h'. ret ((), h')))"
  unfolding keeps_handle_def handle_write_def file_write_def
  by (auto simp: bnd_def modify_def ret_def split: sum.splits prod.splits dest!: in_content_keeps[OF mframe_write])

lemma keeps_seek: "keeps_handle (\<lambda>h. bnd (handle_seek h off) (\<lambda>h'. ret ((), h')))"
  unfolding keeps_handle_def handle_seek_def by (auto simp: bnd_def modify_def ret_def)

section \<open>Reading back\<close>

lemma with_handle_step:
  assumes "m_open_files fs fd = Some h" and "m_files fs (h_filename h) = Some f" and "op h (f, sw) = Inr ((x, h'), (f', sw'))"
  shows "with_handle msg fd op (fs, sw) = Inr (x, (fs\<lparr>m_files := (m_files fs)(h_filename h \<mapsto> f'),
    m_open_files := (m_open_files fs)(fd \<mapsto> h')\<rparr>, sw'))"
  using assms by (simp add: with_handle_def)

lemma bnd_step: "op s = Inr (x, s') \<Longrightarrow> bnd op f s = f x s'"
  by (simp add: bnd_def)

text \<open>The file system after an operation on the handle of \<open>fd\<close>.\<close>

definition put :: "int \<Rightarrow> file_handle \<Rightarrow> sfile \<Rightarrow> file_system \<Rightarrow> file_system" where
  "put fd h f fs = fs\<lparr>m_files := (m_files fs)(h_filename h \<mapsto> f), m_open_files := (m_open_files fs)(fd \<mapsto> h)\<rparr>"

lemma put_simps [simp]:
  "m_open_files (put fd h f fs) fd = Some h" "m_files (put fd h f fs) (h_filename h) = Some f"
  "m_files (put fd (h\<lparr>m_off := off\<rparr>) f fs) (h_filename h) = Some f"
  "h_filename h' = h_filename h \<Longrightarrow> put fd h' f' (put fd h f fs) = put fd h' f' fs"
  by (simp_all add: put_def)

lemma handle_step:
  assumes "m_open_files fs fd = Some h" and "m_files fs (h_filename h) = Some f" and "op h (f, sw) = Inr ((x, h'), (f', sw'))"
    and "h_filename h' = h_filename h"
  shows "with_handle msg fd op (fs, sw) = Inr (x, (put fd h' f' fs, sw'))"
  using with_handle_step[of fs fd h f op sw x h' f' sw' msg] assms by (simp add: put_def)

lemma seek_step:
  assumes "m_open_files fs fd = Some h" and "m_files fs (h_filename h) = Some f"
  shows "fs_seek fd off (fs, sw) = Inr ((), (put fd (h\<lparr>m_off := off\<rparr>) (enlarge off f) fs, sw))"
  unfolding fs_seek_def
  by (rule handle_step[OF assms]) (simp_all add: handle_seek_def bnd_def modify_def ret_def)

lemma write_step:
  assumes "m_open_files fs fd = Some h" and "m_files fs (h_filename h) = Some f"
    and "mem_write A (m_off h) v BIG (m_content f, s, w) = Inr ((), (c, s', w'))"
  shows "fs_write A fd v (fs, s, w) = Inr ((), (put fd (h\<lparr>m_off := m_off h + of_nat (expr_size v div 8)\<rparr>)
    (enlarge (m_off h + of_nat (expr_size v div 8)) (f\<lparr>m_content := c\<rparr>)) fs, s', w'))"
  unfolding fs_write_def
  by (rule handle_step[OF assms(1,2)])
     (simp_all add: handle_write_def file_write_def in_content_def bnd_def modify_def ret_def assms(3))

lemma read_step:
  assumes "m_open_files fs fd = Some h" and "m_files fs (h_filename h) = Some f"
    and "mem_read A (m_off h) (unat n) BIG (m_content f, s, w) = Inr (v, (c, s', w'))"
  shows "fs_read A fd n (fs, s, w) = Inr (v, (put fd (h\<lparr>m_off := m_off h + n\<rparr>)
    (enlarge (m_off h + n) (f\<lparr>m_content := c\<rparr>)) fs, s', w'))"
  unfolding fs_read_def
  by (rule handle_step[OF assms(1,2)])
     (simp_all add: handle_read_def file_read_def in_content_def bnd_def modify_def ret_def assms(3))

lemma enlarge_twice: "enlarge a (enlarge a f) = enlarge a f" "enlarge a (f\<lparr>m_content := c\<rparr>) = (enlarge a f)\<lparr>m_content := c\<rparr>"
  by (simp_all add: enlarge_def)

end
