(* ===== verification/File_Properties.thy ===== *)
theory File_Properties
  imports FileSpec
begin

text \<open>
  The properties of the file system.
\<close>

section \<open>Reachable file systems\<close>

inductive fs_reach :: "amb \<Rightarrow> config \<Rightarrow> file_system \<Rightarrow> bool" for A cfg where
  init: "FileSystem_init cfg = Inr fs \<Longrightarrow> fs_reach A cfg fs"
| clone: "fs_reach A cfg fs \<Longrightarrow> fs_reach A cfg (fs_clone fs)"
| opened: "fs_reach A cfg fs \<Longrightarrow> fs_open cfg path fs = Inr (fd, fs') \<Longrightarrow> fs_reach A cfg fs'"
| closed: "fs_reach A cfg fs \<Longrightarrow> fs_close fd fs = Inr fs' \<Longrightarrow> fs_reach A cfg fs'"
| sought: "fs_reach A cfg fs \<Longrightarrow> fs_seek fd off (fs, s, w) = Inr (x, (fs', sw' :: solver \<times> unit z3_solver world)) \<Longrightarrow> fs_reach A cfg fs'"
| read: "fs_reach A cfg fs \<Longrightarrow> fs_read A fd n (fs, s, w) = Inr (e, (fs', sw' :: solver \<times> unit z3_solver world)) \<Longrightarrow> fs_reach A cfg fs'"
| written: "fs_reach A cfg fs \<Longrightarrow> fs_write A fd v (fs, s, w) = Inr (x, (fs', sw' :: solver \<times> unit z3_solver world)) \<Longrightarrow> fs_reach A cfg fs'"

lemma fs_reach_ok: "fs_reach A cfg fs \<Longrightarrow> fs_ok fs"
proof (induction rule: fs_reach.induct)
  case (init fs)
  then show ?case by (metis FileSystem_init_ok Inr_inject)
next
  case (sought fs fd off s w x fs' sw')
  then show ?case unfolding fs_seek_def by (metis with_handle_ok keeps_seek)
next
  case (read fs fd n s w e fs' sw')
  then show ?case unfolding fs_read_def by (metis with_handle_ok keeps_read)
next
  case (written fs fd v s w x fs' sw')
  then show ?case unfolding fs_write_def by (metis with_handle_ok keeps_write)
qed (auto dest: fs_open_ok(1) fs_close_ok fs_clone_ok)

text \<open>C19: in every reachable file system each open descriptor is below the next free one and its file exists, and so opening
  a file never returns a descriptor that is in use, starts at offset zero, and leaves every other descriptor alone.\<close>

theorem file_system_invariant:
  assumes "fs_reach A cfg fs"
  shows "fs_ok fs \<and> (\<forall>path fd fs'. fs_open cfg path fs = Inr (fd, fs') \<longrightarrow> m_open_files fs fd = None \<and>
      m_open_files fs' = (m_open_files fs)(fd \<mapsto> \<lparr>h_filename = path, m_off = 0, m_descriptor = fd\<rparr>))"
  using fs_reach_ok[OF assms] fs_open_ok by blast

lemma sample_files:
  obtains fs where "FileSystem_init Config_init = Inr fs" and "fs_ok fs" and "m_free_fd fs = 3"
    and "m_open_files fs 0 = Some \<lparr>h_filename = ''stdin'', m_off = 0, m_descriptor = 0\<rparr>"
    and "m_files fs ''stdin'' = Some (File_init Config_init ''stdin'')"
  using FileSystem_init_ok[of Config_init] by (auto simp: FileSystem_init_def fs_open_def gen_handle_def File_init_def)

theorem file_system_invariant_witness:
  "\<exists>fs fs'. FileSystem_init Config_init = Inr fs \<and> fs_open Config_init ''stdin'' fs = Inr (3, fs') \<and>
     m_open_files fs 3 = None \<and> m_open_files fs' 0 = m_open_files fs 0 \<and> fs_ok fs"
proof -
  obtain fs where fs: "FileSystem_init Config_init = Inr fs" "m_free_fd fs = 3"
    by (rule sample_files)
  then obtain fs' where "fs_open Config_init ''stdin'' fs = Inr (3, fs')"
    by (simp add: fs_open_def gen_handle_def Let_def)
  with fs file_system_invariant[OF fs_reach.init[OF fs(1), of sample_env]] show ?thesis by auto
qed

section \<open>Round trip\<close>

text \<open>C20: data written through a descriptor at an offset and read back from there means the same for all values of the
  symbols; it is the same node when the data is a constant or a node other than an extraction, a concatenation or an
  extension. Both operations move the offset behind the data, the file grows to hold it, and no other descriptor and no other
  file changes. The data is any bit vector of whole bytes (\<open>sliceable\<close>) of which no byte crosses the parts of a concatenation
  or the end of an operand of a zero extension, and that is not a sign extension.\<close>

theorem file_round_trip:
  fixes w :: "'z z3_solver world"
  assumes "m_open_files fs fd = Some h" and "m_files fs (h_filename h) = Some f"
    and "sliceable len v" and "len < 2 ^ 64" and "binv A (w_builder w)"
  shows "\<exists>r f' b. bnd (fs_seek fd off) (\<lambda>_. bnd (fs_write A fd v) (\<lambda>_. bnd (fs_seek fd off) (\<lambda>_. fs_read A fd (of_nat len)))) (fs, s, w) =
    Inr (r, (fs\<lparr>m_open_files := (m_open_files fs)(fd \<mapsto> h\<lparr>m_off := off + of_nat len\<rparr>),
      m_files := (m_files fs)(h_filename h \<mapsto> f')\<rparr>, s, w\<lparr>w_builder := b\<rparr>)) \<and>
    operand (8 * len) r \<and> (\<forall>\<rho>. sem (fpl A) \<rho> r = sem (fpl A) \<rho> v) \<and> (const_ok len v \<or> term_ok len v \<longrightarrow> r = v) \<and>
    m_filename f' = m_filename f \<and> f_size f' = max (off + of_nat len) (max off (f_size f))"
proof -
  let ?n = "off + of_nat len" and ?put = "\<lambda>o' f. put fd (h\<lparr>m_off := o'\<rparr>) f fs"
  have len: "len \<le> 2 ^ 64" "unat (of_nat len :: 64 word) = len" "expr_size v div 8 = len"
    using assms(4) value_size[OF assms(3)] by (simp_all add: unat_of_nat take_bit_nat_eq_self)
  obtain mem b r b' where wr: "mem_write A off v BIG (m_content f, s, w) = Inr ((), (m_content f\<lparr>m_memory := mem\<rparr>, s, w\<lparr>w_builder := b\<rparr>))"
    and rd: "mem_read A off len BIG (m_content f\<lparr>m_memory := mem\<rparr>, s, w\<lparr>w_builder := b\<rparr>) =
      Inr (r, (m_content f\<lparr>m_memory := mem\<rparr>, s, w\<lparr>w_builder := b'\<rparr>))"
    and r: "denotes A (8 * len) (\<lambda>\<rho>. sem (fpl A) \<rho> v) r" "const_ok len v \<or> term_ok len v \<Longrightarrow> r = v"
    by (rule value_round_trip[OF assms(3) len(1) assms(5), of off BIG "m_content f" s]) (rule that)
  define f1 where "f1 = enlarge ?n (enlarge off f\<lparr>m_content := m_content f\<lparr>m_memory := mem\<rparr>\<rparr>)"
  define f2 where "f2 = enlarge ?n (enlarge off f1\<lparr>m_content := m_content f1\<rparr>)"
  have 1: "fs_seek fd off (fs, s, w) = Inr ((), (?put off (enlarge off f), s, w))"
    by (rule seek_step[OF assms(1,2)])
  have 2: "fs_write A fd v (?put off (enlarge off f), s, w) = Inr ((), (?put ?n f1, s, w\<lparr>w_builder := b\<rparr>))"
    using write_step[OF put_simps(1), of fd "h\<lparr>m_off := off\<rparr>" "enlarge off f" fs "enlarge off f" A v s w] wr
    by (simp add: len f1_def)
  have 3: "fs_seek fd off (?put ?n f1, s, w\<lparr>w_builder := b\<rparr>) = Inr ((), (?put off (enlarge off f1), s, w\<lparr>w_builder := b\<rparr>))"
    using seek_step[OF put_simps(1), of fd "h\<lparr>m_off := ?n\<rparr>" f1 fs f1 off] by simp
  have 4: "fs_read A fd (of_nat len) (?put off (enlarge off f1), s, w\<lparr>w_builder := b\<rparr>) = Inr (r, (?put ?n f2, s, w\<lparr>w_builder := b'\<rparr>))"
    using read_step[OF put_simps(1), of fd "h\<lparr>m_off := off\<rparr>" "enlarge off f1" fs "enlarge off f1" A "of_nat len" s "w\<lparr>w_builder := b\<rparr>"] rd
    by (simp add: len f2_def f1_def)
  have "?put ?n f2 = fs\<lparr>m_open_files := (m_open_files fs)(fd \<mapsto> h\<lparr>m_off := ?n\<rparr>), m_files := (m_files fs)(h_filename h \<mapsto> f2)\<rparr>"
    by (simp add: put_def)
  moreover have "m_filename f2 = m_filename f" "f_size f2 = max ?n (max off (f_size f))"
    by (simp_all add: f2_def f1_def ac_simps)
  ultimately show ?thesis
    using 1 2 3 4 r denotes_operand[OF r(1)]
    by (intro exI[of _ r] exI[of _ f2] exI[of _ b'] conjI) (simp_all add: bnd_def denotes_sem)
qed

definition sample_line :: expr where
  "sample_line = ConcatExpr [SymExpr 0 8, ConstExpr (small_const 8 10)]"

lemma sample_line_sliceable: "sliceable 2 sample_line"
proof -
  have els: "element (SymExpr 0 8)" "element (ConstExpr (small_const 8 10))"
    by (simp_all add: element_def part_def small_const_def bv_ok_def BVConst_copy_def)
  then have "sliced sample_line (j * 8 + 7) (j * 8)" if "j < 2" for j
    using that element_plain by (cases j) (auto simp: sample_line_def sliced.simps Let_def small_const_def)
  moreover have "operand 16 sample_line" using els by (simp add: sample_line_def operand_def element_def part_def small_const_def)
  ultimately show ?thesis by (simp add: sliceable_def)
qed

theorem file_round_trip_witness:
  "\<exists>fs fs' b h r. FileSystem_init Config_init = Inr fs \<and>
     bnd (fs_seek 0 4) (\<lambda>_. bnd (fs_write sample_env 0 sample_line) (\<lambda>_. bnd (fs_seek 0 4) (\<lambda>_. fs_read sample_env 0 2)))
       (fs, Solver_init, empty_world ExprBuilder_init :: unit z3_solver world) = Inr (r, (fs', Solver_init, empty_world b)) \<and>
     (\<forall>\<rho>. sem (fpl sample_env) \<rho> r = sem (fpl sample_env) \<rho> sample_line) \<and> m_open_files fs' 0 = Some h \<and> m_off h = 6"
proof -
  let ?w = "empty_world ExprBuilder_init :: unit z3_solver world"
  obtain fs where fs: "FileSystem_init Config_init = Inr fs"
    "m_open_files fs 0 = Some \<lparr>h_filename = ''stdin'', m_off = 0, m_descriptor = 0\<rparr>"
    "m_files fs ''stdin'' = Some (File_init Config_init ''stdin'')" by (rule sample_files)
  have "binv sample_env (w_builder ?w)" by (simp add: empty_world_def binv_init)
  moreover have "?w\<lparr>w_builder := c\<rparr> = empty_world c" for c by (simp add: empty_world_def)
  ultimately show ?thesis
    using file_round_trip[OF fs(2), of "File_init Config_init ''stdin''" 2 sample_line sample_env ?w 4 Solver_init]
      fs(1,3) sample_line_sliceable by fastforce
qed

end
