(* ===== verification/Lifter.thy ===== *)
theory Lifter
  imports AddressSpace Expr
begin

text \<open>
  The p-code of a basic block and the class \<^verbatim>\<open>PCodeLifter\<close> of \<^verbatim>\<open>lifter/PCodeLifter.cpp\<close>. The translator itself is the
  library sleigh, a git submodule: the record \<open>sleigh\<close> is what the code calls of it.
\<close>

section \<open>P-code\<close>

datatype opcode =
    CPUI_CALLOTHER | CPUI_INT_EQUAL | CPUI_INT_NOTEQUAL | CPUI_INT_LESS | CPUI_INT_LESSEQUAL | CPUI_INT_SLESS
  | CPUI_INT_SLESSEQUAL | CPUI_BOOL_NEGATE | CPUI_BOOL_AND | CPUI_BOOL_OR | CPUI_LOAD | CPUI_STORE | CPUI_COPY
  | CPUI_SUBPIECE | CPUI_INT_ZEXT | CPUI_INT_SEXT | CPUI_INT_NEGATE | CPUI_INT_XOR | CPUI_INT_AND | CPUI_INT_OR
  | CPUI_INT_LEFT | CPUI_INT_RIGHT | CPUI_INT_SRIGHT | CPUI_INT_2COMP | CPUI_INT_ADD | CPUI_INT_SUB | CPUI_INT_MULT
  | CPUI_INT_CARRY | CPUI_INT_SBORROW | CPUI_INT_SCARRY | CPUI_POPCOUNT | CPUI_FLOAT_FLOAT2FLOAT
  | CPUI_FLOAT_INT2FLOAT | CPUI_FLOAT_NAN | CPUI_FLOAT_NEG | CPUI_FLOAT_ADD | CPUI_FLOAT_SUB | CPUI_FLOAT_MULT
  | CPUI_FLOAT_DIV | CPUI_FLOAT_EQUAL | CPUI_FLOAT_LESS | CPUI_CALL | CPUI_BRANCH | CPUI_CBRANCH | CPUI_BRANCHIND
  | CPUI_CALLIND | CPUI_RETURN | CPUI_OTHER nat

text \<open>An address space is given by its number.\<close>

record varnode =
  vn_space :: nat
  vn_offset :: "64 word"
  vn_size :: nat

record pcode_op =
  op_code :: opcode
  op_output :: "varnode option"
  op_inputs :: "varnode list"

record translation =
  t_address :: "64 word"
  t_length :: nat
  t_ops :: "pcode_op list"

record sleigh =
  csleigh_translate :: "8 word list \<Rightarrow> 64 word \<Rightarrow> 64 word \<Rightarrow> translation list option"
  csleigh_getRegister :: "string \<Rightarrow> varnode option"
  csleigh_getSpaceFromConst :: "nat \<Rightarrow> 64 word \<Rightarrow> nat"
  csleigh_getFloatFormats :: "float_format list"
  csleigh_CALLOTHER_SYSCALL :: "64 word"
  ram_space_id :: nat
  regs_space_id :: nat
  const_space_id :: nat
  tmp_space_id :: nat

section \<open>The lifter\<close>

text \<open>The cache \<^verbatim>\<open>m_blocks\<close> answers first, whatever the bytes are.\<close>

definition lift_block :: "sleigh \<Rightarrow> 64 word \<Rightarrow> 8 word list \<Rightarrow> 64 word \<Rightarrow> (64 word \<Rightarrow> translation list option) \<Rightarrow>
    (translation list \<times> (64 word \<Rightarrow> translation list option)) res" where
  "lift_block sl a data n blocks = (case blocks a of
     Some b \<Rightarrow> Inr (b, blocks)
   | None \<Rightarrow> (case csleigh_translate sl data n a of
       None \<Rightarrow> Inl (Exit ''lift'')
     | Some r \<Rightarrow> Inr (r, blocks(a \<mapsto> r))))"

definition clear_block_cache :: "(64 word \<Rightarrow> translation list option) \<Rightarrow> 64 word \<Rightarrow> translation list option" where
  "clear_block_cache blocks = Map.empty"

definition has_reg :: "sleigh \<Rightarrow> string \<Rightarrow> bool" where
  "has_reg sl name \<longleftrightarrow> csleigh_getRegister sl name \<noteq> None"

definition lifter_reg :: "sleigh \<Rightarrow> string \<Rightarrow> varnode res" where
  "lifter_reg sl name = (case csleigh_getRegister sl name of None \<Rightarrow> Inl (Exit ''reg'') | Some r \<Rightarrow> Inr r)"

fun first_format :: "float_format list \<Rightarrow> nat \<Rightarrow> float_format option" where
  "first_format [] n = None"
| "first_format (f # fs) n = (if ff_getSize f = n then Some f else first_format fs n)"

definition get_float_format :: "sleigh \<Rightarrow> nat \<Rightarrow> float_format option" where
  "get_float_format sl n = first_format (csleigh_getFloatFormats sl) n"

end
