(* ===== verification/State.thy ===== *)
theory State
  imports FileSystem Lifter
begin

text \<open>
  The symbolic state, \<^verbatim>\<open>state/State.cpp\<close>: program counter, registers and memory, the files, the solver with the path
  constraints, the table of linked functions and the plugins.
\<close>

section \<open>Data\<close>

text \<open>The model of a library function is one of the classes of \<^verbatim>\<open>models/libc/directory.hpp\<close> or \<^verbatim>\<open>UnmodelledFunction\<close>.\<close>

datatype libc_model =
    Libc_start_main_exit_wrapper | Libc_start_main | Libc_exit | Libc_abort | Libc_read | Libc_open | Libc_close
  | Libc_malloc | Libc_calloc | Libc_realloc | Libc_free | Libc_memcpy | Libc_memcmp | Libc_strcmp | Libc_strlen
  | Libc_strncpy | Libc_strcpy | Libc_strcat | Libc_sprintf | Libc_printf | Libc_scanf | Libc_puts | Libc_fflush
  | Libc_rand | Libc_srand | Libc_ptrace | Unmodelled

datatype platform = Linux64Platform | UnknownPlatform

datatype syscall_abi = LINUX_X86_64 | LINUX_ARMv7 | UNKNOWN_ABI

datatype arch = X86_64 | ARM32LE

text \<open>The structure \<^verbatim>\<open>random_data\<close> of \<^verbatim>\<open>models/libc/random.cpp\<close>, the state of the only plugin: \<open>fptr\<close> and \<open>rptr\<close> are
  indices into the one table of the process.\<close>

record random_data =
  fptr :: nat
  rptr :: nat
  rand_type :: nat
  rand_deg :: nat
  rand_sep :: nat

record state =
  m_pc :: "64 word"
  m_heap_ptr :: "64 word"
  m_stacktrace :: "64 word list"
  m_argv :: "expr list"
  m_config_symbols :: "expr list"
  m_regs :: map_memory
  m_ram :: map_memory
  m_fs :: file_system
  m_pm :: "string \<Rightarrow> random_data option"
  m_platform :: platform
  m_address_space :: address_space
  m_linked_functions :: "64 word \<Rightarrow> libc_model option"
  m_solver :: solver
  m_libc_start_main_exit_wrapper :: "64 word"
  exited :: bool
  retcode :: "32 word"

text \<open>What the states of a process share: the builder, the cache of involved symbols and Z3, the cache of the lifter, and
  the static variables of \<^verbatim>\<open>set_argv\<close> and of the random number generator.\<close>

record 'z process =
  p_world :: "'z z3_solver world"
  p_blocks :: "64 word \<Rightarrow> translation list option"
  p_argv_sym_idx :: nat
  p_randtbl :: "32 word list"

text \<open>The parameters: the layout of the host, Z3, the configuration, the processor and sleigh.\<close>

record 'z host =
  h_amb :: amb
  h_api :: "'z z3_api"
  h_engine :: "'z z3_engine"
  h_cfg :: config
  h_arch :: arch
  h_sleigh :: sleigh

section \<open>Operations on a state\<close>

text \<open>An operation on a state and the process; the value \<open>None\<close> is a thrown \<^verbatim>\<open>UnsatStateException\<close>.\<close>

type_synonym ('z, 'a) xm = "(state \<times> 'z process, 'a option) smonad"

definition xret :: "'a \<Rightarrow> ('z, 'a) xm" where
  "xret x = ret (Some x)"

definition xbnd :: "('s, 'a option) smonad \<Rightarrow> ('a \<Rightarrow> ('s, 'b option) smonad) \<Rightarrow> ('s, 'b option) smonad" where
  "xbnd m f = bnd m (\<lambda>r. case r of None \<Rightarrow> ret None | Some x \<Rightarrow> f x)"

definition always :: "('s, 'a) smonad \<Rightarrow> ('s, 'a option) smonad" where
  "always m = bnd m (\<lambda>x. ret (Some x))"

definition fails :: "fail \<Rightarrow> ('z, 'a) xm" where
  "fails e = throw e"

definition gets :: "(state \<Rightarrow> 'a) \<Rightarrow> ('z, 'a) xm" where
  "gets f = (\<lambda>(s, p). Inr (Some (f s), (s, p)))"

definition update :: "(state \<Rightarrow> state) \<Rightarrow> ('z, unit) xm" where
  "update f = (\<lambda>(s, p). Inr (Some (), (f s, p)))"

definition in_solver :: "('z, 'a) sm \<Rightarrow> (state \<times> 'z process, 'a) smonad" where
  "in_solver op = (\<lambda>(s, p). case op (m_solver s, p_world p) of
     Inl e \<Rightarrow> Inl e | Inr (x, (v, w)) \<Rightarrow> Inr (x, (s\<lparr>m_solver := v\<rparr>, p\<lparr>p_world := w\<rparr>)))"

definition in_ram :: "('z, 'a) mm \<Rightarrow> (state \<times> 'z process, 'a) smonad" where
  "in_ram op = (\<lambda>(s, p). case op (m_ram s, m_solver s, p_world p) of
     Inl e \<Rightarrow> Inl e | Inr (x, (m, v, w)) \<Rightarrow> Inr (x, (s\<lparr>m_ram := m, m_solver := v\<rparr>, p\<lparr>p_world := w\<rparr>)))"

definition in_regs :: "('z, 'a) mm \<Rightarrow> (state \<times> 'z process, 'a) smonad" where
  "in_regs op = (\<lambda>(s, p). case op (m_regs s, m_solver s, p_world p) of
     Inl e \<Rightarrow> Inl e | Inr (x, (m, v, w)) \<Rightarrow> Inr (x, (s\<lparr>m_regs := m, m_solver := v\<rparr>, p\<lparr>p_world := w\<rparr>)))"

definition in_fs :: "('z, 'a) fsm \<Rightarrow> (state \<times> 'z process, 'a) smonad" where
  "in_fs op = (\<lambda>(s, p). case op (m_fs s, m_solver s, p_world p) of
     Inl e \<Rightarrow> Inl e | Inr (x, (m, v, w)) \<Rightarrow> Inr (x, (s\<lparr>m_fs := m, m_solver := v\<rparr>, p\<lparr>p_world := w\<rparr>)))"

definition build :: "'a bm \<Rightarrow> ('z, 'a) xm" where
  "build f = always (in_solver (building f))"

section \<open>Plugins\<close>

definition register_plugin :: "string \<Rightarrow> random_data \<Rightarrow> ('z, unit) xm" where
  "register_plugin name pl = xbnd (gets m_pm) (\<lambda>pm. if pm name \<noteq> None then fails (Exit ''register_plugin'')
     else update (\<lambda>s. s\<lparr>m_pm := pm(name \<mapsto> pl)\<rparr>))"

definition get_plugin :: "string \<Rightarrow> ('z, random_data option) xm" where
  "get_plugin name = xbnd (gets m_pm) (\<lambda>pm. xret (pm name))"

section \<open>The class State\<close>

text \<open>The copy constructor does not copy the stack trace, the address of the exit wrapper, \<^verbatim>\<open>exited\<close> and \<^verbatim>\<open>retcode\<close>; a
  plugin is cloned by copying its structure.\<close>

definition State_clone :: "state \<Rightarrow> state" where
  "State_clone s = \<lparr>m_pc = m_pc s, m_heap_ptr = m_heap_ptr s, m_stacktrace = [], m_argv = m_argv s,
     m_config_symbols = m_config_symbols s, m_regs = mm_clone (m_regs s), m_ram = set_solver (mm_clone (m_ram s)),
     m_fs = fs_clone (m_fs s), m_pm = m_pm s, m_platform = m_platform s, m_address_space = m_address_space s,
     m_linked_functions = m_linked_functions s, m_solver = m_solver s, m_libc_start_main_exit_wrapper = 0,
     exited = False, retcode = 0\<rparr>"

definition get_code_at :: "64 word \<Rightarrow> state \<Rightarrow> (8 word list \<times> 64 word) option" where
  "get_code_at a s = get_ref (m_address_space s) a"

definition arch_endianess :: "arch \<Rightarrow> endianess" where
  "arch_endianess ar = (case ar of X86_64 \<Rightarrow> LITTLE | ARM32LE \<Rightarrow> LITTLE)"

definition state_read :: "'z host \<Rightarrow> 64 word \<Rightarrow> nat \<Rightarrow> ('z, expr) xm" where
  "state_read H a n = always (in_ram (mem_read (h_amb H) a n (arch_endianess (h_arch H))))"

definition state_read_expr :: "'z host \<Rightarrow> expr \<Rightarrow> nat \<Rightarrow> ('z, expr) xm" where
  "state_read_expr H p n = in_ram (mem_read_expr (h_amb H) (h_api H) (h_engine H) p n (arch_endianess (h_arch H)))"

definition state_write :: "'z host \<Rightarrow> 64 word \<Rightarrow> expr \<Rightarrow> ('z, unit) xm" where
  "state_write H a v = always (in_ram (mem_write (h_amb H) a v (arch_endianess (h_arch H))))"

definition state_write_expr :: "'z host \<Rightarrow> expr \<Rightarrow> expr \<Rightarrow> ('z, unit) xm" where
  "state_write_expr H p v = in_ram (mem_write_expr (h_amb H) (h_api H) (h_engine H) p v (arch_endianess (h_arch H)))"

definition read_buf :: "'z host \<Rightarrow> 64 word \<Rightarrow> nat \<Rightarrow> ('z, expr) xm" where
  "read_buf H a n = always (in_ram (mem_read (h_amb H) a n BIG))"

definition read_buf_expr :: "'z host \<Rightarrow> expr \<Rightarrow> nat \<Rightarrow> ('z, expr) xm" where
  "read_buf_expr H p n = in_ram (mem_read_expr (h_amb H) (h_api H) (h_engine H) p n BIG)"

definition write_buf :: "'z host \<Rightarrow> 64 word \<Rightarrow> expr \<Rightarrow> ('z, unit) xm" where
  "write_buf H a v = always (in_ram (mem_write (h_amb H) a v BIG))"

definition write_buf_expr :: "'z host \<Rightarrow> expr \<Rightarrow> expr \<Rightarrow> ('z, unit) xm" where
  "write_buf_expr H p v = in_ram (mem_write_expr (h_amb H) (h_api H) (h_engine H) p v BIG)"

definition reg_read :: "'z host \<Rightarrow> 64 word \<Rightarrow> nat \<Rightarrow> ('z, expr) xm" where
  "reg_read H off n = always (in_regs (mem_read (h_amb H) off n LITTLE))"

definition reg_write :: "'z host \<Rightarrow> 64 word \<Rightarrow> expr \<Rightarrow> ('z, unit) xm" where
  "reg_write H off v = always (in_regs (mem_write (h_amb H) off v LITTLE))"

definition reg_read_name :: "'z host \<Rightarrow> string \<Rightarrow> ('z, expr) xm" where
  "reg_read_name H name = xbnd (always (liftr (lifter_reg (h_sleigh H) name))) (\<lambda>r. reg_read H (vn_offset r) (vn_size r))"

definition reg_write_name :: "'z host \<Rightarrow> string \<Rightarrow> expr \<Rightarrow> ('z, unit) xm" where
  "reg_write_name H name v = xbnd (always (liftr (lifter_reg (h_sleigh H) name))) (\<lambda>r. reg_write H (vn_offset r) v)"

definition model_name :: "libc_model \<Rightarrow> string" where
  "model_name m = (case m of
     Libc_start_main_exit_wrapper \<Rightarrow> ''libc_start_main_exit_wrapper'' | Libc_start_main \<Rightarrow> ''__libc_start_main''
   | Libc_exit \<Rightarrow> ''exit'' | Libc_abort \<Rightarrow> ''abort'' | Libc_read \<Rightarrow> ''read'' | Libc_open \<Rightarrow> ''open'' | Libc_close \<Rightarrow> ''close''
   | Libc_malloc \<Rightarrow> ''malloc'' | Libc_calloc \<Rightarrow> ''calloc'' | Libc_realloc \<Rightarrow> ''realloc'' | Libc_free \<Rightarrow> ''free''
   | Libc_memcpy \<Rightarrow> ''memcpy'' | Libc_memcmp \<Rightarrow> ''memcmp'' | Libc_strcmp \<Rightarrow> ''strcmp'' | Libc_strlen \<Rightarrow> ''strlen''
   | Libc_strncpy \<Rightarrow> ''strncpy'' | Libc_strcpy \<Rightarrow> ''strcpy'' | Libc_strcat \<Rightarrow> ''strcat'' | Libc_sprintf \<Rightarrow> ''sprintf''
   | Libc_printf \<Rightarrow> ''printf'' | Libc_scanf \<Rightarrow> ''scanf'' | Libc_puts \<Rightarrow> ''puts'' | Libc_fflush \<Rightarrow> ''fflush''
   | Libc_rand \<Rightarrow> ''rand'' | Libc_srand \<Rightarrow> ''srand'' | Libc_ptrace \<Rightarrow> ''ptrace'' | Unmodelled \<Rightarrow> ''unmodelled_function'')"

definition register_linked_function :: "64 word \<Rightarrow> libc_model \<Rightarrow> state \<Rightarrow> state" where
  "register_linked_function a m s =
     (let s' = s\<lparr>m_linked_functions := (m_linked_functions s)(a \<mapsto> m)\<rparr>
      in if model_name m = ''libc_start_main_exit_wrapper'' then s'\<lparr>m_libc_start_main_exit_wrapper := a\<rparr> else s')"

definition is_linked_function :: "64 word \<Rightarrow> state \<Rightarrow> bool" where
  "is_linked_function a s \<longleftrightarrow> m_linked_functions s a \<noteq> None"

definition state_pi :: "'z host \<Rightarrow> ('z, expr) xm" where
  "state_pi H = always (in_solver (manager_pi_all (h_amb H)))"

definition state_satisfiable :: "'z host \<Rightarrow> (state \<times> 'z process, check_result) smonad" where
  "state_satisfiable H = in_solver (satisfiable (h_amb H) (h_api H) (h_engine H))"

definition add_constraint :: "'z host \<Rightarrow> expr \<Rightarrow> ('z, unit) xm" where
  "add_constraint H c = always (in_solver (solver_add (h_amb H) c))"

definition set_pc :: "64 word \<Rightarrow> ('z, unit) xm" where
  "set_pc a = update (\<lambda>s. s\<lparr>m_pc := a\<rparr>)"

text \<open>The stack trace has its newest entry last.\<close>

definition register_call :: "64 word \<Rightarrow> state \<Rightarrow> state" where
  "register_call retaddr s = s\<lparr>m_stacktrace := m_stacktrace s @ [retaddr]\<rparr>"

definition register_ret :: "state \<Rightarrow> state" where
  "register_ret s = (if m_stacktrace s = [] then s else s\<lparr>m_stacktrace := butlast (m_stacktrace s)\<rparr>)"

text \<open>The pointer is read after it has been advanced.\<close>

definition allocate :: "64 word \<Rightarrow> ('z, 64 word) xm" where
  "allocate n = xbnd (update (\<lambda>s. s\<lparr>m_heap_ptr := m_heap_ptr s + n\<rparr>)) (\<lambda>_. gets m_heap_ptr)"

definition allocate_expr :: "expr \<Rightarrow> ('z, 64 word) xm" where
  "allocate_expr e = (case e of
     ConstExpr c \<Rightarrow> xbnd (always (liftr (bv_as_u64 c))) allocate
   | _ \<Rightarrow> fails (Exit ''allocate''))"

definition lift_here :: "'z host \<Rightarrow> 64 word \<Rightarrow> 8 word list \<Rightarrow> 64 word \<Rightarrow> ('z, translation list) xm" where
  "lift_here H a data n = (\<lambda>(s, p). case lift_block (h_sleigh H) a data n (p_blocks p) of
     Inl e \<Rightarrow> Inl e | Inr (b, blocks) \<Rightarrow> Inr (Some b, (s, p\<lparr>p_blocks := blocks\<rparr>)))"

definition curr_block :: "'z host \<Rightarrow> ('z, translation list option) xm" where
  "curr_block H = xbnd (gets (\<lambda>s. (m_pc s, get_code_at (m_pc s) s))) (\<lambda>(pc, code). case code of
     None \<Rightarrow> xret None
   | Some (data, n) \<Rightarrow> xbnd (lift_here H pc data n) (\<lambda>b. xret (Some b)))"

section \<open>Arguments\<close>

text \<open>\<^verbatim>\<open>util/strutil.cpp\<close> and \<^verbatim>\<open>util/parseutil.cpp\<close>: the segments that \<^verbatim>\<open>getline\<close> finds, and a number in the syntax of
  \<^verbatim>\<open>strtoul\<close> with base 0, which saturates.\<close>

fun split_at :: "char \<Rightarrow> string \<Rightarrow> string \<Rightarrow> string list" where
  "split_at c acc [] = (if acc = [] then [] else [acc])"
| "split_at c acc (x # xs) = (if x = c then acc # split_at c [] xs else split_at c (acc @ [x]) xs)"

definition parse_uint :: "string \<Rightarrow> 64 word option" where
  "parse_uint arg =
     (let s1 = dropWhile is_space (takeWhile (\<lambda>ch. of_char ch \<noteq> (0 :: nat)) arg);
          neg = (case s1 of ch # _ \<Rightarrow> ch = CHR ''-'' | [] \<Rightarrow> False);
          s2 = (case s1 of ch # cs \<Rightarrow> if ch = CHR ''-'' \<or> ch = CHR ''+'' then cs else s1 | [] \<Rightarrow> []);
          s3 = strip_hex_prefix 16 s2;
          base = (if s3 \<noteq> s2 then 16 else if take 1 s2 = ''0'' then 8 else 10);
          ds = digits_prefix base s3;
          v = digits_value base ds
      in if ds = [] then None
         else Some (if v \<ge> 2 ^ 64 then - 1 else if neg then - of_nat v else of_nat v))"

datatype argv_filter = No_filter | Print | Anum | Nozero

definition argv_directive :: "string \<Rightarrow> (64 word \<times> argv_filter) res" where
  "argv_directive s = (let toks = split_at CHR '':'' [] s
     in if length toks > 3 then Inl (Exit ''set_argv [1]'')
        else rbind (if length toks = 2 then Inr (toks ! 1, No_filter)
          else if length toks < 3 then Inl (StdException ''out_of_range'')
          else if toks ! 1 = ''print'' then Inr (toks ! 2, Print)
          else if toks ! 1 = ''anum'' then Inr (toks ! 2, Anum)
          else if toks ! 1 = ''nozero'' then Inr (toks ! 2, Nozero)
          else Inl (Exit ''set_argv [2]''))
        (\<lambda>(size_str, f). case parse_uint size_str of
           None \<Rightarrow> Inl (Exit ''set_argv [3]'')
         | Some n \<Rightarrow> if n = 0 then Inl (Exit ''set_argv [3]'') else Inr (n, f)))"

definition in_range_of :: "amb \<Rightarrow> expr \<Rightarrow> 64 word \<Rightarrow> 64 word \<Rightarrow> expr bm" where
  "in_range_of A e l h = bnd (mk_const_u64 A l 8) (\<lambda>kl. bnd (mk_uge A e kl) (\<lambda>c1.
     bnd (mk_const_u64 A h 8) (\<lambda>kh. bnd (mk_ule A e kh) (\<lambda>c2. mk_bool_and A c1 c2))))"

definition constrain_char :: "'z host \<Rightarrow> argv_filter \<Rightarrow> expr \<Rightarrow> ('z, unit) xm" where
  "constrain_char H f e = (let A = h_amb H in case f of
     No_filter \<Rightarrow> xret ()
   | Print \<Rightarrow> xbnd (build (bnd (mk_const_u64 A 0x20 8) (\<lambda>k. mk_uge A e k))) (\<lambda>c1. xbnd (add_constraint H c1) (\<lambda>_.
       xbnd (build (bnd (mk_const_u64 A 0x7E 8) (\<lambda>k. mk_ule A e k))) (add_constraint H)))
   | Anum \<Rightarrow> xbnd (build (in_range_of A e 0x30 0x39)) (\<lambda>c1. xbnd (build (in_range_of A e 0x41 0x5A)) (\<lambda>c2.
       xbnd (build (in_range_of A e 0x61 0x7A)) (\<lambda>c3.
       xbnd (build (bnd (mk_bool_or A c1 c2) (\<lambda>c. mk_bool_or A c c3))) (add_constraint H))))
   | Nozero \<Rightarrow> xbnd (build (bnd (mk_const_u64 A 0 8) (\<lambda>k. bnd (mk_eq A e k) (\<lambda>c. mk_bool_not A c)))) (add_constraint H))"

definition argv_sym_name :: "nat \<Rightarrow> nat \<Rightarrow> string" where
  "argv_sym_name idx i = ''argv_'' @ digits 10 idx @ ''['' @ digits 10 i @ '']''"

fun argv_chars :: "'z host \<Rightarrow> argv_filter \<Rightarrow> nat \<Rightarrow> nat \<Rightarrow> nat \<Rightarrow> expr option \<Rightarrow> ('z, expr option) xm" where
  "argv_chars H f idx i 0 acc = xret acc"
| "argv_chars H f idx i (Suc n) acc =
     xbnd (build (mk_sym (h_amb H) (argv_sym_name idx i) 8)) (\<lambda>e.
     xbnd (constrain_char H f e) (\<lambda>_.
     xbnd (case acc of None \<Rightarrow> xret e | Some a \<Rightarrow> build (mk_concat (h_amb H) a e)) (\<lambda>a.
       argv_chars H f idx (i + 1) n (Some a))))"

definition argv_sym_idx :: "('z, nat) xm" where
  "argv_sym_idx = (\<lambda>(s, p). Inr (Some (p_argv_sym_idx p), (s, p)))"

definition next_argv :: "('z, unit) xm" where
  "next_argv = (\<lambda>(s, p). Inr (Some (), (s, p\<lparr>p_argv_sym_idx := p_argv_sym_idx p + 1\<rparr>)))"

definition push_argv :: "expr \<Rightarrow> ('z, unit) xm" where
  "push_argv e = update (\<lambda>s. s\<lparr>m_argv := m_argv s @ [e]\<rparr>)"

definition set_arg :: "'z host \<Rightarrow> string \<Rightarrow> ('z, unit) xm" where
  "set_arg H s = (if take 3 s = ''@@:''
     then xbnd (always (liftr (argv_directive s))) (\<lambda>(n, f). xbnd argv_sym_idx (\<lambda>idx.
       xbnd (argv_chars H f idx 0 (unat n) None) (\<lambda>acc. xbnd next_argv (\<lambda>_. case acc of
         None \<Rightarrow> fails (Undefined ''null pointer'')
       | Some e \<Rightarrow> xbnd (build (bnd (mk_const_u64 (h_amb H) 0 8) (\<lambda>z. mk_concat (h_amb H) e z))) push_argv))))
     else xbnd (always (liftr (BVConst_data (map of_char s @ [0]) BIG))) (\<lambda>c.
       xbnd (build (mk_const (h_amb H) c)) push_argv))"

fun set_args :: "'z host \<Rightarrow> string list \<Rightarrow> ('z, unit) xm" where
  "set_args H [] = xret ()"
| "set_args H (s # ss) = xbnd (set_arg H s) (\<lambda>_. set_args H ss)"

definition set_argv :: "'z host \<Rightarrow> string list \<Rightarrow> ('z, unit) xm" where
  "set_argv H argv = xbnd (update (\<lambda>s. s\<lparr>m_argv := []\<rparr>)) (\<lambda>_. set_args H argv)"

definition set_argv_exprs :: "expr list \<Rightarrow> state \<Rightarrow> state" where
  "set_argv_exprs argv s = s\<lparr>m_argv := argv\<rparr>"

end
