(* ===== verification/Arch.thy ===== *)
theory Arch
  imports State
begin

text \<open>
  The processors, \<^verbatim>\<open>arch/x86_64.cpp\<close> and \<^verbatim>\<open>arch/arm32LE.cpp\<close>: the registers with a role, the stack, and how calls and system
  calls pass their parameters. The only calling convention is \<^verbatim>\<open>CDECL\<close>.
\<close>

section \<open>Constants\<close>

definition ptr_size :: "arch \<Rightarrow> nat" where
  "ptr_size ar = (case ar of X86_64 \<Rightarrow> 64 | ARM32LE \<Rightarrow> 32)"

definition get_stack_ptr :: "arch \<Rightarrow> 64 word" where
  "get_stack_ptr ar = (case ar of X86_64 \<Rightarrow> 0xCC000000000 | ARM32LE \<Rightarrow> 0xCC000000)"

definition get_heap_ptr :: "arch \<Rightarrow> 64 word" where
  "get_heap_ptr ar = (case ar of X86_64 \<Rightarrow> 0xDD000000000 | ARM32LE \<Rightarrow> 0xDD000000)"

definition get_ext_func_base :: "arch \<Rightarrow> 64 word" where
  "get_ext_func_base ar = (case ar of X86_64 \<Rightarrow> 0x5000000 | ARM32LE \<Rightarrow> 0x50000000)"

definition fs_base_ptr :: "64 word" where
  "fs_base_ptr = 0xFF000000000"

definition get_stack_ptr_reg :: "arch \<Rightarrow> string" where
  "get_stack_ptr_reg ar = (case ar of X86_64 \<Rightarrow> ''RSP'' | ARM32LE \<Rightarrow> ''sp'')"

section \<open>Helpers\<close>

definition const_val :: "string \<Rightarrow> expr \<Rightarrow> ('z, bvconst) xm" where
  "const_val msg e = (case e of ConstExpr c \<Rightarrow> xret c | _ \<Rightarrow> fails (Exit msg))"

definition u64_of :: "string \<Rightarrow> expr \<Rightarrow> ('z, 64 word) xm" where
  "u64_of msg e = xbnd (const_val msg e) (\<lambda>c. always (liftr (bv_as_u64 c)))"

text \<open>The conversion of a 64-bit value to an \<^verbatim>\<open>int\<close> keeps its low half.\<close>

definition int_of :: "string \<Rightarrow> expr \<Rightarrow> ('z, int) xm" where
  "int_of msg e = xbnd (const_val msg e) (\<lambda>c. xbnd (always (liftr (bv_as_s64 c))) (\<lambda>v. xret (sint (ucast v :: 32 word))))"

definition mk_constant :: "'z host \<Rightarrow> 64 word \<Rightarrow> nat \<Rightarrow> ('z, expr) xm" where
  "mk_constant H v n = build (mk_const_u64 (h_amb H) v n)"

definition reg_write_const :: "'z host \<Rightarrow> string \<Rightarrow> 64 word \<Rightarrow> nat \<Rightarrow> ('z, unit) xm" where
  "reg_write_const H name v n = xbnd (mk_constant H v n) (reg_write_name H name)"

fun clear_flags :: "'z host \<Rightarrow> string list \<Rightarrow> ('z, unit) xm" where
  "clear_flags H [] = xret ()"
| "clear_flags H (r # rs) = xbnd (reg_write_const H r 0 8) (\<lambda>_. clear_flags H rs)"

section \<open>The stack\<close>

definition pop_word :: "'z host \<Rightarrow> string \<Rightarrow> nat \<Rightarrow> ('z, expr) xm" where
  "pop_word H reg n = xbnd (mk_constant H (of_nat n) (8 * n)) (\<lambda>k. xbnd (reg_read_name H reg) (\<lambda>sp.
     xbnd (state_read_expr H sp n) (\<lambda>v. xbnd (build (mk_add (h_amb H) sp k)) (\<lambda>sp'.
     xbnd (reg_write_name H reg sp') (\<lambda>_. xret v)))))"

definition push_word :: "'z host \<Rightarrow> string \<Rightarrow> nat \<Rightarrow> expr \<Rightarrow> ('z, unit) xm" where
  "push_word H reg n v = (if expr_size v \<noteq> 8 * n then fails (Exit ''stack_push'')
     else xbnd (mk_constant H (of_nat n) (8 * n)) (\<lambda>k. xbnd (reg_read_name H reg) (\<lambda>sp.
       xbnd (build (mk_sub (h_amb H) sp k)) (\<lambda>sp'. xbnd (state_write_expr H sp' v) (\<lambda>_.
       reg_write_name H reg sp')))))"

section \<open>x86-64\<close>

definition x86_64_init_state :: "'z host \<Rightarrow> ('z, unit) xm" where
  "x86_64_init_state H = xbnd (reg_write_const H ''RSP'' (get_stack_ptr X86_64) 64) (\<lambda>_.
     xbnd (reg_write_const H ''FS_OFFSET'' fs_base_ptr 64) (\<lambda>_.
     clear_flags H [''PF'', ''AF'', ''ZF'', ''SF'', ''IF'', ''DF'', ''OF'']))"

definition x86_64_stack_pop :: "'z host \<Rightarrow> ('z, expr) xm" where
  "x86_64_stack_pop H = pop_word H ''RSP'' 8"

definition x86_64_stack_push :: "'z host \<Rightarrow> expr \<Rightarrow> ('z, unit) xm" where
  "x86_64_stack_push H v = push_word H ''RSP'' 8 v"

definition x86_64_set_return :: "'z host \<Rightarrow> expr \<Rightarrow> ('z, unit) xm" where
  "x86_64_set_return H a = (if expr_size a \<noteq> ptr_size X86_64 then fails (Exit ''set_return'')
     else xbnd (reg_read_name H ''RSP'') (\<lambda>sp. state_write_expr H sp a))"

text \<open>A model ends by pushing its state on the list of active or of exited states.\<close>

datatype outcome = Active | Exited

definition x86_64_handle_return :: "'z host \<Rightarrow> ('z, outcome) xm" where
  "x86_64_handle_return H = xbnd (x86_64_stack_pop H) (\<lambda>r. xbnd (const_val ''handle_return'' r) (\<lambda>c.
     xbnd (update register_ret) (\<lambda>_. xbnd (always (liftr (bv_as_u64 c))) (\<lambda>a. xbnd (set_pc a) (\<lambda>_. xret Active)))))"

definition x86_64_get_syscall_num :: "'z host \<Rightarrow> ('z, int) xm" where
  "x86_64_get_syscall_num H = xbnd (gets m_platform) (\<lambda>pl. case pl of
     Linux64Platform \<Rightarrow> xbnd (reg_read_name H ''RAX'') (int_of ''get_syscall_num'')
   | UnknownPlatform \<Rightarrow> fails (Exit ''get_syscall_num''))"

definition x86_64_get_syscall_param :: "'z host \<Rightarrow> nat \<Rightarrow> ('z, expr) xm" where
  "x86_64_get_syscall_param H i = xbnd (gets m_platform) (\<lambda>pl. case pl of
     Linux64Platform \<Rightarrow>
       if i < 6 then reg_read_name H ([''RDI'', ''RSI'', ''RDX'', ''R10'', ''R8'', ''R9''] ! i)
       else fails (Exit ''get_syscall_param'')
   | UnknownPlatform \<Rightarrow> fails (Exit ''get_syscall_param''))"

definition x86_64_set_syscall_return_value :: "'z host \<Rightarrow> expr \<Rightarrow> ('z, unit) xm" where
  "x86_64_set_syscall_return_value H v = xbnd (gets m_platform) (\<lambda>pl. case pl of
     Linux64Platform \<Rightarrow> reg_write_name H ''RAX'' v
   | UnknownPlatform \<Rightarrow> fails (Exit ''set_syscall_return_value''))"

definition stack_param :: "'z host \<Rightarrow> string \<Rightarrow> nat \<Rightarrow> nat \<Rightarrow> ('z, expr) xm" where
  "stack_param H reg n off = xbnd (mk_constant H (of_nat off) (8 * n)) (\<lambda>k. xbnd (reg_read_name H reg) (\<lambda>sp.
     xbnd (build (mk_add (h_amb H) sp k)) (\<lambda>a. state_read_expr H a n)))"

definition x86_64_get_int_param :: "'z host \<Rightarrow> nat \<Rightarrow> ('z, expr) xm" where
  "x86_64_get_int_param H i =
     (if i < 6 then reg_read_name H ([''RDI'', ''RSI'', ''RDX'', ''RCX'', ''R8'', ''R9''] ! i)
      else stack_param H ''RSP'' 8 ((i + 1 - 6) * 8))"

fun x86_64_set_params :: "'z host \<Rightarrow> nat \<Rightarrow> expr list \<Rightarrow> ('z, unit) xm" where
  "x86_64_set_params H i [] = xret ()"
| "x86_64_set_params H i (v # vs) =
     xbnd (if i < 6 then reg_write_name H ([''RDI'', ''RSI'', ''RDX'', ''RCX'', ''R8'', ''R9''] ! i) v
           else x86_64_stack_push H v) (\<lambda>_. x86_64_set_params H (i + 1) vs)"

definition x86_64_set_int_params :: "'z host \<Rightarrow> expr list \<Rightarrow> ('z, unit) xm" where
  "x86_64_set_int_params H vs = x86_64_set_params H 0 vs"

definition x86_64_set_return_int_value :: "'z host \<Rightarrow> expr \<Rightarrow> ('z, unit) xm" where
  "x86_64_set_return_int_value H v = xbnd (build (mk_zext (h_amb H) v 64)) (reg_write_name H ''RAX'')"

definition x86_64_get_return_int_value :: "'z host \<Rightarrow> ('z, expr) xm" where
  "x86_64_get_return_int_value H = reg_read_name H ''RAX''"

section \<open>32-bit ARM\<close>

definition arm32LE_init_state :: "'z host \<Rightarrow> ('z, unit) xm" where
  "arm32LE_init_state H = reg_write_const H ''sp'' (get_stack_ptr ARM32LE) 32"

definition arm32LE_stack_pop :: "'z host \<Rightarrow> ('z, expr) xm" where
  "arm32LE_stack_pop H = pop_word H ''sp'' 4"

definition arm32LE_stack_push :: "'z host \<Rightarrow> expr \<Rightarrow> ('z, unit) xm" where
  "arm32LE_stack_push H v = push_word H ''sp'' 4 v"

definition arm32LE_set_return :: "'z host \<Rightarrow> expr \<Rightarrow> ('z, unit) xm" where
  "arm32LE_set_return H a = (if expr_size a \<noteq> ptr_size ARM32LE then fails (Exit ''set_return'')
     else xbnd (reg_read_name H ''sp'') (\<lambda>sp. state_write_expr H sp a))"

definition arm32LE_handle_return :: "'z host \<Rightarrow> ('z, outcome) xm" where
  "arm32LE_handle_return H = xbnd (reg_read_name H ''lr'') (\<lambda>r. xbnd (const_val ''handle_return'' r) (\<lambda>c.
     xbnd (update register_ret) (\<lambda>_. xbnd (always (liftr (bv_as_u64 c))) (\<lambda>a. xbnd (set_pc a) (\<lambda>_. xret Active)))))"

definition arm32LE_get_syscall_num :: "'z host \<Rightarrow> ('z, int) xm" where
  "arm32LE_get_syscall_num H = fails (Exit ''get_syscall_num'')"

definition arm32LE_get_syscall_param :: "'z host \<Rightarrow> nat \<Rightarrow> ('z, expr) xm" where
  "arm32LE_get_syscall_param H i = fails (Exit ''get_syscall_param'')"

definition arm32LE_set_syscall_return_value :: "'z host \<Rightarrow> expr \<Rightarrow> ('z, unit) xm" where
  "arm32LE_set_syscall_return_value H v = fails (Exit ''set_syscall_return_value'')"

definition arm32LE_get_int_param :: "'z host \<Rightarrow> nat \<Rightarrow> ('z, expr) xm" where
  "arm32LE_get_int_param H i =
     (if i < 4 then reg_read_name H ([''r0'', ''r1'', ''r2'', ''r3''] ! i)
      else stack_param H ''sp'' 4 ((i + 1 - 4) * 4))"

fun arm32LE_set_params :: "'z host \<Rightarrow> nat \<Rightarrow> expr list \<Rightarrow> ('z, unit) xm" where
  "arm32LE_set_params H i [] = xret ()"
| "arm32LE_set_params H i (v # vs) =
     xbnd (if i < 4 then reg_write_name H ([''r0'', ''r1'', ''r2'', ''r3''] ! i) v
           else arm32LE_stack_push H v) (\<lambda>_. arm32LE_set_params H (i + 1) vs)"

definition arm32LE_set_int_params :: "'z host \<Rightarrow> expr list \<Rightarrow> ('z, unit) xm" where
  "arm32LE_set_int_params H vs = arm32LE_set_params H 0 vs"

text \<open>The name of the register is written in capitals here.\<close>

definition arm32LE_set_return_int_value :: "'z host \<Rightarrow> expr \<Rightarrow> ('z, unit) xm" where
  "arm32LE_set_return_int_value H v = xbnd (build (mk_zext (h_amb H) v 32)) (reg_write_name H ''R0'')"

definition arm32LE_get_return_int_value :: "'z host \<Rightarrow> ('z, expr) xm" where
  "arm32LE_get_return_int_value H = reg_read_name H ''r0''"

section \<open>The virtual functions\<close>

definition init_state :: "'z host \<Rightarrow> ('z, unit) xm" where
  "init_state H = (case h_arch H of X86_64 \<Rightarrow> x86_64_init_state H | ARM32LE \<Rightarrow> arm32LE_init_state H)"

definition handle_return :: "'z host \<Rightarrow> ('z, outcome) xm" where
  "handle_return H = (case h_arch H of X86_64 \<Rightarrow> x86_64_handle_return H | ARM32LE \<Rightarrow> arm32LE_handle_return H)"

definition set_return_expr :: "'z host \<Rightarrow> expr \<Rightarrow> ('z, unit) xm" where
  "set_return_expr H a = (case h_arch H of X86_64 \<Rightarrow> x86_64_set_return H a | ARM32LE \<Rightarrow> arm32LE_set_return H a)"

definition set_return :: "'z host \<Rightarrow> 64 word \<Rightarrow> ('z, unit) xm" where
  "set_return H a = xbnd (mk_constant H a (ptr_size (h_arch H))) (set_return_expr H)"

definition get_syscall_num :: "'z host \<Rightarrow> ('z, int) xm" where
  "get_syscall_num H = (case h_arch H of X86_64 \<Rightarrow> x86_64_get_syscall_num H | ARM32LE \<Rightarrow> arm32LE_get_syscall_num H)"

definition get_syscall_param :: "'z host \<Rightarrow> nat \<Rightarrow> ('z, expr) xm" where
  "get_syscall_param H i = (case h_arch H of X86_64 \<Rightarrow> x86_64_get_syscall_param H i | ARM32LE \<Rightarrow> arm32LE_get_syscall_param H i)"

definition set_syscall_return_value :: "'z host \<Rightarrow> expr \<Rightarrow> ('z, unit) xm" where
  "set_syscall_return_value H v = (case h_arch H of X86_64 \<Rightarrow> x86_64_set_syscall_return_value H v
     | ARM32LE \<Rightarrow> arm32LE_set_syscall_return_value H v)"

definition get_int_param :: "'z host \<Rightarrow> nat \<Rightarrow> ('z, expr) xm" where
  "get_int_param H i = (case h_arch H of X86_64 \<Rightarrow> x86_64_get_int_param H i | ARM32LE \<Rightarrow> arm32LE_get_int_param H i)"

definition set_int_params :: "'z host \<Rightarrow> expr list \<Rightarrow> ('z, unit) xm" where
  "set_int_params H vs = (case h_arch H of X86_64 \<Rightarrow> x86_64_set_int_params H vs | ARM32LE \<Rightarrow> arm32LE_set_int_params H vs)"

definition set_return_int_value :: "'z host \<Rightarrow> expr \<Rightarrow> ('z, unit) xm" where
  "set_return_int_value H v = (case h_arch H of X86_64 \<Rightarrow> x86_64_set_return_int_value H v
     | ARM32LE \<Rightarrow> arm32LE_set_return_int_value H v)"

definition get_return_int_value :: "'z host \<Rightarrow> ('z, expr) xm" where
  "get_return_int_value H = (case h_arch H of X86_64 \<Rightarrow> x86_64_get_return_int_value H | ARM32LE \<Rightarrow> arm32LE_get_return_int_value H)"

end
