(* ===== verification/LibcModels.thy ===== *)
theory LibcModels
  imports Arch "HOL-Library.Signed_Division"
begin

text \<open>
  The models of library functions that work on one state (\<^verbatim>\<open>models/libc/alloc.cpp\<close>, \<^verbatim>\<open>exit.cpp\<close>, \<^verbatim>\<open>libc_start_main.cpp\<close>,
  \<^verbatim>\<open>ptrace.cpp\<close>, \<^verbatim>\<open>posix_file_handling.cpp\<close>, \<^verbatim>\<open>random.cpp\<close>), the system calls (\<^verbatim>\<open>models/linux_syscalls\<close>) and the table
  of system calls of \<^verbatim>\<open>state/Linux64Platform.cpp\<close>. A model returns the list of the states it pushes.
\<close>

section \<open>Results\<close>

text \<open>A pushed state is the one the model was called on, in its final form, or a fork.\<close>

datatype push = Self outcome | Fork outcome state

definition returning :: "'z host \<Rightarrow> ('z, push list) xm" where
  "returning H = xbnd (handle_return H) (\<lambda>r. xret [Self r])"

definition exiting :: "('z, push list) xm" where
  "exiting = xbnd (update (\<lambda>s. s\<lparr>exited := True\<rparr>)) (\<lambda>_. xret [Self Exited])"

section \<open>Allocation\<close>

definition resolve_size :: "expr \<Rightarrow> ('z, 64 word) xm" where
  "resolve_size e = u64_of ''resolve_size'' e"

definition return_ptr :: "'z host \<Rightarrow> 64 word \<Rightarrow> ('z, push list) xm" where
  "return_ptr H ptr = xbnd (mk_constant H ptr (ptr_size (h_arch H))) (\<lambda>k.
     xbnd (set_return_int_value H k) (\<lambda>_. returning H))"

definition libc_malloc :: "'z host \<Rightarrow> ('z, push list) xm" where
  "libc_malloc H = xbnd (get_int_param H 0) (\<lambda>e. xbnd (resolve_size e) (\<lambda>n. xbnd (allocate n) (return_ptr H)))"

fun zero_bytes :: "'z host \<Rightarrow> 64 word \<Rightarrow> nat \<Rightarrow> nat \<Rightarrow> ('z, unit) xm" where
  "zero_bytes H ptr i 0 = xret ()"
| "zero_bytes H ptr i (Suc n) = xbnd (mk_constant H 0 8) (\<lambda>z. xbnd (state_write H (ptr + of_nat i) z) (\<lambda>_.
     zero_bytes H ptr (i + 1) n))"

definition libc_calloc :: "'z host \<Rightarrow> ('z, push list) xm" where
  "libc_calloc H = xbnd (get_int_param H 0) (\<lambda>nmemb. xbnd (get_int_param H 1) (\<lambda>e.
     xbnd (resolve_size e) (\<lambda>a. xbnd (resolve_size nmemb) (\<lambda>b. xbnd (allocate (a * b)) (\<lambda>ptr.
     xbnd (zero_bytes H ptr 0 (unat (a * b))) (\<lambda>_. return_ptr H ptr))))))"

definition libc_realloc :: "'z host \<Rightarrow> ('z, push list) xm" where
  "libc_realloc H = xbnd (get_int_param H 0) (\<lambda>old_ptr. xbnd (get_int_param H 1) (\<lambda>e.
     xbnd (resolve_size e) (\<lambda>n. xbnd (allocate n) (\<lambda>ptr. xbnd (read_buf_expr H old_ptr (unat n)) (\<lambda>data.
     xbnd (write_buf H ptr data) (\<lambda>_. return_ptr H ptr))))))"

definition libc_free :: "'z host \<Rightarrow> ('z, push list) xm" where
  "libc_free H = returning H"

section \<open>Start and end of the program\<close>

definition set_retcode :: "expr \<Rightarrow> ('z, unit) xm" where
  "set_retcode e = (case e of
     ConstExpr c \<Rightarrow> xbnd (always (liftr (bv_as_s64 c))) (\<lambda>v. update (\<lambda>s. s\<lparr>retcode := ucast v\<rparr>))
   | _ \<Rightarrow> update (\<lambda>s. s\<lparr>retcode := 0\<rparr>))"

definition libc_exit :: "'z host \<Rightarrow> ('z, push list) xm" where
  "libc_exit H = xbnd (get_int_param H 0) (\<lambda>e. xbnd (build (mk_extract (h_amb H) e 31 0)) (\<lambda>r.
     xbnd (set_retcode r) (\<lambda>_. exiting)))"

definition libc_abort :: "'z host \<Rightarrow> ('z, push list) xm" where
  "libc_abort H = xbnd (update (\<lambda>s. s\<lparr>retcode := - 1\<rparr>)) (\<lambda>_. exiting)"

definition exit_wrapper :: "'z host \<Rightarrow> ('z, push list) xm" where
  "exit_wrapper H = xbnd (get_return_int_value H) (\<lambda>r. xbnd (set_retcode r) (\<lambda>_. exiting))"

fun copy_argv :: "'z host \<Rightarrow> 64 word \<Rightarrow> nat \<Rightarrow> expr list \<Rightarrow> ('z, unit) xm" where
  "copy_argv H vec_ptr i [] = xret ()"
| "copy_argv H vec_ptr i (arg # args) =
     (if expr_size arg mod 8 \<noteq> 0 then fails (Exit ''__libc_start_main'')
      else xbnd (build (bnd (mk_const_u64 (h_amb H) 0 8) (\<lambda>z. mk_concat (h_amb H) arg z))) (\<lambda>arg'.
        xbnd (allocate (of_nat (expr_size arg' div 8))) (\<lambda>arg_ptr.
        xbnd (write_buf H arg_ptr arg') (\<lambda>_.
        xbnd (mk_constant H arg_ptr (ptr_size (h_arch H))) (\<lambda>k.
        xbnd (state_write H (vec_ptr + of_nat (i * (ptr_size (h_arch H) div 8))) k) (\<lambda>_.
        copy_argv H vec_ptr (i + 1) args))))))"

definition libc_start_main :: "'z host \<Rightarrow> ('z, push list) xm" where
  "libc_start_main H = (let n = ptr_size (h_arch H) in
     xbnd (get_int_param H 0) (\<lambda>main_addr. xbnd (const_val ''__libc_start_main'' main_addr) (\<lambda>c.
     xbnd (gets m_libc_start_main_exit_wrapper) (\<lambda>wrapper. xbnd (set_return H wrapper) (\<lambda>_.
     xbnd (gets m_argv) (\<lambda>argv. xbnd (mk_constant H (of_nat (length argv)) n) (\<lambda>argc.
     xbnd (if argv = [] then xret [argc]
           else xbnd (allocate (of_nat (length argv * (n div 8)))) (\<lambda>vec_ptr. xbnd (mk_constant H vec_ptr n) (\<lambda>k.
             xbnd (copy_argv H vec_ptr 0 argv) (\<lambda>_. xret [argc, k])))) (\<lambda>args.
     xbnd (set_int_params H args) (\<lambda>_. xbnd (always (liftr (bv_as_u64 c))) (\<lambda>a.
     xbnd (set_pc a) (\<lambda>_. xret [Self Active])))))))))))"

definition libc_ptrace :: "'z host \<Rightarrow> ('z, push list) xm" where
  "libc_ptrace H = xbnd (mk_constant H 0 8) (\<lambda>z. xbnd (set_return_int_value H z) (\<lambda>_. returning H))"

section \<open>Files\<close>

fun printable_bytes :: "'z host \<Rightarrow> expr \<Rightarrow> nat \<Rightarrow> nat \<Rightarrow> ('z, unit) xm" where
  "printable_bytes H data i 0 = xret ()"
| "printable_bytes H data i (Suc n) = xbnd (build (mk_extract (h_amb H) data (i * 8 + 7) (i * 8))) (\<lambda>b.
     xbnd (mk_constant H 0x20 8) (\<lambda>l. xbnd (mk_constant H 0x7E 8) (\<lambda>h.
     xbnd (build (mk_uge (h_amb H) b l)) (\<lambda>c1. xbnd (add_constraint H c1) (\<lambda>_.
     xbnd (build (mk_ule (h_amb H) b h)) (\<lambda>c2. xbnd (add_constraint H c2) (\<lambda>_.
     printable_bytes H data (i + 1) n)))))))"

text \<open>What the library function and the system call have in common: the checks, the read and the constraints on standard
  input. The value is the size.\<close>

definition read_file :: "'z host \<Rightarrow> expr \<Rightarrow> expr \<Rightarrow> expr \<Rightarrow> ('z, 64 word) xm" where
  "read_file H fd buf n = xbnd (const_val ''read'' fd) (\<lambda>_. xbnd (const_val ''read'' buf) (\<lambda>_. xbnd (const_val ''read'' n) (\<lambda>_.
     xbnd (int_of ''read'' fd) (\<lambda>fd'. xbnd (u64_of ''read'' buf) (\<lambda>buf'. xbnd (u64_of ''read'' n) (\<lambda>n'.
     xbnd (always (in_fs (fs_read (h_amb H) fd' n'))) (\<lambda>data.
     xbnd (if fd' = 0 \<and> printable_stdin (h_cfg H) then printable_bytes H data 0 (unat n') else xret ()) (\<lambda>_.
     xbnd (write_buf H buf' data) (\<lambda>_. xret n')))))))))"

definition libc_read :: "'z host \<Rightarrow> ('z, push list) xm" where
  "libc_read H = xbnd (get_int_param H 0) (\<lambda>fd. xbnd (get_int_param H 1) (\<lambda>buf. xbnd (get_int_param H 2) (\<lambda>n.
     xbnd (read_file H fd buf n) (\<lambda>_. returning H))))"

text \<open>The loop over the characters of a path has no bound in the code; it is given a number of rounds.\<close>

fun read_path :: "'z host \<Rightarrow> 64 word \<Rightarrow> nat \<Rightarrow> string \<Rightarrow> nat \<Rightarrow> ('z, string) xm" where
  "read_path H ptr off acc 0 = fails (Undefined ''endless loop'')"
| "read_path H ptr off acc (Suc n) = xbnd (state_read H (ptr + of_nat off) 1) (\<lambda>b.
     xbnd (const_val ''open'' b) (\<lambda>c. xbnd (always (liftr (bv_as_s64 c))) (\<lambda>v.
       if v = 0 then xret acc else read_path H ptr (off + 1) (acc @ [char_of (unat v mod 256)]) n)))"

definition open_file :: "'z host \<Rightarrow> string \<Rightarrow> ('z, int) xm" where
  "open_file H path = (\<lambda>(s, p). case fs_open (h_cfg H) path (m_fs s) of
     Inl e \<Rightarrow> Inl e | Inr (fd, fs) \<Rightarrow> Inr (Some fd, (s\<lparr>m_fs := fs\<rparr>, p)))"

definition open_path :: "'z host \<Rightarrow> nat \<Rightarrow> expr \<Rightarrow> ('z, expr) xm" where
  "open_path H fuel path = xbnd (u64_of ''open'' path) (\<lambda>ptr. xbnd (read_path H ptr 0 [] fuel) (\<lambda>name.
     xbnd (open_file H name) (\<lambda>fd. mk_constant H (of_int fd) 32)))"

definition libc_open :: "'z host \<Rightarrow> nat \<Rightarrow> ('z, push list) xm" where
  "libc_open H fuel = xbnd (get_int_param H 0) (\<lambda>path. xbnd (open_path H fuel path) (\<lambda>fd.
     xbnd (set_return_int_value H fd) (\<lambda>_. returning H)))"

definition close_file :: "int \<Rightarrow> ('z, unit) xm" where
  "close_file fd = (\<lambda>(s, p). case fs_close fd (m_fs s) of Inl e \<Rightarrow> Inl e | Inr fs \<Rightarrow> Inr (Some (), (s\<lparr>m_fs := fs\<rparr>, p)))"

definition libc_close :: "'z host \<Rightarrow> ('z, push list) xm" where
  "libc_close H = xbnd (get_int_param H 0) (\<lambda>e. xbnd (int_of ''close'' e) (\<lambda>fd.
     xbnd (close_file fd) (\<lambda>_. returning H)))"

section \<open>System calls\<close>

definition sys_read :: "'z host \<Rightarrow> ('z, unit) xm" where
  "sys_read H = xbnd (get_syscall_param H 0) (\<lambda>fd. xbnd (get_syscall_param H 1) (\<lambda>buf. xbnd (get_syscall_param H 2) (\<lambda>n.
     xbnd (read_file H fd buf n) (\<lambda>n'. xbnd (mk_constant H n' (ptr_size (h_arch H))) (set_syscall_return_value H)))))"

definition sys_open :: "'z host \<Rightarrow> nat \<Rightarrow> ('z, unit) xm" where
  "sys_open H fuel = xbnd (get_syscall_param H 0) (\<lambda>path. xbnd (open_path H fuel path) (set_syscall_return_value H))"

text \<open>The table has 314 entries, of which two are models; its bound is checked with \<open>>\<close>, so the number 314 reads behind
  its end.\<close>

datatype syscall_model = Syscall_read | Syscall_open

definition syscalls :: "syscall_model option list" where
  "syscalls = [Some Syscall_read, None, Some Syscall_open] @ replicate 311 None"

definition linux_syscall :: "'z host \<Rightarrow> nat \<Rightarrow> int \<Rightarrow> ('z, unit) xm" where
  "linux_syscall H fuel num =
     (if num < 0 \<or> num > int (length syscalls) then fails (Exit ''syscall: invalid number'')
      else if num = int (length syscalls) then fails (Undefined ''out of bounds'')
      else case syscalls ! nat num of
        None \<Rightarrow> fails (Exit ''syscall: unsupported number'')
      | Some Syscall_read \<Rightarrow> sys_read H
      | Some Syscall_open \<Rightarrow> sys_open H fuel)"

definition platform_syscall :: "'z host \<Rightarrow> nat \<Rightarrow> int \<Rightarrow> ('z, unit) xm" where
  "platform_syscall H fuel num = xbnd (gets m_platform) (\<lambda>pl. case pl of
     Linux64Platform \<Rightarrow> linux_syscall H fuel num
   | UnknownPlatform \<Rightarrow> fails (Exit ''no syscalls in UnknownPlatform''))"

section \<open>Random numbers\<close>

text \<open>The table is static: its entry 0 holds the type, and \<open>state\<close> points to entry 1.\<close>

definition randtbl_init :: "32 word list" where
  "randtbl_init = map of_int [3, - 1726662223, 379960547, 1735697613, 1040273694, 1313901226, 1627687941,
    - 179304937, - 2073333483, 1780058412, - 1989503057, - 615974602, 344556628, 939512070, - 1249116260, 1507946756,
    - 812545463, 154635395, 1388815473, - 1926676823, 525320961, - 1009028674, 968117788, - 123449607, 1284210865,
    435012392, - 2017506339, - 911064859, - 370259173, 1132637927, 1398500161, - 205601318]"

definition state_template :: random_data where
  "state_template = \<lparr>fptr = 4, rptr = 1, rand_type = 3, rand_deg = 31, rand_sep = 3\<rparr>"

text \<open>The end of the table is entry 32; the template has type 3, and no code of the program changes the type.\<close>

definition random_r :: "random_data \<Rightarrow> 32 word list \<Rightarrow> 32 word \<times> random_data \<times> 32 word list" where
  "random_r d tbl = (if rand_type d = 0
     then let v = (tbl ! 1 * 1103515245 + 12345) AND 0x7FFFFFFF in (v, d, tbl[1 := v])
     else let v = tbl ! fptr d + tbl ! rptr d;
              tbl' = tbl[fptr d := v];
              (f, r) = (if fptr d + 1 \<ge> 32 then (1, rptr d + 1)
                        else (fptr d + 1, if rptr d + 1 \<ge> 32 then 1 else rptr d + 1))
          in (drop_bit 1 v, d\<lparr>fptr := f, rptr := r\<rparr>, tbl'))"

text \<open>The loop that fills the entries from \<open>dst + 1\<close>, \<open>n\<close> of them; \<open>word\<close> is an \<^verbatim>\<open>int32_t\<close>, the rest of the computation
  is in 64 bits and truncates towards zero.\<close>

definition next_seed :: "32 word \<Rightarrow> 32 word" where
  "next_seed v = (let hi = sint v sdiv 127773; lo = sint v smod 127773;
       v' = (of_int (16807 * lo - 2836 * hi) :: 32 word)
     in if sint v' < 0 then v' + 2147483647 else v')"

fun fill_table :: "32 word list \<Rightarrow> nat \<Rightarrow> 32 word \<Rightarrow> nat \<Rightarrow> 32 word list" where
  "fill_table tbl dst v 0 = tbl"
| "fill_table tbl dst v (Suc n) = fill_table (tbl[dst + 1 := next_seed v]) (dst + 1) (next_seed v) n"

fun discard :: "nat \<Rightarrow> random_data \<Rightarrow> 32 word list \<Rightarrow> random_data \<times> 32 word list" where
  "discard 0 d tbl = (d, tbl)"
| "discard (Suc n) d tbl = (case random_r d tbl of (v, d', tbl') \<Rightarrow> discard n d' tbl')"

definition srandom_r :: "32 word \<Rightarrow> random_data \<Rightarrow> 32 word list \<Rightarrow> (random_data \<times> 32 word list) option" where
  "srandom_r seed d tbl = (if rand_type d \<ge> 5 then None
     else let seed = (if seed = 0 then 1 else seed); tbl = tbl[1 := seed]
       in if rand_type d = 0 then Some (d, tbl)
          else Some (discard (rand_deg d * 10) (d\<lparr>fptr := rand_sep d + 1, rptr := 1\<rparr>)
                 (fill_table tbl 1 seed (rand_deg d - 1))))"

text \<open>The plugin of the state, created from the template when it has none; \<open>step\<close> works on it and the table.\<close>

definition rand_plugin :: "('z, random_data) xm" where
  "rand_plugin = xbnd (get_plugin ''libc::rand'') (\<lambda>pl. case pl of
     Some d \<Rightarrow> xret d
   | None \<Rightarrow> xbnd (register_plugin ''libc::rand'' state_template) (\<lambda>_. xret state_template))"

definition put_random :: "random_data \<Rightarrow> 32 word list \<Rightarrow> ('z, unit) xm" where
  "put_random d tbl = (\<lambda>(s, p). Inr (Some (), (s\<lparr>m_pm := (m_pm s)(''libc::rand'' \<mapsto> d)\<rparr>, p\<lparr>p_randtbl := tbl\<rparr>)))"

definition get_randtbl :: "('z, 32 word list) xm" where
  "get_randtbl = (\<lambda>(s, p). Inr (Some (p_randtbl p), (s, p)))"

text \<open>A symbolic operand is replaced by one of its values; without one the path is given up.\<close>

definition concretize :: "'z host \<Rightarrow> expr \<Rightarrow> ('z, bvconst) xm" where
  "concretize H e = (case e of
     ConstExpr c \<Rightarrow> xret c
   | _ \<Rightarrow> in_solver (solver_evaluate (h_amb H) (h_api H) (h_engine H) e))"

definition libc_srand :: "'z host \<Rightarrow> ('z, push list) xm" where
  "libc_srand H = xbnd (get_int_param H 0) (\<lambda>seed. xbnd (concretize H seed) (\<lambda>c. xbnd rand_plugin (\<lambda>d.
     xbnd (always (liftr (bv_as_u64 c))) (\<lambda>v. xbnd get_randtbl (\<lambda>tbl.
     case srandom_r (ucast v) d tbl of
       None \<Rightarrow> fails (Exit ''srand'')
     | Some (d', tbl') \<Rightarrow> xbnd (put_random d' tbl') (\<lambda>_. returning H))))))"

definition libc_rand :: "'z host \<Rightarrow> ('z, push list) xm" where
  "libc_rand H = xbnd rand_plugin (\<lambda>d. xbnd get_randtbl (\<lambda>tbl. case random_r d tbl of (v, d', tbl') \<Rightarrow>
     xbnd (put_random d' tbl') (\<lambda>_. xbnd (mk_constant H (scast v) 32) (\<lambda>k.
     xbnd (set_return_int_value H k) (\<lambda>_. returning H)))))"

end
