(* ===== verification/StringModels.thy ===== *)
theory StringModels
  imports LibcModels
begin

text \<open>
  The models of the string functions, \<^verbatim>\<open>models/libc/string.cpp\<close> and \<^verbatim>\<open>string_utils.cpp\<close>, and \<^verbatim>\<open>fflush\<close> and \<^verbatim>\<open>puts\<close> of
  \<^verbatim>\<open>stdio.cpp\<close>. A string that may end at several places forks the state.
\<close>

section \<open>Buffers\<close>

text \<open>The bytes are read in the byte order of the processor and written in the opposite one.\<close>

definition libc_memcpy :: "'z host \<Rightarrow> ('z, push list) xm" where
  "libc_memcpy H = xbnd (get_int_param H 0) (\<lambda>dst. xbnd (get_int_param H 1) (\<lambda>src. xbnd (get_int_param H 2) (\<lambda>n.
     xbnd (const_val ''memcpy'' dst) (\<lambda>_. xbnd (const_val ''memcpy'' src) (\<lambda>_. xbnd (const_val ''memcpy'' n) (\<lambda>_.
     xbnd (u64_of ''memcpy'' dst) (\<lambda>dst'. xbnd (u64_of ''memcpy'' src) (\<lambda>src'. xbnd (u64_of ''memcpy'' n) (\<lambda>n'.
     xbnd (state_read H src' (unat n')) (\<lambda>data. xbnd (write_buf H dst' data) (\<lambda>_. returning H)))))))))))"

definition libc_memcmp :: "'z host \<Rightarrow> ('z, push list) xm" where
  "libc_memcmp H = xbnd (get_int_param H 0) (\<lambda>buf1. xbnd (get_int_param H 1) (\<lambda>buf2. xbnd (get_int_param H 2) (\<lambda>n.
     xbnd (const_val ''memcmp'' buf1) (\<lambda>_. xbnd (const_val ''memcmp'' buf2) (\<lambda>_. xbnd (const_val ''memcmp'' n) (\<lambda>_.
     xbnd (u64_of ''memcmp'' buf1) (\<lambda>a. xbnd (u64_of ''memcmp'' buf2) (\<lambda>b. xbnd (u64_of ''memcmp'' n) (\<lambda>n'.
     xbnd (read_buf H a (unat n')) (\<lambda>x. xbnd (read_buf H b (unat n')) (\<lambda>y.
     xbnd (build (mk_eq (h_amb H) x y)) (\<lambda>c. xbnd (mk_constant H 0 8) (\<lambda>k0. xbnd (mk_constant H 1 8) (\<lambda>k1.
     xbnd (build (mk_ite (h_amb H) c k0 k1)) (\<lambda>r. xbnd (set_return_int_value H r) (\<lambda>_. returning H))))))))))))))))"

definition is_zero_const :: "expr \<Rightarrow> ('z, bool) xm" where
  "is_zero_const e = (case e of
     ConstExpr c \<Rightarrow> xbnd (always (liftr (bv_as_u64 c))) (\<lambda>v. xret (v = 0))
   | _ \<Rightarrow> xret False)"

text \<open>The loop of \<^verbatim>\<open>strcmp\<close>: \<open>None\<close> when two bytes are known to differ, otherwise the condition that they all agree.\<close>

fun strcmp_loop :: "'z host \<Rightarrow> nat \<Rightarrow> 64 word \<Rightarrow> 64 word \<Rightarrow> expr \<Rightarrow> ('z, expr option) xm" where
  "strcmp_loop H 0 str1 str2 acc = xret (Some acc)"
| "strcmp_loop H (Suc n) str1 str2 acc = xbnd (state_read H str1 1) (\<lambda>b1. xbnd (state_read H str2 1) (\<lambda>b2.
     xbnd (build (mk_eq (h_amb H) b1 b2)) (\<lambda>c.
       if kind c = K_BOOL_CONST \<and> \<not> is_true_const c then xret None
       else xbnd (build (mk_bool_and (h_amb H) acc c)) (\<lambda>acc'.
         xbnd (is_zero_const b1) (\<lambda>z1. if z1 then xret (Some acc')
           else xbnd (is_zero_const b2) (\<lambda>z2. if z2 then xret (Some acc')
             else strcmp_loop H n (str1 + 1) (str2 + 1) acc'))))))"

definition libc_strcmp :: "'z host \<Rightarrow> ('z, push list) xm" where
  "libc_strcmp H = xbnd (get_int_param H 0) (\<lambda>s1. xbnd (get_int_param H 1) (\<lambda>s2.
     xbnd (const_val ''strcmp'' s1) (\<lambda>_. xbnd (const_val ''strcmp'' s2) (\<lambda>_.
     xbnd (u64_of ''strcmp'' s1) (\<lambda>a. xbnd (u64_of ''strcmp'' s2) (\<lambda>b.
     xbnd (build mk_true) (\<lambda>t. xbnd (strcmp_loop H 256 a b t) (\<lambda>r.
     xbnd (case r of
        None \<Rightarrow> mk_constant H 1 8
      | Some c \<Rightarrow> xbnd (mk_constant H 0 8) (\<lambda>k0. xbnd (mk_constant H 1 8) (\<lambda>k1. build (mk_ite (h_amb H) c k0 k1)))) (\<lambda>v.
     xbnd (set_return_int_value H v) (\<lambda>_. returning H))))))))))"

section \<open>Resolving a string\<close>

text \<open>A resolved string belongs to a fork of the state or, for \<open>None\<close>, to the state itself; it is absent when not a single
  byte was read.\<close>

type_synonym resolved_string = "state option \<times> expr option"

text \<open>The operation \<open>op\<close> on another state of the process.\<close>

definition on_state :: "state \<Rightarrow> ('z, 'a) xm \<Rightarrow> ('z, 'a \<times> state) xm" where
  "on_state st op = (\<lambda>(s, p). case op (st, p) of
     Inl e \<Rightarrow> Inl e
   | Inr (None, (_, p')) \<Rightarrow> Inr (None, (s, p'))
   | Inr (Some x, (st', p')) \<Rightarrow> Inr (Some (x, st'), (s, p')))"

definition end_string :: "'z host \<Rightarrow> expr \<Rightarrow> expr \<Rightarrow> 64 word \<Rightarrow> ('z, unit) xm" where
  "end_string H is_zero_expr zero_byte cur = xbnd (add_constraint H is_zero_expr) (\<lambda>_. state_write H cur zero_byte)"

text \<open>Whether the byte is the constant zero, of any width.\<close>

definition ends_string :: "expr \<Rightarrow> ('z, bool) xm" where
  "ends_string b = (case b of ConstExpr c \<Rightarrow> always (liftr (bv_is_zero c)) | _ \<Rightarrow> xret False)"

text \<open>The loop with \<open>n\<close> rounds left; when the code has no bound, running out of rounds is not an end of the loop.\<close>

fun resolve_loop :: "'z host \<Rightarrow> bool \<Rightarrow> nat \<Rightarrow> int \<Rightarrow> 64 word \<Rightarrow> expr \<Rightarrow> expr option \<Rightarrow> resolved_string list \<Rightarrow>
    ('z, resolved_string list) xm" where
  "resolve_loop H bounded 0 max_forks cur zero str res =
     (if bounded then xret (res @ [(None, str)]) else fails (Undefined ''endless loop''))"
| "resolve_loop H bounded (Suc n) max_forks cur zero str res = xbnd (state_read H cur 1) (\<lambda>b.
     xbnd (case str of None \<Rightarrow> xret b | Some e \<Rightarrow> build (mk_concat (h_amb H) e b)) (\<lambda>str'.
     xbnd (ends_string b) (\<lambda>z. if z then xret (res @ [(None, Some str')])
       else if kind b = K_CONST then resolve_loop H bounded n max_forks (cur + 1) zero (Some str') res
       else xbnd (build (mk_eq (h_amb H) b zero)) (\<lambda>is_zero.
         xbnd (always (in_solver (may_be_true (h_amb H) (h_api H) (h_engine H) is_zero))) (\<lambda>r.
         if r \<noteq> SAT then resolve_loop H bounded n max_forks (cur + 1) zero (Some str') res
         else if max_forks \<le> 0 then xbnd (end_string H is_zero zero cur) (\<lambda>_. xret (res @ [(None, Some str')]))
         else xbnd (gets State_clone) (\<lambda>succ. xbnd (on_state succ (end_string H is_zero zero cur)) (\<lambda>(_, succ').
           xbnd (build (mk_bool_not (h_amb H) is_zero)) (\<lambda>nz.
           xbnd (always (in_solver (check_sat_and_add_if_sat (h_amb H) (h_api H) (h_engine H) nz))) (\<lambda>r'.
             if r' \<noteq> SAT then xret (res @ [(Some succ', Some str')])
             else resolve_loop H bounded n (max_forks - 1) (cur + 1) zero (Some str') (res @ [(Some succ', Some str')]))))))))))"

text \<open>A negative bound is no bound; then the number of rounds is \<open>fuel\<close>.\<close>

definition resolve_string :: "'z host \<Rightarrow> nat \<Rightarrow> 64 word \<Rightarrow> int \<Rightarrow> int \<Rightarrow> ('z, resolved_string list) xm" where
  "resolve_string H fuel a max_forks max_size = xbnd (mk_constant H 0 8) (\<lambda>zero.
     resolve_loop H (max_size \<ge> 0) (if max_size \<ge> 0 then nat max_size else fuel) max_forks a zero None [])"

definition deref :: "expr option \<Rightarrow> ('z, expr) xm" where
  "deref e = (case e of None \<Rightarrow> fails (Undefined ''null pointer'') | Some e \<Rightarrow> xret e)"

text \<open>The loop over resolved strings: \<open>op\<close> and the return on every state.\<close>

fun each_resolved :: "'z host \<Rightarrow> (expr option \<Rightarrow> ('z, unit) xm) \<Rightarrow> resolved_string list \<Rightarrow> ('z, push list) xm" where
  "each_resolved H op [] = xret []"
| "each_resolved H op ((None, str) # rs) = xbnd (op str) (\<lambda>_. xbnd (handle_return H) (\<lambda>r.
     xbnd (each_resolved H op rs) (\<lambda>ps. xret (Self r # ps))))"
| "each_resolved H op ((Some st, str) # rs) = xbnd (on_state st (xbnd (op str) (\<lambda>_. handle_return H))) (\<lambda>(r, st').
     xbnd (each_resolved H op rs) (\<lambda>ps. xret (Fork r st' # ps)))"

section \<open>String functions\<close>

definition libc_strlen :: "'z host \<Rightarrow> nat \<Rightarrow> ('z, push list) xm" where
  "libc_strlen H fuel = xbnd (get_int_param H 0) (\<lambda>str. xbnd (u64_of ''strlen'' str) (\<lambda>a.
     xbnd (resolve_string H fuel a 32 (- 1)) (each_resolved H (\<lambda>e. xbnd (deref e) (\<lambda>e.
       xbnd (mk_constant H (of_nat (expr_size e div 8) - 1) (ptr_size (h_arch H))) (set_return_int_value H))))))"

definition libc_strncpy :: "'z host \<Rightarrow> nat \<Rightarrow> ('z, push list) xm" where
  "libc_strncpy H fuel = xbnd (get_int_param H 0) (\<lambda>dst. xbnd (get_int_param H 1) (\<lambda>src. xbnd (get_int_param H 2) (\<lambda>n.
     xbnd (const_val ''strncpy'' dst) (\<lambda>_. xbnd (const_val ''strncpy'' src) (\<lambda>_. xbnd (const_val ''strncpy'' n) (\<lambda>_.
     xbnd (set_return_int_value H dst) (\<lambda>_.
     xbnd (u64_of ''strncpy'' dst) (\<lambda>dst'. xbnd (u64_of ''strncpy'' src) (\<lambda>src'. xbnd (u64_of ''strncpy'' n) (\<lambda>n'.
     xbnd (resolve_string H fuel src' 32 (sint (ucast n' :: 32 word)))
       (each_resolved H (\<lambda>e. xbnd (deref e) (write_buf H dst')))))))))))))"

definition libc_strcpy :: "'z host \<Rightarrow> nat \<Rightarrow> ('z, push list) xm" where
  "libc_strcpy H fuel = xbnd (get_int_param H 0) (\<lambda>dst. xbnd (get_int_param H 1) (\<lambda>src.
     xbnd (const_val ''strcpy'' dst) (\<lambda>_. xbnd (const_val ''strcpy'' src) (\<lambda>_.
     xbnd (set_return_int_value H dst) (\<lambda>_.
     xbnd (u64_of ''strcpy'' dst) (\<lambda>dst'. xbnd (u64_of ''strcpy'' src) (\<lambda>src'.
     xbnd (resolve_string H fuel src' 32 (- 1)) (each_resolved H (\<lambda>e. xbnd (deref e) (write_buf H dst'))))))))))"

text \<open>The string is written to the state of the source, also when the destination forked, and behind the terminator.\<close>

fun each_dst :: "'z host \<Rightarrow> 64 word \<Rightarrow> expr option \<Rightarrow> resolved_string list \<Rightarrow> ('z, push list) xm" where
  "each_dst H dst str [] = xret []"
| "each_dst H dst str ((st, d) # rs) = xbnd (deref d) (\<lambda>d'. xbnd (deref str) (\<lambda>e.
     xbnd (write_buf H (dst + of_nat (expr_size d' div 8)) e) (\<lambda>_.
     xbnd (case st of
       None \<Rightarrow> xbnd (handle_return H) (\<lambda>r. xret (Self r))
     | Some st \<Rightarrow> xbnd (on_state st (handle_return H)) (\<lambda>(r, st'). xret (Fork r st'))) (\<lambda>p.
     xbnd (each_dst H dst str rs) (\<lambda>ps. xret (p # ps))))))"

text \<open>What is pushed on a fork is pushed as that fork.\<close>

definition push_as :: "state \<Rightarrow> push \<Rightarrow> push" where
  "push_as st p = (case p of Self r \<Rightarrow> Fork r st | Fork r st' \<Rightarrow> Fork r st')"

fun each_src :: "'z host \<Rightarrow> nat \<Rightarrow> 64 word \<Rightarrow> resolved_string list \<Rightarrow> ('z, push list) xm" where
  "each_src H fuel dst [] = xret []"
| "each_src H fuel dst ((st, str) # rs) =
     (let op = xbnd (resolve_string H fuel dst 8 (- 1)) (each_dst H dst str)
      in xbnd (case st of
           None \<Rightarrow> op
         | Some st \<Rightarrow> xbnd (on_state st op) (\<lambda>(ps, st'). xret (map (push_as st') ps))) (\<lambda>ps.
         xbnd (each_src H fuel dst rs) (\<lambda>ps'. xret (ps @ ps'))))"

definition libc_strcat :: "'z host \<Rightarrow> nat \<Rightarrow> ('z, push list) xm" where
  "libc_strcat H fuel = xbnd (get_int_param H 0) (\<lambda>dst. xbnd (get_int_param H 1) (\<lambda>src.
     xbnd (const_val ''strcat'' dst) (\<lambda>_. xbnd (const_val ''strcat'' src) (\<lambda>_.
     xbnd (set_return_int_value H dst) (\<lambda>_.
     xbnd (u64_of ''strcat'' dst) (\<lambda>dst'. xbnd (u64_of ''strcat'' src) (\<lambda>src'.
     xbnd (resolve_string H fuel src' 8 (- 1)) (each_src H fuel dst'))))))))"

section \<open>Output\<close>

definition libc_fflush :: "'z host \<Rightarrow> ('z, push list) xm" where
  "libc_fflush H = xbnd (mk_constant H 0 32) (\<lambda>z. xbnd (set_return_int_value H z) (\<lambda>_. returning H))"

text \<open>Without forks at most one string is resolved, and it belongs to the state itself.\<close>

definition the_string :: "string \<Rightarrow> resolved_string list \<Rightarrow> ('z, expr option) xm" where
  "the_string msg rs = (case rs of [(st, str)] \<Rightarrow> xret str | _ \<Rightarrow> fails (Exit msg))"

definition libc_puts :: "'z host \<Rightarrow> ('z, push list) xm" where
  "libc_puts H = xbnd (get_int_param H 0) (\<lambda>str. xbnd (u64_of ''puts'' str) (\<lambda>a.
     xbnd (resolve_string H 0 a 0 256) (\<lambda>rs. xbnd (the_string ''puts'' rs) (\<lambda>e. xbnd (deref e) (\<lambda>data.
     xbnd (mk_constant H 10 8) (\<lambda>nl. xbnd (build (mk_concat (h_amb H) data nl)) (\<lambda>data'.
     xbnd (always (in_fs (fs_write (h_amb H) 1 data'))) (\<lambda>_. returning H))))))))"

end
