(* ===== verification/StdioModels.thy ===== *)
theory StdioModels
  imports StringModels
begin

text \<open>
  The models of \<^verbatim>\<open>printf\<close>, \<^verbatim>\<open>sprintf\<close> and \<^verbatim>\<open>scanf\<close>, \<^verbatim>\<open>models/libc/stdio.cpp\<close>: the format string is split into tokens,
  and each specifier takes a parameter of the call. A string of the code is followed by a zero character.
\<close>

section \<open>Tokens\<close>

record format_token =
  is_specifier :: bool
  ft_flags :: "32 word"
  ft_width :: "32 word"
  ft_precision :: "32 word"
  ft_specifier :: char
  ft_str :: string

definition FLAGS_ZEROPAD :: "32 word" where "FLAGS_ZEROPAD = 1"
definition FLAGS_LEFT :: "32 word" where "FLAGS_LEFT = push_bit 1 1"
definition FLAGS_PLUS :: "32 word" where "FLAGS_PLUS = push_bit 2 1"
definition FLAGS_SPACE :: "32 word" where "FLAGS_SPACE = push_bit 3 1"
definition FLAGS_HASH :: "32 word" where "FLAGS_HASH = push_bit 4 1"
definition FLAGS_WIDTH_AS_PARAM :: "32 word" where "FLAGS_WIDTH_AS_PARAM = push_bit 5 1"
definition FLAGS_PREC_AS_PARAM :: "32 word" where "FLAGS_PREC_AS_PARAM = push_bit 6 1"
definition FLAGS_CHAR :: "32 word" where "FLAGS_CHAR = push_bit 7 1"
definition FLAGS_SHORT :: "32 word" where "FLAGS_SHORT = push_bit 8 1"
definition FLAGS_LONG :: "32 word" where "FLAGS_LONG = push_bit 9 1"
definition FLAGS_LONG_LONG :: "32 word" where "FLAGS_LONG_LONG = push_bit 10 1"
definition FLAGS_HAS_WIDTH :: "32 word" where "FLAGS_HAS_WIDTH = push_bit 11 1"
definition FLAGS_HAS_PRECISION :: "32 word" where "FLAGS_HAS_PRECISION = push_bit 12 1"

definition has_flag :: "format_token \<Rightarrow> 32 word \<Rightarrow> bool" where
  "has_flag ft f \<longleftrightarrow> and (ft_flags ft) f \<noteq> 0"

definition needle :: "string \<Rightarrow> char" where
  "needle s = (case s of [] \<Rightarrow> CHR 0x00 | c # _ \<Rightarrow> c)"

definition is_digit :: "char \<Rightarrow> bool" where
  "is_digit c \<longleftrightarrow> (48 :: nat) \<le> of_char c \<and> of_char c \<le> (57 :: nat)"

fun atoi :: "32 word \<Rightarrow> string \<Rightarrow> 32 word \<times> string" where
  "atoi i [] = (i, [])"
| "atoi i (c # cs) = (if is_digit c then atoi (i * 10 + of_nat (of_char c - 48)) cs else (i, c # cs))"

definition flag_of :: "char \<Rightarrow> 32 word option" where
  "flag_of c = (if c = CHR ''0'' then Some FLAGS_ZEROPAD else if c = CHR ''-'' then Some FLAGS_LEFT
     else if c = CHR ''+'' then Some FLAGS_PLUS else if c = CHR '' '' then Some FLAGS_SPACE
     else if c = CHR ''#'' then Some FLAGS_HASH else None)"

fun scan_flags :: "32 word \<Rightarrow> string \<Rightarrow> 32 word \<times> string" where
  "scan_flags fl [] = (fl, [])"
| "scan_flags fl (c # cs) = (case flag_of c of None \<Rightarrow> (fl, c # cs) | Some f \<Rightarrow> scan_flags (or fl f) cs)"

definition scan_width :: "32 word \<Rightarrow> string \<Rightarrow> 32 word \<times> 32 word \<times> string" where
  "scan_width fl s = (if is_digit (needle s) then (case atoi 0 s of (w, s') \<Rightarrow> (or fl FLAGS_HAS_WIDTH, w, s'))
     else if needle s = CHR ''*'' then (or (or fl FLAGS_HAS_WIDTH) FLAGS_WIDTH_AS_PARAM, 0, tl s)
     else (fl, 0, s))"

definition scan_precision :: "32 word \<Rightarrow> string \<Rightarrow> 32 word \<times> 32 word \<times> string" where
  "scan_precision fl s = (if needle s \<noteq> CHR ''.'' then (fl, 0, s)
     else let fl = or fl FLAGS_HAS_PRECISION; s = tl s
       in if is_digit (needle s) then (case atoi 0 s of (p, s') \<Rightarrow> (fl, p, s'))
          else if needle s = CHR ''*'' then (or fl FLAGS_PREC_AS_PARAM, 0, tl s)
          else (fl, 0, s))"

text \<open>The types \<^verbatim>\<open>ptrdiff_t\<close>, \<^verbatim>\<open>intmax_t\<close> and \<^verbatim>\<open>size_t\<close> have the size of \<^verbatim>\<open>long\<close> on the 64-bit hosts of the program.\<close>

definition scan_length :: "32 word \<Rightarrow> string \<Rightarrow> 32 word \<times> string" where
  "scan_length fl s =
     (if needle s = CHR ''l'' then
        (if needle (tl s) = CHR ''l'' then (or (or fl FLAGS_LONG) FLAGS_LONG_LONG, tl (tl s)) else (or fl FLAGS_LONG, tl s))
      else if needle s = CHR ''h'' then
        (if needle (tl s) = CHR ''h'' then (or (or fl FLAGS_SHORT) FLAGS_CHAR, tl (tl s)) else (or fl FLAGS_SHORT, tl s))
      else if needle s \<in> set ''tjz'' then (or fl FLAGS_LONG, tl s)
      else (fl, s))"

text \<open>The text behind a percent sign; without a specifier the token is what was skipped.\<close>

definition scan_specifier :: "string \<Rightarrow> format_token \<times> string" where
  "scan_specifier s0 = (case scan_flags 0 s0 of (fl, s1) \<Rightarrow> case scan_width fl s1 of (fl, w, s2) \<Rightarrow>
     case scan_precision fl s2 of (fl, p, s3) \<Rightarrow> case scan_length fl s3 of (fl, s4) \<Rightarrow>
       if needle s4 \<in> set ''diuxXobfFEgGcsp%''
       then (\<lparr>is_specifier = True, ft_flags = fl, ft_width = w, ft_precision = p, ft_specifier = needle s4, ft_str = []\<rparr>, tl s4)
       else (\<lparr>is_specifier = False, ft_flags = fl, ft_width = w, ft_precision = p, ft_specifier = CHR 0x00,
              ft_str = take (length s0 - length s4) s0\<rparr>, s4))"

definition literal :: "string \<Rightarrow> format_token" where
  "literal s = \<lparr>is_specifier = False, ft_flags = 0, ft_width = 0, ft_precision = 0, ft_specifier = CHR 0x00, ft_str = s\<rparr>"

lemma atoi_length: "length (snd (atoi i s)) \<le> length s"
  by (induction i s rule: atoi.induct) (auto simp: le_Suc_eq)

lemma scan_flags_length: "length (snd (scan_flags fl s)) \<le> length s"
  by (induction fl s rule: scan_flags.induct) (auto split: option.split simp: le_Suc_eq)

lemma scan_width_length: "length (snd (snd (scan_width fl s))) \<le> length s"
  using atoi_length[of 0 s] by (auto simp: scan_width_def split: prod.split)

lemma scan_precision_length: "length (snd (snd (scan_precision fl s))) \<le> length s"
  using atoi_length[of 0 "tl s"] by (auto simp: scan_precision_def Let_def split: prod.split)

lemma scan_length_length: "length (snd (scan_length fl s)) \<le> length s"
  by (auto simp: scan_length_def)

lemma scan_specifier_length: "length (snd (scan_specifier s)) \<le> length s"
proof -
  obtain fl1 s1 where 1: "scan_flags 0 s = (fl1, s1)" by force
  obtain fl2 w s2 where 2: "scan_width fl1 s1 = (fl2, w, s2)" by (rule prod_cases3)
  obtain fl3 p s3 where 3: "scan_precision fl2 s2 = (fl3, p, s3)" by (rule prod_cases3)
  obtain fl4 s4 where 4: "scan_length fl3 s3 = (fl4, s4)" by force
  have "length s4 \<le> length s"
    using scan_flags_length[of 0 s] scan_width_length[of fl1 s1] scan_precision_length[of fl2 s2] scan_length_length[of fl3 s3]
    by (simp add: 1 2 3 4)
  then show ?thesis by (auto simp: scan_specifier_def 1 2 3 4 intro: le_trans[OF diff_le_self])
qed

function process_tokens :: "string \<Rightarrow> format_token list" where
  "process_tokens [] = []"
| "process_tokens (c # cs) =
     (if c = CHR ''%'' then fst (scan_specifier cs) # process_tokens (snd (scan_specifier cs))
      else let s = filter (\<lambda>ch. ch \<noteq> CHR 0x00) (c # takeWhile (\<lambda>ch. ch \<noteq> CHR ''%'') cs);
               rest = process_tokens (dropWhile (\<lambda>ch. ch \<noteq> CHR ''%'') cs)
           in if s \<noteq> [] then literal s # rest else rest)"
  by pat_completeness auto
termination
  by (relation "measure length") (auto simp: le_imp_less_Suc scan_specifier_length length_dropWhile_le)

section \<open>Specifiers\<close>

definition text_const :: "'z host \<Rightarrow> string \<Rightarrow> ('z, expr) xm" where
  "text_const H s = xbnd (always (liftr (BVConst_data (map of_char s) BIG))) (\<lambda>c. build (mk_const (h_amb H) c))"

definition decimal :: "int \<Rightarrow> string" where
  "decimal v = (if v < 0 then ''-'' @ digits 10 (nat (- v)) else digits 10 (nat v))"

text \<open>The string without its last byte, or one space for the empty string.\<close>

definition string_specifier :: "'z host \<Rightarrow> nat \<Rightarrow> format_token \<Rightarrow> expr \<Rightarrow> ('z, expr) xm" where
  "string_specifier H fuel ft v = xbnd (u64_of ''process_specifier'' v) (\<lambda>a.
     xbnd (resolve_string H fuel a 0 (if has_flag ft FLAGS_HAS_PRECISION then sint (ft_precision ft) else 256)) (\<lambda>rs.
     xbnd (the_string ''process_specifier'' rs) (\<lambda>e. xbnd (deref e) (\<lambda>e.
       if expr_size e = 8 then text_const H '' '' else build (mk_extract (h_amb H) e (expr_size e - 1) 8)))))"

definition process_specifier :: "'z host \<Rightarrow> nat \<Rightarrow> format_token \<Rightarrow> expr \<Rightarrow> ('z, expr) xm" where
  "process_specifier H fuel ft v =
     (if \<not> is_specifier ft then fails (Exit ''process_specifier'')
      else if ft_specifier ft = CHR ''%'' then text_const H ''%''
      else if ft_specifier ft = CHR ''s'' then string_specifier H fuel ft v
      else if ft_specifier ft = CHR ''c'' then xbnd (concretize H v) (\<lambda>c. xbnd (always (liftr (bv_as_s64 c))) (\<lambda>x.
        mk_constant H (and x 0xFF) 8))
      else if ft_specifier ft = CHR ''d'' then
        xbnd (if has_flag ft FLAGS_LONG \<or> has_flag ft FLAGS_LONG_LONG then xret v else build (mk_extract (h_amb H) v 31 0)) (\<lambda>e.
        xbnd (concretize H e) (\<lambda>c. xbnd (always (liftr (bv_as_s64 c))) (\<lambda>x. text_const H (decimal (sint x)))))
      else fails (Exit ''parse_specifier''))"

definition append_data :: "'z host \<Rightarrow> expr option \<Rightarrow> expr \<Rightarrow> ('z, expr option) xm" where
  "append_data H data e = (case data of
     None \<Rightarrow> xret (Some e)
   | Some d \<Rightarrow> xbnd (build (mk_concat (h_amb H) d e)) (\<lambda>d'. xret (Some d')))"

text \<open>A parameter for a star: the value of the field and the index of the next parameter.\<close>

definition star_param :: "'z host \<Rightarrow> bool \<Rightarrow> 32 word \<Rightarrow> nat \<Rightarrow> ('z, 32 word \<times> nat) xm" where
  "star_param H given v idx = (if given
     then xbnd (get_int_param H idx) (\<lambda>e. xbnd (u64_of ''printf'' e) (\<lambda>x. xret (ucast x, idx + 1)))
     else xret (v, idx))"

fun format_tokens :: "'z host \<Rightarrow> nat \<Rightarrow> format_token list \<Rightarrow> nat \<Rightarrow> expr option \<Rightarrow> ('z, expr option) xm" where
  "format_tokens H fuel [] idx data = xret data"
| "format_tokens H fuel (t # ts) idx data =
     (if \<not> is_specifier t then xbnd (text_const H (ft_str t)) (\<lambda>e. xbnd (append_data H data e) (format_tokens H fuel ts idx))
      else xbnd (star_param H (has_flag t FLAGS_WIDTH_AS_PARAM) (ft_width t) idx) (\<lambda>(w, idx).
        xbnd (star_param H (has_flag t FLAGS_PREC_AS_PARAM) (ft_precision t) idx) (\<lambda>(p, idx).
        xbnd (get_int_param H idx) (\<lambda>v.
        xbnd (process_specifier H fuel (t\<lparr>ft_width := w, ft_precision := p\<rparr>) v) (\<lambda>e.
        xbnd (append_data H data e) (format_tokens H fuel ts (idx + 1)))))))"

definition process_format_string :: "'z host \<Rightarrow> nat \<Rightarrow> string \<Rightarrow> nat \<Rightarrow> ('z, expr) xm" where
  "process_format_string H fuel fmt arg_offset = xbnd (format_tokens H fuel (process_tokens fmt) arg_offset None) (\<lambda>data.
     case data of None \<Rightarrow> fails (Exit ''printf'') | Some e \<Rightarrow> xret e)"

section \<open>The functions\<close>

text \<open>The format string at the pointer \<open>e\<close>, with its terminating zero.\<close>

definition format_at :: "'z host \<Rightarrow> string \<Rightarrow> expr \<Rightarrow> ('z, string) xm" where
  "format_at H msg e = xbnd (u64_of msg e) (\<lambda>a. xbnd (resolve_string H 0 a 0 256) (\<lambda>rs. xbnd (the_string msg rs) (\<lambda>str.
     xbnd (deref str) (\<lambda>e. xbnd (const_val msg e) (\<lambda>c. xbnd (always (liftr (bv_as_data c))) (\<lambda>bs.
     xret (map (\<lambda>b. char_of (unat b)) bs)))))))"

definition libc_printf :: "'z host \<Rightarrow> nat \<Rightarrow> ('z, push list) xm" where
  "libc_printf H fuel = xbnd (get_int_param H 0) (\<lambda>e. xbnd (format_at H ''printf'' e) (\<lambda>fmt.
     xbnd (process_format_string H fuel fmt 1) (\<lambda>data. xbnd (get_int_param H 1) (\<lambda>second_param.
     xbnd (if kind second_param = K_CONST then xbnd (read_buf_expr H second_param 44) (\<lambda>_. xret ()) else xret ()) (\<lambda>_.
     xbnd (always (in_fs (fs_write (h_amb H) 1 data))) (\<lambda>_. returning H))))))"

definition libc_sprintf :: "'z host \<Rightarrow> nat \<Rightarrow> ('z, push list) xm" where
  "libc_sprintf H fuel = xbnd (get_int_param H 0) (\<lambda>str_ptr. xbnd (u64_of ''sprintf'' str_ptr) (\<lambda>dst.
     xbnd (get_int_param H 1) (\<lambda>e. xbnd (format_at H ''sprintf'' e) (\<lambda>fmt.
     xbnd (process_format_string H fuel fmt 2) (\<lambda>data. xbnd (write_buf H dst data) (\<lambda>_. returning H))))))"

definition scan_string :: "'z host \<Rightarrow> format_token \<Rightarrow> bvconst \<Rightarrow> ('z, unit) xm" where
  "scan_string H t ptr = (let width = (if has_flag t FLAGS_HAS_WIDTH then unat (ft_width t) else 64)
     in xbnd (always (in_fs (fs_read (h_amb H) 0 (of_nat width)))) (\<lambda>data.
        xbnd (if printable_stdin (h_cfg H) then printable_bytes H data 0 width else xret ()) (\<lambda>_.
        xbnd (always (liftr (bv_as_u64 ptr))) (\<lambda>a. write_buf H a data))))"

fun scan_tokens :: "'z host \<Rightarrow> format_token list \<Rightarrow> nat \<Rightarrow> ('z, unit) xm" where
  "scan_tokens H [] idx = xret ()"
| "scan_tokens H (t # ts) idx =
     (if \<not> is_specifier t then fails (Exit ''scanf'')
      else if has_flag t FLAGS_WIDTH_AS_PARAM then scan_tokens H ts idx
      else xbnd (get_int_param H idx) (\<lambda>e. xbnd (const_val ''scanf'' e) (\<lambda>ptr.
        xbnd (if ft_specifier t = CHR ''s'' then scan_string H t ptr else fails (Exit ''scanf'')) (\<lambda>_.
        scan_tokens H ts (idx + 1)))))"

definition libc_scanf :: "'z host \<Rightarrow> ('z, push list) xm" where
  "libc_scanf H = xbnd (get_int_param H 0) (\<lambda>e. xbnd (format_at H ''scanf'' e) (\<lambda>fmt.
     xbnd (scan_tokens H (process_tokens fmt) 1) (\<lambda>_. returning H)))"

end
