(* ===== verification/Linker.thy ===== *)
theory Linker
  imports StdioModels
begin

text \<open>
  The table of models and the linker, \<^verbatim>\<open>models/Linker.cpp\<close> and \<^verbatim>\<open>models/libc/directory.hpp\<close>, the dispatch of the virtual
  function \<^verbatim>\<open>exec\<close>, and the constructor of a state.
\<close>

section \<open>Models\<close>

text \<open>The function \<^verbatim>\<open>abort\<close> is registered with the model of \<^verbatim>\<open>exit\<close>.\<close>

definition registered_models :: "(string \<times> libc_model) list" where
  "registered_models =
     [(model_name Libc_start_main_exit_wrapper, Libc_start_main_exit_wrapper),
      (model_name Libc_start_main, Libc_start_main),
      (model_name Libc_exit, Libc_exit),
      (model_name Libc_abort, Libc_exit),
      (model_name Libc_read, Libc_read),
      (model_name Libc_open, Libc_open),
      (model_name Libc_close, Libc_close),
      (model_name Libc_malloc, Libc_malloc),
      (model_name Libc_calloc, Libc_calloc),
      (model_name Libc_realloc, Libc_realloc),
      (model_name Libc_free, Libc_free),
      (model_name Libc_memcpy, Libc_memcpy),
      (model_name Libc_memcmp, Libc_memcmp),
      (model_name Libc_strlen, Libc_strlen),
      (model_name Libc_strcmp, Libc_strcmp),
      (model_name Libc_strncpy, Libc_strncpy),
      (model_name Libc_strcpy, Libc_strcpy),
      (model_name Libc_strcat, Libc_strcat),
      (model_name Libc_sprintf, Libc_sprintf),
      (model_name Libc_printf, Libc_printf),
      (model_name Libc_scanf, Libc_scanf),
      (''__isoc99_scanf'', Libc_scanf),
      (model_name Libc_fflush, Libc_fflush),
      (model_name Libc_puts, Libc_puts),
      (model_name Libc_rand, Libc_rand),
      (model_name Libc_srand, Libc_srand),
      (model_name Libc_ptrace, Libc_ptrace)]"

definition m_models :: "string \<Rightarrow> libc_model option" where
  "m_models = map_of registered_models"

definition unmodelled_function :: "('z, push list) xm" where
  "unmodelled_function = xbnd (update (\<lambda>s. s\<lparr>retcode := 309\<rparr>)) (\<lambda>_. exiting)"

definition model_exec :: "'z host \<Rightarrow> nat \<Rightarrow> libc_model \<Rightarrow> ('z, push list) xm" where
  "model_exec H fuel m = (case m of
     Libc_start_main_exit_wrapper \<Rightarrow> exit_wrapper H
   | Libc_start_main \<Rightarrow> libc_start_main H
   | Libc_exit \<Rightarrow> libc_exit H
   | Libc_abort \<Rightarrow> libc_abort H
   | Libc_read \<Rightarrow> libc_read H
   | Libc_open \<Rightarrow> libc_open H fuel
   | Libc_close \<Rightarrow> libc_close H
   | Libc_malloc \<Rightarrow> libc_malloc H
   | Libc_calloc \<Rightarrow> libc_calloc H
   | Libc_realloc \<Rightarrow> libc_realloc H
   | Libc_free \<Rightarrow> libc_free H
   | Libc_memcpy \<Rightarrow> libc_memcpy H
   | Libc_memcmp \<Rightarrow> libc_memcmp H
   | Libc_strcmp \<Rightarrow> libc_strcmp H
   | Libc_strlen \<Rightarrow> libc_strlen H fuel
   | Libc_strncpy \<Rightarrow> libc_strncpy H fuel
   | Libc_strcpy \<Rightarrow> libc_strcpy H fuel
   | Libc_strcat \<Rightarrow> libc_strcat H fuel
   | Libc_sprintf \<Rightarrow> libc_sprintf H fuel
   | Libc_printf \<Rightarrow> libc_printf H fuel
   | Libc_scanf \<Rightarrow> libc_scanf H
   | Libc_puts \<Rightarrow> libc_puts H
   | Libc_fflush \<Rightarrow> libc_fflush H
   | Libc_rand \<Rightarrow> libc_rand H
   | Libc_srand \<Rightarrow> libc_srand H
   | Libc_ptrace \<Rightarrow> libc_ptrace H
   | Unmodelled \<Rightarrow> unmodelled_function)"

section \<open>Linking\<close>

text \<open>Every relocation of a function gets the next external address, in its place in memory and in the table.\<close>

fun link_relocs :: "'z host \<Rightarrow> 64 word \<Rightarrow> relocation list \<Rightarrow> ('z, unit) xm" where
  "link_relocs H a [] = xret ()"
| "link_relocs H a (r # rs) =
     (if reloc_type r \<noteq> FUNC then link_relocs H a rs
      else let m = (case m_models (reloc_name r) of None \<Rightarrow> Unmodelled | Some m \<Rightarrow> m)
        in xbnd (mk_constant H a (ptr_size (h_arch H))) (\<lambda>fun_addr.
           xbnd (state_write H (reloc_addr r) fun_addr) (\<lambda>_.
           xbnd (update (register_linked_function a m)) (\<lambda>_.
           link_relocs H (a + of_nat (ptr_size (h_arch H) div 8)) rs))))"

definition link :: "'z host \<Rightarrow> ('z, unit) xm" where
  "link H = (let a = get_ext_func_base (h_arch H) in
     xbnd (case m_models ''libc_start_main_exit_wrapper'' of
        None \<Rightarrow> fails (StdException ''out_of_range'')
      | Some m \<Rightarrow> update (register_linked_function a m)) (\<lambda>_.
     xbnd (gets (\<lambda>s. m_relocs (m_address_space s))) (link_relocs H (a + of_nat (ptr_size (h_arch H) div 8)))))"

section \<open>Construction of a state\<close>

definition State_init :: "'z host \<Rightarrow> address_space \<Rightarrow> 64 word \<Rightarrow> syscall_abi \<Rightarrow> 'z process \<Rightarrow> (state \<times> 'z process) res" where
  "State_init H as pc abi p = rbind (FileSystem_init (h_cfg H)) (\<lambda>fs.
     let s = \<lparr>m_pc = pc, m_heap_ptr = get_heap_ptr (h_arch H), m_stacktrace = [], m_argv = [], m_config_symbols = [],
           m_regs = MapMemory_name (h_cfg H) ''regs'' RET_SYM,
           m_ram = set_solver (MapMemory_as (h_cfg H) ''ram'' (Some as) RET_SYM),
           m_fs = fs, m_pm = Map.empty,
           m_platform = (case abi of LINUX_X86_64 \<Rightarrow> Linux64Platform | _ \<Rightarrow> UnknownPlatform),
           m_address_space = as, m_linked_functions = Map.empty, m_solver = Solver_init,
           m_libc_start_main_exit_wrapper = 0, exited = False, retcode = 0\<rparr>
     in case xbnd (init_state H) (\<lambda>_. link H) (s, p) of
          Inl e \<Rightarrow> Inl e
        | Inr (None, _) \<Rightarrow> Inl UnsatState
        | Inr (Some _, (s', p')) \<Rightarrow> Inr (s', p'))"

end
