(* ===== verification/Executor.thy ===== *)
theory Executor
  imports Linker
begin

text \<open>
  The interpreter of p-code, \<^verbatim>\<open>executor/PCodeExecutor.cpp\<close>. It runs a state through one basic block and returns the
  successors: the active states and those that exited. Assertions are enabled, as in the builds of the repository.
\<close>

section \<open>Context\<close>

record successors =
  active :: "state list"
  exited_states :: "state list"

text \<open>The state is \<^verbatim>\<open>nullptr\<close> when \<open>c_alive\<close> is false.\<close>

record ctx =
  c_state :: state
  c_alive :: bool
  c_tmp :: map_memory
  c_succ :: successors

type_synonym ('z, 'a) cm = "(ctx \<times> 'z process, 'a option) smonad"

definition cret :: "'a \<Rightarrow> ('z, 'a) cm" where
  "cret x = ret (Some x)"

definition cfails :: "fail \<Rightarrow> ('z, 'a) cm" where
  "cfails e = throw e"

definition on_ctx :: "('z, 'a) xm \<Rightarrow> ('z, 'a) cm" where
  "on_ctx op = (\<lambda>(c, p). case op (c_state c, p) of
     Inl e \<Rightarrow> Inl e | Inr (r, (s, p')) \<Rightarrow> Inr (r, (c\<lparr>c_state := s\<rparr>, p')))"

definition in_tmp :: "('z, 'a) mm \<Rightarrow> ('z, 'a) cm" where
  "in_tmp op = (\<lambda>(c, p). case op (c_tmp c, m_solver (c_state c), p_world p) of
     Inl e \<Rightarrow> Inl e
   | Inr (x, (m, v, w)) \<Rightarrow> Inr (Some x, (c\<lparr>c_tmp := m, c_state := (c_state c)\<lparr>m_solver := v\<rparr>\<rparr>, p\<lparr>p_world := w\<rparr>)))"

definition building_c :: "'a bm \<Rightarrow> ('z, 'a) cm" where
  "building_c f = on_ctx (build f)"

definition push_active :: "state \<Rightarrow> ('z, unit) cm" where
  "push_active s = (\<lambda>(c, p). Inr (Some (), (c\<lparr>c_succ := (c_succ c)\<lparr>active := active (c_succ c) @ [s]\<rparr>\<rparr>, p)))"

definition push_exited :: "state \<Rightarrow> ('z, unit) cm" where
  "push_exited s = (\<lambda>(c, p). Inr (Some (), (c\<lparr>c_succ := (c_succ c)\<lparr>exited_states := exited_states (c_succ c) @ [s]\<rparr>\<rparr>, p)))"

definition get_state :: "('z, state) cm" where
  "get_state = on_ctx (gets (\<lambda>s. s))"

definition drop_state :: "('z, unit) cm" where
  "drop_state = (\<lambda>(c, p). Inr (Some (), (c\<lparr>c_alive := False\<rparr>, p)))"

text \<open>An operation on another state, which is returned.\<close>

definition on_other :: "state \<Rightarrow> ('z, 'a) xm \<Rightarrow> ('z, 'a \<times> state) cm" where
  "on_other st op = on_ctx (on_state st op)"

section \<open>Varnodes\<close>

definition resolve_varnode :: "'z host \<Rightarrow> varnode \<Rightarrow> ('z, expr) cm" where
  "resolve_varnode H v = (let sl = h_sleigh H in
     if vn_space v = ram_space_id sl then on_ctx (state_read H (vn_offset v) (vn_size v))
     else if vn_space v = regs_space_id sl then on_ctx (reg_read H (vn_offset v) (vn_size v))
     else if vn_space v = const_space_id sl then building_c (mk_const_u64 (h_amb H) (vn_offset v) (vn_size v * 8))
     else if vn_space v = tmp_space_id sl then in_tmp (mem_read (h_amb H) (vn_offset v) (vn_size v) LITTLE)
     else cfails (Exit ''resolve_varnode''))"

definition write_to_varnode :: "'z host \<Rightarrow> varnode \<Rightarrow> expr \<Rightarrow> ('z, unit) cm" where
  "write_to_varnode H v e = (let sl = h_sleigh H in
     if vn_size v * 8 \<noteq> expr_size e then cfails (Exit ''write_to_varnode: size'')
     else if vn_space v = ram_space_id sl then on_ctx (state_write H (vn_offset v) e)
     else if vn_space v = regs_space_id sl then on_ctx (reg_write H (vn_offset v) e)
     else if vn_space v = tmp_space_id sl then in_tmp (mem_write (h_amb H) (vn_offset v) e LITTLE)
     else cfails (Exit ''write_to_varnode''))"

text \<open>The operands that the assertions of a case ask for.\<close>

definition out_in1 :: "pcode_op \<Rightarrow> (varnode \<Rightarrow> varnode \<Rightarrow> ('z, unit) cm) \<Rightarrow> ('z, unit) cm" where
  "out_in1 op f = (case op_output op of
     None \<Rightarrow> cfails (Assertion ''output is NULL'')
   | Some out \<Rightarrow> (case op_inputs op of [a] \<Rightarrow> f out a | _ \<Rightarrow> cfails (Assertion ''inputs_count != 1'')))"

definition out_in2 :: "pcode_op \<Rightarrow> (varnode \<Rightarrow> varnode \<Rightarrow> varnode \<Rightarrow> ('z, unit) cm) \<Rightarrow> ('z, unit) cm" where
  "out_in2 op f = (case op_output op of
     None \<Rightarrow> cfails (Assertion ''output is NULL'')
   | Some out \<Rightarrow> (case op_inputs op of [a, b] \<Rightarrow> f out a b | _ \<Rightarrow> cfails (Assertion ''inputs_count != 2'')))"

definition no_out_in1 :: "pcode_op \<Rightarrow> (varnode \<Rightarrow> ('z, unit) cm) \<Rightarrow> ('z, unit) cm" where
  "no_out_in1 op f = (if op_output op \<noteq> None then cfails (Assertion ''output is not NULL'')
     else (case op_inputs op of [a] \<Rightarrow> f a | _ \<Rightarrow> cfails (Assertion ''inputs_count != 1'')))"

definition no_out_in2 :: "pcode_op \<Rightarrow> (varnode \<Rightarrow> varnode \<Rightarrow> ('z, unit) cm) \<Rightarrow> ('z, unit) cm" where
  "no_out_in2 op f = (if op_output op \<noteq> None then cfails (Assertion ''output is not NULL'')
     else (case op_inputs op of [a, b] \<Rightarrow> f a b | _ \<Rightarrow> cfails (Assertion ''inputs_count != 2'')))"

definition no_out_in3 :: "pcode_op \<Rightarrow> (varnode \<Rightarrow> varnode \<Rightarrow> varnode \<Rightarrow> ('z, unit) cm) \<Rightarrow> ('z, unit) cm" where
  "no_out_in3 op f = (if op_output op \<noteq> None then cfails (Assertion ''output is not NULL'')
     else (case op_inputs op of [a, b, c] \<Rightarrow> f a b c | _ \<Rightarrow> cfails (Assertion ''inputs_count != 3'')))"

section \<open>Operations on values\<close>

definition exec_unary :: "'z host \<Rightarrow> pcode_op \<Rightarrow> (varnode \<Rightarrow> varnode \<Rightarrow> expr \<Rightarrow> expr bm) \<Rightarrow> ('z, unit) cm" where
  "exec_unary H op f = out_in1 op (\<lambda>out a. xbnd (resolve_varnode H a) (\<lambda>x.
     xbnd (building_c (f out a x)) (write_to_varnode H out)))"

definition exec_binary :: "'z host \<Rightarrow> pcode_op \<Rightarrow> (varnode \<Rightarrow> expr \<Rightarrow> expr \<Rightarrow> expr bm) \<Rightarrow> ('z, unit) cm" where
  "exec_binary H op f = out_in2 op (\<lambda>out a b. xbnd (resolve_varnode H a) (\<lambda>x. xbnd (resolve_varnode H b) (\<lambda>y.
     xbnd (building_c (f a x y)) (write_to_varnode H out))))"

definition as_byte :: "amb \<Rightarrow> expr bm \<Rightarrow> expr bm" where
  "as_byte A f = bnd f (bool_to_bv A)"

definition op_bool2 :: "amb \<Rightarrow> (amb \<Rightarrow> expr \<Rightarrow> expr \<Rightarrow> expr bm) \<Rightarrow> expr \<Rightarrow> expr \<Rightarrow> expr bm" where
  "op_bool2 A f x y = as_byte A (bnd (bv_to_bool A x) (\<lambda>a. bnd (bv_to_bool A y) (f A a)))"

definition op_shift :: "amb \<Rightarrow> (amb \<Rightarrow> expr \<Rightarrow> expr \<Rightarrow> expr bm) \<Rightarrow> varnode \<Rightarrow> expr \<Rightarrow> expr \<Rightarrow> expr bm" where
  "op_shift A f a x y = bnd (mk_zext A y (vn_size a * 8)) (f A x)"

definition op_carry :: "amb \<Rightarrow> expr \<Rightarrow> expr \<Rightarrow> expr bm" where
  "op_carry A in1 in2 = as_byte A (mk_uge A in1 in2)"

definition op_sborrow :: "amb \<Rightarrow> expr \<Rightarrow> expr \<Rightarrow> expr bm" where
  "op_sborrow A in1 in2 = bnd (mk_sub A in1 in2) (\<lambda>res.
     bnd (sign_bit A in1) (\<lambda>a. bnd (sign_bit A in2) (\<lambda>b. bnd (sign_bit A res) (\<lambda>r.
     bnd (mk_xor A a r) (\<lambda>a. bnd (mk_xor A r b) (\<lambda>r.
     bnd (mk_const_u64 A 1 (expr_size r)) (\<lambda>k. bnd (mk_xor A r k) (\<lambda>r.
     bnd (mk_and A a r) (\<lambda>a. mk_zext A a 8)))))))))"

definition op_scarry :: "amb \<Rightarrow> expr \<Rightarrow> expr \<Rightarrow> expr bm" where
  "op_scarry A in1 in2 = bnd (mk_sub A in1 in2) (\<lambda>res.
     bnd (sign_bit A in1) (\<lambda>a. bnd (sign_bit A in2) (\<lambda>b. bnd (sign_bit A res) (\<lambda>r.
     bnd (mk_xor A r a) (\<lambda>r. bnd (mk_xor A a b) (\<lambda>a.
     bnd (mk_const_u64 A 1 (expr_size r)) (\<lambda>k. bnd (mk_xor A a k) (\<lambda>a.
     bnd (mk_and A r a) (\<lambda>r. mk_zext A r 8)))))))))"

fun popcount_loop :: "amb \<Rightarrow> expr \<Rightarrow> nat \<Rightarrow> nat \<Rightarrow> nat \<Rightarrow> expr \<Rightarrow> expr bm" where
  "popcount_loop A e dst_size i 0 res = ret res"
| "popcount_loop A e dst_size i (Suc n) res = bnd (mk_extract A e i i) (\<lambda>b. bnd (mk_zext A b dst_size) (\<lambda>z.
     bnd (mk_add A res z) (popcount_loop A e dst_size (i + 1) n)))"

definition op_popcount :: "amb \<Rightarrow> varnode \<Rightarrow> varnode \<Rightarrow> expr \<Rightarrow> expr bm" where
  "op_popcount A out a e = bnd (mk_extract A e 0 0) (\<lambda>b. bnd (mk_zext A b (vn_size out * 8)) (\<lambda>res.
     popcount_loop A e (vn_size out * 8) 1 (vn_size a * 8 - 1) res))"

text \<open>The bounds are computed in 32 bits.\<close>

definition exec_subpiece :: "'z host \<Rightarrow> pcode_op \<Rightarrow> ('z, unit) cm" where
  "exec_subpiece H op = out_in2 op (\<lambda>out a b.
     let low = (ucast (vn_offset b) * 8 :: 32 word); high = of_nat (vn_size out) * 8 + low - 1
     in xbnd (resolve_varnode H a) (\<lambda>e. xbnd (building_c (mk_extract (h_amb H) e (unat high) (unat low)))
          (write_to_varnode H out)))"

section \<open>Floating point\<close>

definition need_format :: "'z host \<Rightarrow> nat \<Rightarrow> ('z, float_format) cm" where
  "need_format H n = (case get_float_format (h_sleigh H) n of
     None \<Rightarrow> cfails (Exit ''no float format'') | Some ff \<Rightarrow> cret ff)"

definition exec_float_unary :: "'z host \<Rightarrow> pcode_op \<Rightarrow> (expr \<Rightarrow> expr bm) \<Rightarrow> ('z, unit) cm" where
  "exec_float_unary H op f = out_in1 op (\<lambda>out a. xbnd (need_format H (vn_size a)) (\<lambda>ff.
     xbnd (resolve_varnode H a) (\<lambda>x. xbnd (building_c (bnd (mk_bv_to_fp (h_amb H) ff x) f)) (write_to_varnode H out))))"

definition exec_float_binary :: "'z host \<Rightarrow> pcode_op \<Rightarrow> (expr \<Rightarrow> expr \<Rightarrow> expr bm) \<Rightarrow> ('z, unit) cm" where
  "exec_float_binary H op f = out_in2 op (\<lambda>out a b.
     xbnd (need_format H (vn_size a)) (\<lambda>lhs_ff. xbnd (need_format H (vn_size b)) (\<lambda>rhs_ff.
     xbnd (resolve_varnode H a) (\<lambda>lhs. xbnd (building_c (mk_bv_to_fp (h_amb H) lhs_ff lhs)) (\<lambda>lhs_fp.
     xbnd (resolve_varnode H b) (\<lambda>rhs. xbnd (building_c (mk_bv_to_fp (h_amb H) rhs_ff rhs)) (\<lambda>rhs_fp.
     xbnd (building_c (f lhs_fp rhs_fp)) (write_to_varnode H out))))))))"

definition fp_value :: "amb \<Rightarrow> expr bm \<Rightarrow> expr bm" where
  "fp_value A f = bnd f (mk_fp_to_bv A)"

definition exec_float2float :: "'z host \<Rightarrow> pcode_op \<Rightarrow> ('z, unit) cm" where
  "exec_float2float H op = out_in1 op (\<lambda>out a. xbnd (need_format H (vn_size a)) (\<lambda>src_ff.
     xbnd (need_format H (vn_size out)) (\<lambda>dst_ff. xbnd (resolve_varnode H a) (\<lambda>src.
     xbnd (building_c (fp_value (h_amb H) (bnd (mk_bv_to_fp (h_amb H) src_ff src) (\<lambda>fp. mk_fp_convert (h_amb H) fp dst_ff))))
       (write_to_varnode H out)))))"

definition exec_int2float :: "'z host \<Rightarrow> pcode_op \<Rightarrow> ('z, unit) cm" where
  "exec_int2float H op = out_in1 op (\<lambda>out a. xbnd (need_format H (vn_size out)) (\<lambda>dst_ff.
     xbnd (resolve_varnode H a) (\<lambda>src.
     xbnd (building_c (fp_value (h_amb H) (mk_int_to_fp (h_amb H) src dst_ff))) (write_to_varnode H out))))"

section \<open>Memory\<close>

definition exec_load :: "'z host \<Rightarrow> pcode_op \<Rightarrow> ('z, unit) cm" where
  "exec_load H op = out_in2 op (\<lambda>out a b.
     if csleigh_getSpaceFromConst (h_sleigh H) (vn_space a) (vn_offset a) \<noteq> ram_space_id (h_sleigh H)
     then cfails (Exit ''LOAD'')
     else xbnd (resolve_varnode H b) (\<lambda>p. xbnd (on_ctx (state_read_expr H p (vn_size out))) (write_to_varnode H out)))"

definition exec_store :: "'z host \<Rightarrow> pcode_op \<Rightarrow> ('z, unit) cm" where
  "exec_store H op = no_out_in3 op (\<lambda>a b c.
     if csleigh_getSpaceFromConst (h_sleigh H) (vn_space a) (vn_offset a) \<noteq> ram_space_id (h_sleigh H)
     then cfails (Exit ''STORE'')
     else xbnd (resolve_varnode H c) (\<lambda>v. xbnd (resolve_varnode H b) (\<lambda>p. on_ctx (state_write_expr H p v))))"

section \<open>Control flow\<close>

definition execute_syscall :: "'z host \<Rightarrow> nat \<Rightarrow> ('z, unit) cm" where
  "execute_syscall H fuel = on_ctx (xbnd (get_syscall_num H) (platform_syscall H fuel))"

fun push_dests :: "'z host \<Rightarrow> expr \<Rightarrow> bvconst list \<Rightarrow> ('z, unit) cm" where
  "push_dests H ip [] = cret ()"
| "push_dests H ip (dst # dsts) = xbnd get_state (\<lambda>s.
     xbnd (on_other (State_clone s) (xbnd (always (liftr (bv_as_u64 dst))) (\<lambda>a. xbnd (set_pc a) (\<lambda>_.
       xbnd (build (bnd (mk_const (h_amb H) dst) (\<lambda>k. mk_eq (h_amb H) k ip))) (add_constraint H))))) (\<lambda>(_, succ).
     xbnd (push_active succ) (\<lambda>_. push_dests H ip dsts)))"

definition handle_symbolic_ip :: "'z host \<Rightarrow> expr \<Rightarrow> ('z, unit) cm" where
  "handle_symbolic_ip H ip =
     xbnd (on_ctx (always (in_solver (evaluate_upto (h_amb H) (h_api H) (h_engine H) ip 256)))) (\<lambda>dests_opt. case dests_opt of
       None \<Rightarrow> ret None
     | Some dests \<Rightarrow> (if length dests = 256
         then xbnd (on_ctx (update (\<lambda>s. s\<lparr>exited := True, retcode := 1204\<rparr>))) (\<lambda>_. xbnd get_state push_exited)
         else push_dests H ip dests))"

definition push_and_drop :: "('z, unit) cm" where
  "push_and_drop = xbnd get_state (\<lambda>s. xbnd (push_active s) (\<lambda>_. drop_state))"

text \<open>The jump to the value of an operand, after \<open>f\<close> on the state.\<close>

definition jump_to :: "'z host \<Rightarrow> (state \<Rightarrow> state) \<Rightarrow> varnode \<Rightarrow> ('z, unit) cm" where
  "jump_to H f a = xbnd (on_ctx (update f)) (\<lambda>_. xbnd (resolve_varnode H a) (\<lambda>dst.
     xbnd (case dst of
        ConstExpr c \<Rightarrow> xbnd (on_ctx (xbnd (always (liftr (bv_as_u64 c))) set_pc)) (\<lambda>_. xbnd get_state push_active)
      | _ \<Rightarrow> handle_symbolic_ip H dst) (\<lambda>_. drop_state)))"

definition exec_call :: "'z host \<Rightarrow> translation \<Rightarrow> pcode_op \<Rightarrow> ('z, unit) cm" where
  "exec_call H t op = no_out_in1 op (\<lambda>a. xbnd (on_ctx (update (register_call (t_address t + of_nat (t_length t))))) (\<lambda>_.
     if vn_space a \<noteq> ram_space_id (h_sleigh H) then cfails (Exit ''CALL'')
     else xbnd (on_ctx (set_pc (vn_offset a))) (\<lambda>_. push_and_drop)))"

definition exec_branch :: "'z host \<Rightarrow> pcode_op \<Rightarrow> ('z, unit) cm" where
  "exec_branch H op = no_out_in1 op (\<lambda>a.
     if vn_space a \<noteq> ram_space_id (h_sleigh H) then cfails (Assertion ''BRANCH: unexpected space'')
     else xbnd (on_ctx (set_pc (vn_offset a))) (\<lambda>_. push_and_drop))"

text \<open>With lazy solving the two sides are kept unless their condition is the constant false.\<close>

definition branch_lazy :: "'z host \<Rightarrow> 64 word \<Rightarrow> expr \<Rightarrow> expr \<Rightarrow> state \<Rightarrow> ('z, unit) cm" where
  "branch_lazy H dst_addr cond neg_cond other_state =
     xbnd (if \<not> is_false_const neg_cond then on_ctx (add_constraint H neg_cond) else drop_state) (\<lambda>_.
     if \<not> is_false_const cond
     then xbnd (on_other other_state (xbnd (set_pc dst_addr) (\<lambda>_. add_constraint H cond))) (\<lambda>(_, other). push_active other)
     else cret ())"

text \<open>Otherwise both conditions are checked, and an unknown answer counts as unsatisfiable.\<close>

definition branch_checked :: "'z host \<Rightarrow> 64 word \<Rightarrow> expr \<Rightarrow> expr \<Rightarrow> state \<Rightarrow> ('z, unit) cm" where
  "branch_checked H dst_addr cond neg_cond other_state =
     (let check = (\<lambda>c. always (in_solver (check_sat_and_add_if_sat (h_amb H) (h_api H) (h_engine H) c)))
      in xbnd (on_other other_state (check cond)) (\<lambda>(sat_cond, other).
         xbnd (on_ctx (check neg_cond)) (\<lambda>sat_not_cond.
         xbnd (if sat_not_cond \<noteq> SAT then drop_state else cret ()) (\<lambda>_.
         if sat_cond = SAT then push_active (other\<lparr>m_pc := dst_addr\<rparr>) else cret ()))))"

definition exec_cbranch :: "'z host \<Rightarrow> pcode_op \<Rightarrow> ('z, unit) cm" where
  "exec_cbranch H op = no_out_in2 op (\<lambda>a b.
     if vn_space a \<noteq> ram_space_id (h_sleigh H) then cfails (Assertion ''CBRANCH: unexpected space'')
     else xbnd (resolve_varnode H b) (\<lambda>e. xbnd (building_c (bv_to_bool (h_amb H) e)) (\<lambda>cond.
       xbnd (building_c (mk_bool_not (h_amb H) cond)) (\<lambda>neg_cond. xbnd get_state (\<lambda>s.
       (if lazy_solving (h_cfg H) then branch_lazy else branch_checked)
         H (vn_offset a) cond neg_cond (State_clone s))))))"

section \<open>The interpreter\<close>

text \<open>The cases of the switch, in groups: each group handles its operations and leaves the others to the next.\<close>

definition exec_control :: "'z host \<Rightarrow> nat \<Rightarrow> translation \<Rightarrow> pcode_op \<Rightarrow> ('z, unit) cm" where
  "exec_control H fuel t op = (case op_code op of
     CPUI_CALL \<Rightarrow> exec_call H t op
   | CPUI_BRANCH \<Rightarrow> exec_branch H op
   | CPUI_CBRANCH \<Rightarrow> exec_cbranch H op
   | CPUI_BRANCHIND \<Rightarrow> no_out_in1 op (jump_to H (\<lambda>s. s))
   | CPUI_CALLIND \<Rightarrow> no_out_in1 op (jump_to H (register_call (t_address t + of_nat (t_length t))))
   | CPUI_RETURN \<Rightarrow> no_out_in1 op (jump_to H register_ret)
   | _ \<Rightarrow> cfails (Exit ''Unsupported opcode''))"

definition exec_float :: "'z host \<Rightarrow> nat \<Rightarrow> translation \<Rightarrow> pcode_op \<Rightarrow> ('z, unit) cm" where
  "exec_float H fuel t op = (let A = h_amb H in case op_code op of
     CPUI_FLOAT_FLOAT2FLOAT \<Rightarrow> exec_float2float H op
   | CPUI_FLOAT_INT2FLOAT \<Rightarrow> exec_int2float H op
   | CPUI_FLOAT_NAN \<Rightarrow> exec_float_unary H op (\<lambda>x. as_byte A (mk_fp_is_nan A x))
   | CPUI_FLOAT_NEG \<Rightarrow> exec_float_unary H op (\<lambda>x. fp_value A (mk_fp_neg A x))
   | _ \<Rightarrow> exec_control H fuel t op)"

definition exec_float_compare :: "'z host \<Rightarrow> nat \<Rightarrow> translation \<Rightarrow> pcode_op \<Rightarrow> ('z, unit) cm" where
  "exec_float_compare H fuel t op = (let A = h_amb H in case op_code op of
     CPUI_FLOAT_EQUAL \<Rightarrow> exec_float_binary H op (\<lambda>x y. as_byte A (mk_fp_eq A x y))
   | CPUI_FLOAT_LESS \<Rightarrow> exec_float_binary H op (\<lambda>x y. as_byte A (mk_fp_lt A x y))
   | _ \<Rightarrow> exec_float H fuel t op)"

definition exec_float_arith :: "'z host \<Rightarrow> nat \<Rightarrow> translation \<Rightarrow> pcode_op \<Rightarrow> ('z, unit) cm" where
  "exec_float_arith H fuel t op = (let A = h_amb H in case op_code op of
     CPUI_FLOAT_ADD \<Rightarrow> exec_float_binary H op (\<lambda>x y. fp_value A (mk_fp_add A x y))
   | CPUI_FLOAT_SUB \<Rightarrow> exec_float_binary H op (\<lambda>x y. fp_value A (mk_fp_sub A x y))
   | CPUI_FLOAT_MULT \<Rightarrow> exec_float_binary H op (\<lambda>x y. fp_value A (mk_fp_mul A x y))
   | CPUI_FLOAT_DIV \<Rightarrow> exec_float_binary H op (\<lambda>x y. fp_value A (mk_fp_div A x y))
   | _ \<Rightarrow> exec_float_compare H fuel t op)"

definition exec_overflow :: "'z host \<Rightarrow> nat \<Rightarrow> translation \<Rightarrow> pcode_op \<Rightarrow> ('z, unit) cm" where
  "exec_overflow H fuel t op = (let A = h_amb H in case op_code op of
     CPUI_INT_CARRY \<Rightarrow> exec_binary H op (\<lambda>_. op_carry A)
   | CPUI_INT_SBORROW \<Rightarrow> exec_binary H op (\<lambda>_. op_sborrow A)
   | CPUI_INT_SCARRY \<Rightarrow> exec_binary H op (\<lambda>_. op_scarry A)
   | CPUI_POPCOUNT \<Rightarrow> exec_unary H op (op_popcount A)
   | _ \<Rightarrow> exec_float_arith H fuel t op)"

definition exec_arith :: "'z host \<Rightarrow> nat \<Rightarrow> translation \<Rightarrow> pcode_op \<Rightarrow> ('z, unit) cm" where
  "exec_arith H fuel t op = (let A = h_amb H in case op_code op of
     CPUI_INT_2COMP \<Rightarrow> exec_unary H op (\<lambda>_ _. mk_neg A)
   | CPUI_INT_ADD \<Rightarrow> exec_binary H op (\<lambda>_. mk_add A)
   | CPUI_INT_SUB \<Rightarrow> exec_binary H op (\<lambda>_. mk_sub A)
   | CPUI_INT_MULT \<Rightarrow> exec_binary H op (\<lambda>_. mk_mul A)
   | _ \<Rightarrow> exec_overflow H fuel t op)"

definition exec_bitwise :: "'z host \<Rightarrow> nat \<Rightarrow> translation \<Rightarrow> pcode_op \<Rightarrow> ('z, unit) cm" where
  "exec_bitwise H fuel t op = (let A = h_amb H in case op_code op of
     CPUI_INT_NEGATE \<Rightarrow> exec_unary H op (\<lambda>_ _. mk_not A)
   | CPUI_INT_XOR \<Rightarrow> exec_binary H op (\<lambda>_. mk_xor A)
   | CPUI_INT_AND \<Rightarrow> exec_binary H op (\<lambda>_. mk_and A)
   | CPUI_INT_OR \<Rightarrow> exec_binary H op (\<lambda>_. mk_or A)
   | CPUI_INT_LEFT \<Rightarrow> exec_binary H op (op_shift A mk_shl)
   | CPUI_INT_RIGHT \<Rightarrow> exec_binary H op (op_shift A mk_lshr)
   | CPUI_INT_SRIGHT \<Rightarrow> exec_binary H op (op_shift A mk_ashr)
   | _ \<Rightarrow> exec_arith H fuel t op)"

definition exec_move :: "'z host \<Rightarrow> nat \<Rightarrow> translation \<Rightarrow> pcode_op \<Rightarrow> ('z, unit) cm" where
  "exec_move H fuel t op = (let A = h_amb H in case op_code op of
     CPUI_LOAD \<Rightarrow> exec_load H op
   | CPUI_STORE \<Rightarrow> exec_store H op
   | CPUI_COPY \<Rightarrow> exec_unary H op (\<lambda>_ _ x. ret x)
   | CPUI_SUBPIECE \<Rightarrow> exec_subpiece H op
   | CPUI_INT_ZEXT \<Rightarrow> exec_unary H op (\<lambda>out _ x. mk_zext A x (vn_size out * 8))
   | CPUI_INT_SEXT \<Rightarrow> exec_unary H op (\<lambda>out _ x. mk_sext A x (vn_size out * 8))
   | _ \<Rightarrow> exec_bitwise H fuel t op)"

definition exec_bool :: "'z host \<Rightarrow> nat \<Rightarrow> translation \<Rightarrow> pcode_op \<Rightarrow> ('z, unit) cm" where
  "exec_bool H fuel t op = (let A = h_amb H in case op_code op of
     CPUI_BOOL_NEGATE \<Rightarrow> exec_unary H op (\<lambda>_ _ x. as_byte A (bnd (bv_to_bool A x) (mk_bool_not A)))
   | CPUI_BOOL_AND \<Rightarrow> exec_binary H op (\<lambda>_. op_bool2 A mk_bool_and)
   | CPUI_BOOL_OR \<Rightarrow> exec_binary H op (\<lambda>_. op_bool2 A mk_bool_or)
   | _ \<Rightarrow> exec_move H fuel t op)"

definition exec_compare :: "'z host \<Rightarrow> nat \<Rightarrow> translation \<Rightarrow> pcode_op \<Rightarrow> ('z, unit) cm" where
  "exec_compare H fuel t op = (let A = h_amb H in case op_code op of
     CPUI_INT_EQUAL \<Rightarrow> exec_binary H op (\<lambda>_ x y. as_byte A (mk_eq A x y))
   | CPUI_INT_NOTEQUAL \<Rightarrow> exec_binary H op (\<lambda>_ x y. as_byte A (mk_neq A x y))
   | CPUI_INT_LESS \<Rightarrow> exec_binary H op (\<lambda>_ x y. as_byte A (mk_ult A x y))
   | CPUI_INT_LESSEQUAL \<Rightarrow> exec_binary H op (\<lambda>_ x y. as_byte A (mk_ule A x y))
   | CPUI_INT_SLESS \<Rightarrow> exec_binary H op (\<lambda>_ x y. as_byte A (mk_slt A x y))
   | CPUI_INT_SLESSEQUAL \<Rightarrow> exec_binary H op (\<lambda>_ x y. as_byte A (mk_sle A x y))
   | _ \<Rightarrow> exec_bool H fuel t op)"

definition execute_pcodeop :: "'z host \<Rightarrow> nat \<Rightarrow> translation \<Rightarrow> pcode_op \<Rightarrow> ('z, unit) cm" where
  "execute_pcodeop H fuel t op = (case op_code op of
     CPUI_CALLOTHER \<Rightarrow> no_out_in1 op (\<lambda>a.
       if vn_offset a = csleigh_CALLOTHER_SYSCALL (h_sleigh H) then execute_syscall H fuel else cfails (Exit ''CALLOTHER''))
   | _ \<Rightarrow> exec_compare H fuel t op)"

lemmas pcodeop_defs = execute_pcodeop_def exec_compare_def exec_bool_def exec_move_def exec_bitwise_def exec_arith_def exec_overflow_def
  exec_float_arith_def exec_float_compare_def exec_float_def exec_control_def

text \<open>The operations of an instruction, until the state is gone; a thrown exception gives it up.\<close>

fun execute_ops :: "'z host \<Rightarrow> nat \<Rightarrow> translation \<Rightarrow> pcode_op list \<Rightarrow> (ctx \<times> 'z process, unit) smonad" where
  "execute_ops H fuel t [] = ret ()"
| "execute_ops H fuel t (op # ops) = (\<lambda>(c, p). if \<not> c_alive c then Inr ((), (c, p))
     else (case execute_pcodeop H fuel t op (c, p) of
       Inl e \<Rightarrow> Inl e
     | Inr (None, (c', p')) \<Rightarrow> Inr ((), (c'\<lparr>c_alive := False\<rparr>, p'))
     | Inr (Some _, cp) \<Rightarrow> execute_ops H fuel t ops cp))"

definition execute_instruction :: "'z host \<Rightarrow> nat \<Rightarrow> translation \<Rightarrow> state \<Rightarrow> successors \<Rightarrow> ('z process, state option \<times> successors) smonad" where
  "execute_instruction H fuel t s succ = (\<lambda>p.
     case execute_ops H fuel t (t_ops t) (\<lparr>c_state = s, c_alive = True,
         c_tmp = MapMemory_name (h_cfg H) ''tmp'' THROW_ERR, c_succ = succ\<rparr>, p) of
       Inl e \<Rightarrow> Inl e
     | Inr (_, (c, p')) \<Rightarrow> Inr ((if c_alive c then Some (c_state c) else None, c_succ c), p'))"

fun execute_instructions :: "'z host \<Rightarrow> nat \<Rightarrow> translation list \<Rightarrow> state \<Rightarrow> successors \<Rightarrow> ('z process, state option \<times> successors) smonad" where
  "execute_instructions H fuel [] s succ = ret (Some s, succ)"
| "execute_instructions H fuel (t # ts) s succ =
     bnd (execute_instruction H fuel t (s\<lparr>m_pc := t_address t\<rparr>) succ) (\<lambda>(r, succ'). case r of
       None \<Rightarrow> ret (None, succ')
     | Some s' \<Rightarrow> execute_instructions H fuel ts s' succ')"

text \<open>The pushes of a model, in order.\<close>

definition collect :: "state \<Rightarrow> push list \<Rightarrow> successors" where
  "collect s ps =
     \<lparr>active = concat (map (\<lambda>p. case p of Self Active \<Rightarrow> [s] | Fork Active st \<Rightarrow> [st] | _ \<Rightarrow> []) ps),
      exited_states = concat (map (\<lambda>p. case p of Self Exited \<Rightarrow> [s] | Fork Exited st \<Rightarrow> [st] | _ \<Rightarrow> []) ps)\<rparr>"

definition no_successors :: successors where
  "no_successors = \<lparr>active = [], exited_states = []\<rparr>"

definition run_model :: "'z host \<Rightarrow> nat \<Rightarrow> libc_model \<Rightarrow> state \<Rightarrow> ('z process, successors) smonad" where
  "run_model H fuel m s = (\<lambda>p. case model_exec H fuel m (s, p) of
     Inl e \<Rightarrow> Inl e
   | Inr (None, (_, p')) \<Rightarrow> Inr (no_successors, p')
   | Inr (Some ps, (s', p')) \<Rightarrow> Inr (collect s' ps, p'))"

definition lift_code :: "'z host \<Rightarrow> state \<Rightarrow> ('z process, translation list) smonad" where
  "lift_code H s = (\<lambda>p. case get_code_at (m_pc s) s of
     None \<Rightarrow> Inl (Exit ''execute_basic_block'')
   | Some (data, n) \<Rightarrow> (case lift_block (h_sleigh H) (m_pc s) data n (p_blocks p) of
       Inl e \<Rightarrow> Inl e | Inr (b, blocks) \<Rightarrow> Inr (b, p\<lparr>p_blocks := blocks\<rparr>)))"

definition execute_basic_block :: "'z host \<Rightarrow> nat \<Rightarrow> state \<Rightarrow> ('z process, successors) smonad" where
  "execute_basic_block H fuel s = (case m_linked_functions s (m_pc s) of
     Some m \<Rightarrow> run_model H fuel m s
   | None \<Rightarrow> bnd (lift_code H s) (\<lambda>ts. if ts = [] then throw (Exit ''unable to translate code'')
       else bnd (execute_instructions H fuel ts s no_successors) (\<lambda>(r, succ). case r of
         None \<Rightarrow> ret succ
       | Some s' \<Rightarrow> ret (succ\<lparr>active := active succ @ [s'\<lparr>m_pc := t_address (last ts) + of_nat (t_length (last ts))\<rparr>]\<rparr>))))"

end
