(* ===== verification/Exploration.thy ===== *)
theory Exploration
  imports Executor "HOL-Library.Multiset"
begin

text \<open>
  The exploration techniques, \<^verbatim>\<open>executor/*ExplorationTechnique.cpp\<close>, and the manager that drives the executor with one of
  them, \<^verbatim>\<open>executor/ExecutorManager.hpp\<close>. The loops may run forever: they are partial functions, and \<open>None\<close> means that the
  loop does not end.
\<close>

section \<open>Techniques\<close>

text \<open>The base class, over the type of states.\<close>

record 's technique =
  m_initial_state :: 's
  m_exited_states :: "'s list"
  m_avoided_states :: "'s list"

definition add_exited :: "'s \<Rightarrow> ('s, 'm) technique_scheme \<Rightarrow> ('s, 'm) technique_scheme" where
  "add_exited s t = t\<lparr>m_exited_states := m_exited_states t @ [s]\<rparr>"

definition add_avoided :: "'s \<Rightarrow> ('s, 'm) technique_scheme \<Rightarrow> ('s, 'm) technique_scheme" where
  "add_avoided s t = t\<lparr>m_avoided_states := m_avoided_states t @ [s]\<rparr>"

definition num_ended :: "('s, 'm) technique_scheme \<Rightarrow> nat" where
  "num_ended t = length (m_exited_states t) + length (m_avoided_states t)"

text \<open>What the manager calls of a technique.\<close>

record ('s, 'p) policy =
  p_next :: "'p \<Rightarrow> ('s \<times> 'p) option"
  p_add :: "'s list \<Rightarrow> 'p \<Rightarrow> 'p res"
  p_exited :: "'s \<Rightarrow> 'p \<Rightarrow> 'p"

subsection \<open>Breadth first\<close>

record 's queue = "'s technique" +
  m_active :: "'s list"

definition queue_init :: "'s \<Rightarrow> 's queue" where
  "queue_init s = \<lparr>m_initial_state = s, m_exited_states = [], m_avoided_states = [], m_active = [s]\<rparr>"

definition pop_back :: "'s queue \<Rightarrow> ('s \<times> 's queue) option" where
  "pop_back t = (if m_active t = [] then None else Some (last (m_active t), t\<lparr>m_active := butlast (m_active t)\<rparr>))"

definition bfs_add_actives :: "'s list \<Rightarrow> 's queue \<Rightarrow> 's queue" where
  "bfs_add_actives ss t = fold (\<lambda>s t. t\<lparr>m_active := s # m_active t\<rparr>) ss t"

definition bfs :: "('s, 's queue) policy" where
  "bfs = \<lparr>p_next = pop_back, p_add = (\<lambda>ss t. Inr (bfs_add_actives ss t)), p_exited = add_exited\<rparr>"

definition queue_num_states :: "'s queue \<Rightarrow> nat" where
  "queue_num_states t = length (m_active t) + num_ended t"

subsection \<open>Depth first\<close>

definition dfs_add_actives :: "'s list \<Rightarrow> 's queue \<Rightarrow> 's queue" where
  "dfs_add_actives ss t = fold (\<lambda>s t. t\<lparr>m_active := m_active t @ [s]\<rparr>) ss t"

definition dfs :: "('s, 's queue) policy" where
  "dfs = \<lparr>p_next = pop_back, p_add = (\<lambda>ss t. Inr (dfs_add_actives ss t)), p_exited = add_exited\<rparr>"

subsection \<open>Depth first, shuffled\<close>

text \<open>The generator of the C library is a parameter; its state is \<open>None\<close> until the first call seeds it.\<close>

record 'r rand_lib =
  rand_max :: nat
  r_srand :: "32 word \<Rightarrow> 'r"
  r_rand :: "'r \<Rightarrow> nat \<times> 'r"

record ('s, 'r) rand_queue =
  r_queue :: "'s queue"
  r_state :: "'r option"

definition seeded :: "'r rand_lib \<Rightarrow> 'r option \<Rightarrow> 'r" where
  "seeded R r = (case r of None \<Rightarrow> r_srand R 0x42424242 | Some r \<Rightarrow> r)"

text \<open>The exchange of two entries; an index outside of the vector has no meaning.\<close>

definition exchange :: "nat \<Rightarrow> nat \<Rightarrow> 's list \<Rightarrow> 's list res" where
  "exchange i j xs = (if j < length xs then Inr (xs[j := xs ! i, i := xs ! j]) else Inl (Undefined ''vector index''))"

fun shuffle_loop :: "'r rand_lib \<Rightarrow> nat \<Rightarrow> nat \<Rightarrow> 's list \<Rightarrow> 'r \<Rightarrow> ('s list \<times> 'r) res" where
  "shuffle_loop R i 0 xs r = Inr (xs, r)"
| "shuffle_loop R i (Suc n) xs r = (case r_rand R r of (k, r') \<Rightarrow>
     rbind (exchange i (i + k div (rand_max R div (length xs - i) + 1)) xs) (\<lambda>xs'. shuffle_loop R (i + 1) n xs' r'))"

definition shuffle :: "'r rand_lib \<Rightarrow> 's list \<Rightarrow> 'r option \<Rightarrow> ('s list \<times> 'r) res" where
  "shuffle R xs r = (if length xs \<le> 1 then Inr (xs, seeded R r) else shuffle_loop R 0 (length xs - 1) xs (seeded R r))"

definition rand_init :: "'s \<Rightarrow> ('s, 'r) rand_queue" where
  "rand_init s = \<lparr>r_queue = queue_init s, r_state = None\<rparr>"

definition rand_add_actives :: "'r rand_lib \<Rightarrow> 's list \<Rightarrow> ('s, 'r) rand_queue \<Rightarrow> ('s, 'r) rand_queue res" where
  "rand_add_actives R ss t = rbind (shuffle R ss (r_state t)) (\<lambda>(ss', r).
     Inr \<lparr>r_queue = dfs_add_actives ss' (r_queue t), r_state = Some r\<rparr>)"

definition rand_dfs :: "'r rand_lib \<Rightarrow> ('s, ('s, 'r) rand_queue) policy" where
  "rand_dfs R = \<lparr>p_next = (\<lambda>t. map_option (\<lambda>(s, q). (s, t\<lparr>r_queue := q\<rparr>)) (pop_back (r_queue t))),
     p_add = rand_add_actives R, p_exited = (\<lambda>s t. t\<lparr>r_queue := add_exited s (r_queue t)\<rparr>)\<rparr>"

subsection \<open>Coverage\<close>

text \<open>What the technique looks at: the program counter, and the checksum of it and the stack trace, computed by the xxHash
  library.\<close>

record 's view =
  v_pc :: "'s \<Rightarrow> 64 word"
  v_checksum :: "'s \<Rightarrow> 64 word"

record 's coverage = "'s technique" +
  m_visited_addrs :: "64 word set"
  m_visited_contexts :: "64 word set"
  m_new_addr_queue :: "'s list"
  m_new_context_queue :: "'s list"
  m_other_queue :: "'s list"

definition cov_init :: "'s view \<Rightarrow> 's \<Rightarrow> 's coverage" where
  "cov_init V s = \<lparr>m_initial_state = s, m_exited_states = [], m_avoided_states = [], m_visited_addrs = {v_pc V s},
     m_visited_contexts = {v_checksum V s}, m_new_addr_queue = [s], m_new_context_queue = [], m_other_queue = []\<rparr>"

definition cov_add :: "'s view \<Rightarrow> 's \<Rightarrow> 's coverage \<Rightarrow> 's coverage" where
  "cov_add V s t =
     (let t' = (if v_pc V s \<notin> m_visited_addrs t then t\<lparr>m_new_addr_queue := m_new_addr_queue t @ [s]\<rparr>
                else if v_checksum V s \<notin> m_visited_contexts t then t\<lparr>m_new_context_queue := m_new_context_queue t @ [s]\<rparr>
                else t\<lparr>m_other_queue := m_other_queue t @ [s]\<rparr>)
      in t'\<lparr>m_visited_addrs := insert (v_pc V s) (m_visited_addrs t'),
            m_visited_contexts := insert (v_checksum V s) (m_visited_contexts t')\<rparr>)"

definition cov_add_actives :: "'s view \<Rightarrow> 's list \<Rightarrow> 's coverage \<Rightarrow> 's coverage" where
  "cov_add_actives V ss t = fold (cov_add V) ss t"

definition cov_get_next :: "'s coverage \<Rightarrow> ('s \<times> 's coverage) option" where
  "cov_get_next t =
     (if m_new_addr_queue t \<noteq> [] then Some (last (m_new_addr_queue t), t\<lparr>m_new_addr_queue := butlast (m_new_addr_queue t)\<rparr>)
      else if m_new_context_queue t \<noteq> []
      then Some (last (m_new_context_queue t), t\<lparr>m_new_context_queue := butlast (m_new_context_queue t)\<rparr>)
      else if m_other_queue t \<noteq> [] then Some (last (m_other_queue t), t\<lparr>m_other_queue := butlast (m_other_queue t)\<rparr>)
      else None)"

definition cov :: "'s view \<Rightarrow> ('s, 's coverage) policy" where
  "cov V = \<lparr>p_next = cov_get_next, p_add = (\<lambda>ss t. Inr (cov_add_actives V ss t)), p_exited = add_exited\<rparr>"

definition cov_num_states :: "'s coverage \<Rightarrow> nat" where
  "cov_num_states t = length (m_new_addr_queue t) + length (m_new_context_queue t) + length (m_other_queue t) + num_ended t"

section \<open>The manager\<close>

text \<open>What the manager calls of the executor and of a state: the block, the solver, the program counter.\<close>

record ('s, 'w) machine =
  x_run :: "'s \<Rightarrow> ('w, 's list \<times> 's list) smonad"
  x_check :: "'s \<Rightarrow> ('w, check_result \<times> 's) smonad"
  x_pc :: "'s \<Rightarrow> 64 word"

text \<open>The loop over the active successors: a state found, or those to go on with.\<close>

fun scan_active :: "('s, 'w) machine \<Rightarrow> 64 word set \<Rightarrow> 64 word set \<Rightarrow> 's list \<Rightarrow> 's list \<Rightarrow> ('w, 's + 's list) smonad" where
  "scan_active X find_set avoid_set [] acc = ret (Inr acc)"
| "scan_active X find_set avoid_set (s # ss) acc =
     (if x_pc X s \<in> find_set
      then bnd (x_check X s) (\<lambda>(r, s'). if r = SAT then ret (Inl s') else scan_active X find_set avoid_set ss acc)
      else scan_active X find_set avoid_set ss (if x_pc X s \<notin> avoid_set then acc @ [s] else acc))"

partial_function (option) explore_loop :: "('s, 'p) policy \<Rightarrow> ('s, 'w) machine \<Rightarrow> 64 word set \<Rightarrow> 64 word set \<Rightarrow> 'p \<Rightarrow> 'w \<Rightarrow>
    ('s option \<times> 'p \<times> 'w) res option" where
  "explore_loop P X find_set avoid_set p w = (case p_next P p of
     None \<Rightarrow> Some (Inr (None, p, w))
   | Some sp \<Rightarrow> (case x_run X (fst sp) w of
       Inl e \<Rightarrow> Some (Inl e)
     | Inr r \<Rightarrow> (case scan_active X find_set avoid_set (fst (fst r)) [] (snd r) of
         Inl e \<Rightarrow> Some (Inl e)
       | Inr a \<Rightarrow> (case fst a of
           Inl s \<Rightarrow> Some (Inr (Some s, fold (p_exited P) (snd (fst r)) (snd sp), snd a))
         | Inr ss \<Rightarrow> (case p_add P ss (fold (p_exited P) (snd (fst r)) (snd sp)) of
             Inl e \<Rightarrow> Some (Inl e)
           | Inr p' \<Rightarrow> explore_loop P X find_set avoid_set p' (snd a))))))"

text \<open>The exited states that the callback gets.\<close>

fun scan_exited :: "('s, 'w) machine \<Rightarrow> 's list \<Rightarrow> 's list \<Rightarrow> ('w, 's list) smonad" where
  "scan_exited X [] out = ret out"
| "scan_exited X (s # ss) out = bnd (x_check X s) (\<lambda>(r, s'). scan_exited X ss (if r = SAT then out @ [s'] else out))"

partial_function (option) gen_paths_loop :: "('s, 'p) policy \<Rightarrow> ('s, 'w) machine \<Rightarrow> 's list \<Rightarrow> 'p \<Rightarrow> 'w \<Rightarrow>
    ('s list \<times> 'p \<times> 'w) res option" where
  "gen_paths_loop P X out p w = (case p_next P p of
     None \<Rightarrow> Some (Inr (out, p, w))
   | Some sp \<Rightarrow> (case x_run X (fst sp) w of
       Inl e \<Rightarrow> Some (Inl e)
     | Inr r \<Rightarrow> (case scan_exited X (snd (fst r)) out (snd r) of
         Inl e \<Rightarrow> Some (Inl e)
       | Inr a \<Rightarrow> (case p_add P (fst (fst r)) (snd sp) of
           Inl e \<Rightarrow> Some (Inl e)
         | Inr p' \<Rightarrow> gen_paths_loop P X (fst a) p' (snd a)))))"

definition naaz_machine :: "'z host \<Rightarrow> nat \<Rightarrow> (state, 'z process) machine" where
  "naaz_machine H fuel = \<lparr>
     x_run = (\<lambda>s. bnd (execute_basic_block H fuel s) (\<lambda>succ. ret (active succ, exited_states succ))),
     x_check = (\<lambda>s p. case state_satisfiable H (s, p) of Inl e \<Rightarrow> Inl e | Inr (r, (s', p')) \<Rightarrow> Inr ((r, s'), p')),
     x_pc = m_pc\<rparr>"

definition explore :: "('s, 'p) policy \<Rightarrow> ('s, 'w) machine \<Rightarrow> 64 word list \<Rightarrow> 64 word list \<Rightarrow> 'p \<Rightarrow> 'w \<Rightarrow>
    ('s option \<times> 'p \<times> 'w) res option" where
  "explore P X find_addrs avoid_addrs = explore_loop P X (set find_addrs) (set avoid_addrs)"

definition explore_addr :: "('s, 'p) policy \<Rightarrow> ('s, 'w) machine \<Rightarrow> 64 word \<Rightarrow> 'p \<Rightarrow> 'w \<Rightarrow> ('s option \<times> 'p \<times> 'w) res option" where
  "explore_addr P X find_addr = explore P X [find_addr] []"

definition gen_paths :: "('s, 'p) policy \<Rightarrow> ('s, 'w) machine \<Rightarrow> 'p \<Rightarrow> 'w \<Rightarrow> ('s list \<times> 'p \<times> 'w) res option" where
  "gen_paths P X = gen_paths_loop P X []"

section \<open>The four managers\<close>

text \<open>The checksum of a state: the hash of its program counter and its stack trace, eight bytes each.\<close>

definition get_context_checksum :: "'z host \<Rightarrow> state \<Rightarrow> 64 word" where
  "get_context_checksum H s = xxh64 (h_amb H) (concat (map bytes8 (m_pc s # m_stacktrace s)))"

definition naaz_view :: "'z host \<Rightarrow> state view" where
  "naaz_view H = \<lparr>v_pc = m_pc, v_checksum = get_context_checksum H\<rparr>"

datatype manager = BFS | DFS | RandDFS | Cov

definition result_of :: "('s option \<times> 'p \<times> 'w) res option \<Rightarrow> ('s option \<times> 'w) res option" where
  "result_of r = map_option (map_sum id (\<lambda>(s, p, w). (s, w))) r"

definition explore_with :: "manager \<Rightarrow> 'r rand_lib \<Rightarrow> 's view \<Rightarrow> ('s, 'w) machine \<Rightarrow> 64 word list \<Rightarrow> 64 word list \<Rightarrow> 's \<Rightarrow> 'w \<Rightarrow>
    ('s option \<times> 'w) res option" where
  "explore_with k R V X find_addrs avoid_addrs s w = (case k of
     BFS \<Rightarrow> result_of (explore bfs X find_addrs avoid_addrs (queue_init s) w)
   | DFS \<Rightarrow> result_of (explore dfs X find_addrs avoid_addrs (queue_init s) w)
   | RandDFS \<Rightarrow> result_of (explore (rand_dfs R) X find_addrs avoid_addrs (rand_init s) w)
   | Cov \<Rightarrow> result_of (explore (cov V) X find_addrs avoid_addrs (cov_init V s) w))"

end
