(* ===== verification/ExplorationSpec.thy ===== *)
theory ExplorationSpec
  imports Exploration
begin

text \<open>
  The contract of an exploration technique, as a locale: what \<open>p_next\<close> and \<open>p_add\<close> do to the multiset of waiting states.
  The manager is sound and exhaustive for every technique that keeps it, and the four techniques of the code do.
\<close>

section \<open>Paths\<close>

text \<open>One executed block, with the states of the process before and after it.\<close>

definition successor :: "('s, 'w) machine \<Rightarrow> 's \<Rightarrow> 's \<Rightarrow> bool" where
  "successor X s t \<longleftrightarrow> (\<exists>w act ex w'. x_run X s w = Inr ((act, ex), w') \<and> t \<in> set act)"

text \<open>The states reached by executing blocks, none of them at an address to find or to avoid behind the first.\<close>

inductive explored :: "('s, 'w) machine \<Rightarrow> 64 word set \<Rightarrow> 64 word set \<Rightarrow> 's \<Rightarrow> 's \<Rightarrow> bool" for X F V s0 where
  start: "explored X F V s0 s0"
| block: "explored X F V s0 s \<Longrightarrow> successor X s t \<Longrightarrow> x_pc X t \<notin> F \<Longrightarrow> x_pc X t \<notin> V \<Longrightarrow> explored X F V s0 t"

text \<open>A set of executed blocks, each with the state of the process it ran in, that leaves nothing out: every active successor of
  one of them was found unsatisfiable, is to be avoided, or was executed.\<close>

definition exhausted :: "('s, 'w) machine \<Rightarrow> 64 word set \<Rightarrow> 64 word set \<Rightarrow> ('s \<times> 'w) set \<Rightarrow> bool" where
  "exhausted X F V D \<longleftrightarrow> (\<forall>(s, u)\<in>D. \<exists>act ex u'. x_run X s u = Inr ((act, ex), u') \<and>
     (\<forall>t\<in>set act. if x_pc X t \<in> F then \<exists>v q t' v'. x_check X t v = Inr ((q, t'), v') \<and> q \<noteq> SAT
                  else x_pc X t \<in> V \<or> (\<exists>v. (t, v) \<in> D)))"

lemma exhausted_insert:
  assumes "exhausted X F V D" and "x_run X s u = Inr ((act, ex), u')"
    and "\<forall>t\<in>set act. if x_pc X t \<in> F then \<exists>v q t' v'. x_check X t v = Inr ((q, t'), v') \<and> q \<noteq> SAT
                  else x_pc X t \<in> V \<or> (\<exists>v. (t, v) \<in> D)"
  shows "exhausted X F V (insert (s, u) D)"
  unfolding exhausted_def
proof (intro ballI, clarify)
  fix s' v
  assume "(s', v) \<in> insert (s, u) D"
  then consider "s' = s" "v = u" | "(s', v) \<in> D" by auto
  then have "\<exists>act ex u'. x_run X s' v = Inr ((act, ex), u') \<and>
     (\<forall>t\<in>set act. if x_pc X t \<in> F then \<exists>v q t' v'. x_check X t v = Inr ((q, t'), v') \<and> q \<noteq> SAT
                  else x_pc X t \<in> V \<or> (\<exists>v. (t, v) \<in> D))"
  proof cases
    case 1
    with assms(2,3) show ?thesis by blast
  next
    case 2
    with assms(1) show ?thesis unfolding exhausted_def by blast
  qed
  then obtain act ex u' where r: "x_run X s' v = Inr ((act, ex), u')"
    and a: "\<forall>t\<in>set act. if x_pc X t \<in> F then \<exists>v q t' v'. x_check X t v = Inr ((q, t'), v') \<and> q \<noteq> SAT
                  else x_pc X t \<in> V \<or> (\<exists>v. (t, v) \<in> D)" by blast
  show "\<exists>act ex u'. x_run X s' v = Inr ((act, ex), u') \<and>
     (\<forall>t\<in>set act. if x_pc X t \<in> F then \<exists>v q t' v'. x_check X t v = Inr ((q, t'), v') \<and> q \<noteq> SAT
                  else x_pc X t \<in> V \<or> (\<exists>w. (t, w) \<in> insert (s, u) D))"
  proof (intro exI conjI ballI)
    show "x_run X s' v = Inr ((act, ex), u')" by (rule r)
    fix t
    assume "t \<in> set act"
    with a have "if x_pc X t \<in> F then \<exists>v q t' v'. x_check X t v = Inr ((q, t'), v') \<and> q \<noteq> SAT
                  else x_pc X t \<in> V \<or> (\<exists>v. (t, v) \<in> D)" by (rule bspec)
    then show "if x_pc X t \<in> F then \<exists>v q t' v'. x_check X t v = Inr ((q, t'), v') \<and> q \<noteq> SAT
                  else x_pc X t \<in> V \<or> (\<exists>w. (t, w) \<in> insert (s, u) D)" by (cases "x_pc X t \<in> F") auto
  qed
qed

inductive_cases exploredE: "explored X F V s0 t"

section \<open>The loop over the successors\<close>

lemma scan_active_ok:
  assumes "scan_active X F V ss acc w = Inr (r, w')"
  shows "case r of
      Inl s' \<Rightarrow> \<exists>s u. s \<in> set ss \<and> x_pc X s \<in> F \<and> x_check X s u = Inr ((SAT, s'), w')
    | Inr ts \<Rightarrow> (\<exists>us. ts = acc @ us \<and> set us \<subseteq> set ss \<and> (\<forall>t\<in>set us. x_pc X t \<notin> F \<and> x_pc X t \<notin> V) \<and>
        (\<forall>t\<in>set ss. if x_pc X t \<in> F then \<exists>u q t' u'. x_check X t u = Inr ((q, t'), u') \<and> q \<noteq> SAT
                     else x_pc X t \<in> V \<or> t \<in> set us))"
  using assms
proof (induction ss arbitrary: acc w)
  case Nil
  then show ?case by (auto simp: ret_def)
next
  case (Cons s ss)
  show ?case
  proof (cases "x_pc X s \<in> F")
    case True
    from Cons.prems True obtain q t u where chk: "x_check X s w = Inr ((q, t), u)"
      by (auto simp: bnd_def split: sum.splits prod.splits)
    show ?thesis
    proof (cases "q = SAT")
      case sat: True
      with Cons.prems True chk have "r = Inl t" "w' = u" by (auto simp: bnd_def ret_def)
      with True chk sat show ?thesis by auto
    next
      case False
      with Cons.prems True chk have rest: "scan_active X F V ss acc u = Inr (r, w')" by (auto simp: bnd_def)
      have "\<exists>u q t' u'. x_check X s u = Inr ((q, t'), u') \<and> q \<noteq> SAT" using chk False by blast
      with Cons.IH[OF rest] True show ?thesis by (cases r) fastforce+
    qed
  next
    case False
    let ?acc = "if x_pc X s \<notin> V then acc @ [s] else acc"
    from Cons.prems False have rest: "scan_active X F V ss ?acc w = Inr (r, w')" by simp
    show ?thesis
    proof (cases r)
      case (Inl s')
      with Cons.IH[OF rest] show ?thesis by auto
    next
      case (Inr ts)
      with Cons.IH[OF rest] obtain us where us: "ts = ?acc @ us" "set us \<subseteq> set ss" "\<forall>t\<in>set us. x_pc X t \<notin> F \<and> x_pc X t \<notin> V"
        "\<forall>t\<in>set ss. if x_pc X t \<in> F then \<exists>u q t' u'. x_check X t u = Inr ((q, t'), u') \<and> q \<noteq> SAT
                     else x_pc X t \<in> V \<or> t \<in> set us" by auto
      show ?thesis
      proof (cases "x_pc X s \<in> V")
        case True
        with Inr us False show ?thesis by auto
      next
        case out: False
        with us have "ts = acc @ (s # us)" by simp
        moreover have "set (s # us) \<subseteq> set (s # ss)" "\<forall>t\<in>set (s # us). x_pc X t \<notin> F \<and> x_pc X t \<notin> V"
          using us False out by auto
        moreover have "\<forall>t\<in>set (s # ss). if x_pc X t \<in> F then \<exists>u q t' u'. x_check X t u = Inr ((q, t'), u') \<and> q \<noteq> SAT
                     else x_pc X t \<in> V \<or> t \<in> set (s # us)" using us False out by auto
        ultimately show ?thesis using Inr by (simp only: sum.case) blast
      qed
    qed
  qed
qed

section \<open>The contract\<close>

text \<open>One round of the exploration, with \<open>go\<close> for the rounds after it.\<close>

abbreviation explore_round where
  "explore_round go P X F V p w \<equiv> (case p_next P p of
     None \<Rightarrow> Some (Inr (None, p, w))
   | Some sp \<Rightarrow> (case x_run X (fst sp) w of
       Inl e \<Rightarrow> Some (Inl e)
     | Inr r \<Rightarrow> (case scan_active X F V (fst (fst r)) [] (snd r) of
         Inl e \<Rightarrow> Some (Inl e)
       | Inr a \<Rightarrow> (case fst a of
           Inl s \<Rightarrow> Some (Inr (Some s, fold (p_exited P) (snd (fst r)) (snd sp), snd a))
         | Inr ss \<Rightarrow> (case p_add P ss (fold (p_exited P) (snd (fst r)) (snd sp)) of
             Inl e \<Rightarrow> Some (Inl e)
           | Inr p' \<Rightarrow> go P X F V p' (snd a))))))"

lemma explore_loop_induct [consumes 1]:
  assumes "explore_loop P X F V p w = Some r"
    and step: "\<And>go p w r. (\<And>p w r. go P X F V p w = Some r \<Longrightarrow> Q p w r) \<Longrightarrow> explore_round go P X F V p w = Some r \<Longrightarrow> Q p w r"
  shows "Q p w r"
proof -
  let ?R = "\<lambda>(((((P', X'), F'), V'), p), w) r. P' = P \<and> X' = X \<and> F' = F \<and> V' = V \<longrightarrow> Q p w r"
  have "?R (((((P, X), F), V), p), w) r"
  proof (rule explore_loop.raw_induct[of ?R, OF _ assms(1)], unfold prod.case, intro impI, elim conjE)
    fix go P' X' F' V' p w r
    assume IH: "\<And>P' X' F' V' p w r. go P' X' F' V' p w = Some r \<Longrightarrow> P' = P \<and> X' = X \<and> F' = F \<and> V' = V \<longrightarrow> Q p w r"
      and body: "explore_round go P' X' F' V' p w = Some r" and eq: "P' = P" "X' = X" "F' = F" "V' = V"
    have go: "Q p w r" if "go P X F V p w = Some r" for p w r
      using IH[OF that] by simp
    have round: "explore_round go P X F V p w = Some r" using body unfolding eq .
    show "Q p w r" by (rule step[of go, OF _ round]) (rule go)
  qed
  then show ?thesis by simp
qed

locale exploration_policy =
  fixes P :: "('s, 'p) policy" and waiting :: "'p \<Rightarrow> 's multiset"
  assumes next_None: "p_next P p = None \<Longrightarrow> waiting p = {#}"
    and next_Some: "p_next P p = Some (s, p') \<Longrightarrow> waiting p = add_mset s (waiting p')"
    and add_ok: "p_add P ss p = Inr p' \<Longrightarrow> waiting p' = waiting p + mset ss"
    and exited_ok: "waiting (p_exited P s p) = waiting p"
begin

lemma exited_all: "waiting (fold (p_exited P) ss p) = waiting p"
  by (induction ss arbitrary: p) (simp_all add: exited_ok)

text \<open>The result of one round.\<close>

lemma round_cases:
  assumes "explore_round go P X F V p w = Some (Inr r)"
  obtains (stop) "waiting p = {#}" "r = (None, p, w)"
  | (found) s p1 act ex w1 t u u' where "waiting p = add_mset s (waiting p1)" "x_run X s w = Inr ((act, ex), w1)"
      "t \<in> set act" "x_pc X t \<in> F" "x_check X t u = Inr ((SAT, u'), snd (snd r))" "fst r = Some u'"
  | (go_on) s p1 act ex w1 us p2 w2 where "waiting p = add_mset s (waiting p1)" "x_run X s w = Inr ((act, ex), w1)"
      "waiting p2 = waiting p1 + mset us" "set us \<subseteq> set act" "\<forall>t\<in>set us. x_pc X t \<notin> F \<and> x_pc X t \<notin> V"
      "\<forall>t\<in>set act. if x_pc X t \<in> F then \<exists>u q t' u'. x_check X t u = Inr ((q, t'), u') \<and> q \<noteq> SAT
                     else x_pc X t \<in> V \<or> t \<in> set us"
      "go P X F V p2 w2 = Some (Inr r)"
proof (cases "p_next P p")
  case None
  with assms next_None stop show thesis by simp
next
  case (Some sp)
  then obtain s p1 where next': "p_next P p = Some (s, p1)" by (cases sp) auto
  from assms next' obtain act ex w1 where run: "x_run X s w = Inr ((act, ex), w1)"
    by (auto split: sum.splits)
  from assms next' run obtain a w2 where scan: "scan_active X F V act [] w1 = Inr (a, w2)"
    by (auto split: sum.splits)
  note ok = scan_active_ok[OF scan]
  show thesis
  proof (cases a)
    case (Inl s')
    with assms next' run scan have "fst r = Some s'" "snd (snd r) = w2"
      by auto
    with ok Inl found[OF next_Some[OF next'] run] show thesis by auto
  next
    case (Inr ts)
    from assms next' run scan Inr obtain p2 where add: "p_add P ts (fold (p_exited P) ex p1) = Inr p2"
      and rest: "go P X F V p2 w2 = Some (Inr r)"
      by (auto split: sum.splits)
    from add_ok[OF add] exited_all have "waiting p2 = waiting p1 + mset ts" by simp
    with ok Inr rest go_on[OF next_Some[OF next'] run] show thesis by auto
  qed
qed

text \<open>A state that is returned was found: it is a successor of an explored state, at an address to find, and satisfiable.\<close>

lemma explore_loop_sound:
  assumes "explore_loop P X F V p w = Some r" and "r = Inr (Some t, p', w')" and "\<forall>s\<in>#waiting p. explored X F V s0 s"
  shows "\<exists>s u v. explored X F V s0 s \<and> successor X s u \<and> x_pc X u \<in> F \<and> x_check X u v = Inr ((SAT, t), w')"
  using assms
proof (induction p w r rule: explore_loop_induct)
  case (1 go p w r)
  from 1(2)[unfolded 1(3)] show ?case
  proof (cases rule: round_cases)
    case stop
    then show ?thesis by simp
  next
    case (found s p1 act ex w1 u v u')
    then have "explored X F V s0 s" "successor X s u" using 1(4) unfolding successor_def by fastforce+
    moreover have "x_check X u v = Inr ((SAT, t), w')" using found(5,6) 1(3) by simp
    ultimately show ?thesis using found(4) by blast
  next
    case (go_on s p1 act ex w1 us p2 w2)
    have s: "explored X F V s0 s" using go_on(1) 1(4) by simp
    have "explored X F V s0 u" if "u \<in> set us" for u
    proof (rule explored.block[OF s])
      show "successor X s u" using go_on(2,4) that unfolding successor_def by blast
    qed (use go_on(5) that in simp_all)
    then have "\<forall>s\<in>#waiting p2. explored X F V s0 s" using go_on(1,3) 1(4) by auto
    with 1(1)[OF go_on(7)] show ?thesis by simp
  qed
qed

text \<open>An exploration that ends without a state has executed everything.\<close>

lemma explore_loop_complete:
  assumes "explore_loop P X F V p w = Some r" and "r = Inr (None, p', w')"
  shows "\<exists>D. exhausted X F V D \<and> (\<forall>s\<in>#waiting p. \<exists>u. (s, u) \<in> D)"
  using assms
proof (induction p w r rule: explore_loop_induct)
  case (1 go p w r)
  from 1(2)[unfolded 1(3)] show ?case
  proof (cases rule: round_cases)
    case stop
    have "exhausted X F V {}" by (simp add: exhausted_def)
    with stop show ?thesis by auto
  next
    case (found s p1 act ex w1 u v u')
    then show ?thesis by simp
  next
    case (go_on s p1 act ex w1 us p2 w2)
    obtain D where D: "exhausted X F V D" "\<forall>s\<in>#waiting p2. \<exists>u. (s, u) \<in> D"
      using 1(1)[OF go_on(7)] by auto
    have "if x_pc X t \<in> F then \<exists>v q t' v'. x_check X t v = Inr ((q, t'), v') \<and> q \<noteq> SAT
        else x_pc X t \<in> V \<or> (\<exists>v. (t, v) \<in> D)" if "t \<in> set act" for t
      using bspec[OF go_on(6) that] D(2) go_on(3) by (cases "x_pc X t \<in> F") auto
    then have "exhausted X F V (insert (s, w) D)" by (intro exhausted_insert[OF D(1) go_on(2)]) blast
    moreover have "\<forall>t\<in>#waiting p. \<exists>u. (t, u) \<in> insert (s, w) D" using D(2) go_on(1,3) by auto
    ultimately show ?thesis by blast
  qed
qed

end

section \<open>The techniques\<close>

lemma bfs_add_active: "m_active (bfs_add_actives ss t) = rev ss @ m_active t"
  unfolding bfs_add_actives_def by (induction ss arbitrary: t) simp_all

lemma dfs_add_active: "m_active (dfs_add_actives ss t) = m_active t @ ss"
  unfolding dfs_add_actives_def by (induction ss arbitrary: t) simp_all

lemma mset_last: "xs \<noteq> [] \<Longrightarrow> mset xs = add_mset (last xs) (mset (butlast xs))"
  by (cases xs rule: rev_cases) simp_all

lemma pop_back_None: "pop_back t = None \<Longrightarrow> m_active t = []"
  by (simp add: pop_back_def split: if_splits)

lemma pop_back_Some: "pop_back t = Some (s, t') \<Longrightarrow> mset (m_active t) = add_mset s (mset (m_active t'))"
  using mset_last[of "m_active t"] by (auto simp: pop_back_def split: if_splits)

lemma add_exited_active: "m_active (add_exited s t) = m_active t"
  by (simp add: add_exited_def)

interpretation bfs: exploration_policy bfs "\<lambda>t. mset (m_active t)"
  by unfold_locales (auto simp: bfs_def bfs_add_active add_exited_active dest: pop_back_None pop_back_Some)

interpretation dfs: exploration_policy dfs "\<lambda>t. mset (m_active t)"
  by unfold_locales (auto simp: dfs_def dfs_add_active add_exited_active dest: pop_back_None pop_back_Some)

lemma exchange_mset: "exchange i j xs = Inr ys \<Longrightarrow> i \<le> j \<Longrightarrow> mset ys = mset xs \<and> length ys = length xs"
  by (auto simp: exchange_def mset_swap split: if_splits)

lemma shuffle_loop_mset: "shuffle_loop R i n xs r = Inr (ys, r') \<Longrightarrow> mset ys = mset xs"
proof (induction R i n xs r rule: shuffle_loop.induct)
  case (2 R i n xs r)
  obtain k r1 where k: "r_rand R r = (k, r1)" by force
  with 2(2) obtain xs1 where x: "exchange i (i + k div (rand_max R div (length xs - i) + 1)) xs = Inr xs1"
    and rest: "shuffle_loop R (i + 1) n xs1 r1 = Inr (ys, r')" by (auto simp: rbind_Inr_iff)
  from 2(1)[OF k[symmetric] x rest] exchange_mset[OF x] show ?case by simp
qed simp

lemma shuffle_mset: "shuffle R xs r = Inr (ys, r') \<Longrightarrow> mset ys = mset xs"
  by (auto simp: shuffle_def split: if_splits dest: shuffle_loop_mset)

interpretation rand_dfs: exploration_policy "rand_dfs R" "\<lambda>t. mset (m_active (r_queue t))" for R :: "'r rand_lib"
  by unfold_locales (auto simp: rand_dfs_def rand_add_actives_def dfs_add_active add_exited_active rbind_Inr_iff
    dest: pop_back_None pop_back_Some shuffle_mset)

definition cov_waiting :: "'s coverage \<Rightarrow> 's multiset" where
  "cov_waiting t = mset (m_new_addr_queue t) + mset (m_new_context_queue t) + mset (m_other_queue t)"

lemma cov_add_waiting: "cov_waiting (cov_add V s t) = add_mset s (cov_waiting t)"
  by (simp add: cov_add_def cov_waiting_def Let_def)

lemma cov_add_actives_waiting: "cov_waiting (cov_add_actives V ss t) = cov_waiting t + mset ss"
  unfolding cov_add_actives_def by (induction ss arbitrary: t) (simp_all add: cov_add_waiting)

lemma cov_next_None: "cov_get_next t = None \<Longrightarrow> cov_waiting t = {#}"
  by (simp add: cov_get_next_def cov_waiting_def split: if_splits)

lemma cov_next_Some: "cov_get_next t = Some (s, t') \<Longrightarrow> cov_waiting t = add_mset s (cov_waiting t')"
  using mset_last[of "m_new_addr_queue t"] mset_last[of "m_new_context_queue t"] mset_last[of "m_other_queue t"]
  by (auto simp: cov_get_next_def cov_waiting_def split: if_splits)

lemma cov_exited: "cov_waiting (add_exited s t) = cov_waiting t"
  by (simp add: cov_waiting_def add_exited_def)

interpretation cov: exploration_policy "cov V" cov_waiting for V :: "'s view"
  by unfold_locales (auto simp: cov_def cov_add_actives_waiting cov_exited dest: cov_next_None cov_next_Some)

end
