(* ===== verification/ExplorationEnd.thy ===== *)
theory ExplorationEnd
  imports ExplorationSpec
begin

text \<open>
  When an exploration ends. The tree of executions is described by a set \<open>S\<close> of states and a set \<open>W\<close> of states of the
  process, both closed under what the manager does; with a well-founded tree every technique ends, and breadth-first search
  finds a state that can be found, also in an infinite tree.
\<close>

section \<open>Closed sets of states\<close>

definition closed_under :: "('s, 'w) machine \<Rightarrow> 64 word set \<Rightarrow> 64 word set \<Rightarrow> 's set \<Rightarrow> 'w set \<Rightarrow> bool" where
  "closed_under X F V S W \<longleftrightarrow> (\<forall>s\<in>S. \<forall>w\<in>W. \<forall>act ex w'. x_run X s w = Inr ((act, ex), w') \<longrightarrow> w' \<in> W \<and>
     (\<forall>t\<in>set act. if x_pc X t \<in> F then \<forall>u\<in>W. \<forall>q t' u'. x_check X t u = Inr ((q, t'), u') \<longrightarrow> u' \<in> W
                   else x_pc X t \<in> V \<or> t \<in> S))"

text \<open>One step of the tree.\<close>

definition tree :: "('s, 'w) machine \<Rightarrow> 's set \<Rightarrow> 'w set \<Rightarrow> ('s \<times> 's) set" where
  "tree X S W = {(t, s). s \<in> S \<and> t \<in> S \<and> (\<exists>w\<in>W. \<exists>act ex w'. x_run X s w = Inr ((act, ex), w') \<and> t \<in> set act)}"

lemma closed_run:
  assumes "closed_under X F V S W" "s \<in> S" "w \<in> W" "x_run X s w = Inr ((act, ex), w')"
  shows "w' \<in> W" "\<forall>t\<in>set act. if x_pc X t \<in> F then \<forall>u\<in>W. \<forall>q t' u'. x_check X t u = Inr ((q, t'), u') \<longrightarrow> u' \<in> W
     else x_pc X t \<in> V \<or> t \<in> S"
  using assms unfolding closed_under_def by blast+

lemma scan_active_closed:
  assumes "scan_active X F V ss acc w = Inr (r, w')" and "w \<in> W"
    and "\<forall>t\<in>set ss. if x_pc X t \<in> F then \<forall>u\<in>W. \<forall>q t' u'. x_check X t u = Inr ((q, t'), u') \<longrightarrow> u' \<in> W
           else x_pc X t \<in> V \<or> t \<in> S"
  shows "w' \<in> W"
  using assms
proof (induction ss arbitrary: acc w)
  case (Cons s ss)
  show ?case
  proof (cases "x_pc X s \<in> F")
    case True
    from Cons.prems(1) True obtain q t u where chk: "x_check X s w = Inr ((q, t), u)"
      by (auto simp: bnd_def split: sum.splits prod.splits)
    with Cons.prems True have "u \<in> W" by auto
    with Cons.prems Cons.IH[of acc u] chk True show ?thesis by (auto simp: bnd_def ret_def split: if_splits)
  next
    case False
    with Cons.prems Cons.IH show ?thesis by (auto split: if_splits)
  qed
qed (simp add: ret_def)

section \<open>Well-founded trees\<close>

context exploration_policy
begin

lemma explore_loop_ends:
  assumes closed: "closed_under X F V S W" and wf: "wf (tree X S W)"
    and "set_mset (waiting p) \<subseteq> S" and "w \<in> W"
  shows "explore_loop P X F V p w \<noteq> None"
  using assms(3,4)
proof (induction "waiting p" arbitrary: p w rule: wf_induct_rule[OF wf_mult[OF wf]])
  case 1
  show ?case
  proof (cases "p_next P p")
    case None
    then show ?thesis by (simp add: explore_loop.simps)
  next
    case (Some sp)
    then obtain s p1 where next': "p_next P p = Some (s, p1)" by (cases sp) auto
    note M = next_Some[OF next']
    show ?thesis
    proof (cases "x_run X s w")
      case (Inl e)
      with next' show ?thesis by (simp add: explore_loop.simps)
    next
      case (Inr r)
      then obtain act ex w1 where run: "x_run X s w = Inr ((act, ex), w1)" by (cases r) auto
      have s: "s \<in> S" using 1(2) M by simp
      note c = closed_run[OF closed s 1(3) run]
      show ?thesis
      proof (cases "scan_active X F V act [] w1")
        case (Inl e)
        with next' run show ?thesis by (simp add: explore_loop.simps)
      next
        case (Inr a)
        then obtain x w2 where scan: "scan_active X F V act [] w1 = Inr (x, w2)" by (cases a) auto
        have w2: "w2 \<in> W" by (rule scan_active_closed[OF scan c])
        show ?thesis
        proof (cases x)
          case (Inl t)
          with next' run scan show ?thesis by (simp add: explore_loop.simps)
        next
          case (Inr us)
          let ?p = "fold (p_exited P) ex p1"
          have us: "set us \<subseteq> set act" "\<forall>t\<in>set us. x_pc X t \<notin> F \<and> x_pc X t \<notin> V"
            using scan_active_ok[OF scan] Inr by auto
          then have in_S: "set us \<subseteq> S" using c(2) by fastforce
          show ?thesis
          proof (cases "p_add P us ?p")
            case (Inl e)
            with next' run scan Inr show ?thesis by (simp add: explore_loop.simps)
          next
            case (Inr p2)
            from add_ok[OF Inr] exited_all have M2: "waiting p2 = waiting p1 + mset us" by simp
            have "(t, s) \<in> tree X S W" if "t \<in> set us" for t
              using that us(1) in_S s 1(3) run unfolding tree_def by blast
            then have "(waiting p2, waiting p) \<in> mult1 (tree X S W)"
              unfolding M M2 by (intro mult1I[of _ s "waiting p1" _ "mset us"]) auto
            then have "(waiting p2, waiting p) \<in> mult (tree X S W)" unfolding mult_def by blast
            moreover have "set_mset (waiting p2) \<subseteq> S" using 1(2) M M2 in_S by auto
            ultimately have "explore_loop P X F V p2 w2 \<noteq> None" using 1(1) w2 by blast
            with next' run scan \<open>x = Inr us\<close> Inr show ?thesis by (simp add: explore_loop.simps[of P X F V p])
          qed
        qed
      qed
    qed
  qed
qed

end

section \<open>Breadth-first search\<close>

text \<open>Every run is defined, and so is every check of a state found.\<close>

definition total_on :: "('s, 'w) machine \<Rightarrow> 64 word set \<Rightarrow> 's set \<Rightarrow> 'w set \<Rightarrow> bool" where
  "total_on X F S W \<longleftrightarrow> (\<forall>s\<in>S. \<forall>w\<in>W. \<exists>act ex w'. x_run X s w = Inr ((act, ex), w') \<and>
     (\<forall>t\<in>set act. x_pc X t \<in> F \<longrightarrow> (\<forall>u\<in>W. \<exists>q t' u'. x_check X t u = Inr ((q, t'), u'))))"

text \<open>A state that can be found: at an address to find, and satisfiable in every state of the process.\<close>

definition goal :: "('s, 'w) machine \<Rightarrow> 64 word set \<Rightarrow> 'w set \<Rightarrow> 's \<Rightarrow> bool" where
  "goal X F W t \<longleftrightarrow> x_pc X t \<in> F \<and> (\<forall>u\<in>W. \<exists>t' u'. x_check X t u = Inr ((SAT, t'), u'))"

text \<open>The state leads to a goal in \<open>k + 1\<close> blocks, whatever the state of the process is.\<close>

fun leads :: "('s, 'w) machine \<Rightarrow> 64 word set \<Rightarrow> 64 word set \<Rightarrow> 'w set \<Rightarrow> nat \<Rightarrow> 's \<Rightarrow> bool" where
  "leads X F V W 0 s \<longleftrightarrow> (\<forall>w\<in>W. \<exists>act ex w'. x_run X s w = Inr ((act, ex), w') \<and> (\<exists>t\<in>set act. goal X F W t))"
| "leads X F V W (Suc k) s \<longleftrightarrow> (\<forall>w\<in>W. \<exists>act ex w'. x_run X s w = Inr ((act, ex), w') \<and>
     (\<exists>t\<in>set act. x_pc X t \<notin> F \<and> x_pc X t \<notin> V \<and> leads X F V W k t))"

lemma scan_active_total:
  assumes "w \<in> W"
    and "\<forall>t\<in>set ss. x_pc X t \<in> F \<longrightarrow> (\<forall>u\<in>W. \<exists>q t' u'. x_check X t u = Inr ((q, t'), u') \<and> u' \<in> W)"
  shows "\<exists>r w'. scan_active X F V ss acc w = Inr (r, w') \<and> ((\<exists>t\<in>set ss. goal X F W t) \<longrightarrow> (\<exists>t. r = Inl t))"
  using assms
proof (induction ss arbitrary: acc w)
  case (Cons s ss)
  show ?case
  proof (cases "x_pc X s \<in> F")
    case True
    with Cons.prems obtain q t u where chk: "x_check X s w = Inr ((q, t), u)" "u \<in> W" by force
    show ?thesis
    proof (cases "q = SAT")
      case sat: True
      with True chk show ?thesis by (simp add: bnd_def ret_def)
    next
      case False
      have "\<not> goal X F W s" using chk False Cons.prems(1) by (force simp: goal_def)
      with Cons.IH[of u acc] Cons.prems chk True False show ?thesis by (auto simp: bnd_def)
    qed
  next
    case False
    then have "\<not> goal X F W s" by (simp add: goal_def)
    with False Cons.IH[of w "if x_pc X s \<notin> V then acc @ [s] else acc"] Cons.prems show ?thesis by auto
  qed
qed (simp add: ret_def)

text \<open>One round: the exploration ends with a state, or goes on with the new states in front of the queue.\<close>

lemma bfs_round:
  assumes closed: "closed_under X F V S W" and total: "total_on X F S W"
    and q: "m_active p = xs @ [s]" and S: "set (m_active p) \<subseteq> S" and w: "w \<in> W"
  obtains (found) t p' w' where "explore_loop bfs X F V p w = Some (Inr (Some t, p', w'))"
  | (go_on) act ex w1 us p2 w2 where "x_run X s w = Inr ((act, ex), w1)" "\<not> (\<exists>t\<in>set act. goal X F W t)"
      "\<forall>t\<in>set act. x_pc X t \<notin> F \<and> x_pc X t \<notin> V \<longrightarrow> t \<in> set us" "set us \<subseteq> S" "w2 \<in> W" "m_active p2 = rev us @ xs"
      "explore_loop bfs X F V p w = explore_loop bfs X F V p2 w2"
proof -
  have s: "s \<in> S" using q S by simp
  have next': "p_next bfs p = Some (s, p\<lparr>m_active := xs\<rparr>)" using q by (simp add: bfs_def pop_back_def)
  from total s w obtain act ex w1 where run: "x_run X s w = Inr ((act, ex), w1)"
    and chk: "\<forall>t\<in>set act. x_pc X t \<in> F \<longrightarrow> (\<forall>u\<in>W. \<exists>q t' u'. x_check X t u = Inr ((q, t'), u'))"
    unfolding total_on_def by blast
  note c = closed_run[OF closed s w run]
  have "\<forall>t\<in>set act. x_pc X t \<in> F \<longrightarrow> (\<forall>u\<in>W. \<exists>q t' u'. x_check X t u = Inr ((q, t'), u') \<and> u' \<in> W)"
  proof (intro ballI impI)
    fix t u
    assume t: "t \<in> set act" "x_pc X t \<in> F" "u \<in> W"
    then obtain q t' u' where "x_check X t u = Inr ((q, t'), u')" using chk by blast
    moreover from this have "u' \<in> W" using bspec[OF c(2) t(1)] t(2,3) by (simp add: Ball_def)
    ultimately show "\<exists>q t' u'. x_check X t u = Inr ((q, t'), u') \<and> u' \<in> W" by blast
  qed
  from scan_active_total[OF c(1) this, of V "[]"] obtain r w2 where scan: "scan_active X F V act [] w1 = Inr (r, w2)"
    and goal: "(\<exists>t\<in>set act. goal X F W t) \<longrightarrow> (\<exists>t. r = Inl t)" by blast
  show thesis
  proof (cases r)
    case (Inl t)
    show thesis by (rule found) (simp add: explore_loop.simps next' run scan Inl)
  next
    case (Inr us)
    let ?p = "bfs_add_actives us (fold (p_exited bfs) ex (p\<lparr>m_active := xs\<rparr>))"
    have "mset (m_active (fold (p_exited bfs) ex q)) = mset (m_active q)" for q :: "'a queue" by (rule bfs.exited_all)
    have ex_active: "m_active (fold (p_exited bfs) ex q) = m_active q" for q :: "'a queue"
      by (induction ex arbitrary: q) (simp_all add: bfs_def add_exited_active)
    have us: "\<forall>t\<in>set us. t \<in> set act \<and> x_pc X t \<notin> F \<and> x_pc X t \<notin> V" "\<forall>t\<in>set act. x_pc X t \<notin> F \<and> x_pc X t \<notin> V \<longrightarrow> t \<in> set us"
      using scan_active_ok[OF scan] Inr by (auto split: if_splits)
    show thesis
    proof (rule go_on[OF run])
      show "\<not> (\<exists>t\<in>set act. goal X F W t)" using goal Inr by auto
      show "\<forall>t\<in>set act. x_pc X t \<notin> F \<and> x_pc X t \<notin> V \<longrightarrow> t \<in> set us" by (rule us(2))
      show "set us \<subseteq> S" using us(1) c(2) by fastforce
      show "w2 \<in> W" by (rule scan_active_closed[OF scan c])
      show "m_active ?p = rev us @ xs" by (simp add: bfs_add_active ex_active)
      show "explore_loop bfs X F V p w = explore_loop bfs X F V ?p w2"
        by (simp add: explore_loop.simps[of bfs X F V p] next' run scan Inr) (simp add: bfs_def)
    qed
  qed
qed

lemma bfs_finds:
  assumes closed: "closed_under X F V S W" and total: "total_on X F S W"
    and "set (m_active p) \<subseteq> S" and "w \<in> W" and "m_active p = xs @ s # ys" and "leads X F V W k s"
  shows "\<exists>t p' w'. explore_loop bfs X F V p w = Some (Inr (Some t, p', w'))"
  using assms(3-6)
proof (induction k arbitrary: s xs ys p w)
  case 0
  then show ?case
  proof (induction ys arbitrary: xs p w rule: rev_induct)
    case Nil
    then show ?case
    proof (cases rule: bfs_round[OF closed total _ Nil(1,2), of xs s, case_names queue found go_on])
      case (go_on act ex w1 us p2 w2)
      with Nil(2,4) show ?thesis by fastforce
    qed auto
  next
    case (snoc y ys)
    then show ?case
    proof (cases rule: bfs_round[OF closed total _ snoc(2,3), of "xs @ s # ys" y, case_names queue found go_on])
      case (go_on act ex w1 us p2 w2)
      have "set (m_active p2) \<subseteq> S" using go_on(4,6) snoc(2,4) by auto
      from snoc(1)[OF this go_on(5) _ snoc(5), of "rev us @ xs"] go_on(6,7) show ?thesis by simp
    qed auto
  qed
next
  case (Suc k)
  note IH = Suc(1)
  from Suc(2-5) show ?case
  proof (induction ys arbitrary: xs p w rule: rev_induct)
    case Nil
    then show ?case
    proof (cases rule: bfs_round[OF closed total _ Nil(1,2), of xs s, case_names queue found go_on])
      case (go_on act ex w1 us p2 w2)
      from Nil(2,4) go_on(1) obtain t where t: "t \<in> set act" "x_pc X t \<notin> F" "x_pc X t \<notin> V" "leads X F V W k t" by fastforce
      then have "t \<in> set (rev us)" using go_on(3) by simp
      then obtain us1 us2 where "rev us = us1 @ t # us2" by (meson split_list)
      moreover have "set (m_active p2) \<subseteq> S" using go_on(4,6) Nil(1,3) by auto
      ultimately show ?thesis using IH[OF _ go_on(5) _ t(4), of p2 us1 "us2 @ xs"] go_on(6,7) by simp
    qed auto
  next
    case (snoc y ys)
    then show ?case
    proof (cases rule: bfs_round[OF closed total _ snoc(2,3), of "xs @ s # ys" y, case_names queue found go_on])
      case (go_on act ex w1 us p2 w2)
      have "set (m_active p2) \<subseteq> S" using go_on(4,6) snoc(2,4) by auto
      from snoc(1)[OF this go_on(5) _ snoc(5), of "rev us @ xs"] go_on(6,7) show ?thesis by simp
    qed auto
  qed
qed

end
