(* ===== verification/Exploration_Properties.thy ===== *)
theory Exploration_Properties
  imports ExplorationEnd Z3Instance Memory_Properties
begin

text \<open>
  The properties of the exploration.
\<close>

section \<open>Soundness and exhaustiveness\<close>

lemma result_of_Some: "result_of r = Some (Inr (s, w)) \<longleftrightarrow> (\<exists>p. r = Some (Inr (s, p, w)))"
proof (cases r)
  case (Some x)
  then show ?thesis by (cases x) (auto simp: result_of_def)
qed (simp add: result_of_def)

lemma start_waiting:
  "mset (m_active (queue_init s)) = {#s#}" "mset (m_active (r_queue (rand_init s))) = {#s#}" "cov_waiting (cov_init V s) = {#s#}"
  by (simp_all add: queue_init_def rand_init_def cov_init_def cov_waiting_def)

text \<open>What every manager does, from what the contract gives for its technique.\<close>

lemma explore_with_cases:
  assumes "explore_with k R V X find_addrs avoid_addrs s0 w = Some (Inr (r, w'))"
    and "\<And>p p'. explore_loop bfs X (set find_addrs) (set avoid_addrs) p w = Some (Inr (r, p', w')) \<Longrightarrow>
      mset (m_active p) = {#s0#} \<Longrightarrow> Q"
    and "\<And>p p'. explore_loop dfs X (set find_addrs) (set avoid_addrs) p w = Some (Inr (r, p', w')) \<Longrightarrow>
      mset (m_active p) = {#s0#} \<Longrightarrow> Q"
    and "\<And>p p'. explore_loop (rand_dfs R) X (set find_addrs) (set avoid_addrs) p w = Some (Inr (r, p', w')) \<Longrightarrow>
      mset (m_active (r_queue p)) = {#s0#} \<Longrightarrow> Q"
    and "\<And>p p'. explore_loop (cov V) X (set find_addrs) (set avoid_addrs) p w = Some (Inr (r, p', w')) \<Longrightarrow>
      cov_waiting p = {#s0#} \<Longrightarrow> Q"
  shows Q
proof (cases k)
  case BFS
  with assms(1) show ?thesis by (auto simp: explore_with_def explore_def result_of_Some intro: assms(2)[OF _ start_waiting(1)])
next
  case DFS
  with assms(1) show ?thesis by (auto simp: explore_with_def explore_def result_of_Some intro: assms(3)[OF _ start_waiting(1)])
next
  case RandDFS
  with assms(1) show ?thesis by (auto simp: explore_with_def explore_def result_of_Some intro: assms(4)[OF _ start_waiting(2)])
next
  case Cov
  with assms(1) show ?thesis by (auto simp: explore_with_def explore_def result_of_Some intro: assms(5)[OF _ start_waiting(3)])
qed

lemma single: "M = {#s0#} \<Longrightarrow> \<forall>s\<in>#M. explored X F V s0 s"
  by (simp add: explored.start)

lemma explore_with_sound:
  assumes "explore_with k R V X find_addrs avoid_addrs s0 w = Some (Inr (Some t, w'))"
  shows "\<exists>s u v. explored X (set find_addrs) (set avoid_addrs) s0 s \<and> successor X s u \<and> x_pc X u \<in> set find_addrs \<and>
    x_check X u v = Inr ((SAT, t), w')"
  by (rule explore_with_cases[OF assms])
     (erule bfs.explore_loop_sound[OF _ refl single] dfs.explore_loop_sound[OF _ refl single]
       rand_dfs.explore_loop_sound[OF _ refl single] cov.explore_loop_sound[OF _ refl single], assumption)+

lemma explore_with_complete:
  assumes "explore_with k R V X find_addrs avoid_addrs s0 w = Some (Inr (None, w'))"
  shows "\<exists>D. exhausted X (set find_addrs) (set avoid_addrs) D \<and> (\<exists>u. (s0, u) \<in> D)"
proof -
  have one: "\<exists>D. exhausted X F V D \<and> (\<forall>s\<in>#M. \<exists>u. (s, u) \<in> D) \<Longrightarrow> M = {#s0#} \<Longrightarrow>
      \<exists>D. exhausted X F V D \<and> (\<exists>u. (s0, u) \<in> D)" for M F V by auto
  show ?thesis
    by (rule explore_with_cases[OF assms])
       (erule one[OF bfs.explore_loop_complete[OF _ refl]] one[OF dfs.explore_loop_complete[OF _ refl]]
         one[OF rand_dfs.explore_loop_complete[OF _ refl]] one[OF cov.explore_loop_complete[OF _ refl]], assumption)+
qed

lemma naaz_run: "x_run (naaz_machine H fuel) s w = Inr ((act, ex), w') \<longleftrightarrow>
    (\<exists>succ. execute_basic_block H fuel s w = Inr (succ, w') \<and> act = active succ \<and> ex = exited_states succ)"
  by (cases "execute_basic_block H fuel s w") (auto simp: naaz_machine_def bnd_def ret_def split: prod.split)

lemma naaz_check: "x_check (naaz_machine H fuel) s w = Inr ((r, s'), w') \<longleftrightarrow> state_satisfiable H (s, w) = Inr (r, (s', w'))"
  by (cases "state_satisfiable H (s, w)") (auto simp: naaz_machine_def split: prod.split)

lemma naaz_pc: "x_pc (naaz_machine H fuel) = m_pc"
  by (simp add: naaz_machine_def)

section \<open>Properties\<close>

text \<open>C1: a state that one of the four managers returns was found: it is an active successor of a state reached from the
  initial one by executing blocks, none of them behind the first at an address to find or to avoid; its address is one of
  those to find, and its constraints were answered satisfiable when it was returned.\<close>

theorem exploration_sound:
  fixes H :: "'z host"
  assumes "explore_with k R (naaz_view H) (naaz_machine H fuel) find_addrs avoid_addrs s0 p = Some (Inr (Some t, p'))"
  shows "\<exists>s u q. explored (naaz_machine H fuel) (set find_addrs) (set avoid_addrs) s0 s \<and>
    (\<exists>p1 succ p2. execute_basic_block H fuel s p1 = Inr (succ, p2) \<and> u \<in> set (active succ)) \<and>
    m_pc u \<in> set find_addrs \<and> state_satisfiable H (u, q) = Inr (SAT, (t, p')) \<and> m_pc t = m_pc u"
proof -
  let ?X = "naaz_machine H fuel"
  obtain s u q where e: "explored ?X (set find_addrs) (set avoid_addrs) s0 s" and su: "successor ?X s u"
    and pc: "x_pc ?X u \<in> set find_addrs" and chk: "x_check ?X u q = Inr ((SAT, t), p')"
    using explore_with_sound[OF assms] by blast
  from su obtain p1 succ p2 where run: "execute_basic_block H fuel s p1 = Inr (succ, p2)" "u \<in> set (active succ)"
    by (auto simp: successor_def naaz_run)
  from chk have sat: "state_satisfiable H (u, q) = Inr (SAT, (t, p'))" by (simp add: naaz_check)
  then have "m_pc t = m_pc u"
    by (auto simp: state_satisfiable_def in_solver_def split: sum.splits prod.splits)
  with e run pc[unfolded naaz_pc] sat show ?thesis by blast
qed

text \<open>C2: when an exploration ends without a state, nothing was left out: there is a set of executed blocks that contains the
  initial state, and every active successor of one of them was answered not satisfiable at an address to find, lies at an
  address to avoid, or was executed too.\<close>

theorem exploration_complete:
  fixes H :: "'z host"
  assumes "explore_with k R (naaz_view H) (naaz_machine H fuel) find_addrs avoid_addrs s0 p = Some (Inr (None, p'))"
  shows "\<exists>D q. (s0, q) \<in> D \<and> (\<forall>(s, q)\<in>D. \<exists>succ q'. execute_basic_block H fuel s q = Inr (succ, q') \<and>
    (\<forall>t\<in>set (active succ). if m_pc t \<in> set find_addrs
       then \<exists>v r v'. state_satisfiable H (t, v) = Inr (r, v') \<and> r \<noteq> SAT
       else m_pc t \<in> set avoid_addrs \<or> (\<exists>v. (t, v) \<in> D)))"
proof -
  let ?X = "naaz_machine H fuel"
  obtain D q where D: "exhausted ?X (set find_addrs) (set avoid_addrs) D" "(s0, q) \<in> D"
    using explore_with_complete[OF assms] by blast
  have "\<exists>succ q'. execute_basic_block H fuel s q = Inr (succ, q') \<and>
    (\<forall>t\<in>set (active succ). if m_pc t \<in> set find_addrs
       then \<exists>v r v'. state_satisfiable H (t, v) = Inr (r, v') \<and> r \<noteq> SAT
       else m_pc t \<in> set avoid_addrs \<or> (\<exists>v. (t, v) \<in> D))" if sq: "(s, q) \<in> D" for s q
  proof -
    from D(1) sq obtain act ex q' where run: "x_run ?X s q = Inr ((act, ex), q')"
      and all: "\<forall>t\<in>set act. if x_pc ?X t \<in> set find_addrs then \<exists>v r t' v'. x_check ?X t v = Inr ((r, t'), v') \<and> r \<noteq> SAT
                  else x_pc ?X t \<in> set avoid_addrs \<or> (\<exists>v. (t, v) \<in> D)" unfolding exhausted_def by blast
    from run obtain succ where s: "execute_basic_block H fuel s q = Inr (succ, q')" "active succ = act"
      by (auto simp: naaz_run)
    have chk: "\<exists>v r v'. state_satisfiable H (t, v) = Inr (r, v') \<and> r \<noteq> SAT"
      if "\<exists>v r t' v'. x_check ?X t v = Inr ((r, t'), v') \<and> r \<noteq> SAT" for t
      using that unfolding naaz_check by blast
    have "if m_pc t \<in> set find_addrs then \<exists>v r v'. state_satisfiable H (t, v) = Inr (r, v') \<and> r \<noteq> SAT
       else m_pc t \<in> set avoid_addrs \<or> (\<exists>v. (t, v) \<in> D)" if "t \<in> set act" for t
      using bspec[OF all that] chk[of t] by (cases "m_pc t \<in> set find_addrs") (simp_all add: naaz_pc)
    with s show ?thesis by blast
  qed
  with D(2) show ?thesis by blast
qed

text \<open>C12: an exploration ends, with every technique, when the tree of executions is well-founded: \<open>S\<close> and \<open>W\<close> are sets of states
  and of states of the process that the manager does not leave, and no infinite sequence of blocks stays in \<open>S\<close>.\<close>

theorem exploration_ends:
  fixes H :: "'z host"
  assumes "closed_under (naaz_machine H fuel) (set find_addrs) (set avoid_addrs) S W"
    and "wf (tree (naaz_machine H fuel) S W)" and "s0 \<in> S" and "p \<in> W"
  shows "explore_with k R (naaz_view H) (naaz_machine H fuel) find_addrs avoid_addrs s0 p \<noteq> None"
proof (cases k)
  case BFS
  show ?thesis using bfs.explore_loop_ends[OF assms(1,2) _ assms(4), of "queue_init s0"] assms(3)
    by (auto simp: BFS explore_with_def explore_def result_of_def start_waiting)
next
  case DFS
  show ?thesis using dfs.explore_loop_ends[OF assms(1,2) _ assms(4), of "queue_init s0"] assms(3)
    by (auto simp: DFS explore_with_def explore_def result_of_def start_waiting)
next
  case RandDFS
  show ?thesis using rand_dfs.explore_loop_ends[OF assms(1,2) _ assms(4), of "rand_init s0" R] assms(3)
    by (auto simp: RandDFS explore_with_def explore_def result_of_def start_waiting)
next
  case Cov
  show ?thesis using cov.explore_loop_ends[OF assms(1,2) _ assms(4), of "cov_init (naaz_view H) s0" "naaz_view H"] assms(3)
    by (auto simp: Cov explore_with_def explore_def result_of_def start_waiting)
qed

text \<open>C13: breadth-first search finds a state when one can be found, also when there are infinite paths: if no execution in the
  closed sets fails, and the initial state leads in \<open>k + 1\<close> blocks to a satisfiable state at an address to find, then the
  exploration ends with a state.\<close>

theorem bfs_finds_goal:
  fixes H :: "'z host"
  assumes "closed_under (naaz_machine H fuel) (set find_addrs) (set avoid_addrs) S W"
    and "total_on (naaz_machine H fuel) (set find_addrs) S W" and "s0 \<in> S" and "p \<in> W"
    and "leads (naaz_machine H fuel) (set find_addrs) (set avoid_addrs) W k s0"
  shows "\<exists>t p'. explore_with BFS R (naaz_view H) (naaz_machine H fuel) find_addrs avoid_addrs s0 p = Some (Inr (Some t, p'))"
proof -
  have "m_active (queue_init s0) = [] @ s0 # []" by (simp add: queue_init_def)
  from bfs_finds[OF assms(1,2) _ assms(4) this assms(5)] assms(3) show ?thesis
    by (auto simp: explore_with_def explore_def result_of_def queue_init_def)
qed

section \<open>A sample\<close>

text \<open>A program of one block at \<open>0x1000\<close>, which jumps to \<open>0x2000\<close>.\<close>

definition sample_block :: "translation list" where
  "sample_block = [\<lparr>t_address = 0x1000, t_length = 4, t_ops = [\<lparr>op_code = CPUI_BRANCH, op_output = None,
     op_inputs = [\<lparr>vn_space = 1, vn_offset = 0x2000, vn_size = 8\<rparr>]\<rparr>]\<rparr>]"

definition sample_sleigh :: sleigh where
  "sample_sleigh = \<lparr>csleigh_translate = (\<lambda>data n a. Some sample_block), csleigh_getRegister = (\<lambda>_. None),
     csleigh_getSpaceFromConst = (\<lambda>_ _. 1), csleigh_getFloatFormats = [], csleigh_CALLOTHER_SYSCALL = 0, ram_space_id = 1,
     regs_space_id = 2, const_space_id = 3, tmp_space_id = 4\<rparr>"

definition sample_host :: "meaning host" where
  "sample_host = \<lparr>h_amb = sample_env, h_api = meaning_api, h_engine = meaning_engine, h_cfg = Config_init, h_arch = X86_64,
     h_sleigh = sample_sleigh\<rparr>"

definition sample_state :: state where
  "sample_state = \<lparr>m_pc = 0x1000, m_heap_ptr = get_heap_ptr X86_64, m_stacktrace = [], m_argv = [], m_config_symbols = [],
     m_regs = MapMemory_name Config_init ''regs'' RET_SYM,
     m_ram = set_solver (MapMemory_name Config_init ''ram'' RET_SYM),
     m_fs = \<lparr>m_files = Map.empty, m_open_files = Map.empty, m_free_fd = 0\<rparr>, m_pm = Map.empty,
     m_platform = Linux64Platform,
     m_address_space = register_segment_vec ''text'' 0x1000 [0xE9, 0xFB, 0x0F, 0] 1 AddressSpace_init,
     m_linked_functions = Map.empty, m_solver = Solver_init, m_libc_start_main_exit_wrapper = 0, exited = False, retcode = 0\<rparr>"

definition sample_process :: "'z process" where
  "sample_process = \<lparr>p_world = empty_world ExprBuilder_init, p_blocks = Map.empty, p_argv_sym_idx = 0, p_randtbl = randtbl_init\<rparr>"

text \<open>The states of the process whose cache has no other block at the address of the sample.\<close>

definition sample_processes :: "'z process set" where
  "sample_processes = {p. p_blocks p 0x1000 \<in> {None, Some sample_block}}"

lemma sample_run_in:
  assumes "p \<in> sample_processes"
  shows "execute_basic_block sample_host 0 sample_state p =
    Inr (\<lparr>active = [sample_state\<lparr>m_pc := 0x2000\<rparr>], exited_states = []\<rparr>, p\<lparr>p_blocks := (p_blocks p)(0x1000 \<mapsto> sample_block)\<rparr>)"
proof -
  have code: "get_code_at 0x1000 sample_state = Some ([0xE9, 0xFB, 0x0F, 0], 4)"
    by (simp add: get_code_at_def get_ref_def sample_state_def register_segment_vec_def register_segment_def AddressSpace_init_def
      Segment_data_def contains_def seg_get_ref_def)
  have ops: "execute_instructions sample_host 0 sample_block sample_state no_successors p =
      Inr ((None, \<lparr>active = [sample_state\<lparr>m_pc := 0x2000\<rparr>], exited_states = []\<rparr>), p)" for p
    by (simp add: sample_block_def execute_instruction_def pcodeop_defs exec_branch_def no_out_in1_def sample_host_def
      sample_sleigh_def xbnd_def bnd_def ret_def on_ctx_def set_pc_def update_def push_and_drop_def get_state_def gets_def
      push_active_def drop_state_def no_successors_def)
  have tr: "csleigh_translate (h_sleigh sample_host) d n a = Some sample_block" for d n a
    by (simp add: sample_host_def sample_sleigh_def)
  have pc: "m_pc sample_state = 0x1000" and linked: "m_linked_functions sample_state 0x1000 = None"
    by (simp_all add: sample_state_def)
  have lift: "lift_code sample_host sample_state p = Inr (sample_block, p\<lparr>p_blocks := (p_blocks p)(0x1000 \<mapsto> sample_block)\<rparr>)"
  proof (cases "p_blocks p 0x1000")
    case None
    then show ?thesis unfolding lift_code_def lift_block_def pc code option.case prod.case tr by simp
  next
    case (Some b)
    with assms have b: "p_blocks p 0x1000 = Some sample_block" by (simp add: sample_processes_def)
    have "p\<lparr>p_blocks := (p_blocks p)(0x1000 \<mapsto> sample_block)\<rparr> = p" using b by (simp add: map_upd_triv)
    with b show ?thesis unfolding lift_code_def lift_block_def pc code option.case prod.case tr by simp
  qed
  have ne: "sample_block = [] \<longleftrightarrow> False" by (simp add: sample_block_def)
  show ?thesis
    unfolding execute_basic_block_def pc linked option.case bnd_def lift sum.case prod.case ne if_False ops ret_def ..
qed

lemma sample_run: "execute_basic_block sample_host 0 sample_state sample_process =
    Inr (\<lparr>active = [sample_state\<lparr>m_pc := 0x2000\<rparr>], exited_states = []\<rparr>, sample_process\<lparr>p_blocks := [0x1000 \<mapsto> sample_block]\<rparr>)"
  using sample_run_in[of sample_process] by (simp add: sample_processes_def sample_process_def)

lemma eval_true: "evaluate A (BoolConst True) asg mc b = Inr (BoolConst True, b)"
  by (simp add: evaluate_def evaluate_inner.simps[of A asg mc "BoolConst True"] cached_def evaluate_node_def bnd_def ret_def)

lemma sample_sat: "state_satisfiable sample_host (sample_state\<lparr>m_pc := a\<rparr>, p) = Inr (SAT, (sample_state\<lparr>m_pc := a\<rparr>, p))"
  by (simp add: state_satisfiable_def in_solver_def satisfiable_def manager_pi_all_def bnd_def get_solver_def in_world_def
    cm_pi_all_def in_builder_def mk_true_def ret_def building_def eval_true sample_state_def Solver_init_def
    ConstraintManager_init_def is_true_const_def)

text \<open>The two runs of the breadth-first manager on it.\<close>

lemma sample_machine:
  "x_run (naaz_machine sample_host 0) sample_state sample_process =
     Inr (([sample_state\<lparr>m_pc := 0x2000\<rparr>], []), sample_process\<lparr>p_blocks := [0x1000 \<mapsto> sample_block]\<rparr>)"
  "x_check (naaz_machine sample_host 0) (sample_state\<lparr>m_pc := a\<rparr>) p = Inr ((SAT, sample_state\<lparr>m_pc := a\<rparr>), p)"
  "x_pc (naaz_machine sample_host 0) = m_pc"
  by (simp_all add: naaz_run naaz_check sample_sat naaz_pc sample_run)

lemma sample_next: "p_next bfs (queue_init s) = Some (s, (queue_init s)\<lparr>m_active := []\<rparr>)"
  "p_next bfs ((queue_init s)\<lparr>m_active := []\<rparr>) = None" "p_add bfs [] q = Inr q"
  by (simp_all add: bfs_def pop_back_def queue_init_def bfs_add_actives_def)

lemma sample_found: "explore_with BFS R V (naaz_machine sample_host 0) [0x2000] [] sample_state sample_process =
    Some (Inr (Some (sample_state\<lparr>m_pc := 0x2000\<rparr>), sample_process\<lparr>p_blocks := [0x1000 \<mapsto> sample_block]\<rparr>))"
  by (simp add: explore_with_def explore_def explore_loop.simps sample_next sample_machine result_of_def bnd_def ret_def)

lemma sample_avoided: "explore_with BFS R V (naaz_machine sample_host 0) [0x3000] [0x2000] sample_state sample_process =
    Some (Inr (None, sample_process\<lparr>p_blocks := [0x1000 \<mapsto> sample_block]\<rparr>))"
  by (simp add: explore_with_def explore_def explore_loop.simps[of _ _ _ _ "queue_init _"]
    explore_loop.simps[of _ _ _ _ "_\<lparr>m_active := []\<rparr>"] sample_next sample_machine result_of_def bnd_def ret_def)

theorem exploration_sound_witness:
  "\<exists>s u q. explored (naaz_machine sample_host 0) (set [0x2000]) (set []) sample_state s \<and>
    (\<exists>p1 succ p2. execute_basic_block sample_host 0 s p1 = Inr (succ, p2) \<and> u \<in> set (active succ)) \<and>
    m_pc u \<in> set [0x2000] \<and> state_satisfiable sample_host (u, q) =
      Inr (SAT, (sample_state\<lparr>m_pc := 0x2000\<rparr>, sample_process\<lparr>p_blocks := [0x1000 \<mapsto> sample_block]\<rparr>)) \<and>
    m_pc (sample_state\<lparr>m_pc := 0x2000\<rparr>) = m_pc u"
  by (rule exploration_sound[OF sample_found])

theorem exploration_complete_witness:
  "\<exists>D q. (sample_state, q) \<in> D \<and> (\<forall>(s, q)\<in>D. \<exists>succ q'. execute_basic_block sample_host 0 s q = Inr (succ, q') \<and>
    (\<forall>t\<in>set (active succ). if m_pc t \<in> set [0x3000]
       then \<exists>v r v'. state_satisfiable sample_host (t, v) = Inr (r, v') \<and> r \<noteq> SAT
       else m_pc t \<in> set [0x2000] \<or> (\<exists>v. (t, v) \<in> D)))"
  by (rule exploration_complete[OF sample_avoided])

text \<open>The closed sets of the sample.\<close>

lemma sample_closed:
  "closed_under (naaz_machine sample_host 0) F {0x2000} {sample_state} sample_processes"
proof -
  have W: "p\<lparr>p_blocks := (p_blocks p)(0x1000 \<mapsto> sample_block)\<rparr> \<in> sample_processes" for p :: "meaning process"
    by (simp add: sample_processes_def)
  show ?thesis
    by (auto simp: closed_under_def naaz_run sample_run_in W naaz_pc sample_machine(2))
qed

theorem exploration_ends_witness:
  "explore_with Cov \<lparr>rand_max = 1, r_srand = (\<lambda>_. ()), r_rand = (\<lambda>r. (0, r))\<rparr> (naaz_view sample_host) (naaz_machine sample_host 0)
     [0x3000] [0x2000] sample_state sample_process \<noteq> None"
proof (rule exploration_ends)
  show "closed_under (naaz_machine sample_host 0) (set [0x3000]) (set [0x2000]) {sample_state} sample_processes"
    using sample_closed[of "{0x3000}"] by simp
  have "tree (naaz_machine sample_host 0) {sample_state} sample_processes = {}"
  proof -
    have "sample_state \<noteq> sample_state\<lparr>m_pc := 0x2000\<rparr>" by (simp add: sample_state_def)
    then show ?thesis by (auto simp: tree_def naaz_run sample_run_in)
  qed
  then show "wf (tree (naaz_machine sample_host 0) {sample_state} sample_processes)" by simp
  show "sample_state \<in> {sample_state}" by simp
  show "sample_process \<in> sample_processes" by (simp add: sample_processes_def sample_process_def)
qed

theorem bfs_finds_goal_witness:
  "\<exists>t p'. explore_with BFS \<lparr>rand_max = 1, r_srand = (\<lambda>_. ()), r_rand = (\<lambda>r. (0, r))\<rparr> (naaz_view sample_host)
     (naaz_machine sample_host 0) [0x2000] [0x2000] sample_state sample_process = Some (Inr (Some t, p'))"
proof (rule bfs_finds_goal[where S = "{sample_state}" and W = sample_processes and k = 0])
  show "closed_under (naaz_machine sample_host 0) (set [0x2000]) (set [0x2000]) {sample_state} sample_processes"
    using sample_closed[of "{0x2000}"] by simp
  show "total_on (naaz_machine sample_host 0) (set [0x2000]) {sample_state} sample_processes"
    by (auto simp: total_on_def naaz_run sample_run_in naaz_pc sample_machine(2))
  show "leads (naaz_machine sample_host 0) (set [0x2000]) (set [0x2000]) sample_processes 0 sample_state"
    by (auto simp: naaz_run sample_run_in goal_def naaz_pc sample_machine(2))
qed (simp_all add: sample_processes_def sample_process_def)

end
