(* ===== verification/ExecutorSpec.thy ===== *)
theory ExecutorSpec
  imports Executor SolverInv
begin

text \<open>
  Rules for the layers of the interpreter (the context, the state, the process and its builder), what an operation on two
  values writes, and what a conditional jump does to the constraints of the path.
\<close>

section \<open>Layers\<close>

text \<open>The process with another state of the builder.\<close>

abbreviation with_builder :: "builder \<Rightarrow> 'z process \<Rightarrow> 'z process" where
  "with_builder b p \<equiv> p\<lparr>p_world := (p_world p)\<lparr>w_builder := b\<rparr>\<rparr>"

definition process_ok :: "amb \<Rightarrow> 'z process \<Rightarrow> bool" where
  "process_ok A p \<longleftrightarrow> world_ok A (p_world p)"

lemma process_ok_builder: "process_ok A p \<Longrightarrow> binv A b \<Longrightarrow> process_ok A (with_builder b p)"
  by (simp add: process_ok_def world_ok_def)

lemma xbnd_Some: "m s = Inr (Some x, s') \<Longrightarrow> xbnd m f s = f x s'"
  by (simp add: xbnd_def bnd_def)

lemma xbnd_to: "m s = Inr (Some x, s') \<Longrightarrow> f x s' = r \<Longrightarrow> xbnd m f s = r"
  by (simp add: xbnd_Some)

lemma on_ctx_run: "op (c_state c, p) = Inr (r, (s', p')) \<Longrightarrow> on_ctx op (c, p) = Inr (r, (c\<lparr>c_state := s'\<rparr>, p'))"
  by (simp add: on_ctx_def)

lemma build_run: "f (w_builder (p_world p)) = Inr (e, b) \<Longrightarrow> build f (s, p) = Inr (Some e, (s, with_builder b p))"
  by (simp add: build_def always_def bnd_def ret_def in_solver_def building_def in_world_def in_builder_def)

lemma builder_run: "f (w_builder (p_world p)) = Inr (e, b) \<Longrightarrow> building_c f (c, p) = Inr (Some e, (c, with_builder b p))"
  by (simp add: building_c_def on_ctx_def build_run)

lemma builds_run:
  assumes "builds A f P" "process_ok A p"
  obtains e b where "building_c f (c, p) = Inr (Some e, (c, with_builder b p))" "process_ok A (with_builder b p)" "P e"
proof -
  have "binv A (w_builder (p_world p))" using assms(2) by (simp add: process_ok_def world_ok_def)
  then obtain e b where r: "f (w_builder (p_world p)) = Inr (e, b)" "binv A b" "P e" by (rule buildsE[OF assms(1)])
  show ?thesis using that builder_run[of f p e b c] process_ok_builder[OF assms(2) r(2)] r by blast
qed

section \<open>Operations on two values\<close>

lemma exec_binary_run:
  assumes "op_output op = Some out" "op_inputs op = [a, b]"
    and "resolve_varnode H a (c, p) = Inr (Some x, (c1, p1))" "resolve_varnode H b (c1, p1) = Inr (Some y, (c2, p2))"
    and "builds A (f a x y) P" "process_ok A p2"
  shows "\<exists>v bl. exec_binary H op f (c, p) = write_to_varnode H out v (c2, with_builder bl p2) \<and>
    process_ok A (with_builder bl p2) \<and> P v"
proof -
  obtain v bl where v: "building_c (f a x y) (c2, p2) = Inr (Some v, (c2, with_builder bl p2))"
    "process_ok A (with_builder bl p2)" "P v" by (rule builds_run[OF assms(5,6)])
  have "exec_binary H op f (c, p) = write_to_varnode H out v (c2, with_builder bl p2)"
    using assms(1-4) v(1) by (simp add: exec_binary_def out_in2_def xbnd_def bnd_def)
  with v show ?thesis by blast
qed

lemma as_byte_denotes: "builds A f (asserts A v) \<Longrightarrow> builds A (as_byte A f) (denotes A 8 (\<lambda>\<rho>. of_bool (v \<rho>)))"
  unfolding as_byte_def
proof (rule builds_bnd)
  fix x
  assume "asserts A v x"
  then have "formula x" "\<And>\<rho>. holds (fpl A) \<rho> x = v \<rho>" by (auto simp: asserts_def formula_def)
  with bool_to_bv_denotes[of x A] show "builds A (bool_to_bv A x) (denotes A 8 (\<lambda>\<rho>. of_bool (v \<rho>)))" by simp
qed

lemma bool2_denotes:
  assumes "operand n x" "operand m y"
    and "\<And>a b. formula a \<Longrightarrow> formula b \<Longrightarrow> builds A (f A a b) (asserts A (\<lambda>\<rho>. g (holds (fpl A) \<rho> a) (holds (fpl A) \<rho> b)))"
  shows "builds A (op_bool2 A f x y) (denotes A 8 (\<lambda>\<rho>. of_bool (g (sem (fpl A) \<rho> x \<noteq> 0) (sem (fpl A) \<rho> y \<noteq> 0))))"
  unfolding op_bool2_def
proof (rule as_byte_denotes, rule builds_bnd[OF bv_to_bool_asserts[OF assms(1)]], rule builds_bnd[OF bv_to_bool_asserts[OF assms(2)]])
  fix a b
  assume a: "asserts A (\<lambda>\<rho>. sem (fpl A) \<rho> x \<noteq> 0) a" and b: "asserts A (\<lambda>\<rho>. sem (fpl A) \<rho> y \<noteq> 0) b"
  then have "formula a" "formula b" by (simp_all add: asserts_def formula_def)
  from assms(3)[OF this] a b
  show "builds A (f A a b) (asserts A (\<lambda>\<rho>. g (sem (fpl A) \<rho> x \<noteq> 0) (sem (fpl A) \<rho> y \<noteq> 0)))"
    by (simp add: asserts_def)
qed

text \<open>The meaning of the operations of p-code, on unsigned values of \<open>n\<close> bits: the carry of the sum is whether it leaves the \<open>n\<close>
  bits, the signed carry and borrow are whether the sum and the difference of the signed values leave the signed range.\<close>

definition in_signed :: "nat \<Rightarrow> int \<Rightarrow> bool" where
  "in_signed n v \<longleftrightarrow> - (2 ^ (n - 1)) \<le> v \<and> v < 2 ^ (n - 1)"

definition int_value :: "opcode \<Rightarrow> nat \<Rightarrow> int \<Rightarrow> int \<Rightarrow> int" where
  "int_value opc n x y = (case opc of
     CPUI_INT_ADD \<Rightarrow> (x + y) mod 2 ^ n | CPUI_INT_SUB \<Rightarrow> (x - y) mod 2 ^ n | CPUI_INT_MULT \<Rightarrow> (x * y) mod 2 ^ n
   | CPUI_INT_AND \<Rightarrow> x AND y | CPUI_INT_OR \<Rightarrow> x OR y | CPUI_INT_XOR \<Rightarrow> x XOR y
   | CPUI_INT_LEFT \<Rightarrow> (x * 2 ^ nat y) mod 2 ^ n | CPUI_INT_RIGHT \<Rightarrow> x div 2 ^ nat y
   | CPUI_INT_SRIGHT \<Rightarrow> (sval n x div 2 ^ nat y) mod 2 ^ n
   | CPUI_INT_EQUAL \<Rightarrow> of_bool (x = y) | CPUI_INT_NOTEQUAL \<Rightarrow> of_bool (x \<noteq> y)
   | CPUI_INT_LESS \<Rightarrow> of_bool (x < y) | CPUI_INT_LESSEQUAL \<Rightarrow> of_bool (x \<le> y)
   | CPUI_INT_SLESS \<Rightarrow> of_bool (sval n x < sval n y) | CPUI_INT_SLESSEQUAL \<Rightarrow> of_bool (sval n x \<le> sval n y)
   | CPUI_BOOL_AND \<Rightarrow> of_bool (x \<noteq> 0 \<and> y \<noteq> 0) | CPUI_BOOL_OR \<Rightarrow> of_bool (x \<noteq> 0 \<or> y \<noteq> 0)
   | CPUI_INT_CARRY \<Rightarrow> of_bool (x + y \<ge> 2 ^ n)
   | CPUI_INT_SCARRY \<Rightarrow> of_bool (\<not> in_signed n (sval n x + sval n y))
   | CPUI_INT_SBORROW \<Rightarrow> of_bool (\<not> in_signed n (sval n x - sval n y))
   | _ \<Rightarrow> 0)"

text \<open>The operations on two integers the interpreter executes as p-code defines them. Of those it executes, three are missing:
  \<open>INT_CARRY\<close> and \<open>INT_SCARRY\<close>, which it computes as something else, and \<open>INT_SRIGHT\<close>, whose nodes report the kind of a logical shift.\<close>

definition int_ops :: "opcode set" where
  "int_ops = {CPUI_INT_ADD, CPUI_INT_SUB, CPUI_INT_MULT, CPUI_INT_AND, CPUI_INT_OR, CPUI_INT_XOR, CPUI_INT_LEFT, CPUI_INT_RIGHT,
     CPUI_INT_EQUAL, CPUI_INT_NOTEQUAL, CPUI_INT_LESS, CPUI_INT_LESSEQUAL, CPUI_INT_SLESS, CPUI_INT_SLESSEQUAL,
     CPUI_BOOL_AND, CPUI_BOOL_OR, CPUI_INT_SBORROW}"

definition shift_ops :: "opcode set" where
  "shift_ops = {CPUI_INT_LEFT, CPUI_INT_RIGHT}"

definition word_ops :: "opcode set" where
  "word_ops = {CPUI_INT_ADD, CPUI_INT_SUB, CPUI_INT_MULT, CPUI_INT_AND, CPUI_INT_OR, CPUI_INT_XOR} \<union> shift_ops"

text \<open>What the simplifications of the builder ask of the operands, the first of \<open>n\<close> bits and the second of \<open>m\<close>. An amount may be
  narrower than what it shifts; it is extended to the size of the first varnode.\<close>

definition int_ok :: "opcode \<Rightarrow> varnode \<Rightarrow> nat \<Rightarrow> nat \<Rightarrow> expr \<Rightarrow> expr \<Rightarrow> bool" where
  "int_ok opc a n m x y \<longleftrightarrow>
     (if opc \<in> shift_ops then n = vn_size a * 8 \<and> m \<le> n \<and> shift_ok n x y else m = n) \<and>
     (opc = CPUI_INT_ADD \<longrightarrow> length (add_els x @ add_els y) < 2 ^ 31) \<and>
     (opc \<in> {CPUI_INT_SUB, CPUI_INT_SBORROW} \<longrightarrow> (neg_ok y \<or> dest_const x \<noteq> None) \<and> length (add_els x) < 2 ^ 31 - 1) \<and>
     (opc \<in> {CPUI_INT_EQUAL, CPUI_INT_NOTEQUAL} \<longrightarrow> eq_ok x) \<and>
     (opc \<in> {CPUI_INT_SLESS, CPUI_INT_SLESSEQUAL} \<longrightarrow> n \<le> 64 \<or> dest_const x = None \<or> dest_const y = None)"

text \<open>Rules for two nodes whose values are known.\<close>

lemma on_denotes:
  assumes "\<And>x y. operand n x \<Longrightarrow> operand n y \<Longrightarrow> builds A (f A x y) (denotes A n (\<lambda>\<rho>. g (sem (fpl A) \<rho> x) (sem (fpl A) \<rho> y)))"
    and "denotes A n v x" "denotes A n w y"
  shows "builds A (f A x y) (denotes A n (\<lambda>\<rho>. g (v \<rho>) (w \<rho>)))"
  by (rule denotes_cong[OF assms(1)]) (use assms(2,3) in \<open>auto simp: denotes_operand denotes_sem\<close>)

lemma xor_denotes: "denotes A n v x \<Longrightarrow> denotes A n w y \<Longrightarrow> builds A (mk_xor A x y) (denotes A n (\<lambda>\<rho>. v \<rho> XOR w \<rho>))"
  by (rule on_denotes) (rule mk_xor_denotes)

lemma and_denotes: "denotes A n v x \<Longrightarrow> denotes A n w y \<Longrightarrow> builds A (mk_and A x y) (denotes A n (\<lambda>\<rho>. v \<rho> AND w \<rho>))"
  by (rule on_denotes) (rule mk_and_denotes)

lemma sign_bit_denotes:
  assumes "denotes A n v x"
  shows "builds A (sign_bit A x) (denotes A 1 (\<lambda>\<rho>. of_bool (bit (v \<rho>) (n - 1))))"
proof -
  have x: "operand n x" "expr_size x = n" "0 < n" using denotes_operand[OF assms] by (auto dest: operandD)
  have "builds A (mk_extract A x (n - 1) (n - 1)) (denotes A (n - 1 - (n - 1) + 1) (\<lambda>\<rho>. bits_of (n - 1) (n - 1) (sem (fpl A) \<rho> x)))"
    by (rule mk_extract_denotes[OF x(1)]) (use x(3) in \<open>simp_all add: extract_ok_bit\<close>)
  then show ?thesis
    using x(2,3) denotes_sem[OF assms] by (simp add: sign_bit_def sign_bit_value[unfolded One_nat_def])
qed

text \<open>A shift: the amount is extended first, and stays a constant or none.\<close>

lemma mk_zext_node:
  assumes "operand m e" "m \<le> n" "dest_const e = None"
  shows "builds A (mk_zext A e n) (\<lambda>r. denotes A n (\<lambda>\<rho>. sem (fpl A) \<rho> e) r \<and> dest_const r = None)"
proof -
  have s: "expr_size e = m" using assms(1) by (auto dest: operandD)
  consider "m = n" | k e' where "m < n" "e = ZextExpr e' k" | "m < n" "kind e \<notin> {K_CONST, K_ZEXT}"
    using assms(2,3) by (cases e) force+
  then show ?thesis
  proof cases
    case 1
    with assms s show ?thesis by (auto simp: mk_zext_def operand_self)
  next
    case 2
    with assms s show ?thesis
      by (auto simp: mk_zext_def operand_def denotes_def dest_const_def intro!: get_or_create_builds)
  next
    case 3
    with s have "mk_zext A e n = get_or_create A (ZextExpr e n)" by (cases e) (simp_all add: mk_zext_def)
    with 3 assms s show ?thesis
      by (auto simp: operand_def denotes_def dest_const_def intro!: get_or_create_builds)
  qed
qed

lemma shl_val_eq: "0 \<le> y \<Longrightarrow> shl_val n x y = (x * 2 ^ nat y) mod 2 ^ n"
proof (cases "y \<ge> int n")
  case True
  then have "(2 :: int) ^ n dvd x * 2 ^ nat y" by (intro dvd_mult le_imp_power_dvd) simp
  then show ?thesis using True by (simp add: shl_val_def mod_eq_0_iff_dvd)
qed (simp add: shl_val_def push_bit_eq_mult take_bit_eq_mod)

lemma lshr_val_eq: "0 \<le> x \<Longrightarrow> x < 2 ^ n \<Longrightarrow> 0 \<le> y \<Longrightarrow> lshr_val n x y = x div 2 ^ nat y"
proof (cases "y \<ge> int n")
  case True
  assume x: "0 \<le> x" "x < 2 ^ n"
  have "(2 :: int) ^ n \<le> 2 ^ nat y" using True by (intro power_increasing) auto
  with x(2) have "x < 2 ^ nat y" by linarith
  then show ?thesis using True x(1) by (simp add: lshr_val_def div_pos_pos_trivial)
qed (simp add: lshr_val_def drop_bit_eq_div)

lemma op_shift_denotes:
  assumes "\<And>v. operand n v \<Longrightarrow> shift_ok n x v \<Longrightarrow> builds A (f A x v) (denotes A n (\<lambda>\<rho>. g (sem (fpl A) \<rho> x) (sem (fpl A) \<rho> v)))"
    and "operand m y" "m \<le> n" "n = vn_size a * 8" "shift_ok n x y"
  shows "builds A (op_shift A f a x y) (denotes A n (\<lambda>\<rho>. g (sem (fpl A) \<rho> x) (sem (fpl A) \<rho> y)))"
proof -
  have then_shift: "builds A (f A x v) (denotes A n (\<lambda>\<rho>. g (sem (fpl A) \<rho> x) (sem (fpl A) \<rho> y)))"
    if "denotes A n (\<lambda>\<rho>. sem (fpl A) \<rho> y) v" "shift_ok n x v" for v
    by (rule denotes_cong[OF assms(1)]) (use that in \<open>simp_all add: denotes_operand denotes_sem\<close>)
  show ?thesis
    unfolding op_shift_def
  proof (cases "dest_const y")
    case None
    show "builds A (bnd (mk_zext A y (vn_size a * 8)) (f A x)) (denotes A n (\<lambda>\<rho>. g (sem (fpl A) \<rho> x) (sem (fpl A) \<rho> y)))"
      unfolding assms(4)[symmetric]
      by (rule builds_bnd[OF mk_zext_node[OF assms(2,3) None] then_shift]) (simp_all add: shift_ok_def)
  next
    case (Some k)
    then have y: "y = ConstExpr k" by simp
    show "builds A (bnd (mk_zext A y (vn_size a * 8)) (f A x)) (denotes A n (\<lambda>\<rho>. g (sem (fpl A) \<rho> x) (sem (fpl A) \<rho> y)))"
      unfolding assms(4)[symmetric]
    proof (rule builds_bnd[OF mk_zext_denotes[OF assms(2,3)] then_shift])
      fix v
      assume v: "denotes A n (\<lambda>\<rho>. sem (fpl A) \<rho> y) v"
      then have "bv_val c = bv_val k" if "v = ConstExpr c" for c using denotes_sem[OF v] that y by simp
      with assms(5) y show "shift_ok n x v" by (auto simp: shift_ok_def split: option.splits)
    qed
  qed
qed

text \<open>The signed borrow is read off the signs of the operands and of the difference.\<close>

lemma bit_msb: "0 < n \<Longrightarrow> 0 \<le> v \<Longrightarrow> v < 2 ^ n \<Longrightarrow> bit v (n - 1) \<longleftrightarrow> 2 ^ (n - 1) \<le> (v :: int)"
proof -
  assume n: "0 < n" and v: "0 \<le> v" "v < 2 ^ n"
  have two: "(2 :: int) ^ n = 2 * 2 ^ (n - 1)" using n by (cases n) simp_all
  have "v div 2 ^ (n - 1) = of_bool (2 ^ (n - 1) \<le> v)"
    using v two by (auto simp: div_pos_geq div_pos_pos_trivial)
  then show ?thesis by (simp add: bit_iff_odd)
qed

lemma sign_of_diff:
  assumes "0 < n" "0 \<le> x" "x < 2 ^ n" "0 \<le> y" "y < 2 ^ n"
  shows "\<not> in_signed n (sval n x - sval n y) \<longleftrightarrow>
    bit x (n - 1) \<noteq> bit (take_bit n (x - y)) (n - 1) \<and> bit (take_bit n (x - y)) (n - 1) = bit y (n - 1)"
proof -
  obtain k where k: "n = Suc k" using assms(1) by (cases n) auto
  let ?M = "2 ^ k :: int"
  have M: "2 ^ n = 2 * ?M" "0 < ?M" by (simp_all add: k)
  have t: "take_bit n (x - y) = (if x - y < 0 then x - y + 2 * ?M else x - y)"
  proof (cases "x - y < 0")
    case True
    then have "(x - y) mod (2 * ?M) = (x - y + 2 * ?M) mod (2 * ?M)" by simp
    also have "\<dots> = x - y + 2 * ?M" using assms M True by (intro mod_pos_pos_trivial) auto
    finally show ?thesis using True M by (simp add: take_bit_eq_mod)
  qed (use assms M in \<open>simp add: take_bit_eq_mod\<close>)
  have b: "bit v k \<longleftrightarrow> ?M \<le> v" if "0 \<le> v" "v < 2 * ?M" for v :: int
    using bit_msb[of n v] that k M by simp
  have s: "sval n v = (if ?M \<le> v then v - 2 * ?M else v)" if "0 \<le> v" "v < 2 * ?M" for v
    using sval_eq_if[OF assms(1), of v] b[OF that] that k M by (simp add: take_bit_int_eq_self)
  have r: "0 \<le> take_bit n (x - y)" "take_bit n (x - y) < 2 * ?M" using M by (simp_all add: flip: M(1))
  show ?thesis
    using assms M b[OF r] b[of x] b[of y] s[of x] s[of y] t unfolding in_signed_def k
    by (auto split: if_splits)
qed

lemma op_sborrow_denotes:
  assumes "operand n x" "operand n y" "neg_ok y \<or> dest_const x \<noteq> None" "length (add_els x) < 2 ^ 31 - 1"
  shows "builds A (op_sborrow A x y) (denotes A 8 (\<lambda>\<rho>. of_bool (\<not> in_signed n (sval n (sem (fpl A) \<rho> x) - sval n (sem (fpl A) \<rho> y)))))"
proof -
  let ?x = "\<lambda>\<rho>. bit (sem (fpl A) \<rho> x) (n - 1)" and ?y = "\<lambda>\<rho>. bit (sem (fpl A) \<rho> y) (n - 1)"
    and ?r = "\<lambda>\<rho>. bit (take_bit n (sem (fpl A) \<rho> x - sem (fpl A) \<rho> y)) (n - 1)"
  have n: "0 < n" using assms(1) by (auto dest: operandD)
  have signs_value: "((of_bool (?x \<rho>) XOR of_bool (?r \<rho>)) AND ((of_bool (?r \<rho>) XOR of_bool (?y \<rho>)) XOR 1) :: int) =
      of_bool (\<not> in_signed n (sval n (sem (fpl A) \<rho> x) - sval n (sem (fpl A) \<rho> y)))" for \<rho>
    using sign_of_diff[OF n, of "sem (fpl A) \<rho> x" "sem (fpl A) \<rho> y"] operand_range[OF assms(1)] operand_range[OF assms(2)] by auto
  have one: "builds A (mk_const_u64 A 1 (expr_size r)) (denotes A 1 (\<lambda>\<rho>. 1))" if "denotes A 1 v r" for r v
    using that by (auto simp: denotes_def intro!: const_u64_denotes)
  note sub = mk_sub_denotes[OF assms]
  note signs = sign_bit_denotes[OF operand_self[OF assms(1)]] sign_bit_denotes[OF operand_self[OF assms(2)]]
  show ?thesis
    unfolding op_sborrow_def
    apply (rule builds_bnd[OF sub], rule builds_bnd[OF signs(1)], rule builds_bnd[OF signs(2)], rule builds_bnd[OF sign_bit_denotes], assumption)
    apply (rule builds_bnd[OF xor_denotes], assumption, assumption, rule builds_bnd[OF xor_denotes], assumption, assumption)
    apply (rule builds_bnd[OF one], assumption, rule builds_bnd[OF xor_denotes], assumption, assumption, rule builds_bnd[OF and_denotes], assumption, assumption)
    apply (rule denotes_cong[OF mk_zext_denotes[OF denotes_operand]], assumption)
    by (simp, simp only: denotes_sem signs_value)
qed

text \<open>What the code writes for the two carries: the comparison of the operands, and whether the operands have one sign and the
  difference the other. Neither is the carry of the sum.\<close>

lemma op_carry_denotes:
  assumes "operand n x" "operand n y"
  shows "builds A (op_carry A x y) (denotes A 8 (\<lambda>\<rho>. of_bool (sem (fpl A) \<rho> x \<ge> sem (fpl A) \<rho> y)))"
  unfolding op_carry_def by (rule as_byte_denotes[OF mk_unsigned_asserts(4)[OF assms]])

lemma op_scarry_denotes:
  assumes "operand n x" "operand n y" "neg_ok y \<or> dest_const x \<noteq> None" "length (add_els x) < 2 ^ 31 - 1"
  shows "builds A (op_scarry A x y) (denotes A 8 (\<lambda>\<rho>. of_bool (
    bit (sem (fpl A) \<rho> x) (n - 1) = bit (sem (fpl A) \<rho> y) (n - 1) \<and>
    bit (take_bit n (sem (fpl A) \<rho> x - sem (fpl A) \<rho> y)) (n - 1) \<noteq> bit (sem (fpl A) \<rho> x) (n - 1))))"
proof -
  have signs_value: "((of_bool r XOR of_bool a) AND ((of_bool a XOR of_bool b) XOR 1) :: int) = of_bool (a = b \<and> r \<noteq> a)" for a b r
    by auto
  have one: "builds A (mk_const_u64 A 1 (expr_size r)) (denotes A 1 (\<lambda>\<rho>. 1))" if "denotes A 1 v r" for r v
    using that by (auto simp: denotes_def intro!: const_u64_denotes)
  note sub = mk_sub_denotes[OF assms]
  note signs = sign_bit_denotes[OF operand_self[OF assms(1)]] sign_bit_denotes[OF operand_self[OF assms(2)]]
  show ?thesis
    unfolding op_scarry_def
    apply (rule builds_bnd[OF sub], rule builds_bnd[OF signs(1)], rule builds_bnd[OF signs(2)], rule builds_bnd[OF sign_bit_denotes], assumption)
    apply (rule builds_bnd[OF xor_denotes], assumption, assumption, rule builds_bnd[OF xor_denotes], assumption, assumption)
    apply (rule builds_bnd[OF one], assumption, rule builds_bnd[OF xor_denotes], assumption, assumption, rule builds_bnd[OF and_denotes], assumption, assumption)
    apply (rule denotes_cong[OF mk_zext_denotes[OF denotes_operand]], assumption)
    by (simp, simp only: denotes_sem signs_value)
qed

text \<open>Each operation is one function of the builder on the two values.\<close>

lemma int_op_builds:
  assumes "op_code op \<in> int_ops" "operand n x" "operand m y" "int_ok (op_code op) a n m x y"
  obtains f where "\<And>H fuel t. h_amb H = A \<Longrightarrow> execute_pcodeop H fuel t op = exec_binary H op f"
    "builds A (f a x y) (denotes A (if op_code op \<in> word_ops then n else 8)
       (\<lambda>\<rho>. int_value (op_code op) n (sem (fpl A) \<rho> x) (sem (fpl A) \<rho> y)))"
proof -
  note defs = pcodeop_defs int_value_def word_ops_def shift_ops_def Let_def
  show ?thesis
  proof (cases "op_code op \<in> shift_ops")
    case True
    then have sh: "operand m y" "m \<le> n" "n = vn_size a * 8" "shift_ok n x y"
      using assms(3) assms(4)[unfolded int_ok_def if_P[OF True]] by blast+
    have y: "0 \<le> sem (fpl A) \<rho> y" and x: "0 \<le> sem (fpl A) \<rho> x" "sem (fpl A) \<rho> x < 2 ^ n" for \<rho>
      using operand_range[OF assms(3)] operand_range[OF assms(2)] by blast+
    note l = op_shift_denotes[where f = mk_shl and g = "shl_val n", OF mk_shl_denotes[OF assms(2)] sh, of A]
      and r = op_shift_denotes[where f = mk_lshr and g = "lshr_val n", OF mk_lshr_denotes[OF assms(2)] sh, of A]
    consider "op_code op = CPUI_INT_LEFT" | "op_code op = CPUI_INT_RIGHT" using True by (auto simp: shift_ops_def)
    then show ?thesis
    proof cases
      case 1
      with l show ?thesis by (intro that[of "op_shift A mk_shl"]) (simp_all add: defs shl_val_eq y)
    next
      case 2
      with r show ?thesis by (intro that[of "op_shift A mk_lshr"]) (simp_all add: defs lshr_val_eq x y)
    qed
  next
    case False
    then have xy: "operand n x" "operand n y" using assms(2-4) by (simp_all add: int_ok_def)
    note u = mk_unsigned_asserts[OF xy, of A]
    consider "op_code op = CPUI_INT_ADD" | "op_code op = CPUI_INT_SUB" | "op_code op = CPUI_INT_MULT"
      | "op_code op = CPUI_INT_AND" | "op_code op = CPUI_INT_OR" | "op_code op = CPUI_INT_XOR"
      | "op_code op = CPUI_INT_EQUAL" | "op_code op = CPUI_INT_NOTEQUAL" | "op_code op = CPUI_INT_LESS"
      | "op_code op = CPUI_INT_LESSEQUAL" | "op_code op = CPUI_INT_SLESS" | "op_code op = CPUI_INT_SLESSEQUAL"
      | "op_code op = CPUI_BOOL_AND" | "op_code op = CPUI_BOOL_OR" | "op_code op = CPUI_INT_SBORROW"
      using assms(1) False unfolding int_ops_def shift_ops_def by blast
    then show ?thesis
    proof cases
      case 1
      with assms(4) have "length (add_els x @ add_els y) < 2 ^ 31" by (simp add: int_ok_def)
      from mk_add_denotes[OF xy this, of A] 1 show ?thesis by (intro that[of "\<lambda>_. mk_add A"]) (simp_all add: defs take_bit_eq_mod)
    next
      case 2
      with assms(4) have "neg_ok y \<or> dest_const x \<noteq> None" "length (add_els x) < 2 ^ 31 - 1" by (simp_all add: int_ok_def)
      from mk_sub_denotes[OF xy this, of A] 2 show ?thesis by (intro that[of "\<lambda>_. mk_sub A"]) (simp_all add: defs take_bit_eq_mod)
    next
      case 3
      with mk_mul_denotes[OF xy, of A] show ?thesis by (intro that[of "\<lambda>_. mk_mul A"]) (simp_all add: defs take_bit_eq_mod)
    next
      case 4
      with mk_and_denotes[OF xy, of A] show ?thesis by (intro that[of "\<lambda>_. mk_and A"]) (simp_all add: defs)
    next
      case 5
      with mk_or_denotes[OF xy, of A] show ?thesis by (intro that[of "\<lambda>_. mk_or A"]) (simp_all add: defs)
    next
      case 6
      with mk_xor_denotes[OF xy, of A] show ?thesis by (intro that[of "\<lambda>_. mk_xor A"]) (simp_all add: defs)
    next
      case 7
      with assms(4) have "eq_ok x" by (simp add: int_ok_def)
      from as_byte_denotes[OF mk_eq_asserts[OF xy this, of A]] 7 show ?thesis
        by (intro that[of "\<lambda>_ x y. as_byte A (mk_eq A x y)"]) (simp_all add: defs)
    next
      case 8
      with assms(4) have "eq_ok x" by (simp add: int_ok_def)
      from as_byte_denotes[OF mk_neq_asserts[OF xy this, of A]] 8 show ?thesis
        by (intro that[of "\<lambda>_ x y. as_byte A (mk_neq A x y)"]) (simp_all add: defs)
    next
      case 9
      with as_byte_denotes[OF u(1)] show ?thesis by (intro that[of "\<lambda>_ x y. as_byte A (mk_ult A x y)"]) (simp_all add: defs)
    next
      case 10
      with as_byte_denotes[OF u(2)] show ?thesis by (intro that[of "\<lambda>_ x y. as_byte A (mk_ule A x y)"]) (simp_all add: defs)
    next
      case 11
      with assms(4) have "n \<le> 64 \<or> dest_const x = None \<or> dest_const y = None" by (simp add: int_ok_def)
      from as_byte_denotes[OF mk_signed_asserts(1)[OF xy this, of A]] 11 show ?thesis
        by (intro that[of "\<lambda>_ x y. as_byte A (mk_slt A x y)"]) (simp_all add: defs)
    next
      case 12
      with assms(4) have "n \<le> 64 \<or> dest_const x = None \<or> dest_const y = None" by (simp add: int_ok_def)
      from as_byte_denotes[OF mk_signed_asserts(2)[OF xy this, of A]] 12 show ?thesis
        by (intro that[of "\<lambda>_ x y. as_byte A (mk_sle A x y)"]) (simp_all add: defs)
    next
      case 13
      with bool2_denotes[OF xy, where f = mk_bool_and and A = A and g = "(\<and>)", OF mk_bool_and_asserts] show ?thesis
        by (intro that[of "\<lambda>_. op_bool2 A mk_bool_and"]) (simp_all add: defs)
    next
      case 14
      with bool2_denotes[OF xy, where f = mk_bool_or and A = A and g = "(\<or>)", OF mk_bool_or_asserts] show ?thesis
        by (intro that[of "\<lambda>_. op_bool2 A mk_bool_or"]) (simp_all add: defs)
    next
      case 15
      with assms(4) have "neg_ok y \<or> dest_const x \<noteq> None" "length (add_els x) < 2 ^ 31 - 1" by (simp_all add: int_ok_def)
      from op_sborrow_denotes[OF xy this, of A] 15 show ?thesis by (intro that[of "\<lambda>_. op_sborrow A"]) (simp_all add: defs)
    qed
  qed
qed

section \<open>Conditional jumps\<close>

text \<open>The path condition of a solver: the conjunction of its constraints.\<close>

definition path_holds :: "fp_lib \<Rightarrow> (nat \<Rightarrow> int) \<Rightarrow> solver \<Rightarrow> bool" where
  "path_holds F \<rho> v \<longleftrightarrow> (\<forall>d\<in>set (m_constraints (m_manager v)). holds F \<rho> d)"

lemma add_constraint_run:
  assumes "cm_inv (m_manager (m_solver s))" "process_ok (h_amb H) p" "formula c"
  obtains v w where "add_constraint H c (s, p) = Inr (Some (), (s\<lparr>m_solver := v\<rparr>, p\<lparr>p_world := w\<rparr>))"
    "cm_inv (m_manager v)" "process_ok (h_amb H) (p\<lparr>p_world := w\<rparr>)"
    "\<forall>\<rho>. path_holds F \<rho> v \<longleftrightarrow> path_holds F \<rho> (m_solver s) \<and> holds F \<rho> c"
proof -
  let ?s = "m_solver s" and ?w = "p_world p"
  have g: "involved_ok (w_involved ?w)" and b: "binv (h_amb H) (w_builder ?w)"
    using assms(2) by (simp_all add: process_ok_def world_ok_def)
  have "\<exists>cm g. (if is_true_const c then ret () else manager_add (h_amb H) c) (?s, ?w) =
      Inr ((), (?s\<lparr>m_manager := cm\<rparr>, ?w\<lparr>w_involved := g\<rparr>)) \<and> cm_inv cm \<and> involved_ok g \<and>
      (\<forall>\<rho>. (\<forall>d\<in>set (m_constraints cm). holds F \<rho> d) \<longleftrightarrow> path_holds F \<rho> ?s \<and> holds F \<rho> c)"
  proof (cases "c = BoolConst True")
    case True
    with assms(1) g show ?thesis
      by (intro exI[of _ "m_manager ?s"] exI[of _ "w_involved ?w"]) (simp add: ret_def path_holds_def)
  next
    case False
    obtain cm g' where r: "cm_add (h_amb H) c (m_manager ?s) (w_involved ?w) = (cm, g')" "cm_inv cm" "involved_ok g'"
      "set (m_constraints cm) = insert c (set (m_constraints (m_manager ?s)))"
      using cm_add_spec[OF assms(1) g assms(3)] by blast
    have "(\<forall>d\<in>set (m_constraints cm). holds F \<rho> d) \<longleftrightarrow> path_holds F \<rho> ?s \<and> holds F \<rho> c" for \<rho>
      unfolding r(4) path_holds_def by blast
    moreover have "(if is_true_const c then ret () else manager_add (h_amb H) c) (?s, ?w) =
        Inr ((), (?s\<lparr>m_manager := cm\<rparr>, ?w\<lparr>w_involved := g'\<rparr>))"
      using False r(1) by (simp add: manager_add_def)
    ultimately show ?thesis using r(2,3) by blast
  qed
  then obtain cm g' where
    add: "(if is_true_const c then ret () else manager_add (h_amb H) c) (?s, ?w) =
      Inr ((), (?s\<lparr>m_manager := cm\<rparr>, ?w\<lparr>w_involved := g'\<rparr>))"
    and cm: "cm_inv cm" "involved_ok g'"
    and path: "\<forall>\<rho>. (\<forall>d\<in>set (m_constraints cm). holds F \<rho> d) \<longleftrightarrow> path_holds F \<rho> ?s \<and> holds F \<rho> c" by blast
  obtain ids g2 where deps: "get_dependencies cm c g' = (ids, g2)" "involved_ok g2"
    using get_dependencies_spec[OF cm(2)] by blast
  let ?v = "?s\<lparr>m_manager := cm, m_model := fold (\<lambda>i m. m(i := None)) ids (m_model ?s)\<rparr>"
  have run: "solver_add (h_amb H) c (?s, ?w) = Inr ((), (?v, ?w\<lparr>w_involved := g2\<rparr>))"
    using add deps by (simp add: solver_add_def solver_add_inv_def bnd_def dependencies_def get_solver_def set_model_def cong: if_cong)
  show ?thesis
  proof (rule that)
    show "add_constraint H c (s, p) = Inr (Some (), (s\<lparr>m_solver := ?v\<rparr>, p\<lparr>p_world := ?w\<lparr>w_involved := g2\<rparr>\<rparr>))"
      by (simp add: add_constraint_def always_def in_solver_def bnd_def ret_def run)
    show "cm_inv (m_manager ?v)" using cm by simp
    show "process_ok (h_amb H) (p\<lparr>p_world := ?w\<lparr>w_involved := g2\<rparr>\<rparr>)"
      using b deps(2) by (simp add: process_ok_def world_ok_def)
    show "\<forall>\<rho>. path_holds F \<rho> ?v \<longleftrightarrow> path_holds F \<rho> (m_solver s) \<and> holds F \<rho> c"
      using path by (simp add: path_holds_def)
  qed
qed

lemma is_false_holds: "is_false_const c \<Longrightarrow> \<not> holds F \<rho> c"
  by (cases c) (auto simp: is_false_const_def)

text \<open>The fall-through: the constraint is added, or the state is dropped when the condition is the constant false.\<close>

lemma stay_run:
  assumes "cm_inv (m_manager (m_solver (c_state c)))" "process_ok (h_amb H) p" "formula k" "c_alive c"
  obtains v al w where
    "(if \<not> is_false_const k then on_ctx (add_constraint H k) else drop_state) (c, p) =
       Inr (Some (), (c\<lparr>c_alive := al, c_state := (c_state c)\<lparr>m_solver := v\<rparr>\<rparr>, p\<lparr>p_world := w\<rparr>))"
    "process_ok (h_amb H) (p\<lparr>p_world := w\<rparr>)"
    "\<forall>\<rho>. al \<and> path_holds F \<rho> v \<longleftrightarrow> path_holds F \<rho> (m_solver (c_state c)) \<and> holds F \<rho> k"
proof (cases "is_false_const k")
  case True
  then show ?thesis
    using that[where al = False and v = "m_solver (c_state c)" and w = "p_world p"] assms is_false_holds[OF True, of F] by (simp add: drop_state_def)
next
  case False
  obtain v w where "add_constraint H k (c_state c, p) = Inr (Some (), ((c_state c)\<lparr>m_solver := v\<rparr>, p\<lparr>p_world := w\<rparr>))"
    "process_ok (h_amb H) (p\<lparr>p_world := w\<rparr>)"
    "\<forall>\<rho>. path_holds F \<rho> v \<longleftrightarrow> path_holds F \<rho> (m_solver (c_state c)) \<and> holds F \<rho> k"
    using add_constraint_run[OF assms(1-3), of F] by metis
  with False assms(4) show ?thesis using that[where al = True and v = v and w = w] by (simp add: on_ctx_def)
qed

text \<open>The jump: a copy of the state with the constraint is pushed, unless the condition is the constant false.\<close>

lemma leave_run:
  assumes "cm_inv (m_manager (m_solver st))" "process_ok (h_amb H) p" "formula k"
  obtains new w where
    "(if \<not> is_false_const k
      then xbnd (on_other st (xbnd (set_pc a) (\<lambda>_. add_constraint H k))) (\<lambda>(_, other). push_active other)
      else cret ()) (c, p) =
       Inr (Some (), (c\<lparr>c_succ := (c_succ c)\<lparr>active := active (c_succ c) @ new\<rparr>\<rparr>, p\<lparr>p_world := w\<rparr>))"
    "\<forall>s\<in>set new. m_pc s = a" "length new \<le> 1"
    "\<forall>\<rho>. (\<exists>s\<in>set new. path_holds F \<rho> (m_solver s)) \<longleftrightarrow> path_holds F \<rho> (m_solver st) \<and> holds F \<rho> k"
proof (cases "is_false_const k")
  case True
  then show ?thesis
    using that[of "[]" "p_world p"] is_false_holds[OF True, of F] by (simp add: cret_def ret_def)
next
  case False
  have "cm_inv (m_manager (m_solver (st\<lparr>m_pc := a\<rparr>)))" using assms(1) by simp
  then obtain v w where "add_constraint H k (st\<lparr>m_pc := a\<rparr>, p) = Inr (Some (), (st\<lparr>m_pc := a, m_solver := v\<rparr>, p\<lparr>p_world := w\<rparr>))"
    "\<forall>\<rho>. path_holds F \<rho> v \<longleftrightarrow> path_holds F \<rho> (m_solver st) \<and> holds F \<rho> k"
    by (rule add_constraint_run[OF _ assms(2,3), of "st\<lparr>m_pc := a\<rparr>" F]) simp
  with False show ?thesis
    using that[of "[st\<lparr>m_pc := a, m_solver := v\<rparr>]" w]
    by (simp add: on_other_def on_ctx_def on_state_def set_pc_def update_def xbnd_def bnd_def push_active_def)
qed

end
