(* ===== verification/Executor_Properties.thy ===== *)
theory Executor_Properties
  imports ExecutorSpec Exploration_Properties
begin

text \<open>
  The properties of the interpreter: what the operations on two values write, and that a conditional jump splits the path.
\<close>

section \<open>Operations on values\<close>

text \<open>C4: each of these seventeen operations of p-code on two integers writes to its output one expression whose value, for all
  values of the symbols, is the one p-code defines: \<open>INT_ADD\<close>, \<open>INT_SUB\<close> and \<open>INT_MULT\<close> modulo \<open>2^n\<close>; \<open>INT_AND\<close>, \<open>INT_OR\<close> and
  \<open>INT_XOR\<close>; \<open>INT_LEFT\<close> and \<open>INT_RIGHT\<close>, also for an amount narrower than the value; and as a byte \<open>INT_EQUAL\<close>, \<open>INT_NOTEQUAL\<close>,
  \<open>INT_LESS\<close>, \<open>INT_LESSEQUAL\<close>, \<open>INT_SLESS\<close>, \<open>INT_SLESSEQUAL\<close>, \<open>INT_SBORROW\<close>, \<open>BOOL_AND\<close> and \<open>BOOL_OR\<close>. The side conditions
  \<open>int_ok\<close> are those of the builder: fewer than \<open>2^31\<close> terms in a sum, no negation of the least 64-bit constant, and constants wider
  than 64 bits neither as an amount nor on both sides of a signed comparison. Of the other operations on two integers that are
  executed, \<open>INT_CARRY\<close> and \<open>INT_SCARRY\<close> do not compute the carry (\<open>int_carry_wrong\<close>, \<open>int_scarry_wrong\<close>) and \<open>INT_SRIGHT\<close> makes a
  node that reports the wrong kind; no division is executed.\<close>

theorem int_op_correct:
  fixes H :: "'z host"
  assumes "op_code op \<in> int_ops" and "op_output op = Some out" and "op_inputs op = [a, b]"
    and "resolve_varnode H a (c, p) = Inr (Some x, (c1, p1))" and "resolve_varnode H b (c1, p1) = Inr (Some y, (c2, p2))"
    and "operand n x" and "operand m y" and "int_ok (op_code op) a n m x y" and "process_ok (h_amb H) p2"
  shows "\<exists>v b. execute_pcodeop H fuel t op (c, p) = write_to_varnode H out v (c2, with_builder b p2) \<and>
    process_ok (h_amb H) (with_builder b p2) \<and> operand (if op_code op \<in> word_ops then n else 8) v \<and>
    (\<forall>\<rho>. sem (fpl (h_amb H)) \<rho> v = int_value (op_code op) n (sem (fpl (h_amb H)) \<rho> x) (sem (fpl (h_amb H)) \<rho> y))"
proof (rule int_op_builds[OF assms(1,6,7,8), of "h_amb H"])
  fix f
  assume f: "\<And>(H' :: 'z host) fuel t. h_amb H' = h_amb H \<Longrightarrow> execute_pcodeop H' fuel t op = exec_binary H' op f"
    and b: "builds (h_amb H) (f a x y) (denotes (h_amb H) (if op_code op \<in> word_ops then n else 8)
       (\<lambda>\<rho>. int_value (op_code op) n (sem (fpl (h_amb H)) \<rho> x) (sem (fpl (h_amb H)) \<rho> y)))"
  from exec_binary_run[OF assms(2-5), of "h_amb H" f, OF b assms(9)] f[OF refl, of fuel t]
  show ?thesis by (auto simp: denotes_def operand_def)
qed

text \<open>The two carries: the code writes the comparison of the operands for the unsigned one, and a test of the signs of the
  operands and of their difference for the signed one. Both are wrong for \<open>1 + 1\<close> and \<open>1 + 2\<close> in a byte.\<close>

lemma int_carry_wrong:
  fixes H :: "'z host"
  assumes "op_code op = CPUI_INT_CARRY" and "op_output op = Some out" and "op_inputs op = [a, b]"
    and "resolve_varnode H a (c, p) = Inr (Some x, (c1, p1))" and "resolve_varnode H b (c1, p1) = Inr (Some y, (c2, p2))"
    and "operand n x" and "operand n y" and "process_ok (h_amb H) p2"
  shows "\<exists>v b. execute_pcodeop H fuel t op (c, p) = write_to_varnode H out v (c2, with_builder b p2) \<and>
      (\<forall>\<rho>. sem (fpl (h_amb H)) \<rho> v = of_bool (sem (fpl (h_amb H)) \<rho> x \<ge> sem (fpl (h_amb H)) \<rho> y))"
    and "int_value CPUI_INT_CARRY 8 1 1 \<noteq> of_bool ((1 :: int) \<ge> 1)"
proof -
  have "execute_pcodeop H fuel t op = exec_binary H op (\<lambda>_. op_carry (h_amb H))" using assms(1) by (simp add: pcodeop_defs)
  with exec_binary_run[OF assms(2-5), of "h_amb H" "\<lambda>_. op_carry (h_amb H)", OF op_carry_denotes[OF assms(6,7)] assms(8)]
  show "\<exists>v b. execute_pcodeop H fuel t op (c, p) = write_to_varnode H out v (c2, with_builder b p2) \<and>
      (\<forall>\<rho>. sem (fpl (h_amb H)) \<rho> v = of_bool (sem (fpl (h_amb H)) \<rho> x \<ge> sem (fpl (h_amb H)) \<rho> y))"
    by (auto simp: denotes_def)
qed (simp add: int_value_def)

lemma int_scarry_wrong:
  fixes H :: "'z host"
  assumes "op_code op = CPUI_INT_SCARRY" and "op_output op = Some out" and "op_inputs op = [a, b]"
    and "resolve_varnode H a (c, p) = Inr (Some x, (c1, p1))" and "resolve_varnode H b (c1, p1) = Inr (Some y, (c2, p2))"
    and "operand n x" and "operand n y" and "neg_ok y \<or> dest_const x \<noteq> None" and "length (add_els x) < 2 ^ 31 - 1"
    and "process_ok (h_amb H) p2"
  shows "\<exists>v b. execute_pcodeop H fuel t op (c, p) = write_to_varnode H out v (c2, with_builder b p2) \<and>
      (\<forall>\<rho>. sem (fpl (h_amb H)) \<rho> v = of_bool (
        bit (sem (fpl (h_amb H)) \<rho> x) (n - 1) = bit (sem (fpl (h_amb H)) \<rho> y) (n - 1) \<and>
        bit (take_bit n (sem (fpl (h_amb H)) \<rho> x - sem (fpl (h_amb H)) \<rho> y)) (n - 1) \<noteq> bit (sem (fpl (h_amb H)) \<rho> x) (n - 1)))"
    and "int_value CPUI_INT_SCARRY 8 1 2 \<noteq> of_bool (
      bit (1 :: int) 7 = bit (2 :: int) 7 \<and> bit (take_bit 8 (1 - 2 :: int)) 7 \<noteq> bit (1 :: int) 7)"
proof -
  have "execute_pcodeop H fuel t op = exec_binary H op (\<lambda>_. op_scarry (h_amb H))" using assms(1) by (simp add: pcodeop_defs)
  with exec_binary_run[OF assms(2-5), of "h_amb H" "\<lambda>_. op_scarry (h_amb H)", OF op_scarry_denotes[OF assms(6-9)] assms(10)]
  show "\<exists>v b. execute_pcodeop H fuel t op (c, p) = write_to_varnode H out v (c2, with_builder b p2) \<and>
      (\<forall>\<rho>. sem (fpl (h_amb H)) \<rho> v = of_bool (
        bit (sem (fpl (h_amb H)) \<rho> x) (n - 1) = bit (sem (fpl (h_amb H)) \<rho> y) (n - 1) \<and>
        bit (take_bit n (sem (fpl (h_amb H)) \<rho> x - sem (fpl (h_amb H)) \<rho> y)) (n - 1) \<noteq> bit (sem (fpl (h_amb H)) \<rho> x) (n - 1)))"
    by (auto simp: denotes_def)
qed (simp add: int_value_def in_signed_def sval_def bit_simps)

definition sample_ctx :: ctx where
  "sample_ctx = \<lparr>c_state = sample_state, c_alive = True,
     c_tmp = (MapMemory_name Config_init ''tmp'' THROW_ERR)\<lparr>m_memory := [0 \<mapsto> SymExpr 0 8]\<rparr>, c_succ = no_successors\<rparr>"

abbreviation sample_const :: "64 word \<Rightarrow> varnode" where
  "sample_const k \<equiv> \<lparr>vn_space = 3, vn_offset = k, vn_size = 1\<rparr>"

lemma sample_ok: "process_ok sample_env (sample_process :: 'z process)"
  by (simp add: process_ok_def world_ok_def sample_process_def empty_world_def binv_init involved_ok_def)

lemma sample_resolve:
  assumes "process_ok sample_env p"
  shows "\<exists>b e. resolve_varnode sample_host (sample_const k) (c, p) = Inr (Some e, (c, with_builder b p)) \<and>
    process_ok sample_env (with_builder b p) \<and> konst 8 (take_bit 8 (uint k)) e"
proof -
  have "builds sample_env (mk_const_u64 sample_env k 8) (konst 8 (take_bit 8 (uint k)))" by (rule const_u64_konst) simp_all
  then obtain e b where "building_c (mk_const_u64 sample_env k 8) (c, p) = Inr (Some e, (c, with_builder b p))"
    "process_ok sample_env (with_builder b p)" "konst 8 (take_bit 8 (uint k)) e" by (rule builds_run[OF _ assms])
  then show ?thesis by (auto simp: resolve_varnode_def sample_host_def sample_sleigh_def)
qed

lemma konst_small_operand: "konst n w e \<Longrightarrow> 0 < n \<Longrightarrow> operand n e \<and> sem F \<rho> e = w \<and> dest_const e \<noteq> None"
  by (cases e) (auto simp: konst_def operand_def bv_rep_def)

theorem int_op_correct_witness:
  "\<exists>v b. execute_pcodeop sample_host 0 \<lparr>t_address = 0, t_length = 1, t_ops = []\<rparr>
       \<lparr>op_code = CPUI_INT_SUB, op_output = Some \<lparr>vn_space = 2, vn_offset = 8, vn_size = 1\<rparr>,
        op_inputs = [sample_const 3, sample_const 5]\<rparr> (sample_ctx, sample_process) =
     write_to_varnode sample_host \<lparr>vn_space = 2, vn_offset = 8, vn_size = 1\<rparr> v (sample_ctx, with_builder b sample_process) \<and>
   operand 8 v \<and> (\<forall>\<rho>. sem (fpl sample_env) \<rho> v = 254)"
proof -
  let ?op = "\<lparr>op_code = CPUI_INT_SUB, op_output = Some \<lparr>vn_space = 2, vn_offset = 8, vn_size = 1\<rparr>,
        op_inputs = [sample_const 3, sample_const 5]\<rparr>"
  obtain b1 x where x: "resolve_varnode sample_host (sample_const 3) (sample_ctx, sample_process) =
      Inr (Some x, (sample_ctx, with_builder b1 sample_process))" "process_ok sample_env (with_builder b1 (sample_process :: meaning process))" "konst 8 (take_bit 8 (uint (3 :: 64 word))) x"
    using sample_resolve[OF sample_ok, of 3 sample_ctx] by (elim exE conjE) (rule that)
  obtain b2 y where y: "resolve_varnode sample_host (sample_const 5) (sample_ctx, with_builder b1 sample_process) =
      Inr (Some y, (sample_ctx, with_builder b2 (with_builder b1 sample_process)))"
      "process_ok sample_env (with_builder b2 (with_builder b1 (sample_process :: meaning process)))" "konst 8 (take_bit 8 (uint (5 :: 64 word))) y"
    using sample_resolve[OF x(2), of 5 sample_ctx] by (elim exE conjE) (rule that)
  note kx = konst_small_operand[OF x(3), of "fpl sample_env"] and ky = konst_small_operand[OF y(3), of "fpl sample_env"]
  have els: "add_els x = [x]" using kx by (cases x) (simp_all add: add_els_def)
  have ok: "int_ok (op_code ?op) (sample_const 3) 8 8 x y" using kx els by (simp add: int_ok_def shift_ops_def)
  have A: "h_amb sample_host = sample_env" by (simp add: sample_host_def)
  let ?out = "\<lparr>vn_space = 2, vn_offset = 8, vn_size = 1\<rparr> :: varnode" and ?t = "\<lparr>t_address = 0, t_length = 1, t_ops = []\<rparr>"
  have "\<exists>v b. execute_pcodeop sample_host 0 ?t ?op (sample_ctx, sample_process) =
      write_to_varnode sample_host ?out v (sample_ctx, with_builder b (with_builder b2 (with_builder b1 sample_process))) \<and>
    process_ok (h_amb sample_host) (with_builder b (with_builder b2 (with_builder b1 (sample_process :: meaning process)))) \<and>
    operand (if op_code ?op \<in> word_ops then 8 else 8) v \<and>
    (\<forall>\<rho>. sem (fpl (h_amb sample_host)) \<rho> v =
       int_value (op_code ?op) 8 (sem (fpl (h_amb sample_host)) \<rho> x) (sem (fpl (h_amb sample_host)) \<rho> y))"
    by (rule int_op_correct[OF _ _ _ x(1) y(1) _ _ ok]) (use kx ky y(2) A in \<open>simp_all add: int_ops_def\<close>)
  then obtain v b where v: "execute_pcodeop sample_host 0 ?t ?op (sample_ctx, sample_process) =
      write_to_varnode sample_host ?out v (sample_ctx, with_builder b (with_builder b2 (with_builder b1 sample_process)))"
    "operand 8 v" "\<forall>\<rho>. sem (fpl sample_env) \<rho> v = 254"
    using kx ky A by (auto simp: int_value_def)
  have "with_builder b (with_builder b2 (with_builder b1 sample_process)) = with_builder b (sample_process :: meaning process)" by simp
  with v show ?thesis by metis
qed

section \<open>Conditional jumps\<close>

text \<open>C3: with lazy solving, the default, a conditional jump splits the path into two: for every value of the symbols that
  satisfies the constraints of the state, exactly one of the two successors has its constraints satisfied, the one at the
  destination of the jump if the condition is not zero, and the one that goes on otherwise. No value is lost and none is
  gained.\<close>

theorem cbranch_splits:
  fixes H :: "'z host"
  assumes "lazy_solving (h_cfg H)" and "op_code op = CPUI_CBRANCH" and "op_output op = None" and "op_inputs op = [a, b]"
    and "vn_space a = ram_space_id (h_sleigh H)" and "resolve_varnode H b (c, p) = Inr (Some e, (c1, p1))"
    and "operand n e" and "c_alive c1" and "process_ok (h_amb H) p1" and "cm_inv (m_manager (m_solver (c_state c1)))"
  shows "\<exists>new c' p'. execute_pcodeop H fuel t op (c, p) = Inr (Some (), (c', p')) \<and>
    active (c_succ c') = active (c_succ c1) @ new \<and> length new \<le> 1 \<and> (\<forall>s\<in>set new. m_pc s = vn_offset a) \<and>
    (\<forall>\<rho>. (\<exists>s\<in>set new. path_holds (fpl (h_amb H)) \<rho> (m_solver s)) \<longleftrightarrow>
       path_holds (fpl (h_amb H)) \<rho> (m_solver (c_state c1)) \<and> sem (fpl (h_amb H)) \<rho> e \<noteq> 0) \<and>
    (\<forall>\<rho>. c_alive c' \<and> path_holds (fpl (h_amb H)) \<rho> (m_solver (c_state c')) \<longleftrightarrow>
       path_holds (fpl (h_amb H)) \<rho> (m_solver (c_state c1)) \<and> sem (fpl (h_amb H)) \<rho> e = 0)"
proof -
  let ?A = "h_amb H" and ?F = "fpl (h_amb H)"
  obtain k b1 where k: "building_c (bv_to_bool ?A e) (c1, p1) = Inr (Some k, (c1, with_builder b1 p1))"
    "process_ok ?A (with_builder b1 p1)" "asserts ?A (\<lambda>\<rho>. sem ?F \<rho> e \<noteq> 0) k"
    by (rule builds_run[OF bv_to_bool_asserts[OF assms(7)] assms(9)])
  have fk: "formula k" "\<And>\<rho>. holds ?F \<rho> k \<longleftrightarrow> sem ?F \<rho> e \<noteq> 0" using k(3) by (auto simp: asserts_def formula_def)
  then have wk: "wf_expr k" "is_bool k" by (simp_all add: formula_def)
  obtain nk b2 where nk: "building_c (mk_bool_not ?A k) (c1, with_builder b1 p1) = Inr (Some nk, (c1, with_builder b2 (with_builder b1 p1)))"
    "process_ok ?A (with_builder b2 (with_builder b1 p1))" "asserts ?A (\<lambda>\<rho>. sem ?F \<rho> k = 0) nk"
    by (rule builds_run[OF mk_bool_not_asserts[OF wk] k(2)])
  have fn: "formula nk" "\<And>\<rho>. holds ?F \<rho> nk \<longleftrightarrow> sem ?F \<rho> e = 0"
    using nk(3) fk(2) by (auto simp: asserts_def formula_def)
  let ?st = "State_clone (c_state c1)"
  have inv: "cm_inv (m_manager (m_solver ?st))" and same: "m_solver ?st = m_solver (c_state c1)"
    using assms(10) by (simp_all add: State_clone_def)
  obtain v al w where stay: "(if \<not> is_false_const nk then on_ctx (add_constraint H nk) else drop_state) (c1, with_builder b2 (with_builder b1 p1)) =
       Inr (Some (), (c1\<lparr>c_alive := al, c_state := (c_state c1)\<lparr>m_solver := v\<rparr>\<rparr>, with_builder b2 (with_builder b1 p1)\<lparr>p_world := w\<rparr>))"
    "process_ok ?A (with_builder b2 (with_builder b1 p1)\<lparr>p_world := w\<rparr>)"
    "\<forall>\<rho>. al \<and> path_holds ?F \<rho> v \<longleftrightarrow> path_holds ?F \<rho> (m_solver (c_state c1)) \<and> holds ?F \<rho> nk"
    by (rule stay_run[OF assms(10) nk(2) fn(1) assms(8), of ?F])
  let ?c = "c1\<lparr>c_alive := al, c_state := (c_state c1)\<lparr>m_solver := v\<rparr>\<rparr>" and ?p = "with_builder b2 (with_builder b1 p1)\<lparr>p_world := w\<rparr>"
  obtain new w' where leave: "(if \<not> is_false_const k
      then xbnd (on_other ?st (xbnd (set_pc (vn_offset a)) (\<lambda>_. add_constraint H k))) (\<lambda>(_, other). push_active other)
      else cret ()) (?c, ?p) =
       Inr (Some (), (?c\<lparr>c_succ := (c_succ ?c)\<lparr>active := active (c_succ ?c) @ new\<rparr>\<rparr>, ?p\<lparr>p_world := w'\<rparr>))"
    "\<forall>s\<in>set new. m_pc s = vn_offset a" "length new \<le> 1"
    "\<forall>\<rho>. (\<exists>s\<in>set new. path_holds ?F \<rho> (m_solver s)) \<longleftrightarrow> path_holds ?F \<rho> (m_solver ?st) \<and> holds ?F \<rho> k"
    by (rule leave_run[OF inv stay(2) fk(1), of "vn_offset a" ?c ?F])
  have st: "get_state (c1, q) = Inr (Some (c_state c1), (c1, q))" for q :: "'z process"
    by (simp add: get_state_def on_ctx_def gets_def)
  have "execute_pcodeop H fuel t op (c, p) = exec_cbranch H op (c, p)"
    using assms(2) by (simp add: pcodeop_defs)
  also have "\<dots> = branch_lazy H (vn_offset a) k nk ?st (c1, with_builder b2 (with_builder b1 p1))"
    using assms(1,3-6) by (simp add: exec_cbranch_def no_out_in2_def xbnd_def bnd_def k(1) nk(1) st)
  also have "\<dots> = Inr (Some (), (?c\<lparr>c_succ := (c_succ ?c)\<lparr>active := active (c_succ ?c) @ new\<rparr>\<rparr>, ?p\<lparr>p_world := w'\<rparr>))"
    unfolding branch_lazy_def by (rule xbnd_to, rule stay(1), rule leave(1))
  finally show ?thesis
    using leave(2-4) stay(3) fk(2) fn(2) same
    by (intro exI[of _ new] exI conjI) (assumption, simp_all)
qed

text \<open>A jump on a symbolic byte that lies in the temporary storage.\<close>

lemma sample_condition: "resolve_varnode sample_host \<lparr>vn_space = 4, vn_offset = 0, vn_size = 1\<rparr> (sample_ctx, p) =
    Inr (Some (SymExpr 0 8), (sample_ctx, p))"
  by (simp add: resolve_varnode_def sample_host_def sample_sleigh_def in_tmp_def mem_read_def read_byte_def bnd_def ret_def sample_ctx_def
    get_mem_def)

theorem cbranch_splits_witness:
  "\<exists>new c' p'. execute_pcodeop sample_host 0 \<lparr>t_address = 0, t_length = 1, t_ops = []\<rparr>
      \<lparr>op_code = CPUI_CBRANCH, op_output = None,
       op_inputs = [\<lparr>vn_space = 1, vn_offset = 0x4000, vn_size = 8\<rparr>, \<lparr>vn_space = 4, vn_offset = 0, vn_size = 1\<rparr>]\<rparr>
      (sample_ctx, sample_process) = Inr (Some (), (c', p')) \<and> active (c_succ c') = new \<and> (\<forall>s\<in>set new. m_pc s = 0x4000) \<and>
    (\<forall>\<rho>. (\<exists>s\<in>set new. path_holds (fpl sample_env) \<rho> (m_solver s)) \<longleftrightarrow> take_bit 8 (\<rho> 0) \<noteq> 0) \<and>
    (\<forall>\<rho>. c_alive c' \<and> path_holds (fpl sample_env) \<rho> (m_solver (c_state c')) \<longleftrightarrow> take_bit 8 (\<rho> 0) = 0)"
proof -
  let ?op = "\<lparr>op_code = CPUI_CBRANCH, op_output = None,
       op_inputs = [\<lparr>vn_space = 1, vn_offset = 0x4000, vn_size = 8\<rparr>, \<lparr>vn_space = 4, vn_offset = 0, vn_size = 1\<rparr>]\<rparr>"
  have H: "lazy_solving (h_cfg sample_host)" "h_amb sample_host = sample_env" "ram_space_id (h_sleigh sample_host) = 1"
    by (simp_all add: sample_host_def sample_sleigh_def Config_init_def)
  have s: "c_alive sample_ctx" "m_solver (c_state sample_ctx) = Solver_init"
    by (simp_all add: sample_ctx_def sample_state_def)
  have e: "operand 8 (SymExpr 0 8)" by (simp add: operand_def)
  have path: "path_holds F \<rho> Solver_init" for F \<rho> by (simp add: path_holds_def Solver_init_def ConstraintManager_init_def)
  have inv: "cm_inv (m_manager Solver_init)" by (simp add: Solver_init_def cm_inv_init)
  let ?t = "\<lparr>t_address = 0, t_length = 1, t_ops = []\<rparr>"
  have "\<exists>new c' p'. execute_pcodeop sample_host 0 ?t ?op (sample_ctx, sample_process) = Inr (Some (), (c', p')) \<and>
    active (c_succ c') = active (c_succ sample_ctx) @ new \<and> length new \<le> 1 \<and>
    (\<forall>s\<in>set new. m_pc s = vn_offset \<lparr>vn_space = 1, vn_offset = 0x4000, vn_size = 8\<rparr>) \<and>
    (\<forall>\<rho>. (\<exists>s\<in>set new. path_holds (fpl (h_amb sample_host)) \<rho> (m_solver s)) \<longleftrightarrow>
       path_holds (fpl (h_amb sample_host)) \<rho> (m_solver (c_state sample_ctx)) \<and> sem (fpl (h_amb sample_host)) \<rho> (SymExpr 0 8) \<noteq> 0) \<and>
    (\<forall>\<rho>. c_alive c' \<and> path_holds (fpl (h_amb sample_host)) \<rho> (m_solver (c_state c')) \<longleftrightarrow>
       path_holds (fpl (h_amb sample_host)) \<rho> (m_solver (c_state sample_ctx)) \<and> sem (fpl (h_amb sample_host)) \<rho> (SymExpr 0 8) = 0)"
    by (rule cbranch_splits[OF H(1) _ _ _ _ sample_condition e s(1)]) (use sample_ok inv in \<open>simp_all add: H s\<close>)
  then obtain new c' p' where r: "execute_pcodeop sample_host 0 ?t ?op (sample_ctx, sample_process) = Inr (Some (), (c', p'))"
    "active (c_succ c') = active (c_succ sample_ctx) @ new"
    "\<forall>s\<in>set new. m_pc s = vn_offset \<lparr>vn_space = 1, vn_offset = 0x4000, vn_size = 8\<rparr>"
    "\<forall>\<rho>. (\<exists>s\<in>set new. path_holds (fpl (h_amb sample_host)) \<rho> (m_solver s)) \<longleftrightarrow>
       path_holds (fpl (h_amb sample_host)) \<rho> (m_solver (c_state sample_ctx)) \<and> sem (fpl (h_amb sample_host)) \<rho> (SymExpr 0 8) \<noteq> 0"
    "\<forall>\<rho>. c_alive c' \<and> path_holds (fpl (h_amb sample_host)) \<rho> (m_solver (c_state c')) \<longleftrightarrow>
       path_holds (fpl (h_amb sample_host)) \<rho> (m_solver (c_state sample_ctx)) \<and> sem (fpl (h_amb sample_host)) \<rho> (SymExpr 0 8) = 0"
    by (elim exE conjE) (rule that)
  show ?thesis
  proof (intro exI conjI)
    show "\<forall>s\<in>set new. m_pc s = 0x4000" using r(3) by simp
    show "\<forall>\<rho>. (\<exists>s\<in>set new. path_holds (fpl sample_env) \<rho> (m_solver s)) \<longleftrightarrow> take_bit 8 (\<rho> 0) \<noteq> 0"
      using r(4) by (simp add: H s path)
    show "\<forall>\<rho>. c_alive c' \<and> path_holds (fpl sample_env) \<rho> (m_solver (c_state c')) \<longleftrightarrow> take_bit 8 (\<rho> 0) = 0"
      using r(5) by (simp add: H s path)
    show "active (c_succ c') = new" using r(2) by (simp add: sample_ctx_def no_successors_def)
  qed (rule r(1))
qed

end
