(* ===== verification/Random_Properties.thy ===== *)
theory Random_Properties
  imports LibcModels
begin

text \<open>
  The random numbers of the models of \<^verbatim>\<open>rand\<close> and \<^verbatim>\<open>srand\<close>: the ring buffer of \<^verbatim>\<open>models/libc/random.cpp\<close> computes the
  additive feedback sequence that the generator is described by.
\<close>

section \<open>The sequence\<close>

text \<open>The first 31 elements come from the generator of Lehmer, the next three repeat the first ones, and every other element
  is the sum of the ones 31 and 3 places before it.\<close>

function feedback :: "32 word \<Rightarrow> nat \<Rightarrow> 32 word" where
  "feedback s i = (if i = 0 then s
     else if i < 31 then of_int (16807 * sint (feedback s (i - 1)) mod 2147483647)
     else if i < 34 then feedback s (i - 31)
     else feedback s (i - 31) + feedback s (i - 3))"
  by pat_completeness auto
termination
  by (relation "measure snd") auto

declare feedback.simps [simp del]

lemma feedback_0: "feedback s 0 = s"
  by (simp add: feedback.simps)

lemma feedback_lehmer: "i < 30 \<Longrightarrow> feedback s (Suc i) = of_int (16807 * sint (feedback s i) mod 2147483647)"
  by (simp add: feedback.simps[of s "Suc i"])

lemma feedback_copy: "i < 3 \<Longrightarrow> feedback s (i + 31) = feedback s i"
  by (simp add: feedback.simps[of s "i + 31"])

lemma feedback_sum: "3 \<le> n \<Longrightarrow> feedback s (n + 31) = feedback s n + feedback s (n + 28)"
  by (simp add: feedback.simps[of s "n + 31"] add.commute)

section \<open>The seeds\<close>

text \<open>The method of Schrage: the remainder is computed in 32 bits without an overflow, also for negative words.\<close>

lemma sdiv_cases:
  "0 \<le> w \<Longrightarrow> (w::int) sdiv 127773 = w div 127773 \<and> w smod 127773 = w mod 127773"
  "w < 0 \<Longrightarrow> w sdiv 127773 = - ((- w) div 127773) \<and> w smod 127773 = - ((- w) mod 127773)"
  by (auto simp: signed_divide_int_def signed_modulo_int_def sgn_if)

lemma schrage:
  fixes w :: int
  assumes "- (2 ^ 31) \<le> w" "w < 2 ^ 31"
  defines "r \<equiv> 16807 * (w smod 127773) - 2836 * (w sdiv 127773)"
  shows "- 2147483647 < r" and "r < 2147483647" and "(if r < 0 then r + 2147483647 else r) = 16807 * w mod 2147483647"
proof -
  have r: "r = 16807 * w - 2147483647 * (w sdiv 127773)"
    using mult_sdiv_smod_eq[of 127773 w] unfolding r_def by linarith
  have "- 2147483647 < r \<and> r < 2147483647"
  proof (cases "0 \<le> w")
    case True
    have "0 \<le> w div 127773" "0 \<le> w mod 127773" "w mod 127773 \<le> 127772" "w div 127773 * 127773 + w mod 127773 = w"
      using True pos_mod_bound[of 127773 w] by (simp_all add: pos_imp_zdiv_nonneg_iff)
    thus ?thesis using assms(2) unfolding r_def sdiv_cases(1)[OF True, THEN conjunct1] sdiv_cases(1)[OF True, THEN conjunct2]
      by (intro conjI; simp; linarith)
  next
    case False
    hence w: "w < 0" by simp
    have "0 \<le> (- w) div 127773" "0 \<le> (- w) mod 127773" "(- w) mod 127773 \<le> 127772"
      "(- w) div 127773 * 127773 + (- w) mod 127773 = - w"
      using w pos_mod_bound[of 127773 "- w"] by (simp_all add: pos_imp_zdiv_nonneg_iff)
    thus ?thesis using assms(1) unfolding r_def sdiv_cases(2)[OF w, THEN conjunct1] sdiv_cases(2)[OF w, THEN conjunct2]
      by (intro conjI; simp; linarith)
  qed
  thus lo: "- 2147483647 < r" and hi: "r < 2147483647" by auto
  have "(if r < 0 then r + 2147483647 else r) = r mod 2147483647"
  proof (cases "r < 0")
    case True
    have "r mod 2147483647 = (r + 2147483647) mod 2147483647" by simp
    also have "\<dots> = r + 2147483647" using True lo by (intro mod_pos_pos_trivial) auto
    finally show ?thesis using True by simp
  next
    case False thus ?thesis using hi by simp
  qed
  also have "\<dots> = 16807 * w mod 2147483647" unfolding r
    using mod_mult_self2[of "16807 * w" 2147483647 "- (w sdiv 127773)"] by simp
  finally show "(if r < 0 then r + 2147483647 else r) = 16807 * w mod 2147483647" .
qed

lemma sint_small: "- 2147483647 < r \<Longrightarrow> r < 2147483647 \<Longrightarrow> sint (of_int r :: 32 word) = r"
  by (simp add: sint_sbintrunc' signed_take_bit_int_eq_self)

lemma next_seed_lehmer: "next_seed v = of_int (16807 * sint v mod 2147483647)"
proof -
  let ?r = "16807 * (sint v smod 127773) - 2836 * (sint v sdiv 127773)"
  have v: "- (2 ^ 31) \<le> sint v" "sint v < 2 ^ 31" using sint_range_size[of v] by (auto simp: size_word.rep_eq)
  note s = schrage[OF v]
  have "next_seed v = (if ?r < 0 then of_int ?r + 2147483647 else of_int ?r)"
    unfolding next_seed_def Let_def sint_small[OF s(1,2)] ..
  also have "\<dots> = of_int (if ?r < 0 then ?r + 2147483647 else ?r)" by simp
  finally show ?thesis unfolding s(3) .
qed

section \<open>The table\<close>

text \<open>Entry \<open>1 + i\<close> of the table holds element \<open>i\<close> of the sequence.\<close>

lemma fill_table_feedback:
  assumes "dst + n \<le> 31" "0 < dst" "length tbl = 32" "\<forall>i < dst. tbl ! (1 + i) = feedback s i" "v = feedback s (dst - 1)"
  shows "length (fill_table tbl dst v n) = 32 \<and> (\<forall>i < dst + n. fill_table tbl dst v n ! (1 + i) = feedback s i)"
  using assms
proof (induction n arbitrary: tbl dst v)
  case (Suc n)
  have v: "next_seed v = feedback s dst"
    using feedback_lehmer[of "dst - 1" s] Suc.prems by (simp add: next_seed_lehmer)
  have "\<forall>i < dst + 1. tbl[dst + 1 := next_seed v] ! (1 + i) = feedback s i"
    using Suc.prems v by (auto simp: nth_list_update less_Suc_eq)
  from Suc.IH[OF _ _ _ this] Suc.prems v show ?case by simp
qed simp

text \<open>The ring after \<open>n\<close> steps: the front pointer is at the oldest element, the rear pointer 28 places after it.\<close>

definition ring :: "32 word \<Rightarrow> nat \<Rightarrow> random_data \<Rightarrow> 32 word list \<Rightarrow> bool" where
  "ring s n d tbl \<longleftrightarrow> rand_type d \<noteq> 0 \<and> length tbl = 32 \<and> 3 \<le> n \<and> fptr d = 1 + n mod 31 \<and> rptr d = 1 + (n + 28) mod 31 \<and>
     (\<forall>k. n \<le> k \<and> k < n + 31 \<longrightarrow> tbl ! (1 + k mod 31) = feedback s k)"

lemma mod31_inj: "n \<le> k \<Longrightarrow> k < n + 31 \<Longrightarrow> k mod 31 = n mod 31 \<longleftrightarrow> k = n" for n k :: nat
proof -
  assume a: "n \<le> k" "k < n + 31"
  have "k mod 31 = n mod 31 \<longleftrightarrow> 31 dvd k - n" using a(1) mod_eq_dvd_iff_nat by blast
  also have "\<dots> \<longleftrightarrow> k - n = 0" using a by (auto dest: dvd_imp_le)
  finally show "k mod 31 = n mod 31 \<longleftrightarrow> k = n" using a(1) by simp
qed

lemma mod31_step:
  "(n + 1) mod 31 = (if n mod 31 = 30 then 0 else n mod 31 + 1)"
  "(n + 28) mod 31 = (if n mod 31 < 3 then n mod 31 + 28 else n mod 31 - 3)"
  "(n + 1 + 28) mod 31 = (if n mod 31 < 2 then n mod 31 + 29 else n mod 31 - 2)" for n :: nat
proof -
  have m: "m < 31 \<Longrightarrow> (m + 1) mod 31 = (if m = 30 then 0 else m + 1)"
    "m < 31 \<Longrightarrow> (m + 28) mod 31 = (if m < 3 then m + 28 else m - 3)"
    "m < 31 \<Longrightarrow> (m + 29) mod 31 = (if m < 2 then m + 29 else m - 2)" for m :: nat
    by (auto simp: mod_if)
  show "(n + 1) mod 31 = (if n mod 31 = 30 then 0 else n mod 31 + 1)"
    using m(1)[of "n mod 31"] mod_add_left_eq[of n 31 1] by simp
  show "(n + 28) mod 31 = (if n mod 31 < 3 then n mod 31 + 28 else n mod 31 - 3)"
    using m(2)[of "n mod 31"] mod_add_left_eq[of n 31 28] by simp
  show "(n + 1 + 28) mod 31 = (if n mod 31 < 2 then n mod 31 + 29 else n mod 31 - 2)"
    using m(3)[of "n mod 31"] mod_add_left_eq[of n 31 29] by (simp add: add.commute)
qed

lemma pointers_step:
  fixes n :: nat
  assumes "f = 1 + n mod 31" "r = 1 + (n + 28) mod 31"
  shows "(if f + 1 \<ge> 32 then (1, r + 1) else (f + 1, if r + 1 \<ge> 32 then 1 else r + 1)) =
    (1 + (n + 1) mod 31, 1 + (n + 1 + 28) mod 31)"
proof -
  have m: "n mod 31 < 31" by simp
  consider "n mod 31 = 30" | "n mod 31 = 2" | "n mod 31 < 2" | "2 < n mod 31" "n mod 31 < 30" using m by linarith
  thus ?thesis unfolding assms mod31_step by cases (auto simp: Suc_diff_le)
qed

lemma random_r_ring:
  assumes "ring s n d tbl"
  shows "\<exists>d' tbl'. random_r d tbl = (drop_bit 1 (feedback s (n + 31)), d', tbl') \<and> ring s (n + 1) d' tbl'"
proof -
  note r = assms[unfolded ring_def]
  let ?tbl = "tbl[fptr d := feedback s (n + 31)]"
  let ?d = "d\<lparr>fptr := 1 + (n + 1) mod 31, rptr := 1 + (n + 1 + 28) mod 31\<rparr>"
  have v: "tbl ! fptr d + tbl ! rptr d = feedback s (n + 31)"
    using r by (simp add: feedback_sum)
  have p: "(if fptr d + 1 \<ge> 32 then (1, rptr d + 1) else (fptr d + 1, if rptr d + 1 \<ge> 32 then 1 else rptr d + 1)) =
      (1 + (n + 1) mod 31, 1 + (n + 1 + 28) mod 31)"
    using r by (intro pointers_step) simp_all
  have "?tbl ! (1 + k mod 31) = feedback s k" if "n + 1 \<le> k" "k < n + 1 + 31" for k
  proof (cases "k = n + 31")
    case True thus ?thesis using r by simp
  next
    case False
    hence "k mod 31 \<noteq> n mod 31" using that mod31_inj[of n k] by simp
    thus ?thesis using False that r by simp
  qed
  hence "ring s (n + 1) ?d ?tbl" using r by (simp add: ring_def)
  moreover have "random_r d tbl = (drop_bit 1 (feedback s (n + 31)), ?d, ?tbl)"
    unfolding random_r_def Let_def p v using r by simp
  ultimately show ?thesis by blast
qed

lemma discard_ring:
  "ring s n d tbl \<Longrightarrow> discard m d tbl = (d', tbl') \<Longrightarrow> ring s (n + m) d' tbl'"
proof (induction m arbitrary: n d tbl)
  case (Suc m)
  from random_r_ring[OF Suc.prems(1)] obtain d1 t1 where
    s: "random_r d tbl = (drop_bit 1 (feedback s (n + 31)), d1, t1)" "ring s (n + 1) d1 t1" by blast
  from Suc.IH[OF s(2)] Suc.prems(2) s(1) show ?case by simp
qed simp

lemma filled_ring:
  assumes "length tbl = 32" "rand_type d \<noteq> 0"
  shows "ring s 3 (d\<lparr>fptr := 4, rptr := 1\<rparr>) (fill_table (tbl[1 := s]) 1 s 30)"
proof -
  let ?t = "fill_table (tbl[1 := s]) 1 s 30"
  have f: "length ?t = 32" "\<forall>i < 31. ?t ! (1 + i) = feedback s i"
    using fill_table_feedback[of 1 30 "tbl[1 := s]" s s] assms(1) by (simp_all add: feedback_0)
  have "?t ! (1 + k mod 31) = feedback s k" if "3 \<le> k" "k < 34" for k
  proof (cases "k < 31")
    case True thus ?thesis using f(2) by simp
  next
    case False
    hence "k mod 31 = k - 31" "k - 31 < 3" using that by (simp_all add: mod_if)
    thus ?thesis using f(2) feedback_copy[of "k - 31" s] False by simp
  qed
  thus ?thesis using f(1) assms(2) by (simp add: ring_def)
qed

section \<open>The outputs\<close>

text \<open>The results of \<open>k\<close> calls one after the other.\<close>

fun rand_outputs :: "nat \<Rightarrow> random_data \<Rightarrow> 32 word list \<Rightarrow> 32 word list" where
  "rand_outputs 0 d tbl = []"
| "rand_outputs (Suc k) d tbl = (case random_r d tbl of (v, d', tbl') \<Rightarrow> v # rand_outputs k d' tbl')"

lemma rand_outputs_ring:
  "ring s n d tbl \<Longrightarrow> rand_outputs k d tbl = map (\<lambda>i. drop_bit 1 (feedback s (i + n + 31))) [0..<k]"
proof (induction k arbitrary: n d tbl)
  case (Suc k)
  from random_r_ring[OF Suc.prems] obtain d1 t1 where
    s: "random_r d tbl = (drop_bit 1 (feedback s (n + 31)), d1, t1)" "ring s (n + 1) d1 t1" by blast
  have "[0..<Suc k] = 0 # map Suc [0..<k]" by (simp add: upt_conv_Cons map_Suc_upt del: upt_Suc)
  thus ?case using Suc.IH[OF s(2)] s(1) by (simp add: comp_def)
qed simp

text \<open>C32: After \<^verbatim>\<open>srand\<close> with a seed, for a generator of the type of the template, the results of the calls of \<^verbatim>\<open>rand\<close> are the
  elements from 344 on of the additive feedback sequence of that seed (of 1 for the seed 0), each shifted right by one bit. The
  table may hold anything before: the seed alone determines the numbers.\<close>

theorem random_sequence:
  assumes "length tbl = 32" "rand_type d = 3" "rand_deg d = 31" "rand_sep d = 3"
  shows "\<exists>d' tbl'. srandom_r seed d tbl = Some (d', tbl') \<and>
    rand_outputs k d' tbl' = map (\<lambda>i. drop_bit 1 (feedback (if seed = 0 then 1 else seed) (i + 344))) [0..<k]"
proof -
  let ?s = "if seed = 0 then 1 else seed"
  obtain d' tbl' where e: "discard 310 (d\<lparr>fptr := 4, rptr := 1\<rparr>) (fill_table (tbl[1 := ?s]) 1 ?s 30) = (d', tbl')"
    using prod.exhaust by blast
  have "ring ?s (3 + 310) d' tbl'"
    by (rule discard_ring[OF filled_ring e]) (use assms in simp_all)
  from rand_outputs_ring[OF this, of k] have
    "rand_outputs k d' tbl' = map (\<lambda>i. drop_bit 1 (feedback ?s (i + 344))) [0..<k]" by (simp add: add.assoc)
  moreover have "srandom_r seed d tbl = Some (d', tbl')" using assms(2-4) e by (simp add: srandom_r_def Let_def)
  ultimately show ?thesis by blast
qed

theorem random_sequence_witness:
  "\<exists>d' tbl'. srandom_r 42 state_template randtbl_init = Some (d', tbl') \<and>
    rand_outputs 2 d' tbl' = map (\<lambda>i. drop_bit 1 (feedback 42 (i + 344))) [0..<2]"
  using random_sequence[of randtbl_init state_template 42 2] by (simp add: randtbl_init_def state_template_def)

end
