(* ===== verification/Dump.thy ===== *)
theory Dump
  imports LibcModels "HOL-Library.Char_ord" "HOL-Library.List_Lexorder"
begin

text \<open>
  The files that a state writes and the one that it reads, \<^verbatim>\<open>dump\<close> and \<^verbatim>\<open>init_from_json\<close> of \<^verbatim>\<open>state/State.cpp\<close>: what is
  written is the value, as a pair of the name in the output directory and the contents, in the order of writing. The names of
  the files of a state are ordered as the keys of a \<^verbatim>\<open>std::map\<close>, the symbols of the configuration by their addresses.
\<close>

section \<open>Texts\<close>

type_synonym out_file = "string \<times> string"

text \<open>A line ends with a line feed.\<close>

definition line :: "string \<Rightarrow> string" where
  "line s = s @ [CHR 0x0A]"

definition print_i32 :: "32 word \<Rightarrow> string" where
  "print_i32 w = (if sint w < 0 then ''-'' else []) @ digits 10 (nat \<bar>sint w\<bar>)"

definition pad2 :: "string \<Rightarrow> string" where
  "pad2 s = replicate (2 - length s) CHR ''0'' @ s"

definition escape_byte :: "8 word \<Rightarrow> string" where
  "escape_byte b = (if 32 \<le> unat b \<and> unat b \<le> 126 then [char_of (unat b)]
     else [CHR 0x5C, CHR ''x''] @ pad2 (digits 16 (unat b)))"

definition stacktrace_text :: "64 word list \<Rightarrow> string" where
  "stacktrace_text as = concat (map (\<lambda>a. line (''0x'' @ digits 16 (unat a))) as)"

section \<open>Writing\<close>

text \<open>The value of an expression; an empty result is an exception.\<close>

definition dump_value :: "'z host \<Rightarrow> expr \<Rightarrow> ('z, bvconst) xm" where
  "dump_value H e = bnd (in_solver (solver_evaluate (h_amb H) (h_api H) (h_engine H) e)) (\<lambda>r. case r of
     None \<Rightarrow> throw (StdException ''bad_optional_access'') | Some c \<Rightarrow> ret (Some c))"

definition dump_bytes :: "'z host \<Rightarrow> expr \<Rightarrow> ('z, 8 word list) xm" where
  "dump_bytes H e = xbnd (dump_value H e) (\<lambda>c. xbnd (always (liftr (bv_as_data c))) (\<lambda>data.
     xret (take (m_size c div 8) data)))"

text \<open>The loops over the arguments, with their number, and over the symbols of the configuration.\<close>

fun dump_args :: "'z host \<Rightarrow> nat \<Rightarrow> expr list \<Rightarrow> ('z, string) xm" where
  "dump_args H i [] = xret []"
| "dump_args H i (e # es) = xbnd (dump_bytes H e) (\<lambda>bs. xbnd (dump_args H (i + 1) es) (\<lambda>rest.
     xret (line (digits 10 i @ '': '' @ concat (map escape_byte bs)) @ rest)))"

definition sym_name :: "'z host \<Rightarrow> expr \<Rightarrow> ('z, string) xm" where
  "sym_name H e = (case e of SymExpr i n \<Rightarrow> build (get_sym_name i) | _ \<Rightarrow> fails (Undefined ''not a symbol''))"

fun dump_symbols :: "'z host \<Rightarrow> expr list \<Rightarrow> ('z, string) xm" where
  "dump_symbols H [] = xret []"
| "dump_symbols H (e # es) = xbnd (sym_name H e) (\<lambda>name. xbnd (dump_bytes H e) (\<lambda>bs. xbnd (dump_symbols H es) (\<lambda>rest.
     xret (line (name @ '' ('' @ digits 10 (expr_size e) @ '') : '' @ concat (map escape_byte bs)) @ rest))))"

definition fs_files :: "file_system \<Rightarrow> string list" where
  "fs_files fs = sorted_list_of_set (dom (m_files fs))"

definition file_all :: "amb \<Rightarrow> string \<Rightarrow> ('z, sfile \<times> expr option) fsm" where
  "file_all A name = (\<lambda>(fs, sw). case m_files fs name of
     None \<Rightarrow> Inl (Undefined ''no such file'')
   | Some f \<Rightarrow> if f_size f = 0 then Inr ((f, None), (fs, sw))
       else (case file_read_all A (f, sw) of
         Inl e \<Rightarrow> Inl e | Inr (e, (f', sw')) \<Rightarrow> Inr ((f, Some e), (fs\<lparr>m_files := (m_files fs)(name \<mapsto> f')\<rparr>, sw'))))"

definition bin_name :: "string \<Rightarrow> string" where
  "bin_name name = map (\<lambda>c. if c = CHR ''/'' then CHR ''_'' else c) name @ ''.bin''"

text \<open>The files that are not empty, with the bytes of their contents.\<close>

fun dump_files :: "'z host \<Rightarrow> string list \<Rightarrow> ('z, out_file list) xm" where
  "dump_files H [] = xret []"
| "dump_files H (name # names) = xbnd (always (in_fs (file_all (h_amb H) name))) (\<lambda>(f, c). case c of
     None \<Rightarrow> dump_files H names
   | Some e \<Rightarrow> xbnd (dump_value H e) (\<lambda>v. xbnd (always (liftr (bv_as_data v))) (\<lambda>data. xbnd (dump_files H names) (\<lambda>rest.
       xret ((bin_name (m_filename f), map (\<lambda>b. char_of (unat b)) data) # rest)))))"

definition dump_cfg_syms :: "'z host \<Rightarrow> expr list \<Rightarrow> ('z, out_file list) xm" where
  "dump_cfg_syms H es = (if es = [] then xret []
     else xbnd (dump_symbols H (sort_addr (h_amb H) es)) (\<lambda>t. xret [(''cfg_syms.txt'', t)]))"

text \<open>The value is \<open>None\<close> when the state is not satisfiable.\<close>

definition state_dump :: "'z host \<Rightarrow> ('z, out_file list option) xm" where
  "state_dump H = xbnd (always (state_satisfiable H)) (\<lambda>r. if r \<noteq> SAT then xret None
     else xbnd (gets id) (\<lambda>s.
       xbnd (dump_args H 0 (m_argv s)) (\<lambda>argv.
       xbnd (dump_cfg_syms H (m_config_symbols s)) (\<lambda>syms.
       xbnd (dump_files H (fs_files (m_fs s))) (\<lambda>files.
         xret (Some ([(''stacktrace.txt'', stacktrace_text (m_stacktrace s)),
           (''exit_code.txt'', line (print_i32 (retcode s))), (''argv.txt'', argv)] @ syms @ files)))))))"

section \<open>Reading\<close>

text \<open>What the code uses of the JSON library, which is not part of the repository: the parser and the accessors of a value,
  which throw an exception on a value of another type. The items of an object come in the order of their keys.\<close>

record 'j json_api =
  j_parse :: "string \<Rightarrow> 'j res"
  j_contains :: "'j \<Rightarrow> string \<Rightarrow> bool"
  j_at :: "'j \<Rightarrow> string \<Rightarrow> 'j res"
  j_items :: "'j \<Rightarrow> (string \<times> 'j) list"
  j_string :: "'j \<Rightarrow> string res"
  j_uint :: "'j \<Rightarrow> 64 word res"
  j_bool :: "'j \<Rightarrow> bool res"
  j_is_number :: "'j \<Rightarrow> bool"

definition upper :: "string \<Rightarrow> string" where
  "upper s = map (\<lambda>c. if 97 \<le> (of_char c :: nat) \<and> (of_char c :: nat) \<le> 122 then char_of ((of_char c :: nat) - 32) else c) s"

definition lift_json :: "'a res \<Rightarrow> ('z, 'a) xm" where
  "lift_json r = always (liftr r)"

definition json_pc :: "'z host \<Rightarrow> 'j json_api \<Rightarrow> 'j \<Rightarrow> ('z, unit) xm" where
  "json_pc H J j = (if \<not> j_contains J j ''pc'' then xret ()
     else xbnd (lift_json (rbind (j_at J j ''pc'') (j_string J))) (\<lambda>pc_str. case parse_uint pc_str of
       None \<Rightarrow> fails (Exit ''init_from_json'')
     | Some pc \<Rightarrow> set_pc pc))"

definition is_symbol :: "'j json_api \<Rightarrow> 'j \<Rightarrow> bool res" where
  "is_symbol J v = (if \<not> j_contains J v ''symbol'' then Inr False else rbind (j_at J v ''symbol'') (j_bool J))"

text \<open>A symbol is entered into the set of the symbols of the configuration.\<close>

definition config_symbol :: "'z host \<Rightarrow> string \<Rightarrow> nat \<Rightarrow> ('z, expr) xm" where
  "config_symbol H name n = xbnd (build (mk_sym (h_amb H) name n)) (\<lambda>bv.
     xbnd (update (\<lambda>s. s\<lparr>m_config_symbols := List.insert bv (m_config_symbols s)\<rparr>)) (\<lambda>_. xret bv))"

text \<open>The value of a register or of memory: a symbol, a number or a numeral; \<open>wsym\<close>, \<open>wnum\<close> and \<open>wstr\<close> write it.\<close>

definition json_value :: "'z host \<Rightarrow> 'j json_api \<Rightarrow> 'j \<Rightarrow> 'j \<Rightarrow> nat \<Rightarrow> (expr \<Rightarrow> ('z, unit) xm) \<Rightarrow> (expr \<Rightarrow> ('z, unit) xm) \<Rightarrow>
    (expr \<Rightarrow> ('z, unit) xm) \<Rightarrow> ('z, unit) xm" where
  "json_value H J valj valuej n wsym wnum wstr = xbnd (lift_json (is_symbol J valj)) (\<lambda>symbol.
     if symbol then xbnd (lift_json (j_string J valuej)) (\<lambda>name. xbnd (config_symbol H name n) wsym)
     else if j_is_number J valuej
     then xbnd (lift_json (j_uint J valuej)) (\<lambda>v. xbnd (mk_constant H v n) wnum)
     else xbnd (lift_json (rbind (j_string J valuej) (\<lambda>s. BVConst_str s n))) (\<lambda>c. xbnd (build (mk_const (h_amb H) c)) wstr))"

fun json_regs :: "'z host \<Rightarrow> 'j json_api \<Rightarrow> (string \<times> 'j) list \<Rightarrow> ('z, unit) xm" where
  "json_regs H J [] = xret ()"
| "json_regs H J ((key, valj) # rest) = xbnd (lift_json (lifter_reg (h_sleigh H) (upper key))) (\<lambda>reg.
     xbnd (lift_json (j_at J valj ''value'')) (\<lambda>valuej.
     (let w = reg_write_name H (upper key)
      in xbnd (json_value H J valj valuej (vn_size reg * 8) w w w) (\<lambda>_. json_regs H J rest))))"

fun json_mem :: "'z host \<Rightarrow> 'j json_api \<Rightarrow> (string \<times> 'j) list \<Rightarrow> ('z, unit) xm" where
  "json_mem H J [] = xret ()"
| "json_mem H J ((addr_str, valj) # rest) = (case parse_uint addr_str of
     None \<Rightarrow> fails (Exit ''init_from_json'')
   | Some a \<Rightarrow> xbnd (lift_json (rbind (j_at J valj ''size'') (j_uint J))) (\<lambda>size.
       xbnd (lift_json (j_at J valj ''value'')) (\<lambda>valuej.
       xbnd (json_value H J valj valuej (unat (size * 8)) (write_buf H a) (state_write H a) (write_buf H a)) (\<lambda>_.
         json_mem H J rest))))"

definition json_section :: "'j json_api \<Rightarrow> 'j \<Rightarrow> string \<Rightarrow> (string \<times> 'j) list res" where
  "json_section J j name = (if j_contains J j name then rbind (j_at J j name) (\<lambda>v. Inr (j_items J v)) else Inr [])"

definition init_from_json :: "'z host \<Rightarrow> 'j json_api \<Rightarrow> string \<Rightarrow> ('z, unit) xm" where
  "init_from_json H J text = xbnd (lift_json (j_parse J text)) (\<lambda>statej.
     xbnd (json_pc H J statej) (\<lambda>_.
     xbnd (lift_json (json_section J statej ''regs'')) (\<lambda>regs. xbnd (json_regs H J regs) (\<lambda>_.
     xbnd (lift_json (json_section J statej ''mem'')) (\<lambda>mem. json_mem H J mem)))))"

end
