(* ===== verification/SolverModel.thy ===== *)
theory SolverModel
  imports SolverInv
begin

text \<open>
  The models of Z3 in the cache of the solver of a state: after the answer SAT to the question whether the path is
  satisfiable, the cached model solves all the constraints, and an expression is evaluated to its value under it.
\<close>

section \<open>Types of symbols\<close>

text \<open>A symbol node is the one that the builder made for its name; a model has constants of the width of the symbols.\<close>

definition symbol_of :: "builder \<Rightarrow> nat \<Rightarrow> nat \<Rightarrow> bool" where
  "symbol_of b i n \<longleftrightarrow> (\<exists>name. m_symbols b name = Some (SymExpr i n))"

fun typed :: "builder \<Rightarrow> expr \<Rightarrow> bool" where
  "typed b e \<longleftrightarrow> (case e of SymExpr i n \<Rightarrow> symbol_of b i n | _ \<Rightarrow> True) \<and> (\<forall>x\<in>set (children e). typed b x)"

declare typed.simps [simp del]

definition model_typed :: "builder \<Rightarrow> (nat \<Rightarrow> bvconst option) \<Rightarrow> bool" where
  "model_typed b m \<longleftrightarrow> (\<forall>i c. m i = Some c \<longrightarrow> bv_ok c \<and> symbol_of b i (m_size c))"

text \<open>The nodes that evaluation and the translation to Z3 handle, whatever the model.\<close>

definition fragment :: "expr \<Rightarrow> bool" where
  "fragment e \<longleftrightarrow> evaluable Map.empty True e"

lemma symbol_of_unique:
  assumes "symbols_ok b" "symbol_of b i n" "symbol_of b i k"
  shows "n = k"
proof -
  obtain x y where x: "m_symbols b x = Some (SymExpr i n)" and y: "m_symbols b y = Some (SymExpr i k)"
    using assms(2,3) by (auto simp: symbol_of_def)
  have "m_sym_id_to_name b i = Some x" "m_sym_id_to_name b i = Some y"
    using assms(1) x y unfolding symbols_ok_def by (metis expr.inject(1))+
  then show ?thesis using x y by simp
qed

lemma fragment_evaluable:
  assumes "symbols_ok b" "model_typed b m"
  shows "fragment e \<Longrightarrow> typed b e \<Longrightarrow> mc \<or> syms e \<subseteq> dom m \<Longrightarrow> evaluable m mc e"
proof (induction e rule: measure_induct_rule[where f = size])
  case (less e)
  have f: "node_ok Map.empty True e" "\<forall>x\<in>set (children e). fragment x"
    using less.prems(1) by (simp_all add: fragment_def evaluable.simps[of _ _ e])
  have t: "\<forall>x\<in>set (children e). typed b x" using less.prems(2) by (simp add: typed.simps[of b e])
  have "node_ok m mc e"
  proof (cases "kind e = K_SYM")
    case True
    then obtain i n where e: "e = SymExpr i n" by (cases e) simp_all
    have "symbol_of b i n" using less.prems(2) typed.simps[of b e] by (simp add: e)
    show ?thesis
    proof (cases "m i")
      case None
      with less.prems(3) show ?thesis by (auto simp: e node_ok_def)
    next
      case (Some c)
      with assms(2) have "bv_ok c" "symbol_of b i (m_size c)" by (simp_all add: model_typed_def)
      with symbol_of_unique[OF assms(1) \<open>symbol_of b i n\<close>] Some show ?thesis by (simp add: e node_ok_def)
    qed
  next
    case False
    then show ?thesis using f(1) by (cases e) (simp_all add: node_ok_def)
  qed
  moreover have "evaluable m mc x" if "x \<in> set (children e)" for x
  proof (rule less.IH[OF children_size[OF that]])
    show "mc \<or> syms x \<subseteq> dom m"
    proof (cases "kind e = K_SYM")
      case True
      then show ?thesis using that by (cases e) simp_all
    next
      case False
      then show ?thesis using less.prems(3) that syms_children[OF False] by blast
    qed
  qed (use f t that in auto)
  ultimately show ?case by (simp add: evaluable.simps[of _ _ e])
qed

lemma evaluable_and_closed: "and_closed (evaluable m mc)"
  by (auto simp: and_closed_def evaluable.simps[of _ _ "BoolAndExpr es" for es] evaluable.simps[of _ _ "BoolConst p" for p]
      node_ok_def is_fp_def)

section \<open>Reading a model\<close>

text \<open>What Z3 documents of a model, and that it only knows the symbols of the builder: every entry is a symbol once with its
  width and a numeral of a value of that width, and every assignment that agrees with the entries satisfies the assertions.\<close>

definition entry_ok :: "builder \<Rightarrow> string \<times> nat \<times> string \<Rightarrow> bool" where
  "entry_ok b x \<longleftrightarrow> (case x of (name, n, val) \<Rightarrow>
     \<exists>i v. m_symbols b name = Some (SymExpr i n) \<and> n \<le> 4000 \<and> 0 \<le> v \<and> v < 2 ^ n \<and> val = digits 10 (nat v))"

definition agrees :: "(string \<Rightarrow> int) \<Rightarrow> string \<times> nat \<times> string \<Rightarrow> bool" where
  "agrees \<eta> x \<longleftrightarrow> (case x of (name, n, val) \<Rightarrow> 0 \<le> \<eta> name \<and> \<eta> name < 2 ^ n \<and> val = digits 10 (nat (\<eta> name)))"

definition models_sound :: "'z z3_engine \<Rightarrow> 'z z3_sem \<Rightarrow> builder \<Rightarrow> bool" where
  "models_sound E S b \<longleftrightarrow> (\<forall>k as. z_check E k as = Z3_sat \<longrightarrow>
     distinct (map fst (z_model E k as)) \<and> (\<forall>x\<in>set (z_model E k as). entry_ok b x) \<and>
     (\<forall>\<eta>. (\<forall>x\<in>set (z_model E k as). agrees \<eta> x) \<longrightarrow> (\<forall>a\<in>set as. zval S \<eta> a \<noteq> 0)))"

lemma models_sound_syms: "models_sound E S b \<Longrightarrow> same_syms b b' \<Longrightarrow> models_sound E S b'"
  by (simp add: models_sound_def entry_ok_def[abs_def] same_syms_def)

lemma typed_syms: "typed b e \<Longrightarrow> same_syms b b' \<Longrightarrow> typed b' e"
proof (induction e rule: measure_induct_rule[where f = size])
  case (less e)
  then show ?case using children_size
    by (auto simp: typed.simps[of _ e] symbol_of_def same_syms_def split: expr.splits)
qed

lemma model_typed_syms: "model_typed b m \<Longrightarrow> same_syms b b' \<Longrightarrow> model_typed b' m"
  by (simp add: model_typed_def symbol_of_def same_syms_def)

lemma bv_rep_exists:
  assumes "0 < n" "0 \<le> v" "v < 2 ^ n"
  obtains c where "bv_rep n v c"
proof -
  define c where "c = \<lparr>m_size = n, m_small_val = (if n \<le> 64 then Some (word_of_int v) else None), m_big_val = (if n \<le> 64 then 0 else v)\<rparr>"
  have "bv_rep n v c"
  proof (cases "n \<le> 64")
    case True
    then have "(2 :: int) ^ n \<le> 2 ^ 64" by (intro power_increasing) simp_all
    with assms have "v < 2 ^ 64" by simp
    with assms True show ?thesis
      by (auto simp: bv_rep_def bv_ok_def bv_val_def c_def take_bit_int_eq_self uint_word_of_int_eq)
  next
    case False
    with assms show ?thesis by (auto simp: bv_rep_def bv_ok_def bv_val_def c_def)
  qed
  then show ?thesis by (rule that)
qed

lemma numeral_read:
  assumes "0 < n" "n \<le> 4000" "0 \<le> v" "v < 2 ^ n"
  obtains c where "BVConst_str (digits 10 (nat v)) n = Inr c" "bv_rep n v c"
proof -
  obtain d where "bv_rep n v d" by (rule bv_rep_exists[OF assms(1,3,4)])
  from print_parse[OF this assms(2), of False] print_digits[OF this assms(2), of False]
  show ?thesis by (auto simp: bv_yields_def intro: that)
qed

lemma read_model_spec:
  assumes "symbols_ok b"
  shows "(\<forall>x\<in>set es. entry_ok b x) \<Longrightarrow> distinct (map fst es) \<Longrightarrow>
    (\<forall>name n val i. (name, n, val) \<in> set es \<and> m_symbols b name = Some (SymExpr i n) \<longrightarrow> res i = None) \<Longrightarrow>
    \<exists>r. read_model es res b = Inr (r, b) \<and> (\<forall>i. res i \<noteq> None \<longrightarrow> r i = res i) \<and>
      (\<forall>name n val. (name, n, val) \<in> set es \<longrightarrow> (\<exists>i c v. m_symbols b name = Some (SymExpr i n) \<and> r i = Some c \<and>
        bv_rep n v c \<and> val = digits 10 (nat v))) \<and>
      (\<forall>i c. r i = Some c \<longrightarrow> res i = Some c \<or> bv_ok c \<and> symbol_of b i (m_size c))"
proof (induction es arbitrary: res)
  case Nil
  then show ?case by (simp add: ret_apply)
next
  case (Cons x es)
  obtain name n val where x: "x = (name, n, val)" by (cases x)
  from Cons.prems(1) x obtain i v where i: "m_symbols b name = Some (SymExpr i n)" "n \<le> 4000" "0 \<le> v" "v < 2 ^ n" "val = digits 10 (nat v)"
    by (auto simp: entry_ok_def)
  have n: "0 < n" "m_sym_id_to_name b i = Some name" using assms i(1) by (auto simp: symbols_ok_def)
  obtain c where c: "BVConst_str val n = Inr c" "bv_rep n v c" unfolding i(5) by (rule numeral_read[OF n(1) i(2-4)])
  have new: "res i = None" using Cons.prems(3) x i(1) by auto
  let ?res = "res(i \<mapsto> c)"
  have "\<forall>name' k val' j. (name', k, val') \<in> set es \<and> m_symbols b name' = Some (SymExpr j k) \<longrightarrow> ?res j = None"
  proof (intro allI impI)
    fix name' k val' j
    assume a: "(name', k, val') \<in> set es \<and> m_symbols b name' = Some (SymExpr j k)"
    then have "name' \<noteq> name" using Cons.prems(2) x by force
    moreover have "m_sym_id_to_name b j = Some name'" using assms a by (auto simp: symbols_ok_def)
    ultimately have "j \<noteq> i" using n(2) by auto
    then show "?res j = None" using Cons.prems(3) a by auto
  qed
  moreover have "\<forall>x\<in>set es. entry_ok b x" "distinct (map fst es)" using Cons.prems(1,2) by auto
  ultimately obtain r where r: "read_model es ?res b = Inr (r, b)" "\<forall>i. ?res i \<noteq> None \<longrightarrow> r i = ?res i"
    "\<forall>name n val. (name, n, val) \<in> set es \<longrightarrow> (\<exists>i c v. m_symbols b name = Some (SymExpr i n) \<and> r i = Some c \<and>
        bv_rep n v c \<and> val = digits 10 (nat v))"
    "\<forall>i c. r i = Some c \<longrightarrow> ?res i = Some c \<or> bv_ok c \<and> symbol_of b i (m_size c)"
    using Cons.IH by blast
  have "read_model (x # es) res b = Inr (r, b)"
    using x c(1) i(1) new r(1) by (simp add: bnd_def get_sym_id_def ret_apply)
  moreover have "\<forall>i. res i \<noteq> None \<longrightarrow> r i = res i" using r(2) new by (metis fun_upd_other)
  moreover have "r i = Some c" using r(2) by (metis fun_upd_same option.distinct(1))
  moreover have "\<forall>j d. r j = Some d \<longrightarrow> res j = Some d \<or> bv_ok d \<and> symbol_of b j (m_size d)"
  proof (intro allI impI)
    fix j d
    assume d: "r j = Some d"
    show "res j = Some d \<or> bv_ok d \<and> symbol_of b j (m_size d)"
    proof (cases "j = i")
      case True
      then have "d = c" using d \<open>r i = Some c\<close> by simp
      then show ?thesis using c(2) i(1) True by (auto simp: bv_rep_def symbol_of_def)
    next
      case False
      then show ?thesis using r(4) d by (metis fun_upd_other)
    qed
  qed
  ultimately show ?case using r(3) i(1,5) c(2) x by (intro exI[of _ r]) auto
qed

text \<open>The assignment of the names that a model of the identifiers gives.\<close>

definition by_name :: "builder \<Rightarrow> (nat \<Rightarrow> int) \<Rightarrow> string \<Rightarrow> int" where
  "by_name b \<rho> name = (case m_symbols b name of Some (SymExpr i n) \<Rightarrow> \<rho> i | _ \<Rightarrow> 0)"

lemma env_by_name: "symbols_ok b \<Longrightarrow> m_sym_id_to_name b i \<noteq> None \<Longrightarrow> env_names b (by_name b \<rho>) i = \<rho> i"
proof -
  assume ok: "symbols_ok b" and "m_sym_id_to_name b i \<noteq> None"
  then obtain name where name: "m_sym_id_to_name b i = Some name" by blast
  with ok obtain n where "m_symbols b name = Some (SymExpr i n)" unfolding symbols_ok_def by blast
  with name show ?thesis by (simp add: env_names_def by_name_def)
qed

lemma translatable_by_name:
  assumes "symbols_ok b" "translatable b e"
  shows "sem F (env_names b (by_name b \<rho>)) e = sem F \<rho> e"
  using translatable_named[OF assms(2)] assms(1) by (intro sem_coincidence) (simp add: env_by_name)

text \<open>Some model of Z3 gave values to the symbols that it names.\<close>

definition named_in :: "'z z3_engine \<Rightarrow> builder \<Rightarrow> (nat \<Rightarrow> bvconst option) \<Rightarrow> bool" where
  "named_in E b m \<longleftrightarrow> (\<exists>k zs. z_check E k zs = Z3_sat \<and>
     (\<forall>name n val i. (name, n, val) \<in> set (z_model E k zs) \<and> m_symbols b name = Some (SymExpr i n) \<longrightarrow> i \<in> dom m))"

text \<open>After the answer SAT, the model merged into the cached one solves the query.\<close>

lemma populate_solves:
  fixes w :: "'z z3_solver world"
  assumes sound: "z3_sound Z S" "models_sound E S (w_builder w)"
    and w: "binv A (w_builder w)" and q: "formula q" "translatable (w_builder w) q" and m: "model_typed (w_builder w) (m_model s)"
    and run: "check Z E q w = Inr (SAT, w')"
  obtains m' where "populate E (s, w') = Inr ((), (s\<lparr>m_model := m'\<rparr>, w'))" "w_builder w' = w_builder w" "w_involved w' = w_involved w"
    "model_typed (w_builder w) m'" "dom (m_model s) \<subseteq> dom m'" "holds F (env_of m') q" "named_in E (w_builder w) m'"
proof -
  let ?b = "w_builder w"
  have so: "symbols_ok ?b" using w by (simp add: binv_def)
  obtain zs where zs: "check Z E q w = Inr (answer_of (z_check E (z3_checks (w_z3 w)) zs),
      w\<lparr>w_z3 := \<lparr>z3_assertions = zs, z3_checks = z3_checks (w_z3 w) + 1\<rparr>\<rparr>)"
    "\<forall>\<eta>. (\<forall>z\<in>set zs. zval S \<eta> z \<noteq> 0) \<longleftrightarrow> holds F (env_names ?b \<eta>) q"
    by (rule check_run[OF sound(1) q])
  with run have w': "w' = w\<lparr>w_z3 := \<lparr>z3_assertions = zs, z3_checks = z3_checks (w_z3 w) + 1\<rparr>\<rparr>"
    and sat: "z_check E (z3_checks (w_z3 w)) zs = Z3_sat" by (auto simp: answer_of_def split: z3_answer.splits)
  let ?M = "z_model E (z3_checks (w_z3 w)) zs"
  have M: "distinct (map fst ?M)" "\<forall>x\<in>set ?M. entry_ok ?b x" "\<And>\<eta>. \<forall>x\<in>set ?M. agrees \<eta> x \<Longrightarrow> \<forall>a\<in>set zs. zval S \<eta> a \<noteq> 0"
    using sound(2) sat unfolding models_sound_def by blast+
  obtain r where r: "read_model ?M Map.empty ?b = Inr (r, ?b)"
    "\<forall>name n val. (name, n, val) \<in> set ?M \<longrightarrow> (\<exists>i c v. m_symbols ?b name = Some (SymExpr i n) \<and> r i = Some c \<and>
        bv_rep n v c \<and> val = digits 10 (nat v))"
    "\<forall>i c. r i = Some c \<longrightarrow> bv_ok c \<and> symbol_of ?b i (m_size c)"
    using read_model_spec[OF so M(2,1), of Map.empty] by auto
  let ?m = "m_model s ++ r"
  have "populate E (s, w') = Inr ((), (s\<lparr>m_model := ?m\<rparr>, w'))"
    using r(1) by (simp add: populate_def in_world_def model_def w' in_builder_def bnd_def get_solver_def set_model_def)
  moreover have "model_typed ?b ?m" using m r(3) by (auto simp: model_typed_def map_add_def split: option.splits)
  moreover have "dom (m_model s) \<subseteq> dom ?m" by auto
  moreover have "holds F (env_of ?m) q"
  proof -
    have "agrees (by_name ?b (env_of ?m)) x" if "x \<in> set ?M" for x
    proof -
      obtain name n val where x: "x = (name, n, val)" by (cases x)
      with r(2) that obtain i c v where e: "m_symbols ?b name = Some (SymExpr i n)" "r i = Some c" "bv_rep n v c" "val = digits 10 (nat v)"
        by blast
      then have "env_of ?m i = v" by (simp add: env_of_def map_add_def bv_rep_def)
      with e bv_rep_range[OF e(3)] show ?thesis by (simp add: agrees_def x by_name_def)
    qed
    then have "\<forall>a\<in>set zs. zval S (by_name ?b (env_of ?m)) a \<noteq> 0" using M(3) by blast
    then have "holds F (env_names ?b (by_name ?b (env_of ?m))) q" using zs(2) by blast
    then show ?thesis by (simp add: translatable_by_name[OF so q(2)])
  qed
  moreover have "named_in E ?b ?m"
    unfolding named_in_def using r(2) by (intro exI[of _ "z3_checks (w_z3 w)"] exI[of _ zs] conjI[OF sat]) fastforce
  ultimately show ?thesis by (intro that) (simp_all add: w')
qed

section \<open>A path with a model\<close>

text \<open>The constraints are typed formulas of the fragment; the cached model covers them when it has a value for each of their
  symbols. To start with it need not: \<open>path_sound\<close> says that evaluating the path under it is sound.\<close>

definition constrained :: "builder \<Rightarrow> solver \<Rightarrow> bool" where
  "constrained b s \<longleftrightarrow> slice_ok b (m_manager s) \<and> model_typed b (m_model s) \<and>
     (\<forall>c\<in>set (m_constraints (m_manager s)). fragment c \<and> typed b c)"

definition path_sound :: "amb \<Rightarrow> solver \<Rightarrow> 'z z3_solver world \<Rightarrow> bool" where
  "path_sound A s w \<longleftrightarrow> (case cm_pi_all A (m_manager s) w of
     Inl _ \<Rightarrow> False | Inr (p, w') \<Rightarrow> eval_sound A (m_model s) p (w_builder w'))"

definition covered :: "amb \<Rightarrow> builder \<Rightarrow> solver \<Rightarrow> bool" where
  "covered A b s \<longleftrightarrow> slice_ok b (m_manager s) \<and> model_typed b (m_model s) \<and>
     (\<forall>c\<in>set (m_constraints (m_manager s)). fragment c \<and> typed b c \<and> syms c \<subseteq> dom (m_model s))"

lemma covered_iff: "covered A b s \<longleftrightarrow> constrained b s \<and> (\<forall>c\<in>set (m_constraints (m_manager s)). syms c \<subseteq> dom (m_model s))"
  by (auto simp: covered_def constrained_def)

definition solves :: "amb \<Rightarrow> solver \<Rightarrow> bool" where
  "solves A s \<longleftrightarrow> (\<forall>c\<in>set (m_constraints (m_manager s)). holds (fpl A) (env_of (m_model s)) c)"

lemma covered_syms: "covered A b s \<Longrightarrow> same_syms b b' \<Longrightarrow> covered A b' s"
  using translatable_syms[of b _ b'] typed_syms[of b _ b'] model_typed_syms[of b _ b']
  by (auto simp: covered_def slice_ok_def same_syms_def)

lemma constrained_syms: "constrained b s \<Longrightarrow> same_syms b b' \<Longrightarrow> constrained b' s"
  using translatable_syms[of b _ b'] typed_syms[of b _ b'] model_typed_syms[of b _ b']
  by (auto simp: constrained_def slice_ok_def same_syms_def)

lemma covered_query:
  assumes "covered A b s" "symbols_ok b" "c \<in> set (m_constraints (m_manager s))"
  shows "formula c" "translatable b c" "evaluable (m_model s) False c"
  using assms fragment_evaluable[OF assms(2), of "m_model s" c False]
  by (auto simp: covered_def slice_ok_def cm_inv_def)

lemma both_and_closed: "and_closed P \<Longrightarrow> and_closed Q \<Longrightarrow> and_closed (\<lambda>e. P e \<and> Q e)"
  by (auto simp: and_closed_def)

lemma ready_and_closed: "and_closed (\<lambda>p. translatable b p \<and> evaluable m False p)"
  by (intro both_and_closed and_closed_translatable evaluable_and_closed)

lemma cm_pi_all_ready:
  assumes "constrained b s"
  shows "wbuilds A (cm_pi_all A (m_manager s)) (\<lambda>p. asserts A (\<lambda>\<rho>. \<forall>c\<in>set (m_constraints (m_manager s)). holds (fpl A) \<rho> c) p \<and>
    translatable b p)"
proof (cases "m_constraints (m_manager s)")
  case Nil
  then show ?thesis
    by (auto simp: cm_pi_all_def mk_true_def asserts_def intro!: wbuilds_builder builds_ret)
next
  case (Cons c cs)
  have f: "\<forall>d\<in>set (c # cs). formula d \<and> translatable b d"
    using assms unfolding Cons[symmetric] by (auto simp: constrained_def slice_ok_def cm_inv_def)
  then have "formula c" "\<forall>d\<in>set cs. formula d" by simp_all
  from builds_conj[OF and_all_spec[OF this] and_all_closed[OF and_closed_translatable[of b], of cs c A]] f
  show ?thesis by (auto simp: cm_pi_all_def Cons intro!: wbuilds_builder)
qed

lemma cm_pi_ready:
  assumes "covered A b s" "symbols_ok b"
  shows "wbuilds A (cm_pi A (m_manager s) e) (\<lambda>p. asserts A (\<lambda>\<rho>. \<forall>c\<in>query_slice (m_manager s) e. holds (fpl A) \<rho> c) p \<and>
    translatable b p \<and> evaluable (m_model s) False p)"
proof (rule cm_pi_wbuilds)
  show "cm_inv (m_manager s)" using assms(1) by (simp add: covered_def slice_ok_def)
  fix es
  assume e: "set es = query_slice (m_manager s) e"
  have f: "\<forall>d\<in>set es. formula d \<and> translatable b d \<and> evaluable (m_model s) False d"
    using covered_query[OF assms] unfolding e by (auto simp: query_slice_def)
  then have "\<forall>d\<in>set es. formula d" by simp
  from builds_conj[OF mk_bool_and_no_simpl_asserts[OF this, of A] mk_bool_and_no_simpl_closed[OF ready_and_closed f, of A]]
  show "builds A (mk_bool_and_no_simpl A es)
      (\<lambda>p. asserts A (\<lambda>\<rho>. \<forall>c\<in>query_slice (m_manager s) e. holds (fpl A) \<rho> c) p \<and> translatable b p \<and> evaluable (m_model s) False p)"
    unfolding e .
qed

lemma evaluate_on_path:
  assumes "world_ok A w" "formula c" "evaluable m False c"
  obtains b1 where "building (evaluate A c m False) (s, w) = Inr (BoolConst (holds (fpl A) (env_of m) c), (s, w\<lparr>w_builder := b1\<rparr>))"
    "world_ok A (w\<lparr>w_builder := b1\<rparr>)" "same_syms (w_builder w) b1"
proof -
  have f: "wf_expr c" "is_bool c" using assms(2) by (simp_all add: formula_def)
  have "binv A (w_builder w)" using assms(1) by (simp add: world_ok_def)
  from evaluate_result[OF this f(1) assms(3)] f(2) obtain b1 where
    "evaluate A c m False (w_builder w) = Inr (BoolConst (holds (fpl A) (env_of m) c), b1)" "binv A b1" "same_syms (w_builder w) b1"
    by (auto simp: result_bool)
  with assms(1) that show ?thesis by (simp add: building_def in_world_def in_builder_def world_ok_def)
qed

lemma manager_pi_all_run: "cm_pi_all A (m_manager s) w = Inr (p, w') \<Longrightarrow> manager_pi_all A (s, w) = Inr (p, (s, w'))"
  by (simp add: manager_pi_all_def get_solver_def bnd_def in_world_def)

text \<open>When the question is answered with SAT, the cached model solves the path, whether it did before or Z3 had to be asked.\<close>

lemma satisfiable_solves:
  fixes w :: "'z z3_solver world"
  assumes sound: "z3_sound Z S" "models_sound E S (w_builder w)" and w: "world_ok A w" and con: "constrained (w_builder w) s"
    and ps: "path_sound A s w"
  obtains r s' w' where "satisfiable A Z E (s, w) = Inr (r, (s', w'))" "world_ok A w'" "same_syms (w_builder w) (w_builder w')"
    "m_manager s' = m_manager s" "constrained (w_builder w') s'" "r = SAT \<Longrightarrow> solves A s'"
    "r = SAT \<Longrightarrow> s' = s \<and> (\<forall>\<rho>. \<forall>c\<in>set (m_constraints (m_manager s)). holds (fpl A) (upd_env (m_model s) \<rho>) c) \<or>
      named_in E (w_builder w) (m_model s')"
proof -
  let ?b = "w_builder w" and ?C = "set (m_constraints (m_manager s))"
  obtain p w1 where p: "cm_pi_all A (m_manager s) w = Inr (p, w1)" "world_ok A w1" "same_syms ?b (w_builder w1)"
    "asserts A (\<lambda>\<rho>. \<forall>c\<in>?C. holds (fpl A) \<rho> c) p"
    by (rule wbuildsE[OF cm_pi_all_ready[OF con] w]) auto
  have fp: "formula p" "\<And>\<rho>. holds (fpl A) \<rho> p \<longleftrightarrow> (\<forall>c\<in>?C. holds (fpl A) \<rho> c)" using p(4) by (auto simp: asserts_def formula_def)
  have es: "eval_sound A (m_model s) p (w_builder w1)" using ps p(1) by (simp add: path_sound_def)
  obtain v b2 where e: "building (evaluate A p (m_model s) False) (s, w1) = Inr (v, (s, w1\<lparr>w_builder := b2\<rparr>))"
    "world_ok A (w1\<lparr>w_builder := b2\<rparr>)" "same_syms (w_builder w1) b2" "asserts A (\<lambda>\<rho>. holds (fpl A) (upd_env (m_model s) \<rho>) p) v"
    by (rule eval_formula[OF p(2) fp(1) es])
  let ?w2 = "w1\<lparr>w_builder := b2\<rparr>"
  have s2: "same_syms ?b b2" using p(3) e(3) by (rule same_syms_trans)
  note step = manager_pi_all_run[OF p(1)] e(1)
  show ?thesis
  proof (cases "is_true_const v")
    case True
    have run: "satisfiable A Z E (s, w) = Inr (SAT, (s, ?w2))"
      using step True by (simp add: satisfiable_def bnd_def get_solver_def ret_apply)
    have all: "\<forall>\<rho>. \<forall>c\<in>?C. holds (fpl A) (upd_env (m_model s) \<rho>) c"
      using asserts_true_const[OF e(4) True] fp(2) by blast
    have "upd_env (m_model s) (\<lambda>_. 0) = env_of (m_model s)"
      by (rule ext) (simp add: upd_env_def env_of_def split: option.split)
    with all have "solves A s" unfolding solves_def by metis
    with all show ?thesis
      by (intro that[OF run]) (use e(2) s2 constrained_syms[OF con s2] in simp_all)
  next
    case False
    have con2: "constrained (w_builder ?w2) s" using constrained_syms[OF con s2] by simp
    obtain q w3 where q: "cm_pi_all A (m_manager s) ?w2 = Inr (q, w3)" "world_ok A w3" "same_syms b2 (w_builder w3)"
      "asserts A (\<lambda>\<rho>. \<forall>c\<in>?C. holds (fpl A) \<rho> c) q" "translatable b2 q"
      by (rule wbuildsE[OF cm_pi_all_ready[OF con2] e(2)]) auto
    have s3: "same_syms ?b (w_builder w3)" using s2 q(3) by (rule same_syms_trans)
    have fq: "formula q" "\<And>\<rho>. holds (fpl A) \<rho> q \<longleftrightarrow> (\<forall>c\<in>?C. holds (fpl A) \<rho> c)" using q(4) by (auto simp: asserts_def formula_def)
    have tq: "translatable (w_builder w3) q" using q(3,5) translatable_syms by (auto simp: same_syms_def)
    obtain zs where run: "check Z E q w3 = Inr (answer_of (z_check E (z3_checks (w_z3 w3)) zs),
      w3\<lparr>w_z3 := \<lparr>z3_assertions = zs, z3_checks = z3_checks (w_z3 w3) + 1\<rparr>\<rparr>)"
      by (rule check_run[OF sound(1) fq(1) tq, of E]) blast
    let ?r = "answer_of (z_check E (z3_checks (w_z3 w3)) zs)"
    let ?w4 = "w3\<lparr>w_z3 := \<lparr>z3_assertions = zs, z3_checks = z3_checks (w_z3 w3) + 1\<rparr>\<rparr>"
    have w4: "world_ok A ?w4" using q(2) by (simp add: world_ok_def)
    have asked: "satisfiable A Z E (s, w) = bnd (if ?r = SAT then populate E else ret ()) (\<lambda>_. ret ?r) (s, ?w4)"
      using step False asserts_not_const[OF e(4)] manager_pi_all_run[OF q(1)] run
      by (simp add: satisfiable_def bnd_def get_solver_def in_world_def)
    show ?thesis
    proof (cases "?r = SAT")
      case no: False
      have "satisfiable A Z E (s, w) = Inr (?r, (s, ?w4))" using asked no by (simp add: ret_apply)
      then show ?thesis by (rule that) (use w4 s3 constrained_syms[OF con s3] no in simp_all)
    next
      case yes: True
      have mt: "model_typed (w_builder w3) (m_model s)" using constrained_syms[OF con s3] by (simp add: constrained_def)
      obtain m' where m': "populate E (s, ?w4) = Inr ((), (s\<lparr>m_model := m'\<rparr>, ?w4))" "model_typed (w_builder w3) m'"
        "holds (fpl A) (env_of m') q" "named_in E (w_builder w3) m'"
        by (rule populate_solves[OF sound(1) models_sound_syms[OF sound(2) s3] _ fq(1) tq mt])
          (use q(2) run yes in \<open>auto simp: world_ok_def\<close>)
      have run: "satisfiable A Z E (s, w) = Inr (SAT, (s\<lparr>m_model := m'\<rparr>, ?w4))"
        using asked yes m'(1) by (simp add: bnd_def ret_apply)
      have cv: "constrained (w_builder ?w4) (s\<lparr>m_model := m'\<rparr>)"
        using constrained_syms[OF con s3] m'(2) by (simp add: constrained_def)
      have sl: "solves A (s\<lparr>m_model := m'\<rparr>)" using m'(3) fq(2) by (simp add: solves_def)
      have nm: "named_in E ?b m'" using m'(4) s3 by (simp add: named_in_def same_syms_def)
      show ?thesis by (rule that[OF run]) (use w4 s3 cv sl nm in simp_all)
    qed
  qed
qed

section \<open>Values\<close>

text \<open>On a solved path the model is not asked for again, and an expression has its value under it.\<close>

lemma check_slice_solved:
  fixes w :: "'z z3_solver world"
  assumes w: "world_ok A w" and cov: "covered A (w_builder w) s" and sol: "solves A s"
  obtains w' where "bnd (manager_pi A e) (\<lambda>p. check_sat A Z E p True) (s, w) = Inr (SAT, (s, w'))" "world_ok A w'"
    "same_syms (w_builder w) (w_builder w')"
proof -
  have so: "symbols_ok (w_builder w)" using w by (simp add: world_ok_def binv_def)
  obtain p w1 where p: "cm_pi A (m_manager s) e w = Inr (p, w1)" "world_ok A w1" "same_syms (w_builder w) (w_builder w1)"
    "asserts A (\<lambda>\<rho>. \<forall>c\<in>query_slice (m_manager s) e. holds (fpl A) \<rho> c) p" "evaluable (m_model s) False p"
    by (rule wbuildsE[OF cm_pi_ready[OF cov so] w]) auto
  have h: "holds (fpl A) (env_of (m_model s)) p"
    using p(4) sol by (auto simp: asserts_def solves_def query_slice_def)
  have f: "formula p" using p(4) by (simp add: asserts_def formula_def)
  obtain b2 where e: "building (evaluate A p (m_model s) False) (s, w1) = Inr (BoolConst True, (s, w1\<lparr>w_builder := b2\<rparr>))"
    "world_ok A (w1\<lparr>w_builder := b2\<rparr>)" "same_syms (w_builder w1) b2"
    by (rule evaluate_on_path[OF p(2) f p(5)]) (use h in simp)
  have pi: "manager_pi A e (s, w) = Inr (p, (s, w1))"
    using p(1) by (simp add: manager_pi_def get_solver_def bnd_def in_world_def)
  show ?thesis
  proof (cases "kind p = K_BOOL_CONST")
    case True
    then have "p = BoolConst True" using h by (cases p) auto
    then have "bnd (manager_pi A e) (\<lambda>p. check_sat A Z E p True) (s, w) = Inr (SAT, (s, w1))"
      using pi by (simp add: bnd_def check_sat_def ret_apply)
    then show ?thesis by (rule that) (use p(2,3) in simp_all)
  next
    case False
    then have "bnd (manager_pi A e) (\<lambda>p. check_sat A Z E p True) (s, w) = Inr (SAT, (s, w1\<lparr>w_builder := b2\<rparr>))"
      using pi e(1) by (simp add: check_sat_not_const bnd_def get_solver_def ret_apply)
    then show ?thesis by (rule that) (use e(2) same_syms_trans[OF p(3) e(3)] in simp_all)
  qed
qed

lemma solver_evaluate_solved:
  fixes w :: "'z z3_solver world"
  assumes w: "world_ok A w" and cov: "covered A (w_builder w) s" and sol: "solves A s"
    and e: "wf_expr e" "is_bv e" "fragment e" "typed (w_builder w) e"
  obtains c w' where "solver_evaluate A Z E e (s, w) = Inr (Some c, (s, w'))" "world_ok A w'"
    "same_syms (w_builder w) (w_builder w')" "bv_rep (expr_size e) (sem (fpl A) (env_of (m_model s)) e) c"
proof -
  have i: "involved_ok (w_involved w)" using w by (simp add: world_ok_def)
  obtain ids g where d: "get_dependencies (m_manager s) e (w_involved w) = (ids, g)" "involved_ok g"
    using get_dependencies_spec[OF i] by metis
  let ?w = "w\<lparr>w_involved := g\<rparr>"
  have w1: "world_ok A ?w" using w d(2) by (simp add: world_ok_def)
  have cov1: "covered A (w_builder ?w) s" using cov by simp
  let ?ask = "if list_ex (\<lambda>s_id. m_model s s_id = None) ids then bnd (manager_pi A e) (\<lambda>p. check_sat A Z E p True) else ret SAT"
  obtain w2 where a: "?ask (s, ?w) = Inr (SAT, (s, w2))" "world_ok A w2" "same_syms (w_builder w) (w_builder w2)"
  proof (cases "list_ex (\<lambda>s_id. m_model s s_id = None) ids")
    case True
    obtain w' where "bnd (manager_pi A e) (\<lambda>p. check_sat A Z E p True) (s, ?w) = Inr (SAT, (s, w'))" "world_ok A w'"
      "same_syms (w_builder ?w) (w_builder w')" by (rule check_slice_solved[OF w1 cov1 sol])
    with True show ?thesis by (intro that) simp_all
  next
    case False
    then have "?ask (s, ?w) = Inr (SAT, (s, ?w))" by (simp add: ret_apply)
    then show ?thesis by (rule that) (use w1 in simp_all)
  qed
  have cov2: "covered A (w_builder w2) s" by (rule covered_syms[OF cov a(3)])
  have b2: "binv A (w_builder w2)" using a(2) by (simp add: world_ok_def)
  have "evaluable (m_model s) True e"
    using fragment_evaluable[of "w_builder w2" "m_model s" e True] b2 cov2 e(3) typed_syms[OF e(4) a(3)]
    by (simp add: covered_def binv_def)
  from evaluate_result[OF b2 e(1) this] e(2) obtain r b3 where r: "evaluate A e (m_model s) True (w_builder w2) = Inr (r, b3)"
    "binv A b3" "same_syms (w_builder w2) b3" "konst (expr_size e) (sem (fpl A) (env_of (m_model s)) e) r"
    by (auto simp: result_bv)
  then obtain c where c: "r = ConstExpr c" "bv_rep (expr_size e) (sem (fpl A) (env_of (m_model s)) e) c" by (auto simp: konst_def)
  have "solver_evaluate A Z E e (s, w) = Inr (Some c, (s, w2\<lparr>w_builder := b3\<rparr>))"
    using d(1) a(1) r(1) c(1)
    by (simp add: solver_evaluate_def bnd_def dependencies_def get_solver_def building_def in_world_def in_builder_def solver_value_def ret_apply)
  then show ?thesis
    by (rule that) (use a(2) r(2) same_syms_trans[OF a(3) r(3)] c(2) in \<open>simp_all add: world_ok_def\<close>)
qed

end
