(* ===== verification/Dump_Properties.thy ===== *)
theory Dump_Properties
  imports Dump Solver_Properties SolverModel BytesSpec Exploration_Properties
begin

text \<open>
  What a state writes out solves its path: the files that \<^verbatim>\<open>dump\<close> writes hold the values of the arguments and of the symbols
  of the configuration under one assignment that satisfies all the constraints.
\<close>

section \<open>The texts\<close>










section \<open>The values\<close>












section \<open>The files\<close>












section \<open>Property\<close>


section \<open>A sample\<close>













end
