(* ===== verification/Printer.thy ===== *)
theory Printer
  imports BVPrint ExprBuilder
begin

text \<open>
  The printing of expressions, \<^verbatim>\<open>expr_to_string\<close> of \<^verbatim>\<open>expr/util.cpp\<close>: a recursion over the nodes with a cache from nodes to
  texts, and the proof that the cache does not show: the text is the flattening of the layouts of the nodes.

  The arguments of \<^verbatim>\<open>string_format\<close> are passed as C strings, which end at their first null character, and the loops over the
  operands of a node append whole strings. The switch looks at the kind a node reports. The text of a floating-point constant
  comes from the class \<^verbatim>\<open>FloatFormat\<close> and the C library: it is the parameter \<open>pf\<close>.
\<close>

section \<open>The code\<close>

type_synonym pcache = "expr \<Rightarrow> string option"

type_synonym pm = "(pcache, string) smonad"

definition c_str :: "string \<Rightarrow> string" where
  "c_str s = takeWhile (\<lambda>c. c \<noteq> CHR 0x00) s"

definition print_nat :: "nat \<Rightarrow> string" where
  "print_nat n = digits 10 n"

definition pr1 :: "(expr \<Rightarrow> pm) \<Rightarrow> string \<Rightarrow> expr \<Rightarrow> string \<Rightarrow> pm" where
  "pr1 pr l x r = bnd (pr x) (\<lambda>s. ret (l @ c_str s @ r))"

definition pr2 :: "(expr \<Rightarrow> pm) \<Rightarrow> expr \<Rightarrow> string \<Rightarrow> expr \<Rightarrow> pm" where
  "pr2 pr x sep y = bnd (pr x) (\<lambda>s. bnd (pr y) (\<lambda>t. ret (''( '' @ c_str s @ sep @ c_str t @ '' )'')))"

fun pr_rest :: "(expr \<Rightarrow> pm) \<Rightarrow> string \<Rightarrow> string \<Rightarrow> expr list \<Rightarrow> pm" where
  "pr_rest pr sep res [] = ret (res @ '' )'')"
| "pr_rest pr sep res (x # xs) = bnd (pr x) (\<lambda>s. pr_rest pr sep (res @ sep @ s) xs)"

definition pr_list :: "(expr \<Rightarrow> pm) \<Rightarrow> string \<Rightarrow> expr list \<Rightarrow> pm" where
  "pr_list pr sep es = (case es of
     [] \<Rightarrow> throw (StdException ''out_of_range'') | x # xs \<Rightarrow> bnd (pr x) (\<lambda>s. pr_rest pr sep (''( '' @ s) xs))"

definition print_fp :: "(fpconst \<Rightarrow> string) \<Rightarrow> (expr \<Rightarrow> pm) \<Rightarrow> expr \<Rightarrow> pm" where
  "print_fp pf pr e = (case e of
     FPConstExpr c \<Rightarrow> ret (pf c)
   | BVToFPExpr ff x \<Rightarrow> pr1 pr ''BVToFP('' x '')''
   | FPToBVExpr x \<Rightarrow> pr1 pr ''FPToBV('' x '')''
   | FPConvert x ff \<Rightarrow> pr1 pr ''FPConvert('' x ('', '' @ print_nat (ff_getSize (expr_ff x) * 8) @ '', '' @
       print_nat (ff_getSize ff * 8) @ '')'')
   | IntToFPExpr x ff \<Rightarrow> pr1 pr ''IntToFP('' x ('', '' @ print_nat (ff_getSize ff * 8) @ '')'')
   | FPIsNAN x \<Rightarrow> pr1 pr ''FPIsNAN('' x '')''
   | FPNegExpr x \<Rightarrow> pr1 pr ''-'' x []
   | FPAddExpr es \<Rightarrow> pr_list pr '' + '' es
   | FPMulExpr es \<Rightarrow> pr_list pr '' * '' es
   | FPDivExpr x y \<Rightarrow> pr2 pr x '' / '' y
   | FPLtExpr x y \<Rightarrow> pr2 pr x '' < '' y
   | FPEqExpr x y \<Rightarrow> pr2 pr x '' == '' y
   | _ \<Rightarrow> throw (Exit ''to_string_inner''))"

definition print_logical :: "(fpconst \<Rightarrow> string) \<Rightarrow> (expr \<Rightarrow> pm) \<Rightarrow> expr \<Rightarrow> pm" where
  "print_logical pf pr e = (case e of
     BoolNotExpr x \<Rightarrow> pr1 pr ''!'' x []
   | UltExpr x y \<Rightarrow> pr2 pr x '' u< '' y
   | UleExpr x y \<Rightarrow> pr2 pr x '' u<= '' y
   | UgtExpr x y \<Rightarrow> pr2 pr x '' u> '' y
   | UgeExpr x y \<Rightarrow> pr2 pr x '' u>= '' y
   | SltExpr x y \<Rightarrow> pr2 pr x '' s< '' y
   | SleExpr x y \<Rightarrow> pr2 pr x '' s<= '' y
   | SgtExpr x y \<Rightarrow> pr2 pr x '' s> '' y
   | SgeExpr x y \<Rightarrow> pr2 pr x '' s>= '' y
   | EqExpr x y \<Rightarrow> pr2 pr x '' == '' y
   | BoolAndExpr es \<Rightarrow> pr_list pr '' && '' es
   | BoolOrExpr es \<Rightarrow> pr_list pr '' || '' es
   | _ \<Rightarrow> print_fp pf pr e)"

text \<open>The remainders report the kinds of the divisions, so their own cases are never taken.\<close>

definition print_nary :: "(fpconst \<Rightarrow> string) \<Rightarrow> (expr \<Rightarrow> pm) \<Rightarrow> expr \<Rightarrow> pm" where
  "print_nary pf pr e = (case e of
     AndExpr es \<Rightarrow> pr_list pr '' & '' es
   | OrExpr es \<Rightarrow> pr_list pr '' | '' es
   | XorExpr es \<Rightarrow> pr_list pr '' ^ '' es
   | AddExpr es \<Rightarrow> pr_list pr '' + '' es
   | MulExpr es \<Rightarrow> pr_list pr '' * '' es
   | SDivExpr x y _ \<Rightarrow> pr2 pr x '' s/ '' y
   | UDivExpr x y _ \<Rightarrow> pr2 pr x '' /u '' y
   | SRemExpr x y _ \<Rightarrow> pr2 pr x '' s/ '' y
   | URemExpr x y _ \<Rightarrow> pr2 pr x '' /u '' y
   | _ \<Rightarrow> print_logical pf pr e)"

text \<open>The symbols of \<open>b\<close> have the names; an arithmetic right shift is printed as a logical one.\<close>

definition print_node :: "(fpconst \<Rightarrow> string) \<Rightarrow> builder \<Rightarrow> (expr \<Rightarrow> pm) \<Rightarrow> expr \<Rightarrow> pm" where
  "print_node pf b pr e = (case e of
     SymExpr i n \<Rightarrow> (case get_sym_name i b of Inl f \<Rightarrow> throw f | Inr (name, _) \<Rightarrow> ret name)
   | ConstExpr c \<Rightarrow> liftr (bv_to_string True c)
   | BoolConst v \<Rightarrow> ret (if v then ''true'' else ''false'')
   | ExtractExpr x high low \<Rightarrow> pr1 pr [] x (''['' @ print_nat high @ '':'' @ print_nat low @ '']'')
   | ConcatExpr es \<Rightarrow> pr_list pr '' # '' es
   | ZextExpr x n \<Rightarrow> pr1 pr ''zext('' x ('', '' @ print_nat n @ '')'')
   | SextExpr x n \<Rightarrow> pr1 pr ''sext('' x ('', '' @ print_nat n @ '')'')
   | ITEExpr g t f \<Rightarrow> bnd (pr g) (\<lambda>a. bnd (pr t) (\<lambda>s. bnd (pr f) (\<lambda>s'.
       ret (''ITE('' @ c_str a @ '', '' @ c_str s @ '', '' @ c_str s' @ '')''))))
   | ShlExpr x v \<Rightarrow> pr2 pr x '' << '' v
   | LShrExpr x v \<Rightarrow> pr2 pr x '' l>> '' v
   | AShrExpr x v \<Rightarrow> pr2 pr x '' l>> '' v
   | NegExpr x \<Rightarrow> pr1 pr ''-'' x []
   | NotExpr x \<Rightarrow> pr1 pr ''~'' x []
   | _ \<Rightarrow> print_nary pf pr e)"

definition pr_cached :: "expr \<Rightarrow> pm \<Rightarrow> pm" where
  "pr_cached e m = (\<lambda>c. case c e of Some s \<Rightarrow> Inr (s, c)
     | None \<Rightarrow> bnd m (\<lambda>s c'. Inr (s, if c' e = None then c'(e \<mapsto> s) else c')) c)"

lemmas print_defs = print_node_def print_nary_def print_logical_def print_fp_def

lemma pr_rest_cong: "\<forall>x\<in>set xs. pr x = pr' x \<Longrightarrow> pr_rest pr sep res xs = pr_rest pr' sep res xs"
  by (induction xs arbitrary: res) simp_all

lemma pr_list_cong: "\<forall>x\<in>set xs. pr x = pr' x \<Longrightarrow> pr_list pr sep xs = pr_list pr' sep xs"
  by (cases xs) (auto simp: pr_list_def intro!: bnd_cong pr_rest_cong)

lemma operand_size: "x \<in> set (children e) \<Longrightarrow> size x < size e"
  by (cases e) (auto simp: size_list_estimation' less_Suc_eq_le)

lemma print_node_cong [fundef_cong]:
  assumes "pf = pf'" "b = b'" "e = e'" "\<And>x. x \<in> set (children e') \<Longrightarrow> pr x = pr' x"
  shows "print_node pf b pr e = print_node pf' b' pr' e'"
  using assms by (cases e') (simp_all add: print_defs pr1_def pr2_def pr_list_cong[of _ pr pr'])

function to_string_inner :: "(fpconst \<Rightarrow> string) \<Rightarrow> builder \<Rightarrow> expr \<Rightarrow> pm" where
  "to_string_inner pf b e = pr_cached e (print_node pf b (to_string_inner pf b) e)"
  by pat_completeness auto
termination
  by (relation "measure (\<lambda>(pf, b, e). size e)") (simp_all add: operand_size)

declare to_string_inner.simps [simp del]

definition expr_to_string :: "(fpconst \<Rightarrow> string) \<Rightarrow> builder \<Rightarrow> expr \<Rightarrow> string res" where
  "expr_to_string pf b e = (case to_string_inner pf b e Map.empty of Inl f \<Rightarrow> Inl f | Inr (s, _) \<Rightarrow> Inr s)"

section \<open>The layout\<close>

text \<open>The reference: what a node shows is a list of pieces, texts and operands.\<close>

datatype piece = Text string | Whole expr | Cut expr

definition infixed :: "expr \<Rightarrow> string \<Rightarrow> expr \<Rightarrow> piece list res" where
  "infixed x sep y = Inr [Text ''( '', Cut x, Text sep, Cut y, Text '' )'']"

definition wrapped :: "string \<Rightarrow> expr \<Rightarrow> string \<Rightarrow> piece list res" where
  "wrapped l x r = Inr [Text l, Cut x, Text r]"

definition listed :: "string \<Rightarrow> expr list \<Rightarrow> piece list res" where
  "listed sep es = (case es of [] \<Rightarrow> Inl (StdException ''out_of_range'')
     | x # xs \<Rightarrow> Inr ([Text ''( '', Whole x] @ concat (map (\<lambda>y. [Text sep, Whole y]) xs) @ [Text '' )'']))"

definition layout :: "(fpconst \<Rightarrow> string) \<Rightarrow> builder \<Rightarrow> expr \<Rightarrow> piece list res" where
  "layout pf b e = (case e of
     SymExpr i n \<Rightarrow> (case m_sym_id_to_name b i of None \<Rightarrow> Inl (StdException ''out_of_range'') | Some s \<Rightarrow> Inr [Text s])
   | ConstExpr c \<Rightarrow> rbind (bv_to_string True c) (\<lambda>s. Inr [Text s])
   | BoolConst v \<Rightarrow> Inr [Text (if v then ''true'' else ''false'')]
   | ExtractExpr x high low \<Rightarrow> wrapped [] x (''['' @ print_nat high @ '':'' @ print_nat low @ '']'')
   | ConcatExpr es \<Rightarrow> listed '' # '' es
   | ZextExpr x n \<Rightarrow> wrapped ''zext('' x ('', '' @ print_nat n @ '')'')
   | SextExpr x n \<Rightarrow> wrapped ''sext('' x ('', '' @ print_nat n @ '')'')
   | ITEExpr g t f \<Rightarrow> Inr [Text ''ITE('', Cut g, Text '', '', Cut t, Text '', '', Cut f, Text '')'']
   | ShlExpr x v \<Rightarrow> infixed x '' << '' v | LShrExpr x v \<Rightarrow> infixed x '' l>> '' v | AShrExpr x v \<Rightarrow> infixed x '' l>> '' v
   | NegExpr x \<Rightarrow> wrapped ''-'' x [] | NotExpr x \<Rightarrow> wrapped ''~'' x []
   | AndExpr es \<Rightarrow> listed '' & '' es | OrExpr es \<Rightarrow> listed '' | '' es | XorExpr es \<Rightarrow> listed '' ^ '' es
   | AddExpr es \<Rightarrow> listed '' + '' es | MulExpr es \<Rightarrow> listed '' * '' es
   | SDivExpr x y _ \<Rightarrow> infixed x '' s/ '' y | UDivExpr x y _ \<Rightarrow> infixed x '' /u '' y
   | SRemExpr x y _ \<Rightarrow> infixed x '' s/ '' y | URemExpr x y _ \<Rightarrow> infixed x '' /u '' y
   | BoolNotExpr x \<Rightarrow> wrapped ''!'' x [] | BoolAndExpr es \<Rightarrow> listed '' && '' es | BoolOrExpr es \<Rightarrow> listed '' || '' es
   | UltExpr x y \<Rightarrow> infixed x '' u< '' y | UleExpr x y \<Rightarrow> infixed x '' u<= '' y
   | UgtExpr x y \<Rightarrow> infixed x '' u> '' y | UgeExpr x y \<Rightarrow> infixed x '' u>= '' y
   | SltExpr x y \<Rightarrow> infixed x '' s< '' y | SleExpr x y \<Rightarrow> infixed x '' s<= '' y
   | SgtExpr x y \<Rightarrow> infixed x '' s> '' y | SgeExpr x y \<Rightarrow> infixed x '' s>= '' y
   | EqExpr x y \<Rightarrow> infixed x '' == '' y
   | FPConstExpr c \<Rightarrow> Inr [Text (pf c)]
   | BVToFPExpr ff x \<Rightarrow> wrapped ''BVToFP('' x '')'' | FPToBVExpr x \<Rightarrow> wrapped ''FPToBV('' x '')''
   | FPConvert x ff \<Rightarrow> wrapped ''FPConvert('' x ('', '' @ print_nat (ff_getSize (expr_ff x) * 8) @ '', '' @
       print_nat (ff_getSize ff * 8) @ '')'')
   | IntToFPExpr x ff \<Rightarrow> wrapped ''IntToFP('' x ('', '' @ print_nat (ff_getSize ff * 8) @ '')'')
   | FPIsNAN x \<Rightarrow> wrapped ''FPIsNAN('' x '')'' | FPNegExpr x \<Rightarrow> wrapped ''-'' x []
   | FPAddExpr es \<Rightarrow> listed '' + '' es | FPMulExpr es \<Rightarrow> listed '' * '' es
   | FPDivExpr x y \<Rightarrow> infixed x '' / '' y | FPLtExpr x y \<Rightarrow> infixed x '' < '' y | FPEqExpr x y \<Rightarrow> infixed x '' == '' y)"

fun show_pieces :: "(expr \<Rightarrow> string res) \<Rightarrow> piece list \<Rightarrow> string res" where
  "show_pieces R [] = Inr []"
| "show_pieces R (Text s # ps) = rbind (show_pieces R ps) (\<lambda>t. Inr (s @ t))"
| "show_pieces R (Whole x # ps) = rbind (R x) (\<lambda>s. rbind (show_pieces R ps) (\<lambda>t. Inr (s @ t)))"
| "show_pieces R (Cut x # ps) = rbind (R x) (\<lambda>s. rbind (show_pieces R ps) (\<lambda>t. Inr (c_str s @ t)))"

fun operands :: "piece list \<Rightarrow> expr set" where
  "operands [] = {}"
| "operands (Text s # ps) = operands ps"
| "operands (Whole x # ps) = insert x (operands ps)"
| "operands (Cut x # ps) = insert x (operands ps)"

lemma operands_append [simp]: "operands (ps @ qs) = operands ps \<union> operands qs"
  by (induction ps rule: operands.induct) auto

lemma operands_concat [simp]: "operands (concat (map (\<lambda>y. [Text sep, Whole y]) xs)) = set xs"
  by (induction xs) auto

lemma show_pieces_cong: "\<forall>x\<in>operands ps. R x = R' x \<Longrightarrow> show_pieces R ps = show_pieces R' ps"
  by (induction ps rule: operands.induct) auto

lemmas layout_defs = layout_def infixed_def wrapped_def listed_def

lemma layout_operands: "layout pf b e = Inr ps \<Longrightarrow> operands ps \<subseteq> set (children e)"
  by (cases e) (auto simp: layout_defs rbind_Inr_iff split: option.splits list.splits)

lemma show_cong [fundef_cong]:
  assumes "layout pf b e = l" "\<And>ps x. l = Inr ps \<Longrightarrow> x \<in> operands ps \<Longrightarrow> R x = R' x"
  shows "rbind (layout pf b e) (show_pieces R) = rbind l (show_pieces R')"
  using assms by (cases l) (auto intro!: show_pieces_cong)

function render :: "(fpconst \<Rightarrow> string) \<Rightarrow> builder \<Rightarrow> expr \<Rightarrow> string res" where
  "render pf b e = rbind (layout pf b e) (show_pieces (render pf b))"
  by pat_completeness auto
termination
  by (relation "measure (\<lambda>(pf, b, e). size e)") (auto dest!: layout_operands intro: operand_size)

declare render.simps [simp del]

section \<open>The cache does not show\<close>

definition cache_sound :: "(fpconst \<Rightarrow> string) \<Rightarrow> builder \<Rightarrow> pcache \<Rightarrow> bool" where
  "cache_sound pf b c \<longleftrightarrow> (\<forall>e s. c e = Some s \<longrightarrow> render pf b e = Inr s)"

text \<open>The printing \<open>m\<close> has the result \<open>r\<close> from every sound cache, and leaves a sound one.\<close>

definition prints :: "(fpconst \<Rightarrow> string) \<Rightarrow> builder \<Rightarrow> pm \<Rightarrow> string res \<Rightarrow> bool" where
  "prints pf b m r \<longleftrightarrow> (\<forall>c. cache_sound pf b c \<longrightarrow>
     (case r of Inl f \<Rightarrow> m c = Inl f | Inr s \<Rightarrow> (\<exists>c'. m c = Inr (s, c') \<and> cache_sound pf b c')))"

lemma prints_ret: "prints pf b (ret s) (Inr s)"
  by (simp add: prints_def ret_def)

lemma prints_throw: "prints pf b (throw f) (Inl f)"
  by (simp add: prints_def throw_def)

lemma prints_liftr: "prints pf b (liftr r) r"
  by (cases r) (simp_all add: prints_ret prints_throw)

lemma prints_bnd:
  assumes "prints pf b m r" "\<And>s. r = Inr s \<Longrightarrow> prints pf b (f s) (g s)"
  shows "prints pf b (bnd m f) (rbind r g)"
  unfolding prints_def
proof (intro allI impI)
  fix c
  assume c: "cache_sound pf b c"
  show "case rbind r g of Inl e \<Rightarrow> bnd m f c = Inl e | Inr s \<Rightarrow> \<exists>c'. bnd m f c = Inr (s, c') \<and> cache_sound pf b c'"
  proof (cases r)
    case (Inl e)
    with assms(1) c show ?thesis by (simp add: prints_def bnd_def)
  next
    case (Inr s)
    with assms(1) c obtain c' where c': "m c = Inr (s, c')" "cache_sound pf b c'" by (auto simp: prints_def)
    have run: "bnd m f c = f s c'" using c'(1) by (simp add: bnd_def)
    show ?thesis using assms(2)[OF Inr] c'(2) unfolding Inr rbind_simps prints_def run by blast
  qed
qed

lemma prints_pr1:
  assumes "prints pf b (pr x) (R x)"
  shows "prints pf b (pr1 pr l x r) (rbind (wrapped l x r) (show_pieces R))"
proof -
  have "rbind (wrapped l x r) (show_pieces R) = rbind (R x) (\<lambda>s. Inr (l @ c_str s @ r))"
    by (cases "R x") (simp_all add: wrapped_def)
  then show ?thesis unfolding pr1_def by (simp add: prints_bnd[OF assms] prints_ret)
qed

lemma prints_pr2:
  assumes "prints pf b (pr x) (R x)" "prints pf b (pr y) (R y)"
  shows "prints pf b (pr2 pr x sep y) (rbind (infixed x sep y) (show_pieces R))"
proof -
  have "rbind (infixed x sep y) (show_pieces R) =
      rbind (R x) (\<lambda>s. rbind (R y) (\<lambda>t. Inr (''( '' @ c_str s @ sep @ c_str t @ '' )'')))"
    by (cases "R x"; cases "R y") (simp_all add: infixed_def)
  then show ?thesis unfolding pr2_def by (simp add: prints_bnd[OF assms(1)] prints_bnd[OF assms(2)] prints_ret)
qed

lemma prints_rest:
  assumes "\<forall>x\<in>set xs. prints pf b (pr x) (R x)"
  shows "prints pf b (pr_rest pr sep res xs)
    (rbind (show_pieces R (concat (map (\<lambda>y. [Text sep, Whole y]) xs) @ [Text '' )''])) (\<lambda>t. Inr (res @ t)))"
  using assms
proof (induction xs arbitrary: res)
  case (Cons x xs)
  let ?ps = "concat (map (\<lambda>y. [Text sep, Whole y]) xs) @ [Text '' )'']"
  have "prints pf b (pr_rest pr sep res (x # xs))
      (rbind (R x) (\<lambda>s. rbind (show_pieces R ?ps) (\<lambda>t. Inr ((res @ sep @ s) @ t))))"
    unfolding pr_rest.simps using Cons.prems by (intro prints_bnd Cons.IH) simp_all
  moreover have "rbind (R x) (\<lambda>s. rbind (show_pieces R ?ps) (\<lambda>t. Inr ((res @ sep @ s) @ t))) =
      rbind (show_pieces R (concat (map (\<lambda>y. [Text sep, Whole y]) (x # xs)) @ [Text '' )''])) (\<lambda>t. Inr (res @ t))"
    by (cases "R x"; cases "show_pieces R ?ps") simp_all
  ultimately show ?case by simp
qed (simp add: prints_ret)

lemma prints_list:
  assumes "\<forall>x\<in>set es. prints pf b (pr x) (R x)"
  shows "prints pf b (pr_list pr sep es) (rbind (listed sep es) (show_pieces R))"
proof (cases es)
  case (Cons x xs)
  let ?ps = "concat (map (\<lambda>y. [Text sep, Whole y]) xs) @ [Text '' )'']"
  have "prints pf b (pr_list pr sep es) (rbind (R x) (\<lambda>s. rbind (show_pieces R ?ps) (\<lambda>t. Inr ((''( '' @ s) @ t))))"
    unfolding pr_list_def Cons list.case using assms Cons by (intro prints_bnd prints_rest) simp_all
  moreover have "rbind (R x) (\<lambda>s. rbind (show_pieces R ?ps) (\<lambda>t. Inr ((''( '' @ s) @ t))) = rbind (listed sep es) (show_pieces R)"
    by (cases "R x"; cases "show_pieces R ?ps") (simp_all add: listed_def Cons)
  ultimately show ?thesis by simp
qed (simp add: pr_list_def listed_def prints_throw)

lemma prints_ite:
  assumes "prints pf b (pr g) (R g)" "prints pf b (pr t) (R t)" "prints pf b (pr f) (R f)"
  shows "prints pf b (print_node pf b pr (ITEExpr g t f)) (rbind (layout pf b (ITEExpr g t f)) (show_pieces R))"
proof -
  have "rbind (layout pf b (ITEExpr g t f)) (show_pieces R) = rbind (R g) (\<lambda>a. rbind (R t) (\<lambda>s. rbind (R f) (\<lambda>s'.
      Inr (''ITE('' @ c_str a @ '', '' @ c_str s @ '', '' @ c_str s' @ '')''))))"
    by (cases "R g"; cases "R t"; cases "R f") (simp_all add: layout_def)
  moreover have "prints pf b (print_node pf b pr (ITEExpr g t f)) (rbind (R g) (\<lambda>a. rbind (R t) (\<lambda>s. rbind (R f) (\<lambda>s'.
      Inr (''ITE('' @ c_str a @ '', '' @ c_str s @ '', '' @ c_str s' @ '')'')))))"
    unfolding print_node_def expr.case by (intro prints_bnd prints_ret assms)
  ultimately show ?thesis by simp
qed

lemma prints_leaf:
  assumes "children e = []"
  shows "prints pf b (print_node pf b pr e) (rbind (layout pf b e) (show_pieces R))"
proof (cases "kind e = K_CONST")
  case True
  then obtain c where e: "e = ConstExpr c" by (cases e) simp_all
  have "rbind (layout pf b e) (show_pieces R) = bv_to_string True c"
    by (cases "bv_to_string True c") (simp_all add: e layout_def)
  then show ?thesis by (simp add: e print_node_def prints_liftr)
next
  case False
  with assms show ?thesis
    by (cases e) (auto simp: print_defs layout_defs get_sym_name_def pr_list_def prints_ret prints_throw split: option.split)
qed

lemma prints_node:
  assumes "\<forall>x\<in>set (children e). prints pf b (pr x) (R x)"
  shows "prints pf b (print_node pf b pr e) (rbind (layout pf b e) (show_pieces R))"
proof (cases "children e = []")
  case True
  then show ?thesis by (rule prints_leaf)
next
  case some: False
  show ?thesis
  proof (cases "kind e = K_ITE")
    case True
    then obtain g t f where "e = ITEExpr g t f" by (cases e) simp_all
    with assms show ?thesis by (simp add: prints_ite)
  next
    case False
    with assms some show ?thesis
      by (cases e) (simp_all add: print_defs layout_def prints_pr1 prints_pr2 prints_list)
  qed
qed

lemma prints_cached: "prints pf b m (render pf b e) \<Longrightarrow> prints pf b (pr_cached e m) (render pf b e)"
  unfolding prints_def
proof (intro allI impI)
  fix c
  assume m: "\<forall>c. cache_sound pf b c \<longrightarrow> (case render pf b e of Inl f \<Rightarrow> m c = Inl f | Inr s \<Rightarrow> \<exists>c'. m c = Inr (s, c') \<and> cache_sound pf b c')"
    and c: "cache_sound pf b c"
  show "case render pf b e of Inl f \<Rightarrow> pr_cached e m c = Inl f | Inr s \<Rightarrow> \<exists>c'. pr_cached e m c = Inr (s, c') \<and> cache_sound pf b c'"
  proof (cases "c e")
    case (Some s)
    with c show ?thesis by (simp add: cache_sound_def pr_cached_def)
  next
    case None
    show ?thesis
    proof (cases "render pf b e")
      case (Inl f)
      with m c None show ?thesis by (simp add: pr_cached_def bnd_def)
    next
      case (Inr s)
      with m c obtain c' where c': "m c = Inr (s, c')" "cache_sound pf b c'" by auto
      then have "pr_cached e m c = Inr (s, if c' e = None then c'(e \<mapsto> s) else c')" using None by (simp add: pr_cached_def bnd_def)
      moreover have "cache_sound pf b (if c' e = None then c'(e \<mapsto> s) else c')" using c'(2) Inr by (simp add: cache_sound_def)
      ultimately show ?thesis using Inr by simp
    qed
  qed
qed

lemma to_string_prints: "prints pf b (to_string_inner pf b e) (render pf b e)"
proof (induction e rule: measure_induct_rule[where f = size])
  case (less e)
  then have "prints pf b (print_node pf b (to_string_inner pf b) e) (render pf b e)"
    unfolding render.simps[of pf b e] using operand_size by (intro prints_node) blast
  then show ?case unfolding to_string_inner.simps[of pf b e] by (rule prints_cached)
qed

section \<open>Property\<close>

text \<open>C33: printing an expression gives the text of its layout, or fails as the layout does, for every expression: the cache,
  which is shared by all the nodes of the expression, neither changes a text nor hides a failure.\<close>

theorem printing_transparent: "expr_to_string pf b e = render pf b e"
proof -
  have "cache_sound pf b Map.empty" by (simp add: cache_sound_def)
  with to_string_prints[of pf b e] show ?thesis
    unfolding prints_def expr_to_string_def by (fastforce split: sum.splits)
qed

end
