(* ===== verification/Debugger.thy ===== *)
theory Debugger
  imports Printer Executor
begin

text \<open>
  The command line debugger \<^verbatim>\<open>tools/naaz_debugger.cpp\<close>, and the printing of p-code of \<^verbatim>\<open>lifter/PCodeLifter.cpp\<close> that it
  uses. The debugger keeps a current state, the deferred ones and those that have exited; each command changes them and writes
  a text. A run of commands is \<open>None\<close> when a command does not end.
\<close>

section \<open>Texts\<close>

text \<open>What the texts take from sleigh and from the C library beside the translation.\<close>

record names =
  n_space :: "nat \<Rightarrow> string"
  n_register :: "varnode \<Rightarrow> string"
  n_asm :: "translation \<Rightarrow> string \<times> string"
  n_opcode :: "opcode \<Rightarrow> string"
  n_registers :: "(string \<times> varnode) list"
  n_double :: "fpconst \<Rightarrow> string"

definition eol :: string where
  "eol = [CHR 0x0A]"

definition hex :: "64 word \<Rightarrow> string" where
  "hex w = digits 16 (unat w)"

definition hex8 :: "64 word \<Rightarrow> string" where
  "hex8 w = replicate (8 - length (hex w)) CHR ''0'' @ hex w"

definition pad_right :: "nat \<Rightarrow> string \<Rightarrow> string" where
  "pad_right n s = s @ replicate (n - length s) CHR '' ''"

section \<open>Printing of p-code\<close>

definition reg_name :: "names \<Rightarrow> varnode \<Rightarrow> string res" where
  "reg_name N v = (if n_space N (vn_space v) \<noteq> ''register'' then Inl (Exit ''reg_name'') else Inr (n_register N v))"

definition varnode_to_string :: "names \<Rightarrow> varnode \<Rightarrow> string res" where
  "varnode_to_string N v = (let space_name = n_space N (vn_space v) in
     if space_name = ''const'' then Inr (''0x'' @ hex (vn_offset v))
     else if space_name = ''unique''
     then Inr (''TMP_'' @ print_nat (unat (ucast (vn_offset v) :: 32 word)) @ '':'' @ print_nat (vn_size v))
     else if space_name = ''register'' then reg_name N v
     else Inr (space_name @ ''[0x'' @ hex (vn_offset v) @ '':'' @ print_nat (vn_size v) @ '']''))"

definition load_to_string :: "sleigh \<Rightarrow> names \<Rightarrow> pcode_op \<Rightarrow> string res" where
  "load_to_string sl N op = (case (op_output op, op_inputs op) of
     (Some out, a # b # _) \<Rightarrow> rbind (varnode_to_string N out) (\<lambda>dst. rbind (varnode_to_string N b) (\<lambda>p.
       Inr (dst @ '' <- '' @ n_space N (csleigh_getSpaceFromConst sl (vn_space a) (vn_offset a)) @ ''['' @ p @ '']'')))
   | _ \<Rightarrow> Inl (Undefined ''load_to_string''))"

definition store_to_string :: "sleigh \<Rightarrow> names \<Rightarrow> pcode_op \<Rightarrow> string res" where
  "store_to_string sl N op = (case op_inputs op of
     a # b # c # _ \<Rightarrow> rbind (varnode_to_string N b) (\<lambda>p. rbind (varnode_to_string N c) (\<lambda>v.
       Inr (n_space N (csleigh_getSpaceFromConst sl (vn_space a) (vn_offset a)) @ ''['' @ p @ ''] <- '' @ v)))
   | _ \<Rightarrow> Inl (Undefined ''store_to_string''))"

fun comma_list :: "names \<Rightarrow> varnode list \<Rightarrow> string res" where
  "comma_list N [] = Inr []"
| "comma_list N [v] = varnode_to_string N v"
| "comma_list N (v # vs) = rbind (varnode_to_string N v) (\<lambda>s. rbind (comma_list N vs) (\<lambda>t. Inr (s @ '', '' @ t)))"

definition pp_op :: "sleigh \<Rightarrow> names \<Rightarrow> pcode_op \<Rightarrow> string res" where
  "pp_op sl N op = rbind (case op_code op of
       CPUI_LOAD \<Rightarrow> load_to_string sl N op
     | CPUI_STORE \<Rightarrow> store_to_string sl N op
     | _ \<Rightarrow> rbind (case op_output op of None \<Rightarrow> Inr [] | Some out \<Rightarrow> rbind (varnode_to_string N out) (\<lambda>dst. Inr (dst @ '' <- '')))
         (\<lambda>dst. rbind (comma_list N (op_inputs op)) (\<lambda>is. Inr (dst @ is))))
     (\<lambda>s. Inr (''            | '' @ pad_right 15 (n_opcode N (op_code op)) @ s @ eol))"

fun pp_ops :: "sleigh \<Rightarrow> names \<Rightarrow> pcode_op list \<Rightarrow> string res" where
  "pp_ops sl N [] = Inr []"
| "pp_ops sl N (op # ops) = rbind (pp_op sl N op) (\<lambda>s. rbind (pp_ops sl N ops) (\<lambda>t. Inr (s @ t)))"

fun pp_block :: "sleigh \<Rightarrow> names \<Rightarrow> bool \<Rightarrow> translation list \<Rightarrow> string res" where
  "pp_block sl N show_pcode [] = Inr []"
| "pp_block sl N show_pcode (t # ts) = rbind
     (if show_pcode
      then rbind (pp_ops sl N (t_ops t)) (\<lambda>s. Inr (''--- PCODE ---'' @ eol @ s @ ''-------------'' @ eol))
      else Inr [])
     (\<lambda>s. rbind (pp_block sl N show_pcode ts) (\<lambda>rest.
       Inr (''0x'' @ hex8 (t_address t) @ ''h : '' @ fst (n_asm N t) @ '' '' @ snd (n_asm N t) @ eol @ s @ rest)))"

section \<open>The state of the debugger\<close>

record debugger =
  d_state :: "state option"
  d_deferred :: "state list"
  d_exited :: "state list"
  d_out :: string

type_synonym 'z dm = "(debugger \<times> 'z process, unit) smonad"

definition say :: "string \<Rightarrow> 'z dm" where
  "say s = (\<lambda>(d, p). Inr ((), (d\<lparr>d_out := d_out d @ s\<rparr>, p)))"

text \<open>An operation on the current state; nothing catches an exception.\<close>

definition on_current :: "('z, 'a) xm \<Rightarrow> ('a \<Rightarrow> 'z dm) \<Rightarrow> 'z dm" where
  "on_current m f = (\<lambda>(d, p). case d_state d of
     None \<Rightarrow> Inl (Undefined ''null state'')
   | Some s \<Rightarrow> (case m (s, p) of
       Inl e \<Rightarrow> Inl e
     | Inr (None, _) \<Rightarrow> Inl UnsatState
     | Inr (Some x, (s', p')) \<Rightarrow> f x (d\<lparr>d_state := Some s'\<rparr>, p')))"

definition with_state :: "'z dm \<Rightarrow> 'z dm" where
  "with_state m = (\<lambda>(d, p). if d_state d = None then Inr ((), (d, p)) else m (d, p))"

definition expr_text :: "names \<Rightarrow> expr \<Rightarrow> ('z, string) xm" where
  "expr_text N e = (\<lambda>(s, p). case expr_to_string (n_double N) (w_builder (p_world p)) e of
     Inl f \<Rightarrow> Inl f | Inr t \<Rightarrow> Inr (Some t, (s, p)))"

definition get_state_info :: "state \<Rightarrow> string" where
  "get_state_info s = (case m_linked_functions s (m_pc s) of None \<Rightarrow> [] | Some m \<Rightarrow> model_name m)"

section \<open>Commands that show\<close>

text \<open>The lists of the other states call \<^verbatim>\<open>get_state_info\<close> for the current state, which may be null.\<close>

fun list_lines :: "string \<Rightarrow> debugger \<Rightarrow> nat \<Rightarrow> state list \<Rightarrow> string res" where
  "list_lines sep d i [] = Inr []"
| "list_lines sep d i (s # ss) = (case d_state d of
     None \<Rightarrow> Inl (Undefined ''null state'')
   | Some c \<Rightarrow> rbind (list_lines sep d (i + 1) ss) (\<lambda>rest.
       Inr ('' ['' @ print_nat i @ ''] 0x'' @ hex8 (m_pc s) @ sep @ get_state_info c @ (if sep = '' - '' then '' '' else []) @ eol @ rest)))"

definition cmd_list_states :: "'z dm" where
  "cmd_list_states = (\<lambda>(d, p).
     bnd (say (''current state:'' @ eol @ ''=============='' @ eol)) (\<lambda>_.
     bnd (say (case d_state d of
       Some s \<Rightarrow> '' [*] 0x'' @ hex8 (m_pc s) @ '' '' @ get_state_info s @ eol
     | None \<Rightarrow> '' * no state selected (use '' @ [CHR 0x27] @ ''select'' @ [CHR 0x27] @ '' command to set it)'' @ eol)) (\<lambda>_.
     bnd (if d_deferred d = [] then ret ()
       else bnd (say (eol @ ''deferred:'' @ eol @ ''========='' @ eol)) (\<lambda>_.
            bnd (liftr (list_lines '' - '' d 0 (d_deferred d))) say)) (\<lambda>_.
     if d_exited d = [] then ret ()
     else bnd (say (eol @ ''exited:'' @ eol @ ''======='' @ eol)) (\<lambda>_.
          bnd (liftr (list_lines '' '' d (length (d_deferred d)) (d_exited d))) say)))) (d, p))"

definition show_block :: "'z host \<Rightarrow> names \<Rightarrow> bool \<Rightarrow> 'z dm" where
  "show_block H N show_pcode = on_current (curr_block H) (\<lambda>block. case block of
     None \<Rightarrow> say ('' ** unable disassemble at PC **'' @ eol)
   | Some b \<Rightarrow> bnd (liftr (pp_block (h_sleigh H) N show_pcode b)) say)"

text \<open>The ten words from the stack pointer downwards.\<close>

fun show_stack :: "'z host \<Rightarrow> names \<Rightarrow> nat \<Rightarrow> 64 word \<Rightarrow> 'z dm" where
  "show_stack H N 0 a = ret ()"
| "show_stack H N (Suc n) a = on_current (xbnd (state_read H a (ptr_size (h_arch H) div 8)) (expr_text N)) (\<lambda>t.
     bnd (say ('' 0x'' @ hex8 a @ ''  '' @ t @ eol)) (\<lambda>_. show_stack H N n (a - of_nat (ptr_size (h_arch H) div 8))))"

fun show_registers :: "'z host \<Rightarrow> names \<Rightarrow> nat \<Rightarrow> (string \<times> varnode) list \<Rightarrow> 'z dm" where
  "show_registers H N left [] = ret ()"
| "show_registers H N left ((name, v) # regs) =
     (if vn_size v * 8 \<noteq> ptr_size (h_arch H) then show_registers H N left regs
      else if left = 0 then ret ()
      else on_current (xbnd (reg_read_name H name) (expr_text N)) (\<lambda>t.
        bnd (say ('' '' @ pad_right 13 name @ '' '' @ t @ eol)) (\<lambda>_. show_registers H N (left - 1) regs)))"

definition cmd_context :: "'z host \<Rightarrow> names \<Rightarrow> 'z dm" where
  "cmd_context H N = with_state (
     bnd (say (eol @ ''code:'' @ eol @ ''====='' @ eol)) (\<lambda>_. bnd (show_block H N False) (\<lambda>_.
     bnd (on_current (gets (\<lambda>s. m_linked_functions s (m_pc s))) (\<lambda>m. case m of
       None \<Rightarrow> ret () | Some m \<Rightarrow> say ('' in linked function: '' @ model_name m @ eol))) (\<lambda>_.
     bnd (say (eol @ ''stack:'' @ eol @ ''======'' @ eol)) (\<lambda>_.
     bnd (on_current (reg_read_name H (get_stack_ptr_reg (h_arch H))) (\<lambda>sp. case sp of
       ConstExpr c \<Rightarrow> bnd (liftr (bv_as_u64 c)) (show_stack H N 10)
     | _ \<Rightarrow> say ('' ** stack pointer is symbolic **'' @ eol))) (\<lambda>_.
     bnd (say (eol @ ''registers:'' @ eol @ ''=========='' @ eol)) (\<lambda>_.
       show_registers H N 16 (n_registers N))))))))"

definition cmd_pcode :: "'z host \<Rightarrow> names \<Rightarrow> 'z dm" where
  "cmd_pcode H N = with_state (show_block H N True)"

fun say_all :: "names \<Rightarrow> expr list \<Rightarrow> 'z dm" where
  "say_all N [] = ret ()"
| "say_all N (e # es) = on_current (expr_text N e) (\<lambda>t. bnd (say ('' * '' @ t @ eol)) (\<lambda>_. say_all N es))"

definition cmd_pi :: "'z host \<Rightarrow> names \<Rightarrow> 'z dm" where
  "cmd_pi H N = with_state (on_current (state_pi H) (\<lambda>pi. say_all N (case pi of BoolAndExpr es \<Rightarrow> es | _ \<Rightarrow> [pi])))"

text \<open>A number as \<^verbatim>\<open>atoi\<close> reads it: the C library reads a \<^verbatim>\<open>long\<close>, which saturates, and keeps its low 32 bits.\<close>

definition c_atoi :: "string \<Rightarrow> 32 word" where
  "c_atoi s = (let s1 = dropWhile is_space s;
       neg = (case s1 of c # _ \<Rightarrow> c = CHR ''-'' | [] \<Rightarrow> False);
       s2 = (case s1 of c # cs \<Rightarrow> if c = CHR ''-'' \<or> c = CHR ''+'' then cs else s1 | [] \<Rightarrow> []);
       v = digits_value 10 (digits_prefix 10 s2)
     in if neg then - of_nat (min v (2 ^ 63)) else of_nat (min v (2 ^ 63 - 1)))"

definition read_address :: "'z host \<Rightarrow> string \<Rightarrow> ('z, string + 64 word) xm" where
  "read_address H loc = (case loc of
     c # name \<Rightarrow> if c = CHR ''$''
       then (if \<not> has_reg (h_sleigh H) name then xret (Inl (''!Err unknown register '' @ name @ eol))
         else xbnd (reg_read_name H name) (\<lambda>v. case v of
           ConstExpr k \<Rightarrow> xbnd (always (liftr (bv_as_u64 k))) (\<lambda>a. xret (Inr a))
         | _ \<Rightarrow> xret (Inl (''!Err register '' @ name @ '' is symbolic'' @ eol))))
       else xret (Inr (case parse_uint loc of None \<Rightarrow> 0 | Some a \<Rightarrow> a))
   | [] \<Rightarrow> xret (Inr 0))"

definition cmd_read :: "'z host \<Rightarrow> names \<Rightarrow> string list \<Rightarrow> 'z dm" where
  "cmd_read H N args = with_state (case args of
     loc # len # _ \<Rightarrow> on_current (read_address H loc) (\<lambda>r. case r of
       Inl msg \<Rightarrow> say msg
     | Inr a \<Rightarrow> on_current (xbnd (state_read H a (unat (scast (c_atoi len) :: 64 word))) (expr_text N)) (\<lambda>t. say (t @ eol)))
   | _ \<Rightarrow> say (''!Err two arguments expected'' @ eol))"

section \<open>Commands that change the state\<close>

definition drop_nth :: "nat \<Rightarrow> 'a list \<Rightarrow> 'a list" where
  "drop_nth i xs = take i xs @ drop (Suc i) xs"

text \<open>The current state goes back to the list it belongs to.\<close>

definition put_back :: "debugger \<Rightarrow> debugger" where
  "put_back d = (case d_state d of
     None \<Rightarrow> d
   | Some s \<Rightarrow> if exited s then d\<lparr>d_exited := d_exited d @ [s]\<rparr> else d\<lparr>d_deferred := d_deferred d @ [s]\<rparr>)"

definition select_state :: "int \<Rightarrow> debugger \<Rightarrow> debugger option" where
  "select_state k d =
     (if 0 \<le> k \<and> nat k < length (d_deferred d)
      then Some ((put_back (d\<lparr>d_deferred := drop_nth (nat k) (d_deferred d)\<rparr>))\<lparr>d_state := Some (d_deferred d ! nat k)\<rparr>)
      else let j = k - int (length (d_deferred d)) in
        if 0 \<le> j \<and> nat j < length (d_exited d)
        then Some ((put_back (d\<lparr>d_exited := drop_nth (nat j) (d_exited d)\<rparr>))\<lparr>d_state := Some (d_exited d ! nat j)\<rparr>)
        else None)"

definition print_int :: "int \<Rightarrow> string" where
  "print_int k = (if k < 0 then ''-'' else []) @ print_nat (nat \<bar>k\<bar>)"

definition cmd_select_state :: "string list \<Rightarrow> 'z dm" where
  "cmd_select_state args = (case args of
     [] \<Rightarrow> say (''!Err argument expected'' @ eol)
   | a # _ \<Rightarrow> (\<lambda>(d, p). case select_state (sint (c_atoi a)) d of
       Some d' \<Rightarrow> Inr ((), (d', p))
     | None \<Rightarrow> say (''!Err invalid id '' @ print_int (sint (c_atoi a)) @ eol) (d, p)))"

text \<open>The successors of a block: the first active one becomes the current state, the others are deferred.\<close>

definition absorb :: "successors \<Rightarrow> debugger \<Rightarrow> debugger" where
  "absorb r d = d\<lparr>d_state := (case active r of [] \<Rightarrow> None | s # _ \<Rightarrow> Some s), d_deferred := d_deferred d @ tl (active r),
     d_exited := d_exited d @ exited_states r\<rparr>"

definition run_block :: "'z host \<Rightarrow> nat \<Rightarrow> debugger \<times> 'z process \<Rightarrow> (successors \<times> (debugger \<times> 'z process)) res" where
  "run_block H fuel = (\<lambda>(d, p). case d_state d of
     None \<Rightarrow> Inl (Undefined ''null state'')
   | Some s \<Rightarrow> rbind (execute_basic_block H fuel s p) (\<lambda>(r, p'). Inr (r, (absorb r d, p'))))"

text \<open>What holds of the current state before a block is executed.\<close>

definition runnable :: "'z dm \<Rightarrow> 'z dm" where
  "runnable m = with_state (\<lambda>(d, p). case d_state d of
     Some s \<Rightarrow> if exited s then say (''!Err cannot execute an exited state'' @ eol) (d, p) else m (d, p)
   | None \<Rightarrow> Inr ((), (d, p)))"

definition cmd_step_state :: "'z host \<Rightarrow> nat \<Rightarrow> 'z dm" where
  "cmd_step_state H fuel = runnable (bnd (say ''executing... '') (\<lambda>_. bnd (run_block H fuel) (\<lambda>_.
     bnd (say (''done'' @ eol @ eol)) (\<lambda>_. cmd_list_states))))"

text \<open>The two loops; the second one looks at the program counter before it knows that there is a state.\<close>

partial_function (option) fork_loop :: "'z host \<Rightarrow> nat \<Rightarrow> debugger \<times> 'z process \<Rightarrow> (debugger \<times> 'z process) res option" where
  "fork_loop H fuel dp = (case run_block H fuel dp of
     Inl e \<Rightarrow> Some (Inl e)
   | Inr r \<Rightarrow> if length (active (fst r)) = 1 then fork_loop H fuel (snd r) else Some (Inr (snd r)))"

partial_function (option) nextblock_loop :: "'z host \<Rightarrow> nat \<Rightarrow> 64 word \<Rightarrow> debugger \<times> 'z process \<Rightarrow>
    (debugger \<times> 'z process) res option" where
  "nextblock_loop H fuel old_pc dp = (case run_block H fuel dp of
     Inl e \<Rightarrow> Some (Inl e)
   | Inr r \<Rightarrow> (case d_state (fst (snd r)) of
       None \<Rightarrow> Some (Inl (Undefined ''null state''))
     | Some s \<Rightarrow> if m_pc s \<noteq> old_pc then Some (Inr (snd r))
         else if length (active (fst r)) = 1 then nextblock_loop H fuel old_pc (snd r) else Some (Inr (snd r))))"

definition exec_until :: "'z host \<Rightarrow> nat \<Rightarrow> string \<Rightarrow> state \<Rightarrow> debugger \<times> 'z process \<Rightarrow> (unit \<times> (debugger \<times> 'z process)) res option" where
  "exec_until H fuel arg s dp =
     (let finish = map_option (\<lambda>r. rbind r (bnd (say (''done'' @ eol @ eol)) (\<lambda>_. cmd_list_states)));
          start = (\<lambda>msg (d, p). (d\<lparr>d_out := d_out d @ msg\<rparr>, p))
      in if arg = ''fork'' then finish (fork_loop H fuel (start ''executing until fork... '' dp))
         else if arg = ''nextblock'' then finish (nextblock_loop H fuel (m_pc s) (start ''executing until next block... '' dp))
         else Some (say (''!Err unknown arg '' @ [CHR 0x22] @ arg @ [CHR 0x22] @ eol) dp))"

definition cmd_exec_until :: "'z host \<Rightarrow> nat \<Rightarrow> string list \<Rightarrow> debugger \<times> 'z process \<Rightarrow> (unit \<times> (debugger \<times> 'z process)) res option" where
  "cmd_exec_until H fuel args dp = (case d_state (fst dp) of
     None \<Rightarrow> Some (Inr ((), dp))
   | Some s \<Rightarrow> if exited s then Some (say (''!Err cannot execute an exited state'' @ eol) dp)
       else (case args of [] \<Rightarrow> Some (say (''!Err argument expected'' @ eol) dp) | arg # _ \<Rightarrow> exec_until H fuel arg s dp))"

section \<open>The loop\<close>

definition help_text :: string where
  "help_text = concat (map (\<lambda>(name, desc). pad_right 15 name @ '': '' @ desc @ eol)
    [(''help'', ''show available commands''), (''context'', ''show informations about the current state''),
     (''pcode'', ''show pcode of current basic block''), (''list'', ''list active states''),
     (''select'', ''select <id>: select a new current state''),
     (''exec'', ''execute one basic block in the current state''),
     (''exec-until'', ''exec-until <what>: execute the current state until {fork,nextblock}''),
     (''read'', ''read <addr> <len>: read len bytes starting from addr. addr can be a register (e.g. $RAX)''),
     (''pi'', ''show the path constraint of the current state'')])"

text \<open>The words of a line as \<^verbatim>\<open>strtok\<close> finds them.\<close>

definition words_of :: "string \<Rightarrow> string list" where
  "words_of buf = filter (\<lambda>w. w \<noteq> []) (split_at CHR '' '' [] buf)"

definition dispatch :: "'z host \<Rightarrow> names \<Rightarrow> nat \<Rightarrow> string list \<Rightarrow> debugger \<times> 'z process \<Rightarrow>
    (unit \<times> (debugger \<times> 'z process)) res option" where
  "dispatch H N fuel ws dp = (case ws of
     [] \<Rightarrow> Some (Inr ((), dp))
   | cmd # args \<Rightarrow>
       if cmd = ''help'' then Some (say help_text dp)
       else if cmd = ''context'' then Some (cmd_context H N dp)
       else if cmd = ''pcode'' then Some (cmd_pcode H N dp)
       else if cmd = ''list'' then Some (cmd_list_states dp)
       else if cmd = ''select'' then Some (cmd_select_state args dp)
       else if cmd = ''exec'' then Some (cmd_step_state H fuel dp)
       else if cmd = ''exec-until'' then cmd_exec_until H fuel args dp
       else if cmd = ''read'' then Some (cmd_read H N args dp)
       else if cmd = ''pi'' then Some (cmd_pi H N dp)
       else Some (Inr ((), dp)))"

fun command_loop :: "'z host \<Rightarrow> names \<Rightarrow> nat \<Rightarrow> string list \<Rightarrow> debugger \<times> 'z process \<Rightarrow> (debugger \<times> 'z process) res option" where
  "command_loop H N fuel [] dp = Some (Inr dp)"
| "command_loop H N fuel (buf # rest) dp = (case dispatch H N fuel (words_of buf) dp of
     None \<Rightarrow> None | Some (Inl e) \<Rightarrow> Some (Inl e) | Some (Inr (_, dp')) \<Rightarrow> command_loop H N fuel rest dp')"

text \<open>The program: the state of the loader gets the arguments of the command line, and the lines are commands.\<close>

definition debugger_main :: "'z host \<Rightarrow> names \<Rightarrow> nat \<Rightarrow> string list \<Rightarrow> string list \<Rightarrow> state \<Rightarrow> 'z process \<Rightarrow>
    (debugger \<times> 'z process) res option" where
  "debugger_main H N fuel prog_args input entry_state p = (case set_argv H prog_args (entry_state, p) of
     Inl e \<Rightarrow> Some (Inl e)
   | Inr (None, _) \<Rightarrow> Some (Inl UnsatState)
   | Inr (Some _, (s, p')) \<Rightarrow> command_loop H N fuel input (\<lparr>d_state = Some s, d_deferred = [], d_exited = [], d_out = eol\<rparr>, p'))"

end
