(* ===== verification/Debugger_Properties.thy ===== *)
theory Debugger_Properties
  imports Debugger Exploration_Properties "HOL-Library.Multiset"
begin













end
