(* ===== verification/Finder.thy ===== *)
theory Finder
  imports Exploration Dump
begin

text \<open>
  The tool \<^verbatim>\<open>tools/naaz_finder.cpp\<close>: the addresses and the technique of the command line, the exploration from the
  state of the loader, and the files of the state found. The parser of the command line, the loader and the directory of the
  host are outside of the model: the arguments come as the texts of the options, the state as the one the loader made.
\<close>

section \<open>The options\<close>

fun parse_addrs :: "string list \<Rightarrow> 64 word list option" where
  "parse_addrs [] = Some []"
| "parse_addrs (a # as) = (case parse_uint a of
     None \<Rightarrow> None | Some w \<Rightarrow> (case parse_addrs as of None \<Rightarrow> None | Some ws \<Rightarrow> Some (w # ws)))"

definition parse_technique :: "string \<Rightarrow> manager option" where
  "parse_technique t = (if t = ''dfs'' then Some DFS else if t = ''rand_dfs'' then Some RandDFS else if t = ''bfs'' then Some BFS
     else if t = ''cov'' then Some Cov else None)"

record options =
  o_find :: string
  o_avoid :: "string option"
  o_technique :: string
  o_outdir :: string
  o_program :: string
  o_args :: "string list option"
  o_state_config :: string

record finder_args =
  outdir :: string
  state_config :: string
  expl_technique :: manager
  find_addrs :: "64 word list"
  avoid_addrs :: "64 word list"
  program_args :: "string list"

text \<open>The checks in their order, with the exit codes of the process.\<close>

definition parse_args :: "options \<Rightarrow> finder_args res" where
  "parse_args opts = (case parse_technique (o_technique opts) of
     None \<Rightarrow> Inl (Exit ''1'')
   | Some t \<Rightarrow> (case parse_addrs (split_at CHR '','' [] (o_find opts)) of
       None \<Rightarrow> Inl (Exit ''2'')
     | Some fs \<Rightarrow> (case (case o_avoid opts of None \<Rightarrow> Some [] | Some s \<Rightarrow> parse_addrs (split_at CHR '','' [] s)) of
         None \<Rightarrow> Inl (Exit ''3'')
       | Some as \<Rightarrow> Inr \<lparr>outdir = o_outdir opts, state_config = o_state_config opts, expl_technique = t, find_addrs = fs,
           avoid_addrs = as, program_args = o_program opts # (case o_args opts of None \<Rightarrow> [] | Some as \<Rightarrow> as)\<rparr>)))"

text \<open>The options that change the configuration of the process.\<close>

definition set_config :: "bool \<Rightarrow> bool \<Rightarrow> config \<Rightarrow> config" where
  "set_config printable disable_lazy cfg = cfg\<lparr>printable_stdin := printable, lazy_solving := \<not> disable_lazy\<rparr>"

section \<open>The run\<close>

text \<open>What the tool leaves behind: the text it prints and the files in the directory.\<close>

type_synonym report = "string \<times> out_file list"

text \<open>Nothing catches the exception of an unsatisfiable state.\<close>

definition uncaught :: "('z, 'a) xm \<Rightarrow> state \<Rightarrow> 'z process \<Rightarrow> ('a \<times> state \<times> 'z process) res" where
  "uncaught m s p = rbind (m (s, p)) (\<lambda>(r, sp). case r of None \<Rightarrow> Inl UnsatState | Some x \<Rightarrow> Inr (x, sp))"

definition report_of :: "'z host \<Rightarrow> finder_args \<Rightarrow> nat \<Rightarrow> state option \<Rightarrow> 'z process \<Rightarrow> (report \<times> 'z process) res" where
  "report_of H args num found p = (case found of
     None \<Rightarrow> Inr ((line ''state not found'' @ line (''generated states: '' @ digits 10 num), []), p)
   | Some s \<Rightarrow> rbind (uncaught (state_dump H) s p) (\<lambda>(files, _, p').
       Inr ((line (''state found! dumping proof to '' @ outdir args) @ line (''generated states: '' @ digits 10 (num + 1)),
         case files of None \<Rightarrow> [] | Some fs \<Rightarrow> fs), p')))"

definition run_with :: "(state, 'q) policy \<Rightarrow> ('q \<Rightarrow> nat) \<Rightarrow> 'q \<Rightarrow> 'z host \<Rightarrow> nat \<Rightarrow> finder_args \<Rightarrow> 'z process \<Rightarrow>
    (report \<times> 'z process) res option" where
  "run_with P num q H fuel args p = (case explore P (naaz_machine H fuel) (find_addrs args) (avoid_addrs args) q p of
     None \<Rightarrow> None
   | Some (Inl e) \<Rightarrow> Some (Inl e)
   | Some (Inr (found, q', p')) \<Rightarrow> Some (report_of H args (num q') found p'))"

definition run_technique :: "'r rand_lib \<Rightarrow> 'z host \<Rightarrow> nat \<Rightarrow> finder_args \<Rightarrow> state \<Rightarrow> 'z process \<Rightarrow>
    (report \<times> 'z process) res option" where
  "run_technique R H fuel args s p = (case expl_technique args of
     BFS \<Rightarrow> run_with bfs queue_num_states (queue_init s) H fuel args p
   | DFS \<Rightarrow> run_with dfs queue_num_states (queue_init s) H fuel args p
   | RandDFS \<Rightarrow> run_with (rand_dfs R) (\<lambda>t. queue_num_states (r_queue t)) (rand_init s) H fuel args p
   | Cov \<Rightarrow> run_with (cov (naaz_view H)) cov_num_states (cov_init (naaz_view H) s) H fuel args p)"

text \<open>The state of the loader gets the arguments and then the contents of the configuration file.\<close>

definition prepare :: "'z host \<Rightarrow> 'j json_api \<Rightarrow> (string \<Rightarrow> string) \<Rightarrow> finder_args \<Rightarrow> ('z, unit) xm" where
  "prepare H J contents args = xbnd (set_argv H (program_args args)) (\<lambda>_.
     if state_config args \<noteq> [] then init_from_json H J (contents (state_config args)) else xret ())"

definition finder_main :: "'r rand_lib \<Rightarrow> 'z host \<Rightarrow> 'j json_api \<Rightarrow> (string \<Rightarrow> string) \<Rightarrow> nat \<Rightarrow> options \<Rightarrow> state \<Rightarrow> 'z process \<Rightarrow>
    (report \<times> 'z process) res option" where
  "finder_main R H J contents fuel opts entry_state p = (case parse_args opts of
     Inl e \<Rightarrow> Some (Inl e)
   | Inr args \<Rightarrow> (case uncaught (prepare H J contents args) entry_state p of
       Inl e \<Rightarrow> Some (Inl e)
     | Inr (_, s, p') \<Rightarrow> run_technique R H fuel args s p'))"

end
