(* ===== verification/PathGenerator.thy ===== *)
theory PathGenerator
  imports Finder
begin

text \<open>
  The tool \<^verbatim>\<open>tools/naaz_path_generator.cpp\<close>: it writes the files of every path that exits, in a directory with a number of its
  own, while the exploration goes on.
\<close>

section \<open>The manager with a callback\<close>

text \<open>\<open>gen_paths\<close> as the code has it: the callback is called between the blocks, on what the process then holds.\<close>

fun call_exited :: "('s, 'w) machine \<Rightarrow> ('s \<Rightarrow> 'w \<Rightarrow> 'w res) \<Rightarrow> 's list \<Rightarrow> 'w \<Rightarrow> 'w res" where
  "call_exited X callback [] w = Inr w"
| "call_exited X callback (s # ss) w = rbind (x_check X s w) (\<lambda>((r, s'), w').
     rbind (if r = SAT then callback s' w' else Inr w') (call_exited X callback ss))"

partial_function (option) gen_paths_with :: "('s, 'p) policy \<Rightarrow> ('s, 'w) machine \<Rightarrow> ('s \<Rightarrow> 'w \<Rightarrow> 'w res) \<Rightarrow> 'p \<Rightarrow> 'w \<Rightarrow>
    ('p \<times> 'w) res option" where
  "gen_paths_with P X callback p w = (case p_next P p of
     None \<Rightarrow> Some (Inr (p, w))
   | Some sp \<Rightarrow> (case x_run X (fst sp) w of
       Inl e \<Rightarrow> Some (Inl e)
     | Inr r \<Rightarrow> (case call_exited X callback (snd (fst r)) (snd r) of
         Inl e \<Rightarrow> Some (Inl e)
       | Inr w' \<Rightarrow> (case p_add P (fst (fst r)) (snd sp) of
           Inl e \<Rightarrow> Some (Inl e)
         | Inr p' \<Rightarrow> gen_paths_with P X callback p' w'))))"

section \<open>The tool\<close>

text \<open>Beside the process the tool has the number of the next directory and the directories it wrote.\<close>

type_synonym 'z generator = "'z process \<times> nat \<times> (string \<times> out_file list) list"

definition on_process :: "('z process, 'a) smonad \<Rightarrow> ('z generator, 'a) smonad" where
  "on_process m = (\<lambda>(p, g). case m p of Inl e \<Rightarrow> Inl e | Inr (x, p') \<Rightarrow> Inr (x, (p', g)))"

definition generator_machine :: "'z host \<Rightarrow> nat \<Rightarrow> (state, 'z generator) machine" where
  "generator_machine H fuel = (let X = naaz_machine H fuel in
     \<lparr>x_run = (\<lambda>s. on_process (x_run X s)), x_check = (\<lambda>s. on_process (x_check X s)), x_pc = x_pc X\<rparr>)"

definition case_dir :: "string \<Rightarrow> nat \<Rightarrow> string" where
  "case_dir out n = out @ ''/'' @ replicate (6 - length (digits 10 n)) CHR ''0'' @ digits 10 n"

definition write_case :: "'z host \<Rightarrow> string \<Rightarrow> state \<Rightarrow> 'z generator \<Rightarrow> 'z generator res" where
  "write_case H out s = (\<lambda>(p, n, dirs). rbind (uncaught (state_dump H) s p) (\<lambda>(files, _, p').
     Inr (p', n + 1, dirs @ [(case_dir out n, case files of None \<Rightarrow> [] | Some fs \<Rightarrow> fs)])))"

definition path_generator :: "'z host \<Rightarrow> 'j json_api \<Rightarrow> (string \<Rightarrow> string) \<Rightarrow> nat \<Rightarrow> finder_args \<Rightarrow> state \<Rightarrow> 'z process \<Rightarrow>
    ((string \<times> out_file list) list) res option" where
  "path_generator H J contents fuel args entry_state p = (case uncaught (prepare H J contents args) entry_state p of
     Inl e \<Rightarrow> Some (Inl e)
   | Inr (_, s, p') \<Rightarrow> map_option (map_sum id (\<lambda>(q, p, n, dirs). dirs))
       (gen_paths_with (cov (naaz_view H)) (generator_machine H fuel) (write_case H (outdir args)) (cov_init (naaz_view H) s) (p', 0, [])))"

section \<open>Collecting the states\<close>

text \<open>With a callback that only collects its arguments, the manager returns the states of \<open>gen_paths\<close>.\<close>

definition beside :: "('s, 'w) machine \<Rightarrow> ('s, 'w \<times> 's list) machine" where
  "beside X = \<lparr>x_run = (\<lambda>s (w, ss). map_sum id (\<lambda>(r, w'). (r, (w', ss))) (x_run X s w)),
     x_check = (\<lambda>s (w, ss). map_sum id (\<lambda>(r, w'). (r, (w', ss))) (x_check X s w)), x_pc = x_pc X\<rparr>"

definition collect :: "'s \<Rightarrow> 'w \<times> 's list \<Rightarrow> ('w \<times> 's list) res" where
  "collect s = (\<lambda>(w, ss). Inr (w, ss @ [s]))"

lemma beside_steps:
  "x_check (beside X) s (w, out) = map_sum id (\<lambda>(r, w'). (r, (w', out))) (x_check X s w)"
  "x_run (beside X) s (w, out) = map_sum id (\<lambda>(r, w'). (r, (w', out))) (x_run X s w)"
  "collect s (w, out) = Inr (w, out @ [s])"
  by (simp_all add: beside_def collect_def)

lemma call_exited_collects:
  "call_exited (beside X) collect ss (w, out) = map_sum id (\<lambda>(out', w'). (w', out')) (scan_exited X ss out w)"
proof (induction ss arbitrary: w out)
  case (Cons s ss)
  show ?case
    by (cases "x_check X s w") (auto simp: Cons.IH beside_steps bnd_def split: prod.split)
qed (simp add: ret_def)

definition swapped :: "('s list \<times> 'p \<times> 'w) res \<Rightarrow> ('p \<times> 'w \<times> 's list) res" where
  "swapped r = map_sum id (\<lambda>(out, p, w). (p, (w, out))) r"

text \<open>One round of the two loops.\<close>

lemma gen_paths_round:
  "gen_paths_with P (beside X) collect p (w, out) = (case p_next P p of
     None \<Rightarrow> Some (Inr (p, (w, out)))
   | Some sp \<Rightarrow> (case x_run X (fst sp) w of
       Inl e \<Rightarrow> Some (Inl e)
     | Inr r \<Rightarrow> (case scan_exited X (snd (fst r)) out (snd r) of
         Inl e \<Rightarrow> Some (Inl e)
       | Inr a \<Rightarrow> (case p_add P (fst (fst r)) (snd sp) of
           Inl e \<Rightarrow> Some (Inl e)
         | Inr p' \<Rightarrow> gen_paths_with P (beside X) collect p' (snd a, fst a)))))"
  by (subst gen_paths_with.simps)
    (auto simp: beside_steps call_exited_collects split: option.splits sum.splits)

lemma gen_paths_collects_if:
  assumes "gen_paths_loop P X out p w = Some r"
  shows "gen_paths_with P (beside X) collect p (w, out) = Some (swapped r)"
proof -
  let ?Q = "\<lambda>((((P, X), out), p), w) r. gen_paths_with P (beside X) collect p (w, out) = Some (swapped r)"
  have "?Q ((((P, X), out), p), w) r"
  proof (rule gen_paths_loop.raw_induct[of ?Q, OF _ assms], unfold prod.case)
    fix go P X out p w r
    assume IH: "\<And>P X out p w r. go P X out p w = Some r \<Longrightarrow> gen_paths_with P (beside X) collect p (w, out) = Some (swapped r)"
      and body: "(case p_next P p of None \<Rightarrow> Some (Inr (out, p, w))
      | Some sp \<Rightarrow> (case x_run X (fst sp) w of Inl e \<Rightarrow> Some (Inl e)
          | Inr r \<Rightarrow> (case scan_exited X (snd (fst r)) out (snd r) of Inl e \<Rightarrow> Some (Inl e)
              | Inr a \<Rightarrow> (case p_add P (fst (fst r)) (snd sp) of Inl e \<Rightarrow> Some (Inl e)
                  | Inr p' \<Rightarrow> go P X (fst a) p' (snd a))))) = Some r"
    show "gen_paths_with P (beside X) collect p (w, out) = Some (swapped r)"
      using body IH by (subst gen_paths_round) (auto simp: swapped_def split: option.splits sum.splits)
  qed
  then show ?thesis by simp
qed

lemma gen_paths_collects_only_if:
  assumes "gen_paths_with P Y cb p v = Some r"
  shows "Y = beside X \<Longrightarrow> cb = collect \<Longrightarrow> v = (w, out) \<Longrightarrow> \<exists>r'. gen_paths_loop P X out p w = Some r' \<and> r = swapped r'"
proof -
  let ?Q = "\<lambda>((((P, Y), cb), p), v) r. \<forall>w out. Y = beside X \<longrightarrow> cb = collect \<longrightarrow> v = (w, out) \<longrightarrow>
    (\<exists>r'. gen_paths_loop P X out p w = Some r' \<and> r = swapped r')"
  have "?Q ((((P, Y), cb), p), v) r"
  proof (rule gen_paths_with.raw_induct[of ?Q, OF _ assms], unfold prod.case, intro allI impI)
    fix go P Y cb p v r w out
    assume IH: "\<And>P Y cb p v r. go P Y cb p v = Some r \<Longrightarrow> \<forall>w out. Y = beside X \<longrightarrow> cb = collect \<longrightarrow> v = (w, out) \<longrightarrow>
        (\<exists>r'. gen_paths_loop P X out p w = Some r' \<and> r = swapped r')"
      and body: "(case p_next P p of None \<Rightarrow> Some (Inr (p, v))
      | Some sp \<Rightarrow> (case x_run Y (fst sp) v of Inl e \<Rightarrow> Some (Inl e)
          | Inr r \<Rightarrow> (case call_exited Y cb (snd (fst r)) (snd r) of Inl e \<Rightarrow> Some (Inl e)
              | Inr w' \<Rightarrow> (case p_add P (fst (fst r)) (snd sp) of Inl e \<Rightarrow> Some (Inl e)
                  | Inr p' \<Rightarrow> go P Y cb p' w')))) = Some r"
      and eq: "Y = beside X" "cb = collect" "v = (w, out)"
    have go: "\<exists>r'. gen_paths_loop P X out p w = Some r' \<and> r = swapped r'" if "go P (beside X) collect p (w, out) = Some r" for p w out r
      using IH[OF that] by blast
    show "\<exists>r'. gen_paths_loop P X out p w = Some r' \<and> r = swapped r'"
      using body unfolding eq
      by (subst gen_paths_loop.simps)
        (auto simp: swapped_def beside_steps call_exited_collects dest!: go split: option.splits sum.splits)
  qed
  then show "Y = beside X \<Longrightarrow> cb = collect \<Longrightarrow> v = (w, out) \<Longrightarrow> \<exists>r'. gen_paths_loop P X out p w = Some r' \<and> r = swapped r'"
    unfolding prod.case by simp
qed

lemma gen_paths_collects: "gen_paths_with P (beside X) collect p (w, []) = map_option swapped (gen_paths P X p w)"
proof (cases "gen_paths P X p w")
  case None
  then have "gen_paths_with P (beside X) collect p (w, []) \<noteq> Some r" for r
    using gen_paths_collects_only_if[of P "beside X" collect p "(w, [])" r X w "[]"] by (auto simp: gen_paths_def)
  with None show ?thesis by (cases "gen_paths_with P (beside X) collect p (w, [])") auto
next
  case (Some r)
  then show ?thesis using gen_paths_collects_if[of P X "[]" p w r] by (simp add: gen_paths_def)
qed

end
