(* ===== verification/Loader.thy ===== *)
theory Loader
  imports Linker
begin

text \<open>
  The loader, \<^verbatim>\<open>loader/BFDLoader.cpp\<close>: the sections, symbols and relocations of a binary become an address space, and
  the state at the entry point is made from it. The BFD library, which reads the file, is the record \<open>bfd_api\<close>: what it
  returns for an object, the numbers it has for machines and flags, and the bytes it writes for a section.
\<close>

section \<open>The library\<close>

record bfd_section =
  bs_name :: string
  bs_vma :: "64 word"
  bs_size :: "64 word"
  bs_flags :: "32 word"
  bs_contents :: "8 word list"

record asymbol =
  sy_name :: string
  sy_value :: "64 word"
  sy_flags :: "32 word"

record arelent =
  rl_symbol :: asymbol
  rl_address :: "64 word"

datatype bfd_flavour = Elf_flavour | Coff_flavour | Unknown_flavour | Other_flavour

text \<open>An upper bound is negative when the library fails, and a table is \<open>None\<close> when its length is negative.\<close>

record bfd =
  bfd_is_object :: bool
  bfd_start_address :: "64 word"
  bfd_mach :: nat
  bfd_get_flavour :: bfd_flavour
  bfd_sections :: "bfd_section list"
  bfd_symtab_bound :: int
  bfd_symtab :: "asymbol list option"
  bfd_dynsym_bound :: int
  bfd_dynsym :: "asymbol list option"
  bfd_dynrel_bound :: int
  bfd_dynrel :: "arelent list option"

record bfd_api =
  bfd_openr :: "string \<Rightarrow> bfd option"
  mach_x86_64 :: nat
  mach_arm_6 :: nat
  mach_arm_7 :: nat
  SEC_READONLY :: "32 word"
  EXEC_P :: "32 word"
  BSF_FUNCTION :: "32 word"
  BSF_LOCAL :: "32 word"
  BSF_GLOBAL :: "32 word"

section \<open>The code\<close>

datatype binary_type = ELF | PE

record loader =
  ld_entrypoint :: "64 word"
  ld_arch :: arch
  ld_bin_type :: binary_type
  ld_syscall_abi :: syscall_abi
  ld_address_space :: address_space

definition PERM_READ :: "8 word" where "PERM_READ = 1"

definition PERM_WRITE :: "8 word" where "PERM_WRITE = 2"

text \<open>The permission to execute has the bits of the other two.\<close>

definition PERM_EXEC :: "8 word" where "PERM_EXEC = 3"

definition section_perm :: "bfd_api \<Rightarrow> bfd_section \<Rightarrow> 8 word" where
  "section_perm B s =
     (let p = or PERM_READ PERM_WRITE;
          p = (if and (bs_flags s) (SEC_READONLY B) \<noteq> 0 then and p (not PERM_WRITE) else p)
      in if and (bs_flags s) (EXEC_P B) \<noteq> 0 then or p PERM_EXEC else p)"

text \<open>The library writes the contents over the zeros of the segment.\<close>

definition relocated_contents :: "bfd_section \<Rightarrow> 8 word list \<Rightarrow> 8 word list" where
  "relocated_contents s data = take (length data) (bs_contents s) @ drop (length (bs_contents s)) data"

text \<open>The new segment is the last one of the address space.\<close>

fun load_sections :: "bfd_api \<Rightarrow> bfd_section list \<Rightarrow> address_space \<Rightarrow> address_space res" where
  "load_sections B [] as = Inr as"
| "load_sections B (s # ss) as =
     (if bs_size s = 0 then load_sections B ss as
      else let as' = register_segment_zero (bs_name s) (bs_vma s) (bs_size s) (section_perm B s) as;
               seg = last (m_segments as')
        in case seg_get_ref seg (bs_vma s) of
             None \<Rightarrow> Inl (Exit ''load_sections'')
           | Some (data, n) \<Rightarrow> load_sections B ss
               (as'\<lparr>m_segments := butlast (m_segments as') @ [seg\<lparr>seg_data := relocated_contents s data\<rparr>]\<rparr>))"

definition deduce_syscall_abi :: "binary_type \<Rightarrow> arch \<Rightarrow> syscall_abi" where
  "deduce_syscall_abi t a = (if t = ELF \<and> a = X86_64 then LINUX_X86_64 else if t = ELF \<and> a = ARM32LE then LINUX_ARMv7
     else UNKNOWN_ABI)"

definition symbol_kind :: "bfd_api \<Rightarrow> 32 word \<Rightarrow> symbol_type" where
  "symbol_kind B flags =
     (if and flags (BSF_FUNCTION B) \<noteq> 0 then FUNCTION
      else if and flags (BSF_LOCAL B) \<noteq> 0 then LOCAL
      else if and flags (BSF_GLOBAL B) \<noteq> 0 then GLOBAL
      else UNKNOWN_SYMBOL)"

fun process_symtable :: "bfd_api \<Rightarrow> asymbol list \<Rightarrow> address_space \<Rightarrow> address_space" where
  "process_symtable B [] as = as"
| "process_symtable B (y # ys) as = process_symtable B ys
     (if sy_value y = 0 then as else register_symbol (sy_value y) (sy_name y) (symbol_kind B (sy_flags y)) as)"

text \<open>The two tables of symbols differ in the functions of the library that are called.\<close>

definition load_table :: "bfd_api \<Rightarrow> string \<Rightarrow> int \<Rightarrow> asymbol list option \<Rightarrow> address_space \<Rightarrow> address_space res" where
  "load_table B name bound table as =
     (if bound < 0 then Inl (Exit name)
      else if bound = 0 then Inr as
      else case table of None \<Rightarrow> Inl (Exit name) | Some ys \<Rightarrow> Inr (process_symtable B ys as))"

definition load_symtab :: "bfd_api \<Rightarrow> bfd \<Rightarrow> address_space \<Rightarrow> address_space res" where
  "load_symtab B b = load_table B ''load_symtab'' (bfd_symtab_bound b) (bfd_symtab b)"

definition load_dyn_symtab :: "bfd_api \<Rightarrow> bfd \<Rightarrow> address_space \<Rightarrow> address_space res" where
  "load_dyn_symtab B b = load_table B ''load_dyn_symtab'' (bfd_dynsym_bound b) (bfd_dynsym b)"

fun process_relocs :: "bfd_api \<Rightarrow> arelent list \<Rightarrow> address_space \<Rightarrow> address_space" where
  "process_relocs B [] as = as"
| "process_relocs B (r # rs) as = process_relocs B rs
     (if and (sy_flags (rl_symbol r)) (BSF_FUNCTION B) \<noteq> 0
      then register_relocation (rl_address r) (sy_name (rl_symbol r)) FUNC as
      else if and (sy_flags (rl_symbol r)) (BSF_GLOBAL B) \<noteq> 0
      then register_relocation (rl_address r) (sy_name (rl_symbol r)) DATA as
      else as)"

definition load_dyn_relocs :: "bfd_api \<Rightarrow> bfd \<Rightarrow> address_space \<Rightarrow> address_space res" where
  "load_dyn_relocs B b as =
     (if bfd_dynrel_bound b < 0 then Inl (Exit ''load_dyn_relocs'')
      else if bfd_dynrel_bound b = 0 then Inr as
      else if bfd_dynsym_bound b < 0 then Inl (Exit ''load_dyn_relocs'')
      else if bfd_dynsym_bound b = 0 then Inr as
      else case bfd_dynsym b of
        None \<Rightarrow> Inl (Exit ''load_dyn_relocs'')
      | Some ys \<Rightarrow> Inr (case bfd_dynrel b of None \<Rightarrow> as | Some rs \<Rightarrow> process_relocs B rs as))"

definition arch_of :: "bfd_api \<Rightarrow> nat \<Rightarrow> arch res" where
  "arch_of B mach = (if mach = mach_x86_64 B then Inr X86_64
     else if mach = mach_arm_6 B \<or> mach = mach_arm_7 B then Inr ARM32LE
     else Inl (Exit ''unsupported architecture''))"

definition type_of_flavour :: "bfd_flavour \<Rightarrow> binary_type res" where
  "type_of_flavour f = (case f of
     Unknown_flavour \<Rightarrow> Inl (Exit ''unrecognized binary format'')
   | Elf_flavour \<Rightarrow> Inr ELF
   | Coff_flavour \<Rightarrow> Inr PE
   | Other_flavour \<Rightarrow> Inl (Exit ''unsupported binary type''))"

definition load_contents :: "bfd_api \<Rightarrow> bfd \<Rightarrow> address_space res" where
  "load_contents B b = rbind (load_sections B (bfd_sections b) AddressSpace_init) (\<lambda>as.
     rbind (load_symtab B b as) (\<lambda>as. rbind (load_dyn_symtab B b as) (load_dyn_relocs B b)))"

text \<open>The constructor. The lifter it makes for the processor is part of the host.\<close>

definition load_binary :: "bfd_api \<Rightarrow> string \<Rightarrow> loader res" where
  "load_binary B filename = (case bfd_openr B filename of
     None \<Rightarrow> Inl (Exit ''bfd_openr'')
   | Some b \<Rightarrow> if \<not> bfd_is_object b then Inl (Exit ''bfd_check_format'')
       else rbind (arch_of B (bfd_mach b)) (\<lambda>a. rbind (type_of_flavour (bfd_get_flavour b)) (\<lambda>t.
            rbind (load_contents B b) (\<lambda>as.
              Inr \<lparr>ld_entrypoint = bfd_start_address b, ld_arch = a, ld_bin_type = t,
                ld_syscall_abi = deduce_syscall_abi t a, ld_address_space = as\<rparr>))))"

text \<open>\<open>host a\<close> is the host with the processor \<open>a\<close> and its lifter.\<close>

definition entry_state :: "(arch \<Rightarrow> 'z host) \<Rightarrow> loader \<Rightarrow> 'z process \<Rightarrow> (state \<times> 'z process) res" where
  "entry_state host ld p = State_init (host (ld_arch ld)) (ld_address_space ld) (ld_entrypoint ld) (ld_syscall_abi ld) p"

end
