(* ===== verification/Loader_Properties.thy ===== *)
theory Loader_Properties
  imports Loader Exploration_Properties
begin

text \<open>
  What the loader and the linker make of a binary: the address space has the bytes, symbols and relocations of the file, and
  after linking every function relocation leads to the model of its function.
\<close>

section \<open>The address space of a binary\<close>

definition section_covers :: "64 word \<Rightarrow> bfd_section \<Rightarrow> bool" where
  "section_covers a s \<longleftrightarrow> unat (bs_vma s) \<le> unat a \<and> unat a < unat (bs_vma s) + unat (bs_size s)"

definition section_byte :: "64 word \<Rightarrow> bfd_section \<Rightarrow> 8 word" where
  "section_byte a s = (let i = unat a - unat (bs_vma s) in if i < length (bs_contents s) then bs_contents s ! i else 0)"

definition segment_of :: "bfd_api \<Rightarrow> bfd_section \<Rightarrow> segment" where
  "segment_of B s = \<lparr>seg_name = bs_name s, seg_addr = bs_vma s,
     seg_data = relocated_contents s (replicate (unat (bs_size s)) 0), seg_size = bs_size s, seg_perm = section_perm B s\<rparr>"

definition symbols_of :: "bfd_api \<Rightarrow> 64 word \<Rightarrow> asymbol list \<Rightarrow> symbol list" where
  "symbols_of B a ys = map (\<lambda>y. \<lparr>symbol_addr = a, symbol_name = sy_name y, symbol_type = symbol_kind B (sy_flags y)\<rparr>)
     (filter (\<lambda>y. sy_value y = a \<and> a \<noteq> 0) ys)"

definition relocs_of :: "bfd_api \<Rightarrow> arelent list \<Rightarrow> relocation list" where
  "relocs_of B rs = concat (map (\<lambda>r.
     if and (sy_flags (rl_symbol r)) (BSF_FUNCTION B) \<noteq> 0
     then [\<lparr>reloc_addr = rl_address r, reloc_name = sy_name (rl_symbol r), reloc_type = FUNC\<rparr>]
     else if and (sy_flags (rl_symbol r)) (BSF_GLOBAL B) \<noteq> 0
     then [\<lparr>reloc_addr = rl_address r, reloc_name = sy_name (rl_symbol r), reloc_type = DATA\<rparr>] else []) rs)"

definition symbols_at :: "address_space \<Rightarrow> 64 word \<Rightarrow> symbol list" where
  "symbols_at as a = (case as_symbols as a of None \<Rightarrow> [] | Some ys \<Rightarrow> ys)"

lemma process_symtable_spec:
  "m_segments (process_symtable B ys as) = m_segments as \<and> m_relocs (process_symtable B ys as) = m_relocs as \<and>
   (\<forall>a. symbols_at (process_symtable B ys as) a = symbols_at as a @ symbols_of B a ys)"
proof (induction ys arbitrary: as)
  case Nil
  show ?case by (simp add: symbols_of_def)
next
  case (Cons y ys)
  let ?as = "if sy_value y = 0 then as else register_symbol (sy_value y) (sy_name y) (symbol_kind B (sy_flags y)) as"
  have "symbols_at ?as a @ symbols_of B a ys = symbols_at as a @ symbols_of B a (y # ys)" for a
    by (auto simp: register_symbol_def symbols_at_def symbols_of_def Let_def split: option.splits)
  moreover have "m_segments ?as = m_segments as" "m_relocs ?as = m_relocs as"
    by (simp_all add: register_symbol_def Let_def)
  ultimately show ?case using Cons.IH[of ?as] by (simp del: if_split) 
qed

lemma process_relocs_spec:
  "m_segments (process_relocs B rs as) = m_segments as \<and> as_symbols (process_relocs B rs as) = as_symbols as \<and>
   m_relocs (process_relocs B rs as) = m_relocs as @ relocs_of B rs"
  by (induction rs arbitrary: as) (simp_all add: relocs_of_def register_relocation_def)

lemma contains_start: "contains s (seg_addr s) \<Longrightarrow> unat (seg_addr s) + unat (seg_size s) < 2 ^ 64"
proof -
  assume "contains s (seg_addr s)"
  then have "seg_addr s \<le> seg_addr s + seg_size s" by (simp add: contains_def)
  then show ?thesis by (simp add: no_olen_add_nat)
qed

lemma contains_nat:
  assumes "unat (seg_addr s) + unat (seg_size s) < 2 ^ 64"
  shows "contains s a \<longleftrightarrow> unat (seg_addr s) \<le> unat a \<and> unat a < unat (seg_addr s) + unat (seg_size s)"
proof -
  have "unat (seg_addr s + seg_size s) = unat (seg_addr s) + unat (seg_size s)"
    using assms by (simp add: unat_add_lem[symmetric])
  then show ?thesis by (simp add: contains_def word_le_nat_alt word_less_nat_alt)
qed

definition fits :: "bfd_section \<Rightarrow> bool" where
  "fits s \<longleftrightarrow> unat (bs_vma s) + unat (bs_size s) < 2 ^ 64"

lemma load_sections_spec:
  "load_sections B ss as = Inr as' \<Longrightarrow>
   m_segments as' = m_segments as @ map (segment_of B) (filter (\<lambda>s. bs_size s \<noteq> 0) ss) \<and>
   as_symbols as' = as_symbols as \<and> m_relocs as' = m_relocs as \<and> (\<forall>s\<in>set ss. bs_size s \<noteq> 0 \<longrightarrow> fits s)"
proof (induction ss arbitrary: as)
  case (Cons s ss)
  show ?case
  proof (cases "bs_size s = 0")
    case True
    with Cons show ?thesis by simp
  next
    case False
    let ?z = "Segment_zero (bs_name s) (bs_vma s) (bs_size s) (section_perm B s)"
    let ?as = "as\<lparr>m_segments := m_segments as @ [segment_of B s]\<rparr>"
    have c: "contains ?z (bs_vma s)" and l: "load_sections B ss ?as = Inr as'"
      using Cons.prems False
      by (auto simp: Let_def register_segment_zero_def seg_get_ref_def Segment_zero_def segment_of_def split: if_splits)
    have "fits s" using contains_start[of ?z] c by (simp add: fits_def Segment_zero_def)
    with Cons.IH[OF l] False show ?thesis by simp
  qed
qed simp

lemma length_relocated: "length (relocated_contents s data) = length data"
  by (simp add: relocated_contents_def)

lemma segment_of_byte:
  assumes "fits s"
  shows "contains (segment_of B s) a \<longleftrightarrow> section_covers a s"
    and "section_covers a s \<Longrightarrow> seg_read (segment_of B s) a = Some (section_byte a s)"
proof -
  show c: "contains (segment_of B s) a \<longleftrightarrow> section_covers a s"
    using contains_nat[of "segment_of B s" a] assms by (simp add: segment_of_def fits_def section_covers_def)
  assume a: "section_covers a s"
  then have "unat (a - bs_vma s) = unat a - unat (bs_vma s)"
    by (simp add: section_covers_def unat_sub word_le_nat_alt)
  with a c show "seg_read (segment_of B s) a = Some (section_byte a s)"
    by (auto simp: seg_read_inside segment_of_def relocated_contents_def section_byte_def nth_append Let_def section_covers_def)
qed

lemma find_byte_sections:
  "\<forall>s\<in>set ss. bs_size s \<noteq> 0 \<longrightarrow> fits s \<Longrightarrow>
   find_byte (map (segment_of B) (filter (\<lambda>s. bs_size s \<noteq> 0) ss)) a = map_option (section_byte a) (find (section_covers a) ss)"
proof (induction ss)
  case (Cons s ss)
  have "\<not> section_covers a s" if "bs_size s = 0" using that by (simp add: section_covers_def)
  then show ?case using Cons by (auto simp: segment_of_byte)
qed simp

text \<open>The tables as the code reads them: a bound of zero means that there is none.\<close>

definition table_of :: "int \<Rightarrow> 'a list option \<Rightarrow> 'a list" where
  "table_of bound t = (if bound = 0 then [] else case t of None \<Rightarrow> [] | Some xs \<Rightarrow> xs)"

lemma load_table_spec:
  "load_table B name bound t as = Inr as' \<Longrightarrow> as' = process_symtable B (table_of bound t) as"
  by (auto simp: load_table_def table_of_def split: if_splits option.splits)

lemma load_contents_spec:
  assumes "load_contents B b = Inr as"
  shows "m_segments as = map (segment_of B) (filter (\<lambda>s. bs_size s \<noteq> 0) (bfd_sections b))"
    and "\<forall>s\<in>set (bfd_sections b). bs_size s \<noteq> 0 \<longrightarrow> fits s"
    and "symbols_at as a = symbols_of B a (table_of (bfd_symtab_bound b) (bfd_symtab b) @ table_of (bfd_dynsym_bound b) (bfd_dynsym b))"
    and "m_relocs as = (if bfd_dynsym_bound b = 0 then [] else relocs_of B (table_of (bfd_dynrel_bound b) (bfd_dynrel b)))"
proof -
  let ?t1 = "table_of (bfd_symtab_bound b) (bfd_symtab b)" and ?t2 = "table_of (bfd_dynsym_bound b) (bfd_dynsym b)"
  obtain as1 as2 as3 where l: "load_sections B (bfd_sections b) AddressSpace_init = Inr as1"
    "as2 = process_symtable B ?t1 as1" "as3 = process_symtable B ?t2 as2" "load_dyn_relocs B b as3 = Inr as"
    using assms by (auto simp: load_contents_def load_symtab_def load_dyn_symtab_def rbind_Inr_iff dest!: load_table_spec)
  have r: "m_segments as = m_segments as3 \<and> as_symbols as = as_symbols as3 \<and>
      m_relocs as = m_relocs as3 @ (if bfd_dynsym_bound b = 0 then [] else relocs_of B (table_of (bfd_dynrel_bound b) (bfd_dynrel b)))"
    using l(4) process_relocs_spec[of B _ as3]
    by (auto simp: load_dyn_relocs_def table_of_def relocs_of_def split: if_splits option.splits)
  note spec = load_sections_spec[OF l(1)] process_symtable_spec[of B ?t1 as1] process_symtable_spec[of B ?t2 as2]
  show "m_segments as = map (segment_of B) (filter (\<lambda>s. bs_size s \<noteq> 0) (bfd_sections b))"
    and "\<forall>s\<in>set (bfd_sections b). bs_size s \<noteq> 0 \<longrightarrow> fits s"
    and "m_relocs as = (if bfd_dynsym_bound b = 0 then [] else relocs_of B (table_of (bfd_dynrel_bound b) (bfd_dynrel b)))"
    using r spec l(2,3) by (auto simp: AddressSpace_init_def)
  have "symbols_at as1 a = []" using spec(1) by (simp add: symbols_at_def AddressSpace_init_def)
  then show "symbols_at as a = symbols_of B a (?t1 @ ?t2)"
    using r spec(2,3) l(2,3) by (simp add: symbols_at_def symbols_of_def)
qed

text \<open>C16: the address space of a loaded binary is the file: a byte reads as the byte of the first section that covers its
  address, with zeros behind the contents; the symbols at an address are those of the two tables with this value, in their
  order, but none at zero; the relocations are the functions and global objects of the dynamic relocations, none when the
  file has no dynamic symbols. Every section that is not empty ends before the end of the address space.\<close>

theorem loader_maps_binary:
  assumes "load_binary B filename = Inr ld" and "bfd_openr B filename = Some b"
  shows "as_read_byte (ld_address_space ld) a = map_option (section_byte a) (find (section_covers a) (bfd_sections b)) \<and>
    symbols_at (ld_address_space ld) a = symbols_of B a
      (table_of (bfd_symtab_bound b) (bfd_symtab b) @ table_of (bfd_dynsym_bound b) (bfd_dynsym b)) \<and>
    m_relocs (ld_address_space ld) = (if bfd_dynsym_bound b = 0 then [] else relocs_of B (table_of (bfd_dynrel_bound b) (bfd_dynrel b))) \<and>
    segments_ok (ld_address_space ld) \<and> ld_entrypoint ld = bfd_start_address b \<and>
    (ld_syscall_abi ld = LINUX_X86_64 \<longleftrightarrow> bfd_get_flavour b = Elf_flavour \<and> bfd_mach b = mach_x86_64 B)"
proof -
  have as: "load_contents B b = Inr (ld_address_space ld)" and t: "arch_of B (bfd_mach b) = Inr (ld_arch ld)"
    "type_of_flavour (bfd_get_flavour b) = Inr (ld_bin_type ld)" "ld_syscall_abi ld = deduce_syscall_abi (ld_bin_type ld) (ld_arch ld)"
    "ld_entrypoint ld = bfd_start_address b"
    using assms by (auto simp: load_binary_def rbind_Inr_iff split: if_splits)
  note spec = load_contents_spec[OF as]
  have "segments_ok (ld_address_space ld)"
    using spec(1) by (auto simp: segments_ok_def segment_of_def length_relocated)
  moreover have "ld_syscall_abi ld = LINUX_X86_64 \<longleftrightarrow> bfd_get_flavour b = Elf_flavour \<and> bfd_mach b = mach_x86_64 B"
    using t(1-3) by (auto simp: deduce_syscall_abi_def arch_of_def type_of_flavour_def split: if_splits bfd_flavour.splits)
  ultimately show ?thesis
    using spec t(4) find_byte_sections[OF spec(2)] by (simp add: as_read_byte_def)
qed

section \<open>Linking\<close>

text \<open>The word at an address holds a constant.\<close>

definition holds_word :: "map_memory \<Rightarrow> 64 word \<Rightarrow> nat \<Rightarrow> endianess \<Rightarrow> 64 word \<Rightarrow> bool" where
  "holds_word m a n end x \<longleftrightarrow> (\<exists>v. konst (8 * n) (take_bit (8 * n) (uint x)) v \<and> const_ok n v \<and>
     (\<forall>i<n. const_mem.stored m a v end n i))"

lemma holds_word_cong:
  assumes "holds_word m a n end x" "\<forall>y\<in>offsets a n. m_memory m' y = m_memory m y"
  shows "holds_word m' a n end x"
proof -
  have "const_mem.stored m' a v end n i \<longleftrightarrow> const_mem.stored m a v end n i" if "i < n" for v i
    using assms(2) that by (simp add: const_mem.stored_def offsets_def)
  with assms(1) show ?thesis by (auto simp: holds_word_def)
qed

lemma konst_const_ok: "konst (8 * n) x v \<Longrightarrow> 0 < n \<Longrightarrow> const_ok n v"
  by (auto simp: const_ok_def konst_def bv_rep_def)

lemma write_address:
  fixes H :: "'z host" and p :: "'z process"
  assumes "0 < n" "n \<le> 8" "binv (h_amb H) (w_builder (p_world p))"
  obtains s' p' where "xbnd (mk_constant H x (8 * n)) (\<lambda>v. state_write H a v) (s, p) = Inr (Some (), (s', p'))"
    "binv (h_amb H) (w_builder (p_world p'))" "m_linked_functions s' = m_linked_functions s"
    "m_address_space s' = m_address_space s" "holds_word (m_ram s') a n (arch_endianess (h_arch H)) x"
    "\<forall>y. y \<notin> offsets a n \<longrightarrow> m_memory (m_ram s') y = m_memory (m_ram s) y"
proof -
  let ?A = "h_amb H" and ?e = "arch_endianess (h_arch H)"
  have "builds ?A (mk_const_u64 ?A x (8 * n)) (konst (8 * n) (take_bit (8 * n) (uint x)))"
    using assms(1) by (intro const_u64_konst) simp_all
  then obtain v b where v: "mk_const_u64 ?A x (8 * n) (w_builder (p_world p)) = Inr (v, b)" "binv ?A b"
    "konst (8 * n) (take_bit (8 * n) (uint x)) v"
    by (rule buildsE[OF _ assms(3)])
  have ok: "const_ok n v" using konst_const_ok[OF v(3) assms(1)] .
  let ?w = "(p_world p)\<lparr>w_builder := b\<rparr>"
  have bn: "binv ?A (w_builder ?w)" "n \<le> 2 ^ 64" using v(2) assms(2) by simp_all
  obtain mem b' where w: "write_loop ?A a v ?e n 0 n (m_ram s, m_solver s, ?w) =
      Inr ((), ((m_ram s)\<lparr>m_memory := mem\<rparr>, m_solver s, ?w\<lparr>w_builder := b'\<rparr>))" "binv ?A b'"
    "\<forall>j<n. const_mem.stored ((m_ram s)\<lparr>m_memory := mem\<rparr>) a v ?e n j" "\<forall>y. y \<notin> offsets a n \<longrightarrow> mem y = m_memory (m_ram s) y"
    using const_mem.write_loop_spec[OF ok bn(2,1), of 0 n "m_ram s" a ?e "m_solver s"] by auto
  have "expr_size v = 8 * n" using const_mem.width[OF ok] by simp
  with w(1) have mw: "mem_write ?A a v ?e (m_ram s, m_solver s, ?w) =
      Inr ((), ((m_ram s)\<lparr>m_memory := mem\<rparr>, m_solver s, ?w\<lparr>w_builder := b'\<rparr>))"
    by (simp add: mem_write_def)
  let ?s1 = "s\<lparr>m_solver := m_solver s\<rparr>"
  let ?s = "?s1\<lparr>m_ram := (m_ram s)\<lparr>m_memory := mem\<rparr>, m_solver := m_solver s\<rparr>" and ?p = "p\<lparr>p_world := ?w\<lparr>w_builder := b'\<rparr>\<rparr>"
  have "xbnd (mk_constant H x (8 * n)) (\<lambda>v. state_write H a v) (s, p) = Inr (Some (), (?s, ?p))"
    using v(1) mw
    by (simp add: xbnd_def bnd_def mk_constant_def build_def always_def in_solver_def building_def in_world_def in_builder_def
      ret_apply state_write_def in_ram_def)
  then show ?thesis
    by (rule that) (use w(2-4) v(3) ok in \<open>auto simp: holds_word_def\<close>)
qed

definition fun_relocs :: "relocation list \<Rightarrow> relocation list" where
  "fun_relocs rs = filter (\<lambda>r. reloc_type r = FUNC) rs"

definition model_of :: "relocation \<Rightarrow> libc_model" where
  "model_of r = (case m_models (reloc_name r) of None \<Rightarrow> Unmodelled | Some m \<Rightarrow> m)"

text \<open>No relocation overwrites a part of an earlier one.\<close>

definition apart :: "nat \<Rightarrow> relocation list \<Rightarrow> bool" where
  "apart n rs \<longleftrightarrow> sorted_wrt (\<lambda>r r'. offsets (reloc_addr r) n \<inter> offsets (reloc_addr r') n = {}) rs"

text \<open>\<open>links H n a fs s\<close>: the functions \<open>fs\<close> are linked in \<open>s\<close> from the address \<open>a\<close> on.\<close>

definition links :: "'z host \<Rightarrow> nat \<Rightarrow> 64 word \<Rightarrow> relocation list \<Rightarrow> state \<Rightarrow> bool" where
  "links H n a fs s \<longleftrightarrow> (\<forall>k<length fs. m_linked_functions s (a + of_nat (k * n)) = Some (model_of (fs ! k)) \<and>
     holds_word (m_ram s) (reloc_addr (fs ! k)) n (arch_endianess (h_arch H)) (a + of_nat (k * n)))"

lemma links_Cons:
  assumes "links H n (a + of_nat n) fs s" "m_linked_functions s a = Some (model_of r)"
    "holds_word (m_ram s) (reloc_addr r) n (arch_endianess (h_arch H)) a"
  shows "links H n a (r # fs) s"
  unfolding links_def
proof (intro allI impI)
  fix k assume k: "k < length (r # fs)"
  show "m_linked_functions s (a + of_nat (k * n)) = Some (model_of ((r # fs) ! k)) \<and>
     holds_word (m_ram s) (reloc_addr ((r # fs) ! k)) n (arch_endianess (h_arch H)) (a + of_nat (k * n))"
  proof (cases k)
    case 0
    with assms(2,3) show ?thesis by simp
  next
    case (Suc j)
    with assms(1) k show ?thesis by (simp add: links_def algebra_simps)
  qed
qed

lemma link_relocs_Cons:
  assumes "reloc_type r = FUNC" "8 * n = ptr_size (h_arch H)"
  shows "link_relocs H a (r # rs) = xbnd (xbnd (mk_constant H a (8 * n)) (\<lambda>v. state_write H (reloc_addr r) v)) (\<lambda>_.
    xbnd (update (register_linked_function a (model_of r))) (\<lambda>_. link_relocs H (a + of_nat n) rs))"
proof -
  have "ptr_size (h_arch H) div 8 = n" using assms(2) by (metis nonzero_mult_div_cancel_left zero_neq_numeral)
  with assms show ?thesis
    by (intro ext) (simp add: xbnd_def bnd_def model_of_def Let_def ret_def split: sum.split option.split)
qed

lemma linked_registered:
  "m_linked_functions (register_linked_function a m s) = (m_linked_functions s)(a \<mapsto> m)"
  "m_ram (register_linked_function a m s) = m_ram s"
  "m_address_space (register_linked_function a m s) = m_address_space s"
  by (simp_all add: register_linked_function_def Let_def)

lemma update_then: "xbnd (update f) g (s, p) = g () (f s, p)"
  by (simp add: xbnd_def bnd_def update_def)

lemma gets_then: "xbnd (gets f) g (s, p) = g (f s) (s, p)"
  by (simp add: xbnd_def bnd_def gets_def)

lemma after_run: "m w = Inr (Some x, w') \<Longrightarrow> xbnd m g w = g x w'"
  by (simp add: xbnd_def bnd_def)

lemma link_relocs_spec:
  fixes H :: "'z host" and p :: "'z process"
  assumes n: "8 * n = ptr_size (h_arch H)" "0 < n" "n \<le> 8"
    and "apart n (fun_relocs rs)" "length (fun_relocs rs) * n < 2 ^ 63" "binv (h_amb H) (w_builder (p_world p))"
  shows "\<exists>s' p'. link_relocs H a rs (s, p) = Inr (Some (), (s', p')) \<and> binv (h_amb H) (w_builder (p_world p')) \<and>
    links H n a (fun_relocs rs) s' \<and>
    (\<forall>x. (\<forall>k<length (fun_relocs rs). x \<noteq> a + of_nat (k * n)) \<longrightarrow> m_linked_functions s' x = m_linked_functions s x) \<and>
    (\<forall>y. (\<forall>r\<in>set (fun_relocs rs). y \<notin> offsets (reloc_addr r) n) \<longrightarrow> m_memory (m_ram s') y = m_memory (m_ram s) y)"
  using assms(4-)
proof (induction rs arbitrary: a s p)
  case Nil
  then show ?case by (simp add: fun_relocs_def links_def xret_def ret_apply)
next
  case (Cons r rs)
  show ?case
  proof (cases "reloc_type r = FUNC")
    case False
    then have "fun_relocs (r # rs) = fun_relocs rs" "link_relocs H a (r # rs) = link_relocs H a rs" by (simp_all add: fun_relocs_def)
    with Cons show ?thesis by simp
  next
    case True
    let ?fs = "fun_relocs rs"
    have fs: "fun_relocs (r # rs) = r # ?fs" using True by (simp add: fun_relocs_def)
    have sep: "apart n ?fs" "\<forall>r'\<in>set ?fs. offsets (reloc_addr r) n \<inter> offsets (reloc_addr r') n = {}"
      and len: "length ?fs * n < 2 ^ 63" "Suc (length ?fs) * n < 2 ^ 63"
      using Cons.prems(1,2) unfolding fs by (auto simp: apart_def)
    obtain s1 p1 where w: "xbnd (mk_constant H a (8 * n)) (\<lambda>v. state_write H (reloc_addr r) v) (s, p) = Inr (Some (), (s1, p1))"
      "binv (h_amb H) (w_builder (p_world p1))" "m_linked_functions s1 = m_linked_functions s"
      "holds_word (m_ram s1) (reloc_addr r) n (arch_endianess (h_arch H)) a"
      "\<forall>y. y \<notin> offsets (reloc_addr r) n \<longrightarrow> m_memory (m_ram s1) y = m_memory (m_ram s) y"
      by (rule write_address[OF n(2,3) Cons.prems(3)]) (rule that)
    let ?s2 = "register_linked_function a (model_of r) s1"
    obtain s' p' where l: "link_relocs H (a + of_nat n) rs (?s2, p1) = Inr (Some (), (s', p'))"
      "binv (h_amb H) (w_builder (p_world p'))" "links H n (a + of_nat n) ?fs s'"
      "\<forall>x. (\<forall>k<length ?fs. x \<noteq> a + of_nat n + of_nat (k * n)) \<longrightarrow> m_linked_functions s' x = m_linked_functions ?s2 x"
      "\<forall>y. (\<forall>r\<in>set ?fs. y \<notin> offsets (reloc_addr r) n) \<longrightarrow> m_memory (m_ram s') y = m_memory (m_ram ?s2) y"
      using Cons.IH[OF sep(1) len(1) w(2), of "a + of_nat n" ?s2] by blast
    have run: "link_relocs H a (r # rs) (s, p) = Inr (Some (), (s', p'))"
      unfolding link_relocs_Cons[OF True n(1)] using l(1)
      by (simp add: update_then after_run[of "xbnd (mk_constant H a (8 * n)) (\<lambda>v. state_write H (reloc_addr r) v)", OF w(1)])
    have off: "a \<noteq> a + of_nat n + of_nat (k * n)" if "k < length ?fs" for k
    proof
      assume "a = a + of_nat n + of_nat (k * n)"
      then have "a + of_nat 0 = (a + of_nat (Suc k * n) :: 64 word)" by (simp add: algebra_simps)
      moreover have "Suc k * n \<le> length ?fs * n" using that by (intro mult_right_mono) simp_all
      then have "Suc k * n < 2 ^ 64" using len(1) by simp
      ultimately show False using offset_inj[of 0 "Suc k * n" a] n(2) by simp
    qed
    have "m_linked_functions s' a = Some (model_of r)" using l(4) off by (simp add: linked_registered)
    moreover have "holds_word (m_ram s') (reloc_addr r) n (arch_endianess (h_arch H)) a"
      by (rule holds_word_cong[OF w(4)]) (use l(5) sep(2) in \<open>auto simp: linked_registered\<close>)
    ultimately have links: "links H n a (r # ?fs) s'" by (rule links_Cons[OF l(3)])
    have "m_linked_functions s' x = m_linked_functions s x" if "\<forall>k<length (r # ?fs). x \<noteq> a + of_nat (k * n)" for x
    proof -
      have "x \<noteq> a + of_nat n + of_nat (k * n)" if "k < length ?fs" for k
        using \<open>\<forall>k<length (r # ?fs). x \<noteq> a + of_nat (k * n)\<close>[rule_format, of "Suc k"] that by (simp add: algebra_simps)
      moreover have "x \<noteq> a" using that[rule_format, of 0] by simp
      ultimately show ?thesis using l(4) w(3) by (simp add: linked_registered)
    qed
    moreover have "m_memory (m_ram s') y = m_memory (m_ram s) y" if "\<forall>r\<in>set (r # ?fs). y \<notin> offsets (reloc_addr r) n" for y
      using that l(5) w(5) by (simp add: linked_registered)
    ultimately show ?thesis unfolding fs using run l(2) links by blast
  qed
qed

lemma exit_wrapper_model: "m_models ''libc_start_main_exit_wrapper'' = Some Libc_start_main_exit_wrapper"
  by (simp add: m_models_def registered_models_def model_name_def)

lemma pointer_bytes: "8 * (ptr_size ar div 8) = ptr_size ar" "0 < ptr_size ar div 8" "ptr_size ar div 8 \<le> 8"
  by (cases ar; simp add: ptr_size_def)+

lemma holds_word_read:
  fixes H :: "'z host" and p :: "'z process"
  assumes "holds_word (m_ram s) a n (arch_endianess (h_arch H)) x" "binv (h_amb H) (w_builder (p_world p))"
  shows "\<exists>v p'. state_read H a n (s, p) = Inr (Some v, (s, p')) \<and> konst (8 * n) (take_bit (8 * n) (uint x)) v"
proof -
  obtain v where v: "konst (8 * n) (take_bit (8 * n) (uint x)) v" "const_ok n v"
    "\<forall>i<n. const_mem.stored (m_ram s) a v (arch_endianess (h_arch H)) n i"
    using assms(1) by (auto simp: holds_word_def)
  obtain b where b: "mem_read (h_amb H) a n (arch_endianess (h_arch H)) (m_ram s, m_solver s, p_world p) =
      Inr (v, (m_ram s, m_solver s, (p_world p)\<lparr>w_builder := b\<rparr>))"
    using const_mem.mem_read_spec[OF v(2) assms(2) v(3), of "m_solver s"] by blast
  have "s\<lparr>m_ram := m_ram s, m_solver := m_solver s\<rparr> = s" by simp
  with b v(1) show ?thesis by (simp add: state_read_def always_def in_ram_def bnd_def ret_apply)
qed

text \<open>C17: linking always succeeds, and resolves every function: the wrapper of \<^verbatim>\<open>exit\<close> is at the base of the external
  functions, the \<open>k\<close>-th function relocation has the \<open>k\<close>-th address after it, the call of which runs the model registered
  for its name or the one of unmodelled functions; the place of the relocation reads as this address, and no other byte of the
  memory changes. The places of the relocations must not overlap.\<close>

theorem linker_resolves:
  fixes H :: "'z host" and p :: "'z process"
  defines "n \<equiv> ptr_size (h_arch H) div 8" and "base \<equiv> get_ext_func_base (h_arch H)"
  assumes "apart n (fun_relocs (m_relocs (m_address_space s)))" and "length (fun_relocs (m_relocs (m_address_space s))) < 2 ^ 59"
    and "binv (h_amb H) (w_builder (p_world p))"
  shows "\<exists>s' p'. link H (s, p) = Inr (Some (), (s', p')) \<and>
    m_linked_functions s' base = Some Libc_start_main_exit_wrapper \<and>
    (\<forall>k<length (fun_relocs (m_relocs (m_address_space s))). let r = fun_relocs (m_relocs (m_address_space s)) ! k;
        x = base + of_nat (Suc k * n)
      in m_linked_functions s' x = Some (case m_models (reloc_name r) of None \<Rightarrow> Unmodelled | Some m \<Rightarrow> m) \<and>
         (\<exists>v p''. state_read H (reloc_addr r) n (s', p') = Inr (Some v, (s', p'')) \<and> konst (8 * n) (take_bit (8 * n) (uint x)) v)) \<and>
    (\<forall>y. (\<forall>r\<in>set (fun_relocs (m_relocs (m_address_space s))). y \<notin> offsets (reloc_addr r) n) \<longrightarrow>
      m_memory (m_ram s') y = m_memory (m_ram s) y)"
proof -
  let ?fs = "fun_relocs (m_relocs (m_address_space s))"
  let ?s = "register_linked_function base Libc_start_main_exit_wrapper s"
  have n: "8 * n = ptr_size (h_arch H)" "0 < n" "n \<le> 8" unfolding n_def by (rule pointer_bytes)+
  have "length ?fs * n \<le> length ?fs * 8" using n(3) by simp
  also have "length ?fs * 8 < 2 ^ 63" using assms(4) by simp
  finally have len: "length ?fs * n < 2 ^ 63" .
  obtain s' p' where l: "link_relocs H (base + of_nat n) (m_relocs (m_address_space s)) (?s, p) = Inr (Some (), (s', p'))"
    "binv (h_amb H) (w_builder (p_world p'))" "links H n (base + of_nat n) ?fs s'"
    "\<forall>x. (\<forall>k<length ?fs. x \<noteq> base + of_nat n + of_nat (k * n)) \<longrightarrow> m_linked_functions s' x = m_linked_functions ?s x"
    "\<forall>y. (\<forall>r\<in>set ?fs. y \<notin> offsets (reloc_addr r) n) \<longrightarrow> m_memory (m_ram s') y = m_memory (m_ram ?s) y"
    using link_relocs_spec[OF n assms(3) len assms(5), of "base + of_nat n" ?s] by blast
  have "link H (s, p) = Inr (Some (), (s', p'))"
    using l(1) by (simp add: link_def Let_def exit_wrapper_model update_then gets_then linked_registered
      flip: base_def n_def)
  moreover have "m_linked_functions s' base = Some Libc_start_main_exit_wrapper"
  proof -
    have "base \<noteq> base + of_nat n + of_nat (k * n)" if "k < length ?fs" for k
    proof
      assume "base = base + of_nat n + of_nat (k * n)"
      then have "base + of_nat 0 = (base + of_nat (Suc k * n) :: 64 word)" by (simp add: algebra_simps)
      moreover have "Suc k * n \<le> length ?fs * n" using that by (intro mult_right_mono) simp_all
      then have "Suc k * n < 2 ^ 64" using len by simp
      ultimately show False using offset_inj[of 0 "Suc k * n" base] n(2) by simp
    qed
    with l(4) show ?thesis by (simp add: linked_registered)
  qed
  moreover have "m_linked_functions s' x = Some (case m_models (reloc_name (?fs ! k)) of None \<Rightarrow> Unmodelled | Some m \<Rightarrow> m) \<and>
      (\<exists>v p''. state_read H (reloc_addr (?fs ! k)) n (s', p') = Inr (Some v, (s', p'')) \<and> konst (8 * n) (take_bit (8 * n) (uint x)) v)"
    if "k < length ?fs" "x = base + of_nat (Suc k * n)" for k x
  proof -
    have "x = base + of_nat n + of_nat (k * n)" using that(2) by (simp add: algebra_simps)
    with l(3) that(1) have "m_linked_functions s' x = Some (model_of (?fs ! k))"
      "holds_word (m_ram s') (reloc_addr (?fs ! k)) n (arch_endianess (h_arch H)) x" by (simp_all add: links_def)
    with holds_word_read[OF _ l(2)] show ?thesis by (simp add: model_of_def)
  qed
  ultimately show ?thesis using l(5) by (intro exI[of _ s'] exI[of _ p']) (simp add: Let_def linked_registered)
qed

section \<open>A sample binary\<close>

definition sample_bfd :: bfd where
  "sample_bfd = \<lparr>bfd_is_object = True, bfd_start_address = 0x1000, bfd_mach = 8, bfd_get_flavour = Elf_flavour,
     bfd_sections = [\<lparr>bs_name = ''.comment'', bs_vma = 0, bs_size = 0, bs_flags = 0, bs_contents = []\<rparr>,
       \<lparr>bs_name = ''.text'', bs_vma = 0x1000, bs_size = 4, bs_flags = 8, bs_contents = [0xE9, 0xFB, 0x0F]\<rparr>],
     bfd_symtab_bound = 0, bfd_symtab = None, bfd_dynsym_bound = 16,
     bfd_dynsym = Some [\<lparr>sy_name = ''exit'', sy_value = 0, sy_flags = 8\<rparr>, \<lparr>sy_name = ''main'', sy_value = 0x1000, sy_flags = 10\<rparr>],
     bfd_dynrel_bound = 16, bfd_dynrel = Some [\<lparr>rl_symbol = \<lparr>sy_name = ''exit'', sy_value = 0, sy_flags = 8\<rparr>, rl_address = 0x3000\<rparr>]\<rparr>"

definition sample_api :: bfd_api where
  "sample_api = \<lparr>bfd_openr = (\<lambda>name. if name = ''a.out'' then Some sample_bfd else None), mach_x86_64 = 8, mach_arm_6 = 22,
     mach_arm_7 = 25, SEC_READONLY = 8, EXEC_P = 2, BSF_FUNCTION = 8, BSF_LOCAL = 1, BSF_GLOBAL = 2\<rparr>"

lemmas sample_api_simps = sample_bfd_def sample_api_def

theorem loader_maps_binary_witness:
  "\<exists>ld. load_binary sample_api ''a.out'' = Inr ld \<and> as_read_byte (ld_address_space ld) 0x1001 = Some 0xFB \<and>
     as_read_byte (ld_address_space ld) 0x1003 = Some 0 \<and> as_read_byte (ld_address_space ld) 0x1004 = None \<and>
     symbols_at (ld_address_space ld) 0x1000 = [\<lparr>symbol_addr = 0x1000, symbol_name = ''main'', symbol_type = FUNCTION\<rparr>] \<and>
     symbols_at (ld_address_space ld) 0 = [] \<and> ld_syscall_abi ld = LINUX_X86_64 \<and>
     m_relocs (ld_address_space ld) = [\<lparr>reloc_addr = 0x3000, reloc_name = ''exit'', reloc_type = FUNC\<rparr>]"
proof -
  have opened: "bfd_openr sample_api ''a.out'' = Some sample_bfd" by (simp add: sample_api_def)
  have "\<exists>as. load_contents sample_api sample_bfd = Inr as"
    by (simp add: load_contents_def sample_api_simps register_segment_zero_def Segment_zero_def AddressSpace_init_def
      seg_get_ref_def contains_def load_symtab_def load_dyn_symtab_def load_table_def load_dyn_relocs_def Let_def)
  then obtain ld where ld: "load_binary sample_api ''a.out'' = Inr ld"
    by (auto simp: load_binary_def opened) (auto simp: sample_api_simps arch_of_def type_of_flavour_def)
  have "find (section_covers 0x1001) (bfd_sections sample_bfd) = Some (bfd_sections sample_bfd ! 1)"
    "find (section_covers 0x1003) (bfd_sections sample_bfd) = Some (bfd_sections sample_bfd ! 1)"
    "find (section_covers 0x1004) (bfd_sections sample_bfd) = None"
    by (simp_all add: sample_bfd_def section_covers_def)
  moreover have "section_byte 0x1001 (bfd_sections sample_bfd ! 1) = 0xFB" "section_byte 0x1003 (bfd_sections sample_bfd ! 1) = 0"
    by (simp_all add: sample_bfd_def section_byte_def)
  ultimately show ?thesis
    using loader_maps_binary[OF ld opened, where a = "0x1001"] loader_maps_binary[OF ld opened, where a = "0x1003"] loader_maps_binary[OF ld opened, where a = "0x1004"]
      loader_maps_binary[OF ld opened, where a = "0x1000"] loader_maps_binary[OF ld opened, where a = "0"] ld
    by (simp add: symbols_of_def relocs_of_def table_of_def sample_api_simps symbol_kind_def)
qed

theorem linker_resolves_witness:
  "\<exists>s' p'. link sample_host (sample_state\<lparr>m_address_space := \<lparr>m_segments = [], as_symbols = Map.empty, m_relocs =
       [\<lparr>reloc_addr = 0x3000, reloc_name = ''abort'', reloc_type = FUNC\<rparr>,
        \<lparr>reloc_addr = 0x3008, reloc_name = ''stdout'', reloc_type = DATA\<rparr>,
        \<lparr>reloc_addr = 0x3010, reloc_name = ''getenv'', reloc_type = FUNC\<rparr>]\<rparr>\<rparr>, sample_process) = Inr (Some (), (s', p')) \<and>
     m_linked_functions s' 0x5000008 = Some Libc_exit \<and> m_linked_functions s' 0x5000010 = Some Unmodelled \<and>
     (\<exists>v p''. state_read sample_host 0x3010 8 (s', p') = Inr (Some v, (s', p'')) \<and> konst 64 0x5000010 v)"
proof -
  let ?s = "sample_state\<lparr>m_address_space := \<lparr>m_segments = [], as_symbols = Map.empty, m_relocs =
       [\<lparr>reloc_addr = 0x3000, reloc_name = ''abort'', reloc_type = FUNC\<rparr>,
        \<lparr>reloc_addr = 0x3008, reloc_name = ''stdout'', reloc_type = DATA\<rparr>,
        \<lparr>reloc_addr = 0x3010, reloc_name = ''getenv'', reloc_type = FUNC\<rparr>]\<rparr>\<rparr>"
  let ?fs = "fun_relocs (m_relocs (m_address_space ?s))"
  have fs: "?fs = [\<lparr>reloc_addr = 0x3000, reloc_name = ''abort'', reloc_type = FUNC\<rparr>,
      \<lparr>reloc_addr = 0x3010, reloc_name = ''getenv'', reloc_type = FUNC\<rparr>]" by (simp add: fun_relocs_def)
  have host: "h_arch sample_host = X86_64" "h_amb sample_host = sample_env" by (simp_all add: sample_host_def)
  have "offsets 0x3000 8 \<inter> offsets 0x3010 8 = {}"
  proof -
    have eight: "{..<8 :: nat} = {0, 1, 2, 3, 4, 5, 6, 7}" by auto
    show ?thesis by (simp add: offsets_def eight)
  qed
  then have ap: "apart (ptr_size (h_arch sample_host) div 8) ?fs" unfolding fs by (simp add: apart_def host ptr_size_def)
  have len: "length ?fs < 2 ^ 59" unfolding fs by simp
  have b: "binv (h_amb sample_host) (w_builder (p_world sample_process))"
    by (simp add: host sample_process_def empty_world_def binv_init)
  have models: "m_models ''abort'' = Some Libc_exit" "m_models ''getenv'' = None"
    by (simp_all add: m_models_def registered_models_def model_name_def)
  from linker_resolves[OF ap len b] show ?thesis
    unfolding fs by (auto simp: host ptr_size_def get_ext_func_base_def models All_less_Suc2)
qed

end
