(* ===== verification/LoaderTools.thy ===== *)
theory LoaderTools
  imports Loader Debugger
begin

text \<open>
  What the two demonstrations of the loader print, \<^verbatim>\<open>tools/bininfo.cpp\<close> and \<^verbatim>\<open>tools/loader_demo.cpp\<close>: the segments, the
  symbols in the order of their addresses, and a range of bytes.
\<close>

definition description :: "arch \<Rightarrow> string" where
  "description ar = (case ar of X86_64 \<Rightarrow> ''x86_64 : 64-bit : LE'' | ARM32LE \<Rightarrow> ''ARM : 32-bit : LE'')"

definition hex16 :: "64 word \<Rightarrow> string" where
  "hex16 w = replicate (16 - length (hex w)) CHR ''0'' @ hex w"

definition hex2 :: "8 word \<Rightarrow> string" where
  "hex2 b = (let s = digits 16 (unat b) in replicate (2 - length s) CHR ''0'' @ s)"

definition rule_off :: "nat \<Rightarrow> string" where
  "rule_off n = replicate n CHR ''-'' @ eol"

section \<open>bininfo\<close>

definition bininfo_segment :: "segment \<Rightarrow> string" where
  "bininfo_segment s = ''  '' @ hex16 (seg_addr s) @ ''h - '' @ hex16 (seg_addr s + seg_size s) @ ''h  '' @ seg_name s @ eol"

definition bininfo_main :: "bfd_api \<Rightarrow> string list \<Rightarrow> string res" where
  "bininfo_main B argv = (case argv of
     _ # name # _ \<Rightarrow> rbind (load_binary B name) (\<lambda>ld. Inr (
       name @ eol @ ''  arch:  '' @ description (ld_arch ld) @ eol @ ''  entry: '' @ hex8 (ld_entrypoint ld) @ ''h'' @ eol @
       eol @ ''Segments'' @ eol @ rule_off 52 @ ''  address range                          name       '' @ eol @ rule_off 52 @
       concat (map bininfo_segment (m_segments (ld_address_space ld)))))
   | _ \<Rightarrow> Inl (Exit ''1''))"

section \<open>The demonstration\<close>

definition dump_segments :: "address_space \<Rightarrow> string" where
  "dump_segments as = eol @ ''Segments'' @ eol @ rule_off 54 @ ''  address range                            name       '' @ eol @
     rule_off 54 @ concat (map (\<lambda>s. ''  0x'' @ hex16 (seg_addr s) @ '' - 0x'' @ hex16 (seg_addr s + seg_size s) @ ''  '' @ seg_name s @ eol)
       (m_segments as)) @ eol"

definition symbol_line :: "symbol \<Rightarrow> string" where
  "symbol_line sy = ''  0x'' @ hex16 (symbol_addr sy) @ ''  '' @ type_to_string (symbol_type sy) @ ''  '' @ symbol_name sy @ eol"

definition print_symbols :: "address_space \<Rightarrow> string" where
  "print_symbols as = eol @ ''Symbols'' @ eol @ rule_off 54 @ ''  address             type          name              '' @ eol @
     rule_off 54 @ concat (map (\<lambda>a. case as_symbols as a of None \<Rightarrow> [] | Some ys \<Rightarrow> concat (map symbol_line ys))
       (sorted_list_of_set (dom (as_symbols as)))) @ eol"

text \<open>A row has 16 bytes, the last one those up to the end; the end may wrap around, and then there is none.\<close>

definition hex_row :: "address_space \<Rightarrow> 64 word \<Rightarrow> nat \<Rightarrow> string" where
  "hex_row as a n = ''0x'' @ hex8 a @ '': '' @ concat (map (\<lambda>i. case as_read_byte as (a + of_nat i) of
     Some b \<Rightarrow> hex2 b @ '' '' | None \<Rightarrow> ''-- '') [0..<n]) @ eol"

definition row_length :: "64 word \<Rightarrow> 64 word \<Rightarrow> nat" where
  "row_length a e = min 16 (unat (e - a))"

lemma row_decreases:
  fixes a e :: "64 word"
  assumes "a < e"
  shows "unat (e - (a + of_nat (row_length a e))) < unat (e - a)"
proof -
  have "0 < unat (e - a)" using assms by (metis diff_gt_0_iff_gt less_irrefl unat_gt_0 right_minus_eq)
  have d: "e - (a + of_nat (row_length a e)) = (e - a) - of_nat (row_length a e)" by (simp add: diff_diff_eq)
  have n: "row_length a e \<le> unat (e - a)" "0 < row_length a e" using \<open>0 < unat (e - a)\<close> by (simp_all add: row_length_def)
  have "unat (of_nat (row_length a e) :: 64 word) = row_length a e"
    by (simp add: row_length_def unat_of_nat take_bit_nat_eq_self)
  then have "unat ((e - a) - of_nat (row_length a e)) = unat (e - a) - row_length a e"
    using n(1) by (simp add: unat_sub word_le_nat_alt)
  with \<open>0 < unat (e - a)\<close> n show ?thesis unfolding d by simp
qed

function hex_rows :: "address_space \<Rightarrow> 64 word \<Rightarrow> 64 word \<Rightarrow> string" where
  "hex_rows as a e = (if a < e then hex_row as a (row_length a e) @ hex_rows as (a + of_nat (row_length a e)) e else [])"
  by pat_completeness auto
termination
  by (relation "measure (\<lambda>(as, a, e). unat (e - a))") (simp_all add: row_decreases)

definition dump_hex :: "address_space \<Rightarrow> 64 word \<Rightarrow> 64 word \<Rightarrow> string" where
  "dump_hex as off n = eol @ ''            00 01 02 03 04 05 06 07 08 09 0A 0B 0C 0D 0E 0F'' @ eol @
     ''            -----------------------------------------------'' @ eol @ hex_rows as off (off + n) @ eol"

end
