(* ===== verification/Tools.thy ===== *)
theory Tools
  imports Loader Debugger PathGenerator
begin

text \<open>
  The three programs from the name of the binary on: it is loaded, its entry state is made with the host of its processor,
  and the tool runs on that state.
\<close>

definition load_entry :: "bfd_api \<Rightarrow> (arch \<Rightarrow> 'z host) \<Rightarrow> string \<Rightarrow> 'z process \<Rightarrow> (loader \<times> state \<times> 'z process) res" where
  "load_entry B host path p = rbind (load_binary B path) (\<lambda>ld. rbind (entry_state host ld p) (\<lambda>(s, p'). Inr (ld, s, p')))"

definition naaz_finder :: "bfd_api \<Rightarrow> 'r rand_lib \<Rightarrow> (arch \<Rightarrow> 'z host) \<Rightarrow> 'j json_api \<Rightarrow> (string \<Rightarrow> string) \<Rightarrow> nat \<Rightarrow> options \<Rightarrow>
    'z process \<Rightarrow> (report \<times> 'z process) res option" where
  "naaz_finder B R host J contents fuel opts p = (case parse_args opts of
     Inl e \<Rightarrow> Some (Inl e)
   | Inr args \<Rightarrow> (case load_entry B host (o_program opts) p of
       Inl e \<Rightarrow> Some (Inl e)
     | Inr (ld, s, p') \<Rightarrow> finder_main R (host (ld_arch ld)) J contents fuel opts s p'))"

definition naaz_path_generator :: "bfd_api \<Rightarrow> (arch \<Rightarrow> 'z host) \<Rightarrow> 'j json_api \<Rightarrow> (string \<Rightarrow> string) \<Rightarrow> nat \<Rightarrow> string \<Rightarrow> finder_args \<Rightarrow>
    'z process \<Rightarrow> ((string \<times> out_file list) list) res option" where
  "naaz_path_generator B host J contents fuel path args p = (case load_entry B host path p of
     Inl e \<Rightarrow> Some (Inl e)
   | Inr (ld, s, p') \<Rightarrow> path_generator (host (ld_arch ld)) J contents fuel args s p')"

definition naaz_debugger :: "bfd_api \<Rightarrow> (arch \<Rightarrow> 'z host) \<Rightarrow> names \<Rightarrow> nat \<Rightarrow> string list \<Rightarrow> string list \<Rightarrow> 'z process \<Rightarrow>
    (debugger \<times> 'z process) res option" where
  "naaz_debugger B host N fuel argv input p = (case argv of
     _ # path # _ \<Rightarrow> (case load_entry B host path p of
       Inl e \<Rightarrow> Some (Inl e)
     | Inr (ld, s, p') \<Rightarrow> debugger_main (host (ld_arch ld)) N fuel (tl argv) input s p')
   | _ \<Rightarrow> Some (Inl (Exit ''1'')))"

end
