(* ===== verification/Spec2Isabelle.thy ===== *)
theory Spec2Isabelle
  imports Evaluate_Properties Solver_Properties Memory_Properties File_Properties Exploration_Properties
    Executor_Properties Random_Properties Dump_Properties Debugger_Properties PathGenerator
    Loader_Properties LoaderTools Tools
begin

text \<open>
  A verification development of naaz, a symbolic executor for binaries written in C++.

  \<^bold>\<open>The program.\<close> A program is lifted to p-code, and a symbolic state is run one basic block at a time. The values of a
  state are expressions over symbols, built by the process-wide builder (\<^verbatim>\<open>src/expr\<close>), which shares equal nodes and
  simplifies while it builds. The conditions of the branches taken are collected by the constraint manager
  (\<^verbatim>\<open>src/solver/ConstraintManager.cpp\<close>), and a query goes with the constraints connected with it to Z3
  (\<^verbatim>\<open>src/solver/Z3Solver.cpp\<close>), unless the model the solver of the state (\<^verbatim>\<open>src/state/Solver.cpp\<close>) has cached answers it.

  \<^bold>\<open>Conventions.\<close> Stateful code is a function in the state and error monad of \<open>Naaz_Prelude\<close>: \<open>Inr\<close> is a normal return
  with the new state, and \<open>Inl\<close> an end of the process: \<open>Exit\<close> for \<^verbatim>\<open>exit_fail\<close>, \<open>Assertion\<close> for a failed
  \<^verbatim>\<open>assert\<close>, \<open>StdException\<close> for an exception of the standard library, and \<open>Undefined\<close> where the C++ standard gives the
  code no meaning (an uninitialised member, a signed overflow, a wrong downcast). Total correctness is stated by the
  triples \<open>tot\<close>. Shared pointers to immutable nodes are values; the weak pointers of the tables of the builder become
  \<open>None\<close> by the explicit step \<open>expire\<close>, at any time. The iteration order of sets and maps keyed by pointers depends on
  addresses: it is the parameter \<open>addr\<close> of the record \<open>amb\<close>, and every property holds for every order. The same record
  holds the hash function, the pointers of vtables and the arithmetic of the class \<^verbatim>\<open>FloatFormat\<close> of the sleigh library,
  which are not part of the repository.

  \<^bold>\<open>Constants\<close> (\<open>BVConst\<close>, \<open>BVPrint\<close>; \<^verbatim>\<open>expr/BVConst.cpp\<close>). A constant is a 64-bit word up to 64 bits and a GMP integer
  above; \<open>bv_rep n v c\<close> says that \<open>c\<close> is the canonical constant of width \<open>n\<close> and value \<open>v\<close>. \<open>BVConst_Spec\<close> and
  \<open>BVConst_Struct\<close> show that the operations compute on the values, \<open>BVConst_Properties\<close> states it together with the
  cases where they do not, and \<open>BVPrint\<close> shows that printing is undone by parsing up to 4000 bits (the buffer of the code
  holds 4095 characters).

  \<^bold>\<open>Expressions\<close> (\<open>Expr\<close>, \<open>ExprSem\<close>, \<open>ExprFacts\<close>, \<open>ExprEq\<close>; \<^verbatim>\<open>expr/Expr.cpp\<close>, \<^verbatim>\<open>expr/FPConst.cpp\<close>). One constructor for
  each node class, with its kind, width, children, hash and equality. \<open>sem\<close> gives every expression its SMT-LIB value;
  \<open>ExprEq\<close> shows that equality decides identity on well-formed nodes up to the classes that report a wrong kind.

  \<^bold>\<open>The builder\<close> (\<open>ExprBuilder\<close>, \<open>ExprBuilderArith\<close>, \<open>ExprBuilderLogic\<close>, \<open>ExprBuilderFP\<close>; \<^verbatim>\<open>expr/ExprBuilder.cpp\<close>).
  \<open>ExprIntern\<close> proves the invariant \<open>binv\<close> of the tables and the triples \<open>builds\<close>; the theories \<open>ExprBuilder_Spec\<close>,
  \<open>ExtractSpec\<close>, \<open>NaryOps\<close>, \<open>ArithSpec\<close>, \<open>AddSpec\<close>, \<open>LogicSpec\<close>, \<open>ConcatSpec\<close> and \<open>ShiftDivSpec\<close> prove that the result of each
  simplifying function means what its name says. What the n-ary operations share is the locale \<open>nary_op\<close>, the two
  connectives the locale \<open>connective\<close>, and the two shifts the locale \<open>logical_shift\<close>, each interpreted on the functions of the code. Simplifications
  that are wrong in the code are visible as side conditions (\<open>extract_ok\<close>, \<open>shift_ok\<close>, \<open>concat_ok\<close>, \<open>eq_ok\<close>, \<open>neg_ok\<close>).
  \<open>Builder_Properties\<close> collects the properties.

  \<^bold>\<open>Evaluation\<close> (\<open>Evaluate\<close>, \<open>ConstFold\<close>, \<open>EvalSpec\<close>, \<open>Evaluate_Properties\<close>; \<^verbatim>\<open>expr/util.cpp\<close>). The evaluation of an
  expression under an assignment, with its cache: \<open>ConstFold\<close> shows that the builder folds constants, and \<open>EvalSpec\<close> that
  evaluation refines \<open>sem\<close>.

  \<^bold>\<open>Constraints and queries\<close> (\<open>ConstraintManager\<close>, \<open>ConstraintSpec\<close>, \<open>Z3Solver\<close>, \<open>Z3Spec\<close>, \<open>Solver\<close>, \<open>SolverSpec\<close>,
  \<open>SolverInv\<close>, \<open>Solver_Properties\<close>). \<open>ConstraintSpec\<close> proves the invariant of the manager (its maps index the
  constraints) and that leaving out constraints on other symbols is sound. Z3 is the record \<open>z3_api\<close> of its constructors
  and the record \<open>z3_engine\<close> of its procedures; \<open>z3_sound\<close> and \<open>engine_sound\<close> state its documented behaviour, and
  \<open>Z3Instance\<close> gives an instance where terms are their meanings. \<open>Z3Spec\<close> proves that the translation keeps the meaning
  on bit vectors and formulas. \<open>SolverInv\<close> proves the invariant of the cached model, and with it that both answers of a query
  are sound with respect to all the constraints of the path.
  \<open>SolverModel\<close> proves that an answer SAT leaves a cached model that solves the path, and that the values the solver then
  gives are the values under it, when the models of Z3 satisfy what was asked (\<open>models_sound\<close>).

  \<^bold>\<open>Memory and files\<close> (\<open>AddressSpace\<close>, \<open>MapMemory\<close>, \<open>MemorySpec\<close>, \<open>Memory_Properties\<close>; \<^verbatim>\<open>loader/AddressSpace.cpp\<close>,
  \<^verbatim>\<open>state/MapMemory.cpp\<close>; \<open>FileSystem\<close>, \<open>FileSpec\<close>, \<open>File_Properties\<close>; \<^verbatim>\<open>state/File.cpp\<close>, \<^verbatim>\<open>state/FileSystem.cpp\<close>). The segments of
  the program, the memory of a state over them with its three treatments of bytes never written, and the files whose contents
  are such memories. The properties are the round trips of writing and reading and the invariant of the descriptors.

  \<^bold>\<open>The state\<close> (\<open>Lifter\<close>, \<open>State\<close>, \<open>Arch\<close>, \<open>Dump\<close>, \<open>Dump_Properties\<close>; \<^verbatim>\<open>lifter/PCodeLifter.cpp\<close>, \<^verbatim>\<open>state/State.cpp\<close>,
  \<^verbatim>\<open>src/arch\<close>). Sleigh is the record \<open>sleigh\<close> of its queries and its translator, and the lifter the cache of blocks before it.
  A \<open>state\<close> has the members of the class, a \<open>process\<close> what all the states share, and \<open>host\<close> bundles the parameters; an operation
  on a state also ends in \<open>None\<close>, the exception of an unsatisfiable state. \<open>Dump\<close> writes the files of a state and reads the
  configuration of an initial one; \<open>Dump_Properties\<close> proves that the files hold one solution of the path.

  \<^bold>\<open>Models\<close> (\<open>LibcModels\<close>, \<open>StringModels\<close>, \<open>StdioModels\<close>, \<open>Linker\<close>, \<open>Random_Properties\<close>; \<^verbatim>\<open>src/models\<close>). The functions that
  naaz replaces, with the forks of the string functions, and the linking of relocations to them. \<open>Random_Properties\<close> relates
  the generator behind \<^verbatim>\<open>rand\<close> to the additive feedback sequence it computes.

  \<^bold>\<open>Loading\<close> (\<open>Loader\<close>, \<open>LoaderTools\<close>, \<open>Loader_Properties\<close>; \<^verbatim>\<open>loader/BFDLoader.cpp\<close>). The BFD library is the record
  \<open>bfd_api\<close> of what it returns for a file. The address space is shown to be that of the file, and linking to lead every
  relocation of a function to its model, in the table of functions and in memory.

  \<^bold>\<open>The interpreter\<close> (\<open>Executor\<close>, \<open>ExecutorSpec\<close>, \<open>Executor_Properties\<close>; \<^verbatim>\<open>executor/PCodeExecutor.cpp\<close>). The operations of
  p-code on a context of a state, its successors and temporaries, and the execution of a block. The specification gives the
  integer operations their values on \<open>int\<close>, and a conditional jump is shown to split the assignments of the path.

  \<^bold>\<open>Exploration\<close> (\<open>Exploration\<close>, \<open>ExplorationSpec\<close>, \<open>ExplorationEnd\<close>, \<open>Exploration_Properties\<close>; \<^verbatim>\<open>src/executor\<close>). The manager
  is written over a \<open>policy\<close> (a technique) and a \<open>machine\<close> (the interpreter), as the template of the code is over its
  parameter; the four techniques are policies, and locales state what a technique promises: it neither loses nor invents
  states. With it a search is sound, complete when it ends, ends on a well-founded tree of executions, and breadth-first
  search finds a state in any tree that has one.

  \<^bold>\<open>Printing and tools\<close> (\<open>Printer\<close>, \<open>Debugger\<close>, \<open>Debugger_Properties\<close>, \<open>Finder\<close>, \<open>PathGenerator\<close>, \<open>Tools\<close>;
  \<^verbatim>\<open>expr/util.cpp\<close>, \<^verbatim>\<open>src/tools\<close>).
  Expressions are printed with a cache, which is shown not to matter. The debugger is a function from command lines to its
  output and its states; the finder and the path generator go from the parsed options to the files they leave behind; \<open>Tools\<close>
  puts the loader before them. What
  they print of the host (the names of registers, the text of doubles) is the record \<open>names\<close>.

  \<^bold>\<open>Bounds.\<close> Recursion on expressions and lists is structural or decreases \<open>size\<close>; the search for dependencies
  terminates because the set of symbols not yet visited shrinks. The loops that look for the end of a string in memory take
  fuel, the parameter \<open>fuel\<close> of the models and of the interpreter; running out of it is the failure \<open>Undefined\<close> and never a
  result, and no property depends on its value. The loops of the exploration and of the debugger are partial
  functions whose value is \<open>None\<close> when they do not end; \<open>exploration_ends\<close> and \<open>bfs_finds_goal\<close> show when they do.

  \<^bold>\<open>Not modelled.\<close> The constructor of the lifter (it loads the files of sleigh, which pugixml parses), the parser of the
  command line (the argparse library) and the checks of the output directory, readline and the banner of the debugger, the
  reader of the commands of \<^verbatim>\<open>loader_demo\<close>, two functions of \<^verbatim>\<open>random.cpp\<close> that nothing calls, logging, and the tests.
\<close>

end
